(* ===== verification/Prelude.thy ===== *)
theory Prelude
  imports Main "HOL-Library.Word" "HOL-Library.Code_Target_Nat"
begin

text \<open>
  What the component theories share: the result type of code that may run into undefined
  behaviour or recurse past the C stack, GLib's hash tables with their laws as a locale,
  GLib's pointer arrays as lists, decimal printing, and the rule collections of the
  development.
\<close>

unbundle bit_operations_syntax

named_theorems res_simps \<open>evaluation of the result monad\<close>

section \<open>Results of code that may not return\<close>

text \<open>
  \<open>Ret\<close>: the function returns. \<open>Ub\<close>: it reaches undefined behaviour (a null or freed
  pointer is read, an array is indexed out of range, a union is read through the wrong
  member). \<open>Fuel\<close>: the recursion is deeper than the fuel, which stands for the depth of
  the C stack; a recursion that never ends is \<open>Fuel\<close> for every depth. \<open>Abort\<close>: a
  failed \<open>g_assert\<close> ends the process.
\<close>

datatype 'a res = Ret 'a | Ub | Fuel | Abort

primrec rbind :: "'a res \<Rightarrow> ('a \<Rightarrow> 'b res) \<Rightarrow> 'b res" where
  "rbind (Ret x) f = f x"
| "rbind Ub f = Ub"
| "rbind Fuel f = Fuel"
| "rbind Abort f = Abort"

declare rbind.simps [res_simps]

lemma rbind_Ret_iff [simp]:
  "rbind m f = Ret y \<longleftrightarrow> (\<exists>x. m = Ret x \<and> f x = Ret y)"
  by (cases m) auto

lemma rbind_Fuel_iff:
  "rbind m f = Fuel \<longleftrightarrow> m = Fuel \<or> (\<exists>x. m = Ret x \<and> f x = Fuel)"
  by (cases m) auto

lemma rbind_Ub_iff:
  "rbind m f = Ub \<longleftrightarrow> m = Ub \<or> (\<exists>x. m = Ret x \<and> f x = Ub)"
  by (cases m) auto

lemma rbind_assoc: "rbind (rbind m f) g = rbind m (\<lambda>x. rbind (f x) g)"
  by (cases m) auto

lemma rbind_cong [fundef_cong]:
  "m = m' \<Longrightarrow> (\<And>x. m' = Ret x \<Longrightarrow> f x = f' x) \<Longrightarrow> rbind m f = rbind m' f'"
  by (cases m') auto

text \<open>A null or dangling pointer that is dereferenced is undefined behaviour.\<close>

definition deref :: "'a option \<Rightarrow> 'a res" where
  "deref p = (case p of None \<Rightarrow> Ub | Some x \<Rightarrow> Ret x)"

lemma deref_simps [simp, res_simps]: "deref None = Ub" "deref (Some x) = Ret x"
  by (simp_all add: deref_def)

lemma deref_Ret_iff [simp]: "deref p = Ret x \<longleftrightarrow> p = Some x"
  by (cases p) auto

lemma deref_not_Fuel [simp]: "deref p \<noteq> Fuel"
  by (cases p) auto

text \<open>\<open>array->pdata[i]\<close>: a read past the end is undefined behaviour.\<close>

definition pdata :: "'a list \<Rightarrow> nat \<Rightarrow> 'a res" where
  "pdata xs i = (if i < length xs then Ret (xs ! i) else Ub)"

lemma pdata_Ret_iff [simp]: "pdata xs i = Ret x \<longleftrightarrow> i < length xs \<and> x = xs ! i"
  by (auto simp: pdata_def)

lemma pdata_not_Fuel [simp]: "pdata xs i \<noteq> Fuel"
  by (simp add: pdata_def)

section \<open>GHashTable\<close>

text \<open>
  A GLib hash table is modelled by the list of its entries in iteration order. The order
  GLib iterates in is unspecified; inserting a new key puts it at the end, replacing a
  value keeps its place, as \<open>g_hash_table_insert\<close> keeps the old node.
\<close>

type_synonym ('k, 'v) ghash = "('k \<times> 'v) list"

definition gh_new :: "('k, 'v) ghash" where
  "gh_new = []"

definition gh_lookup :: "('k, 'v) ghash \<Rightarrow> 'k \<Rightarrow> 'v option" where
  "gh_lookup t k = map_of t k"

primrec gh_insert :: "('k, 'v) ghash \<Rightarrow> 'k \<Rightarrow> 'v \<Rightarrow> ('k, 'v) ghash" where
  "gh_insert [] k v = [(k, v)]"
| "gh_insert (e # t) k v = (if fst e = k then (k, v) # t else e # gh_insert t k v)"

definition gh_remove :: "('k, 'v) ghash \<Rightarrow> 'k \<Rightarrow> ('k, 'v) ghash" where
  "gh_remove t k = filter (\<lambda>e. fst e \<noteq> k) t"

definition gh_contains :: "('k, 'v) ghash \<Rightarrow> 'k \<Rightarrow> bool" where
  "gh_contains t k = (gh_lookup t k \<noteq> None)"

definition gh_wf :: "('k, 'v) ghash \<Rightarrow> bool" where
  "gh_wf t = distinct (map fst t)"

lemma gh_keys_insert: "fst ` set (gh_insert t k v) = insert k (fst ` set t)"
  by (induction t) auto

lemma gh_lookup_insert: "gh_lookup (gh_insert t k v) = (gh_lookup t)(k \<mapsto> v)"
  unfolding gh_lookup_def by (induction t) (auto simp: fun_eq_iff)

lemma gh_lookup_remove: "gh_lookup (gh_remove t k) = (gh_lookup t)(k := None)"
  unfolding gh_lookup_def gh_remove_def by (induction t) (auto simp: fun_eq_iff)

lemma gh_wf_insert: "gh_wf t \<Longrightarrow> gh_wf (gh_insert t k v)"
  unfolding gh_wf_def by (induction t) (auto simp: gh_keys_insert)

lemma gh_wf_remove: "gh_wf t \<Longrightarrow> gh_wf (gh_remove t k)"
  unfolding gh_wf_def gh_remove_def by (induction t) auto

text \<open>The contract the components rely on, and its provider.\<close>

locale hash_table =
  fixes empty :: "'t"
    and lookup :: "'t \<Rightarrow> 'k \<Rightarrow> 'v option"
    and insert :: "'t \<Rightarrow> 'k \<Rightarrow> 'v \<Rightarrow> 't"
    and remove :: "'t \<Rightarrow> 'k \<Rightarrow> 't"
    and wf :: "'t \<Rightarrow> bool"
  assumes lookup_empty: "lookup empty k = None"
    and lookup_insert: "lookup (insert t k v) = (lookup t)(k \<mapsto> v)"
    and lookup_remove: "lookup (remove t k) = (lookup t)(k := None)"
    and wf_empty: "wf empty"
    and wf_insert: "wf t \<Longrightarrow> wf (insert t k v)"
    and wf_remove: "wf t \<Longrightarrow> wf (remove t k)"
begin

lemma lookup_insert_same: "lookup (insert t k v) k = Some v"
  by (simp add: lookup_insert)

lemma lookup_insert_other: "k' \<noteq> k \<Longrightarrow> lookup (insert t k v) k' = lookup t k'"
  by (simp add: lookup_insert)

lemma lookup_remove_same: "lookup (remove t k) k = None"
  by (simp add: lookup_remove)

lemma lookup_remove_other: "k' \<noteq> k \<Longrightarrow> lookup (remove t k) k' = lookup t k'"
  by (simp add: lookup_remove)

lemma dom_insert: "dom (lookup (insert t k v)) = {k} \<union> dom (lookup t)"
  by (auto simp: lookup_insert)

lemma dom_remove: "dom (lookup (remove t k)) = dom (lookup t) - {k}"
  by (auto simp: lookup_remove)

lemma insert_overwrites: "lookup (insert (insert t k v) k w) = lookup (insert t k w)"
  by (simp add: lookup_insert)

end

interpretation gh: hash_table gh_new gh_lookup gh_insert gh_remove gh_wf
  by unfold_locales
    (simp_all add: gh_lookup_insert gh_lookup_remove gh_wf_insert gh_wf_remove,
     simp_all add: gh_new_def gh_lookup_def gh_wf_def)

lemmas gh_lookup_simps [simp] =
  gh.lookup_empty gh.lookup_insert_same gh.lookup_insert_other
  gh.lookup_remove_same gh.lookup_remove_other

lemma gh_lookup_in_set: "gh_lookup t k = Some v \<Longrightarrow> (k, v) \<in> set t"
  by (simp add: gh_lookup_def map_of_SomeD)

lemma gh_lookup_of_set: "gh_wf t \<Longrightarrow> (k, v) \<in> set t \<Longrightarrow> gh_lookup t k = Some v"
  by (simp add: gh_lookup_def gh_wf_def)

lemma gh_insert_fresh: "gh_lookup t k = None \<Longrightarrow> gh_insert t k v = t @ [(k, v)]"
  by (induction t) (auto simp: gh_lookup_def)

lemma gh_contains_iff: "gh_contains t k \<longleftrightarrow> k \<in> fst ` set t"
  by (simp add: gh_contains_def gh_lookup_def map_of_eq_None_iff)

section \<open>Searching an array\<close>

text \<open>The index of the first element that a loop with \<open>break\<close> finds.\<close>

fun first_index :: "('a \<Rightarrow> bool) \<Rightarrow> 'a list \<Rightarrow> nat option" where
  "first_index P [] = None"
| "first_index P (x # xs) = (if P x then Some 0 else map_option Suc (first_index P xs))"

lemma first_index_Some: "first_index P xs = Some i \<Longrightarrow> i < length xs \<and> P (xs ! i)"
  by (induction xs arbitrary: i) (auto split: if_splits)

section \<open>Decimal printing\<close>

text \<open>The digits that \<open>%u\<close> and \<open>%d\<close> print.\<close>

definition digit_char :: "nat \<Rightarrow> char" where
  "digit_char d = char_of (48 + d)"

fun show_nat :: "nat \<Rightarrow> string" where
  "show_nat n = (if n < 10 then [digit_char n] else show_nat (n div 10) @ [digit_char (n mod 10)])"

declare show_nat.simps [simp del]

definition show_int :: "int \<Rightarrow> string" where
  "show_int i = (if i < 0 then ''-'' @ show_nat (nat (- i)) else show_nat (nat i))"

text \<open>The number a digit string denotes, as \<open>strtoul\<close> in base 10 reads it.\<close>

definition digit_val :: "char \<Rightarrow> nat" where
  "digit_val c = of_char c - 48"

definition is_digit :: "char \<Rightarrow> bool" where
  "is_digit c = (48 \<le> (of_char c :: nat) \<and> (of_char c :: nat) \<le> 57)"

definition nat_of_digits :: "string \<Rightarrow> nat" where
  "nat_of_digits s = foldl (\<lambda>n c. 10 * n + digit_val c) 0 s"

lemma digit_val_char: "d < 10 \<Longrightarrow> digit_val (digit_char d) = d"
  by (simp add: digit_val_def digit_char_def)

lemma is_digit_char: "d < 10 \<Longrightarrow> is_digit (digit_char d)"
  by (simp add: is_digit_def digit_char_def)

lemma show_nat_nonempty [simp]: "show_nat n \<noteq> []"
  by (subst show_nat.simps) simp

lemma show_nat_digits: "list_all is_digit (show_nat n)"
proof (induction n rule: show_nat.induct)
  case (1 n)
  then show ?case
    by (subst show_nat.simps) (auto simp: is_digit_char)
qed

lemma nat_of_digits_show_nat: "nat_of_digits (show_nat n) = n"
proof (induction n rule: show_nat.induct)
  case (1 n)
  then show ?case
    by (subst show_nat.simps) (auto simp: nat_of_digits_def digit_val_char)
qed

end
