(* ===== verification/Float64.thy ===== *)
theory Float64
  imports Complex_Main Prelude
begin

text \<open>
  The C type \<open>double\<close> as the program uses it: IEEE 754 binary64 with round to nearest,
  ties to even, evaluated without excess precision. A finite value is a sign, an integer
  significand and an exponent, \<open>(-1)^s * m * 2^e\<close>; arithmetic is exact integer arithmetic
  followed by one rounding. The sign and payload of a NaN are not represented.
\<close>

datatype f64 = F64_NaN | F64_Inf bool | F64_Fin bool int int

text \<open>The representable values, each finite one in its unique normal form.\<close>

fun f64_wf :: "f64 \<Rightarrow> bool" where
  "f64_wf (F64_Fin s m e) =
     (0 \<le> m \<and> m < 2 ^ 53 \<and> -1074 \<le> e \<and> e \<le> 971 \<and> (e = -1074 \<or> 2 ^ 52 \<le> m))"
| "f64_wf _ = True"

abbreviation f64_is_nan :: "f64 \<Rightarrow> bool" where
  "f64_is_nan x \<equiv> x = F64_NaN"

fun f64_finite :: "f64 \<Rightarrow> bool" where
  "f64_finite (F64_Fin _ _ _) = True"
| "f64_finite _ = False"

text \<open>Powers of two, with an equation that evaluates by squaring.\<close>

definition pow2 :: "int \<Rightarrow> int" where
  pow2_eq [simp]: "pow2 k = 2 ^ nat k"

lemma pow2_code [code]:
  "pow2 k = (if k \<le> 0 then 1
     else let h = pow2 (k div 2) in if even k then h * h else 2 * (h * h))"
proof (cases "k \<le> 0")
  case False
  moreover have "k = k div 2 + k div 2 + (if even k then 0 else 1)"
    using odd_two_times_div_two_succ [of k] by auto
  ultimately have n: "nat k = nat (k div 2) + nat (k div 2) + (if even k then 0 else 1)"
    by (smt (verit) nat_add_distrib nat_1 nat_0 pos_imp_zdiv_nonneg_iff One_nat_def)
  have "(2::int) ^ nat k = 2 ^ nat (k div 2) * 2 ^ nat (k div 2) * (if even k then 1 else 2)"
    by (subst n) (simp add: power_add)
  with False show ?thesis by (simp add: Let_def)
qed simp

text \<open>A finite value in units of \<open>2^-1074\<close>, the least positive double: an integer.\<close>

fun f64_units :: "f64 \<Rightarrow> int" where
  "f64_units (F64_Fin s m e) = (if s then - m else m) * pow2 (e + 1074)"
| "f64_units _ = 0"

section \<open>Constants\<close>

definition f64_zero :: f64 where "f64_zero = F64_Fin False 0 (-1074)"
definition f64_one :: f64 where "f64_one = F64_Fin False 4503599627370496 (-52)"
definition G_MAXDOUBLE :: f64 where "G_MAXDOUBLE = F64_Fin False 9007199254740991 971"
definition G_MINDOUBLE :: f64 where "G_MINDOUBLE = F64_Fin False 4503599627370496 (-1074)"
definition DBL_MIN :: f64 where "DBL_MIN = F64_Fin False 4503599627370496 (-1074)"
definition DBL_EPSILON :: f64 where "DBL_EPSILON = F64_Fin False 4503599627370496 (-104)"

section \<open>Comparison\<close>

text \<open>Comparisons with a NaN are false; the two zeros are equal.\<close>

fun f64_lt :: "f64 \<Rightarrow> f64 \<Rightarrow> bool" where
  "f64_lt F64_NaN _ = False"
| "f64_lt _ F64_NaN = False"
| "f64_lt (F64_Inf s) (F64_Inf t) = (s \<and> \<not> t)"
| "f64_lt (F64_Inf s) (F64_Fin _ _ _) = s"
| "f64_lt (F64_Fin _ _ _) (F64_Inf t) = (\<not> t)"
| "f64_lt (F64_Fin s m e) (F64_Fin t n g) =
     (f64_units (F64_Fin s m e) < f64_units (F64_Fin t n g))"

fun f64_eq :: "f64 \<Rightarrow> f64 \<Rightarrow> bool" where
  "f64_eq F64_NaN _ = False"
| "f64_eq _ F64_NaN = False"
| "f64_eq (F64_Inf s) (F64_Inf t) = (s = t)"
| "f64_eq (F64_Inf s) (F64_Fin _ _ _) = False"
| "f64_eq (F64_Fin _ _ _) (F64_Inf t) = False"
| "f64_eq (F64_Fin s m e) (F64_Fin t n g) =
     (f64_units (F64_Fin s m e) = f64_units (F64_Fin t n g))"

definition f64_le :: "f64 \<Rightarrow> f64 \<Rightarrow> bool" where
  "f64_le x y = (f64_lt x y \<or> f64_eq x y)"

text \<open>A double used as a condition: true unless it compares equal to zero.\<close>

definition f64_true :: "f64 \<Rightarrow> bool" where
  "f64_true x = (\<not> f64_eq x f64_zero)"

definition f64_of_bool :: "bool \<Rightarrow> f64" where
  "f64_of_bool b = (if b then f64_one else f64_zero)"

lemma f64_lt_irrefl [simp]: "\<not> f64_lt x x"
  by (cases x) auto

lemma f64_eq_refl_iff: "f64_eq x x \<longleftrightarrow> \<not> f64_is_nan x"
  by (cases x) auto

lemma f64_eq_sym: "f64_eq x y = f64_eq y x"
  by (cases x; cases y) auto

lemma f64_lt_trans: "f64_lt x y \<Longrightarrow> f64_lt y z \<Longrightarrow> f64_lt x z"
  by (cases x; cases y; cases z) (auto simp del: f64_units.simps)

lemma f64_eq_trans: "f64_eq x y \<Longrightarrow> f64_eq y z \<Longrightarrow> f64_eq x z"
  by (cases x; cases y; cases z) (auto simp del: f64_units.simps)

lemma f64_lt_eq_trans: "f64_lt x y \<Longrightarrow> f64_eq y z \<Longrightarrow> f64_lt x z"
  by (cases x; cases y; cases z) (auto simp del: f64_units.simps)

lemma f64_eq_lt_trans: "f64_eq x y \<Longrightarrow> f64_lt y z \<Longrightarrow> f64_lt x z"
  by (cases x; cases y; cases z) (auto simp del: f64_units.simps)

lemma f64_le_refl_iff: "f64_le x x \<longleftrightarrow> \<not> f64_is_nan x"
  by (simp add: f64_le_def f64_eq_refl_iff)

lemma f64_le_trans: "f64_le x y \<Longrightarrow> f64_le y z \<Longrightarrow> f64_le x z"
  unfolding f64_le_def
  by (blast intro: f64_lt_trans f64_eq_trans f64_lt_eq_trans f64_eq_lt_trans)

lemma f64_lt_imp_le: "f64_lt x y \<Longrightarrow> f64_le x y"
  by (simp add: f64_le_def)

lemma f64_not_lt: "\<not> f64_is_nan x \<Longrightarrow> \<not> f64_is_nan y \<Longrightarrow> (\<not> f64_lt x y) = f64_le y x"
  unfolding f64_le_def by (cases x; cases y) (auto simp del: f64_units.simps)

lemma f64_not_le: "\<not> f64_is_nan x \<Longrightarrow> \<not> f64_is_nan y \<Longrightarrow> (\<not> f64_le x y) = f64_lt y x"
  using f64_not_lt [of y x] by blast

lemma f64_le_antisym: "f64_le x y \<Longrightarrow> f64_le y x \<Longrightarrow> f64_eq x y"
  unfolding f64_le_def by (cases x; cases y) (auto simp del: f64_units.simps)

lemma f64_lt_le_trans: "f64_lt x y \<Longrightarrow> f64_le y z \<Longrightarrow> f64_lt x z"
  unfolding f64_le_def by (blast intro: f64_lt_trans f64_lt_eq_trans)

lemma f64_le_lt_trans: "f64_le x y \<Longrightarrow> f64_lt y z \<Longrightarrow> f64_lt x z"
  unfolding f64_le_def by (blast intro: f64_lt_trans f64_eq_lt_trans)

lemma f64_lt_nan [simp]: "\<not> f64_lt F64_NaN x" "\<not> f64_lt x F64_NaN"
  by (cases x; simp)+

lemma f64_eq_nan [simp]: "\<not> f64_eq F64_NaN x" "\<not> f64_eq x F64_NaN"
  by (cases x; simp)+

lemma f64_le_nan [simp]: "\<not> f64_le F64_NaN x" "\<not> f64_le x F64_NaN"
  by (simp_all add: f64_le_def)

lemma f64_le_not_nan: "f64_le x y \<Longrightarrow> \<not> f64_is_nan x \<and> \<not> f64_is_nan y"
  by auto

lemma f64_true_of_bool [simp]: "f64_true (f64_of_bool b) = b"
  by (simp add: f64_true_def f64_of_bool_def f64_zero_def f64_one_def)

lemma f64_true_nan [simp]: "f64_true F64_NaN"
  by (simp add: f64_true_def)

text \<open>Two values in normal form that compare equal are the same, up to the sign of zero.\<close>

lemma f64_max_finite: "f64_wf x \<Longrightarrow> f64_finite x \<Longrightarrow> f64_le x G_MAXDOUBLE"
proof (cases x)
  case (F64_Fin s m e)
  assume "f64_wf x" "f64_finite x"
  with F64_Fin have b: "0 \<le> m" "m \<le> 9007199254740991" "-1074 \<le> e" "e \<le> 971" by auto
  have "m * 2 ^ nat (e + 1074) \<le> 9007199254740991 * 2 ^ nat (971 + 1074)"
    using b by (intro mult_mono power_increasing) auto
  moreover have "- m * 2 ^ nat (e + 1074) \<le> 0"
    using b by simp
  ultimately have "f64_units x \<le> f64_units G_MAXDOUBLE"
    using F64_Fin by (auto simp: G_MAXDOUBLE_def intro: order_trans)
  then show ?thesis
    using F64_Fin by (auto simp: f64_le_def G_MAXDOUBLE_def simp del: f64_units.simps)
qed auto

section \<open>Rounding\<close>

text \<open>\<open>n / d\<close> rounded to the nearest integer, ties to even.\<close>

definition rne :: "int \<Rightarrow> int \<Rightarrow> int" where
  "rne n d =
     (let q = n div d; r = n mod d
      in if 2 * r < d then q else if d < 2 * r then q + 1 else if even q then q else q + 1)"

lemma rne_nearest: "0 < d \<Longrightarrow> 2 * \<bar>rne n d * d - n\<bar> \<le> d"
proof -
  assume d: "0 < d"
  have n: "n = n div d * d + n mod d" by (rule div_mult_mod_eq [symmetric])
  have r: "0 \<le> n mod d" "n mod d < d" using d by auto
  have e0: "n div d * d - n = - (n mod d)"
    using minus_div_mult_eq_mod [of n d] by linarith
  have e1: "(n div d + 1) * d - n = d - n mod d"
    using e0 by (simp add: distrib_right)
  show ?thesis
    using r by (simp add: rne_def Let_def e0 e1)
qed

lemma int_div_less_iff: "0 < d \<Longrightarrow> n div d < k \<longleftrightarrow> n < k * d" for n d k :: int
proof -
  assume d: "0 < d"
  have n: "n div d * d + n mod d = n" by (rule div_mult_mod_eq)
  have r: "0 \<le> n mod d" "n mod d < d" using d by auto
  show ?thesis
  proof
    assume "n div d < k"
    then have "n div d + 1 \<le> k" by simp
    then have "(n div d + 1) * d \<le> k * d" using d by (intro mult_right_mono) auto
    then have "n div d * d + d \<le> k * d" by (simp only: distrib_right mult_1)
    with n r show "n < k * d" by linarith
  next
    assume "n < k * d"
    with n r have "n div d * d < k * d" by linarith
    with d show "n div d < k" by simp
  qed
qed

lemma rne_exact [simp]: "0 < d \<Longrightarrow> rne (k * d) d = k"
  by (simp add: rne_def)

lemma rne_nonneg: "0 \<le> n \<Longrightarrow> 0 < d \<Longrightarrow> 0 \<le> rne n d"
  by (auto simp: rne_def Let_def pos_imp_zdiv_nonneg_iff intro: add_nonneg_nonneg)

lemma rne_le: "n \<le> k * d \<Longrightarrow> 0 < d \<Longrightarrow> rne n d \<le> k"
proof -
  assume a: "n \<le> k * d" "0 < d"
  show "rne n d \<le> k"
  proof (cases "n = k * d")
    case False
    with a have "n < k * d" by simp
    then have "n div d < k" using a(2) by (simp add: int_div_less_iff)
    then show ?thesis by (auto simp: rne_def Let_def)
  qed (use a in simp)
qed

lemma rne_ge: "k * d \<le> n \<Longrightarrow> 0 < d \<Longrightarrow> k \<le> rne n d"
proof -
  assume a: "k * d \<le> n" "0 < d"
  then have "k \<le> n div d" using int_div_less_iff [of d n k] by linarith
  then show ?thesis by (auto simp: rne_def Let_def)
qed

text \<open>The number of bits of a natural number.\<close>

function f64_bitlen :: "int \<Rightarrow> int" where
  "f64_bitlen n = (if n \<le> 0 then 0 else 1 + f64_bitlen (n div 2))"
  by pat_completeness auto
termination
  by (relation "measure nat") auto

declare f64_bitlen.simps [simp del]

lemma f64_bitlen_nonneg: "0 \<le> f64_bitlen n"
proof (induction n rule: f64_bitlen.induct)
  case (1 n)
  then show ?case by (subst f64_bitlen.simps) auto
qed

lemma f64_bitlen_bounds:
  "0 < n \<Longrightarrow> 2 ^ nat (f64_bitlen n - 1) \<le> n \<and> n < 2 ^ nat (f64_bitlen n) \<and> 0 < f64_bitlen n"
proof (induction n rule: f64_bitlen.induct)
  case (1 n)
  show ?case
  proof (cases "n = 1")
    case True
    then show ?thesis by (simp add: f64_bitlen.simps)
  next
    case False
    with 1 have h: "0 < n div 2" by auto
    let ?b = "f64_bitlen (n div 2)"
    from 1 h have b: "2 ^ nat (?b - 1) \<le> n div 2" "n div 2 < 2 ^ nat ?b" "0 < ?b" by auto
    then have p: "2 ^ nat ?b = 2 * (2::int) ^ nat (?b - 1)"
      by (simp flip: power_Suc add: Suc_nat_eq_nat_zadd1)
    have "f64_bitlen n = 1 + ?b" using 1(2) by (subst f64_bitlen.simps) simp
    moreover have "2 ^ nat (1 + ?b) = 2 * (2::int) ^ nat ?b"
      using b(3) by (simp flip: power_Suc add: Suc_nat_eq_nat_zadd1 add.commute)
    moreover have "2 * (n div 2) \<le> n" "n < 2 * (n div 2) + 2" by auto
    ultimately show ?thesis using b p by auto
  qed
qed

lemma f64_bitlen_num [simp]:
  "f64_bitlen 0 = 0" "f64_bitlen 1 = 1"
  "f64_bitlen (numeral k) = 1 + f64_bitlen (numeral k div 2)"
  by (subst f64_bitlen.simps; simp add: f64_bitlen.simps [of 0])+

text \<open>
  \<open>f64_round s n d e\<close> is the double nearest to \<open>(-1)^s * (n / d) * 2^e\<close>, for \<open>0 \<le> n\<close>
  and \<open>0 < d\<close> with \<open>n = 0\<close> or \<open>d \<le> n\<close>.
\<close>

definition f64_round :: "bool \<Rightarrow> int \<Rightarrow> int \<Rightarrow> int \<Rightarrow> f64" where
  "f64_round s n d e =
     (if n = 0 then F64_Fin s 0 (-1074)
      else
        let t = max (-1074) (e + f64_bitlen (n div d) - 53);
            m = (if t \<le> e then rne (n * pow2 (e - t)) d else rne n (d * pow2 (t - e)));
            t' = (if m = 2 ^ 53 then t + 1 else t);
            m' = (if m = 2 ^ 53 then 2 ^ 52 else m)
        in if 971 < t' then F64_Inf s else F64_Fin s m' t')"

text \<open>
  Every result is in normal form, and it is within half a unit in the last place of the
  exact value. The significand of the result is \<open>rne N D\<close> for a quotient \<open>N / D\<close> scaled
  into the range of 53-bit integers.
\<close>

definition f64_exp :: "int \<Rightarrow> int \<Rightarrow> int \<Rightarrow> int" where
  "f64_exp n d e = max (-1074) (e + f64_bitlen (n div d) - 53)"

definition f64_num :: "int \<Rightarrow> int \<Rightarrow> int \<Rightarrow> int" where
  "f64_num n d e = n * 2 ^ nat (e - f64_exp n d e)"

definition f64_den :: "int \<Rightarrow> int \<Rightarrow> int \<Rightarrow> int" where
  "f64_den n d e = d * 2 ^ nat (f64_exp n d e - e)"

lemma f64_den_pos: "0 < d \<Longrightarrow> 0 < f64_den n d e"
  by (simp add: f64_den_def)

lemma pow2_split: "0 \<le> a \<Longrightarrow> 0 \<le> b \<Longrightarrow> (2::int) ^ nat (a + b) = 2 ^ nat a * 2 ^ nat b"
  by (simp add: nat_add_distrib power_add)

lemma f64_scaled_bounds:
  assumes "0 < d" "d \<le> n"
  shows "f64_num n d e < 2 ^ 53 * f64_den n d e"
    and "f64_exp n d e \<noteq> -1074 \<Longrightarrow> 2 ^ 52 * f64_den n d e \<le> f64_num n d e"
proof -
  let ?q = "n div d" and ?t = "f64_exp n d e"
  let ?b = "f64_bitlen ?q"
  have q: "1 \<le> ?q" using assms int_div_less_iff [of d n 1] by linarith
  with f64_bitlen_bounds [of ?q]
  have b: "2 ^ nat (?b - 1) \<le> ?q" "?q < 2 ^ nat ?b" "0 < ?b" by auto
  have lo: "2 ^ nat (?b - 1) * d \<le> n"
    using b(1) int_div_less_iff [of d n "2 ^ nat (?b - 1)"] assms(1) by linarith
  have hi: "n < 2 ^ nat ?b * d"
    using b(2) int_div_less_iff [of d n "2 ^ nat ?b"] assms(1) by blast
  have t: "e + ?b - 53 \<le> ?t" by (simp add: f64_exp_def)
  have pe: "nat ?b + nat (e - ?t) \<le> 53 + nat (?t - e)" using t b(3) by linarith
  have "f64_num n d e < 2 ^ nat ?b * d * 2 ^ nat (e - ?t)"
    using hi by (simp add: f64_num_def)
  also have "\<dots> = 2 ^ (nat ?b + nat (e - ?t)) * d" by (simp add: power_add mult.commute mult.left_commute)
  also have "\<dots> \<le> 2 ^ (53 + nat (?t - e)) * d"
    using pe assms(1) by (intro mult_right_mono power_increasing) auto
  also have "\<dots> = 2 ^ 53 * f64_den n d e"
    by (simp add: f64_den_def power_add)
  finally show "f64_num n d e < 2 ^ 53 * f64_den n d e" .
  assume "?t \<noteq> -1074"
  then have teq: "?t = e + ?b - 53" by (auto simp: f64_exp_def max_def split: if_splits)
  then have pe': "52 + nat (?t - e) \<le> nat (?b - 1) + nat (e - ?t)" using b(3) by linarith
  have "2 ^ 52 * f64_den n d e = 2 ^ (52 + nat (?t - e)) * d"
    by (simp add: f64_den_def power_add)
  also have "\<dots> \<le> 2 ^ (nat (?b - 1) + nat (e - ?t)) * d"
    using pe' assms(1) by (intro mult_right_mono power_increasing) auto
  also have "\<dots> = 2 ^ nat (?b - 1) * d * 2 ^ nat (e - ?t)"
    by (simp add: power_add)
  also have "\<dots> \<le> f64_num n d e"
    using lo by (simp add: f64_num_def)
  finally show "2 ^ 52 * f64_den n d e \<le> f64_num n d e" .
qed

lemma f64_round_eq:
  "f64_round s n d e =
     (if n = 0 then F64_Fin s 0 (-1074)
      else let t = f64_exp n d e; m = rne (f64_num n d e) (f64_den n d e)
           in if m = 2 ^ 53 then (if 971 < t + 1 then F64_Inf s else F64_Fin s (2 ^ 52) (t + 1))
              else (if 971 < t then F64_Inf s else F64_Fin s m t))"
proof -
  have "(if f64_exp n d e \<le> e then rne (n * 2 ^ nat (e - f64_exp n d e)) d
         else rne n (d * 2 ^ nat (f64_exp n d e - e))) = rne (f64_num n d e) (f64_den n d e)"
    by (auto simp: f64_num_def f64_den_def)
  then show ?thesis
    unfolding f64_round_def Let_def f64_exp_def [symmetric] pow2_eq by simp
qed

lemma f64_round_wf:
  assumes "0 < d" "0 \<le> n" "n = 0 \<or> d \<le> n"
  shows "f64_wf (f64_round s n d e)"
proof (cases "n = 0")
  case True
  then show ?thesis by (simp add: f64_round_def)
next
  case False
  let ?N = "f64_num n d e" and ?D = "f64_den n d e" and ?t = "f64_exp n d e"
  have dn: "d \<le> n" using False assms(3) by simp
  have D: "0 < ?D" by (rule f64_den_pos [OF assms(1)])
  have N: "0 \<le> ?N" using assms(2) by (simp add: f64_num_def)
  have up: "rne ?N ?D \<le> 2 ^ 53"
    using f64_scaled_bounds(1) [OF assms(1) dn, of e] D by (intro rne_le) simp_all
  have lo: "?t \<noteq> -1074 \<Longrightarrow> 2 ^ 52 \<le> rne ?N ?D"
    using f64_scaled_bounds(2) [OF assms(1) dn, of e] D by (intro rne_ge) simp_all
  have t: "-1074 \<le> ?t" by (simp add: f64_exp_def)
  show ?thesis
    using False up lo t rne_nonneg [OF N D] by (auto simp: f64_round_eq Let_def)
qed

lemma f64_round_wf_int: "0 \<le> n \<Longrightarrow> f64_wf (f64_round s n 1 e)"
  by (rule f64_round_wf) auto

text \<open>The real value of a finite double, and the half-ulp bound.\<close>

fun f64_val :: "f64 \<Rightarrow> real" where
  "f64_val (F64_Fin s m e) = (if s then - 1 else 1) * of_int m * 2 powi e"
| "f64_val _ = 0"

lemma f64_scaled_value:
  assumes "0 < d"
  shows "of_int (f64_num n d e) / of_int (f64_den n d e) * (2::real) powi (f64_exp n d e)
         = of_int n / of_int d * 2 powi e"
proof -
  let ?t = "f64_exp n d e"
  have "(2::real) ^ nat (e - ?t) * 2 powi ?t = 2 powi e * 2 ^ nat (?t - e)"
  proof (cases "?t \<le> e")
    case True
    then have "(2::real) ^ nat (e - ?t) = 2 powi (e - ?t)" by (simp add: power_int_def)
    with True show ?thesis by (simp add: power_int_diff)
  next
    case False
    then have "(2::real) ^ nat (?t - e) = 2 powi (?t - e)" by (simp add: power_int_def)
    with False show ?thesis by (simp add: power_int_diff)
  qed
  then show ?thesis
    using assms by (simp add: f64_num_def f64_den_def field_simps)
qed

lemma f64_round_half_ulp:
  assumes "0 < d" "0 \<le> n" "n = 0 \<or> d \<le> n" "f64_round False n d e = F64_Fin s m t"
  shows "\<bar>of_int m * 2 powi t - of_int n / of_int d * 2 powi e\<bar> \<le> (2::real) powi t / 2"
proof (cases "n = 0")
  case True
  with assms(4) show ?thesis by (auto simp: f64_round_def)
next
  case False
  let ?N = "f64_num n d e" and ?D = "f64_den n d e" and ?t = "f64_exp n d e"
  let ?m = "rne ?N ?D"
  have D: "0 < ?D" by (rule f64_den_pos [OF assms(1)])
  have "real_of_int (2 * \<bar>?m * ?D - ?N\<bar>) \<le> real_of_int ?D"
    using rne_nearest [OF D, of ?N] by (simp only: of_int_le_iff)
  then have "\<bar>real_of_int ?m * of_int ?D - of_int ?N\<bar> \<le> of_int ?D / 2" by simp
  then have "\<bar>real_of_int ?m * of_int ?D - of_int ?N\<bar> / of_int ?D \<le> 1 / 2"
    using D by (simp add: divide_le_eq)
  moreover have "\<bar>real_of_int ?m * of_int ?D - of_int ?N\<bar> / of_int ?D
      = \<bar>real_of_int ?m - of_int ?N / of_int ?D\<bar>"
    using D by (simp add: field_simps abs_div_pos flip: abs_divide)
  ultimately have h: "\<bar>real_of_int ?m - of_int ?N / of_int ?D\<bar> \<le> 1 / 2" by simp
  have "\<bar>real_of_int ?m * 2 powi ?t - of_int n / of_int d * 2 powi e\<bar>
      = \<bar>real_of_int ?m - of_int ?N / of_int ?D\<bar> * 2 powi ?t"
    unfolding f64_scaled_value [OF assms(1), of n e, symmetric] left_diff_distrib [symmetric]
    by (simp only: abs_mult) simp
  also have "\<dots> \<le> 2 powi ?t / 2"
    using h mult_right_mono [OF h, of "2 powi ?t"] by simp
  finally have b: "\<bar>real_of_int ?m * 2 powi ?t - of_int n / of_int d * 2 powi e\<bar> \<le> 2 powi ?t / 2" .
  have "real_of_int m * 2 powi t = real_of_int ?m * 2 powi ?t \<and> (2::real) powi ?t \<le> 2 powi t"
    using assms(4) False
    by (auto simp: f64_round_eq Let_def power_int_add split: if_splits)
  with b show ?thesis by linarith
qed

lemma f64_round_not_nan [simp]: "f64_round s n d e \<noteq> F64_NaN"
  by (simp add: f64_round_def Let_def)

section \<open>Sign and magnitude\<close>

fun f64_neg :: "f64 \<Rightarrow> f64" where
  "f64_neg F64_NaN = F64_NaN"
| "f64_neg (F64_Inf s) = F64_Inf (\<not> s)"
| "f64_neg (F64_Fin s m e) = F64_Fin (\<not> s) m e"

text \<open>\<open>fabs\<close>, and GLib's macros \<open>ABS\<close> and \<open>MAX\<close>, which are conditional expressions.\<close>

fun f64_fabs :: "f64 \<Rightarrow> f64" where
  "f64_fabs F64_NaN = F64_NaN"
| "f64_fabs (F64_Inf s) = F64_Inf False"
| "f64_fabs (F64_Fin s m e) = F64_Fin False m e"

definition f64_ABS :: "f64 \<Rightarrow> f64" where
  "f64_ABS a = (if f64_lt a f64_zero then f64_neg a else a)"

definition f64_MAX :: "f64 \<Rightarrow> f64 \<Rightarrow> f64" where
  "f64_MAX a b = (if f64_lt b a then a else b)"

section \<open>Arithmetic\<close>

fun f64_add :: "f64 \<Rightarrow> f64 \<Rightarrow> f64" where
  "f64_add F64_NaN _ = F64_NaN"
| "f64_add _ F64_NaN = F64_NaN"
| "f64_add (F64_Inf s) (F64_Inf t) = (if s = t then F64_Inf s else F64_NaN)"
| "f64_add (F64_Inf s) (F64_Fin _ _ _) = F64_Inf s"
| "f64_add (F64_Fin _ _ _) (F64_Inf t) = F64_Inf t"
| "f64_add (F64_Fin s m e) (F64_Fin t n g) =
     (let k = min e g;
          v = (if s then - m else m) * pow2 (e - k) + (if t then - n else n) * pow2 (g - k)
      in if v = 0 then F64_Fin (s \<and> t) 0 (-1074) else f64_round (v < 0) \<bar>v\<bar> 1 k)"

definition f64_sub :: "f64 \<Rightarrow> f64 \<Rightarrow> f64" where
  "f64_sub a b = f64_add a (f64_neg b)"

fun f64_mul :: "f64 \<Rightarrow> f64 \<Rightarrow> f64" where
  "f64_mul F64_NaN _ = F64_NaN"
| "f64_mul _ F64_NaN = F64_NaN"
| "f64_mul (F64_Inf s) (F64_Inf t) = F64_Inf (s \<noteq> t)"
| "f64_mul (F64_Inf s) (F64_Fin t n g) = (if n = 0 then F64_NaN else F64_Inf (s \<noteq> t))"
| "f64_mul (F64_Fin s m e) (F64_Inf t) = (if m = 0 then F64_NaN else F64_Inf (s \<noteq> t))"
| "f64_mul (F64_Fin s m e) (F64_Fin t n g) = f64_round (s \<noteq> t) (m * n) 1 (e + g)"

fun f64_div :: "f64 \<Rightarrow> f64 \<Rightarrow> f64" where
  "f64_div F64_NaN _ = F64_NaN"
| "f64_div _ F64_NaN = F64_NaN"
| "f64_div (F64_Inf s) (F64_Inf t) = F64_NaN"
| "f64_div (F64_Inf s) (F64_Fin t n g) = F64_Inf (s \<noteq> t)"
| "f64_div (F64_Fin s m e) (F64_Inf t) = F64_Fin (s \<noteq> t) 0 (-1074)"
| "f64_div (F64_Fin s m e) (F64_Fin t n g) =
     (if n = 0 then (if m = 0 then F64_NaN else F64_Inf (s \<noteq> t))
      else f64_round (s \<noteq> t) (m * pow2 110) n (e - g - 110))"

text \<open>C's \<open>round\<close>: to the nearest integer, halves away from zero.\<close>

fun f64_nearbyint :: "f64 \<Rightarrow> f64" where
  "f64_nearbyint (F64_Fin s m e) =
     (if 0 \<le> e then F64_Fin s m e
      else f64_round s ((2 * m + pow2 (- e)) div (2 * pow2 (- e))) 1 0)"
| "f64_nearbyint x = x"

text \<open>Conversion from an integer type.\<close>

definition f64_of_int :: "int \<Rightarrow> f64" where
  "f64_of_int i = f64_round (i < 0) \<bar>i\<bar> 1 0"

text \<open>Every operation yields a value in normal form.\<close>

lemma f64_wf_neg [simp]: "f64_wf (f64_neg x) = f64_wf x"
  by (cases x) auto

lemma f64_wf_add: "f64_wf x \<Longrightarrow> f64_wf y \<Longrightarrow> f64_wf (f64_add x y)"
  by (cases x; cases y) (auto simp: Let_def intro!: f64_round_wf_int)

lemma f64_wf_sub: "f64_wf x \<Longrightarrow> f64_wf y \<Longrightarrow> f64_wf (f64_sub x y)"
  by (simp add: f64_sub_def f64_wf_add)

lemma f64_wf_mul: "f64_wf x \<Longrightarrow> f64_wf y \<Longrightarrow> f64_wf (f64_mul x y)"
  by (cases x; cases y) (auto intro!: f64_round_wf_int)

lemma f64_wf_div: "f64_wf x \<Longrightarrow> f64_wf y \<Longrightarrow> f64_wf (f64_div x y)"
proof -
  have "m = 0 \<or> n \<le> m * 2 ^ 110" if "0 \<le> m" "n < 2 ^ 53" for m n :: int
  proof (cases "m = 0")
    case False
    with that have "1 * 2 ^ 110 \<le> m * (2::int) ^ 110" by (intro mult_right_mono) auto
    with that show ?thesis by simp
  qed simp
  then show "f64_wf x \<Longrightarrow> f64_wf y \<Longrightarrow> f64_wf (f64_div x y)"
    by (cases x; cases y) (auto intro!: f64_round_wf)
qed

lemma f64_wf_of_int: "f64_wf (f64_of_int i)"
  by (auto simp: f64_of_int_def intro!: f64_round_wf_int)

lemma f64_wf_of_bool: "f64_wf (f64_of_bool b)"
  by (simp add: f64_of_bool_def f64_one_def f64_zero_def)

section \<open>Facts about signs\<close>

definition f64_nonneg :: "f64 \<Rightarrow> bool" where
  "f64_nonneg x = f64_le f64_zero x"

lemma f64_round_nonneg: "0 \<le> n \<Longrightarrow> 0 < d \<Longrightarrow> f64_nonneg (f64_round False n d e)"
proof -
  assume "0 \<le> n" "0 < d"
  then have "0 \<le> rne (f64_num n d e) (f64_den n d e)"
    by (intro rne_nonneg f64_den_pos) (simp_all add: f64_num_def)
  then show ?thesis
    by (auto simp: f64_nonneg_def f64_le_def f64_zero_def f64_round_eq Let_def)
qed

lemma f64_nonneg_fin: "f64_nonneg (F64_Fin s m e) \<longleftrightarrow> 0 \<le> (if s then - m else m)"
  by (auto simp: f64_nonneg_def f64_le_def f64_zero_def zero_le_mult_iff mult_le_0_iff
    zero_less_mult_iff mult_less_0_iff)

lemma f64_nonneg_cases [simp]: "\<not> f64_nonneg F64_NaN" "f64_nonneg (F64_Inf s) = (\<not> s)"
  by (auto simp: f64_nonneg_def f64_le_def f64_zero_def)

lemma f64_add_nonneg: "f64_nonneg x \<Longrightarrow> f64_nonneg y \<Longrightarrow> f64_nonneg (f64_add x y)"
proof (cases x; cases y)
  fix s m e t n g
  assume h: "f64_nonneg x" "f64_nonneg y" "x = F64_Fin s m e" "y = F64_Fin t n g"
  let ?k = "min e g"
  let ?v = "(if s then - m else m) * 2 ^ nat (e - ?k) + (if t then - n else n) * 2 ^ nat (g - ?k)"
  have "0 \<le> (if s then - m else m)" "0 \<le> (if t then - n else n)"
    using h by (simp_all only: f64_nonneg_fin)
  then have "0 \<le> ?v" by (intro add_nonneg_nonneg mult_nonneg_nonneg) simp_all
  then have "f64_nonneg (if ?v = 0 then F64_Fin (s \<and> t) 0 (-1074) else f64_round (?v < 0) \<bar>?v\<bar> 1 ?k)"
    by (auto simp: f64_nonneg_fin not_less intro: f64_round_nonneg)
  with h show ?thesis by (simp only: f64_add.simps Let_def pow2_eq)
qed auto

lemma f64_sub_self: "f64_finite x \<Longrightarrow> f64_sub x x = f64_zero"
  by (cases x) (auto simp: f64_sub_def f64_zero_def)

lemma f64_add_zero_zero: "f64_nonneg f64_zero" "f64_nonneg f64_one"
  by (simp_all add: f64_nonneg_def f64_le_def f64_zero_def f64_one_def)

lemma f64_ABS_nonneg: "\<not> f64_is_nan x \<Longrightarrow> f64_nonneg (f64_ABS x)"
  by (cases x) (auto simp: f64_ABS_def f64_nonneg_def f64_le_def f64_zero_def mult_less_0_iff
    zero_less_mult_iff not_less split: if_splits)

section \<open>Printing\<close>

text \<open>\<open>%lf\<close>: the exact value with six decimals, ties to even.\<close>

definition pad6 :: "string \<Rightarrow> string" where
  "pad6 s = replicate (6 - length s) (CHR ''0'') @ s"

fun fmt_lf :: "f64 \<Rightarrow> string" where
  "fmt_lf F64_NaN = ''nan''"
| "fmt_lf (F64_Inf s) = (if s then ''-inf'' else ''inf'')"
| "fmt_lf (F64_Fin s m e) =
     (let n = (if 0 \<le> e then m * 1000000 * pow2 e else rne (m * 1000000) (pow2 (- e)))
      in (if s then ''-'' else '''') @ show_nat (nat (n div 1000000)) @ ''.''
           @ pad6 (show_nat (nat (n mod 1000000))))"

section \<open>Evaluation\<close>

text \<open>
  Equations that evaluate comparisons and sums without scaling everything to units of
  \<open>2^-1074\<close>: the smaller of the two exponents is enough, and a zero needs no scaling at all.
\<close>

lemma scale_less:
  assumes "-1074 \<le> e" "-1074 \<le> g"
  shows "a * pow2 (e + 1074) < b * pow2 (g + 1074) \<longleftrightarrow> a * pow2 (e - min e g) < b * pow2 (g - min e g)"
    and "a * pow2 (e + 1074) = b * pow2 (g + 1074) \<longleftrightarrow> a * pow2 (e - min e g) = b * pow2 (g - min e g)"
proof -
  let ?k = "min e g"
  have k: "0 \<le> ?k + 1074" using assms by simp
  have e: "pow2 (e + 1074) = pow2 (e - ?k) * pow2 (?k + 1074)"
    using pow2_split [of "e - ?k" "?k + 1074"] k by simp
  have g: "pow2 (g + 1074) = pow2 (g - ?k) * pow2 (?k + 1074)"
    using pow2_split [of "g - ?k" "?k + 1074"] k by simp
  have p: "0 < pow2 (?k + 1074)" by simp
  show "a * pow2 (e + 1074) < b * pow2 (g + 1074) \<longleftrightarrow> a * pow2 (e - ?k) < b * pow2 (g - ?k)"
    unfolding e g mult.assoc [symmetric] by (rule mult_less_cancel_right_pos [OF p])
  show "a * pow2 (e + 1074) = b * pow2 (g + 1074) \<longleftrightarrow> a * pow2 (e - ?k) = b * pow2 (g - ?k)"
    unfolding e g mult.assoc [symmetric] using p by (simp only: mult_cancel_right) auto
qed

lemma zero_less_scaled: "0 < b * pow2 j \<longleftrightarrow> 0 < b" "b * pow2 j < 0 \<longleftrightarrow> b < 0" "b * pow2 j = 0 \<longleftrightarrow> b = 0"
  by (simp_all add: zero_less_mult_iff mult_less_0_iff)

lemma f64_lt_fin [code]:
  "f64_lt (F64_Fin s m e) (F64_Fin t n g) =
     (let a = if s then - m else m; b = if t then - n else n; k = min e g
      in if a = 0 \<or> b = 0 then a < b
         else if -1074 \<le> k then a * pow2 (e - k) < b * pow2 (g - k)
         else a * pow2 (e + 1074) < b * pow2 (g + 1074))"
  unfolding f64_lt.simps f64_units.simps Let_def
  using scale_less(1) [of e g] zero_less_scaled by auto

lemma f64_eq_fin [code]:
  "f64_eq (F64_Fin s m e) (F64_Fin t n g) =
     (let a = if s then - m else m; b = if t then - n else n; k = min e g
      in if a = 0 \<or> b = 0 then a = b
         else if -1074 \<le> k then a * pow2 (e - k) = b * pow2 (g - k)
         else a * pow2 (e + 1074) = b * pow2 (g + 1074))"
  unfolding f64_eq.simps f64_units.simps Let_def
  using scale_less(2) [of e g] zero_less_scaled by auto

lemma rne_scale: "0 < k \<Longrightarrow> 0 < d \<Longrightarrow> rne (n * k) (d * k) = rne n d"
  by (simp add: rne_def Let_def mult_less_cancel_right flip: mult.assoc)

lemma f64_bitlen_double: "0 < n \<Longrightarrow> f64_bitlen (n * 2 ^ j) = f64_bitlen n + int j"
proof (induction j)
  case (Suc j)
  have "f64_bitlen (n * 2 ^ Suc j) = 1 + f64_bitlen ((n * 2 ^ Suc j) div 2)"
    using Suc.prems by (subst f64_bitlen.simps) (simp add: mult_le_0_iff)
  then show ?case using Suc by (simp add: mult.left_commute)
qed simp

lemma f64_round_scale:
  assumes "0 \<le> n"
  shows "f64_round s (n * 2 ^ j) 1 (e - int j) = f64_round s n 1 e"
proof (cases "n = 0")
  case False
  with assms have n: "0 < n" by simp
  let ?t = "f64_exp n 1 e"
  have t: "f64_exp (n * 2 ^ j) 1 (e - int j) = ?t" by (simp add: f64_exp_def f64_bitlen_double [OF n])
  have "rne (n * 2 ^ j * 2 ^ nat (e - int j - ?t)) (2 ^ nat (?t - (e - int j))) =
      rne (n * 2 ^ nat (e - ?t)) (2 ^ nat (?t - e))"
  proof (cases "?t \<le> e")
    case True
    then obtain i where i: "e - ?t = int i" using zero_le_imp_eq_int [of "e - ?t"] by auto
    show ?thesis
    proof (cases "j \<le> i")
      case True
      then have "nat (e - int j - ?t) = i - j" "nat (?t - (e - int j)) = 0" "nat (e - ?t) = i" "nat (?t - e) = 0"
        using i by auto
      with True show ?thesis by (simp add: mult.assoc flip: power_add)
    next
      case False
      then have l: "nat (e - int j - ?t) = 0" "nat (?t - (e - int j)) = j - i" "nat (e - ?t) = i" "nat (?t - e) = 0"
        using i by auto
      have e: "n * 2 ^ j = n * 2 ^ i * 2 ^ (j - i)" using False by (simp add: mult.assoc flip: power_add)
      have "rne (n * 2 ^ j) (2 ^ (j - i)) = n * 2 ^ i" unfolding e by simp
      then show ?thesis unfolding l by (simp add: rne_def)
    qed
  next
    case False
    then obtain i where i: "?t - e = int i" using zero_le_imp_eq_int [of "?t - e"] by auto
    then have "nat (?t - (e - int j)) = i + j" "nat (?t - e) = i" "nat (e - ?t) = 0" "nat (e - int j - ?t) = 0"
      by auto
    then show ?thesis using rne_scale [of "2 ^ j" "2 ^ i" n] by (simp add: power_add)
  qed
  then have "rne (f64_num (n * 2 ^ j) 1 (e - int j)) (f64_den (n * 2 ^ j) 1 (e - int j)) =
      rne (f64_num n 1 e) (f64_den n 1 e)"
    by (simp add: f64_num_def f64_den_def t)
  with n show ?thesis by (simp add: f64_round_eq t)
qed (simp add: f64_round_def)

lemma f64_round_pow2: "0 \<le> n \<Longrightarrow> 0 \<le> k \<Longrightarrow> f64_round s (n * pow2 k) 1 (e - k) = f64_round s n 1 e"
  using f64_round_scale [of n s "nat k" e] by simp

lemma f64_add_fin [code]:
  "f64_add (F64_Fin s m e) (F64_Fin t n g) =
     (let a = if s then - m else m; b = if t then - n else n; k = min e g
      in if a = 0 \<and> b \<noteq> 0 \<and> e \<le> g then f64_round (b < 0) \<bar>b\<bar> 1 g
         else if b = 0 \<and> a \<noteq> 0 \<and> g \<le> e then f64_round (a < 0) \<bar>a\<bar> 1 e
         else let v = a * pow2 (e - k) + b * pow2 (g - k)
              in if v = 0 then F64_Fin (s \<and> t) 0 (-1074) else f64_round (v < 0) \<bar>v\<bar> 1 k)"
proof -
  have r: "f64_round (c * pow2 (h - l) < 0) \<bar>c * pow2 (h - l)\<bar> 1 l = f64_round (c < 0) \<bar>c\<bar> 1 h" if "l \<le> h" for c h l
    using f64_round_pow2 [of "\<bar>c\<bar>" "h - l" "c < 0" h] that by (simp add: abs_mult mult_less_0_iff)
  show ?thesis
    using r [of e g "if t then - n else n"] r [of g e "if s then - m else m"] zero_less_scaled(3)
    by (simp add: Let_def min_def)
qed

end
