(* ===== verification/Defs.thy ===== *)
theory Defs
  imports Float64
begin

text \<open>
  The definitions the library and the core share: the I/O flag bits and units
  (\<open>include/starter/defs.h\<close>), the error codes and GLib's error value
  (\<open>include/starter/error.h\<close>), and the flag helpers at the head of \<open>src/expr.c\<close>.
\<close>

type_synonym guint64 = "64 word"
type_synonym guint32 = "32 word"
type_synonym guint16 = "16 word"

section \<open>Flag bits\<close>

definition ST_IO_FLAG_NULL :: guint64 where "ST_IO_FLAG_NULL = 0x0000000000000000"
definition ST_IO_FLAG_MANUAL_OVERRIDE :: guint64 where
  "ST_IO_FLAG_MANUAL_OVERRIDE = 0x0000000000000001"
definition ST_IO_FLAG_NO_HISTORY :: guint64 where "ST_IO_FLAG_NO_HISTORY = 0x0000000000000002"
definition ST_IO_FLAG_USR1 :: guint64 where "ST_IO_FLAG_USR1 = 0x1000000000000000"
definition ST_IO_FLAG_USR2 :: guint64 where "ST_IO_FLAG_USR2 = 0x2000000000000000"
definition ST_IO_FLAG_USR3 :: guint64 where "ST_IO_FLAG_USR3 = 0x4000000000000000"
definition ST_IO_FLAG_USR4 :: guint64 where "ST_IO_FLAG_USR4 = 0x8000000000000000"
definition ST_IO_FLAG_USR_MASK :: guint64 where "ST_IO_FLAG_USR_MASK = 0xF000000000000000"

lemmas st_io_flag_defs =
  ST_IO_FLAG_NULL_def ST_IO_FLAG_MANUAL_OVERRIDE_def ST_IO_FLAG_NO_HISTORY_def
  ST_IO_FLAG_USR1_def ST_IO_FLAG_USR2_def ST_IO_FLAG_USR3_def ST_IO_FLAG_USR4_def
  ST_IO_FLAG_USR_MASK_def

text \<open>\<open>enum STUnit\<close>; the value travels as an \<open>int\<close> and is stored unchecked.\<close>

datatype st_unit =
    ST_UNIT_NULL | ST_UNIT_CELSIUS | ST_UNIT_PERCENT | ST_UNIT_BAR | ST_UNIT_ONOFF
  | ST_UNIT_ENUM | ST_UNIT_V | ST_UNIT_W | ST_UNIT_VAR | ST_UNIT_KW | ST_UNIT_WH
  | ST_UNIT_KWH | ST_UNIT_SECONDS | ST_UNIT_MINUTES | ST_UNIT_HOURS

definition ST_INVALID_VALUE :: f64 where "ST_INVALID_VALUE = G_MAXDOUBLE"

section \<open>Errors\<close>

datatype st_error =
    ST_ERROR_INVALID_VALUE | ST_ERROR_INVALID_RESPONSE | ST_ERROR_NOT_IMPLEMENTED
  | ST_ERROR_NOT_CONNECTED | ST_ERROR_SYSTEM | ST_ERROR_UNDEFINED_IDENTIFIER
  | G_IO_ERROR_CODE string | G_DBUS_ERROR_CODE int

record gerror =
  err_code :: st_error
  err_message :: string

section \<open>Flag helpers\<close>

definition st_io_flag_bit_is_usr :: "guint64 \<Rightarrow> bool" where
  "st_io_flag_bit_is_usr b =
     (b \<noteq> 0 \<and> b AND ST_IO_FLAG_USR_MASK = b \<and> b AND (b - 1) = 0)"

definition st_io_flag_bit_name :: "guint64 \<Rightarrow> string" where
  "st_io_flag_bit_name b =
     (if b = ST_IO_FLAG_USR1 then ''USR1''
      else if b = ST_IO_FLAG_USR2 then ''USR2''
      else if b = ST_IO_FLAG_USR3 then ''USR3''
      else if b = ST_IO_FLAG_USR4 then ''USR4''
      else if b = ST_IO_FLAG_MANUAL_OVERRIDE then ''MANUAL_OVERRIDE''
      else if b = ST_IO_FLAG_NO_HISTORY then ''NO_HISTORY''
      else ''?'')"

end
