(* ===== verification/Iocell.thy ===== *)
theory Iocell
  imports Defs
begin

text \<open>
  What \<open>lib/input.c\<close> and \<open>lib/output.c\<close> have in common: the static helpers that snap a
  value to the step grid (both files hold the same text), the signals, and the contract of
  an I/O cell as a locale. Inputs and outputs interpret it.
\<close>

section \<open>Snapping to the step grid\<close>

definition round_to_step :: "f64 \<Rightarrow> f64 \<Rightarrow> f64" where
  "round_to_step value step =
     (if f64_le (f64_ABS step) DBL_MIN then value
      else f64_mul (f64_nearbyint (f64_div value step)) step)"

definition nearly_equal :: "f64 \<Rightarrow> f64 \<Rightarrow> f64 \<Rightarrow> bool" where
  "nearly_equal a b step =
     (let tol = f64_mul (f64_mul DBL_EPSILON (f64_add (f64_add f64_one (f64_ABS a)) (f64_ABS b)))
                  (f64_of_int 8);
          tol = (if f64_lt DBL_MIN (f64_ABS step)
                 then f64_MAX tol (f64_mul (f64_ABS step) (F64_Fin False 4835703278458517 (-82)))
                 else tol)
      in f64_le (f64_ABS (f64_sub a b)) tol)"

text \<open>The literal \<open>1e-9\<close> is the double written out in \<open>nearly_equal\<close>.\<close>

lemma literal_1e_9: "F64_Fin False 4835703278458517 (-82) = f64_div f64_one (f64_of_int 1000000000)"
  by code_simp

text \<open>The warning that \<open>snap_to_step\<close> logs has no effect on the result.\<close>

definition snap_to_step :: "f64 \<Rightarrow> f64 \<Rightarrow> f64" where
  "snap_to_step requested step = round_to_step requested step"

section \<open>Signals\<close>

datatype io_signal =
    SIG_CHANGED | SIG_NAME_CHANGED | SIG_DESCR_CHANGED | SIG_UNIT_CHANGED | SIG_VAL_CHANGED
  | SIG_MIN_CHANGED | SIG_MAX_CHANGED | SIG_STEP_CHANGED | SIG_FLAGS_CHANGED

text \<open>
  A setter returns its \<open>GError\<close> (none when it returns TRUE), the object after the call, and
  the signals it emitted in order, each with the object as the handlers see it.
\<close>

type_synonym 'a io_result = "gerror option \<times> 'a \<times> (io_signal \<times> 'a) list"

definition emit_pair :: "bool \<Rightarrow> io_signal \<Rightarrow> 'a \<Rightarrow> (io_signal \<times> 'a) list" where
  "emit_pair chg sig x = (if chg then [(sig, x), (SIG_CHANGED, x)] else [])"

section \<open>The contract\<close>

text \<open>
  \<open>bounded\<close> is the class invariant of a cell: \<open>min \<le> val \<le> max\<close> (so none of them is a NaN).
\<close>

definition io_bounded :: "f64 \<Rightarrow> f64 \<Rightarrow> f64 \<Rightarrow> bool" where
  "io_bounded mn v mx = (f64_le mn v \<and> f64_le v mx)"

locale io_cell =
  fixes get_min get_val get_max get_step :: "'a \<Rightarrow> f64"
    and get_flags :: "'a \<Rightarrow> guint64"
    and set_val set_min set_max :: "'a \<Rightarrow> f64 \<Rightarrow> 'a io_result"
    and set_flags :: "'a \<Rightarrow> guint64 \<Rightarrow> 'a io_result"
  assumes set_val_ok:
      "io_bounded (get_min x) (snap_to_step v (get_step x)) (get_max x) \<Longrightarrow>
       \<exists>x'. set_val x v = (None, x', emit_pair (\<not> nearly_equal (get_val x)
              (snap_to_step v (get_step x)) (get_step x)) SIG_VAL_CHANGED x')
         \<and> get_val x' = snap_to_step v (get_step x) \<and> get_min x' = get_min x
         \<and> get_max x' = get_max x \<and> get_step x' = get_step x \<and> get_flags x' = get_flags x"
    and set_val_bad:
      "\<not> io_bounded (get_min x) (snap_to_step v (get_step x)) (get_max x) \<Longrightarrow>
       \<exists>e. set_val x v = (Some e, x, [])"
    and set_min_ok:
      "f64_le (snap_to_step v (get_step x)) (get_val x) \<Longrightarrow>
       \<exists>x' ev. set_min x v = (None, x', ev) \<and> get_min x' = snap_to_step v (get_step x)
         \<and> get_val x' = get_val x \<and> get_max x' = get_max x"
    and set_min_bad:
      "\<not> f64_le (snap_to_step v (get_step x)) (get_val x) \<Longrightarrow> \<exists>e. set_min x v = (Some e, x, [])"
    and set_max_ok:
      "f64_le (get_val x) (snap_to_step v (get_step x)) \<Longrightarrow>
       \<exists>x' ev. set_max x v = (None, x', ev) \<and> get_max x' = snap_to_step v (get_step x)
         \<and> get_val x' = get_val x \<and> get_min x' = get_min x"
    and set_max_bad:
      "\<not> f64_le (get_val x) (snap_to_step v (get_step x)) \<Longrightarrow> \<exists>e. set_max x v = (Some e, x, [])"
    and set_flags_ok:
      "\<exists>x'. set_flags x w = (None, x', emit_pair (get_flags x \<noteq> w) SIG_FLAGS_CHANGED x')
         \<and> get_flags x' = w \<and> get_val x' = get_val x \<and> get_min x' = get_min x
         \<and> get_max x' = get_max x"
begin

abbreviation bounded :: "'a \<Rightarrow> bool" where
  "bounded x \<equiv> io_bounded (get_min x) (get_val x) (get_max x)"

lemma set_val_bounded: "bounded x \<Longrightarrow> bounded (fst (snd (set_val x v)))"
  using set_val_ok [where x = x and v = v] set_val_bad [where x = x and v = v]
  by (cases "io_bounded (get_min x) (snap_to_step v (get_step x)) (get_max x)")
    (auto)

lemma set_min_bounded: "bounded x \<Longrightarrow> bounded (fst (snd (set_min x v)))"
  using set_min_ok [where x = x and v = v] set_min_bad [where x = x and v = v]
  by (cases "f64_le (snap_to_step v (get_step x)) (get_val x)")
    (auto simp: io_bounded_def)

lemma set_max_bounded: "bounded x \<Longrightarrow> bounded (fst (snd (set_max x v)))"
  using set_max_ok [where x = x and v = v] set_max_bad [where x = x and v = v]
  by (cases "f64_le (get_val x) (snap_to_step v (get_step x))")
    (auto simp: io_bounded_def)

lemma set_flags_bounded: "bounded x \<Longrightarrow> bounded (fst (snd (set_flags x w)))"
  using set_flags_ok [of x w] by auto

lemma set_val_accepts_iff:
  "fst (set_val x v) = None \<longleftrightarrow> io_bounded (get_min x) (snap_to_step v (get_step x)) (get_max x)"
  using set_val_ok [where x = x and v = v] set_val_bad [where x = x and v = v]
  by (cases "io_bounded (get_min x) (snap_to_step v (get_step x)) (get_max x)")
    (auto)

lemma set_val_rejects_unchanged:
  "fst (set_val x v) \<noteq> None \<Longrightarrow> snd (set_val x v) = (x, [])"
  using set_val_bad [where x = x and v = v] set_val_ok [where x = x and v = v]
  by (cases "io_bounded (get_min x) (snap_to_step v (get_step x)) (get_max x)") auto

text \<open>Setting value then flags, as the remote \<open>SetInput\<close>/\<open>SetOutput\<close> do, is atomic.\<close>

lemma set_val_then_flags:
  assumes "fst (set_val x v) = None"
  shows "\<exists>x'. fst (snd (set_flags (fst (snd (set_val x v))) w)) = x'
     \<and> fst (set_flags (fst (snd (set_val x v))) w) = None
     \<and> get_val x' = snap_to_step v (get_step x) \<and> get_flags x' = w"
proof -
  from assms have "io_bounded (get_min x) (snap_to_step v (get_step x)) (get_max x)"
    by (simp add: set_val_accepts_iff)
  then obtain y ev where y: "set_val x v = (None, y, ev)" "get_val y = snap_to_step v (get_step x)"
    by (blast dest: set_val_ok)
  show ?thesis using y set_flags_ok [of y w] by auto
qed

end

section \<open>Facts about the helpers\<close>

lemma round_to_step_nan [simp]: "round_to_step F64_NaN step = F64_NaN"
  by (simp add: round_to_step_def)

lemma f64_wf_nearbyint: "f64_wf x \<Longrightarrow> f64_wf (f64_nearbyint x)"
  by (cases x) (auto intro!: f64_round_wf_int div_int_pos_iff [THEN iffD2])

lemma f64_wf_round_to_step: "f64_wf v \<Longrightarrow> f64_wf s \<Longrightarrow> f64_wf (round_to_step v s)"
  by (simp add: round_to_step_def f64_wf_mul f64_wf_nearbyint f64_wf_div)

end
