(* ===== verification/Input.thy ===== *)
theory Input
  imports Iocell
begin

text \<open>
  \<open>lib/input.c\<close>: the \<open>STInput\<close> object. A setter checks its guard, writes the field and
  emits its signal and then \<open>changed\<close>; a failing guard sets \<open>ST_ERROR_INVALID_VALUE\<close> and
  leaves the object alone. The theory shows which setters keep \<open>min <= val <= max\<close>, that the
  object interprets the contract of an I/O cell, and that \<open>st_input_set_step\<close> can break the
  bounds.
\<close>

record st_input =
  in_name :: string
  in_descr :: string
  in_unit :: int
  in_val :: f64
  in_min :: f64
  in_max :: f64
  in_step :: f64
  in_flags :: guint64

section \<open>Construction\<close>

text \<open>The three assertions end the process when they fail.\<close>

definition st_input_new ::
  "string \<Rightarrow> string \<Rightarrow> int \<Rightarrow> f64 \<Rightarrow> f64 \<Rightarrow> f64 \<Rightarrow> f64 \<Rightarrow> guint64 \<Rightarrow> st_input res" where
  "st_input_new name description unit mn mx step v flags =
     (if \<not> f64_lt DBL_MIN (f64_ABS step) then Abort
      else
        let mn = snap_to_step mn step;
            mx = snap_to_step mx step;
            v = snap_to_step v step
        in if \<not> f64_le mn v then Abort
           else if \<not> f64_le v mx then Abort
           else Ret \<lparr>in_name = name, in_descr = description, in_unit = unit, in_val = v,
                     in_min = mn, in_max = mx, in_step = step, in_flags = flags\<rparr>)"

definition st_input_dup :: "st_input \<Rightarrow> st_input" where
  "st_input_dup self =
     \<lparr>in_name = in_name self, in_descr = in_descr self, in_unit = in_unit self,
      in_val = in_val self, in_min = in_min self, in_max = in_max self,
      in_step = in_step self, in_flags = in_flags self\<rparr>"

section \<open>Setters\<close>

definition st_input_set_name :: "st_input \<Rightarrow> string \<Rightarrow> st_input io_result" where
  "st_input_set_name self name =
     (let chg = (in_name self \<noteq> name); self' = self\<lparr>in_name := name\<rparr>
      in (None, self', emit_pair chg SIG_NAME_CHANGED self'))"

definition st_input_set_description :: "st_input \<Rightarrow> string \<Rightarrow> st_input io_result" where
  "st_input_set_description self description =
     (let chg = (in_descr self \<noteq> description); self' = self\<lparr>in_descr := description\<rparr>
      in (None, self', emit_pair chg SIG_DESCR_CHANGED self'))"

definition st_input_set_unit :: "st_input \<Rightarrow> int \<Rightarrow> st_input io_result" where
  "st_input_set_unit self unit =
     (let chg = (in_unit self \<noteq> unit); self' = self\<lparr>in_unit := unit\<rparr>
      in (None, self', emit_pair chg SIG_UNIT_CHANGED self'))"

definition st_input_set_min :: "st_input \<Rightarrow> f64 \<Rightarrow> st_input io_result" where
  "st_input_set_min self mn =
     (let mn = snap_to_step mn (in_step self)
      in if f64_le mn (in_val self)
         then let chg = (\<not> nearly_equal (in_min self) mn (in_step self));
                  self' = self\<lparr>in_min := mn\<rparr>
              in (None, self', emit_pair chg SIG_MIN_CHANGED self')
         else (Some \<lparr>err_code = ST_ERROR_INVALID_VALUE,
                 err_message = ''minimum value is not compatible with val''\<rparr>, self, []))"

definition st_input_set_max :: "st_input \<Rightarrow> f64 \<Rightarrow> st_input io_result" where
  "st_input_set_max self mx =
     (let mx = snap_to_step mx (in_step self)
      in if f64_le (in_val self) mx
         then let chg = (\<not> nearly_equal (in_max self) mx (in_step self));
                  self' = self\<lparr>in_max := mx\<rparr>
              in (None, self', emit_pair chg SIG_MAX_CHANGED self')
         else (Some \<lparr>err_code = ST_ERROR_INVALID_VALUE,
                 err_message = ''maximum value is not compatible with val''\<rparr>, self, []))"

text \<open>
  \<open>st_input_set_step\<close> writes each of min, max and val only when its snapped value is not
  nearly equal to the old one, and emits the signal of each write before the next write.
\<close>

definition st_input_set_step :: "st_input \<Rightarrow> f64 \<Rightarrow> st_input io_result" where
  "st_input_set_step self step =
     (if f64_le (f64_ABS step) DBL_MIN
      then (Some \<lparr>err_code = ST_ERROR_INVALID_VALUE,
                  err_message = ''step must be non-zero''\<rparr>, self, [])
      else
        let mn = snap_to_step (in_min self) step;
            mx = snap_to_step (in_max self) step;
            v = snap_to_step (in_val self) step
        in if f64_le mn v \<and> f64_le v mx
           then let chg0 = (\<not> nearly_equal (in_step self) step step);
                    c1 = (\<not> nearly_equal (in_min self) mn step);
                    self1 = (if c1 then self\<lparr>in_min := mn\<rparr> else self);
                    c2 = (\<not> nearly_equal (in_max self) mx step);
                    self2 = (if c2 then self1\<lparr>in_max := mx\<rparr> else self1);
                    c3 = (\<not> nearly_equal (in_val self) v step);
                    self3 = (if c3 then self2\<lparr>in_val := v\<rparr> else self2);
                    self4 = self3\<lparr>in_step := step\<rparr>
                in (None, self4,
                    (if c1 then [(SIG_MIN_CHANGED, self1)] else [])
                    @ (if c2 then [(SIG_MAX_CHANGED, self2)] else [])
                    @ (if c3 then [(SIG_VAL_CHANGED, self3)] else [])
                    @ emit_pair (chg0 \<or> c1 \<or> c2 \<or> c3) SIG_STEP_CHANGED self4)
           else (Some \<lparr>err_code = ST_ERROR_INVALID_VALUE,
                   err_message = ''input min/max/val not compatible with step after rounding''\<rparr>,
                 self, []))"

definition st_input_set_val :: "st_input \<Rightarrow> f64 \<Rightarrow> st_input io_result" where
  "st_input_set_val self v =
     (let v = snap_to_step v (in_step self)
      in if f64_le (in_min self) v \<and> f64_le v (in_max self)
         then let chg = (\<not> nearly_equal (in_val self) v (in_step self));
                  self' = self\<lparr>in_val := v\<rparr>
              in (None, self', emit_pair chg SIG_VAL_CHANGED self')
         else (Some \<lparr>err_code = ST_ERROR_INVALID_VALUE,
                 err_message = ''val is not compatible with min/max''\<rparr>, self, []))"

definition st_input_set_flags :: "st_input \<Rightarrow> guint64 \<Rightarrow> st_input io_result" where
  "st_input_set_flags self flags =
     (let chg = (in_flags self \<noteq> flags); self' = self\<lparr>in_flags := flags\<rparr>
      in (None, self', emit_pair chg SIG_FLAGS_CHANGED self'))"

lemmas st_input_setter_defs =
  st_input_set_name_def st_input_set_description_def st_input_set_unit_def st_input_set_min_def
  st_input_set_max_def st_input_set_val_def st_input_set_flags_def

section \<open>The contract\<close>

interpretation input_cell: io_cell in_min in_val in_max in_step in_flags
  st_input_set_val st_input_set_min st_input_set_max st_input_set_flags
  by unfold_locales (auto simp: st_input_setter_defs Let_def io_bounded_def)

abbreviation st_input_bounded :: "st_input \<Rightarrow> bool" where
  "st_input_bounded x \<equiv> io_bounded (in_min x) (in_val x) (in_max x)"

lemma st_input_new_bounded: "st_input_new n d u mn mx s v f = Ret x \<Longrightarrow> st_input_bounded x"
  by (auto simp: st_input_new_def Let_def io_bounded_def split: if_splits)

lemma st_input_new_step: "st_input_new n d u mn mx s v f = Ret x \<Longrightarrow> f64_lt DBL_MIN (f64_ABS (in_step x))"
  by (auto simp: st_input_new_def Let_def split: if_splits)

lemma st_input_new_not_fuel [simp]: "st_input_new n d u mn mx s v f \<noteq> Fuel"
  by (simp add: st_input_new_def Let_def)

lemma st_input_dup_id: "st_input_dup x = x"
  by (simp add: st_input_dup_def)

section \<open>Runs of setters\<close>

datatype input_op =
    ISetName string | ISetDescr string | ISetUnit int | ISetMin f64 | ISetMax f64
  | ISetVal f64 | ISetFlags guint64 | ISetStep f64

fun input_apply :: "input_op \<Rightarrow> st_input \<Rightarrow> st_input io_result" where
  "input_apply (ISetName s) x = st_input_set_name x s"
| "input_apply (ISetDescr s) x = st_input_set_description x s"
| "input_apply (ISetUnit u) x = st_input_set_unit x u"
| "input_apply (ISetMin v) x = st_input_set_min x v"
| "input_apply (ISetMax v) x = st_input_set_max x v"
| "input_apply (ISetVal v) x = st_input_set_val x v"
| "input_apply (ISetFlags w) x = st_input_set_flags x w"
| "input_apply (ISetStep v) x = st_input_set_step x v"

fun input_run :: "input_op list \<Rightarrow> st_input \<Rightarrow> st_input" where
  "input_run [] x = x"
| "input_run (c # cs) x = input_run cs (fst (snd (input_apply c x)))"

definition input_sets_step :: "input_op \<Rightarrow> bool" where
  "input_sets_step c = (case c of ISetStep _ \<Rightarrow> True | _ \<Rightarrow> False)"

lemma input_apply_bounded:
  "st_input_bounded x \<Longrightarrow> \<not> input_sets_step c \<Longrightarrow> st_input_bounded (fst (snd (input_apply c x)))"
proof (cases c)
  case (ISetMin v)
  then show "st_input_bounded x \<Longrightarrow> ?thesis" by (simp add: input_cell.set_min_bounded)
next
  case (ISetMax v)
  then show "st_input_bounded x \<Longrightarrow> ?thesis" by (simp add: input_cell.set_max_bounded)
next
  case (ISetVal v)
  then show "st_input_bounded x \<Longrightarrow> ?thesis" by (simp add: input_cell.set_val_bounded)
qed (simp_all add: input_sets_step_def st_input_set_name_def st_input_set_description_def
       st_input_set_unit_def st_input_set_flags_def Let_def)

lemma input_run_bounded_aux:
  "st_input_bounded x \<Longrightarrow> list_all (\<lambda>c. \<not> input_sets_step c) cs \<Longrightarrow> st_input_bounded (input_run cs x)"
  by (induction cs arbitrary: x) (auto dest: input_apply_bounded)

text \<open>\<open>set_step\<close> accepts exactly the steps whose snapped values are still ordered.\<close>

definition input_step_fits :: "st_input \<Rightarrow> f64 \<Rightarrow> bool" where
  "input_step_fits x s = (\<not> f64_le (f64_ABS s) DBL_MIN \<and>
     io_bounded (snap_to_step (in_min x) s) (snap_to_step (in_val x) s) (snap_to_step (in_max x) s))"

lemma st_input_set_step_bad:
  "\<not> input_step_fits x s \<Longrightarrow> \<exists>e. st_input_set_step x s = (Some e, x, [])"
  by (cases "f64_le (f64_ABS s) DBL_MIN")
    (auto simp: input_step_fits_def io_bounded_def st_input_set_step_def Let_def)

lemma st_input_set_step_ok:
  "input_step_fits x s \<Longrightarrow> \<exists>x' ev. st_input_set_step x s = (None, x', ev)
     \<and> in_step x' = s \<and> in_flags x' = in_flags x \<and> in_name x' = in_name x
     \<and> in_min x' \<in> {in_min x, snap_to_step (in_min x) s}
     \<and> in_val x' \<in> {in_val x, snap_to_step (in_val x) s}
     \<and> in_max x' \<in> {in_max x, snap_to_step (in_max x) s}
     \<and> (ev = [] \<or> last ev = (SIG_CHANGED, x'))"
  by (simp add: input_step_fits_def io_bounded_def st_input_set_step_def Let_def emit_pair_def)

text \<open>Every setter rejects by leaving the object as it was and emitting nothing.\<close>

lemma input_apply_error_frame:
  "fst (input_apply c x) \<noteq> None \<Longrightarrow> snd (input_apply c x) = (x, [])"
proof (cases c)
  case (ISetStep s)
  then show "fst (input_apply c x) \<noteq> None \<Longrightarrow> ?thesis"
    using st_input_set_step_bad [of x s] st_input_set_step_ok [of x s]
    by (cases "input_step_fits x s") auto
qed (auto simp: st_input_setter_defs Let_def)

text \<open>The last signal of a setter, if any, is \<open>changed\<close> on the final object.\<close>

lemma input_apply_last_signal:
  "\<exists>e x' ev. input_apply c x = (e, x', ev) \<and> (ev = [] \<or> last ev = (SIG_CHANGED, x'))"
proof (cases c)
  case (ISetStep s)
  then show ?thesis
    using st_input_set_step_bad [of x s] st_input_set_step_ok [of x s]
    by (cases "input_step_fits x s") auto
qed (auto simp: st_input_setter_defs Let_def emit_pair_def)

section \<open>Properties\<close>

text \<open>C15: every input that \<open>st_input_new\<close> returns, after any sequence of setter calls other
  than \<open>st_input_set_step\<close>, accepted or rejected, still satisfies \<open>min <= val <= max\<close>
  (in particular none of the three is a NaN).\<close>

theorem input_run_bounded:
  assumes "st_input_new n d u mn mx s v f = Ret x"
    and "list_all (\<lambda>c. \<not> input_sets_step c) cs"
  shows "f64_le (in_min (input_run cs x)) (in_val (input_run cs x))
    \<and> f64_le (in_val (input_run cs x)) (in_max (input_run cs x))"
  using input_run_bounded_aux [OF st_input_new_bounded [OF assms(1)] assms(2)]
  by (simp add: io_bounded_def)

definition input_example :: st_input where
  "input_example = \<lparr>in_name = ''a'', in_descr = ''d'', in_unit = 0, in_val = f64_of_int 3,
     in_min = f64_zero, in_max = f64_of_int 10, in_step = f64_one, in_flags = 0\<rparr>"

lemma input_example_new:
  "st_input_new ''a'' ''d'' 0 f64_zero (f64_of_int 10) f64_one (f64_of_int 3) 0 = Ret input_example"
proof -
  have "f64_lt DBL_MIN (f64_ABS f64_one)" "snap_to_step f64_zero f64_one = f64_zero"
    "snap_to_step (f64_of_int 10) f64_one = f64_of_int 10"
    "snap_to_step (f64_of_int 3) f64_one = f64_of_int 3"
    "f64_le f64_zero (f64_of_int 3)" "f64_le (f64_of_int 3) (f64_of_int 10)"
    by code_simp+
  then show ?thesis by (simp add: st_input_new_def input_example_def)
qed

theorem input_run_bounded_witness:
  "let x = input_run [ISetVal (f64_of_int 7), ISetMax (f64_of_int 8), ISetVal (f64_of_int 9)] input_example
   in f64_le (in_min x) (in_val x) \<and> f64_le (in_val x) (in_max x)"
  using input_run_bounded [OF input_example_new,
      of "[ISetVal (f64_of_int 7), ISetMax (f64_of_int 8), ISetVal (f64_of_int 9)]"]
  by (simp add: input_sets_step_def Let_def)

end
