(* ===== verification/Output.thy ===== *)
theory Output
  imports Iocell
begin

text \<open>
  \<open>lib/output.c\<close>: the \<open>STOutput\<close> object. A setter checks its guard, writes the field and
  emits its signal and then \<open>changed\<close>; a failing guard sets \<open>ST_ERROR_INVALID_VALUE\<close> and
  leaves the object alone. The theory shows which setters keep \<open>min <= val <= max\<close>, that the
  object interprets the contract of an I/O cell, and that \<open>st_output_set_step\<close> can break the
  bounds.
\<close>

record st_output =
  out_name :: string
  out_descr :: string
  out_unit :: int
  out_val :: f64
  out_min :: f64
  out_max :: f64
  out_step :: f64
  out_flags :: guint64

section \<open>Construction\<close>

text \<open>The three assertions end the process when they fail.\<close>

definition st_output_new ::
  "string \<Rightarrow> string \<Rightarrow> int \<Rightarrow> f64 \<Rightarrow> f64 \<Rightarrow> f64 \<Rightarrow> f64 \<Rightarrow> guint64 \<Rightarrow> st_output res" where
  "st_output_new name description unit mn mx step v flags =
     (if \<not> f64_lt DBL_MIN (f64_ABS step) then Abort
      else
        let mn = snap_to_step mn step;
            mx = snap_to_step mx step;
            v = snap_to_step v step
        in if \<not> f64_le mn v then Abort
           else if \<not> f64_le v mx then Abort
           else Ret \<lparr>out_name = name, out_descr = description, out_unit = unit, out_val = v,
                     out_min = mn, out_max = mx, out_step = step, out_flags = flags\<rparr>)"

definition st_output_dup :: "st_output \<Rightarrow> st_output" where
  "st_output_dup self =
     \<lparr>out_name = out_name self, out_descr = out_descr self, out_unit = out_unit self,
      out_val = out_val self, out_min = out_min self, out_max = out_max self,
      out_step = out_step self, out_flags = out_flags self\<rparr>"

section \<open>Setters\<close>

definition st_output_set_name :: "st_output \<Rightarrow> string \<Rightarrow> st_output io_result" where
  "st_output_set_name self name =
     (let chg = (out_name self \<noteq> name); self' = self\<lparr>out_name := name\<rparr>
      in (None, self', emit_pair chg SIG_NAME_CHANGED self'))"

definition st_output_set_description :: "st_output \<Rightarrow> string \<Rightarrow> st_output io_result" where
  "st_output_set_description self description =
     (let chg = (out_descr self \<noteq> description); self' = self\<lparr>out_descr := description\<rparr>
      in (None, self', emit_pair chg SIG_DESCR_CHANGED self'))"

definition st_output_set_unit :: "st_output \<Rightarrow> int \<Rightarrow> st_output io_result" where
  "st_output_set_unit self unit =
     (let chg = (out_unit self \<noteq> unit); self' = self\<lparr>out_unit := unit\<rparr>
      in (None, self', emit_pair chg SIG_UNIT_CHANGED self'))"

definition st_output_set_min :: "st_output \<Rightarrow> f64 \<Rightarrow> st_output io_result" where
  "st_output_set_min self mn =
     (let mn = snap_to_step mn (out_step self)
      in if f64_le mn (out_val self)
         then let chg = (\<not> nearly_equal (out_min self) mn (out_step self));
                  self' = self\<lparr>out_min := mn\<rparr>
              in (None, self', emit_pair chg SIG_MIN_CHANGED self')
         else (Some \<lparr>err_code = ST_ERROR_INVALID_VALUE,
                 err_message = ''minimum value is not compatible with val''\<rparr>, self, []))"

definition st_output_set_max :: "st_output \<Rightarrow> f64 \<Rightarrow> st_output io_result" where
  "st_output_set_max self mx =
     (let mx = snap_to_step mx (out_step self)
      in if f64_le (out_val self) mx
         then let chg = (\<not> nearly_equal (out_max self) mx (out_step self));
                  self' = self\<lparr>out_max := mx\<rparr>
              in (None, self', emit_pair chg SIG_MAX_CHANGED self')
         else (Some \<lparr>err_code = ST_ERROR_INVALID_VALUE,
                 err_message = ''maximum value is not compatible with val''\<rparr>, self, []))"

text \<open>
  \<open>st_output_set_step\<close> writes each of min, max and val only when its snapped value is not
  nearly equal to the old one, and emits the signal of each write before the next write.
\<close>

definition st_output_set_step :: "st_output \<Rightarrow> f64 \<Rightarrow> st_output io_result" where
  "st_output_set_step self step =
     (if f64_le (f64_ABS step) DBL_MIN
      then (Some \<lparr>err_code = ST_ERROR_INVALID_VALUE,
                  err_message = ''step must be non-zero''\<rparr>, self, [])
      else
        let mn = snap_to_step (out_min self) step;
            mx = snap_to_step (out_max self) step;
            v = snap_to_step (out_val self) step
        in if f64_le mn v \<and> f64_le v mx
           then let chg0 = (\<not> nearly_equal (out_step self) step step);
                    c1 = (\<not> nearly_equal (out_min self) mn step);
                    self1 = (if c1 then self\<lparr>out_min := mn\<rparr> else self);
                    c2 = (\<not> nearly_equal (out_max self) mx step);
                    self2 = (if c2 then self1\<lparr>out_max := mx\<rparr> else self1);
                    c3 = (\<not> nearly_equal (out_val self) v step);
                    self3 = (if c3 then self2\<lparr>out_val := v\<rparr> else self2);
                    self4 = self3\<lparr>out_step := step\<rparr>
                in (None, self4,
                    (if c1 then [(SIG_MIN_CHANGED, self1)] else [])
                    @ (if c2 then [(SIG_MAX_CHANGED, self2)] else [])
                    @ (if c3 then [(SIG_VAL_CHANGED, self3)] else [])
                    @ emit_pair (chg0 \<or> c1 \<or> c2 \<or> c3) SIG_STEP_CHANGED self4)
           else (Some \<lparr>err_code = ST_ERROR_INVALID_VALUE,
                   err_message = ''output min/max/val not compatible with step after rounding''\<rparr>,
                 self, []))"

definition st_output_set_val :: "st_output \<Rightarrow> f64 \<Rightarrow> st_output io_result" where
  "st_output_set_val self v =
     (let v = snap_to_step v (out_step self)
      in if f64_le (out_min self) v \<and> f64_le v (out_max self)
         then let chg = (\<not> nearly_equal (out_val self) v (out_step self));
                  self' = self\<lparr>out_val := v\<rparr>
              in (None, self', emit_pair chg SIG_VAL_CHANGED self')
         else (Some \<lparr>err_code = ST_ERROR_INVALID_VALUE,
                 err_message = ''val is not compatible with min/max''\<rparr>, self, []))"

definition st_output_set_flags :: "st_output \<Rightarrow> guint64 \<Rightarrow> st_output io_result" where
  "st_output_set_flags self flags =
     (let chg = (out_flags self \<noteq> flags); self' = self\<lparr>out_flags := flags\<rparr>
      in (None, self', emit_pair chg SIG_FLAGS_CHANGED self'))"

lemmas st_output_setter_defs =
  st_output_set_name_def st_output_set_description_def st_output_set_unit_def st_output_set_min_def
  st_output_set_max_def st_output_set_val_def st_output_set_flags_def

section \<open>The contract\<close>

interpretation output_cell: io_cell out_min out_val out_max out_step out_flags
  st_output_set_val st_output_set_min st_output_set_max st_output_set_flags
  by unfold_locales (auto simp: st_output_setter_defs Let_def io_bounded_def)

abbreviation st_output_bounded :: "st_output \<Rightarrow> bool" where
  "st_output_bounded x \<equiv> io_bounded (out_min x) (out_val x) (out_max x)"

lemma st_output_new_bounded: "st_output_new n d u mn mx s v f = Ret x \<Longrightarrow> st_output_bounded x"
  by (auto simp: st_output_new_def Let_def io_bounded_def split: if_splits)

lemma st_output_new_step: "st_output_new n d u mn mx s v f = Ret x \<Longrightarrow> f64_lt DBL_MIN (f64_ABS (out_step x))"
  by (auto simp: st_output_new_def Let_def split: if_splits)

lemma st_output_new_not_fuel [simp]: "st_output_new n d u mn mx s v f \<noteq> Fuel"
  by (simp add: st_output_new_def Let_def)

lemma st_output_dup_id: "st_output_dup x = x"
  by (simp add: st_output_dup_def)

section \<open>Runs of setters\<close>

datatype output_op =
    OSetName string | OSetDescr string | OSetUnit int | OSetMin f64 | OSetMax f64
  | OSetVal f64 | OSetFlags guint64 | OSetStep f64

fun output_apply :: "output_op \<Rightarrow> st_output \<Rightarrow> st_output io_result" where
  "output_apply (OSetName s) x = st_output_set_name x s"
| "output_apply (OSetDescr s) x = st_output_set_description x s"
| "output_apply (OSetUnit u) x = st_output_set_unit x u"
| "output_apply (OSetMin v) x = st_output_set_min x v"
| "output_apply (OSetMax v) x = st_output_set_max x v"
| "output_apply (OSetVal v) x = st_output_set_val x v"
| "output_apply (OSetFlags w) x = st_output_set_flags x w"
| "output_apply (OSetStep v) x = st_output_set_step x v"

fun output_run :: "output_op list \<Rightarrow> st_output \<Rightarrow> st_output" where
  "output_run [] x = x"
| "output_run (c # cs) x = output_run cs (fst (snd (output_apply c x)))"

definition output_sets_step :: "output_op \<Rightarrow> bool" where
  "output_sets_step c = (case c of OSetStep _ \<Rightarrow> True | _ \<Rightarrow> False)"

lemma output_apply_bounded:
  "st_output_bounded x \<Longrightarrow> \<not> output_sets_step c \<Longrightarrow> st_output_bounded (fst (snd (output_apply c x)))"
proof (cases c)
  case (OSetMin v)
  then show "st_output_bounded x \<Longrightarrow> ?thesis" by (simp add: output_cell.set_min_bounded)
next
  case (OSetMax v)
  then show "st_output_bounded x \<Longrightarrow> ?thesis" by (simp add: output_cell.set_max_bounded)
next
  case (OSetVal v)
  then show "st_output_bounded x \<Longrightarrow> ?thesis" by (simp add: output_cell.set_val_bounded)
qed (simp_all add: output_sets_step_def st_output_set_name_def st_output_set_description_def
       st_output_set_unit_def st_output_set_flags_def Let_def)

lemma output_run_bounded_aux:
  "st_output_bounded x \<Longrightarrow> list_all (\<lambda>c. \<not> output_sets_step c) cs \<Longrightarrow> st_output_bounded (output_run cs x)"
  by (induction cs arbitrary: x) (auto dest: output_apply_bounded)

text \<open>\<open>set_step\<close> accepts exactly the steps whose snapped values are still ordered.\<close>

definition output_step_fits :: "st_output \<Rightarrow> f64 \<Rightarrow> bool" where
  "output_step_fits x s = (\<not> f64_le (f64_ABS s) DBL_MIN \<and>
     io_bounded (snap_to_step (out_min x) s) (snap_to_step (out_val x) s) (snap_to_step (out_max x) s))"

lemma st_output_set_step_bad:
  "\<not> output_step_fits x s \<Longrightarrow> \<exists>e. st_output_set_step x s = (Some e, x, [])"
  by (cases "f64_le (f64_ABS s) DBL_MIN")
    (auto simp: output_step_fits_def io_bounded_def st_output_set_step_def Let_def)

lemma st_output_set_step_ok:
  "output_step_fits x s \<Longrightarrow> \<exists>x' ev. st_output_set_step x s = (None, x', ev)
     \<and> out_step x' = s \<and> out_flags x' = out_flags x \<and> out_name x' = out_name x
     \<and> out_min x' \<in> {out_min x, snap_to_step (out_min x) s}
     \<and> out_val x' \<in> {out_val x, snap_to_step (out_val x) s}
     \<and> out_max x' \<in> {out_max x, snap_to_step (out_max x) s}
     \<and> (ev = [] \<or> last ev = (SIG_CHANGED, x'))"
  by (simp add: output_step_fits_def io_bounded_def st_output_set_step_def Let_def emit_pair_def)

text \<open>Every setter rejects by leaving the object as it was and emitting nothing.\<close>

lemma output_apply_error_frame:
  "fst (output_apply c x) \<noteq> None \<Longrightarrow> snd (output_apply c x) = (x, [])"
proof (cases c)
  case (OSetStep s)
  then show "fst (output_apply c x) \<noteq> None \<Longrightarrow> ?thesis"
    using st_output_set_step_bad [of x s] st_output_set_step_ok [of x s]
    by (cases "output_step_fits x s") auto
qed (auto simp: st_output_setter_defs Let_def)

text \<open>
  What a setter has to announce: the field differs from what it is set to, a number by more than the tolerance of
  the step; \<open>set_step\<close> also has to announce the numbers that its new grid moves.
\<close>

fun output_moves :: "output_op \<Rightarrow> st_output \<Rightarrow> bool" where
  "output_moves (OSetName s) x = (s \<noteq> out_name x)"
| "output_moves (OSetDescr s) x = (s \<noteq> out_descr x)"
| "output_moves (OSetUnit u) x = (u \<noteq> out_unit x)"
| "output_moves (OSetMin v) x = (\<not> nearly_equal (out_min x) (snap_to_step v (out_step x)) (out_step x))"
| "output_moves (OSetMax v) x = (\<not> nearly_equal (out_max x) (snap_to_step v (out_step x)) (out_step x))"
| "output_moves (OSetVal v) x = (\<not> nearly_equal (out_val x) (snap_to_step v (out_step x)) (out_step x))"
| "output_moves (OSetFlags w) x = (w \<noteq> out_flags x)"
| "output_moves (OSetStep s) x =
     list_ex (\<lambda>(old, new). \<not> nearly_equal old new s)
       [(out_step x, s), (out_min x, snap_to_step (out_min x) s), (out_max x, snap_to_step (out_max x) s),
        (out_val x, snap_to_step (out_val x) s)]"

fun setter_signal :: "output_op \<Rightarrow> io_signal" where
  "setter_signal (OSetName s) = SIG_NAME_CHANGED"
| "setter_signal (OSetDescr s) = SIG_DESCR_CHANGED"
| "setter_signal (OSetUnit u) = SIG_UNIT_CHANGED"
| "setter_signal (OSetMin v) = SIG_MIN_CHANGED"
| "setter_signal (OSetMax v) = SIG_MAX_CHANGED"
| "setter_signal (OSetVal v) = SIG_VAL_CHANGED"
| "setter_signal (OSetFlags w) = SIG_FLAGS_CHANGED"
| "setter_signal (OSetStep s) = SIG_STEP_CHANGED"

text \<open>What a setter that succeeds leaves: its own field written, a number on the grid of the step. A new step brings
  to its grid the numbers that are not within the tolerance of it.\<close>

fun output_stored :: "output_op \<Rightarrow> st_output \<Rightarrow> st_output" where
  "output_stored (OSetName s) x = x\<lparr>out_name := s\<rparr>"
| "output_stored (OSetDescr s) x = x\<lparr>out_descr := s\<rparr>"
| "output_stored (OSetUnit u) x = x\<lparr>out_unit := u\<rparr>"
| "output_stored (OSetMin v) x = x\<lparr>out_min := snap_to_step v (out_step x)\<rparr>"
| "output_stored (OSetMax v) x = x\<lparr>out_max := snap_to_step v (out_step x)\<rparr>"
| "output_stored (OSetVal v) x = x\<lparr>out_val := snap_to_step v (out_step x)\<rparr>"
| "output_stored (OSetFlags w) x = x\<lparr>out_flags := w\<rparr>"
| "output_stored (OSetStep s) x =
     (let near = (\<lambda>n. if nearly_equal n (snap_to_step n s) s then n else snap_to_step n s)
      in x\<lparr>out_step := s, out_min := near (out_min x), out_max := near (out_max x), out_val := near (out_val x)\<rparr>)"

lemma output_step_emits:
  assumes "output_step_fits x s"
  shows "\<exists>x' pre. x' = output_stored (OSetStep s) x \<and> st_output_set_step x s =
      (None, x', if output_moves (OSetStep s) x then pre @ [(SIG_STEP_CHANGED, x'), (SIG_CHANGED, x')] else []) \<and>
    fst ` set pre \<subseteq> {SIG_MIN_CHANGED, SIG_MAX_CHANGED, SIG_VAL_CHANGED}"
  using assms
  by (simp add: output_step_fits_def io_bounded_def st_output_set_step_def Let_def emit_pair_def)
    (auto intro: exI [of _ "[]"])

section \<open>Properties\<close>

text \<open>C16: a setter of an output that reports an error leaves the object unchanged and emits no
  signal, whichever setter it is. One that succeeds writes its own field and nothing else (a new step also brings the
  numbers to its grid), and emits exactly when it moves the field: then the signal of the
  field and \<open>changed\<close> come last, each with the object in its final state, and before them \<open>set_step\<close> alone emits
  those of the numbers that it moved; otherwise it emits nothing.\<close>

theorem output_setter_frame:
  "\<exists>e x' ev. output_apply c x = (e, x', ev) \<and>
     (if e = None
      then x' = output_stored c x \<and>
        (if output_moves c x
        then \<exists>pre. ev = pre @ [(setter_signal c, x'), (SIG_CHANGED, x')] \<and>
          fst ` set pre \<subseteq> (if output_sets_step c then {SIG_MIN_CHANGED, SIG_MAX_CHANGED, SIG_VAL_CHANGED} else {})
        else ev = [])
      else x' = x \<and> ev = [])"
proof (cases "fst (output_apply c x) = None")
  case False
  then show ?thesis using output_apply_error_frame [of c x] by (cases "output_apply c x") auto
next
  case True
  show ?thesis
  proof (cases c)
    case (OSetStep s)
    then have "output_step_fits x s" using True st_output_set_step_bad [of x s] by fastforce
    from output_step_emits [OF this] OSetStep show ?thesis
      by (elim exE conjE) (simp add: output_sets_step_def del: output_moves.simps(8) output_stored.simps(8))
  qed (use True in \<open>auto simp: st_output_setter_defs Let_def emit_pair_def output_sets_step_def split: if_splits\<close>)
qed

text \<open>The doubles 0.1, 0.3, 0.4 and 0.30000000000000004.\<close>

abbreviation dec_01 :: f64 where "dec_01 \<equiv> F64_Fin False 7205759403792794 (-56)"
abbreviation dec_03 :: f64 where "dec_03 \<equiv> F64_Fin False 5404319552844595 (-54)"
abbreviation dec_04 :: f64 where "dec_04 \<equiv> F64_Fin False 7205759403792794 (-54)"
abbreviation dec_03' :: f64 where "dec_03' \<equiv> F64_Fin False 5404319552844596 (-54)"

lemma decimals:
  "dec_01 = f64_div f64_one (f64_of_int 10)" "dec_03 = f64_div (f64_of_int 3) (f64_of_int 10)"
  "dec_04 = f64_div (f64_of_int 4) (f64_of_int 10)" "dec_03' = f64_mul (f64_of_int 3) dec_01"
  by code_simp+

lemma output_new_grid_01:
  "st_output_new ''o'' ''d'' 0 (f64_neg dec_04) dec_04 dec_01 dec_03 0 =
   Ret \<lparr>out_name = ''o'', out_descr = ''d'', out_unit = 0, out_val = dec_03',
        out_min = f64_neg dec_04, out_max = dec_04, out_step = dec_01, out_flags = 0\<rparr>"
proof -
  have "f64_lt DBL_MIN (f64_ABS dec_01)" by code_simp
  moreover have "snap_to_step (f64_neg dec_04) dec_01 = f64_neg dec_04" by code_simp
  moreover have "snap_to_step dec_04 dec_01 = dec_04" by code_simp
  moreover have "snap_to_step dec_03 dec_01 = dec_03'" by code_simp
  moreover have "f64_le (f64_neg dec_04) dec_03'" by code_simp
  moreover have "f64_le dec_03' dec_04" by code_simp
  ultimately show ?thesis by (simp add: st_output_new_def Let_def del: f64_lt.simps f64_neg.simps)
qed

text \<open>\<open>st_output_set_step\<close> does not keep \<open>min <= val <= max\<close>: it overwrites max with its
  snapped value but keeps a val that is nearly equal to its own snapped value. From an output on
  the grid 0.1 with min -0.4, max 0.4 and val 0.3, setting the step 0.3 succeeds and leaves
  val = 0.30000000000000004 above max = 0.3.\<close>

theorem output_set_step_breaks_bounds:
  "\<exists>x x' ev. st_output_new ''o'' ''d'' 0 (f64_neg dec_04) dec_04 dec_01 dec_03 0 = Ret x
     \<and> st_output_set_step x dec_03 = (None, x', ev) \<and> f64_lt (out_max x') (out_val x')"
proof -
  let ?x = "\<lparr>out_name = ''o'', out_descr = ''d'', out_unit = 0, out_val = dec_03',
     out_min = f64_neg dec_04, out_max = dec_04, out_step = dec_01, out_flags = 0\<rparr>"
  have "\<not> f64_le (f64_ABS dec_03) DBL_MIN" by code_simp
  moreover have "snap_to_step (f64_neg dec_04) dec_03 = f64_neg dec_03" by code_simp
  moreover have "snap_to_step dec_04 dec_03 = dec_03" by code_simp
  moreover have "snap_to_step dec_03' dec_03 = dec_03" by code_simp
  moreover have "f64_le (f64_neg dec_03) dec_03" "f64_le dec_03 dec_03" by code_simp+
  moreover have "\<not> nearly_equal dec_04 dec_03 dec_03" by code_simp
  moreover have "\<not> nearly_equal (f64_neg dec_04) (f64_neg dec_03) dec_03" by code_simp
  moreover have "nearly_equal dec_03' dec_03 dec_03" by code_simp
  ultimately have "fst (st_output_set_step ?x dec_03) = None
      \<and> out_max (fst (snd (st_output_set_step ?x dec_03))) = dec_03
      \<and> out_val (fst (snd (st_output_set_step ?x dec_03))) = dec_03'"
    by (simp add: st_output_set_step_def Let_def del: f64_lt.simps f64_eq.simps f64_neg.simps)
  moreover have "f64_lt dec_03 dec_03'" by code_simp
  moreover obtain e x' ev where "st_output_set_step ?x dec_03 = (e, x', ev)"
    by (cases "st_output_set_step ?x dec_03")
  ultimately show ?thesis
    using output_new_grid_01
    by (intro exI [of _ ?x] exI [of _ x'] exI [of _ ev]) (simp del: f64_lt.simps f64_neg.simps)
qed

end
