(* ===== verification/Stats.thy ===== *)
theory Stats
  imports Defs
begin

text \<open>
  \<open>lib/stats.c\<close>: a statistics object holds nine entries (least, greatest and last sample).
  A setter stores the new entry and emits \<open>changed\<close> when a component moved by at least the
  threshold. The theory relates \<open>st_stats_set_full\<close> to the single setters and says what a run
  of \<open>st_entry_update\<close> computes, and where its initial value makes the maximum wrong.
\<close>

record st_stats_entry =
  se_min :: f64
  se_max :: f64
  se_last :: f64

record st_stats =
  stats_name :: string
  vmsize :: st_stats_entry
  vmrss :: st_stats_entry
  vmswap :: st_stats_entry
  io_read :: st_stats_entry
  io_write :: st_stats_entry
  priority :: st_stats_entry
  threads :: st_stats_entry
  icswitch :: st_stats_entry
  cpu :: st_stats_entry

text \<open>All nine thresholds (\<open>VMSIZE_TH\<close> and so on) are 1.\<close>

definition STATS_TH :: f64 where "STATS_TH = f64_one"

definition entry_diff :: "st_stats_entry \<Rightarrow> st_stats_entry \<Rightarrow> f64 \<Rightarrow> bool" where
  "entry_diff oe ne th =
     (f64_le th (f64_fabs (f64_sub (se_min oe) (se_min ne)))
      \<or> f64_le th (f64_fabs (f64_sub (se_max oe) (se_max ne)))
      \<or> f64_le th (f64_fabs (f64_sub (se_last oe) (se_last ne))))"

section \<open>Entries\<close>

definition st_entry_init :: st_stats_entry where
  "st_entry_init = \<lparr>se_min = G_MAXDOUBLE, se_max = G_MINDOUBLE, se_last = f64_zero\<rparr>"

definition st_entry_update :: "st_stats_entry \<Rightarrow> f64 \<Rightarrow> st_stats_entry" where
  "st_entry_update entry v =
     (let entry = (if f64_lt v (se_min entry) then entry\<lparr>se_min := v\<rparr> else entry);
          entry = (if f64_lt (se_max entry) v then entry\<lparr>se_max := v\<rparr> else entry)
      in entry\<lparr>se_last := v\<rparr>)"

section \<open>Construction\<close>

text \<open>\<open>st_stats_init\<close> followed by the name, as \<open>st_stats_new\<close> sets it.\<close>

definition st_stats_new :: "string \<Rightarrow> st_stats" where
  "st_stats_new name =
     \<lparr>stats_name = name, vmsize = st_entry_init, vmrss = st_entry_init, vmswap = st_entry_init,
      io_read = st_entry_init, io_write = st_entry_init, priority = st_entry_init,
      threads = st_entry_init, icswitch = st_entry_init, cpu = st_entry_init\<rparr>"

definition st_stats_dup :: "st_stats \<Rightarrow> st_stats" where
  "st_stats_dup self =
     \<lparr>stats_name = stats_name self, vmsize = vmsize self, vmrss = vmrss self,
      vmswap = vmswap self, io_read = io_read self, io_write = io_write self,
      priority = priority self, threads = threads self, icswitch = icswitch self,
      cpu = cpu self\<rparr>"

section \<open>Setters\<close>

text \<open>Each returns the object and whether it emitted \<open>changed\<close>.\<close>

definition st_stats_set_name :: "st_stats \<Rightarrow> string \<Rightarrow> st_stats \<times> bool" where
  "st_stats_set_name self v = (self\<lparr>stats_name := v\<rparr>, stats_name self \<noteq> v)"

definition st_stats_set_vmsize :: "st_stats \<Rightarrow> st_stats_entry \<Rightarrow> st_stats \<times> bool" where
  "st_stats_set_vmsize self v = (self\<lparr>vmsize := v\<rparr>, entry_diff (vmsize self) v STATS_TH)"

definition st_stats_set_vmrss :: "st_stats \<Rightarrow> st_stats_entry \<Rightarrow> st_stats \<times> bool" where
  "st_stats_set_vmrss self v = (self\<lparr>vmrss := v\<rparr>, entry_diff (vmrss self) v STATS_TH)"

definition st_stats_set_vmswap :: "st_stats \<Rightarrow> st_stats_entry \<Rightarrow> st_stats \<times> bool" where
  "st_stats_set_vmswap self v = (self\<lparr>vmswap := v\<rparr>, entry_diff (vmswap self) v STATS_TH)"

definition st_stats_set_io_read :: "st_stats \<Rightarrow> st_stats_entry \<Rightarrow> st_stats \<times> bool" where
  "st_stats_set_io_read self v = (self\<lparr>io_read := v\<rparr>, entry_diff (io_read self) v STATS_TH)"

definition st_stats_set_io_write :: "st_stats \<Rightarrow> st_stats_entry \<Rightarrow> st_stats \<times> bool" where
  "st_stats_set_io_write self v = (self\<lparr>io_write := v\<rparr>, entry_diff (io_write self) v STATS_TH)"

definition st_stats_set_priority :: "st_stats \<Rightarrow> st_stats_entry \<Rightarrow> st_stats \<times> bool" where
  "st_stats_set_priority self v = (self\<lparr>priority := v\<rparr>, entry_diff (priority self) v STATS_TH)"

definition st_stats_set_threads :: "st_stats \<Rightarrow> st_stats_entry \<Rightarrow> st_stats \<times> bool" where
  "st_stats_set_threads self v = (self\<lparr>threads := v\<rparr>, entry_diff (threads self) v STATS_TH)"

definition st_stats_set_icswitch :: "st_stats \<Rightarrow> st_stats_entry \<Rightarrow> st_stats \<times> bool" where
  "st_stats_set_icswitch self v = (self\<lparr>icswitch := v\<rparr>, entry_diff (icswitch self) v STATS_TH)"

definition st_stats_set_cpu :: "st_stats \<Rightarrow> st_stats_entry \<Rightarrow> st_stats \<times> bool" where
  "st_stats_set_cpu self v = (self\<lparr>cpu := v\<rparr>, entry_diff (cpu self) v STATS_TH)"

lemmas st_stats_setter_defs =
  st_stats_set_name_def st_stats_set_vmsize_def st_stats_set_vmrss_def st_stats_set_vmswap_def
  st_stats_set_io_read_def st_stats_set_io_write_def st_stats_set_priority_def
  st_stats_set_threads_def st_stats_set_icswitch_def st_stats_set_cpu_def

text \<open>
  \<open>st_stats_set_full\<close>: a NULL argument leaves its field alone; the counter of changes is
  threaded through the ten blocks in order and one signal is emitted at the end.
\<close>

definition full_step ::
  "('a \<Rightarrow> st_stats \<Rightarrow> st_stats \<times> bool) \<Rightarrow> 'a option \<Rightarrow> st_stats \<times> nat \<Rightarrow> st_stats \<times> nat" where
  "full_step f v st =
     (case v of None \<Rightarrow> st
      | Some x \<Rightarrow> (let r = f x (fst st) in (fst r, if snd r then Suc (snd st) else snd st)))"

definition st_stats_set_full ::
  "st_stats \<Rightarrow> string option \<Rightarrow> st_stats_entry option \<Rightarrow> st_stats_entry option \<Rightarrow>
   st_stats_entry option \<Rightarrow> st_stats_entry option \<Rightarrow> st_stats_entry option \<Rightarrow>
   st_stats_entry option \<Rightarrow> st_stats_entry option \<Rightarrow> st_stats_entry option \<Rightarrow>
   st_stats_entry option \<Rightarrow> st_stats \<times> bool" where
  "st_stats_set_full self nm vs vr vw ir iw pr th ic cp =
     (let st = (self, 0);
          st = full_step (\<lambda>v s. (s\<lparr>stats_name := v\<rparr>, stats_name s \<noteq> v)) nm st;
          st = full_step (\<lambda>v s. (s\<lparr>vmsize := v\<rparr>, entry_diff (vmsize s) v STATS_TH)) vs st;
          st = full_step (\<lambda>v s. (s\<lparr>vmrss := v\<rparr>, entry_diff (vmrss s) v STATS_TH)) vr st;
          st = full_step (\<lambda>v s. (s\<lparr>vmswap := v\<rparr>, entry_diff (vmswap s) v STATS_TH)) vw st;
          st = full_step (\<lambda>v s. (s\<lparr>io_read := v\<rparr>, entry_diff (io_read s) v STATS_TH)) ir st;
          st = full_step (\<lambda>v s. (s\<lparr>io_write := v\<rparr>, entry_diff (io_write s) v STATS_TH)) iw st;
          st = full_step (\<lambda>v s. (s\<lparr>priority := v\<rparr>, entry_diff (priority s) v STATS_TH)) pr st;
          st = full_step (\<lambda>v s. (s\<lparr>threads := v\<rparr>, entry_diff (threads s) v STATS_TH)) th st;
          st = full_step (\<lambda>v s. (s\<lparr>icswitch := v\<rparr>, entry_diff (icswitch s) v STATS_TH)) ic st;
          st = full_step (\<lambda>v s. (s\<lparr>cpu := v\<rparr>, entry_diff (cpu s) v STATS_TH)) cp st
      in (fst st, 0 < snd st))"

section \<open>Runs of single setters\<close>

datatype stats_op =
    SSetName string | SSetVmsize st_stats_entry | SSetVmrss st_stats_entry
  | SSetVmswap st_stats_entry | SSetIoRead st_stats_entry | SSetIoWrite st_stats_entry
  | SSetPriority st_stats_entry | SSetThreads st_stats_entry | SSetIcswitch st_stats_entry
  | SSetCpu st_stats_entry

fun stats_apply :: "stats_op \<Rightarrow> st_stats \<Rightarrow> st_stats \<times> bool" where
  "stats_apply (SSetName v) s = st_stats_set_name s v"
| "stats_apply (SSetVmsize v) s = st_stats_set_vmsize s v"
| "stats_apply (SSetVmrss v) s = st_stats_set_vmrss s v"
| "stats_apply (SSetVmswap v) s = st_stats_set_vmswap s v"
| "stats_apply (SSetIoRead v) s = st_stats_set_io_read s v"
| "stats_apply (SSetIoWrite v) s = st_stats_set_io_write s v"
| "stats_apply (SSetPriority v) s = st_stats_set_priority s v"
| "stats_apply (SSetThreads v) s = st_stats_set_threads s v"
| "stats_apply (SSetIcswitch v) s = st_stats_set_icswitch s v"
| "stats_apply (SSetCpu v) s = st_stats_set_cpu s v"

text \<open>The state after a run of setters and the number of \<open>changed\<close> signals it emitted.\<close>

fun stats_run :: "stats_op list \<Rightarrow> st_stats \<times> nat \<Rightarrow> st_stats \<times> nat" where
  "stats_run [] st = st"
| "stats_run (c # cs) st =
     (let r = stats_apply c (fst st)
      in stats_run cs (fst r, if snd r then Suc (snd st) else snd st))"

definition opt_op :: "('a \<Rightarrow> stats_op) \<Rightarrow> 'a option \<Rightarrow> stats_op list" where
  "opt_op c v = (case v of None \<Rightarrow> [] | Some x \<Rightarrow> [c x])"

lemma stats_run_append: "stats_run (cs @ ds) st = stats_run ds (stats_run cs st)"
  by (induction cs arbitrary: st) (auto simp: Let_def)

lemma stats_run_opt:
  "stats_run (opt_op c v) st = full_step (\<lambda>x s. stats_apply (c x) s) v st"
  by (cases v) (auto simp: opt_op_def full_step_def Let_def)

section \<open>Runs of samples\<close>

definition samples :: "f64 list \<Rightarrow> st_stats_entry \<Rightarrow> st_stats_entry" where
  "samples vs e = foldl st_entry_update e vs"

lemma st_entry_update_fields:
  "se_min (st_entry_update e v) = (if f64_lt v (se_min e) then v else se_min e)"
  "se_max (st_entry_update e v) = (if f64_lt (se_max e) v then v else se_max e)"
  "se_last (st_entry_update e v) = v"
  by (simp_all add: st_entry_update_def Let_def)

lemma samples_Nil [simp]: "samples [] e = e"
  by (simp add: samples_def)

lemma samples_snoc [simp]: "samples (vs @ [v]) e = st_entry_update (samples vs e) v"
  by (simp add: samples_def)

lemma samples_min_le:
  assumes "\<forall>v\<in>set vs. \<not> f64_is_nan v" "\<not> f64_is_nan (se_min e)"
  shows "\<not> f64_is_nan (se_min (samples vs e)) \<and>
    f64_le (se_min (samples vs e)) (se_min e) \<and>
    (\<forall>v\<in>set vs. f64_le (se_min (samples vs e)) v) \<and>
    (se_min (samples vs e) = se_min e \<or> se_min (samples vs e) \<in> set vs)"
  using assms
proof (induction vs rule: rev_induct)
  case Nil
  then show ?case by (simp add: f64_le_refl_iff)
next
  case (snoc v vs)
  then have IH: "\<not> f64_is_nan (se_min (samples vs e))"
    "f64_le (se_min (samples vs e)) (se_min e)"
    "\<forall>v\<in>set vs. f64_le (se_min (samples vs e)) v"
    "se_min (samples vs e) = se_min e \<or> se_min (samples vs e) \<in> set vs" and v: "\<not> f64_is_nan v"
    by auto
  show ?case
  proof (cases "f64_lt v (se_min (samples vs e))")
    case True
    with IH v show ?thesis
      by (auto simp: st_entry_update_fields f64_le_refl_iff
          intro: f64_le_trans [OF f64_lt_imp_le])
  next
    case False
    with IH v have "f64_le (se_min (samples vs e)) v" using f64_not_lt by blast
    with False IH v show ?thesis by (auto simp: st_entry_update_fields)
  qed
qed

lemma samples_max_ge:
  assumes "\<forall>v\<in>set vs. \<not> f64_is_nan v" "\<not> f64_is_nan (se_max e)"
  shows "\<not> f64_is_nan (se_max (samples vs e)) \<and>
    f64_le (se_max e) (se_max (samples vs e)) \<and>
    (\<forall>v\<in>set vs. f64_le v (se_max (samples vs e))) \<and>
    (se_max (samples vs e) = se_max e \<or> se_max (samples vs e) \<in> set vs)"
  using assms
proof (induction vs rule: rev_induct)
  case Nil
  then show ?case by (simp add: f64_le_refl_iff)
next
  case (snoc v vs)
  then have IH: "\<not> f64_is_nan (se_max (samples vs e))"
    "f64_le (se_max e) (se_max (samples vs e))"
    "\<forall>v\<in>set vs. f64_le v (se_max (samples vs e))"
    "se_max (samples vs e) = se_max e \<or> se_max (samples vs e) \<in> set vs" and v: "\<not> f64_is_nan v"
    by auto
  show ?case
  proof (cases "f64_lt (se_max (samples vs e)) v")
    case True
    with IH v show ?thesis
      by (auto simp: st_entry_update_fields f64_le_refl_iff
          intro: f64_le_trans [OF _ f64_lt_imp_le])
  next
    case False
    with IH v have "f64_le v (se_max (samples vs e))" using f64_not_lt by blast
    with False IH v show ?thesis by (auto simp: st_entry_update_fields)
  qed
qed

lemma samples_last: "vs \<noteq> [] \<Longrightarrow> se_last (samples vs e) = last vs"
  by (cases vs rule: rev_cases) (auto simp: st_entry_update_fields)

section \<open>Properties\<close>

text \<open>C17: \<open>st_stats_set_full\<close> is the run of the single setters for its non-NULL arguments: it
  leaves the same object, and it emits \<open>changed\<close> once exactly when at least one of the single
  setters would have emitted.\<close>

theorem st_stats_set_full_refines:
  "st_stats_set_full s nm vs vr vw ir iw pr th ic cp =
     (let st = stats_run (opt_op SSetName nm @ opt_op SSetVmsize vs @ opt_op SSetVmrss vr
                @ opt_op SSetVmswap vw @ opt_op SSetIoRead ir @ opt_op SSetIoWrite iw
                @ opt_op SSetPriority pr @ opt_op SSetThreads th @ opt_op SSetIcswitch ic
                @ opt_op SSetCpu cp) (s, 0)
      in (fst st, 0 < snd st))"
  by (simp add: st_stats_set_full_def stats_run_append stats_run_opt st_stats_setter_defs Let_def)

text \<open>after any nonempty run of samples without a NaN into a fresh entry, \<open>last\<close> is the last
  sample, \<open>min\<close> is a sample and no sample is below it (when all samples are finite), and \<open>max\<close>
  is above every sample, but it is the greatest sample only if one exceeds \<open>G_MINDOUBLE\<close>: it is
  a sample or it is still \<open>G_MINDOUBLE\<close>.\<close>

theorem st_entry_samples:
  assumes "vs \<noteq> []" "\<forall>v\<in>set vs. f64_wf v \<and> f64_finite v"
  shows "se_last (samples vs st_entry_init) = last vs
    \<and> (\<forall>v\<in>set vs. f64_le (se_min (samples vs st_entry_init)) v)
    \<and> (\<exists>v\<in>set vs. f64_eq (se_min (samples vs st_entry_init)) v)
    \<and> (\<forall>v\<in>set vs. f64_le v (se_max (samples vs st_entry_init)))
    \<and> (se_max (samples vs st_entry_init) = G_MINDOUBLE \<or> se_max (samples vs st_entry_init) \<in> set vs)"
proof -
  let ?e = "samples vs st_entry_init"
  have nn: "\<forall>v\<in>set vs. \<not> f64_is_nan v" using assms(2) by auto
  have mn: "\<not> f64_is_nan (se_min st_entry_init)" "\<not> f64_is_nan (se_max st_entry_init)"
    by (simp_all add: st_entry_init_def G_MAXDOUBLE_def G_MINDOUBLE_def)
  note lo = samples_min_le [OF nn mn(1)] and hi = samples_max_ge [OF nn mn(2)]
  have "\<exists>v\<in>set vs. f64_eq (se_min ?e) v"
  proof (cases "se_min ?e \<in> set vs")
    case True
    with nn show ?thesis by (auto simp: f64_eq_refl_iff intro!: bexI [of _ "se_min ?e"])
  next
    case False
    with lo have m: "se_min ?e = G_MAXDOUBLE" by (simp add: st_entry_init_def)
    have "hd vs \<in> set vs" using assms(1) by simp
    with lo m assms(2) have "f64_eq (se_min ?e) (hd vs)"
      by (metis f64_le_antisym f64_max_finite)
    with \<open>hd vs \<in> set vs\<close> show ?thesis by blast
  qed
  with lo hi samples_last [OF assms(1), of st_entry_init] show ?thesis
    by (simp add: st_entry_init_def)
qed

theorem st_entry_samples_witness:
  "se_last (samples [f64_of_int 2, f64_of_int 5] st_entry_init) = f64_of_int 5
   \<and> f64_le (f64_of_int 2) (se_max (samples [f64_of_int 2, f64_of_int 5] st_entry_init))"
proof -
  have "\<forall>v\<in>set [f64_of_int 2, f64_of_int 5]. f64_wf v \<and> f64_finite v" by code_simp
  from st_entry_samples [OF _ this] show ?thesis by simp
qed

text \<open>a nonempty run of samples none of which is positive leaves \<open>max\<close> at \<open>G_MINDOUBLE\<close>, a
  positive number (the least normal double), which is no sample and above all of them: the
  initial value is not a lower bound. Process priorities, one of the entries, can be negative.\<close>

theorem st_entry_max_nonpositive:
  assumes "\<forall>v\<in>set vs. f64_le v f64_zero"
  shows "se_max (samples vs st_entry_init) = G_MINDOUBLE \<and> (\<forall>v\<in>set vs. f64_lt v G_MINDOUBLE)"
proof -
  have z: "f64_lt f64_zero G_MINDOUBLE" by (simp add: f64_zero_def G_MINDOUBLE_def)
  have lt: "\<forall>v\<in>set vs. f64_lt v G_MINDOUBLE" using assms z f64_le_lt_trans by blast
  have nn: "\<forall>v\<in>set vs. \<not> f64_is_nan v" using assms by auto
  have "\<not> f64_is_nan (se_max st_entry_init)" by (simp add: st_entry_init_def G_MINDOUBLE_def)
  from samples_max_ge [OF nn this] have
    h: "f64_le G_MINDOUBLE (se_max (samples vs st_entry_init))"
    "se_max (samples vs st_entry_init) = G_MINDOUBLE \<or> se_max (samples vs st_entry_init) \<in> set vs"
    by (auto simp: st_entry_init_def)
  with lt show ?thesis using f64_lt_le_trans f64_lt_irrefl by blast
qed

theorem st_entry_max_nonpositive_witness:
  "se_max (samples [f64_of_int (-20), f64_of_int (-5)] st_entry_init) = G_MINDOUBLE"
proof -
  have "\<forall>v\<in>set [f64_of_int (-20), f64_of_int (-5)]. f64_le v f64_zero" by code_simp
  from st_entry_max_nonpositive [OF this] show ?thesis ..
qed

end
