(* ===== verification/Client.thy ===== *)
theory Client
  imports Input Output Stats
begin

text \<open>
  \<open>lib/client.c\<close>: the proxy of a remote peer. It mirrors the peer's inputs, outputs and
  statistics, refreshed by D-Bus signals, and sends \<open>SetInput\<close>/\<open>SetOutput\<close> calls. The bus
  and the remote side are a parameter: what the bus answers to a call, given the calls sent
  before on this connection.
\<close>

section \<open>Values on the bus\<close>

text \<open>The tuple \<open>{s(siddddt)}\<close> that describes one input or output.\<close>

record io_entry =
  ie_name :: string
  ie_descr :: string
  ie_unit :: int
  ie_min :: f64
  ie_max :: f64
  ie_step :: f64
  ie_val :: f64
  ie_flags :: guint64

datatype variant =
    V_NAME string
  | V_VERSION int int int
  | V_IO_MAP "io_entry list"
  | V_STATS st_stats
  | V_INT guint32
  | V_OTHER string

fun v_signature :: "variant \<Rightarrow> string" where
  "v_signature (V_NAME _) = ''(s)''"
| "v_signature (V_VERSION _ _ _) = ''(iii)''"
| "v_signature (V_IO_MAP _) = ''(a{s(siddddt)})''"
| "v_signature (V_STATS _) = ''((sddddddddddddddddddddddddddd))''"
| "v_signature (V_INT _) = ''(i)''"
| "v_signature (V_OTHER s) = s"

datatype bus_call =
    CallGetName | CallGetVersion | CallGetInputs | CallGetOutputs | CallGetStats
  | CallSetOutput string f64 guint64 | CallSetInput string f64 guint64

type_synonym bus = "bus_call list \<Rightarrow> bus_call \<Rightarrow> gerror + variant"

section \<open>State\<close>

datatype st_client_state =
    ST_CLIENT_STATE_IDLE | ST_CLIENT_STATE_PENDING | ST_CLIENT_STATE_READY | ST_CLIENT_STATE_FAILED

record st_client =
  cl_connection :: bool
  cl_subscribed :: bool
  cl_inputs :: "st_input list"
  cl_outputs :: "st_output list"
  cl_stats :: st_stats
  cl_state :: st_client_state
  cl_start_cancellable :: bool
  cl_calls :: "bus_call list"

definition st_client_init :: st_client where
  "st_client_init = \<lparr>cl_connection = False, cl_subscribed = False, cl_inputs = [], cl_outputs = [],
     cl_stats = st_stats_new ''noname'', cl_state = ST_CLIENT_STATE_IDLE,
     cl_start_cancellable = False, cl_calls = []\<rparr>"

definition st_client_is_ready :: "st_client \<Rightarrow> bool" where
  "st_client_is_ready c = (cl_state c = ST_CLIENT_STATE_READY)"

section \<open>Calls\<close>

definition not_connected :: gerror where
  "not_connected = \<lparr>err_code = ST_ERROR_NOT_CONNECTED,
     err_message = ''client is not connected to D-Bus server''\<rparr>"

definition bad_signature :: "variant \<Rightarrow> gerror" where
  "bad_signature v = \<lparr>err_code = ST_ERROR_INVALID_RESPONSE,
     err_message = ''bad response signature: '' @ v_signature v\<rparr>"

text \<open>One synchronous call: the call is recorded, and the answer is the bus's.\<close>

definition call_sync :: "bus \<Rightarrow> bus_call \<Rightarrow> st_client \<Rightarrow> (gerror + variant) \<times> st_client" where
  "call_sync bus c self = (bus (cl_calls self) c, self\<lparr>cl_calls := cl_calls self @ [c]\<rparr>)"

definition call_get_name_method :: "bus \<Rightarrow> st_client \<Rightarrow> (gerror + string) \<times> st_client" where
  "call_get_name_method bus self =
     (if cl_connection self
      then case call_sync bus CallGetName self of
             (Inl e, self') \<Rightarrow> (Inl e, self')
           | (Inr v, self') \<Rightarrow>
               (case v of V_NAME s \<Rightarrow> (Inr s, self') | _ \<Rightarrow> (Inl (bad_signature v), self'))
      else (Inl not_connected, self))"

definition call_get_version_method ::
  "bus \<Rightarrow> st_client \<Rightarrow> (gerror + (int \<times> int \<times> int)) \<times> st_client" where
  "call_get_version_method bus self =
     (if cl_connection self
      then case call_sync bus CallGetVersion self of
             (Inl e, self') \<Rightarrow> (Inl e, self')
           | (Inr v, self') \<Rightarrow>
               (case v of V_VERSION a b c \<Rightarrow> (Inr (a, b, c), self')
                | _ \<Rightarrow> (Inl (bad_signature v), self'))
      else (Inl not_connected, self))"

text \<open>
  The snapshots. Each entry of the answer goes through the constructor of the mirrored object,
  whose assertions abort the process when the peer sends an inconsistent entry. The old array
  contents are stolen before the loop.
\<close>

fun new_inputs :: "io_entry list \<Rightarrow> st_input list res" where
  "new_inputs [] = Ret []"
| "new_inputs (e # es) =
     rbind (st_input_new (ie_name e) (ie_descr e) (ie_unit e) (ie_min e) (ie_max e) (ie_step e)
              (ie_val e) (ie_flags e)) (\<lambda>i.
     rbind (new_inputs es) (\<lambda>is. Ret (i # is)))"

fun new_outputs :: "io_entry list \<Rightarrow> st_output list res" where
  "new_outputs [] = Ret []"
| "new_outputs (e # es) =
     rbind (st_output_new (ie_name e) (ie_descr e) (ie_unit e) (ie_min e) (ie_max e) (ie_step e)
              (ie_val e) (ie_flags e)) (\<lambda>i.
     rbind (new_outputs es) (\<lambda>is. Ret (i # is)))"

definition apply_inputs_from_result ::
  "st_client \<Rightarrow> variant \<Rightarrow> (gerror option \<times> st_client) res" where
  "apply_inputs_from_result self result =
     (case result of
        V_IO_MAP es \<Rightarrow> rbind (new_inputs es) (\<lambda>is. Ret (None, self\<lparr>cl_inputs := is\<rparr>))
      | _ \<Rightarrow> Ret (Some (bad_signature result), self))"

definition apply_outputs_from_result ::
  "st_client \<Rightarrow> variant \<Rightarrow> (gerror option \<times> st_client) res" where
  "apply_outputs_from_result self result =
     (case result of
        V_IO_MAP es \<Rightarrow> rbind (new_outputs es) (\<lambda>os. Ret (None, self\<lparr>cl_outputs := os\<rparr>))
      | _ \<Rightarrow> Ret (Some (bad_signature result), self))"

definition stats_set_all :: "st_stats \<Rightarrow> st_stats \<Rightarrow> st_stats \<times> bool" where
  "stats_set_all s p = st_stats_set_full s (Some (stats_name p)) (Some (vmsize p)) (Some (vmrss p))
     (Some (vmswap p)) (Some (io_read p)) (Some (io_write p)) (Some (priority p))
     (Some (threads p)) (Some (icswitch p)) (Some (cpu p))"

definition apply_stats_from_result ::
  "st_client \<Rightarrow> variant \<Rightarrow> gerror option \<times> st_client" where
  "apply_stats_from_result self result =
     (case result of
        V_STATS p \<Rightarrow> (None, self\<lparr>cl_stats := fst (stats_set_all (cl_stats self) p)\<rparr>)
      | _ \<Rightarrow> (Some (bad_signature result), self))"

definition call_get_inputs_method ::
  "bus \<Rightarrow> st_client \<Rightarrow> (gerror option \<times> st_client) res" where
  "call_get_inputs_method bus self =
     (if cl_connection self
      then case call_sync bus CallGetInputs self of
             (Inl e, self') \<Rightarrow> Ret (Some e, self')
           | (Inr v, self') \<Rightarrow> apply_inputs_from_result self' v
      else Ret (Some not_connected, self))"

definition call_get_outputs_method ::
  "bus \<Rightarrow> st_client \<Rightarrow> (gerror option \<times> st_client) res" where
  "call_get_outputs_method bus self =
     (if cl_connection self
      then case call_sync bus CallGetOutputs self of
             (Inl e, self') \<Rightarrow> Ret (Some e, self')
           | (Inr v, self') \<Rightarrow> apply_outputs_from_result self' v
      else Ret (Some not_connected, self))"

definition call_get_stats_method ::
  "bus \<Rightarrow> st_client \<Rightarrow> gerror option \<times> st_client" where
  "call_get_stats_method bus self =
     (if cl_connection self
      then case call_sync bus CallGetStats self of
             (Inl e, self') \<Rightarrow> (Some e, self')
           | (Inr v, self') \<Rightarrow> apply_stats_from_result self' v
      else (Some not_connected, self))"

text \<open>
  \<open>call_set_io_method\<close> returns the peer's integer unchanged; every error path returns 0.
\<close>

definition call_set_io_method ::
  "bus \<Rightarrow> bus_call \<Rightarrow> st_client \<Rightarrow> guint32 \<times> gerror option \<times> st_client" where
  "call_set_io_method bus c self =
     (if cl_connection self
      then case call_sync bus c self of
             (Inl e, self') \<Rightarrow> (0, Some e, self')
           | (Inr v, self') \<Rightarrow>
               (case v of V_INT r \<Rightarrow> (r, None, self') | _ \<Rightarrow> (0, Some (bad_signature v), self'))
      else (0, Some not_connected, self))"

text \<open>The callers test the result as a boolean: any nonzero integer is success.\<close>

definition st_client_set_output ::
  "bus \<Rightarrow> st_client \<Rightarrow> string \<Rightarrow> f64 \<Rightarrow> guint64 \<Rightarrow> bool \<times> st_client" where
  "st_client_set_output bus self name v flags =
     (let r = call_set_io_method bus (CallSetOutput name v flags) self
      in (fst r \<noteq> 0, snd (snd r)))"

definition st_client_set_input ::
  "bus \<Rightarrow> st_client \<Rightarrow> string \<Rightarrow> f64 \<Rightarrow> guint64 \<Rightarrow> bool \<times> st_client" where
  "st_client_set_input bus self name v flags =
     (let r = call_set_io_method bus (CallSetInput name v flags) self
      in (fst r \<noteq> 0, snd (snd r)))"

section \<open>Change signals\<close>

text \<open>
  The handlers of \<open>InputChanged\<close> and \<open>OutputChanged\<close> find the first mirrored object of the
  name and run all seven setters; an error of one is logged and the next still runs. What the
  object emits meanwhile is returned in order.
\<close>

definition input_setters :: "io_entry \<Rightarrow> input_op list" where
  "input_setters e = [ISetDescr (ie_descr e), ISetUnit (ie_unit e), ISetMin (ie_min e),
     ISetMax (ie_max e), ISetStep (ie_step e), ISetVal (ie_val e), ISetFlags (ie_flags e)]"

fun input_apply_all :: "input_op list \<Rightarrow> st_input \<Rightarrow> st_input \<times> (io_signal \<times> st_input) list" where
  "input_apply_all [] x = (x, [])"
| "input_apply_all (c # cs) x =
     (let r = input_apply c x; s = input_apply_all cs (fst (snd r))
      in (fst s, snd (snd r) @ snd s))"

fun update_first_input ::
  "io_entry \<Rightarrow> st_input list \<Rightarrow> st_input list \<times> (io_signal \<times> st_input) list" where
  "update_first_input e [] = ([], [])"
| "update_first_input e (i # is) =
     (if ie_name e = in_name i
      then (let r = input_apply_all (input_setters e) i in (fst r # is, snd r))
      else (let r = update_first_input e is in (i # fst r, snd r)))"

definition handle_input_changed_signal ::
  "st_client \<Rightarrow> io_entry \<Rightarrow> st_client \<times> (io_signal \<times> st_input) list" where
  "handle_input_changed_signal self e =
     (let r = update_first_input e (cl_inputs self) in (self\<lparr>cl_inputs := fst r\<rparr>, snd r))"

definition output_setters :: "io_entry \<Rightarrow> output_op list" where
  "output_setters e = [OSetDescr (ie_descr e), OSetUnit (ie_unit e), OSetMin (ie_min e),
     OSetMax (ie_max e), OSetStep (ie_step e), OSetVal (ie_val e), OSetFlags (ie_flags e)]"

fun output_apply_all :: "output_op list \<Rightarrow> st_output \<Rightarrow> st_output \<times> (io_signal \<times> st_output) list" where
  "output_apply_all [] x = (x, [])"
| "output_apply_all (c # cs) x =
     (let r = output_apply c x; s = output_apply_all cs (fst (snd r))
      in (fst s, snd (snd r) @ snd s))"

fun update_first_output ::
  "io_entry \<Rightarrow> st_output list \<Rightarrow> st_output list \<times> (io_signal \<times> st_output) list" where
  "update_first_output e [] = ([], [])"
| "update_first_output e (i # is) =
     (if ie_name e = out_name i
      then (let r = output_apply_all (output_setters e) i in (fst r # is, snd r))
      else (let r = update_first_output e is in (i # fst r, snd r)))"

definition handle_output_changed_signal ::
  "st_client \<Rightarrow> io_entry \<Rightarrow> st_client \<times> (io_signal \<times> st_output) list" where
  "handle_output_changed_signal self e =
     (let r = update_first_output e (cl_outputs self) in (self\<lparr>cl_outputs := fst r\<rparr>, snd r))"

definition handle_stats_changed_signal :: "st_client \<Rightarrow> st_stats \<Rightarrow> st_client \<times> bool" where
  "handle_stats_changed_signal self p =
     (let r = stats_set_all (cl_stats self) p in (self\<lparr>cl_stats := fst r\<rparr>, snd r))"

text \<open>The signals a peer sends, and the handler that each is subscribed with.\<close>

datatype server_signal = SgInputChanged io_entry | SgOutputChanged io_entry | SgStatsChanged st_stats

fun deliver_signal :: "server_signal \<Rightarrow> st_client \<Rightarrow> st_client" where
  "deliver_signal (SgInputChanged e) self = fst (handle_input_changed_signal self e)"
| "deliver_signal (SgOutputChanged e) self = fst (handle_output_changed_signal self e)"
| "deliver_signal (SgStatsChanged p) self = fst (handle_stats_changed_signal self p)"

section \<open>Starting\<close>

definition subscribe_change_signals :: "st_client \<Rightarrow> st_client" where
  "subscribe_change_signals self = self\<lparr>cl_subscribed := True\<rparr>"

definition start_in_progress :: gerror where
  "start_in_progress = \<lparr>err_code = ST_ERROR_SYSTEM,
     err_message = ''client start already in progress or completed''\<rparr>"

text \<open>
  \<open>st_client_start\<close>: \<open>connect\<close> is the answer of \<open>g_dbus_connection_new_for_address_sync\<close>
  (an error, or none when the connection is up).
\<close>

definition start_failed :: "gerror \<Rightarrow> st_client \<Rightarrow> (gerror option \<times> st_client) res" where
  "start_failed e self =
     Ret (Some e, self\<lparr>cl_state := ST_CLIENT_STATE_FAILED, cl_connection := False\<rparr>)"

definition st_client_start ::
  "bus \<Rightarrow> gerror option \<Rightarrow> st_client \<Rightarrow> (gerror option \<times> st_client) res" where
  "st_client_start bus connect self =
     (if cl_state self = ST_CLIENT_STATE_PENDING \<or> cl_state self = ST_CLIENT_STATE_READY
      then Ret (Some start_in_progress, self)
      else
        let self = self\<lparr>cl_state := ST_CLIENT_STATE_PENDING\<rparr>
        in case connect of
             Some e \<Rightarrow> start_failed e (self\<lparr>cl_connection := False\<rparr>)
           | None \<Rightarrow>
               rbind (call_get_inputs_method bus (self\<lparr>cl_connection := True\<rparr>)) (\<lambda>(e1, self1).
               case e1 of Some e \<Rightarrow> start_failed e self1 | None \<Rightarrow>
               rbind (call_get_outputs_method bus self1) (\<lambda>(e2, self2).
               case e2 of Some e \<Rightarrow> start_failed e self2 | None \<Rightarrow>
               (case call_get_stats_method bus self2 of
                  (Some e, self3) \<Rightarrow> start_failed e self3
                | (None, self3) \<Rightarrow>
                    Ret (None, (subscribe_change_signals self3)
                                 \<lparr>cl_state := ST_CLIENT_STATE_READY\<rparr>)))))"

end
