(* ===== verification/Expr.thy ===== *)
theory Expr
  imports Client "HOL-Library.Multiset"
begin

text \<open>
  \<open>src/expr.c\<close>: expressions of the rules language. Expressions are reference-counted nodes
  that several owners share (an assignment and the variable it was assigned to), and two
  functions write to their nodes while they are evaluated: \<open>EVAL\<close> replaces its argument by a
  literal and \<open>CHANGED\<close> stores the last value in a literal. So the nodes live in an explicit
  heap. Recursion through the nodes takes fuel, one unit per C stack frame.
\<close>

section \<open>Nodes and the heap\<close>

type_synonym addr = nat

datatype expr_data =
    EX_LITERAL f64
  | EX_OP string addr addr
  | EX_REF string
  | EX_FUNC string "addr list"
  | EX_FLAG string guint64

record expr =
  ex_data :: expr_data
  ex_nref :: int

record expr_heap =
  eh_cell :: "addr \<Rightarrow> expr option"
  eh_next :: addr

definition heap_empty :: expr_heap where
  "heap_empty = \<lparr>eh_cell = (\<lambda>_. None), eh_next = 0\<rparr>"

definition expr_at :: "expr_heap \<Rightarrow> addr \<Rightarrow> expr res" where
  "expr_at h a = deref (eh_cell h a)"

definition expr_put :: "addr \<Rightarrow> expr \<Rightarrow> expr_heap \<Rightarrow> expr_heap" where
  "expr_put a x h = h\<lparr>eh_cell := (eh_cell h)(a \<mapsto> x)\<rparr>"

definition expr_free :: "addr \<Rightarrow> expr_heap \<Rightarrow> expr_heap" where
  "expr_free a h = h\<lparr>eh_cell := (eh_cell h)(a := None)\<rparr>"

text \<open>\<open>g_malloc0\<close> of a node, with \<open>nref = 1\<close> as every constructor sets it.\<close>

definition expr_alloc :: "expr_data \<Rightarrow> expr_heap \<Rightarrow> addr \<times> expr_heap" where
  "expr_alloc d h =
     (eh_next h, h\<lparr>eh_cell := (eh_cell h)(eh_next h \<mapsto> \<lparr>ex_data = d, ex_nref = 1\<rparr>),
                   eh_next := Suc (eh_next h)\<rparr>)"

fun kids :: "expr_data \<Rightarrow> addr list" where
  "kids (EX_OP _ l r) = [l, r]"
| "kids (EX_FUNC _ as) = as"
| "kids _ = []"

section \<open>Reference counts\<close>

definition expr_ref :: "addr \<Rightarrow> expr_heap \<Rightarrow> expr_heap res" where
  "expr_ref a h = rbind (expr_at h a) (\<lambda>x. Ret (expr_put a (x\<lparr>ex_nref := ex_nref x + 1\<rparr>) h))"

fun unref_list :: "(addr \<Rightarrow> expr_heap \<Rightarrow> expr_heap res) \<Rightarrow> addr list \<Rightarrow> expr_heap \<Rightarrow> expr_heap res" where
  "unref_list f [] h = Ret h"
| "unref_list f (a # as) h = rbind (f a h) (unref_list f as)"

text \<open>
  The last reference frees the node: \<open>destroy\<close> (which drops a function's arguments), then the
  operands, then the node itself.
\<close>

fun expr_unref :: "nat \<Rightarrow> addr \<Rightarrow> expr_heap \<Rightarrow> expr_heap res" where
  "expr_unref 0 a h = Fuel"
| "expr_unref (Suc n) a h =
     rbind (expr_at h a) (\<lambda>x.
       if 1 < ex_nref x then Ret (expr_put a (x\<lparr>ex_nref := ex_nref x - 1\<rparr>) h)
       else rbind (unref_list (expr_unref n) (kids (ex_data x)) h) (\<lambda>h'. Ret (expr_free a h')))"

section \<open>Constructors\<close>

definition expr_new_literal :: "f64 \<Rightarrow> expr_heap \<Rightarrow> addr \<times> expr_heap" where
  "expr_new_literal v h = expr_alloc (EX_LITERAL v) h"

definition expr_new_op :: "string \<Rightarrow> addr \<Rightarrow> addr \<Rightarrow> expr_heap \<Rightarrow> (addr \<times> expr_heap) res" where
  "expr_new_op op l r h =
     (let (a, h) = expr_alloc (EX_OP op l r) h
      in rbind (expr_ref l h) (\<lambda>h. rbind (expr_ref r h) (\<lambda>h. Ret (a, h))))"

definition expr_new_ref :: "string \<Rightarrow> expr_heap \<Rightarrow> addr \<times> expr_heap" where
  "expr_new_ref s h = expr_alloc (EX_REF s) h"

definition expr_new_flag :: "string \<Rightarrow> guint64 \<Rightarrow> expr_heap \<Rightarrow> addr \<times> expr_heap" where
  "expr_new_flag s b h = expr_alloc (EX_FLAG s b) h"

text \<open>
  The argument array passes to the node: \<open>expr_new_func\<close> takes a reference and the parser drops
  its own. The elements' references were the parser's and now are the array's.
\<close>

definition expr_new_func :: "string \<Rightarrow> addr list \<Rightarrow> expr_heap \<Rightarrow> addr \<times> expr_heap" where
  "expr_new_func ident args h = expr_alloc (EX_FUNC ident args) h"

definition expr_new_func_min :: "addr list \<Rightarrow> expr_heap \<Rightarrow> addr \<times> expr_heap" where
  "expr_new_func_min args h = expr_new_func ''MIN'' args h"

definition expr_new_func_max :: "addr list \<Rightarrow> expr_heap \<Rightarrow> addr \<times> expr_heap" where
  "expr_new_func_max args h = expr_new_func ''MAX'' args h"

definition expr_new_func_round :: "addr list \<Rightarrow> expr_heap \<Rightarrow> addr \<times> expr_heap" where
  "expr_new_func_round args h = expr_new_func ''ROUND'' args h"

definition expr_new_func_limit :: "addr list \<Rightarrow> expr_heap \<Rightarrow> addr \<times> expr_heap" where
  "expr_new_func_limit args h = expr_new_func ''LIMIT'' args h"

definition expr_new_func_eval :: "addr list \<Rightarrow> expr_heap \<Rightarrow> addr \<times> expr_heap" where
  "expr_new_func_eval args h = expr_new_func ''EVAL'' args h"

definition expr_new_func_changed :: "addr list \<Rightarrow> expr_heap \<Rightarrow> addr \<times> expr_heap" where
  "expr_new_func_changed args h =
     (let (l, h) = expr_new_literal G_MINDOUBLE h
      in expr_new_func ''CHANGED'' (args @ [l]) h)"

section \<open>The environment of an evaluation\<close>

record client_map =
  cm_client :: nat
  cm_index :: nat

record st_var =
  var_name :: string
  var_value :: addr

type_synonym io_table = "(string, client_map) ghash"
type_synonym var_table = "(string, st_var) ghash"

text \<open>
  An evaluation returns TRUE with a value, or FALSE with or without a \<open>GError\<close>. The
  \<open>EVAL\<close> function ends without a return statement in one branch; what the caller then reads as
  its result is indeterminate and a parameter (\<open>ev_noret\<close>).
\<close>

datatype ev_result = EvTrue f64 | EvFalse "gerror option"

record env =
  ev_inputs :: "io_table option"
  ev_outputs :: "io_table option"
  ev_clients :: "nat \<Rightarrow> st_client option"
  ev_noret :: ev_result

text \<open>Lookup in a table that may be NULL, and the object a table entry points to.\<close>

definition tab_lookup :: "('k, 'v) ghash option \<Rightarrow> 'k \<Rightarrow> 'v option" where
  "tab_lookup t k = (case t of None \<Rightarrow> None | Some t \<Rightarrow> gh_lookup t k)"

definition map_input :: "env \<Rightarrow> client_map \<Rightarrow> st_input res" where
  "map_input E m = rbind (deref (ev_clients E (cm_client m))) (\<lambda>c. pdata (cl_inputs c) (cm_index m))"

definition map_output :: "env \<Rightarrow> client_map \<Rightarrow> st_output res" where
  "map_output E m = rbind (deref (ev_clients E (cm_client m))) (\<lambda>c. pdata (cl_outputs c) (cm_index m))"

type_synonym evaluator = "addr \<Rightarrow> expr_heap \<Rightarrow> (ev_result \<times> expr_heap) res"

text \<open>\<open>if (!expr_eval (...)) return FALSE;\<close>\<close>

definition ev_then ::
  "(ev_result \<times> expr_heap) res \<Rightarrow> (f64 \<Rightarrow> expr_heap \<Rightarrow> (ev_result \<times> expr_heap) res)
   \<Rightarrow> (ev_result \<times> expr_heap) res" where
  "ev_then m k =
     rbind m (\<lambda>(r, h). case r of EvTrue v \<Rightarrow> k v h | EvFalse e \<Rightarrow> Ret (EvFalse e, h))"

section \<open>The eval callbacks\<close>

definition literal_expr_eval :: "f64 \<Rightarrow> expr_heap \<Rightarrow> (ev_result \<times> expr_heap) res" where
  "literal_expr_eval v h = Ret (EvTrue v, h)"

text \<open>The operators, each compared by name in the order of the code.\<close>

definition op_value :: "string \<Rightarrow> f64 \<Rightarrow> f64 \<Rightarrow> f64 option" where
  "op_value op lval rval =
     (if op = ''=='' then Some (f64_of_bool (f64_eq lval rval))
      else if op = ''!='' then Some (f64_of_bool (\<not> f64_eq lval rval))
      else if op = ''<'' then Some (f64_of_bool (f64_lt lval rval))
      else if op = ''<='' then Some (f64_of_bool (f64_le lval rval))
      else if op = ''>'' then Some (f64_of_bool (f64_lt rval lval))
      else if op = ''>='' then Some (f64_of_bool (f64_le rval lval))
      else if op = ''&&'' then Some (f64_of_bool (f64_true lval \<and> f64_true rval))
      else if op = ''||'' then Some (f64_of_bool (f64_true lval \<or> f64_true rval))
      else if op = ''+'' then Some (f64_add lval rval)
      else if op = ''-'' then Some (f64_sub lval rval)
      else if op = ''*'' then Some (f64_mul lval rval)
      else if op = ''/'' then Some (f64_div lval rval)
      else None)"

definition op_expr_eval ::
  "evaluator \<Rightarrow> string \<Rightarrow> addr \<Rightarrow> addr \<Rightarrow> expr_heap \<Rightarrow> (ev_result \<times> expr_heap) res" where
  "op_expr_eval ev op l r h =
     ev_then (ev l h) (\<lambda>lval h1. ev_then (ev r h1) (\<lambda>rval h2.
       case op_value op lval rval of
         Some v \<Rightarrow> Ret (EvTrue v, h2)
       | None \<Rightarrow> Ret (EvFalse (Some \<lparr>err_code = ST_ERROR_INVALID_VALUE,
                   err_message = ''unknown operator: '' @ op\<rparr>), h2)))"

text \<open>A reference reads an input, else an output, else it evaluates a variable.\<close>

definition ref_expr_eval ::
  "env \<Rightarrow> var_table option \<Rightarrow> evaluator \<Rightarrow> string \<Rightarrow> expr_heap \<Rightarrow> (ev_result \<times> expr_heap) res" where
  "ref_expr_eval E vars ev s h =
     (case tab_lookup (ev_inputs E) s of
        Some m \<Rightarrow> rbind (map_input E m) (\<lambda>i. Ret (EvTrue (in_val i), h))
      | None \<Rightarrow>
     (case tab_lookup (ev_outputs E) s of
        Some m \<Rightarrow> rbind (map_output E m) (\<lambda>i. Ret (EvTrue (out_val i), h))
      | None \<Rightarrow>
     (case tab_lookup vars s of
        Some v \<Rightarrow> ev (var_value v) h
      | None \<Rightarrow> Ret (EvFalse (Some \<lparr>err_code = ST_ERROR_UNDEFINED_IDENTIFIER,
          err_message = ''ref_expr_eval: undefined identifier: '' @ s\<rparr>), h))))"

definition flag_expr_eval ::
  "env \<Rightarrow> string \<Rightarrow> guint64 \<Rightarrow> expr_heap \<Rightarrow> (ev_result \<times> expr_heap) res" where
  "flag_expr_eval E s b h =
     (case tab_lookup (ev_inputs E) s of
        Some m \<Rightarrow> rbind (map_input E m) (\<lambda>i. Ret (EvTrue (f64_of_bool (in_flags i AND b \<noteq> 0)), h))
      | None \<Rightarrow>
     (case tab_lookup (ev_outputs E) s of
        Some m \<Rightarrow> rbind (map_output E m) (\<lambda>i. Ret (EvTrue (f64_of_bool (out_flags i AND b \<noteq> 0)), h))
      | None \<Rightarrow> Ret (EvFalse (Some \<lparr>err_code = ST_ERROR_UNDEFINED_IDENTIFIER,
          err_message = ''flag_expr_eval: undefined identifier for FLAG: '' @ s\<rparr>), h)))"

fun min_loop :: "evaluator \<Rightarrow> f64 \<Rightarrow> addr list \<Rightarrow> expr_heap \<Rightarrow> (ev_result \<times> expr_heap) res" where
  "min_loop ev r [] h = Ret (EvTrue r, h)"
| "min_loop ev r (a # as) h =
     ev_then (ev a h) (\<lambda>v h1. min_loop ev (if f64_lt v r then v else r) as h1)"

definition min_func_expr_eval :: "evaluator \<Rightarrow> addr list \<Rightarrow> expr_heap \<Rightarrow> (ev_result \<times> expr_heap) res" where
  "min_func_expr_eval ev args h = min_loop ev G_MAXDOUBLE args h"

fun max_loop :: "evaluator \<Rightarrow> f64 \<Rightarrow> addr list \<Rightarrow> expr_heap \<Rightarrow> (ev_result \<times> expr_heap) res" where
  "max_loop ev r [] h = Ret (EvTrue r, h)"
| "max_loop ev r (a # as) h =
     ev_then (ev a h) (\<lambda>v h1. max_loop ev (if f64_lt r v then v else r) as h1)"

definition max_func_expr_eval :: "evaluator \<Rightarrow> addr list \<Rightarrow> expr_heap \<Rightarrow> (ev_result \<times> expr_heap) res" where
  "max_func_expr_eval ev args h = max_loop ev G_MINDOUBLE args h"

definition round_func_expr_eval :: "evaluator \<Rightarrow> addr list \<Rightarrow> expr_heap \<Rightarrow> (ev_result \<times> expr_heap) res" where
  "round_func_expr_eval ev args h =
     rbind (pdata args 0) (\<lambda>a. ev_then (ev a h) (\<lambda>v h1. Ret (EvTrue (f64_nearbyint v), h1)))"

definition limit_func_expr_eval :: "evaluator \<Rightarrow> addr list \<Rightarrow> expr_heap \<Rightarrow> (ev_result \<times> expr_heap) res" where
  "limit_func_expr_eval ev args h =
     rbind (pdata args 0) (\<lambda>a0. ev_then (ev a0 h) (\<lambda>v h1.
     rbind (pdata args 1) (\<lambda>a1. ev_then (ev a1 h1) (\<lambda>mn h2.
     rbind (pdata args 2) (\<lambda>a2. ev_then (ev a2 h2) (\<lambda>mx h3.
       Ret (EvTrue (if f64_lt v mn then mn else if f64_lt mx v then mx else v), h3)))))))"

definition is_literal :: "expr_data \<Rightarrow> bool" where
  "is_literal d = (case d of EX_LITERAL _ \<Rightarrow> True | _ \<Rightarrow> False)"

text \<open>\<open>self->data.func.args->pdata[0] = xarg\<close>\<close>

definition set_arg0 :: "addr \<Rightarrow> addr \<Rightarrow> expr_heap \<Rightarrow> expr_heap res" where
  "set_arg0 self xarg h =
     rbind (expr_at h self) (\<lambda>x.
       case ex_data x of
         EX_FUNC ident as \<Rightarrow> Ret (expr_put self (x\<lparr>ex_data := EX_FUNC ident (as[0 := xarg])\<rparr>) h)
       | _ \<Rightarrow> Ub)"

definition eval_func_expr_eval ::
  "env \<Rightarrow> evaluator \<Rightarrow> (addr \<Rightarrow> expr_heap \<Rightarrow> expr_heap res) \<Rightarrow> addr \<Rightarrow> addr list \<Rightarrow> expr_heap
   \<Rightarrow> (ev_result \<times> expr_heap) res" where
  "eval_func_expr_eval E ev unref self args h =
     rbind (pdata args 0) (\<lambda>arg. rbind (expr_at h arg) (\<lambda>x.
       if is_literal (ex_data x) then ev arg h
       else ev_then (ev arg h) (\<lambda>xres h1.
         let (xarg, h2) = expr_new_literal xres h1
         in rbind (set_arg0 self xarg h2) (\<lambda>h3.
            rbind (unref arg h3) (\<lambda>h4. Ret (ev_noret E, h4))))))"

text \<open>
  \<open>arg1->data.literal = val0\<close>: when the second argument is no literal (\<open>CHANGED\<close> with two
  arguments of the user) the store overwrites the pointer that the union holds; the model stops
  at the store.
\<close>

definition set_literal :: "addr \<Rightarrow> f64 \<Rightarrow> expr_heap \<Rightarrow> expr_heap res" where
  "set_literal a v h =
     rbind (expr_at h a) (\<lambda>x.
       if is_literal (ex_data x) then Ret (expr_put a (x\<lparr>ex_data := EX_LITERAL v\<rparr>) h) else Ub)"

definition changed_func_expr_eval :: "evaluator \<Rightarrow> addr list \<Rightarrow> expr_heap \<Rightarrow> (ev_result \<times> expr_heap) res" where
  "changed_func_expr_eval ev args h =
     rbind (pdata args 0) (\<lambda>arg0. rbind (pdata args 1) (\<lambda>arg1.
     ev_then (ev arg0 h) (\<lambda>val0 h1. ev_then (ev arg1 h1) (\<lambda>val1 h2.
       rbind (set_literal arg1 val0 h2) (\<lambda>h3.
       Ret (EvTrue (if f64_eq val1 G_MINDOUBLE then f64_one
                    else f64_of_bool (\<not> f64_eq val0 val1)), h3))))))"

section \<open>Evaluation\<close>

text \<open>
  The callback of a node. The function of a node is the one its constructor stored with the name;
  no constructor makes a node with another name.
\<close>

definition eval_node ::
  "env \<Rightarrow> var_table option \<Rightarrow> evaluator \<Rightarrow> (addr \<Rightarrow> expr_heap \<Rightarrow> expr_heap res) \<Rightarrow> evaluator" where
  "eval_node E vars ev unref self h =
     rbind (expr_at h self) (\<lambda>x.
       case ex_data x of
         EX_LITERAL v \<Rightarrow> literal_expr_eval v h
       | EX_OP op l r \<Rightarrow> op_expr_eval ev op l r h
       | EX_REF s \<Rightarrow> ref_expr_eval E vars ev s h
       | EX_FLAG s b \<Rightarrow> flag_expr_eval E s b h
       | EX_FUNC ident args \<Rightarrow>
           (if ident = ''MIN'' then min_func_expr_eval ev args h
            else if ident = ''MAX'' then max_func_expr_eval ev args h
            else if ident = ''ROUND'' then round_func_expr_eval ev args h
            else if ident = ''LIMIT'' then limit_func_expr_eval ev args h
            else if ident = ''EVAL'' then eval_func_expr_eval E ev unref self args h
            else if ident = ''CHANGED'' then changed_func_expr_eval ev args h
            else Ub))"

fun expr_eval :: "env \<Rightarrow> var_table option \<Rightarrow> nat \<Rightarrow> evaluator" where
  "expr_eval E vars 0 a h = Fuel"
| "expr_eval E vars (Suc n) a h = eval_node E vars (expr_eval E vars n) (expr_unref n) a h"

section \<open>Dependencies, equality, printing\<close>

fun any_ref :: "(addr \<Rightarrow> bool res) \<Rightarrow> addr list \<Rightarrow> bool res" where
  "any_ref f [] = Ret False"
| "any_ref f (a # as) = rbind (f a) (\<lambda>r. if r then Ret True else any_ref f as)"

text \<open>The \<open>have_ref_to\<close> callbacks, over the recursive call \<open>f\<close>.\<close>

definition op_expr_have_ref_to :: "(addr \<Rightarrow> bool res) \<Rightarrow> addr \<Rightarrow> addr \<Rightarrow> bool res" where
  [simp]: "op_expr_have_ref_to f l r = any_ref f [l, r]"

definition ref_expr_have_ref_to ::
  "(addr \<Rightarrow> bool res) \<Rightarrow> string \<Rightarrow> string \<Rightarrow> var_table option \<Rightarrow> bool res" where
  [simp]: "ref_expr_have_ref_to f s ident vars =
     (if s = ident then Ret True
      else case tab_lookup vars s of
             Some v \<Rightarrow> f (var_value v)
           | None \<Rightarrow> Ret False)"

definition flag_expr_have_ref_to :: "string \<Rightarrow> string \<Rightarrow> bool res" where
  [simp]: "flag_expr_have_ref_to s ident = Ret (s = ident)"

definition func_expr_have_ref_to :: "(addr \<Rightarrow> bool res) \<Rightarrow> addr list \<Rightarrow> bool res" where
  [simp]: "func_expr_have_ref_to f args = any_ref f args"

text \<open>A literal has no \<open>have_ref_to\<close> callback, which counts as no reference.\<close>

fun expr_have_ref_to :: "nat \<Rightarrow> addr \<Rightarrow> string \<Rightarrow> var_table option \<Rightarrow> expr_heap \<Rightarrow> bool res" where
  "expr_have_ref_to 0 a ident vars h = Fuel"
| "expr_have_ref_to (Suc n) a ident vars h =
     rbind (expr_at h a) (\<lambda>x.
       case ex_data x of
         EX_LITERAL _ \<Rightarrow> Ret False
       | EX_OP _ l r \<Rightarrow> op_expr_have_ref_to (\<lambda>b. expr_have_ref_to n b ident vars h) l r
       | EX_REF s \<Rightarrow> ref_expr_have_ref_to (\<lambda>b. expr_have_ref_to n b ident vars h) s ident vars
       | EX_FLAG s _ \<Rightarrow> flag_expr_have_ref_to s ident
       | EX_FUNC _ args \<Rightarrow> func_expr_have_ref_to (\<lambda>b. expr_have_ref_to n b ident vars h) args)"

fun all_equal :: "(addr \<Rightarrow> addr \<Rightarrow> bool res) \<Rightarrow> addr list \<Rightarrow> addr list \<Rightarrow> bool res" where
  "all_equal f (a # as) (b # bs) = rbind (f a b) (\<lambda>r. if r then all_equal f as bs else Ret False)"
| "all_equal f _ _ = Ret True"

fun expr_equal :: "nat \<Rightarrow> addr \<Rightarrow> addr \<Rightarrow> expr_heap \<Rightarrow> bool res" where
  "expr_equal 0 a b h = Fuel"
| "expr_equal (Suc n) a b h =
     (if a = b then Ret True
      else rbind (expr_at h a) (\<lambda>x. rbind (expr_at h b) (\<lambda>y.
        case (ex_data x, ex_data y) of
          (EX_LITERAL v, EX_LITERAL w) \<Rightarrow> Ret (f64_eq v w)
        | (EX_REF s, EX_REF t) \<Rightarrow> Ret (s = t)
        | (EX_OP op l r, EX_OP op' l' r') \<Rightarrow>
            (if op \<noteq> op' then Ret False
             else rbind (expr_equal n l l' h) (\<lambda>q. if q then expr_equal n r r' h else Ret False))
        | (EX_FUNC ident as, EX_FUNC ident' bs) \<Rightarrow>
            (if ident \<noteq> ident' then Ret False
             else if length as \<noteq> length bs then Ret False
             else all_equal (\<lambda>p q. expr_equal n p q h) as bs)
        | (EX_FLAG s b, EX_FLAG t c) \<Rightarrow> Ret (b = c \<and> s = t)
        | _ \<Rightarrow> Ret False)))"

fun describe_list :: "(addr \<Rightarrow> string res) \<Rightarrow> bool \<Rightarrow> addr list \<Rightarrow> string res" where
  "describe_list f first [] = Ret ''''"
| "describe_list f first (a # as) =
     rbind (f a) (\<lambda>s. rbind (describe_list f False as) (\<lambda>t.
       Ret ((if first then '''' else '', '') @ s @ t)))"

text \<open>The \<open>describe\<close> callbacks.\<close>

definition literal_expr_describe :: "f64 \<Rightarrow> string" where
  [simp]: "literal_expr_describe v = fmt_lf v"

definition op_expr_describe :: "(addr \<Rightarrow> string res) \<Rightarrow> string \<Rightarrow> addr \<Rightarrow> addr \<Rightarrow> string res" where
  [simp]: "op_expr_describe f op l r =
     rbind (f l) (\<lambda>ls. rbind (f r) (\<lambda>rs.
       Ret (''('' @ ls @ '') '' @ op @ '' ('' @ rs @ '')'')))"

definition ref_expr_describe :: "string \<Rightarrow> string" where
  [simp]: "ref_expr_describe s = s"

definition flag_expr_describe :: "string \<Rightarrow> guint64 \<Rightarrow> string" where
  [simp]: "flag_expr_describe s b = s @ '' FLAG '' @ st_io_flag_bit_name b"

definition func_expr_describe :: "(addr \<Rightarrow> string res) \<Rightarrow> string \<Rightarrow> addr list \<Rightarrow> string res" where
  [simp]: "func_expr_describe f ident args =
     rbind (describe_list f True args) (\<lambda>t. Ret (ident @ ''('' @ t @ '')''))"

fun expr_describe :: "nat \<Rightarrow> addr \<Rightarrow> expr_heap \<Rightarrow> string res" where
  "expr_describe 0 a h = Fuel"
| "expr_describe (Suc n) a h =
     rbind (expr_at h a) (\<lambda>x.
       case ex_data x of
         EX_LITERAL v \<Rightarrow> Ret (literal_expr_describe v)
       | EX_OP op l r \<Rightarrow> op_expr_describe (\<lambda>b. expr_describe n b h) op l r
       | EX_REF s \<Rightarrow> Ret (ref_expr_describe s)
       | EX_FLAG s b \<Rightarrow> Ret (flag_expr_describe s b)
       | EX_FUNC ident args \<Rightarrow> func_expr_describe (\<lambda>b. expr_describe n b h) ident args)"

end
