(* ===== verification/ExprSafe.thy ===== *)
theory ExprSafe
  imports Expr
begin

text \<open>
  Memory safety and termination of the expression code. The heap invariant \<open>heap_wf R Z h\<close>
  says that the counter of every live node is the number of references to it: from the live
  nodes, and from the owners outside the heap, the multiset \<open>R\<close> (variables, assignments,
  conditions, and the pointers a running function holds). \<open>Z\<close> are the nodes whose destruction
  has begun: they no longer own their operands and nothing refers to them. A rank that falls
  along operands and along variables (\<open>rank_ok\<close>) rules out cycles.
\<close>

section \<open>The invariant\<close>

definition kidm :: "expr option \<Rightarrow> addr multiset" where
  "kidm c = (case c of None \<Rightarrow> {#} | Some x \<Rightarrow> mset (kids (ex_data x)))"

lemma kidm_simps [simp]: "kidm None = {#}" "kidm (Some x) = mset (kids (ex_data x))"
  by (simp_all add: kidm_def)

definition heap_refs :: "addr set \<Rightarrow> expr_heap \<Rightarrow> addr multiset" where
  "heap_refs Z h = (\<Sum>b \<in> {..<eh_next h} - Z. kidm (eh_cell h b))"

text \<open>\<open>k\<close> references to the cell \<open>c\<close>, which is being destroyed when \<open>z\<close>.\<close>

definition cell_ok :: "bool \<Rightarrow> nat \<Rightarrow> expr option \<Rightarrow> bool" where
  "cell_ok z k c =
     (if z then k = 0
      else case c of None \<Rightarrow> k = 0 | Some x \<Rightarrow> ex_nref x = int k \<and> 0 < k)"

lemma cell_ok_simps [simp]:
  "cell_ok True k c \<longleftrightarrow> k = 0" "cell_ok False k None \<longleftrightarrow> k = 0"
  "cell_ok False k (Some x) \<longleftrightarrow> ex_nref x = int k \<and> 0 < k"
  by (simp_all add: cell_ok_def)

lemma cell_ok_zero [simp]: "cell_ok z 0 None"
  by (simp add: cell_ok_def)

definition heap_wf :: "addr multiset \<Rightarrow> addr set \<Rightarrow> expr_heap \<Rightarrow> bool" where
  "heap_wf R Z h \<longleftrightarrow>
     (\<forall>a \<ge> eh_next h. eh_cell h a = None) \<and> (\<forall>a\<in>Z. a < eh_next h) \<and>
     (\<forall>a. cell_ok (a \<in> Z) (count (heap_refs Z h + R) a) (eh_cell h a))"

lemma heap_wfI:
  "(\<And>a. eh_next h \<le> a \<Longrightarrow> eh_cell h a = None) \<Longrightarrow> (\<And>a. a \<in> Z \<Longrightarrow> a < eh_next h) \<Longrightarrow>
   (\<And>a. cell_ok (a \<in> Z) (count (heap_refs Z h + R) a) (eh_cell h a)) \<Longrightarrow> heap_wf R Z h"
  by (simp add: heap_wf_def)

lemma heap_wf_cell: "heap_wf R Z h \<Longrightarrow> cell_ok (a \<in> Z) (count (heap_refs Z h + R) a) (eh_cell h a)"
  unfolding heap_wf_def by blast

lemma heap_wf_fresh: "heap_wf R Z h \<Longrightarrow> eh_next h \<le> a \<Longrightarrow> eh_cell h a = None"
  unfolding heap_wf_def by blast

lemma heap_wf_doomed: "heap_wf R Z h \<Longrightarrow> a \<in> Z \<Longrightarrow> a < eh_next h"
  unfolding heap_wf_def by blast

lemma heap_wf_live: "heap_wf R {} h \<Longrightarrow> a \<in># heap_refs {} h + R \<Longrightarrow> \<exists>x. eh_cell h a = Some x"
  using heap_wf_cell [of R "{}" h a] by (cases "eh_cell h a") (auto simp: count_eq_zero_iff)

lemma heap_wf_next: "heap_wf R Z h \<Longrightarrow> eh_cell h a = Some x \<Longrightarrow> a < eh_next h"
  using heap_wf_fresh by (metis leI option.distinct(1))

lemma heap_refs_cell:
  "b < eh_next h \<Longrightarrow> b \<notin> Z \<Longrightarrow> heap_refs Z h = kidm (eh_cell h b) + heap_refs (insert b Z) h"
  unfolding heap_refs_def
  by (subst sum.remove [where x = b]) (auto simp: Diff_insert [symmetric] intro!: sum.cong)

lemma heap_refs_cong:
  "eh_next h' = eh_next h \<Longrightarrow> (\<And>b. b \<notin> Z \<Longrightarrow> kidm (eh_cell h' b) = kidm (eh_cell h b)) \<Longrightarrow>
   heap_refs Z h' = heap_refs Z h"
  unfolding heap_refs_def by (auto intro!: sum.cong)

lemma heap_refs_put:
  assumes "eh_cell h a = Some y" "kids (ex_data x) = kids (ex_data y)"
  shows "heap_refs Z (expr_put a x h) = heap_refs Z h"
  using assms by (intro heap_refs_cong) (auto simp: expr_put_def)

lemma kid_in_refs:
  "a < eh_next h \<Longrightarrow> eh_cell h a = Some x \<Longrightarrow> b \<in> set (kids (ex_data x)) \<Longrightarrow> b \<in># heap_refs {} h"
  by (simp add: heap_refs_cell [of a h "{}"])

lemma heap_wf_kid_live:
  "heap_wf R {} h \<Longrightarrow> eh_cell h a = Some x \<Longrightarrow> b \<in> set (kids (ex_data x)) \<Longrightarrow> \<exists>y. eh_cell h b = Some y"
  by (rule heap_wf_live) (auto dest: heap_wf_next kid_in_refs)

text \<open>A heap that differs from another only by counters and by freed nodes.\<close>

definition shrinks :: "expr_heap \<Rightarrow> expr_heap \<Rightarrow> bool" where
  "shrinks h h' \<longleftrightarrow> eh_next h' = eh_next h \<and>
     (\<forall>a x'. eh_cell h' a = Some x' \<longrightarrow> (\<exists>x. eh_cell h a = Some x \<and> ex_data x = ex_data x'))"

lemma shrinks_refl [simp]: "shrinks h h"
  by (simp add: shrinks_def)

lemma shrinks_trans: "shrinks h h' \<Longrightarrow> shrinks h' h'' \<Longrightarrow> shrinks h h''"
  unfolding shrinks_def by metis

text \<open>Nodes from a rank on are left alone.\<close>

definition frame_above :: "(addr \<Rightarrow> nat) \<Rightarrow> nat \<Rightarrow> expr_heap \<Rightarrow> expr_heap \<Rightarrow> bool" where
  "frame_above r k h h' \<longleftrightarrow> eh_next h \<le> eh_next h' \<and>
     (\<forall>c. k \<le> r c \<longrightarrow> eh_cell h' c = eh_cell h c)"

lemma frame_above_refl [simp]: "frame_above r k h h"
  by (simp add: frame_above_def)

lemma frame_above_trans: "frame_above r k h h' \<Longrightarrow> frame_above r k h' h'' \<Longrightarrow> frame_above r k h h''"
  by (auto simp: frame_above_def)

lemma frame_above_mono: "frame_above r k h h' \<Longrightarrow> k \<le> k' \<Longrightarrow> frame_above r k' h h'"
  by (auto simp: frame_above_def)

definition kids_fall :: "(addr \<Rightarrow> nat) \<Rightarrow> expr_heap \<Rightarrow> bool" where
  "kids_fall r h \<longleftrightarrow> (\<forall>a x b. eh_cell h a = Some x \<longrightarrow> b \<in> set (kids (ex_data x)) \<longrightarrow> r b < r a)"

lemma kids_fall_shrinks: "kids_fall r h \<Longrightarrow> shrinks h h' \<Longrightarrow> kids_fall r h'"
  unfolding kids_fall_def shrinks_def by metis

section \<open>Reference counting\<close>

lemma count_singleton_add: "count (M + add_mset a R) b = count (M + R) b + (if b = a then 1 else 0)"
  by simp

lemma heap_wf_root_live:
  assumes "heap_wf (add_mset a R) Z h"
  shows "a \<notin> Z \<and> (\<exists>x. eh_cell h a = Some x)"
proof (cases "a \<in> Z")
  case True
  with heap_wf_cell [OF assms, of a] show ?thesis by simp
next
  case False
  with heap_wf_cell [OF assms, of a] show ?thesis by (cases "eh_cell h a") auto
qed

lemma heap_wf_drop:
  assumes "heap_wf (add_mset a R) Z h" "eh_cell h a = Some x" "1 < ex_nref x"
  shows "heap_wf R Z (expr_put a (x\<lparr>ex_nref := ex_nref x - 1\<rparr>) h)"
proof (rule heap_wfI)
  let ?h = "expr_put a (x\<lparr>ex_nref := ex_nref x - 1\<rparr>) h"
  note az = heap_wf_root_live [OF assms(1), THEN conjunct1]
  have e: "heap_refs Z ?h = heap_refs Z h" using assms(2) by (simp add: heap_refs_put)
  fix b
  show "cell_ok (b \<in> Z) (count (heap_refs Z ?h + R) b) (eh_cell ?h b)"
    unfolding e using heap_wf_cell [OF assms(1), of b] assms(2,3) az
    by (cases "b = a") (auto simp: expr_put_def simp del: count_greater_zero_iff)
  show "eh_next ?h \<le> b \<Longrightarrow> eh_cell ?h b = None"
    using heap_wf_next [OF assms(1,2)] heap_wf_fresh [OF assms(1)] by (simp add: expr_put_def)
  show "b \<in> Z \<Longrightarrow> b < eh_next ?h"
    using heap_wf_doomed [OF assms(1)] by (simp add: expr_put_def)
qed

lemma heap_wf_doom:
  assumes "heap_wf (add_mset a R) Z h" "eh_cell h a = Some x" "\<not> 1 < ex_nref x"
  shows "heap_wf (mset (kids (ex_data x)) + R) (insert a Z) h"
proof (rule heap_wfI)
  note az = heap_wf_root_live [OF assms(1), THEN conjunct1]
  have an: "a < eh_next h" using heap_wf_next [OF assms(1,2)] .
  let ?M = "heap_refs (insert a Z) h + (mset (kids (ex_data x)) + R)"
  have e: "heap_refs Z h + add_mset a R = add_mset a ?M"
    using heap_refs_cell [OF an az] assms(2) by (simp add: ac_simps)
  note cells = heap_wf_cell [OF assms(1), unfolded e]
  fix b
  show "cell_ok (b \<in> insert a Z) (count ?M b) (eh_cell h b)"
  proof (cases "b = a")
    case True
    from cells [of a] az assms(2) have "ex_nref x = int (count (add_mset a ?M) a)" by simp
    moreover have "count (add_mset a ?M) a = Suc (count ?M a)" by (rule count_add_mset [THEN trans]) simp
    ultimately have "count ?M a = 0" using assms(3) by linarith
    with True show ?thesis by simp
  next
    case False
    with cells [of b] show ?thesis by simp
  qed
  show "eh_next h \<le> b \<Longrightarrow> eh_cell h b = None" by (rule heap_wf_fresh [OF assms(1)])
  show "b \<in> insert a Z \<Longrightarrow> b < eh_next h" using an heap_wf_doomed [OF assms(1)] by auto
qed

lemma heap_wf_free:
  assumes "heap_wf R (insert a Z) h" "a \<notin> Z"
  shows "heap_wf R Z (expr_free a h)"
proof (rule heap_wfI)
  have an: "a < eh_next h" by (rule heap_wf_doomed [OF assms(1)]) simp
  have "heap_refs Z (expr_free a h) = heap_refs (insert a Z) (expr_free a h)"
    using an assms(2) by (subst heap_refs_cell [where b = a]) (auto simp: expr_free_def)
  also have "\<dots> = heap_refs (insert a Z) h"
    by (auto simp: heap_refs_def expr_free_def intro!: sum.cong)
  finally have e: "heap_refs Z (expr_free a h) = heap_refs (insert a Z) h" .
  fix b
  show "cell_ok (b \<in> Z) (count (heap_refs Z (expr_free a h) + R) b) (eh_cell (expr_free a h) b)"
    unfolding e using heap_wf_cell [OF assms(1), of b] assms(2)
    by (cases "b = a") (auto simp: expr_free_def simp del: count_greater_zero_iff)
  show "eh_next (expr_free a h) \<le> b \<Longrightarrow> eh_cell (expr_free a h) b = None"
    using heap_wf_fresh [OF assms(1)] by (simp add: expr_free_def)
  show "b \<in> Z \<Longrightarrow> b < eh_next (expr_free a h)"
    using heap_wf_doomed [OF assms(1)] by (simp add: expr_free_def)
qed

text \<open>
  Dropping a reference that is owned: the code returns, the invariant holds without that
  reference, and only counters and freed nodes change, none of them of a higher rank than the node.
\<close>

lemma expr_unref_ok:
  assumes "heap_wf (add_mset a R) Z h" "kids_fall r h" "r a < n"
  shows "\<exists>h'. expr_unref n a h = Ret h' \<and> heap_wf R Z h' \<and> shrinks h h' \<and> frame_above r (Suc (r a)) h h'"
  using assms
proof (induction n arbitrary: a R Z h)
  case (Suc n)
  from heap_wf_root_live [OF Suc.prems(1)] obtain x where x: "eh_cell h a = Some x" by blast
  show ?case
  proof (cases "1 < ex_nref x")
    case True
    then show ?thesis
      using heap_wf_drop [OF Suc.prems(1) x True] x
      by (auto simp: expr_at_def shrinks_def frame_above_def expr_put_def)
  next
    case False
    have az: "a \<notin> Z" using heap_wf_root_live [OF Suc.prems(1)] by blast
    have doom: "heap_wf (mset (kids (ex_data x)) + R) (insert a Z) h"
      by (rule heap_wf_doom [OF Suc.prems(1) x False])
    have low: "\<forall>b\<in>set (kids (ex_data x)). r b < r a"
      using Suc.prems(2) x by (auto simp: kids_fall_def)
    have list: "heap_wf (mset bs + R) (insert a Z) g \<Longrightarrow> kids_fall r g \<Longrightarrow> \<forall>b\<in>set bs. r b < r a \<Longrightarrow>
      \<exists>h'. unref_list (expr_unref n) bs g = Ret h' \<and> heap_wf R (insert a Z) h' \<and> shrinks g h'
        \<and> frame_above r (Suc (r a)) g h'" for bs g
    proof (induction bs arbitrary: g)
      case (Cons b bs)
      from Cons.prems Suc.prems(3) obtain g1 where g1: "expr_unref n b g = Ret g1"
        "heap_wf (mset bs + R) (insert a Z) g1" "shrinks g g1" "frame_above r (Suc (r b)) g g1"
        using Suc.IH [of b "mset bs + R" "insert a Z" g] by auto
      with Cons.prems obtain h' where h': "unref_list (expr_unref n) bs g1 = Ret h'"
        "heap_wf R (insert a Z) h'" "shrinks g1 h'" "frame_above r (Suc (r a)) g1 h'"
        using Cons.IH [of g1] kids_fall_shrinks by auto
      moreover have "frame_above r (Suc (r a)) g g1"
        using g1(4) by (rule frame_above_mono) (use Cons.prems(3) in \<open>simp add: Suc_leI\<close>)
      ultimately show ?case
        using g1 by (auto intro: shrinks_trans frame_above_trans)
    qed auto
    from list [OF doom Suc.prems(2) low] obtain h' where
      h': "unref_list (expr_unref n) (kids (ex_data x)) h = Ret h'" "heap_wf R (insert a Z) h'"
      "shrinks h h'" "frame_above r (Suc (r a)) h h'" by blast
    moreover have "shrinks h' (expr_free a h')" "frame_above r (Suc (r a)) h' (expr_free a h')"
      by (auto simp: shrinks_def frame_above_def expr_free_def)
    ultimately show ?thesis
      using x False heap_wf_free [OF h'(2) az]
      by (auto simp: expr_at_def intro: shrinks_trans frame_above_trans)
  qed
qed simp

section \<open>The invariant of evaluation\<close>

text \<open>
  What the parser guarantees of function nodes: at least the arguments the function reads, and
  a literal as second argument of \<open>CHANGED\<close>.
\<close>

definition func_arity :: "string \<Rightarrow> nat \<Rightarrow> bool" where
  "func_arity ident n =
     (ident = ''MIN'' \<or> ident = ''MAX'' \<or> ident = ''ROUND'' \<and> 0 < n \<or> ident = ''EVAL'' \<and> 0 < n
      \<or> ident = ''LIMIT'' \<and> 2 < n \<or> ident = ''CHANGED'' \<and> 1 < n)"

definition no_other_kind :: "expr_heap \<Rightarrow> addr \<Rightarrow> bool" where
  "no_other_kind h b \<longleftrightarrow> (\<forall>y. eh_cell h b = Some y \<longrightarrow> is_literal (ex_data y))"

definition func_ok :: "expr_heap \<Rightarrow> string \<Rightarrow> addr list \<Rightarrow> bool" where
  "func_ok h ident args \<longleftrightarrow>
     func_arity ident (length args) \<and> (ident = ''CHANGED'' \<longrightarrow> no_other_kind h (args ! 1))"

definition nodes_ok :: "expr_heap \<Rightarrow> bool" where
  "nodes_ok h \<longleftrightarrow>
     (\<forall>a x ident args. eh_cell h a = Some x \<longrightarrow> ex_data x = EX_FUNC ident args \<longrightarrow> func_ok h ident args)"

text \<open>\<open>cand s e\<close>: the variable \<open>s\<close> may at some time hold the expression \<open>e\<close>.\<close>

definition rank_ok :: "(addr \<Rightarrow> nat) \<Rightarrow> (string \<Rightarrow> addr \<Rightarrow> bool) \<Rightarrow> expr_heap \<Rightarrow> bool" where
  "rank_ok r cand h \<longleftrightarrow> kids_fall r h \<and> (\<forall>a \<ge> eh_next h. r a = 0) \<and>
     (\<forall>a x s e. eh_cell h a = Some x \<longrightarrow> ex_data x = EX_REF s \<longrightarrow> cand s e \<longrightarrow> r e < r a)"

definition heap_inv :: "(addr \<Rightarrow> nat) \<Rightarrow> (string \<Rightarrow> addr \<Rightarrow> bool) \<Rightarrow> addr multiset \<Rightarrow> expr_heap \<Rightarrow> bool" where
  "heap_inv r cand R h \<longleftrightarrow> heap_wf R {} h \<and> rank_ok r cand h \<and> nodes_ok h"

definition vars_owned :: "(string \<Rightarrow> addr \<Rightarrow> bool) \<Rightarrow> var_table option \<Rightarrow> addr multiset \<Rightarrow> bool" where
  "vars_owned cand vars R \<longleftrightarrow>
     (\<forall>s v. tab_lookup vars s = Some v \<longrightarrow> var_value v \<in># R \<and> cand s (var_value v))"

text \<open>Every entry of the tables of inputs and outputs points to an existing object.\<close>

definition env_ok :: "env \<Rightarrow> bool" where
  "env_ok E \<longleftrightarrow>
     (\<forall>s m. tab_lookup (ev_inputs E) s = Some m \<longrightarrow> (\<exists>i. map_input E m = Ret i)) \<and>
     (\<forall>s m. tab_lookup (ev_outputs E) s = Some m \<longrightarrow> (\<exists>i. map_output E m = Ret i))"

lemma heap_inv_wf: "heap_inv r cand R h \<Longrightarrow> heap_wf R {} h"
  by (simp add: heap_inv_def)

lemma heap_inv_kids_fall: "heap_inv r cand R h \<Longrightarrow> kids_fall r h"
  by (simp add: heap_inv_def rank_ok_def)

lemma heap_inv_kid:
  "heap_inv r cand R h \<Longrightarrow> eh_cell h a = Some x \<Longrightarrow> b \<in> set (kids (ex_data x)) \<Longrightarrow>
   r b < r a \<and> (\<exists>y. eh_cell h b = Some y)"
  by (auto simp: heap_inv_def rank_ok_def kids_fall_def dest: heap_wf_kid_live)

lemma heap_inv_var:
  "heap_inv r cand R h \<Longrightarrow> vars_owned cand vars R \<Longrightarrow> eh_cell h a = Some x \<Longrightarrow> ex_data x = EX_REF s \<Longrightarrow>
   tab_lookup vars s = Some v \<Longrightarrow> r (var_value v) < r a \<and> (\<exists>y. eh_cell h (var_value v) = Some y)"
  by (auto simp: heap_inv_def rank_ok_def vars_owned_def intro!: heap_wf_live)

lemma heap_inv_func:
  "heap_inv r cand R h \<Longrightarrow> eh_cell h a = Some x \<Longrightarrow> ex_data x = EX_FUNC ident args \<Longrightarrow> func_ok h ident args"
  unfolding heap_inv_def nodes_ok_def by blast

lemma heap_inv_fresh: "heap_inv r cand R h \<Longrightarrow> eh_next h \<le> a \<Longrightarrow> eh_cell h a = None \<and> r a = 0"
  by (auto simp: heap_inv_def rank_ok_def dest: heap_wf_fresh)

text \<open>Every node that becomes a literal stays one.\<close>

definition lits_keep :: "expr_heap \<Rightarrow> expr_heap \<Rightarrow> bool" where
  "lits_keep h h' \<longleftrightarrow> (\<forall>b y'. eh_cell h' b = Some y' \<longrightarrow>
     is_literal (ex_data y') \<or> (\<exists>y. eh_cell h b = Some y \<and> \<not> is_literal (ex_data y)))"

lemma func_ok_keep: "func_ok h ident args \<Longrightarrow> lits_keep h h' \<Longrightarrow> func_ok h' ident args"
  unfolding func_ok_def lits_keep_def no_other_kind_def by blast

lemma shrinks_lits: "shrinks h h' \<Longrightarrow> lits_keep h h'"
  unfolding shrinks_def lits_keep_def by metis

lemma nodes_ok_keep:
  assumes "nodes_ok h" "lits_keep h h'"
    and "\<And>a x' ident args. eh_cell h' a = Some x' \<Longrightarrow> ex_data x' = EX_FUNC ident args \<Longrightarrow>
      func_ok h ident args"
  shows "nodes_ok h'"
  unfolding nodes_ok_def using assms(3) func_ok_keep [OF _ assms(2)] by blast

lemma shrinks_ok: "shrinks h h' \<Longrightarrow> rank_ok r cand h \<and> nodes_ok h \<Longrightarrow> rank_ok r cand h' \<and> nodes_ok h'"
proof -
  assume s: "shrinks h h'" and ok: "rank_ok r cand h \<and> nodes_ok h"
  have "nodes_ok h'"
  proof (rule nodes_ok_keep [OF conjunct2 [OF ok] shrinks_lits [OF s]])
    fix a x' ident args
    assume "eh_cell h' a = Some x'" "ex_data x' = EX_FUNC ident args"
    then show "func_ok h ident args" using s ok unfolding shrinks_def nodes_ok_def by metis
  qed
  moreover have "rank_ok r cand h'"
    using s ok kids_fall_shrinks [OF _ s] unfolding rank_ok_def shrinks_def by metis
  ultimately show ?thesis by blast
qed

text \<open>The writes of the expression code keep the invariant.\<close>

lemma heap_inv_unref:
  assumes "heap_inv r cand (add_mset a R) h" "r a < n"
  shows "\<exists>h'. expr_unref n a h = Ret h' \<and> heap_inv r cand R h' \<and> frame_above r (Suc (r a)) h h'"
proof -
  obtain h' where h': "expr_unref n a h = Ret h'" "heap_wf R {} h'" "shrinks h h'"
    "frame_above r (Suc (r a)) h h'"
    using expr_unref_ok [OF heap_inv_wf [OF assms(1)] heap_inv_kids_fall [OF assms(1)] assms(2)]
    by (elim exE conjE)
  have "heap_inv r cand R h'"
    using shrinks_ok [OF h'(3), of r cand] assms(1) h'(2) unfolding heap_inv_def by blast
  with h' show ?thesis by (intro exI [of _ h'] conjI)
qed

lemma heap_inv_new_literal:
  assumes "heap_inv r cand R h"
  shows "heap_inv r cand (add_mset (eh_next h) R) (snd (expr_new_literal v h))"
proof -
  let ?h = "snd (expr_new_literal v h)" and ?a = "eh_next h"
  note fresh = heap_inv_fresh [OF assms, of ?a]
  have new: "eh_cell ?h = (eh_cell h)(?a \<mapsto> \<lparr>ex_data = EX_LITERAL v, ex_nref = 1\<rparr>)"
    "eh_next ?h = Suc ?a"
    by (simp_all add: expr_new_literal_def expr_alloc_def)
  have refs: "heap_refs {} ?h = heap_refs {} h"
    by (simp add: heap_refs_def new lessThan_Suc)
  have "heap_wf (add_mset ?a R) {} ?h"
  proof (rule heap_wfI)
    fix b
    show "cell_ok (b \<in> {}) (count (heap_refs {} ?h + add_mset ?a R) b) (eh_cell ?h b)"
      unfolding refs using heap_wf_cell [OF heap_inv_wf [OF assms], of b] fresh
      by (cases "b = ?a") (auto simp: new simp del: count_greater_zero_iff)
    show "eh_next ?h \<le> b \<Longrightarrow> eh_cell ?h b = None"
      using heap_inv_fresh [OF assms, of b] by (auto simp: new)
  qed simp
  moreover have "rank_ok r cand ?h"
    using assms fresh unfolding heap_inv_def rank_ok_def kids_fall_def by (auto simp: new)
  moreover have "nodes_ok ?h"
  proof (rule nodes_ok_keep)
    show "nodes_ok h" using assms by (simp add: heap_inv_def)
    show "lits_keep h ?h" using fresh by (auto simp: lits_keep_def new is_literal_def)
  qed (use assms in \<open>auto simp: new heap_inv_def nodes_ok_def split: if_splits\<close>)
  ultimately show ?thesis by (simp add: heap_inv_def)
qed

lemma heap_inv_set_literal:
  assumes "heap_inv r cand R h" "eh_cell h a = Some x" "is_literal (ex_data x)"
  shows "heap_inv r cand R (expr_put a (x\<lparr>ex_data := EX_LITERAL v\<rparr>) h)"
proof -
  let ?h = "expr_put a (x\<lparr>ex_data := EX_LITERAL v\<rparr>) h"
  obtain w where w: "ex_data x = EX_LITERAL w"
    using assms(3) by (auto simp: is_literal_def split: expr_data.splits)
  have new: "eh_cell ?h = (eh_cell h)(a \<mapsto> x\<lparr>ex_data := EX_LITERAL v\<rparr>)" "eh_next ?h = eh_next h"
    by (simp_all add: expr_put_def)
  have refs: "heap_refs {} ?h = heap_refs {} h"
    using assms(2) w by (simp add: heap_refs_put)
  have "heap_wf R {} ?h"
  proof (rule heap_wfI)
    fix b
    show "cell_ok (b \<in> {}) (count (heap_refs {} ?h + R) b) (eh_cell ?h b)"
      unfolding refs using heap_wf_cell [OF heap_inv_wf [OF assms(1)], of b] assms(2)
      by (cases "b = a") (auto simp: new simp del: count_greater_zero_iff)
    show "eh_next ?h \<le> b \<Longrightarrow> eh_cell ?h b = None"
      using heap_inv_fresh [OF assms(1), of b] heap_inv_fresh [OF assms(1), of a] assms(2)
      by (auto simp: new)
  qed simp
  moreover have "rank_ok r cand ?h"
    using assms(1) unfolding heap_inv_def rank_ok_def kids_fall_def by (auto simp: new)
  moreover have "nodes_ok ?h"
  proof (rule nodes_ok_keep)
    show "nodes_ok h" using assms by (simp add: heap_inv_def)
    show "lits_keep h ?h" by (auto simp: lits_keep_def new is_literal_def)
  qed (use assms in \<open>auto simp: new heap_inv_def nodes_ok_def split: if_splits\<close>)
  ultimately show ?thesis by (simp add: heap_inv_def)
qed

text \<open>
  \<open>EVAL\<close> swaps its argument for a node it owns: the reference to the old argument is then in
  the hands of the code.
\<close>

lemma heap_inv_set_arg0:
  assumes inv: "heap_inv r cand (add_mset b R) h"
    and self: "eh_cell h self = Some x" "ex_data x = EX_FUNC ident (a # args)" "ident \<noteq> ''CHANGED''"
    and low: "r b < r self"
  shows "\<exists>h'. set_arg0 self b h = Ret h' \<and> heap_inv r cand (add_mset a R) h'
     \<and> eh_next h' = eh_next h
     \<and> eh_cell h' = (eh_cell h)(self \<mapsto> x\<lparr>ex_data := EX_FUNC ident (b # args)\<rparr>)"
proof -
  let ?x = "x\<lparr>ex_data := EX_FUNC ident (b # args)\<rparr>"
  let ?h = "expr_put self ?x h"
  have new: "eh_cell ?h = (eh_cell h)(self \<mapsto> ?x)" "eh_next ?h = eh_next h"
    by (simp_all add: expr_put_def)
  have sn: "self < eh_next h" by (rule heap_wf_next [OF heap_inv_wf [OF inv] self(1)])
  have out: "heap_refs {self} ?h = heap_refs {self} h"
    by (rule heap_refs_cong) (auto simp: new)
  have refs: "heap_refs {} ?h + add_mset a R = heap_refs {} h + add_mset b R"
    using heap_refs_cell [of self h "{}"] heap_refs_cell [of self ?h "{}"] sn self out
    by (simp add: new)
  have "heap_wf (add_mset a R) {} ?h"
  proof (rule heap_wfI)
    fix c
    show "cell_ok (c \<in> {}) (count (heap_refs {} ?h + add_mset a R) c) (eh_cell ?h c)"
      unfolding refs using heap_wf_cell [OF heap_inv_wf [OF inv], of c] self(1)
      by (cases "c = self") (auto simp: new simp del: count_greater_zero_iff)
    show "eh_next ?h \<le> c \<Longrightarrow> eh_cell ?h c = None"
      using heap_inv_fresh [OF inv, of c] sn by (auto simp: new)
  qed simp
  moreover have "rank_ok r cand ?h"
    using inv low self unfolding heap_inv_def rank_ok_def kids_fall_def by (auto simp: new)
  moreover have "nodes_ok ?h"
  proof (rule nodes_ok_keep)
    show "nodes_ok h" using inv by (simp add: heap_inv_def)
    show "lits_keep h ?h"
      using self unfolding lits_keep_def new by (auto simp: is_literal_def)
  next
    fix c x' i as
    assume c: "eh_cell ?h c = Some x'" "ex_data x' = EX_FUNC i as"
    show "func_ok h i as"
    proof (cases "c = self")
      case True
      with c have "i = ident" "as = b # args" by (auto simp: new)
      with heap_inv_func [OF inv self(1,2)] self(3) show ?thesis by (simp add: func_ok_def)
    next
      case False
      with c inv show ?thesis by (auto simp: new heap_inv_def nodes_ok_def)
    qed
  qed
  ultimately have "heap_inv r cand (add_mset a R) ?h" by (simp add: heap_inv_def)
  then show ?thesis using self by (simp add: set_arg0_def expr_at_def new)
qed

section \<open>Evaluation\<close>

text \<open>A computation that returns, keeps the invariant and leaves nodes from rank \<open>k\<close> on alone.\<close>

definition safe :: "(addr \<Rightarrow> nat) \<Rightarrow> (string \<Rightarrow> addr \<Rightarrow> bool) \<Rightarrow> addr multiset \<Rightarrow> nat \<Rightarrow> expr_heap \<Rightarrow>
    (ev_result \<times> expr_heap) res \<Rightarrow> bool" where
  "safe r cand R k h m \<longleftrightarrow>
     (\<exists>res h'. m = Ret (res, h') \<and> heap_inv r cand R h' \<and> frame_above r k h h')"

lemma safe_Ret: "heap_inv r cand R h' \<Longrightarrow> frame_above r k h h' \<Longrightarrow> safe r cand R k h (Ret (res, h'))"
  by (simp add: safe_def)

lemma safe_then_le:
  assumes "safe r cand R k h m" "k \<le> k'"
    and "\<And>v h1. heap_inv r cand R h1 \<Longrightarrow> frame_above r k h h1 \<Longrightarrow> safe r cand R k' h1 (f v h1)"
  shows "safe r cand R k' h (ev_then m f)"
proof -
  from assms(1) obtain res h1 where h1: "m = Ret (res, h1)" "heap_inv r cand R h1" "frame_above r k h h1"
    by (auto simp: safe_def)
  have k: "frame_above r k' h h1" using h1(3) assms(2) by (rule frame_above_mono)
  show ?thesis
  proof (cases res)
    case (EvTrue v)
    from assms(3) [OF h1(2,3), of v] obtain res' h' where
      "f v h1 = Ret (res', h')" "heap_inv r cand R h'" "frame_above r k' h1 h'"
      by (auto simp: safe_def)
    with h1 k EvTrue show ?thesis by (auto simp: safe_def ev_then_def intro: frame_above_trans)
  qed (use h1 k in \<open>simp add: safe_def ev_then_def\<close>)
qed

lemmas safe_then = safe_then_le [OF _ order_refl]

lemma safe_mono: "safe r cand R k h m \<Longrightarrow> k \<le> k' \<Longrightarrow> safe r cand R k' h m"
  unfolding safe_def by (auto intro: frame_above_mono)

text \<open>What a callback of the node \<open>self\<close> may assume of the evaluation of its operands.\<close>

definition safe_below :: "(addr \<Rightarrow> nat) \<Rightarrow> (string \<Rightarrow> addr \<Rightarrow> bool) \<Rightarrow> addr multiset \<Rightarrow> nat \<Rightarrow> evaluator \<Rightarrow> bool" where
  "safe_below r cand R k ev \<longleftrightarrow>
     (\<forall>b h. heap_inv r cand R h \<longrightarrow> (\<exists>y. eh_cell h b = Some y) \<longrightarrow> r b < k \<longrightarrow> safe r cand R k h (ev b h))"

lemma safe_kid:
  "safe_below r cand R (r self) ev \<Longrightarrow> heap_inv r cand R h \<Longrightarrow> eh_cell h self = Some x \<Longrightarrow>
   b \<in> set (kids (ex_data x)) \<Longrightarrow> safe r cand R (r self) h (ev b h)"
  unfolding safe_below_def using heap_inv_kid by blast

lemma frame_self: "frame_above r (r self) h h1 \<Longrightarrow> eh_cell h1 self = eh_cell h self"
  by (simp add: frame_above_def)

lemma safe_op:
  assumes "safe_below r cand R (r self) ev" "heap_inv r cand R h" "eh_cell h self = Some x"
    "ex_data x = EX_OP op l rt"
  shows "safe r cand R (r self) h (op_expr_eval ev op l rt h)"
  unfolding op_expr_eval_def
  by (rule safe_then, rule safe_kid [OF assms(1-3)], simp add: assms(4),
      rule safe_then, rule safe_kid [OF assms(1)])
    (auto simp: assms(3,4) frame_self intro: safe_Ret split: option.split)

lemma safe_min_loop:
  assumes "safe_below r cand R (r self) ev" "heap_inv r cand R h" "eh_cell h self = Some x"
    "set as \<subseteq> set (kids (ex_data x))"
  shows "safe r cand R (r self) h (min_loop ev v as h)"
  using assms(2-4)
proof (induction as arbitrary: v h)
  case (Cons a as)
  show ?case
    unfolding min_loop.simps
  proof (rule safe_then)
    show "safe r cand R (r self) h (ev a h)"
      using Cons.prems by (intro safe_kid [OF assms(1)]) auto
  next
    fix w h1
    assume "heap_inv r cand R h1" "frame_above r (r self) h h1"
    with Cons.prems show "safe r cand R (r self) h1 (min_loop ev (if f64_lt w v then w else v) as h1)"
      by (intro Cons.IH) (auto simp: frame_self)
  qed
qed (simp add: safe_Ret)

lemma safe_max_loop:
  assumes "safe_below r cand R (r self) ev" "heap_inv r cand R h" "eh_cell h self = Some x"
    "set as \<subseteq> set (kids (ex_data x))"
  shows "safe r cand R (r self) h (max_loop ev v as h)"
  using assms(2-4)
proof (induction as arbitrary: v h)
  case (Cons a as)
  show ?case
    unfolding max_loop.simps
  proof (rule safe_then)
    show "safe r cand R (r self) h (ev a h)"
      using Cons.prems by (intro safe_kid [OF assms(1)]) auto
  next
    fix w h1
    assume "heap_inv r cand R h1" "frame_above r (r self) h h1"
    with Cons.prems show "safe r cand R (r self) h1 (max_loop ev (if f64_lt v w then w else v) as h1)"
      by (intro Cons.IH) (auto simp: frame_self)
  qed
qed (simp add: safe_Ret)

lemma safe_kid_nth:
  assumes "safe_below r cand R (r self) ev" "heap_inv r cand R h" "eh_cell h self = Some x"
    "ex_data x = EX_FUNC ident args" "i < length args"
    and "\<And>v h1. heap_inv r cand R h1 \<Longrightarrow> frame_above r (r self) h h1 \<Longrightarrow> eh_cell h1 self = Some x \<Longrightarrow>
      safe r cand R (r self) h1 (f v h1)"
  shows "safe r cand R (r self) h (rbind (pdata args i) (\<lambda>a. ev_then (ev a h) f))"
proof -
  have "safe r cand R (r self) h (ev_then (ev (args ! i) h) f)"
    using assms(2-5) by (intro safe_then safe_kid [OF assms(1)] assms(6)) (auto simp: frame_self)
  with assms(5) show ?thesis by (simp add: pdata_def)
qed

lemma safe_round:
  assumes "safe_below r cand R (r self) ev" "heap_inv r cand R h" "eh_cell h self = Some x"
    "ex_data x = EX_FUNC ident args" "0 < length args"
  shows "safe r cand R (r self) h (round_func_expr_eval ev args h)"
  unfolding round_func_expr_eval_def using assms
  by (intro safe_kid_nth safe_Ret) auto

lemma safe_limit:
  assumes "safe_below r cand R (r self) ev" "heap_inv r cand R h" "eh_cell h self = Some x"
    "ex_data x = EX_FUNC ident args" "2 < length args"
  shows "safe r cand R (r self) h (limit_func_expr_eval ev args h)"
  unfolding limit_func_expr_eval_def using assms
  by (intro safe_kid_nth safe_Ret) auto

lemma heap_inv_swap_arg:
  assumes i1: "heap_inv r cand R h1" and x1: "eh_cell h1 self = Some x"
    and d: "ex_data x = EX_FUNC ident (arg # rest)" "ident \<noteq> ''CHANGED''" and fuel: "r arg < n"
  shows "\<exists>h3 h4. set_arg0 self (eh_next h1) (snd (expr_new_literal v h1)) = Ret h3
     \<and> expr_unref n arg h3 = Ret h4 \<and> heap_inv r cand R h4 \<and> frame_above r (Suc (r self)) h1 h4
     \<and> frame_above r (r self) h3 h4"
proof -
  let ?a = "eh_next h1"
  let ?h2 = "snd (expr_new_literal v h1)"
  have k: "r arg < r self" using heap_inv_kid [OF i1 x1] by (simp add: d)
  have r0: "r ?a = 0" "eh_cell h1 ?a = None" using heap_inv_fresh [OF i1, of ?a] by simp_all
  have c2: "eh_cell ?h2 = (eh_cell h1)(?a \<mapsto> \<lparr>ex_data = EX_LITERAL v, ex_nref = 1\<rparr>)"
    "eh_next ?h2 = Suc ?a"
    by (simp_all add: expr_new_literal_def expr_alloc_def)
  have "eh_cell ?h2 self = Some x" using x1 r0(2) by (auto simp: c2)
  moreover have "r ?a < r self" using r0(1) k by simp
  ultimately obtain h3 where h3: "set_arg0 self ?a ?h2 = Ret h3" "heap_inv r cand (add_mset arg R) h3"
    "eh_next h3 = eh_next ?h2"
    "eh_cell h3 = (eh_cell ?h2)(self \<mapsto> x\<lparr>ex_data := EX_FUNC ident (?a # rest)\<rparr>)"
    using heap_inv_set_arg0 [OF heap_inv_new_literal [OF i1] _ d] by blast
  obtain h4 where h4: "expr_unref n arg h3 = Ret h4" "heap_inv r cand R h4"
    "frame_above r (Suc (r arg)) h3 h4"
    using heap_inv_unref [OF h3(2) fuel] by blast
  have "frame_above r (Suc (r self)) h1 h3"
    using r0 by (auto simp: frame_above_def h3(3,4) c2)
  moreover have "frame_above r (Suc (r self)) h3 h4"
    using h4(3) by (rule frame_above_mono) (use k in simp)
  moreover have "frame_above r (r self) h3 h4"
    using h4(3) by (rule frame_above_mono) (use k in simp)
  ultimately show ?thesis using h3(1) h4(1,2) by (blast intro: frame_above_trans)
qed

lemma safe_eval:
  assumes sb: "safe_below r cand R (r self) ev" and inv: "heap_inv r cand R h"
    and self: "eh_cell h self = Some x" "ex_data x = EX_FUNC ident args" "0 < length args"
    "ident \<noteq> ''CHANGED''" and fuel: "r self \<le> n"
  shows "safe r cand R (Suc (r self)) h (eval_func_expr_eval E ev (expr_unref n) self args h)"
proof -
  from self(3) obtain arg rest where args: "args = arg # rest" by (cases args) auto
  have k: "r arg < r self" and "\<exists>y. eh_cell h arg = Some y"
    using heap_inv_kid [OF inv self(1)] by (auto simp: self(2) args)
  then obtain y where y: "eh_cell h arg = Some y" by blast
  have ev: "safe r cand R (r self) h (ev arg h)"
    using sb inv y k unfolding safe_below_def by blast
  have "safe r cand R (Suc (r self)) h (ev_then (ev arg h) (\<lambda>v h1.
      let (xarg, h2) = expr_new_literal v h1
      in rbind (set_arg0 self xarg h2) (\<lambda>h3. rbind (expr_unref n arg h3) (\<lambda>h4. Ret (ev_noret E, h4)))))"
  proof (rule safe_then_le [OF ev])
    fix v h1
    assume i1: "heap_inv r cand R h1" and f1: "frame_above r (r self) h h1"
    obtain h3 h4 where "set_arg0 self (eh_next h1) (snd (expr_new_literal v h1)) = Ret h3"
      "expr_unref n arg h3 = Ret h4" "heap_inv r cand R h4" "frame_above r (Suc (r self)) h1 h4"
      using heap_inv_swap_arg [OF i1 _ _ self(4), of self x arg rest n v] frame_self [OF f1] self args k fuel
      by auto
    then show "safe r cand R (Suc (r self)) h1 (let (xarg, h2) = expr_new_literal v h1
      in rbind (set_arg0 self xarg h2) (\<lambda>h3. rbind (expr_unref n arg h3) (\<lambda>h4. Ret (ev_noret E, h4))))"
      by (simp add: expr_new_literal_def expr_alloc_def safe_def)
  qed simp
  moreover have "safe r cand R (Suc (r self)) h (ev arg h)" using ev by (rule safe_mono) simp
  ultimately show ?thesis
    using y by (simp add: eval_func_expr_eval_def args pdata_def expr_at_def)
qed

lemma safe_changed:
  assumes sb: "safe_below r cand R (r self) ev" and inv: "heap_inv r cand R h"
    and self: "eh_cell h self = Some x" "ex_data x = EX_FUNC ident args" "1 < length args"
    "ident = ''CHANGED''"
  shows "safe r cand R (r self) h (changed_func_expr_eval ev args h)"
proof -
  have kid: "args ! i \<in> set (kids (ex_data x))" if "i < 2" for i
    using self(2,3) that by simp
  have "safe r cand R (r self) h (ev_then (ev (args ! 0) h) (\<lambda>val0 h1.
      ev_then (ev (args ! 1) h1) (\<lambda>val1 h2. rbind (set_literal (args ! 1) val0 h2) (\<lambda>h3.
       Ret (EvTrue (if f64_eq val1 G_MINDOUBLE then f64_one
                    else f64_of_bool (\<not> f64_eq val0 val1)), h3)))))"
  proof (rule safe_then)
    show "safe r cand R (r self) h (ev (args ! 0) h)"
      using kid [of 0] by (intro safe_kid [OF sb inv self(1)]) simp
  next
    fix v0 h1
    assume i1: "heap_inv r cand R h1" and f1: "frame_above r (r self) h h1"
    have x1: "eh_cell h1 self = Some x" using frame_self [OF f1] self(1) by simp
    show "safe r cand R (r self) h1 (ev_then (ev (args ! 1) h1) (\<lambda>val1 h2.
        rbind (set_literal (args ! 1) v0 h2) (\<lambda>h3.
         Ret (EvTrue (if f64_eq val1 G_MINDOUBLE then f64_one
                      else f64_of_bool (\<not> f64_eq v0 val1)), h3))))"
    proof (rule safe_then)
      show "safe r cand R (r self) h1 (ev (args ! 1) h1)"
        using kid [of 1] by (intro safe_kid [OF sb i1 x1]) simp
    next
      fix v1 h2
      assume i2: "heap_inv r cand R h2" and f2: "frame_above r (r self) h1 h2"
      have x2: "eh_cell h2 self = Some x" using frame_self [OF f2] x1 by simp
      obtain y where y: "eh_cell h2 (args ! 1) = Some y" and low: "r (args ! 1) < r self"
        using heap_inv_kid [OF i2 x2 kid [of 1]] by auto
      have lit: "is_literal (ex_data y)"
        using heap_inv_func [OF i2 x2 self(2)] self(4) y by (simp add: func_ok_def no_other_kind_def)
      note heap_inv_set_literal [OF i2 y lit, of v0]
      moreover have "frame_above r (r self) h2 (expr_put (args ! 1) (y\<lparr>ex_data := EX_LITERAL v0\<rparr>) h2)"
        using low by (auto simp: frame_above_def expr_put_def)
      ultimately show "safe r cand R (r self) h2 (rbind (set_literal (args ! 1) v0 h2) (\<lambda>h3.
           Ret (EvTrue (if f64_eq v1 G_MINDOUBLE then f64_one
                        else f64_of_bool (\<not> f64_eq v0 v1)), h3)))"
        using y lit by (simp add: set_literal_def expr_at_def safe_def)
    qed
  qed
  moreover have "pdata args 0 = Ret (args ! 0)" "pdata args 1 = Ret (args ! 1)"
    using self(3) by (auto simp: pdata_def)
  ultimately show ?thesis unfolding changed_func_expr_eval_def by (simp only: rbind.simps)
qed

lemma safe_ref:
  assumes "safe_below r cand R (r self) ev" "heap_inv r cand R h" "eh_cell h self = Some x"
    "ex_data x = EX_REF s" "env_ok E" "vars_owned cand vars R"
  shows "safe r cand R (r self) h (ref_expr_eval E vars ev s h)"
proof (cases "tab_lookup (ev_inputs E) s")
  case (Some m)
  with assms(5) obtain i where "map_input E m = Ret i" unfolding env_ok_def by blast
  with Some assms(2) show ?thesis by (simp add: ref_expr_eval_def safe_def)
next
  case no_in: None
  show ?thesis
  proof (cases "tab_lookup (ev_outputs E) s")
    case (Some m)
    with assms(5) obtain i where "map_output E m = Ret i" unfolding env_ok_def by blast
    with Some no_in assms(2) show ?thesis by (simp add: ref_expr_eval_def safe_def)
  next
    case no_out: None
    show ?thesis
    proof (cases "tab_lookup vars s")
      case None
      with no_in no_out assms(2) show ?thesis by (simp add: ref_expr_eval_def safe_def)
    next
      case (Some v)
      with heap_inv_var [OF assms(2,6,3,4)] assms(1,2)
      have "safe r cand R (r self) h (ev (var_value v) h)" unfolding safe_below_def by blast
      with no_in no_out Some show ?thesis by (simp add: ref_expr_eval_def)
    qed
  qed
qed

lemma safe_flag:
  assumes "heap_inv r cand R h" "env_ok E"
  shows "safe r cand R k h (flag_expr_eval E s b h)"
proof (cases "tab_lookup (ev_inputs E) s")
  case (Some m)
  with assms(2) obtain i where "map_input E m = Ret i" unfolding env_ok_def by blast
  with Some assms show ?thesis by (simp add: flag_expr_eval_def safe_def)
next
  case no_in: None
  show ?thesis
  proof (cases "tab_lookup (ev_outputs E) s")
    case (Some m)
    with assms(2) obtain i where "map_output E m = Ret i" unfolding env_ok_def by blast
    with Some no_in assms show ?thesis by (simp add: flag_expr_eval_def safe_def)
  qed (use no_in assms in \<open>simp add: flag_expr_eval_def safe_def\<close>)
qed

lemma eval_node_func:
  assumes "eh_cell h a = Some x" "ex_data x = EX_FUNC ident args"
  shows "ident = ''MIN'' \<Longrightarrow> eval_node E vars ev u a h = min_func_expr_eval ev args h"
    and "ident = ''MAX'' \<Longrightarrow> eval_node E vars ev u a h = max_func_expr_eval ev args h"
    and "ident = ''ROUND'' \<Longrightarrow> eval_node E vars ev u a h = round_func_expr_eval ev args h"
    and "ident = ''LIMIT'' \<Longrightarrow> eval_node E vars ev u a h = limit_func_expr_eval ev args h"
    and "ident = ''EVAL'' \<Longrightarrow> eval_node E vars ev u a h = eval_func_expr_eval E ev u a args h"
    and "ident = ''CHANGED'' \<Longrightarrow> eval_node E vars ev u a h = changed_func_expr_eval ev args h"
  using assms by (simp_all add: eval_node_def expr_at_def)

lemma safe_func:
  assumes "safe_below r cand R (r a) ev" "heap_inv r cand R h" "eh_cell h a = Some x"
    "ex_data x = EX_FUNC ident args" "r a \<le> n"
  shows "safe r cand R (Suc (r a)) h (eval_node E vars ev (expr_unref n) a h)"
proof -
  have ok: "func_arity ident (length args)"
    using heap_inv_func [OF assms(2-4)] by (simp add: func_ok_def)
  note node = eval_node_func [OF assms(3,4)]
  have le: "r a \<le> Suc (r a)" by simp
  have args: "set args \<subseteq> set (kids (ex_data x))" by (simp add: assms(4))
  show ?thesis
    using \<open>func_arity ident (length args)\<close>
  proof (unfold func_arity_def, elim disjE conjE)
    assume i: "ident = ''MIN''"
    show ?thesis
      unfolding node(1) [OF i] min_func_expr_eval_def
      by (rule safe_mono [OF safe_min_loop [OF assms(1-3) args] le])
  next
    assume i: "ident = ''MAX''"
    show ?thesis
      unfolding node(2) [OF i] max_func_expr_eval_def
      by (rule safe_mono [OF safe_max_loop [OF assms(1-3) args] le])
  next
    assume i: "ident = ''ROUND''" and n: "0 < length args"
    show ?thesis unfolding node(3) [OF i] by (rule safe_mono [OF safe_round [OF assms(1-4) n] le])
  next
    assume i: "ident = ''LIMIT''" and n: "2 < length args"
    show ?thesis unfolding node(4) [OF i] by (rule safe_mono [OF safe_limit [OF assms(1-4) n] le])
  next
    assume i: "ident = ''EVAL''" and n: "0 < length args"
    show ?thesis unfolding node(5) [OF i] by (rule safe_eval [OF assms(1-4) n _ assms(5)]) (simp add: i)
  next
    assume i: "ident = ''CHANGED''" and n: "1 < length args"
    show ?thesis unfolding node(6) [OF i] by (rule safe_mono [OF safe_changed [OF assms(1-4) n i] le])
  qed
qed

lemma expr_eval_safe_aux:
  assumes "env_ok E" "vars_owned cand vars R" "heap_inv r cand R h" "eh_cell h a = Some x" "r a < n"
  shows "safe r cand R (Suc (r a)) h (expr_eval E vars n a h)"
  using assms(3-5)
proof (induction n arbitrary: a h x)
  case (Suc n)
  have sb: "safe_below r cand R (r a) (expr_eval E vars n)"
    unfolding safe_below_def
  proof (intro allI impI)
    fix b g
    assume "heap_inv r cand R g" "\<exists>y. eh_cell g b = Some y" and low: "r b < r a"
    then have "safe r cand R (Suc (r b)) g (expr_eval E vars n b g)"
      using Suc.IH Suc.prems(3) by auto
    then show "safe r cand R (r a) g (expr_eval E vars n b g)"
      by (rule safe_mono) (use low in simp)
  qed
  note self = sb Suc.prems(1,2)
  show ?case
  proof (cases "ex_data x")
    case (EX_LITERAL v)
    with Suc.prems show ?thesis
      by (simp add: eval_node_def expr_at_def literal_expr_eval_def safe_def)
  next
    case (EX_OP op l rt)
    with safe_mono [OF safe_op [OF self EX_OP]] Suc.prems show ?thesis
      by (simp add: eval_node_def expr_at_def)
  next
    case (EX_REF s)
    with safe_mono [OF safe_ref [OF self EX_REF assms(1,2)]] Suc.prems show ?thesis
      by (simp add: eval_node_def expr_at_def)
  next
    case (EX_FLAG s b)
    with safe_flag [OF Suc.prems(1) assms(1)] Suc.prems show ?thesis
      by (simp add: eval_node_def expr_at_def)
  next
    case (EX_FUNC ident args)
    with safe_func [OF self EX_FUNC, of n E] Suc.prems show ?thesis by simp
  qed
qed simp

section \<open>Properties\<close>

text \<open>C10: evaluating a live node of a heap whose counters are right, whose operands and
  variables are acyclic and whose function nodes are as the parser makes them never reads freed
  memory and never runs out of stack, given one frame per rank: it returns, with a value or an
  error, and the counters are right again, for the same owners, whatever \<open>EVAL\<close> and
  \<open>CHANGED\<close> nodes it rewrote and freed on the way.\<close>

theorem expr_eval_memory_safe:
  assumes "env_ok E" "vars_owned cand vars R" "heap_inv r cand R h" "eh_cell h a = Some x" "r a < n"
  shows "\<exists>res h'. expr_eval E vars n a h = Ret (res, h') \<and> heap_inv r cand R h'"
  using expr_eval_safe_aux [OF assms] by (auto simp: safe_def)

text \<open>A heap given by its nodes, and the invariant of such a heap as a finite check.\<close>

definition heap_of :: "expr list \<Rightarrow> expr_heap" where
  "heap_of xs = \<lparr>eh_cell = (\<lambda>a. if a < length xs then Some (xs ! a) else None),
                  eh_next = length xs\<rparr>"

lemma heap_of_simps [simp]:
  "eh_next (heap_of xs) = length xs"
  "eh_cell (heap_of xs) a = (if a < length xs then Some (xs ! a) else None)"
  by (simp_all add: heap_of_def)

lemma heap_refs_heap_of: "heap_refs {} (heap_of xs) = (\<Sum>x\<leftarrow>xs. mset (kids (ex_data x)))"
  by (simp add: heap_refs_def sum_list_sum_nth atLeast0LessThan)

lemma heap_inv_heap_of:
  fixes xs R defines "M \<equiv> (\<Sum>x\<leftarrow>xs. mset (kids (ex_data x))) + R"
  assumes "\<forall>a\<in>set_mset M. a < length xs"
    and "list_all (\<lambda>a. ex_nref (xs ! a) = int (count M a) \<and> 0 < count M a) [0..<length xs]"
    and "\<And>a. length xs \<le> a \<Longrightarrow> r a = 0"
    and "\<And>a b. a < length xs \<Longrightarrow> b \<in> set (kids (ex_data (xs ! a))) \<Longrightarrow> r b < r a"
    and "\<And>a s e. a < length xs \<Longrightarrow> ex_data (xs ! a) = EX_REF s \<Longrightarrow> cand s e \<Longrightarrow> r e < r a"
    and "\<And>a i as. a < length xs \<Longrightarrow> ex_data (xs ! a) = EX_FUNC i as \<Longrightarrow> func_ok (heap_of xs) i as"
  shows "heap_inv r cand R (heap_of xs)"
proof -
  have refs: "heap_refs {} (heap_of xs) + R = M" by (simp add: heap_refs_heap_of M_def)
  have "heap_wf R {} (heap_of xs)"
  proof (rule heap_wfI)
    fix a
    show "cell_ok (a \<in> {}) (count (heap_refs {} (heap_of xs) + R) a) (eh_cell (heap_of xs) a)"
      unfolding refs using assms(2,3)
      by (cases "a < length xs") (auto simp: list_all_iff count_eq_zero_iff)
  qed simp_all
  moreover have "rank_ok r cand (heap_of xs)"
    unfolding rank_ok_def kids_fall_def using assms(4-6) by (auto split: if_splits)
  moreover have "nodes_ok (heap_of xs)"
    unfolding nodes_ok_def using assms(7) by (auto split: if_splits)
  ultimately show ?thesis by (simp add: heap_inv_def)
qed

text \<open>An example: \<open>EVAL(2 + X)\<close>, at address 4, where the variable \<open>X\<close> holds 3.\<close>

definition ex_nodes :: "expr list" where
  "ex_nodes = map (\<lambda>d. \<lparr>ex_data = d, ex_nref = 1\<rparr>)
     [EX_LITERAL (f64_of_int 3), EX_LITERAL (f64_of_int 2), EX_REF ''X'', EX_OP ''+'' 1 2,
      EX_FUNC ''EVAL'' [3]]"

definition ex_vars :: "var_table option" where
  "ex_vars = Some [(''X'', \<lparr>var_name = ''X'', var_value = 0\<rparr>)]"

definition ex_env :: env where
  "ex_env = \<lparr>ev_inputs = None, ev_outputs = None, ev_clients = (\<lambda>_. None), ev_noret = EvTrue f64_zero\<rparr>"

definition ex_rank :: "addr \<Rightarrow> nat" where
  "ex_rank a = (if a < 5 then a else 0)"

lemma ex_env_ok: "env_ok ex_env"
  by (simp add: env_ok_def ex_env_def tab_lookup_def)

lemma ex_vars_lookup:
  "tab_lookup ex_vars s = (if s = ''X'' then Some \<lparr>var_name = ''X'', var_value = 0\<rparr> else None)"
  by (simp add: tab_lookup_def ex_vars_def gh_lookup_def)

definition ex_cand :: "string \<Rightarrow> addr \<Rightarrow> bool" where
  "ex_cand s e \<longleftrightarrow> s = ''X'' \<and> e = 0"

lemma ex_heap_inv: "heap_inv ex_rank ex_cand {#0, 4#} (heap_of ex_nodes)"
  by (rule heap_inv_heap_of)
    (auto simp: ex_nodes_def ex_rank_def ex_cand_def func_ok_def func_arity_def upt_rec
      less_Suc_eq numeral_eq_Suc split: if_splits)

theorem expr_eval_memory_safe_witness:
  "\<exists>res h'. expr_eval ex_env ex_vars 5 4 (heap_of ex_nodes) = Ret (res, h')
     \<and> heap_inv ex_rank ex_cand {#0, 4#} h'"
  by (rule expr_eval_memory_safe [OF ex_env_ok _ ex_heap_inv])
    (auto simp: vars_owned_def ex_vars_lookup ex_cand_def ex_nodes_def ex_rank_def)

end
