(* ===== verification/ExprDeps.thy ===== *)
theory ExprDeps
  imports ExprSafe
begin

text \<open>
  What the engine relies on when it skips rules: \<open>expr_have_ref_to\<close> answers whether an
  expression can read an identifier. If it says no, evaluation gives the same result and makes
  the same writes whatever the identifier's input, output or variable is. The theory also shows
  that the result does not depend on the fuel, that the dependency check itself ends on acyclic
  heaps, and that a variable that is reached again while it is evaluated exhausts every stack.
\<close>

section \<open>Fuel\<close>

definition res_le :: "'a res \<Rightarrow> 'a res \<Rightarrow> bool" where
  "res_le m m' \<longleftrightarrow> m = Fuel \<or> m' = m"

named_theorems fuel_intros \<open>more fuel gives the same result, for each construct\<close>

lemma res_le_refl [simp, fuel_intros]: "res_le m m"
  by (simp add: res_le_def)

lemma res_le_bind [fuel_intros]:
  "res_le m m' \<Longrightarrow> (\<And>x. res_le (f x) (f' x)) \<Longrightarrow> res_le (rbind m f) (rbind m' f')"
  by (cases m) (auto simp: res_le_def)

lemma res_le_ev_then [fuel_intros]:
  "res_le m m' \<Longrightarrow> (\<And>v h. res_le (f v h) (f' v h)) \<Longrightarrow> res_le (ev_then m f) (ev_then m' f')"
  unfolding ev_then_def by (intro res_le_bind) (auto split: ev_result.split)

lemma res_le_Ret: "res_le m m' \<Longrightarrow> m = Ret x \<Longrightarrow> m' = Ret x"
  by (auto simp: res_le_def)

lemma unref_list_le [fuel_intros]:
  "(\<And>a h. res_le (f a h) (f' a h)) \<Longrightarrow> res_le (unref_list f as h) (unref_list f' as h)"
  by (induction as arbitrary: h) (auto intro!: fuel_intros)

lemma expr_unref_Suc: "res_le (expr_unref n a h) (expr_unref (Suc n) a h)"
proof (induction n arbitrary: a h)
  case (Suc n)
  then show ?case
    by (subst expr_unref.simps(2), subst expr_unref.simps(2))
      (auto intro!: fuel_intros simp del: expr_unref.simps)
qed (simp add: res_le_def)

lemma eval_node_le:
  assumes "\<And>a h. res_le (ev a h) (ev' a h)" "\<And>a h. res_le (u a h) (u' a h)"
  shows "res_le (eval_node E vars ev u a h) (eval_node E vars ev' u' a h)"
proof -
  have mn: "res_le (min_loop ev v as h) (min_loop ev' v as h)" for v as h
    by (induction as arbitrary: v h) (auto intro!: fuel_intros assms(1))
  have mx: "res_le (max_loop ev v as h) (max_loop ev' v as h)" for v as h
    by (induction as arbitrary: v h) (auto intro!: fuel_intros assms(1))
  have ops: "res_le (op_expr_eval ev op l r h) (op_expr_eval ev' op l r h)" for op l r h
    unfolding op_expr_eval_def by (intro fuel_intros assms(1))
  have rf: "res_le (ref_expr_eval E vars ev s h) (ref_expr_eval E vars ev' s h)" for s h
    unfolding ref_expr_eval_def by (auto split: option.split intro: assms(1))
  have fs: "res_le (round_func_expr_eval ev as h) (round_func_expr_eval ev' as h)"
    "res_le (limit_func_expr_eval ev as h) (limit_func_expr_eval ev' as h)"
    "res_le (changed_func_expr_eval ev as h) (changed_func_expr_eval ev' as h)" for as h
    unfolding round_func_expr_eval_def limit_func_expr_eval_def changed_func_expr_eval_def
    by (intro fuel_intros assms(1))+
  have el: "res_le (eval_func_expr_eval E ev u a as h) (eval_func_expr_eval E ev' u' a as h)" for as h
    unfolding eval_func_expr_eval_def
    by (intro fuel_intros) (auto intro!: fuel_intros assms simp: Let_def split: prod.split)
  show ?thesis
    unfolding eval_node_def
    by (intro fuel_intros)
      (auto split: expr_data.split intro!: mn mx ops rf fs el
        simp: min_func_expr_eval_def max_func_expr_eval_def)
qed

lemma expr_eval_Suc: "res_le (expr_eval E vars n a h) (expr_eval E vars (Suc n) a h)"
proof (induction n arbitrary: a h)
  case (Suc n)
  then show ?case
    by (subst expr_eval.simps(2), subst expr_eval.simps(2))
      (intro eval_node_le expr_unref_Suc)
qed (simp add: res_le_def)

lemma expr_eval_more_fuel:
  "n \<le> m \<Longrightarrow> expr_eval E vars n a h = Ret x \<Longrightarrow> expr_eval E vars m a h = Ret x"
proof (induction m rule: dec_induct)
  case (step m)
  then show ?case by (blast intro: res_le_Ret [OF expr_eval_Suc])
qed simp

lemma expr_eval_deterministic:
  "expr_eval E vars n a h = Ret x \<Longrightarrow> expr_eval E vars m a h = Ret y \<Longrightarrow> x = y"
  using expr_eval_more_fuel [of n "max n m" E vars a h x] expr_eval_more_fuel [of m "max n m" E vars a h y]
  by simp

section \<open>Expressions that do not read an identifier\<close>

definition in_read :: "env \<Rightarrow> string \<Rightarrow> st_input res option" where
  "in_read E s = map_option (map_input E) (tab_lookup (ev_inputs E) s)"

definition out_read :: "env \<Rightarrow> string \<Rightarrow> st_output res option" where
  "out_read E s = map_option (map_output E) (tab_lookup (ev_outputs E) s)"

text \<open>Two environments that differ at most in what \<open>ident\<close> stands for.\<close>

definition agree_but ::
  "string \<Rightarrow> env \<Rightarrow> var_table option \<Rightarrow> env \<Rightarrow> var_table option \<Rightarrow> bool" where
  "agree_but ident E vars E' vars' \<longleftrightarrow> ev_noret E' = ev_noret E \<and>
     (\<forall>s. s \<noteq> ident \<longrightarrow> in_read E' s = in_read E s \<and> out_read E' s = out_read E s
        \<and> tab_lookup vars' s = tab_lookup vars s)"

text \<open>A set of nodes closed under operands and variables, none of which names \<open>ident\<close>.\<close>

definition no_ref_set :: "string \<Rightarrow> var_table option \<Rightarrow> addr set \<Rightarrow> expr_heap \<Rightarrow> bool" where
  "no_ref_set ident vars S h \<longleftrightarrow> {eh_next h..} \<subseteq> S \<and>
     (\<forall>a\<in>S. \<forall>x. eh_cell h a = Some x \<longrightarrow> set (kids (ex_data x)) \<subseteq> S
        \<and> (\<forall>s. ex_data x = EX_REF s \<longrightarrow> s \<noteq> ident
             \<and> (\<forall>v. tab_lookup vars s = Some v \<longrightarrow> var_value v \<in> S))
        \<and> (\<forall>s b. ex_data x = EX_FLAG s b \<longrightarrow> s \<noteq> ident))"

definition same_run ::
  "string \<Rightarrow> var_table option \<Rightarrow> addr set \<Rightarrow> (ev_result \<times> expr_heap) res
   \<Rightarrow> (ev_result \<times> expr_heap) res \<Rightarrow> bool" where
  "same_run ident vars S m m' \<longleftrightarrow>
     m' = m \<and> (\<forall>res h'. m = Ret (res, h') \<longrightarrow> no_ref_set ident vars S h')"

named_theorems same_intros \<open>two runs that agree, for each construct\<close>

lemma same_run_Ret [same_intros]:
  "no_ref_set ident vars S h \<Longrightarrow> same_run ident vars S (Ret (v, h)) (Ret (v, h))"
  by (simp add: same_run_def)

lemma same_run_Ub [simp, same_intros]: "same_run ident vars S Ub Ub"
  by (simp add: same_run_def)

lemma same_run_ev_then [same_intros]:
  assumes "same_run ident vars S m m'"
    and "\<And>v h. no_ref_set ident vars S h \<Longrightarrow> same_run ident vars S (f v h) (f' v h)"
  shows "same_run ident vars S (ev_then m f) (ev_then m' f')"
proof (cases m)
  case (Ret p)
  with assms show ?thesis
    by (cases p; cases "fst p") (auto simp: same_run_def ev_then_def)
qed (use assms in \<open>simp_all add: same_run_def ev_then_def\<close>)

lemma same_run_bind_any [same_intros]:
  "(\<And>x. m = Ret x \<Longrightarrow> same_run ident vars S (f x) (f' x)) \<Longrightarrow>
   same_run ident vars S (rbind m f) (rbind m f')"
  by (cases m) (auto simp: same_run_def)

lemma no_ref_put:
  assumes "no_ref_set ident vars S h" "set (kids (ex_data x)) \<subseteq> S"
    "\<And>s. ex_data x \<noteq> EX_REF s" "\<And>s b. ex_data x \<noteq> EX_FLAG s b"
  shows "no_ref_set ident vars S (expr_put a x h)"
  using assms unfolding no_ref_set_def expr_put_def by (auto split: if_splits)

lemma no_ref_new_literal:
  "no_ref_set ident vars S h \<Longrightarrow> no_ref_set ident vars S (snd (expr_new_literal v h))"
  unfolding no_ref_set_def expr_new_literal_def expr_alloc_def by (auto split: if_splits)

lemma no_ref_shrink:
  assumes "no_ref_set ident vars S h" "shrinks h h'"
  shows "no_ref_set ident vars S h'"
  using assms unfolding no_ref_set_def shrinks_def by metis

text \<open>A run of \<open>expr_unref\<close> only frees and counts, on any heap.\<close>

lemma unref_list_shrinks:
  "(\<And>a h h'. f a h = Ret h' \<Longrightarrow> shrinks h h') \<Longrightarrow> unref_list f as h = Ret h' \<Longrightarrow> shrinks h h'"
  by (induction as arbitrary: h) (auto, blast intro: shrinks_trans)

lemma expr_unref_shrinks: "expr_unref n a h = Ret h' \<Longrightarrow> shrinks h h'"
proof (induction n arbitrary: a h h')
  case (Suc n)
  from Suc.prems obtain x where x: "eh_cell h a = Some x" by (auto simp: expr_at_def)
  show ?case
  proof (cases "1 < ex_nref x")
    case True
    with Suc.prems x have "h' = expr_put a (x\<lparr>ex_nref := ex_nref x - 1\<rparr>) h"
      by (simp add: expr_at_def)
    with x show ?thesis by (simp add: expr_put_def shrinks_def)
  next
    case False
    with Suc.prems x obtain g where "unref_list (expr_unref n) (kids (ex_data x)) h = Ret g"
      "h' = expr_free a g" by (auto simp: expr_at_def)
    moreover have "shrinks g (expr_free a g)" by (auto simp: shrinks_def expr_free_def)
    moreover have "shrinks h g" by (rule unref_list_shrinks [OF Suc.IH]) (use calculation in auto)
    ultimately show ?thesis by (simp add: shrinks_trans)
  qed
qed simp

lemma no_ref_kid:
  "no_ref_set ident vars S h \<Longrightarrow> a \<in> S \<Longrightarrow> eh_cell h a = Some x \<Longrightarrow> set (kids (ex_data x)) \<subseteq> S"
  unfolding no_ref_set_def by blast

lemma no_ref_set_literal:
  "no_ref_set ident vars S h \<Longrightarrow> set_literal a v h = Ret h' \<Longrightarrow> no_ref_set ident vars S h'"
  by (auto simp: set_literal_def expr_at_def intro!: no_ref_put split: if_splits)

lemma no_ref_set_arg0:
  assumes "no_ref_set ident vars S h" "self \<in> S" "b \<in> S" "set_arg0 self b h = Ret h'"
  shows "no_ref_set ident vars S h'"
proof -
  from assms(4) obtain x f as where x: "eh_cell h self = Some x" "ex_data x = EX_FUNC f as"
    "h' = expr_put self (x\<lparr>ex_data := EX_FUNC f (as[0 := b])\<rparr>) h"
    by (cases "eh_cell h self") (auto simp: set_arg0_def expr_at_def split: expr_data.split_asm)
  with no_ref_kid [OF assms(1,2) x(1)] assms(3) show ?thesis
    by (auto intro!: no_ref_put [OF assms(1)] dest!: subsetD [OF set_update_subset_insert])
qed

text \<open>The callbacks of two runs that agree on the operands agree.\<close>

definition same_eval :: "string \<Rightarrow> var_table option \<Rightarrow> addr set \<Rightarrow> evaluator \<Rightarrow> evaluator \<Rightarrow> bool" where
  "same_eval ident vars S ev ev' \<longleftrightarrow>
     (\<forall>a h. no_ref_set ident vars S h \<longrightarrow> a \<in> S \<longrightarrow> same_run ident vars S (ev a h) (ev' a h))"

lemma same_evalD:
  "same_eval ident vars S ev ev' \<Longrightarrow> no_ref_set ident vars S h \<Longrightarrow> a \<in> S \<Longrightarrow>
   same_run ident vars S (ev a h) (ev' a h)"
  by (simp add: same_eval_def)

lemma same_op:
  assumes "same_eval ident vars S ev ev'" "no_ref_set ident vars S h" "l \<in> S" "r \<in> S"
  shows "same_run ident vars S (op_expr_eval ev op l r h) (op_expr_eval ev' op l r h)"
  unfolding op_expr_eval_def using assms
  by (intro same_intros same_evalD [OF assms(1)]) (auto split: option.split intro: same_intros)

lemma same_min_loop:
  assumes ev: "same_eval ident vars S ev ev'"
  shows "no_ref_set ident vars S h \<Longrightarrow> set as \<subseteq> S \<Longrightarrow>
    same_run ident vars S (min_loop ev v as h) (min_loop ev' v as h)"
  by (induction as arbitrary: v h) (auto intro!: same_intros same_evalD [OF ev])

lemma same_max_loop:
  assumes ev: "same_eval ident vars S ev ev'"
  shows "no_ref_set ident vars S h \<Longrightarrow> set as \<subseteq> S \<Longrightarrow>
    same_run ident vars S (max_loop ev v as h) (max_loop ev' v as h)"
  by (induction as arbitrary: v h) (auto intro!: same_intros same_evalD [OF ev])

lemma same_funcs:
  assumes "same_eval ident vars S ev ev'" "no_ref_set ident vars S h" "set as \<subseteq> S"
  shows "same_run ident vars S (round_func_expr_eval ev as h) (round_func_expr_eval ev' as h)"
    and "same_run ident vars S (limit_func_expr_eval ev as h) (limit_func_expr_eval ev' as h)"
    and "same_run ident vars S (changed_func_expr_eval ev as h) (changed_func_expr_eval ev' as h)"
  unfolding round_func_expr_eval_def limit_func_expr_eval_def changed_func_expr_eval_def
  using assms(2,3)
  by (auto intro!: same_intros same_evalD [OF assms(1)] intro: no_ref_set_literal
      dest: subsetD [OF _ nth_mem])

lemma same_eval_func:
  assumes "same_eval ident vars S ev ev'" "no_ref_set ident vars S h" "set as \<subseteq> S" "self \<in> S"
    "ev_noret E' = ev_noret E"
  shows "same_run ident vars S (eval_func_expr_eval E ev (expr_unref n) self as h)
    (eval_func_expr_eval E' ev' (expr_unref n) self as h)"
proof -
  have swap: "same_run ident vars S
      (let (xarg, h2) = expr_new_literal v h1
       in rbind (set_arg0 self xarg h2) (\<lambda>h3. rbind (expr_unref n arg h3) (\<lambda>h4. Ret (ev_noret E, h4))))
      (let (xarg, h2) = expr_new_literal v h1
       in rbind (set_arg0 self xarg h2) (\<lambda>h3. rbind (expr_unref n arg h3) (\<lambda>h4. Ret (ev_noret E', h4))))"
    if g: "no_ref_set ident vars S h1" for v arg h1
  proof -
    obtain xarg h2 where n2: "expr_new_literal v h1 = (xarg, h2)" by fastforce
    have "xarg \<in> S"
      using g n2 unfolding no_ref_set_def by (auto simp: expr_new_literal_def expr_alloc_def)
    moreover have "no_ref_set ident vars S h2" using no_ref_new_literal [OF g, of v] n2 by simp
    ultimately show ?thesis
      using assms(4,5) n2
      by (auto intro!: same_intros intro: no_ref_shrink [OF _ expr_unref_shrinks] no_ref_set_arg0)
  qed
  show ?thesis
    unfolding eval_func_expr_eval_def
  proof (intro same_run_bind_any)
    fix arg x
    assume "pdata as 0 = Ret arg"
    with assms(3) have "arg \<in> S" by (auto dest!: nth_mem)
    note ev = same_evalD [OF assms(1,2) this]
    show "same_run ident vars S
        (if is_literal (ex_data x) then ev arg h
         else ev_then (ev arg h) (\<lambda>v h1. let (xarg, h2) = expr_new_literal v h1
           in rbind (set_arg0 self xarg h2) (\<lambda>h3. rbind (expr_unref n arg h3) (\<lambda>h4. Ret (ev_noret E, h4)))))
        (if is_literal (ex_data x) then ev' arg h
         else ev_then (ev' arg h) (\<lambda>v h1. let (xarg, h2) = expr_new_literal v h1
           in rbind (set_arg0 self xarg h2) (\<lambda>h3. rbind (expr_unref n arg h3) (\<lambda>h4. Ret (ev_noret E', h4)))))"
      using same_run_ev_then [OF ev swap] ev by simp
  qed
qed

lemma same_ref:
  assumes "agree_but ident E vars E' vars'" "same_eval ident vars S ev ev'" "no_ref_set ident vars S h"
    "s \<noteq> ident" "\<And>v. tab_lookup vars s = Some v \<Longrightarrow> var_value v \<in> S"
  shows "same_run ident vars S (ref_expr_eval E vars ev s h) (ref_expr_eval E' vars' ev' s h)"
proof -
  from assms(1,4) have r: "in_read E' s = in_read E s" "out_read E' s = out_read E s"
    "tab_lookup vars' s = tab_lookup vars s" by (simp_all add: agree_but_def)
  have split: "ref_expr_eval E vars ev s h =
      (case in_read E s of Some m \<Rightarrow> rbind m (\<lambda>i. Ret (EvTrue (in_val i), h)) | None \<Rightarrow>
       (case out_read E s of Some m \<Rightarrow> rbind m (\<lambda>i. Ret (EvTrue (out_val i), h)) | None \<Rightarrow>
       (case tab_lookup vars s of Some v \<Rightarrow> ev (var_value v) h
        | None \<Rightarrow> Ret (EvFalse (Some \<lparr>err_code = ST_ERROR_UNDEFINED_IDENTIFIER,
          err_message = ''ref_expr_eval: undefined identifier: '' @ s\<rparr>), h))))" for E vars ev
    by (simp add: ref_expr_eval_def in_read_def out_read_def split: option.split)
  show ?thesis
    unfolding split r using assms(3,5)
    by (auto intro!: same_intros same_evalD [OF assms(2)] split: option.split)
qed

lemma same_flag:
  assumes "agree_but ident E vars E' vars'" "no_ref_set ident vars S h" "s \<noteq> ident"
  shows "same_run ident vars S (flag_expr_eval E s b h) (flag_expr_eval E' s b h)"
proof -
  from assms(1,3) have r: "in_read E' s = in_read E s" "out_read E' s = out_read E s"
    by (simp_all add: agree_but_def)
  have split: "flag_expr_eval E s b h =
      (case in_read E s of
         Some m \<Rightarrow> rbind m (\<lambda>i. Ret (EvTrue (f64_of_bool (in_flags i AND b \<noteq> 0)), h)) | None \<Rightarrow>
       (case out_read E s of
         Some m \<Rightarrow> rbind m (\<lambda>i. Ret (EvTrue (f64_of_bool (out_flags i AND b \<noteq> 0)), h))
       | None \<Rightarrow> Ret (EvFalse (Some \<lparr>err_code = ST_ERROR_UNDEFINED_IDENTIFIER,
          err_message = ''flag_expr_eval: undefined identifier for FLAG: '' @ s\<rparr>), h)))" for E
    by (simp add: flag_expr_eval_def in_read_def out_read_def split: option.split)
  show ?thesis
    unfolding split r using assms(2) by (auto intro!: same_intros split: option.split)
qed

lemma expr_eval_same:
  assumes "agree_but ident E vars E' vars'"
  shows "same_eval ident vars S (expr_eval E vars n) (expr_eval E' vars' n)"
proof (induction n)
  case 0
  then show ?case by (simp add: same_eval_def same_run_def)
next
  case (Suc n)
  show ?case
    unfolding same_eval_def
  proof (intro allI impI)
    fix a h
    assume g: "no_ref_set ident vars S h" and a: "a \<in> S"
    show "same_run ident vars S (expr_eval E vars (Suc n) a h) (expr_eval E' vars' (Suc n) a h)"
      unfolding expr_eval.simps eval_node_def
    proof (rule same_run_bind_any)
      fix x
      assume "expr_at h a = Ret x"
      then have x: "eh_cell h a = Some x" by (simp add: expr_at_def)
      from g a x have k: "set (kids (ex_data x)) \<subseteq> S" by (rule no_ref_kid)
      have ref: "s \<noteq> ident \<and> (\<forall>v. tab_lookup vars s = Some v \<longrightarrow> var_value v \<in> S)"
        if "ex_data x = EX_REF s" for s
        using g a x that unfolding no_ref_set_def by blast
      have flag: "s \<noteq> ident" if "ex_data x = EX_FLAG s b" for s b
        using g a x that unfolding no_ref_set_def by blast
      have nr: "ev_noret E' = ev_noret E" using assms by (simp add: agree_but_def)
      show "same_run ident vars S
          (case ex_data x of
             EX_LITERAL v \<Rightarrow> literal_expr_eval v h
           | EX_OP op l r \<Rightarrow> op_expr_eval (expr_eval E vars n) op l r h
           | EX_REF s \<Rightarrow> ref_expr_eval E vars (expr_eval E vars n) s h
           | EX_FUNC i as \<Rightarrow>
               (if i = ''MIN'' then min_func_expr_eval (expr_eval E vars n) as h
                else if i = ''MAX'' then max_func_expr_eval (expr_eval E vars n) as h
                else if i = ''ROUND'' then round_func_expr_eval (expr_eval E vars n) as h
                else if i = ''LIMIT'' then limit_func_expr_eval (expr_eval E vars n) as h
                else if i = ''EVAL'' then
                  eval_func_expr_eval E (expr_eval E vars n) (expr_unref n) a as h
                else if i = ''CHANGED'' then changed_func_expr_eval (expr_eval E vars n) as h
                else Ub)
           | EX_FLAG s b \<Rightarrow> flag_expr_eval E s b h)
          (case ex_data x of
             EX_LITERAL v \<Rightarrow> literal_expr_eval v h
           | EX_OP op l r \<Rightarrow> op_expr_eval (expr_eval E' vars' n) op l r h
           | EX_REF s \<Rightarrow> ref_expr_eval E' vars' (expr_eval E' vars' n) s h
           | EX_FUNC i as \<Rightarrow>
               (if i = ''MIN'' then min_func_expr_eval (expr_eval E' vars' n) as h
                else if i = ''MAX'' then max_func_expr_eval (expr_eval E' vars' n) as h
                else if i = ''ROUND'' then round_func_expr_eval (expr_eval E' vars' n) as h
                else if i = ''LIMIT'' then limit_func_expr_eval (expr_eval E' vars' n) as h
                else if i = ''EVAL'' then
                  eval_func_expr_eval E' (expr_eval E' vars' n) (expr_unref n) a as h
                else if i = ''CHANGED'' then changed_func_expr_eval (expr_eval E' vars' n) as h
                else Ub)
           | EX_FLAG s b \<Rightarrow> flag_expr_eval E' s b h)"
        using same_ref [OF assms Suc g] same_flag [OF assms g] ref flag k
          same_op [OF Suc g] same_funcs [OF Suc g] same_eval_func [OF Suc g _ a nr]
          same_min_loop [OF Suc g] same_max_loop [OF Suc g] g
        by (cases "ex_data x")
          (auto simp: literal_expr_eval_def min_func_expr_eval_def max_func_expr_eval_def
            intro: same_intros)
    qed
  qed
qed

text \<open>The nodes for which the check answers no form such a set.\<close>

definition no_ref_nodes :: "string \<Rightarrow> var_table option \<Rightarrow> expr_heap \<Rightarrow> addr set" where
  "no_ref_nodes ident vars h =
     {a. \<exists>n. expr_have_ref_to n a ident vars h = Ret False} \<union> {a. eh_cell h a = None}"

lemma any_ref_False: "any_ref f as = Ret False \<longleftrightarrow> (\<forall>a\<in>set as. f a = Ret False)"
  by (induction as) auto

lemma have_ref_False_step:
  assumes "expr_have_ref_to n a ident vars h = Ret False" "eh_cell h a = Some x"
  obtains m where "n = Suc m"
    "\<forall>b\<in>set (kids (ex_data x)). expr_have_ref_to m b ident vars h = Ret False"
    "\<forall>s. ex_data x = EX_REF s \<longrightarrow> s \<noteq> ident \<and>
       (\<forall>v. tab_lookup vars s = Some v \<longrightarrow> expr_have_ref_to m (var_value v) ident vars h = Ret False)"
    "\<forall>s b. ex_data x = EX_FLAG s b \<longrightarrow> s \<noteq> ident"
proof (cases n)
  case (Suc m)
  from assms show thesis
    by (intro that [OF Suc])
      (auto simp: Suc expr_at_def any_ref_False split: expr_data.splits if_splits option.splits)
qed (use assms(1) in simp)

lemma no_ref_nodes_set:
  assumes "\<And>a. eh_next h \<le> a \<Longrightarrow> eh_cell h a = None"
  shows "no_ref_set ident vars (no_ref_nodes ident vars h) h"
  unfolding no_ref_set_def
proof (intro conjI ballI allI impI)
  show "{eh_next h..} \<subseteq> no_ref_nodes ident vars h"
    using assms by (auto simp: no_ref_nodes_def)
next
  fix a x
  assume "a \<in> no_ref_nodes ident vars h" and x: "eh_cell h a = Some x"
  then obtain n where "expr_have_ref_to n a ident vars h = Ret False"
    by (auto simp: no_ref_nodes_def)
  from have_ref_False_step [OF this x] obtain m where
    m: "\<forall>b\<in>set (kids (ex_data x)). expr_have_ref_to m b ident vars h = Ret False"
    "\<forall>s. ex_data x = EX_REF s \<longrightarrow> s \<noteq> ident \<and>
       (\<forall>v. tab_lookup vars s = Some v \<longrightarrow> expr_have_ref_to m (var_value v) ident vars h = Ret False)"
    "\<forall>s b. ex_data x = EX_FLAG s b \<longrightarrow> s \<noteq> ident" by blast
  show "set (kids (ex_data x)) \<subseteq> no_ref_nodes ident vars h"
    using m(1) by (auto simp: no_ref_nodes_def)
  fix s
  show "s \<noteq> ident" if "ex_data x = EX_REF s" using m(2) that by blast
  show "var_value v \<in> no_ref_nodes ident vars h"
    if "ex_data x = EX_REF s" "tab_lookup vars s = Some v" for v
    using m(2) that by (auto simp: no_ref_nodes_def)
  show "s \<noteq> ident" if "ex_data x = EX_FLAG s b" for b using m(3) that by blast
qed

lemma have_ref_same_eval:
  assumes "\<And>a. eh_next h \<le> a \<Longrightarrow> eh_cell h a = None"
    and "expr_have_ref_to m a ident vars h = Ret False" "agree_but ident E vars E' vars'"
  shows "expr_eval E' vars' n a h = expr_eval E vars n a h"
  using same_evalD [OF expr_eval_same [OF assms(3)]
      no_ref_nodes_set [OF assms(1), where ident = ident and vars = vars], of a n] assms(2)
  by (auto simp: same_run_def no_ref_nodes_def)

section \<open>The check ends\<close>

lemma any_ref_total: "(\<And>a. a \<in> set as \<Longrightarrow> \<exists>b. f a = Ret b) \<Longrightarrow> \<exists>b. any_ref f as = Ret b"
proof (induction as)
  case (Cons a as)
  then obtain b c where "f a = Ret b" "any_ref f as = Ret c" by (metis list.set_intros)
  then show ?case by (cases b) auto
qed auto

lemma have_ref_total:
  assumes inv: "heap_inv r cand R h" and owned: "vars_owned cand vars R"
  shows "eh_cell h a = Some x \<Longrightarrow> r a < n \<Longrightarrow> \<exists>b. expr_have_ref_to n a ident vars h = Ret b"
proof (induction n arbitrary: a x)
  case (Suc n)
  have kid: "\<exists>c. expr_have_ref_to n b ident vars h = Ret c" if "b \<in> set (kids (ex_data x))" for b
    using heap_inv_kid [OF inv Suc.prems(1) that] Suc.IH Suc.prems(2) by fastforce
  show ?case
  proof (cases "ex_data x")
    case (EX_OP op l rt)
    then have "\<exists>c. any_ref (\<lambda>b. expr_have_ref_to n b ident vars h) [l, rt] = Ret c"
      using kid by (intro any_ref_total) auto
    with Suc.prems EX_OP show ?thesis by (simp add: expr_at_def del: any_ref.simps)
  next
    case (EX_FUNC f as)
    then have "\<exists>c. any_ref (\<lambda>b. expr_have_ref_to n b ident vars h) as = Ret c"
      using kid by (intro any_ref_total) auto
    with Suc.prems EX_FUNC show ?thesis by (simp add: expr_at_def)
  next
    case (EX_REF s)
    show ?thesis
    proof (cases "tab_lookup vars s")
      case (Some v)
      from heap_inv_var [OF inv owned Suc.prems(1) EX_REF Some] obtain y where
        "r (var_value v) < r a" "eh_cell h (var_value v) = Some y" by blast
      with Suc.IH [of "var_value v" y] Suc.prems EX_REF Some show ?thesis
        by (auto simp: expr_at_def)
    qed (use Suc.prems EX_REF in \<open>auto simp: expr_at_def\<close>)
  qed (use Suc.prems in \<open>auto simp: expr_at_def\<close>)
qed simp

section \<open>Variables that reach themselves\<close>

text \<open>The operand that evaluation visits first, if it visits any before it can write or fail.\<close>

definition first_eval :: "env \<Rightarrow> var_table option \<Rightarrow> expr_data \<Rightarrow> addr option" where
  "first_eval E vars d =
     (case d of
        EX_OP _ l _ \<Rightarrow> Some l
      | EX_REF s \<Rightarrow>
          (if tab_lookup (ev_inputs E) s = None \<and> tab_lookup (ev_outputs E) s = None
           then map_option var_value (tab_lookup vars s) else None)
      | EX_FUNC ident (a # _) \<Rightarrow> (if ident = ''MIN'' \<or> ident = ''MAX'' \<or> ident = ''ROUND''
           then Some a else None)
      | _ \<Rightarrow> None)"

lemma ev_then_Fuel [simp]: "ev_then Fuel f = Fuel"
  by (simp add: ev_then_def)

lemma first_eval_Fuel:
  assumes "eh_cell h a = Some x" "first_eval E vars (ex_data x) = Some b" "ev b h = Fuel"
  shows "eval_node E vars ev u a h = Fuel"
proof (cases "ex_data x")
  case (EX_REF s)
  with assms show ?thesis
    by (auto simp: eval_node_def expr_at_def first_eval_def ref_expr_eval_def split: if_splits)
next
  case (EX_FUNC i as)
  with assms(2) obtain cs where "as = b # cs" "i = ''MIN'' \<or> i = ''MAX'' \<or> i = ''ROUND''"
    by (auto simp: first_eval_def split: list.splits if_splits)
  then show ?thesis
    using assms(3) eval_node_func(1-3) [OF assms(1) EX_FUNC]
    by (auto simp: min_func_expr_eval_def max_func_expr_eval_def round_func_expr_eval_def pdata_def)
qed (use assms in \<open>simp_all add: eval_node_def expr_at_def first_eval_def op_expr_eval_def\<close>)

lemma cycle_Fuel:
  assumes "\<And>a. a \<in> C \<Longrightarrow> \<exists>x b. eh_cell h a = Some x \<and> first_eval E vars (ex_data x) = Some b \<and> b \<in> C"
  shows "a \<in> C \<Longrightarrow> expr_eval E vars n a h = Fuel"
proof (induction n arbitrary: a)
  case (Suc n)
  from assms [OF Suc.prems] obtain x b where
    "eh_cell h a = Some x" "first_eval E vars (ex_data x) = Some b" "b \<in> C" by blast
  with Suc.IH show ?case by (auto intro: first_eval_Fuel)
qed simp

section \<open>Properties\<close>

text \<open>C11: if \<open>expr_have_ref_to\<close> says that an expression does not refer to an identifier, then
  evaluating it gives the same result and leaves the same nodes in any two situations that differ
  only in that identifier: in the input or output it names, their values and flags, or in the
  expression assigned to it as a variable. Skipping the rules without a reference is sound.\<close>

theorem expr_have_ref_to_sound:
  assumes "heap_inv r cand R h" "expr_have_ref_to m a ident vars h = Ret False"
    and "agree_but ident E vars E' vars'"
  shows "expr_eval E' vars' n a h = expr_eval E vars n a h"
  using have_ref_same_eval [OF _ assms(2,3)] heap_inv_fresh [OF assms(1)] by blast

definition ex_env_in :: "f64 \<Rightarrow> env" where
  "ex_env_in v = \<lparr>ev_inputs = Some [(''I'', \<lparr>cm_client = 0, cm_index = 0\<rparr>)], ev_outputs = None,
     ev_clients = (\<lambda>_. Some (st_client_init\<lparr>cl_inputs := [\<lparr>in_name = ''I'', in_descr = '''', in_unit = 0,
       in_val = v, in_min = v, in_max = v, in_step = f64_one, in_flags = 0\<rparr>]\<rparr>)),
     ev_noret = EvTrue f64_zero\<rparr>"

lemma ex_env_in_agree: "agree_but ''I'' (ex_env_in v) vars (ex_env_in w) vars"
  by (auto simp: agree_but_def ex_env_in_def in_read_def out_read_def tab_lookup_def gh_lookup_def)

theorem expr_have_ref_to_sound_witness:
  "expr_eval (ex_env_in (f64_of_int 7)) ex_vars 5 4 (heap_of ex_nodes) =
   expr_eval (ex_env_in (f64_of_int 9)) ex_vars 5 4 (heap_of ex_nodes)"
proof (rule expr_have_ref_to_sound [OF ex_heap_inv _ ex_env_in_agree])
  show "expr_have_ref_to 5 4 ''I'' ex_vars (heap_of ex_nodes) = Ret False"
    by (simp add: ex_nodes_def ex_vars_lookup expr_at_def eval_nat_numeral)
qed

text \<open>the dependency check returns on every heap whose operands and variables are acyclic,
  with a stack of one frame per rank.\<close>

theorem expr_have_ref_to_terminates:
  assumes "heap_inv r cand R h" "vars_owned cand vars R" "eh_cell h a = Some x" "r a < n"
  shows "\<exists>b. expr_have_ref_to n a ident vars h = Ret b"
  by (rule have_ref_total [OF assms])

theorem expr_have_ref_to_terminates_witness:
  "\<exists>b. expr_have_ref_to 5 4 ''X'' ex_vars (heap_of ex_nodes) = Ret b"
  by (rule expr_have_ref_to_terminates [OF ex_heap_inv])
    (auto simp: vars_owned_def ex_vars_lookup ex_cand_def ex_nodes_def ex_rank_def)

text \<open>C12: a variable whose expression begins with a reference to the variable itself, as after
  \<open>SET X = X + 1\<close>, cannot be evaluated: the recursion is deeper than every stack. Nothing in
  the engine detects it.\<close>

theorem self_reference_diverges:
  assumes "tab_lookup vars s = Some v" "tab_lookup (ev_inputs E) s = None"
    "tab_lookup (ev_outputs E) s = None"
    and "eh_cell h (var_value v) = Some x" "ex_data x = EX_OP op l r"
    and "eh_cell h l = Some y" "ex_data y = EX_REF s"
  shows "expr_eval E vars n (var_value v) h = Fuel"
proof (rule cycle_Fuel [where C = "{var_value v, l}"])
  fix a
  assume "a \<in> {var_value v, l}"
  then show "\<exists>x b. eh_cell h a = Some x \<and> first_eval E vars (ex_data x) = Some b \<and> b \<in> {var_value v, l}"
    using assms by (auto simp: first_eval_def)
qed simp

definition self_ref_nodes :: "expr list" where
  "self_ref_nodes = [\<lparr>ex_data = EX_REF ''X'', ex_nref = 1\<rparr>,
     \<lparr>ex_data = EX_LITERAL f64_one, ex_nref = 1\<rparr>, \<lparr>ex_data = EX_OP ''+'' 0 1, ex_nref = 2\<rparr>]"

theorem self_reference_diverges_witness:
  "\<forall>n. expr_eval ex_env (Some [(''X'', \<lparr>var_name = ''X'', var_value = 2\<rparr>)]) n 2
     (heap_of self_ref_nodes) = Fuel"
  using self_reference_diverges [where vars = "Some [(''X'', \<lparr>var_name = ''X'', var_value = 2\<rparr>)]"
      and s = "''X''" and E = ex_env and v = "\<lparr>var_name = ''X'', var_value = 2\<rparr>"
      and h = "heap_of self_ref_nodes"]
  by (simp add: tab_lookup_def gh_lookup_def ex_env_def self_ref_nodes_def)

end
