(* ===== verification/ExprFuncs.thy ===== *)
theory ExprFuncs
  imports ExprDeps
begin

text \<open>
  What the functions of the rules language compute: \<open>MIN\<close> and \<open>MAX\<close> over the values of their
  arguments, \<open>CHANGED\<close> over a series of evaluations, and \<open>EVAL\<close> before and after its first
  evaluation.
\<close>

section \<open>MIN and MAX\<close>

text \<open>The values of the arguments in order, each evaluated in the heap the last one left.\<close>

fun eval_seq :: "evaluator \<Rightarrow> addr list \<Rightarrow> expr_heap \<Rightarrow> (f64 list option \<times> expr_heap) res" where
  "eval_seq ev [] h = Ret (Some [], h)"
| "eval_seq ev (a # as) h =
     rbind (ev a h) (\<lambda>(r, h1). case r of
       EvFalse _ \<Rightarrow> Ret (None, h1)
     | EvTrue v \<Rightarrow> rbind (eval_seq ev as h1) (\<lambda>(vs, h2). Ret (map_option ((#) v) vs, h2)))"

lemma eval_seq_Cons:
  assumes "eval_seq ev (a # as) h = Ret (Some vs, h')"
  obtains v ws h1 where "ev a h = Ret (EvTrue v, h1)" "eval_seq ev as h1 = Ret (Some ws, h')"
    "vs = v # ws"
proof -
  from assms obtain r h1 where r: "ev a h = Ret (r, h1)"
    by (cases "ev a h") auto
  with assms obtain v where v: "r = EvTrue v" by (cases r) auto
  with r assms obtain us where "eval_seq ev as h1 = Ret (us, h')" "map_option ((#) v) us = Some vs"
    by (cases "eval_seq ev as h1") auto
  with r v that show thesis by auto
qed

lemma min_loop_seq:
  "eval_seq ev as h = Ret (Some vs, h') \<Longrightarrow>
   min_loop ev r as h = Ret (EvTrue (foldl (\<lambda>r v. if f64_lt v r then v else r) r vs), h')"
proof (induction as arbitrary: h vs r)
  case (Cons a as)
  from Cons.prems obtain v ws h1 where v: "ev a h = Ret (EvTrue v, h1)"
    "eval_seq ev as h1 = Ret (Some ws, h')" "vs = v # ws" by (rule eval_seq_Cons)
  from Cons.IH [OF v(2)] v(1,3) show ?case by (simp add: ev_then_def)
qed simp

lemma max_loop_seq:
  "eval_seq ev as h = Ret (Some vs, h') \<Longrightarrow>
   max_loop ev r as h = Ret (EvTrue (foldl (\<lambda>r v. if f64_lt r v then v else r) r vs), h')"
proof (induction as arbitrary: h vs r)
  case (Cons a as)
  from Cons.prems obtain v ws h1 where v: "ev a h = Ret (EvTrue v, h1)"
    "eval_seq ev as h1 = Ret (Some ws, h')" "vs = v # ws" by (rule eval_seq_Cons)
  from Cons.IH [OF v(2)] v(1,3) show ?case by (simp add: ev_then_def)
qed simp

lemma fold_min:
  assumes "\<not> f64_is_nan r" "\<forall>v\<in>set vs. \<not> f64_is_nan v"
  shows "let m = foldl (\<lambda>r v. if f64_lt v r then v else r) r vs
    in f64_le m r \<and> (\<forall>v\<in>set vs. f64_le m v) \<and> (m = r \<or> m \<in> set vs)"
  using assms
proof (induction vs arbitrary: r)
  case (Cons v vs)
  let ?r = "if f64_lt v r then v else r"
  have nn: "\<not> f64_is_nan ?r" using Cons.prems by simp
  have le: "f64_le ?r v" "f64_le ?r r"
    using Cons.prems f64_not_lt [of v r] f64_lt_imp_le [of v r] by (auto simp: f64_le_refl_iff)
  from Cons.IH [OF nn] Cons.prems(2) le show ?case
    by (auto simp: Let_def intro: f64_le_trans split: if_splits)
qed (simp add: f64_le_refl_iff)

lemma fold_max:
  assumes "\<not> f64_is_nan r" "\<forall>v\<in>set vs. \<not> f64_is_nan v"
  shows "let m = foldl (\<lambda>r v. if f64_lt r v then v else r) r vs
    in f64_le r m \<and> (\<forall>v\<in>set vs. f64_le v m) \<and> (m = r \<or> m \<in> set vs)"
  using assms
proof (induction vs arbitrary: r)
  case (Cons v vs)
  let ?r = "if f64_lt r v then v else r"
  have nn: "\<not> f64_is_nan ?r" using Cons.prems by simp
  have le: "f64_le v ?r" "f64_le r ?r"
    using Cons.prems f64_not_lt [of r v] f64_lt_imp_le [of r v] by (auto simp: f64_le_refl_iff)
  from Cons.IH [OF nn] Cons.prems(2) le show ?case
    by (auto simp: Let_def intro: f64_le_trans split: if_splits)
qed (simp add: f64_le_refl_iff)

section \<open>CHANGED\<close>

text \<open>The results of evaluating one node in a series of environments.\<close>

fun eval_series :: "env list \<Rightarrow> var_table option \<Rightarrow> nat \<Rightarrow> addr \<Rightarrow> expr_heap \<Rightarrow> ev_result list res" where
  "eval_series [] vars n a h = Ret []"
| "eval_series (E # Es) vars n a h =
     rbind (expr_eval E vars n a h) (\<lambda>(r, h1).
     rbind (eval_series Es vars n a h1) (\<lambda>rs. Ret (r # rs)))"

definition changed_node :: "expr_heap \<Rightarrow> addr \<Rightarrow> string \<Rightarrow> f64 \<Rightarrow> bool" where
  "changed_node h a s p \<longleftrightarrow> (\<exists>x b y l z. eh_cell h a = Some x \<and> ex_data x = EX_FUNC ''CHANGED'' [b, l]
     \<and> eh_cell h b = Some y \<and> ex_data y = EX_REF s
     \<and> eh_cell h l = Some z \<and> ex_data z = EX_LITERAL p)"

definition edge :: "f64 \<Rightarrow> f64 \<Rightarrow> f64" where
  "edge p v = (if f64_eq p G_MINDOUBLE then f64_one else f64_of_bool (\<not> f64_eq v p))"

lemma expr_eval_input:
  "eh_cell h b = Some y \<Longrightarrow> ex_data y = EX_REF s \<Longrightarrow> in_read E s = Some (Ret i) \<Longrightarrow>
   expr_eval E vars (Suc n) b h = Ret (EvTrue (in_val i), h)"
  by (auto simp: eval_node_def expr_at_def ref_expr_eval_def in_read_def)

lemma expr_eval_literal:
  "eh_cell h b = Some y \<Longrightarrow> ex_data y = EX_LITERAL p \<Longrightarrow>
   expr_eval E vars (Suc n) b h = Ret (EvTrue p, h)"
  by (auto simp: eval_node_def expr_at_def literal_expr_eval_def)

lemma changed_step:
  assumes "changed_node h a s p" "in_read E s = Some (Ret i)"
  shows "\<exists>h'. expr_eval E vars (Suc (Suc n)) a h = Ret (EvTrue (edge p (in_val i)), h')
     \<and> changed_node h' a s (in_val i)"
proof -
  from assms(1) obtain x b y l z where c: "eh_cell h a = Some x" "ex_data x = EX_FUNC ''CHANGED'' [b, l]"
    "eh_cell h b = Some y" "ex_data y = EX_REF s" "eh_cell h l = Some z" "ex_data z = EX_LITERAL p"
    unfolding changed_node_def by blast
  let ?h = "expr_put l (z\<lparr>ex_data := EX_LITERAL (in_val i)\<rparr>) h"
  have "expr_eval E vars (Suc (Suc n)) a h = Ret (EvTrue (edge p (in_val i)), ?h)"
    unfolding expr_eval.simps(2) [of E vars "Suc n"]
    using eval_node_func(6) [OF c(1,2) refl] expr_eval_input [OF c(3,4) assms(2)]
      expr_eval_literal [OF c(5,6)] c(5,6)
    by (simp add: changed_func_expr_eval_def pdata_def ev_then_def set_literal_def expr_at_def
        is_literal_def edge_def del: expr_eval.simps)
  moreover have "a \<noteq> l" "b \<noteq> l" using c by auto
  then have "changed_node ?h a s (in_val i)"
    unfolding changed_node_def using c by (auto simp: expr_put_def)
  ultimately show ?thesis by blast
qed

fun edges :: "f64 \<Rightarrow> f64 list \<Rightarrow> f64 list" where
  "edges p [] = []"
| "edges p (v # vs) = edge p v # edges v vs"

lemma changed_series:
  assumes "list_all2 (\<lambda>E v. \<exists>i. in_read E s = Some (Ret i) \<and> in_val i = v) Es vs"
  shows "changed_node h a s p \<Longrightarrow>
    eval_series Es vars (Suc (Suc n)) a h = Ret (map EvTrue (edges p vs))"
  using assms
proof (induction arbitrary: h p rule: list_all2_induct)
  case (Cons E Es v vs)
  from Cons.hyps(1) obtain i where i: "in_read E s = Some (Ret i)" "in_val i = v" by blast
  from changed_step [OF Cons.prems i(1), of vars n] obtain h' where
    "expr_eval E vars (Suc (Suc n)) a h = Ret (EvTrue (edge p v), h')" "changed_node h' a s v"
    using i(2) by blast
  with Cons.IH show ?case by (simp del: expr_eval.simps)
qed simp

lemma edges_length [simp]: "length (edges p vs) = length vs"
  by (induction vs arbitrary: p) auto

lemma edges_nth: "i < length vs \<Longrightarrow> edges p vs ! i = edge (if i = 0 then p else vs ! (i - 1)) (vs ! i)"
proof (induction vs arbitrary: p i)
  case (Cons v vs)
  show ?case
  proof (cases i)
    case (Suc j)
    with Cons show ?thesis by (cases j) auto
  qed simp
qed simp

section \<open>EVAL\<close>

lemma eval_frozen_again:
  assumes "eh_cell h self = Some x" "ex_data x = EX_FUNC ''EVAL'' (l # rest)"
    "eh_cell h l = Some y" "ex_data y = EX_LITERAL v"
  shows "expr_eval E vars (Suc (Suc m)) self h = Ret (EvTrue v, h)"
  unfolding expr_eval.simps(2) [of E vars "Suc m"]
  using eval_node_func(5) [OF assms(1,2) refl] expr_eval_literal [OF assms(3,4)] assms(3,4)
  by (simp add: eval_func_expr_eval_def pdata_def expr_at_def is_literal_def del: expr_eval.simps)

lemma eval_swap_frozen:
  assumes inv: "heap_inv r cand R h" and x: "eh_cell h self = Some x"
    "ex_data x = EX_FUNC ''EVAL'' (arg # rest)" and fuel: "r arg < n"
  shows "\<exists>h3 h4 x' y. set_arg0 self (eh_next h) (snd (expr_new_literal v h)) = Ret h3
     \<and> expr_unref n arg h3 = Ret h4
     \<and> eh_cell h4 self = Some x' \<and> ex_data x' = EX_FUNC ''EVAL'' (eh_next h # rest)
     \<and> eh_cell h4 (eh_next h) = Some y \<and> ex_data y = EX_LITERAL v"
proof -
  let ?a = "eh_next h"
  let ?h2 = "snd (expr_new_literal v h)"
  have k: "r arg < r self" using heap_inv_kid [OF inv x(1)] by (simp add: x)
  have c2: "eh_cell ?h2 = (eh_cell h)(?a \<mapsto> \<lparr>ex_data = EX_LITERAL v, ex_nref = 1\<rparr>)"
    by (simp add: expr_new_literal_def expr_alloc_def)
  from heap_inv_swap_arg [OF inv x _ fuel, of v] obtain h3 h4 where
    h: "set_arg0 self ?a ?h2 = Ret h3" "expr_unref n arg h3 = Ret h4" "heap_inv r cand R h4"
    "frame_above r (r self) h3 h4" by auto
  have ne: "self \<noteq> ?a" using heap_inv_fresh [OF inv, of ?a] x by auto
  have h3: "h3 = expr_put self (x\<lparr>ex_data := EX_FUNC ''EVAL'' (?a # rest)\<rparr>) ?h2"
    using h(1) x ne by (simp add: set_arg0_def expr_at_def c2)
  have sh: "shrinks h3 h4" by (rule expr_unref_shrinks [OF h(2)])
  have "eh_cell h4 self = eh_cell h3 self" using h(4) by (simp add: frame_above_def)
  then have self4: "eh_cell h4 self = Some (x\<lparr>ex_data := EX_FUNC ''EVAL'' (?a # rest)\<rparr>)"
    by (simp add: h3 expr_put_def)
  with heap_inv_kid [OF h(3), of self _ ?a] obtain y where y: "eh_cell h4 ?a = Some y" by auto
  with sh ne have "ex_data y = EX_LITERAL v"
    unfolding shrinks_def h3 by (auto simp: expr_put_def c2 dest!: spec [where x = ?a] split: if_splits)
  with h self4 y show ?thesis by auto
qed

section \<open>Properties\<close>

text \<open>\<open>MIN\<close> over arguments that evaluate to \<open>vs\<close>, none a NaN, is below every one of them and
  is one of them, or \<open>G_MAXDOUBLE\<close> when no value is below that.\<close>

theorem min_func_least:
  assumes "eval_seq ev args h = Ret (Some vs, h')" "\<forall>v\<in>set vs. \<not> f64_is_nan v"
  shows "\<exists>m. min_func_expr_eval ev args h = Ret (EvTrue m, h') \<and> (\<forall>v\<in>set vs. f64_le m v)
     \<and> (m \<in> set vs \<or> m = G_MAXDOUBLE)"
  using fold_min [of G_MAXDOUBLE vs] assms(2) min_loop_seq [OF assms(1)]
  by (auto simp: min_func_expr_eval_def Let_def G_MAXDOUBLE_def)

lemma literals_seq:
  "eval_seq (expr_eval E vars (Suc n)) as h = Ret (Some vs, h)"
  if "list_all2 (\<lambda>a v. \<exists>x. eh_cell h a = Some x \<and> ex_data x = EX_LITERAL v) as vs"
  using that
proof (induction rule: list_all2_induct)
  case (Cons a as v vs)
  then obtain x where "eh_cell h a = Some x" "ex_data x = EX_LITERAL v" by blast
  from expr_eval_literal [OF this, of E vars n] Cons.IH show ?case by (simp del: expr_eval.simps)
qed simp

definition lits :: "int list \<Rightarrow> expr_heap" where
  "lits is = heap_of (map (\<lambda>i. \<lparr>ex_data = EX_LITERAL (f64_of_int i), ex_nref = 1\<rparr>) is)"

lemma lits_seq:
  "n = length is \<Longrightarrow>
   eval_seq (expr_eval E vars (Suc m)) [0..<n] (lits is) = Ret (Some (map f64_of_int is), lits is)"
  by (rule literals_seq) (auto simp: list_all2_conv_all_nth lits_def)

theorem min_func_least_witness:
  "\<exists>m. min_func_expr_eval (expr_eval ex_env None 1) [0, 1] (lits [4, -7]) = Ret (EvTrue m, lits [4, -7])
     \<and> f64_le m (f64_of_int (-7))"
proof -
  have "eval_seq (expr_eval ex_env None 1) [0, 1] (lits [4, -7]) =
      Ret (Some (map f64_of_int [4, -7]), lits [4, -7])"
    using lits_seq [of 2 "[4, -7]" ex_env None 0] by (simp add: upt_rec)
  moreover have "\<forall>v\<in>set (map f64_of_int [4, -7]). \<not> f64_is_nan v"
    by (simp add: f64_of_int_def)
  ultimately show ?thesis using min_func_least by fastforce
qed

text \<open>\<open>MAX\<close> starts from \<open>G_MINDOUBLE\<close>, the least positive normal number, and not from the
  least number: when none of its arguments is positive it answers \<open>G_MINDOUBLE\<close>, which is
  greater than all of them and none of them.\<close>

theorem max_func_nonpositive:
  assumes "eval_seq ev args h = Ret (Some vs, h')" "\<forall>v\<in>set vs. f64_le v f64_zero"
  shows "max_func_expr_eval ev args h = Ret (EvTrue G_MINDOUBLE, h')
     \<and> (\<forall>v\<in>set vs. f64_lt v G_MINDOUBLE)"
proof -
  have lt: "\<forall>v\<in>set vs. f64_lt v G_MINDOUBLE"
    using assms(2) f64_le_lt_trans [of _ f64_zero G_MINDOUBLE]
    by (simp add: f64_zero_def G_MINDOUBLE_def)
  then have "foldl (\<lambda>r v. if f64_lt r v then v else r) G_MINDOUBLE vs = G_MINDOUBLE"
    by (induction vs) (use f64_lt_trans f64_lt_irrefl in \<open>auto dest: f64_lt_trans\<close>)
  with lt max_loop_seq [OF assms(1)] show ?thesis by (simp add: max_func_expr_eval_def)
qed

theorem max_func_nonpositive_witness:
  "max_func_expr_eval (expr_eval ex_env None 1) [0, 1] (lits [-4, -7]) =
   Ret (EvTrue G_MINDOUBLE, lits [-4, -7])"
proof -
  have "eval_seq (expr_eval ex_env None 1) [0, 1] (lits [-4, -7]) =
      Ret (Some (map f64_of_int [-4, -7]), lits [-4, -7])"
    using lits_seq [of 2 "[-4, -7]" ex_env None 0] by (simp add: upt_rec)
  moreover have "\<forall>v\<in>set (map f64_of_int [-4, -7]). f64_le v f64_zero" by code_simp
  ultimately show ?thesis using max_func_nonpositive by blast
qed

text \<open>C13: evaluating \<open>CHANGED(I)\<close> of an input again and again reports edges: the first evaluation
  after parsing gives 1, and a later one gives 1 exactly when the input's value differs from its
  value at the evaluation before, provided the value before was not \<open>G_MINDOUBLE\<close>, which the
  function takes for no value at all.\<close>

theorem changed_detects_edges:
  assumes "changed_node h a s G_MINDOUBLE"
    and "list_all2 (\<lambda>E v. \<exists>i. in_read E s = Some (Ret i) \<and> in_val i = v) Es vs"
  shows "\<exists>rs. eval_series Es vars (Suc (Suc n)) a h = Ret (map EvTrue rs) \<and> length rs = length vs
     \<and> (\<forall>i<length vs. f64_true (rs ! i) =
          (i = 0 \<or> f64_eq (vs ! (i - 1)) G_MINDOUBLE \<or> \<not> f64_eq (vs ! i) (vs ! (i - 1))))"
proof -
  have mn: "f64_eq G_MINDOUBLE G_MINDOUBLE" "f64_true f64_one"
    by (simp_all add: G_MINDOUBLE_def f64_true_def f64_one_def f64_zero_def)
  have "f64_true (edges G_MINDOUBLE vs ! i) =
      (i = 0 \<or> f64_eq (vs ! (i - 1)) G_MINDOUBLE \<or> \<not> f64_eq (vs ! i) (vs ! (i - 1)))"
    if "i < length vs" for i
    using edges_nth [OF that, of G_MINDOUBLE] mn by (auto simp: edge_def)
  with changed_series [OF assms(2,1), of vars n] show ?thesis
    by (intro exI [of _ "edges G_MINDOUBLE vs"]) simp
qed

definition changed_heap :: expr_heap where
  "changed_heap = heap_of [\<lparr>ex_data = EX_REF ''I'', ex_nref = 1\<rparr>,
     \<lparr>ex_data = EX_LITERAL G_MINDOUBLE, ex_nref = 1\<rparr>,
     \<lparr>ex_data = EX_FUNC ''CHANGED'' [0, 1], ex_nref = 1\<rparr>]"

lemma ex_env_in_reads: "list_all2 (\<lambda>E v. \<exists>i. in_read E ''I'' = Some (Ret i) \<and> in_val i = v) (map ex_env_in vs) vs"
  by (induction vs)
    (simp_all add: in_read_def ex_env_in_def tab_lookup_def gh_lookup_def map_input_def
      st_client_init_def pdata_def)

lemma changed_heap_node: "changed_node changed_heap 2 ''I'' G_MINDOUBLE"
  by (simp add: changed_node_def changed_heap_def)

theorem changed_detects_edges_witness:
  "\<exists>rs. eval_series (map ex_env_in [f64_of_int 5, f64_of_int 5, f64_of_int 6]) None (Suc (Suc 0)) 2
       changed_heap = Ret (map EvTrue rs)
     \<and> f64_true (rs ! 0) \<and> \<not> f64_true (rs ! 1) \<and> f64_true (rs ! 2)"
proof -
  let ?vs = "[f64_of_int 5, f64_of_int 5, f64_of_int 6]"
  obtain rs where
    rs: "eval_series (map ex_env_in ?vs) None (Suc (Suc 0)) 2 changed_heap = Ret (map EvTrue rs)"
    and *: "\<forall>i<length ?vs. f64_true (rs ! i) =
       (i = 0 \<or> f64_eq (?vs ! (i - 1)) G_MINDOUBLE \<or> \<not> f64_eq (?vs ! i) (?vs ! (i - 1)))"
    using changed_detects_edges [OF changed_heap_node ex_env_in_reads [of ?vs], of None 0] by blast
  have v: "\<not> f64_eq (f64_of_int 5) G_MINDOUBLE" "f64_eq (f64_of_int 5) (f64_of_int 5)"
    "\<not> f64_eq (f64_of_int 6) (f64_of_int 5)" by code_simp+
  define p q where "p = f64_of_int 5" and "q = f64_of_int 6"
  have "f64_true (rs ! 0) \<and> \<not> f64_true (rs ! 1) \<and> f64_true (rs ! 2)"
    using * [THEN spec, of 0] * [THEN spec, of 1] * [THEN spec, of 2] v
    unfolding p_def [symmetric] q_def [symmetric] by simp
  with rs show ?thesis by blast
qed

text \<open>C14: the first evaluation of \<open>EVAL(e)\<close>, for an \<open>e\<close> that is no literal, either fails as
  \<open>e\<close> fails or ends without a return statement, so that its caller reads an indeterminate
  result and not the value of \<open>e\<close>; from then on the node answers with the value that \<open>e\<close> had
  at that first evaluation, whatever the inputs, outputs and variables become.\<close>

theorem eval_freezes:
  assumes "heap_inv r cand R h" "env_ok E" "vars_owned cand vars R"
    and "eh_cell h self = Some x" "ex_data x = EX_FUNC ''EVAL'' (arg # rest)"
    and "eh_cell h arg = Some y" "\<not> is_literal (ex_data y)" "r self < Suc n"
  shows "(\<exists>e h1. expr_eval E vars n arg h = Ret (EvFalse e, h1)
            \<and> expr_eval E vars (Suc n) self h = Ret (EvFalse e, h1))
     \<or> (\<exists>v h1 h2. expr_eval E vars n arg h = Ret (EvTrue v, h1)
            \<and> expr_eval E vars (Suc n) self h = Ret (ev_noret E, h2)
            \<and> (\<forall>E' vars' m. expr_eval E' vars' (Suc (Suc m)) self h2 = Ret (EvTrue v, h2)))"
proof -
  have k: "r arg < r self" using heap_inv_kid [OF assms(1,4)] by (simp add: assms(5))
  have node: "expr_eval E vars (Suc n) self h =
      ev_then (expr_eval E vars n arg h) (\<lambda>v h1. let (xarg, h2) = expr_new_literal v h1
        in rbind (set_arg0 self xarg h2) (\<lambda>h3.
           rbind (expr_unref n arg h3) (\<lambda>h4. Ret (ev_noret E, h4))))"
    using eval_node_func(5) [OF assms(4,5) refl] assms(6,7)
    by (simp add: eval_func_expr_eval_def pdata_def expr_at_def)
  from expr_eval_safe_aux [OF assms(2,3,1,6), of n] k assms(8) obtain res h1 where
    arg: "expr_eval E vars n arg h = Ret (res, h1)" "heap_inv r cand R h1"
    "frame_above r (Suc (r arg)) h h1" by (auto simp: safe_def)
  show ?thesis
  proof (cases res)
    case (EvFalse e)
    with arg node show ?thesis by (simp add: ev_then_def)
  next
    case (EvTrue v)
    have x1: "eh_cell h1 self = Some x" using arg(3) k assms(4) by (simp add: frame_above_def)
    from eval_swap_frozen [OF arg(2) x1 assms(5), of n v] k assms(8) obtain h3 h4 x' z where
      s: "set_arg0 self (eh_next h1) (snd (expr_new_literal v h1)) = Ret h3"
      "expr_unref n arg h3 = Ret h4" "eh_cell h4 self = Some x'"
      "ex_data x' = EX_FUNC ''EVAL'' (eh_next h1 # rest)"
      "eh_cell h4 (eh_next h1) = Some z" "ex_data z = EX_LITERAL v" by auto
    have "expr_eval E vars (Suc n) self h = Ret (ev_noret E, h4)"
      using node arg(1) EvTrue s(1,2)
      by (simp add: ev_then_def expr_new_literal_def expr_alloc_def)
    with arg(1) EvTrue eval_frozen_again [OF s(3-6)] show ?thesis by blast
  qed
qed

theorem eval_freezes_witness:
  "(\<exists>e h1. expr_eval ex_env ex_vars 4 3 (heap_of ex_nodes) = Ret (EvFalse e, h1)
       \<and> expr_eval ex_env ex_vars (Suc 4) 4 (heap_of ex_nodes) = Ret (EvFalse e, h1))
   \<or> (\<exists>v h1 h2. expr_eval ex_env ex_vars 4 3 (heap_of ex_nodes) = Ret (EvTrue v, h1)
       \<and> expr_eval ex_env ex_vars (Suc 4) 4 (heap_of ex_nodes) = Ret (ev_noret ex_env, h2)
       \<and> (\<forall>E' vars' m. expr_eval E' vars' (Suc (Suc m)) 4 h2 = Ret (EvTrue v, h2)))"
  by (rule eval_freezes [OF ex_heap_inv ex_env_ok])
    (auto simp: vars_owned_def ex_vars_lookup ex_cand_def ex_nodes_def ex_rank_def is_literal_def)

end
