(* ===== verification/Engine.thy ===== *)
theory Engine
  imports ExprFuncs
begin

text \<open>
  \<open>src/engine.c\<close> and \<open>src/var.c\<close>: assignments, label blocks, triggers and variables. A label
  block applies the assignment of its first true condition; a trigger applies all of its
  assignments when its condition is true. Setting a variable emits \<open>changed\<close>, whose handler in
  the core applies the engine again: the handler is the parameter \<open>chg\<close> of this theory, and
  the core closes the recursion.
\<close>

section \<open>State\<close>

record assign =
  as_id :: string
  as_rval :: addr
  as_flag_bit :: guint64

record label_entry =
  le_cond :: addr
  le_ass :: assign

type_synonym label_block = "label_entry list"

record trigger =
  tr_cond :: addr
  tr_ass :: "assign list"

text \<open>
  The callbacks \<open>on_rule_triggered\<close> and \<open>on_trigger_triggered\<close>, NULL or a function of the
  destination and the description, act on the data they are registered with.
\<close>

type_synonym 'd triggered_func = "string \<Rightarrow> string \<Rightarrow> 'd \<Rightarrow> 'd"

record 'd engine =
  en_labels :: "label_block list"
  en_triggers :: "trigger list"
  en_on_rule_triggered :: "'d triggered_func option"
  en_on_trigger_triggered :: "'d triggered_func option"

text \<open>
  What the engine changes: the nodes, the table of variables (\<open>Engine.variables\<close>, a table of
  pointers to objects with one owner), and the clients it sends calls to. \<open>w_data\<close> is the data
  of the callbacks, the core's own state, which the engine only hands to them.
\<close>

record 'd world =
  w_heap :: expr_heap
  w_vars :: var_table
  w_clients :: "nat \<Rightarrow> st_client option"
  w_data :: 'd

text \<open>
  What is fixed while the engine runs: the tables of inputs and outputs, the answers of the
  buses, the indeterminate result of \<open>EVAL\<close>, and the stack left for the expression code.
\<close>

record ctx =
  cx_inputs :: "io_table option"
  cx_outputs :: "io_table option"
  cx_bus :: "nat \<Rightarrow> bus"
  cx_noret :: ev_result
  cx_fuel :: nat

definition w_env :: "ctx \<Rightarrow> 'd world \<Rightarrow> env" where
  "w_env cx w = \<lparr>ev_inputs = cx_inputs cx, ev_outputs = cx_outputs cx,
     ev_clients = w_clients w, ev_noret = cx_noret cx\<rparr>"

definition w_eval :: "ctx \<Rightarrow> addr \<Rightarrow> 'd world \<Rightarrow> (ev_result \<times> 'd world) res" where
  "w_eval cx a w =
     rbind (expr_eval (w_env cx w) (Some (w_vars w)) (cx_fuel cx) a (w_heap w)) (\<lambda>(r, h).
     Ret (r, w\<lparr>w_heap := h\<rparr>))"

text \<open>TRUE with \<open>did_apply\<close>, or FALSE with the error, which an \<open>EVAL\<close> may leave unset.\<close>

datatype ap_result = ApOk bool | ApErr "gerror option"

type_synonym 'd handler = "st_var \<Rightarrow> 'd world \<Rightarrow> 'd world res"

section \<open>Variables\<close>

definition st_var_new :: "string \<Rightarrow> addr \<Rightarrow> expr_heap \<Rightarrow> (st_var \<times> expr_heap) res" where
  "st_var_new name value h =
     rbind (expr_ref value h) (\<lambda>h. Ret (\<lparr>var_name = name, var_value = value\<rparr>, h))"

text \<open>
  \<open>st_var_set_value\<close> on the variable stored under the key \<open>k\<close>. The result is whether the
  expression changed.
\<close>

definition st_var_set_value ::
  "ctx \<Rightarrow> 'd handler \<Rightarrow> string \<Rightarrow> st_var \<Rightarrow> addr \<Rightarrow> 'd world \<Rightarrow> (bool \<times> 'd world) res" where
  "st_var_set_value cx chg k self value w =
     rbind (expr_equal (cx_fuel cx) (var_value self) value (w_heap w)) (\<lambda>same.
     if same then Ret (False, w)
     else rbind (expr_unref (cx_fuel cx) (var_value self) (w_heap w)) (\<lambda>h.
          rbind (expr_ref value h) (\<lambda>h.
          rbind (chg (self\<lparr>var_value := value\<rparr>)
                   (w\<lparr>w_heap := h, w_vars := gh_insert (w_vars w) k (self\<lparr>var_value := value\<rparr>)\<rparr>))
            (\<lambda>w. Ret (True, w)))))"

section \<open>Assignments\<close>

definition assign_new :: "string \<Rightarrow> addr \<Rightarrow> expr_heap \<Rightarrow> (assign \<times> expr_heap) res" where
  "assign_new ident rval h =
     rbind (expr_ref rval h) (\<lambda>h. Ret (\<lparr>as_id = ident, as_rval = rval, as_flag_bit = 0\<rparr>, h))"

definition assign_new_flag ::
  "string \<Rightarrow> guint64 \<Rightarrow> addr \<Rightarrow> expr_heap \<Rightarrow> (assign \<times> expr_heap) res" where
  "assign_new_flag ident fb rval h =
     rbind (assign_new ident rval h) (\<lambda>(a, h). Ret (a\<lparr>as_flag_bit := fb\<rparr>, h))"

definition assign_delete :: "nat \<Rightarrow> assign \<Rightarrow> expr_heap \<Rightarrow> expr_heap res" where
  "assign_delete n self h = expr_unref n (as_rval self) h"

text \<open>A call to the peer that owns a table entry.\<close>

definition send_output ::
  "ctx \<Rightarrow> client_map \<Rightarrow> string \<Rightarrow> f64 \<Rightarrow> guint64 \<Rightarrow> 'd world \<Rightarrow> (bool \<times> 'd world) res" where
  "send_output cx m ident v flags w =
     rbind (deref (w_clients w (cm_client m))) (\<lambda>c.
       let r = st_client_set_output (cx_bus cx (cm_client m)) c ident v flags
       in Ret (fst r, w\<lparr>w_clients := (w_clients w)(cm_client m \<mapsto> snd r)\<rparr>))"

definition send_input ::
  "ctx \<Rightarrow> client_map \<Rightarrow> string \<Rightarrow> f64 \<Rightarrow> guint64 \<Rightarrow> 'd world \<Rightarrow> (bool \<times> 'd world) res" where
  "send_input cx m ident v flags w =
     rbind (deref (w_clients w (cm_client m))) (\<lambda>c.
       let r = st_client_set_input (cx_bus cx (cm_client m)) c ident v flags
       in Ret (fst r, w\<lparr>w_clients := (w_clients w)(cm_client m \<mapsto> snd r)\<rparr>))"

definition new_flag_bits :: "bool \<Rightarrow> guint64 \<Rightarrow> guint64 \<Rightarrow> guint64" where
  "new_flag_bits b flags fb = (if b then flags OR fb else flags AND NOT fb)"

definition assign_apply_flag ::
  "ctx \<Rightarrow> assign \<Rightarrow> 'd world \<Rightarrow> (ap_result \<times> 'd world) res" where
  "assign_apply_flag cx self w =
     (if \<not> st_io_flag_bit_is_usr (as_flag_bit self) then Ret (ApOk False, w)
      else rbind (w_eval cx (as_rval self) w) (\<lambda>(r, w). case r of
        EvFalse e \<Rightarrow> Ret (ApErr e, w)
      | EvTrue v \<Rightarrow>
        (case tab_lookup (cx_outputs cx) (as_id self) of
           Some m \<Rightarrow>
             rbind (map_output (w_env cx w) m) (\<lambda>out.
               let flags = out_flags out;
                   new_flags = new_flag_bits (f64_true v) flags (as_flag_bit self)
               in if new_flags = flags then Ret (ApOk False, w)
                  else rbind (send_output cx m (as_id self) (out_val out) new_flags w) (\<lambda>(ok, w).
                    Ret (if ok then ApOk True
                         else ApErr (Some \<lparr>err_code = ST_ERROR_INVALID_VALUE, err_message =
                           ''error in st_client_set_output (FLAG) for '' @ as_id self\<rparr>), w)))
         | None \<Rightarrow>
        (case tab_lookup (cx_inputs cx) (as_id self) of
           Some m \<Rightarrow>
             rbind (map_input (w_env cx w) m) (\<lambda>inp.
               let flags = in_flags inp;
                   new_flags = new_flag_bits (f64_true v) flags (as_flag_bit self)
               in if new_flags = flags then Ret (ApOk False, w)
                  else rbind (send_input cx m (as_id self) (in_val inp) new_flags w) (\<lambda>(ok, w).
                    Ret (if ok then ApOk True
                         else ApErr (Some \<lparr>err_code = ST_ERROR_INVALID_VALUE, err_message =
                           ''error in st_client_set_input (FLAG) for '' @ as_id self\<rparr>), w)))
         | None \<Rightarrow> Ret (ApErr (Some \<lparr>err_code = ST_ERROR_UNDEFINED_IDENTIFIER, err_message =
             ''FLAG target '' @ as_id self @ '' is not an input or output''\<rparr>), w)))))"

text \<open>
  An output is written only when its value differs and its \<open>MANUAL_OVERRIDE\<close> flag is clear; a
  variable takes over the expression itself.
\<close>

definition assign_apply ::
  "ctx \<Rightarrow> 'd handler \<Rightarrow> assign \<Rightarrow> 'd world \<Rightarrow> (ap_result \<times> 'd world) res" where
  "assign_apply cx chg self w =
     (if as_flag_bit self \<noteq> 0 then assign_apply_flag cx self w
      else case tab_lookup (cx_outputs cx) (as_id self) of
        Some m \<Rightarrow>
          rbind (w_eval cx (as_rval self) w) (\<lambda>(r, w). case r of
            EvFalse e \<Rightarrow> Ret (ApErr e, w)
          | EvTrue v \<Rightarrow>
            rbind (map_output (w_env cx w) m) (\<lambda>out.
              if f64_eq (out_val out) v then Ret (ApOk False, w)
              else if out_flags out AND ST_IO_FLAG_MANUAL_OVERRIDE \<noteq> 0 then Ret (ApOk False, w)
              else rbind (send_output cx m (as_id self) v (out_flags out) w) (\<lambda>(ok, w).
                Ret (if ok then ApOk True
                     else ApErr (Some \<lparr>err_code = ST_ERROR_INVALID_VALUE, err_message =
                       ''error in st_client_set_output with output: '' @ as_id self\<rparr>), w))))
      | None \<Rightarrow>
        (case gh_lookup (w_vars w) (as_id self) of
           Some v \<Rightarrow> rbind (st_var_set_value cx chg (as_id self) v (as_rval self) w) (\<lambda>(changed, w).
             Ret (ApOk changed, w))
         | None \<Rightarrow> Ret (ApErr (Some \<lparr>err_code = ST_ERROR_UNDEFINED_IDENTIFIER, err_message =
             ''cannot lookup identifier '' @ as_id self\<rparr>), w)))"

definition assign_format_conf :: "nat \<Rightarrow> assign \<Rightarrow> expr_heap \<Rightarrow> string res" where
  "assign_format_conf n self h =
     rbind (expr_describe n (as_rval self) h) (\<lambda>es.
     Ret (if as_flag_bit self \<noteq> 0
          then as_id self @ '' FLAG '' @ st_io_flag_bit_name (as_flag_bit self) @ '' = '' @ es
          else as_id self @ '' = '' @ es))"

definition assign_have_ref_to ::
  "nat \<Rightarrow> assign \<Rightarrow> string \<Rightarrow> var_table option \<Rightarrow> expr_heap \<Rightarrow> bool res" where
  "assign_have_ref_to n self ident vars h = expr_have_ref_to n (as_rval self) ident vars h"

section \<open>Label blocks\<close>

definition label_entry_new :: "addr \<Rightarrow> assign \<Rightarrow> expr_heap \<Rightarrow> (label_entry \<times> expr_heap) res" where
  "label_entry_new cond ass h =
     rbind (expr_ref cond h) (\<lambda>h. Ret (\<lparr>le_cond = cond, le_ass = ass\<rparr>, h))"

definition label_entry_delete :: "nat \<Rightarrow> label_entry \<Rightarrow> expr_heap \<Rightarrow> expr_heap res" where
  "label_entry_delete n self h =
     rbind (expr_unref n (le_cond self) h) (\<lambda>h. assign_delete n (le_ass self) h)"

definition label_entry_format_conf :: "nat \<Rightarrow> label_entry \<Rightarrow> expr_heap \<Rightarrow> string res" where
  "label_entry_format_conf n self h =
     rbind (expr_describe n (as_rval (le_ass self)) h) (\<lambda>rs.
     rbind (expr_describe n (le_cond self) h) (\<lambda>cs.
     Ret (''SET '' @ rs @ '' WHEN '' @ cs)))"

definition label_entry_have_ref_to ::
  "nat \<Rightarrow> label_entry \<Rightarrow> string \<Rightarrow> var_table option \<Rightarrow> expr_heap \<Rightarrow> bool res" where
  "label_entry_have_ref_to n self ident vars h =
     rbind (expr_have_ref_to n (le_cond self) ident vars h) (\<lambda>r.
     if r then Ret True else assign_have_ref_to n (le_ass self) ident vars h)"

text \<open>\<open>engine\<close> is NULL for the callers that want no callbacks.\<close>

fun label_block_apply ::
  "ctx \<Rightarrow> 'd handler \<Rightarrow> 'd engine option \<Rightarrow> label_block \<Rightarrow> 'd world
   \<Rightarrow> (gerror option option \<times> 'd world) res" where
  "label_block_apply cx chg eng [] w = Ret (None, w)"
| "label_block_apply cx chg eng (entry # es) w =
     rbind (w_eval cx (le_cond entry) w) (\<lambda>(r, w). case r of
       EvFalse e \<Rightarrow> Ret (Some e, w)
     | EvTrue c \<Rightarrow>
       if f64_true c then
         rbind (assign_apply cx chg (le_ass entry) w) (\<lambda>(ar, w). case ar of
           ApErr e \<Rightarrow> Ret (Some e, w)
         | ApOk did \<Rightarrow>
           (case (if did then Option.bind eng en_on_rule_triggered else None) of
              Some f \<Rightarrow> rbind (label_entry_format_conf (cx_fuel cx) entry (w_heap w)) (\<lambda>s.
                Ret (None, w\<lparr>w_data := f (as_id (le_ass entry)) s (w_data w)\<rparr>))
            | None \<Rightarrow> Ret (None, w)))
       else label_block_apply cx chg eng es w)"

fun label_block_have_ref_to ::
  "nat \<Rightarrow> label_block \<Rightarrow> string \<Rightarrow> var_table option \<Rightarrow> expr_heap \<Rightarrow> bool res" where
  "label_block_have_ref_to n [] ident vars h = Ret False"
| "label_block_have_ref_to n (e # es) ident vars h =
     rbind (label_entry_have_ref_to n e ident vars h) (\<lambda>r.
     if r then Ret True else label_block_have_ref_to n es ident vars h)"

section \<open>Triggers\<close>

definition trigger_new :: "addr \<Rightarrow> assign list \<Rightarrow> expr_heap \<Rightarrow> (trigger \<times> expr_heap) res" where
  "trigger_new cond ass h =
     rbind (expr_ref cond h) (\<lambda>h. Ret (\<lparr>tr_cond = cond, tr_ass = ass\<rparr>, h))"

fun format_confs :: "nat \<Rightarrow> bool \<Rightarrow> assign list \<Rightarrow> expr_heap \<Rightarrow> string res" where
  "format_confs n first [] h = Ret ''''"
| "format_confs n first (a # as) h =
     rbind (assign_format_conf n a h) (\<lambda>s. rbind (format_confs n False as h) (\<lambda>t.
       Ret ((if first then '''' else '', '') @ s @ t)))"

definition trigger_format_conf :: "nat \<Rightarrow> trigger \<Rightarrow> expr_heap \<Rightarrow> string res" where
  "trigger_format_conf n self h =
     rbind (format_confs n True (tr_ass self) h) (\<lambda>as.
     rbind (expr_describe n (tr_cond self) h) (\<lambda>cs.
     Ret (''TRIGGER WHEN '' @ cs @ '' SET '' @ as)))"

text \<open>
  The loop over the assignments of a trigger: a failure is logged and the loop goes on; the
  first error is kept. \<open>conf\<close> is the callback with the description, when it is set.
\<close>

fun trigger_assigns ::
  "ctx \<Rightarrow> 'd handler \<Rightarrow> ('d triggered_func \<times> string) option \<Rightarrow> assign list \<Rightarrow> gerror option option \<Rightarrow> 'd world
   \<Rightarrow> (gerror option option \<times> 'd world) res" where
  "trigger_assigns cx chg conf [] err w = Ret (err, w)"
| "trigger_assigns cx chg conf (a # as) err w =
     rbind (assign_apply cx chg a w) (\<lambda>(r, w). case r of
       ApErr e \<Rightarrow>
         trigger_assigns cx chg conf as
           (case err of None \<Rightarrow> Some e | Some None \<Rightarrow> Some e | Some (Some f) \<Rightarrow> Some (Some f)) w
     | ApOk did \<Rightarrow>
         trigger_assigns cx chg conf as err
           (case conf of
              Some (f, s) \<Rightarrow> if did then w\<lparr>w_data := f (as_id a) s (w_data w)\<rparr> else w
            | None \<Rightarrow> w))"

definition trigger_apply ::
  "ctx \<Rightarrow> 'd handler \<Rightarrow> 'd engine option \<Rightarrow> trigger \<Rightarrow> 'd world
   \<Rightarrow> (gerror option option \<times> 'd world) res" where
  "trigger_apply cx chg eng self w =
     rbind (w_eval cx (tr_cond self) w) (\<lambda>(r, w). case r of
       EvFalse e \<Rightarrow> Ret (Some e, w)
     | EvTrue c \<Rightarrow>
       if f64_true c then
         (case Option.bind eng en_on_trigger_triggered of
            Some f \<Rightarrow> rbind (trigger_format_conf (cx_fuel cx) self (w_heap w)) (\<lambda>s.
              trigger_assigns cx chg (Some (f, s)) (tr_ass self) None w)
          | None \<Rightarrow> trigger_assigns cx chg None (tr_ass self) None w)
       else Ret (None, w))"

definition trigger_have_ref_to ::
  "nat \<Rightarrow> trigger \<Rightarrow> string \<Rightarrow> var_table option \<Rightarrow> expr_heap \<Rightarrow> bool res" where
  "trigger_have_ref_to n self ident vars h =
     rbind (expr_have_ref_to n (tr_cond self) ident vars h) (\<lambda>r.
     if r then Ret True
     else any_ref (\<lambda>a. expr_have_ref_to n a ident vars h) (map as_rval (tr_ass self)))"

section \<open>The engine\<close>

text \<open>
  Each label block, then each trigger, that refers to the changed identifier, or all of them when
  there is none. Errors are logged and dropped.
\<close>

fun apply_labels ::
  "ctx \<Rightarrow> 'd handler \<Rightarrow> 'd engine \<Rightarrow> string option \<Rightarrow> label_block list \<Rightarrow> 'd world \<Rightarrow> 'd world res" where
  "apply_labels cx chg eng ident [] w = Ret w"
| "apply_labels cx chg eng ident (b # bs) w =
     rbind (case ident of None \<Rightarrow> Ret True
            | Some s \<Rightarrow> label_block_have_ref_to (cx_fuel cx) b s (Some (w_vars w)) (w_heap w)) (\<lambda>go.
     rbind (if go then label_block_apply cx chg (Some eng) b w else Ret (None, w)) (\<lambda>(_, w).
     apply_labels cx chg eng ident bs w))"

fun apply_triggers ::
  "ctx \<Rightarrow> 'd handler \<Rightarrow> 'd engine \<Rightarrow> string option \<Rightarrow> trigger list \<Rightarrow> 'd world \<Rightarrow> 'd world res" where
  "apply_triggers cx chg eng ident [] w = Ret w"
| "apply_triggers cx chg eng ident (t # ts) w =
     rbind (case ident of None \<Rightarrow> Ret True
            | Some s \<Rightarrow> trigger_have_ref_to (cx_fuel cx) t s (Some (w_vars w)) (w_heap w)) (\<lambda>go.
     rbind (if go then trigger_apply cx chg (Some eng) t w else Ret (None, w)) (\<lambda>(_, w).
     apply_triggers cx chg eng ident ts w))"

definition engine_apply ::
  "ctx \<Rightarrow> 'd handler \<Rightarrow> 'd engine \<Rightarrow> string option \<Rightarrow> 'd world \<Rightarrow> 'd world res" where
  "engine_apply cx chg eng ident w =
     rbind (apply_labels cx chg eng ident (en_labels eng) w) (\<lambda>w.
     apply_triggers cx chg eng ident (en_triggers eng) w)"

end
