(* ===== verification/EngineSafe.thy ===== *)
theory EngineSafe
  imports Engine
begin

text \<open>
  The engine keeps the ownership of the nodes right. \<open>world_ok\<close> says that the owners of the
  nodes are exactly the conditions and right-hand sides of the rules and the values of the
  variables, that a rank falls along operands and along every variable to every expression a
  rule may assign to it, and that the tables point to existing objects. Given a handler of
  \<open>changed\<close> that keeps \<open>world_ok\<close> or recurses too deep, so does the engine.
\<close>

section \<open>Reference counting and the other functions of the nodes\<close>

lemma heap_inv_ref:
  assumes inv: "heap_inv r cand R h" and x: "eh_cell h a = Some x"
  shows "\<exists>h'. expr_ref a h = Ret h' \<and> heap_inv r cand (add_mset a R) h'"
proof -
  let ?h = "expr_put a (x\<lparr>ex_nref := ex_nref x + 1\<rparr>) h"
  have new: "eh_cell ?h = (eh_cell h)(a \<mapsto> x\<lparr>ex_nref := ex_nref x + 1\<rparr>)" "eh_next ?h = eh_next h"
    by (simp_all add: expr_put_def)
  have refs: "heap_refs {} ?h = heap_refs {} h" using x by (simp add: heap_refs_put)
  have "heap_wf (add_mset a R) {} ?h"
  proof (rule heap_wfI)
    fix b
    show "cell_ok (b \<in> {}) (count (heap_refs {} ?h + add_mset a R) b) (eh_cell ?h b)"
      unfolding refs new using heap_wf_cell [OF heap_inv_wf [OF inv], of b] x
      by (cases "b = a") (auto simp del: count_greater_zero_iff)
    show "eh_next ?h \<le> b \<Longrightarrow> eh_cell ?h b = None"
      using heap_inv_fresh [OF inv, of b] x by (auto simp: new)
  qed simp
  moreover have "shrinks h ?h" using x by (auto simp: shrinks_def new)
  note shrinks_ok [OF this, of r cand]
  ultimately have "heap_inv r cand (add_mset a R) ?h" using inv by (simp add: heap_inv_def)
  moreover have "expr_ref a h = Ret ?h" using x by (simp add: expr_ref_def expr_at_def)
  ultimately show ?thesis by blast
qed

lemma heap_inv_root: "heap_inv r cand R h \<Longrightarrow> a \<in># R \<Longrightarrow> \<exists>x. eh_cell h a = Some x"
  by (rule heap_wf_live [OF heap_inv_wf]) auto

lemma all_equal_total:
  "(\<And>a b. a \<in> set as \<Longrightarrow> b \<in> set bs \<Longrightarrow> \<exists>r. f a b = Ret r) \<Longrightarrow> \<exists>r. all_equal f as bs = Ret r"
proof (induction f as bs rule: all_equal.induct)
  case (1 f a as b bs)
  then obtain q where "f a b = Ret q" by (meson list.set_intros(1))
  moreover obtain t where "all_equal f as bs = Ret t" if q
    using 1(1) [OF \<open>f a b = Ret q\<close>] 1(2) by auto
  ultimately show ?case by (cases q) auto
qed auto

lemma expr_equal_total:
  assumes inv: "heap_inv r cand R h"
  shows "eh_cell h a = Some x \<Longrightarrow> eh_cell h b = Some y \<Longrightarrow> r a < n \<Longrightarrow> \<exists>q. expr_equal n a b h = Ret q"
proof (induction n arbitrary: a b x y)
  case (Suc n)
  have kid: "\<exists>q. expr_equal n c d h = Ret q"
    if "c \<in> set (kids (ex_data x))" "d \<in> set (kids (ex_data y))" for c d
    using heap_inv_kid [OF inv Suc.prems(1) that(1)] heap_inv_kid [OF inv Suc.prems(2) that(2)]
      Suc.IH Suc.prems(3) by fastforce
  show ?case
  proof (cases "ex_data x"; cases "ex_data y")
    fix f l s g k t
    assume e: "ex_data x = EX_OP f l s" "ex_data y = EX_OP g k t"
    with kid [of l k] kid [of s t] obtain p q where
      "expr_equal n l k h = Ret p" "expr_equal n s t h = Ret q" by auto
    with e Suc.prems show ?thesis by (cases p) (auto simp: expr_at_def)
  next
    fix f as g bs
    assume e: "ex_data x = EX_FUNC f as" "ex_data y = EX_FUNC g bs"
    with kid have "\<exists>q. all_equal (\<lambda>p q. expr_equal n p q h) as bs = Ret q"
      by (intro all_equal_total) auto
    with e Suc.prems show ?thesis by (auto simp: expr_at_def)
  qed (use Suc.prems in \<open>auto simp: expr_at_def\<close>)
qed simp

lemma describe_list_total:
  "(\<And>a. a \<in> set as \<Longrightarrow> \<exists>s. f a = Ret s) \<Longrightarrow> \<exists>s. describe_list f first as = Ret s"
proof (induction as arbitrary: first)
  case (Cons a as)
  then obtain s t where "f a = Ret s" "describe_list f False as = Ret t"
    by (meson list.set_intros)
  then show ?case by auto
qed auto

lemma expr_describe_total:
  assumes inv: "heap_inv r cand R h"
  shows "eh_cell h a = Some x \<Longrightarrow> r a < n \<Longrightarrow> \<exists>s. expr_describe n a h = Ret s"
proof (induction n arbitrary: a x)
  case (Suc n)
  have kid: "\<exists>s. expr_describe n b h = Ret s" if "b \<in> set (kids (ex_data x))" for b
    using heap_inv_kid [OF inv Suc.prems(1) that] Suc.IH Suc.prems(2) by fastforce
  show ?case
  proof (cases "ex_data x")
    case (EX_OP op l t)
    with kid [of l] kid [of t] obtain p q where
      "expr_describe n l h = Ret p" "expr_describe n t h = Ret q" by auto
    with EX_OP Suc.prems show ?thesis by (auto simp: expr_at_def)
  next
    case (EX_FUNC f as)
    with kid have "\<exists>s. describe_list (\<lambda>b. expr_describe n b h) True as = Ret s"
      by (intro describe_list_total) auto
    with EX_FUNC Suc.prems show ?thesis by (auto simp: expr_at_def)
  qed (use Suc.prems in \<open>auto simp: expr_at_def\<close>)
qed simp

section \<open>The invariant of the engine\<close>

definition entry_assigns :: "'d engine \<Rightarrow> assign list" where
  "entry_assigns eng = map le_ass (concat (en_labels eng)) @ concat (map tr_ass (en_triggers eng))"

definition rule_nodes :: "'d engine \<Rightarrow> addr list" where
  "rule_nodes eng = map le_cond (concat (en_labels eng)) @ map tr_cond (en_triggers eng)
     @ map as_rval (entry_assigns eng)"

definition owners :: "'d engine \<Rightarrow> var_table \<Rightarrow> addr multiset" where
  "owners eng vars = mset (rule_nodes eng) + mset (map (var_value \<circ> snd) vars)"

definition rules_acyclic :: "(string \<Rightarrow> addr \<Rightarrow> bool) \<Rightarrow> 'd engine \<Rightarrow> bool" where
  "rules_acyclic cand eng \<longleftrightarrow>
     (\<forall>a\<in>set (entry_assigns eng). as_flag_bit a = 0 \<longrightarrow> cand (as_id a) (as_rval a))"

definition table_ok :: "ctx \<Rightarrow> (nat \<Rightarrow> st_client option) \<Rightarrow> bool" where
  "table_ok cx C \<longleftrightarrow>
     (\<forall>s m. tab_lookup (cx_inputs cx) s = Some m \<longrightarrow>
        (\<exists>c. C (cm_client m) = Some c \<and> cm_index m < length (cl_inputs c))) \<and>
     (\<forall>s m. tab_lookup (cx_outputs cx) s = Some m \<longrightarrow>
        (\<exists>c. C (cm_client m) = Some c \<and> cm_index m < length (cl_outputs c)))"

definition world_ok ::
  "(addr \<Rightarrow> nat) \<Rightarrow> (string \<Rightarrow> addr \<Rightarrow> bool) \<Rightarrow> ctx \<Rightarrow> 'd engine \<Rightarrow> 'd world \<Rightarrow> bool" where
  "world_ok r cand cx eng w \<longleftrightarrow>
     heap_inv r cand (owners eng (w_vars w)) (w_heap w) \<and>
     (\<forall>s v. gh_lookup (w_vars w) s = Some v \<longrightarrow> cand s (var_value v)) \<and>
     gh_wf (w_vars w) \<and> table_ok cx (w_clients w)"

lemma world_inv: "world_ok r cand cx eng w \<Longrightarrow> heap_inv r cand (owners eng (w_vars w)) (w_heap w)"
  by (simp add: world_ok_def)

lemma var_owned: "gh_lookup vars s = Some v \<Longrightarrow> var_value v \<in># owners eng vars"
  by (force simp: owners_def dest: gh_lookup_in_set)

lemma world_vars: "world_ok r cand cx eng w \<Longrightarrow> vars_owned cand (Some (w_vars w)) (owners eng (w_vars w))"
  by (auto simp: world_ok_def vars_owned_def tab_lookup_def var_owned)

lemma table_env_ok: "table_ok cx (w_clients w) \<Longrightarrow> env_ok (w_env cx w)"
  unfolding table_ok_def env_ok_def w_env_def map_input_def map_output_def
  by (fastforce simp: pdata_def)

lemma rule_node_owned: "a \<in> set (rule_nodes eng) \<Longrightarrow> a \<in># owners eng vars"
  by (simp add: owners_def)

text \<open>Replacing the value of a variable replaces one owner.\<close>

lemma vars_insert_mset:
  "gh_lookup vars k = Some v \<Longrightarrow>
   add_mset (f v) (mset (map (f \<circ> snd) (gh_insert vars k v'))) = add_mset (f v') (mset (map (f \<circ> snd) vars))"
  by (induction vars) (auto simp: gh_lookup_def split: if_splits)

lemma owners_insert:
  "gh_lookup vars k = Some v \<Longrightarrow>
   add_mset (var_value v) (owners eng (gh_insert vars k v')) = add_mset (var_value v') (owners eng vars)"
  unfolding owners_def using vars_insert_mset [of vars k v var_value v'] by simp

section \<open>Results of the engine\<close>

text \<open>Either the stack is exhausted, or the code returns with the invariant.\<close>

definition fine :: "('a \<Rightarrow> bool) \<Rightarrow> 'a res \<Rightarrow> bool" where
  "fine P m \<longleftrightarrow> m = Fuel \<or> (\<exists>x. m = Ret x \<and> P x)"

named_theorems fine_intros \<open>composition of results that keep the invariant\<close>

lemma fine_Ret [fine_intros]: "P x \<Longrightarrow> fine P (Ret x)"
  by (simp add: fine_def)

lemma fine_bind [fine_intros]: "fine Q m \<Longrightarrow> (\<And>x. Q x \<Longrightarrow> fine P (f x)) \<Longrightarrow> fine P (rbind m f)"
  unfolding fine_def by (elim disjE exE conjE) simp_all

lemma fine_bind_total: "\<exists>x. m = Ret x \<Longrightarrow> (\<And>x. m = Ret x \<Longrightarrow> fine P (f x)) \<Longrightarrow> fine P (rbind m f)"
  by auto

lemma fine_not_Ub: "fine P m \<Longrightarrow> m \<noteq> Ub \<and> m \<noteq> Abort"
  by (auto simp: fine_def)

abbreviation fine_world where
  "fine_world r cand cx eng \<equiv> fine (\<lambda>p. world_ok r cand cx eng (snd p))"

definition handler_ok where
  "handler_ok r cand cx eng chg \<longleftrightarrow>
     (\<forall>k v w. world_ok r cand cx eng w \<longrightarrow> gh_lookup (w_vars w) k = Some v \<longrightarrow>
        fine (world_ok r cand cx eng) (chg v w))"

definition fuel_ok :: "(addr \<Rightarrow> nat) \<Rightarrow> ctx \<Rightarrow> bool" where
  "fuel_ok r cx \<longleftrightarrow> (\<forall>a. r a < cx_fuel cx)"

lemma eval_fine_owned:
  assumes "world_ok r cand cx eng w" "fuel_ok r cx" "a \<in># owners eng (w_vars w)"
  shows "fine_world r cand cx eng (w_eval cx a w)"
proof -
  note inv = world_inv [OF assms(1)]
  from heap_inv_root [OF inv assms(3)] obtain x where
    x: "eh_cell (w_heap w) a = Some x" by blast
  have "r a < cx_fuel cx" using assms(2) by (simp add: fuel_ok_def)
  moreover have "env_ok (w_env cx w)" using assms(1) by (simp add: world_ok_def table_env_ok)
  ultimately obtain res h where "expr_eval (w_env cx w) (Some (w_vars w)) (cx_fuel cx) a (w_heap w) = Ret (res, h)"
    "heap_inv r cand (owners eng (w_vars w)) h"
    using expr_eval_safe_aux [OF _ world_vars [OF assms(1)] inv x] unfolding safe_def by blast
  with assms(1) show ?thesis by (simp add: w_eval_def fine_def world_ok_def)
qed

lemma eval_fine:
  "world_ok r cand cx eng w \<Longrightarrow> fuel_ok r cx \<Longrightarrow> a \<in> set (rule_nodes eng) \<Longrightarrow>
   fine_world r cand cx eng (w_eval cx a w)"
  by (rule eval_fine_owned) (auto intro: rule_node_owned)

lemma send_fine:
  assumes "world_ok r cand cx eng w" "\<exists>s. tab_lookup (cx_outputs cx) s = Some m \<or> tab_lookup (cx_inputs cx) s = Some m"
  shows "fine_world r cand cx eng (send_output cx m i v f w)"
    and "fine_world r cand cx eng (send_input cx m i v f w)"
proof -
  from assms obtain c where c: "w_clients w (cm_client m) = Some c"
    unfolding world_ok_def table_ok_def by blast
  have same: "cl_inputs (snd (snd (call_set_io_method bus call c))) = cl_inputs c
      \<and> cl_outputs (snd (snd (call_set_io_method bus call c))) = cl_outputs c" for bus call
    by (auto simp: call_set_io_method_def call_sync_def split: sum.split variant.split)
  have t: "table_ok cx ((w_clients w)(cm_client m \<mapsto> c'))"
    if "cl_inputs c' = cl_inputs c" "cl_outputs c' = cl_outputs c" for c'
    using assms(1) c that unfolding world_ok_def table_ok_def by (auto 4 3)
  show "fine_world r cand cx eng (send_output cx m i v f w)"
    "fine_world r cand cx eng (send_input cx m i v f w)"
    using assms(1) c t same
    by (simp_all add: fine_def send_output_def send_input_def st_client_set_output_def
        st_client_set_input_def Let_def world_ok_def)
qed

lemma send_output_fine:
  "world_ok r cand cx eng w \<Longrightarrow> tab_lookup (cx_outputs cx) s = Some m \<Longrightarrow>
   fine_world r cand cx eng (send_output cx m i v f w)"
  by (rule send_fine) auto

lemma send_input_fine:
  "world_ok r cand cx eng w \<Longrightarrow> tab_lookup (cx_inputs cx) s = Some m \<Longrightarrow>
   fine_world r cand cx eng (send_input cx m i v f w)"
  by (rule send_fine) auto

lemma var_set_fine:
  assumes ok: "world_ok r cand cx eng w" and fuel: "fuel_ok r cx" and chg: "handler_ok r cand cx eng chg"
    and v: "gh_lookup (w_vars w) k = Some v" and a: "a \<in> set (rule_nodes eng)" "cand k a"
  shows "fine_world r cand cx eng (st_var_set_value cx chg k v a w)"
proof -
  note inv = world_inv [OF ok]
  let ?R = "owners eng (w_vars w)"
  obtain x y where x: "eh_cell (w_heap w) (var_value v) = Some x" and y: "eh_cell (w_heap w) a = Some y"
    using heap_inv_root [OF inv var_owned [OF v]] heap_inv_root [OF inv rule_node_owned [OF a(1)]] by blast
  have n: "r (var_value v) < cx_fuel cx" using fuel by (simp add: fuel_ok_def)
  obtain q where q: "expr_equal (cx_fuel cx) (var_value v) a (w_heap w) = Ret q"
    using expr_equal_total [OF inv x y n] by blast
  show ?thesis
  proof (cases q)
    case True
    with q ok show ?thesis by (simp add: st_var_set_value_def fine_def)
  next
    case False
    define R' where "R' = ?R - {#var_value v#}"
    have R: "?R = add_mset (var_value v) R'" using var_owned [OF v, of eng] by (simp add: R'_def)
    from heap_inv_unref [OF inv [unfolded R] n] obtain h1 where
      h1: "expr_unref (cx_fuel cx) (var_value v) (w_heap w) = Ret h1" "heap_inv r cand R' h1" by blast
    have "a \<noteq> var_value v" using q False n by (cases "cx_fuel cx") auto
    with rule_node_owned [OF a(1), where vars = "w_vars w"] have "a \<in># R'" by (simp add: R)
    from heap_inv_root [OF h1(2) this] obtain z where z: "eh_cell h1 a = Some z" by blast
    from heap_inv_ref [OF h1(2) z] obtain h2 where
      h2: "expr_ref a h1 = Ret h2" "heap_inv r cand (add_mset a R') h2" by blast
    let ?w = "w\<lparr>w_heap := h2, w_vars := gh_insert (w_vars w) k (v\<lparr>var_value := a\<rparr>)\<rparr>"
    have "owners eng (w_vars ?w) = add_mset a R'"
      using owners_insert [OF v, of eng "v\<lparr>var_value := a\<rparr>"] R by simp
    then have "world_ok r cand cx eng ?w"
      using ok h2(2) a(2) unfolding world_ok_def by (auto simp: gh_lookup_insert gh_wf_insert)
    moreover have "gh_lookup (w_vars ?w) k = Some (v\<lparr>var_value := a\<rparr>)" by simp
    ultimately have "fine (world_ok r cand cx eng) (chg (v\<lparr>var_value := a\<rparr>) ?w)"
      using chg unfolding handler_ok_def by blast
    then show ?thesis
      using q False h1(1) h2(1) by (auto simp: st_var_set_value_def fine_def)
  qed
qed

lemma fine_pair:
  assumes "fine (\<lambda>p. P (snd p)) m" "\<And>a w. P w \<Longrightarrow> fine Q (f a w)"
  shows "fine Q (rbind m (\<lambda>(a, w). f a w))"
proof (cases "m = Fuel")
  case False
  with assms(1) obtain a w where "m = Ret (a, w)" "P w" by (auto simp: fine_def)
  with assms(2) show ?thesis by simp
qed (simp add: fine_def)

lemma world_out:
  "world_ok r cand cx eng w \<Longrightarrow> tab_lookup (cx_outputs cx) s = Some m \<Longrightarrow> \<exists>i. map_output (w_env cx w) m = Ret i"
  using table_env_ok [of cx w] unfolding world_ok_def env_ok_def by (auto simp: w_env_def)

lemma world_in:
  "world_ok r cand cx eng w \<Longrightarrow> tab_lookup (cx_inputs cx) s = Some m \<Longrightarrow> \<exists>i. map_input (w_env cx w) m = Ret i"
  using table_env_ok [of cx w] unfolding world_ok_def env_ok_def by (auto simp: w_env_def)

lemma assign_flag_fine:
  assumes ok: "world_ok r cand cx eng w" and fuel: "fuel_ok r cx" and a: "a \<in> set (entry_assigns eng)"
  shows "fine_world r cand cx eng (assign_apply_flag cx a w)"
proof -
  have node: "as_rval a \<in> set (rule_nodes eng)" using a by (simp add: rule_nodes_def)
  show ?thesis
    unfolding assign_apply_flag_def
    by (auto intro!: fine_pair [OF eval_fine [OF ok fuel node]] fine_pair [OF send_output_fine]
        fine_pair [OF send_input_fine] fine_bind_total [OF world_out] fine_bind_total [OF world_in]
        fine_Ret
        simp: ok Let_def split: ev_result.split option.split)
qed

lemma assign_fine:
  assumes ok: "world_ok r cand cx eng w" and fuel: "fuel_ok r cx" and acyc: "rules_acyclic cand eng"
    and chg: "handler_ok r cand cx eng chg" and a: "a \<in> set (entry_assigns eng)"
  shows "fine_world r cand cx eng (assign_apply cx chg a w)"
proof -
  have node: "as_rval a \<in> set (rule_nodes eng)" using a by (simp add: rule_nodes_def)
  have c: "as_flag_bit a = 0 \<Longrightarrow> cand (as_id a) (as_rval a)" using acyc a by (simp add: rules_acyclic_def)
  show ?thesis
    unfolding assign_apply_def
    by (auto intro!: fine_pair [OF eval_fine [OF ok fuel node]] fine_pair [OF send_output_fine]
        fine_pair [OF var_set_fine [OF ok fuel chg _ node c]] fine_bind_total [OF world_out] fine_Ret
        assign_flag_fine [OF ok fuel a] simp: ok Let_def split: ev_result.split option.split)
qed

lemma format_confs_total:
  "(\<And>a. a \<in> set as \<Longrightarrow> \<exists>s. assign_format_conf n a h = Ret s) \<Longrightarrow> \<exists>s. format_confs n first as h = Ret s"
proof (induction as arbitrary: first)
  case (Cons a as)
  then obtain s t where "assign_format_conf n a h = Ret s" "format_confs n False as h = Ret t"
    by (meson list.set_intros)
  then show ?case by auto
qed auto

lemma world_describe:
  assumes "world_ok r cand cx eng w" "fuel_ok r cx" "a \<in> set (rule_nodes eng)"
  shows "\<exists>s. expr_describe (cx_fuel cx) a (w_heap w) = Ret s"
  using heap_inv_root [OF world_inv [OF assms(1)] rule_node_owned [OF assms(3)]] assms(2)
    expr_describe_total [OF world_inv [OF assms(1)]] by (auto simp: fuel_ok_def)

lemma world_have_ref:
  assumes "world_ok r cand cx eng w" "fuel_ok r cx" "a \<in> set (rule_nodes eng)"
  shows "\<exists>s. expr_have_ref_to (cx_fuel cx) a ident (Some (w_vars w)) (w_heap w) = Ret s"
  using heap_inv_root [OF world_inv [OF assms(1)] rule_node_owned [OF assms(3)]] assms(2)
    have_ref_total [OF world_inv [OF assms(1)] world_vars [OF assms(1)]] by (auto simp: fuel_ok_def)

lemma world_data_ok [simp]: "world_ok r cand cx eng (w\<lparr>w_data := l\<rparr>) = world_ok r cand cx eng w"
  by (simp add: world_ok_def)

lemma label_entry_nodes:
  assumes "b \<in> set (en_labels eng)" "e \<in> set b"
  shows "le_cond e \<in> set (rule_nodes eng)" "le_ass e \<in> set (entry_assigns eng)"
    "as_rval (le_ass e) \<in> set (rule_nodes eng)"
  using assms by (auto simp: rule_nodes_def entry_assigns_def)

lemma trigger_nodes:
  assumes "t \<in> set (en_triggers eng)"
  shows "tr_cond t \<in> set (rule_nodes eng)" "set (tr_ass t) \<subseteq> set (entry_assigns eng)"
    "as_rval ` set (tr_ass t) \<subseteq> set (rule_nodes eng)"
  using assms by (auto simp: rule_nodes_def entry_assigns_def)

lemma label_block_fine:
  assumes fuel: "fuel_ok r cx" and acyc: "rules_acyclic cand eng" and chg: "handler_ok r cand cx eng chg"
    and sub: "\<forall>e\<in>set es. le_cond e \<in> set (rule_nodes eng) \<and> le_ass e \<in> set (entry_assigns eng)"
  shows "world_ok r cand cx eng w \<Longrightarrow> fine_world r cand cx eng (label_block_apply cx chg opt es w)"
  using sub
proof (induction es arbitrary: w)
  case (Cons e es)
  then have n: "le_cond e \<in> set (rule_nodes eng)" "le_ass e \<in> set (entry_assigns eng)" by auto
  then have n': "as_rval (le_ass e) \<in> set (rule_nodes eng)" by (simp add: rule_nodes_def)
  have fmt: "\<exists>s. label_entry_format_conf (cx_fuel cx) e (w_heap w) = Ret s"
    if ok: "world_ok r cand cx eng w" for w
    using world_describe [OF ok fuel n(1)] world_describe [OF ok fuel n']
    by (auto simp: label_entry_format_conf_def)
  have rest: "fine_world r cand cx eng (label_block_apply cx chg opt es w)" if "world_ok r cand cx eng w" for w
    using Cons.IH [OF that] Cons.prems(2) by simp
  show ?case
    unfolding label_block_apply.simps
    by (auto intro!: fine_pair [OF eval_fine [OF Cons.prems(1) fuel n(1)]] rest
        fine_pair [OF assign_fine [OF _ fuel acyc chg n(2)]] fine_bind_total [OF fmt] fine_Ret
        split: ev_result.split ap_result.split option.split)
qed (simp add: fine_def)

lemma trigger_assigns_fine:
  assumes fuel: "fuel_ok r cx" and acyc: "rules_acyclic cand eng" and chg: "handler_ok r cand cx eng chg"
    and sub: "set as \<subseteq> set (entry_assigns eng)"
  shows "world_ok r cand cx eng w \<Longrightarrow> fine_world r cand cx eng (trigger_assigns cx chg conf as err w)"
  using sub
proof (induction as arbitrary: w err)
  case (Cons a as)
  then show ?case
    unfolding trigger_assigns.simps
    by (intro fine_pair [OF assign_fine [OF _ fuel acyc chg]])
      (auto intro!: Cons.IH split: ap_result.split option.split)
qed (simp add: fine_def)

lemma trigger_fine:
  assumes ok: "world_ok r cand cx eng w" and fuel: "fuel_ok r cx" and acyc: "rules_acyclic cand eng"
    and chg: "handler_ok r cand cx eng chg" and t: "t \<in> set (en_triggers eng)"
  shows "fine_world r cand cx eng (trigger_apply cx chg opt t w)"
proof -
  note n = trigger_nodes [OF t]
  have fmt: "\<exists>s. trigger_format_conf (cx_fuel cx) t (w_heap w) = Ret s"
    if ok: "world_ok r cand cx eng w" for w
  proof -
    have "\<exists>s. assign_format_conf (cx_fuel cx) a (w_heap w) = Ret s" if "a \<in> set (tr_ass t)" for a
      using world_describe [OF ok fuel, of "as_rval a"] n(3) that by (auto simp: assign_format_conf_def)
    then obtain s where "format_confs (cx_fuel cx) True (tr_ass t) (w_heap w) = Ret s"
      using format_confs_total by blast
    with world_describe [OF ok fuel n(1)] show ?thesis by (auto simp: trigger_format_conf_def)
  qed
  show ?thesis
    unfolding trigger_apply_def
    by (auto intro!: fine_pair [OF eval_fine [OF ok fuel n(1)]] fine_bind_total [OF fmt] fine_Ret
        trigger_assigns_fine [OF fuel acyc chg n(2)] split: ev_result.split option.split)
qed

lemma label_refs_total:
  assumes ok: "world_ok r cand cx eng w" and fuel: "fuel_ok r cx"
  shows "\<forall>e\<in>set es. le_cond e \<in> set (rule_nodes eng) \<and> le_ass e \<in> set (entry_assigns eng) \<Longrightarrow>
    \<exists>q. label_block_have_ref_to (cx_fuel cx) es s (Some (w_vars w)) (w_heap w) = Ret q"
proof (induction es)
  case (Cons e es)
  then have n: "le_cond e \<in> set (rule_nodes eng)" "as_rval (le_ass e) \<in> set (rule_nodes eng)"
    by (auto simp: rule_nodes_def)
  from world_have_ref [OF ok fuel n(1)] world_have_ref [OF ok fuel n(2)] Cons
  obtain p q t where "expr_have_ref_to (cx_fuel cx) (le_cond e) s (Some (w_vars w)) (w_heap w) = Ret p"
    "expr_have_ref_to (cx_fuel cx) (as_rval (le_ass e)) s (Some (w_vars w)) (w_heap w) = Ret q"
    "label_block_have_ref_to (cx_fuel cx) es s (Some (w_vars w)) (w_heap w) = Ret t"
    by (metis list.set_intros(2))
  then show ?case by (cases p; cases q) (auto simp: label_entry_have_ref_to_def assign_have_ref_to_def)
qed auto

lemma trigger_refs_total:
  assumes ok: "world_ok r cand cx eng w" and fuel: "fuel_ok r cx" and t: "t \<in> set (en_triggers eng)"
  shows "\<exists>q. trigger_have_ref_to (cx_fuel cx) t s (Some (w_vars w)) (w_heap w) = Ret q"
proof -
  note n = trigger_nodes [OF t]
  obtain p where p: "expr_have_ref_to (cx_fuel cx) (tr_cond t) s (Some (w_vars w)) (w_heap w) = Ret p"
    using world_have_ref [OF ok fuel n(1)] by blast
  moreover have "\<exists>q. any_ref (\<lambda>a. expr_have_ref_to (cx_fuel cx) a s (Some (w_vars w)) (w_heap w))
      (map as_rval (tr_ass t)) = Ret q"
    by (rule any_ref_total, rule world_have_ref [OF ok fuel]) (use n(3) in auto)
  then obtain q where "any_ref (\<lambda>a. expr_have_ref_to (cx_fuel cx) a s (Some (w_vars w)) (w_heap w))
      (map as_rval (tr_ass t)) = Ret q" by blast
  ultimately show ?thesis by (cases p) (auto simp: trigger_have_ref_to_def)
qed

lemma engine_fine:
  assumes ok: "world_ok r cand cx eng w" and fuel: "fuel_ok r cx" and acyc: "rules_acyclic cand eng"
    and chg: "handler_ok r cand cx eng chg"
  shows "fine (world_ok r cand cx eng) (engine_apply cx chg eng ident w)"
proof -
  have labels: "fine (world_ok r cand cx eng) (apply_labels cx chg eng ident bs w)"
    if "world_ok r cand cx eng w" "set bs \<subseteq> set (en_labels eng)" for bs w
    using that
  proof (induction bs arbitrary: w)
    case (Cons b bs)
    have sub: "\<forall>e\<in>set b. le_cond e \<in> set (rule_nodes eng) \<and> le_ass e \<in> set (entry_assigns eng)"
      using Cons.prems(2) label_entry_nodes [of b eng] by auto
    have go: "\<exists>q. (case ident of None \<Rightarrow> Ret True
        | Some s \<Rightarrow> label_block_have_ref_to (cx_fuel cx) b s (Some (w_vars w)) (w_heap w)) = Ret q"
      using label_refs_total [OF Cons.prems(1) fuel sub] by (auto split: option.split)
    show ?case
      unfolding apply_labels.simps
      using Cons.IH Cons.prems label_block_fine [OF fuel acyc chg sub Cons.prems(1)]
      by (intro fine_bind_total [OF go] fine_pair [where P = "world_ok r cand cx eng"])
        (auto intro: fine_Ret)
  qed (simp add: fine_def)
  have triggers: "fine (world_ok r cand cx eng) (apply_triggers cx chg eng ident ts w)"
    if "world_ok r cand cx eng w" "set ts \<subseteq> set (en_triggers eng)" for ts w
    using that
  proof (induction ts arbitrary: w)
    case (Cons t ts)
    then have t: "t \<in> set (en_triggers eng)" by simp
    have go: "\<exists>q. (case ident of None \<Rightarrow> Ret True
        | Some s \<Rightarrow> trigger_have_ref_to (cx_fuel cx) t s (Some (w_vars w)) (w_heap w)) = Ret q"
      using trigger_refs_total [OF Cons.prems(1) fuel t] by (auto split: option.split)
    show ?case
      unfolding apply_triggers.simps
      using Cons.IH Cons.prems trigger_fine [OF Cons.prems(1) fuel acyc chg t]
      by (intro fine_bind_total [OF go] fine_pair [where P = "world_ok r cand cx eng"])
        (auto intro: fine_Ret)
  qed (simp add: fine_def)
  show ?thesis
    unfolding engine_apply_def
    by (rule fine_bind [OF labels [OF ok order_refl]]) (rule triggers [OF _ order_refl])
qed

end
