(* ===== verification/EngineCalls.thy ===== *)
theory EngineCalls
  imports EngineSafe
begin

text \<open>
  What the engine may send to the peers. A call that sets a value goes to an output whose value
  differs and whose \<open>MANUAL_OVERRIDE\<close> flag is clear and repeats the flags; a call that sets a
  flag repeats the value and changes one of the four user flags. The mirrored objects
  themselves change only by the peers' signals.
\<close>

section \<open>Calls\<close>

definition legit_output :: "st_output \<Rightarrow> f64 \<Rightarrow> guint64 \<Rightarrow> bool" where
  "legit_output out v f \<longleftrightarrow>
     (f = out_flags out \<and> out_flags out AND ST_IO_FLAG_MANUAL_OVERRIDE = 0 \<and> \<not> f64_eq (out_val out) v)
   \<or> (v = out_val out \<and> f \<noteq> out_flags out
      \<and> (\<exists>b fb. st_io_flag_bit_is_usr fb \<and> f = new_flag_bits b (out_flags out) fb))"

definition legit_input :: "st_input \<Rightarrow> f64 \<Rightarrow> guint64 \<Rightarrow> bool" where
  "legit_input inp v f \<longleftrightarrow> v = in_val inp \<and> f \<noteq> in_flags inp
      \<and> (\<exists>b fb. st_io_flag_bit_is_usr fb \<and> f = new_flag_bits b (in_flags inp) fb)"

lemma legit_output_value:
  "out_flags out AND ST_IO_FLAG_MANUAL_OVERRIDE = 0 \<Longrightarrow> \<not> f64_eq (out_val out) v \<Longrightarrow>
   legit_output out v (out_flags out)"
  by (simp add: legit_output_def)

lemma legit_output_flag:
  "st_io_flag_bit_is_usr fb \<Longrightarrow> new_flag_bits b (out_flags out) fb \<noteq> out_flags out \<Longrightarrow>
   legit_output out (out_val out) (new_flag_bits b (out_flags out) fb)"
  unfolding legit_output_def by blast

lemma legit_input_flag:
  "st_io_flag_bit_is_usr fb \<Longrightarrow> new_flag_bits b (in_flags inp) fb \<noteq> in_flags inp \<Longrightarrow>
   legit_input inp (in_val inp) (new_flag_bits b (in_flags inp) fb)"
  unfolding legit_input_def by blast

definition legit_call :: "ctx \<Rightarrow> nat \<Rightarrow> st_client \<Rightarrow> bus_call \<Rightarrow> bool" where
  "legit_call cx n c call =
     (case call of
        CallSetOutput s v f \<Rightarrow> (\<exists>m. tab_lookup (cx_outputs cx) s = Some m \<and> cm_client m = n
          \<and> cm_index m < length (cl_outputs c) \<and> legit_output (cl_outputs c ! cm_index m) v f)
      | CallSetInput s v f \<Rightarrow> (\<exists>m. tab_lookup (cx_inputs cx) s = Some m \<and> cm_client m = n
          \<and> cm_index m < length (cl_inputs c) \<and> legit_input (cl_inputs c ! cm_index m) v f)
      | _ \<Rightarrow> False)"

definition legit_client :: "ctx \<Rightarrow> nat \<Rightarrow> st_client option \<Rightarrow> st_client option \<Rightarrow> bool" where
  "legit_client cx n o1 o2 =
     (case o1 of None \<Rightarrow> o2 = None
      | Some c \<Rightarrow> (\<exists>cs. o2 = Some (c\<lparr>cl_calls := cl_calls c @ cs\<rparr>) \<and> list_all (legit_call cx n c) cs))"

definition legit :: "ctx \<Rightarrow> (nat \<Rightarrow> st_client option) \<Rightarrow> (nat \<Rightarrow> st_client option) \<Rightarrow> bool" where
  "legit cx C C' \<longleftrightarrow> (\<forall>n. legit_client cx n (C n) (C' n))"

lemma legit_client_refl [simp]: "legit_client cx n o1 o1"
  by (cases o1) (auto simp: legit_client_def intro!: exI [of _ "[]"])

lemma legit_refl [simp]: "legit cx C C"
  by (simp add: legit_def)

lemma legit_call_calls [simp]: "legit_call cx n (c\<lparr>cl_calls := l\<rparr>) = legit_call cx n c"
  by (simp add: legit_call_def fun_eq_iff split: bus_call.split)

lemma legit_client_trans:
  assumes "legit_client cx n o1 o2" "legit_client cx n o2 o3"
  shows "legit_client cx n o1 o3"
proof (cases o1)
  case (Some c)
  with assms(1) obtain cs where cs: "o2 = Some (c\<lparr>cl_calls := cl_calls c @ cs\<rparr>)"
    "list_all (legit_call cx n c) cs" by (auto simp: legit_client_def)
  with assms(2) obtain ds where "o3 = Some (c\<lparr>cl_calls := cl_calls c @ cs @ ds\<rparr>)"
    "list_all (legit_call cx n c) ds" by (auto simp: legit_client_def)
  with cs(2) Some show ?thesis by (auto simp: legit_client_def intro!: exI [of _ "cs @ ds"])
qed (use assms in \<open>auto simp: legit_client_def\<close>)

lemma legit_trans: "legit cx C C' \<Longrightarrow> legit cx C' C'' \<Longrightarrow> legit cx C C''"
  unfolding legit_def by (blast intro: legit_client_trans)

lemma legit_add:
  "C n = Some c \<Longrightarrow> list_all (legit_call cx n c) cs \<Longrightarrow>
   legit cx C (C(n \<mapsto> c\<lparr>cl_calls := cl_calls c @ cs\<rparr>))"
  unfolding legit_def by (auto simp: legit_client_def [of cx n])

lemma set_io_calls:
  "snd (snd (call_set_io_method bus call c)) = c\<lparr>cl_calls := cl_calls c @ (if cl_connection c then [call] else [])\<rparr>"
  by (simp add: call_set_io_method_def call_sync_def split: sum.split variant.split)

section \<open>Relations that every run of the engine keeps\<close>

text \<open>
  A preorder on worlds that holds across an evaluation, a change of the variables, a legitimate
  call, the handler of \<open>changed\<close> and the callbacks holds across a run of the engine.
\<close>

lemma map_output_reads:
  "map_output (w_env cx w) m = Ret out \<Longrightarrow> \<exists>c. w_clients w (cm_client m) = Some c
     \<and> cm_index m < length (cl_outputs c) \<and> out = cl_outputs c ! cm_index m"
  by (auto simp: map_output_def w_env_def)

lemma map_input_reads:
  "map_input (w_env cx w) m = Ret inp \<Longrightarrow> \<exists>c. w_clients w (cm_client m) = Some c
     \<and> cm_index m < length (cl_inputs c) \<and> inp = cl_inputs c ! cm_index m"
  by (auto simp: map_input_def w_env_def)

lemma w_eval_clients: "w_eval cx a w = Ret (r, w') \<Longrightarrow> w_clients w' = w_clients w"
  by (auto simp: w_eval_def)

locale run_relation =
  fixes cx :: ctx and eng :: "'d engine" and Q :: "'d world \<Rightarrow> 'd world \<Rightarrow> bool"
  assumes Q_refl: "Q w w"
    and Q_trans: "Q w w' \<Longrightarrow> Q w' w'' \<Longrightarrow> Q w w''"
    and Q_heap: "Q w (w\<lparr>w_heap := h\<rparr>)"
    and Q_vars: "Q w (w\<lparr>w_vars := vs\<rparr>)"
    and Q_output: "w_clients w (cm_client m) = Some c \<Longrightarrow> tab_lookup (cx_outputs cx) s = Some m \<Longrightarrow>
      cm_index m < length (cl_outputs c) \<Longrightarrow> legit_output (cl_outputs c ! cm_index m) v f \<Longrightarrow>
      Q w (w\<lparr>w_clients := (w_clients w)(cm_client m \<mapsto> snd (st_client_set_output (cx_bus cx (cm_client m)) c s v f))\<rparr>)"
    and Q_input: "w_clients w (cm_client m) = Some c \<Longrightarrow> tab_lookup (cx_inputs cx) s = Some m \<Longrightarrow>
      cm_index m < length (cl_inputs c) \<Longrightarrow> legit_input (cl_inputs c ! cm_index m) v f \<Longrightarrow>
      Q w (w\<lparr>w_clients := (w_clients w)(cm_client m \<mapsto> snd (st_client_set_input (cx_bus cx (cm_client m)) c s v f))\<rparr>)"
    and Q_rule: "en_on_rule_triggered eng = Some g \<Longrightarrow> Q w (w\<lparr>w_data := g s t (w_data w)\<rparr>)"
    and Q_trigger: "en_on_trigger_triggered eng = Some g \<Longrightarrow> Q w (w\<lparr>w_data := g s t (w_data w)\<rparr>)"

locale engine_relation = run_relation cx eng Q
  for cx :: ctx and eng :: "'d engine" and Q :: "'d world \<Rightarrow> 'd world \<Rightarrow> bool" +
  fixes chg :: "'d handler"
  assumes Q_changed: "chg u w = Ret w' \<Longrightarrow> Q w w'"
begin

definition keeps :: "'d world \<Rightarrow> ('a \<times> 'd world) res \<Rightarrow> bool" where
  "keeps w m \<longleftrightarrow> (\<forall>p w'. m = Ret (p, w') \<longrightarrow> Q w w')"

lemma keeps_pair:
  assumes "keeps w m" "\<And>a w'. m = Ret (a, w') \<Longrightarrow> keeps w' (f a w')"
  shows "keeps w (rbind m (\<lambda>(a, w). f a w))"
  unfolding keeps_def
proof (intro allI impI)
  fix p w''
  assume "rbind m (\<lambda>(a, w). f a w) = Ret (p, w'')"
  then obtain a w' where "m = Ret (a, w')" "f a w' = Ret (p, w'')" by auto
  with assms show "Q w w''" unfolding keeps_def by (blast intro: Q_trans)
qed

lemma keeps_value: "(\<And>x. m = Ret x \<Longrightarrow> keeps w (f x)) \<Longrightarrow> keeps w (rbind m f)"
  by (auto simp: keeps_def)

lemma keeps_Ret: "Q w w' \<Longrightarrow> keeps w (Ret (a, w'))"
  by (simp add: keeps_def)

lemmas keeps_read =
  keeps_value [where m = "map_output A b" for A b] keeps_value [where m = "map_input A b" for A b]
  keeps_value [where m = "label_entry_format_conf a b c" for a b c]
  keeps_value [where m = "trigger_format_conf a b c" for a b c]

lemma keeps_eval: "keeps w (w_eval cx a w)"
  by (auto simp: keeps_def w_eval_def intro: Q_heap)

lemma keeps_output:
  assumes "map_output (w_env cx w) m = Ret out" "tab_lookup (cx_outputs cx) s = Some m"
    "legit_output out v f"
  shows "keeps w (send_output cx m s v f w)"
  using map_output_reads [OF assms(1)] assms(2,3) Q_output
  by (auto simp: keeps_def send_output_def Let_def)

lemma keeps_input:
  assumes "map_input (w_env cx w) m = Ret inp" "tab_lookup (cx_inputs cx) s = Some m"
    "legit_input inp v f"
  shows "keeps w (send_input cx m s v f w)"
  using map_input_reads [OF assms(1)] assms(2,3) Q_input
  by (auto simp: keeps_def send_input_def Let_def)

lemmas keeps_output_flag = keeps_output [OF _ _ legit_output_flag]
lemmas keeps_output_value = keeps_output [OF _ _ legit_output_value]
lemmas keeps_input_flag = keeps_input [OF _ _ legit_input_flag]

lemma keeps_assign_flag: "keeps w (assign_apply_flag cx a w)"
  unfolding assign_apply_flag_def
  by (auto intro!: keeps_pair [OF keeps_eval] keeps_read keeps_pair [OF keeps_output_flag]
      keeps_pair [OF keeps_input_flag] keeps_Ret Q_refl simp: Let_def
      split: ev_result.split option.split)

lemma keeps_var_set: "keeps w (st_var_set_value cx chg k v e w)"
proof -
  have "Q w w'" if "chg u (w\<lparr>w_heap := h, w_vars := vs\<rparr>) = Ret w'" for u h vs w'
    using Q_trans [OF Q_trans [OF Q_heap Q_vars] Q_changed [OF that]] .
  then show ?thesis by (auto simp: keeps_def st_var_set_value_def Q_refl)
qed

lemma keeps_assign: "keeps w (assign_apply cx chg a w)"
  unfolding assign_apply_def
  by (auto intro!: keeps_pair [OF keeps_eval] keeps_read keeps_pair [OF keeps_output_value]
      keeps_pair [OF keeps_var_set] keeps_Ret Q_refl keeps_assign_flag
      split: ev_result.split option.split)

lemma keeps_label_block: "keeps w (label_block_apply cx chg (Some eng) es w)"
  by (induction es arbitrary: w)
    (auto intro!: keeps_pair [OF keeps_eval] keeps_pair [OF keeps_assign] keeps_read keeps_Ret Q_refl Q_rule
      split: ev_result.split ap_result.split option.split)

lemma keeps_trigger_assigns:
  assumes "\<And>w s t f. conf = Some (f, t) \<Longrightarrow> Q w (w\<lparr>w_data := f s t (w_data w)\<rparr>)"
  shows "keeps w (trigger_assigns cx chg conf as err w)"
proof (induction as arbitrary: w err)
  case (Cons a as)
  have note_it: "keeps w (trigger_assigns cx chg conf as err w')" if "Q w w'" for w w' err
    using Cons.IH [of w' err] that Q_trans by (auto simp: keeps_def)
  have told: "Q w (case conf of Some (f, s) \<Rightarrow> if did then w\<lparr>w_data := f d s (w_data w)\<rparr> else w | None \<Rightarrow> w)"
    for did d and w :: "'d world"
    using assms Q_refl by (auto split: option.split)
  show ?case
    unfolding trigger_assigns.simps
  proof (rule keeps_pair [OF keeps_assign])
    fix r w'
    show "keeps w' (case r of
         ApErr e \<Rightarrow> trigger_assigns cx chg conf as
           (case err of None \<Rightarrow> Some e | Some None \<Rightarrow> Some e | Some (Some f) \<Rightarrow> Some (Some f)) w'
       | ApOk did \<Rightarrow> trigger_assigns cx chg conf as err
           (case conf of Some (f, s) \<Rightarrow> if did then w'\<lparr>w_data := f (as_id a) s (w_data w')\<rparr> else w' | None \<Rightarrow> w'))"
      by (cases r) (simp_all only: ap_result.case, auto intro!: note_it told Q_refl simp del: option.case)
  qed
qed (simp add: keeps_Ret Q_refl)

lemma keeps_trigger: "keeps w (trigger_apply cx chg (Some eng) t w)"
  unfolding trigger_apply_def
  by (auto intro!: keeps_pair [OF keeps_eval] keeps_read keeps_Ret Q_refl keeps_trigger_assigns Q_trigger
      split: ev_result.split option.split)

lemma keeps_labels: "apply_labels cx chg eng ident bs w = Ret w' \<Longrightarrow> Q w w'"
proof (induction bs arbitrary: w)
  case (Cons b bs)
  then obtain go p w1 where "(if go then label_block_apply cx chg (Some eng) b w else Ret (None, w)) = Ret (p, w1)"
    "apply_labels cx chg eng ident bs w1 = Ret w'" by auto
  moreover from this(1) have "Q w w1"
    using keeps_label_block [of w b] Q_refl by (auto simp: keeps_def split: if_splits)
  ultimately show ?case using Cons.IH Q_trans by blast
qed (simp add: Q_refl)

lemma keeps_triggers: "apply_triggers cx chg eng ident ts w = Ret w' \<Longrightarrow> Q w w'"
proof (induction ts arbitrary: w)
  case (Cons t ts)
  then obtain go p w1 where "(if go then trigger_apply cx chg (Some eng) t w else Ret (None, w)) = Ret (p, w1)"
    "apply_triggers cx chg eng ident ts w1 = Ret w'" by auto
  moreover from this(1) have "Q w w1"
    using keeps_trigger [of w t] Q_refl by (auto simp: keeps_def split: if_splits)
  ultimately show ?case using Cons.IH Q_trans by blast
qed (simp add: Q_refl)

lemma engine_kept: "engine_apply cx chg eng ident w = Ret w' \<Longrightarrow> Q w w'"
  by (auto simp: engine_apply_def intro: Q_trans keeps_labels keeps_triggers)

end

section \<open>The calls of the engine are legitimate\<close>

abbreviation clients_legit :: "ctx \<Rightarrow> 'd world \<Rightarrow> 'd world \<Rightarrow> bool" where
  "clients_legit cx w w' \<equiv> legit cx (w_clients w) (w_clients w')"

lemma legit_send:
  "w_clients w n = Some c \<Longrightarrow> legit_call cx n c call \<Longrightarrow>
   legit cx (w_clients w) ((w_clients w)(n \<mapsto> snd (snd (call_set_io_method b call c))))"
  unfolding set_io_calls by (rule legit_add) simp_all

interpretation legit_run: run_relation cx eng "clients_legit cx" for cx :: ctx and eng :: "'d engine"
  by unfold_locales
    (auto intro: legit_trans intro!: legit_send
      simp: st_client_set_output_def st_client_set_input_def Let_def legit_call_def)

end
