(* ===== verification/Mysql.thy ===== *)
theory Mysql
  imports Input Output Stats
begin

text \<open>
  \<open>lib/mysql-client.c\<close>: the SQL the client sends and what it reads back. The server is a
  parameter: what it answers to a statement, given the statements before. The theory shows when
  the text of a statement denotes the name that was asked for, that it does not for a name with
  a quote, and that whole numbers survive the way into the database and back.
\<close>

section \<open>Reading numbers\<close>

text \<open>
  \<open>sscanf (s, "%lf", &r)\<close> on the decimal notations MySQL prints: optional blanks and sign,
  digits with an optional point, an optional exponent. Nothing is read when there is no digit.
\<close>

definition f64_of_decimal :: "bool \<Rightarrow> nat \<Rightarrow> int \<Rightarrow> f64" where
  "f64_of_decimal s m e =
     (let n = (if 0 \<le> e then int m * 10 ^ nat e else int m);
          d = (if 0 \<le> e then 1 else 10 ^ nat (- e));
          k = (if d \<le> n then 0 else f64_bitlen d)
      in f64_round s (n * pow2 k) d (- k))"

definition scan_exponent :: "string \<Rightarrow> int" where
  "scan_exponent s =
     (case s of
        c # t \<Rightarrow>
          if c = CHR ''e'' \<or> c = CHR ''E'' then
            (let neg = (t \<noteq> [] \<and> hd t = CHR ''-'');
                 u = (if t \<noteq> [] \<and> (hd t = CHR ''-'' \<or> hd t = CHR ''+'') then tl t else t);
                 ds = takeWhile is_digit u
             in if neg then - int (nat_of_digits ds) else int (nat_of_digits ds))
          else 0
      | [] \<Rightarrow> 0)"

definition scan_lf :: "string \<Rightarrow> f64 option" where
  "scan_lf s =
     (let s = dropWhile (\<lambda>c. c = CHR '' '') s;
          neg = (s \<noteq> [] \<and> hd s = CHR ''-'');
          s = (if s \<noteq> [] \<and> (hd s = CHR ''-'' \<or> hd s = CHR ''+'') then tl s else s);
          ip = takeWhile is_digit s;
          s = dropWhile is_digit s;
          fp = (if s \<noteq> [] \<and> hd s = CHR ''.'' then takeWhile is_digit (tl s) else []);
          s = (if s \<noteq> [] \<and> hd s = CHR ''.'' then dropWhile is_digit (tl s) else s)
      in if ip = [] \<and> fp = [] then None
         else Some (f64_of_decimal neg (nat_of_digits (ip @ fp)) (scan_exponent s - int (length fp))))"

section \<open>State\<close>

text \<open>A failed statement has the server's message; a SELECT has its rows, each a first column.\<close>

type_synonym db = "string list \<Rightarrow> string \<Rightarrow> string + string option list option"

record st_mysql_client =
  my_source :: string
  my_queries :: "string list"

definition DB_NAME :: string where "DB_NAME = ''STARTER''"

definition st_mysql_client_new :: "string \<Rightarrow> st_mysql_client" where
  "st_mysql_client_new source = \<lparr>my_source = source, my_queries = []\<rparr>"

definition st_mysql_client_perform_query ::
  "db \<Rightarrow> string \<Rightarrow> st_mysql_client \<Rightarrow> (gerror option \<times> string option list option) \<times> st_mysql_client" where
  "st_mysql_client_perform_query db q self =
     ((case db (my_queries self) q of
         Inl msg \<Rightarrow> (Some \<lparr>err_code = ST_ERROR_INVALID_VALUE, err_message = msg\<rparr>, None)
       | Inr rows \<Rightarrow> (None, rows)),
      self\<lparr>my_queries := my_queries self @ [q]\<rparr>)"

section \<open>Statements\<close>

text \<open>\<open>%u\<close> of an \<open>int\<close> argument prints it modulo \<open>2^32\<close>.\<close>

definition fmt_u :: "int \<Rightarrow> string" where
  "fmt_u i = show_nat (nat (i mod 2 ^ 32))"

definition quoted :: "string \<Rightarrow> string" where
  "quoted s = CHR 0x27 # s @ [CHR 0x27]"

definition label_query :: "string \<Rightarrow> string \<Rightarrow> int \<Rightarrow> f64 \<Rightarrow> f64 \<Rightarrow> f64 \<Rightarrow> string \<Rightarrow> string" where
  "label_query ty name unit mn mx step descr =
     ''INSERT INTO '' @ DB_NAME @ ''.labels (name,description,type,unit,min,max,step) ''
     @ '' VALUES ('' @ quoted name @ '','' @ quoted descr @ '','' @ quoted ty @ '','' @ fmt_u unit
     @ '','' @ fmt_lf mn @ '','' @ fmt_lf mx @ '','' @ fmt_lf step @ '')''
     @ '' ON DUPLICATE KEY UPDATE''
     @ '' description = '' @ quoted descr @ '',''
     @ '' type = '' @ quoted ty @ '',''
     @ '' unit = '' @ fmt_u unit @ '',''
     @ '' min = '' @ fmt_lf mn @ '',''
     @ '' max = '' @ fmt_lf mx @ '',''
     @ '' step = '' @ fmt_lf step @ '';''"

definition st_mysql_client_store_input_label ::
  "db \<Rightarrow> st_mysql_client \<Rightarrow> st_input \<Rightarrow> gerror option \<times> st_mysql_client" where
  "st_mysql_client_store_input_label db self i =
     (let r = st_mysql_client_perform_query db
                (label_query ''STInput'' (in_name i) (in_unit i) (in_min i) (in_max i) (in_step i)
                   (in_descr i)) self
      in (fst (fst r), snd r))"

definition st_mysql_client_store_output_label ::
  "db \<Rightarrow> st_mysql_client \<Rightarrow> st_output \<Rightarrow> gerror option \<times> st_mysql_client" where
  "st_mysql_client_store_output_label db self out =
     (let r = st_mysql_client_perform_query db
                (label_query ''STOutput'' (out_name out) (out_unit out) (out_min out) (out_max out)
                   (out_step out) (out_descr out)) self
      in (fst (fst r), snd r))"

definition history_query :: "string \<Rightarrow> string \<Rightarrow> f64 \<Rightarrow> guint64 \<Rightarrow> string" where
  "history_query source name v flags =
     ''INSERT INTO '' @ DB_NAME @ ''.history (source,label_id,value,flags) VALUES('' @ quoted source
     @ '',(SELECT id FROM labels WHERE name='' @ quoted name @ ''),'' @ fmt_lf v @ '',''
     @ show_nat (unat flags) @ '');''"

definition st_mysql_client_store_history ::
  "db \<Rightarrow> st_mysql_client \<Rightarrow> string \<Rightarrow> f64 \<Rightarrow> guint64 \<Rightarrow> gerror option \<times> st_mysql_client" where
  "st_mysql_client_store_history db self name v flags =
     (let r = st_mysql_client_perform_query db (history_query (my_source self) name v flags) self
      in (fst (fst r), snd r))"

definition last_value_query :: "string \<Rightarrow> string" where
  "last_value_query name =
     ''SELECT value FROM '' @ DB_NAME @ ''.history WHERE label_id=(SELECT id FROM '' @ DB_NAME
     @ ''.labels WHERE name='' @ quoted name @ '') '' @ ''ORDER BY timestamp DESC LIMIT 1;''"

text \<open>\<open>ST_INVALID_VALUE\<close> when the query fails, has no row, a NULL or no number.\<close>

definition st_mysql_client_get_last_history_value ::
  "db \<Rightarrow> st_mysql_client \<Rightarrow> string \<Rightarrow> f64 \<times> st_mysql_client" where
  "st_mysql_client_get_last_history_value db self name =
     (case st_mysql_client_perform_query db (last_value_query name) self of
        ((None, Some [Some s]), self') \<Rightarrow>
          ((case scan_lf s of Some v \<Rightarrow> v | None \<Rightarrow> ST_INVALID_VALUE), self')
      | (_, self') \<Rightarrow> (ST_INVALID_VALUE, self'))"

text \<open>The nine entries in the order of the columns, each with its three columns.\<close>

definition stats_entries :: "st_stats \<Rightarrow> (string \<times> st_stats_entry) list" where
  "stats_entries s =
     [(''vmsize'', vmsize s), (''vmrss'', vmrss s), (''vmswap'', vmswap s), (''io_read'', io_read s),
      (''io_write'', io_write s), (''cpu'', cpu s), (''icswitch'', icswitch s),
      (''priority'', priority s), (''threads'', threads s)]"

fun join :: "string \<Rightarrow> string list \<Rightarrow> string" where
  "join sep [] = ''''"
| "join sep [s] = s"
| "join sep (s # t # us) = s @ sep @ join sep (t # us)"

definition stats_query :: "st_stats \<Rightarrow> string" where
  "stats_query s =
     ''INSERT INTO '' @ DB_NAME @ ''.stats (service_name, ''
     @ join '', '' (map (\<lambda>(c, e). ''  '' @ c @ ''_min,'' @ c @ ''_max,'' @ c @ ''_last'') (stats_entries s))
     @ '') VALUES('' @ quoted (stats_name s) @ '', ''
     @ join '', '' (map (\<lambda>(c, e). ''  '' @ fmt_lf (se_min e) @ '','' @ fmt_lf (se_max e) @ '',''
          @ fmt_lf (se_last e)) (stats_entries s))
     @ '') ON DUPLICATE KEY UPDATE   updated_at=NOW(), ''
     @ join '', '' (map (\<lambda>(c, e). ''  '' @ c @ ''_min=VALUES('' @ c @ ''_min), '' @ c @ ''_max=VALUES('' @ c
          @ ''_max), '' @ c @ ''_last=VALUES('' @ c @ ''_last)'') (stats_entries s))
     @ '';''"

definition st_mysql_client_store_stats ::
  "db \<Rightarrow> st_mysql_client \<Rightarrow> st_stats \<Rightarrow> gerror option \<times> st_mysql_client" where
  "st_mysql_client_store_stats db self s =
     (let r = st_mysql_client_perform_query db (stats_query s) self in (fst (fst r), snd r))"

section \<open>What a statement says\<close>

text \<open>
  The string literals of a statement as MySQL reads them: a backslash escapes the next character,
  two quotes inside a literal are one quote.
\<close>

fun sql_strings :: "string \<Rightarrow> string list" and sql_rest :: "string \<Rightarrow> string \<Rightarrow> string list" where
  "sql_strings [] = []"
| "sql_strings (c # s) = (if c = CHR 0x27 then sql_rest [] s else sql_strings s)"
| "sql_rest acc [] = [acc]"
| "sql_rest acc [c] = (if c = CHR 0x27 then [acc] else [acc @ [c]])"
| "sql_rest acc (c # d # s) =
     (if c = CHR 0x5C then sql_rest (acc @ [d]) s
      else if c = CHR 0x27 then
        (if d = CHR 0x27 then sql_rest (acc @ [d]) s else acc # sql_strings (d # s))
      else sql_rest (acc @ [c]) (d # s))"

definition plain :: "string \<Rightarrow> bool" where
  "plain s = (\<forall>c\<in>set s. c \<noteq> CHR 0x27 \<and> c \<noteq> CHR 0x5C)"

lemma sql_strings_plain: "plain s \<Longrightarrow> sql_strings (s @ t) = sql_strings t"
  by (induction s) (auto simp: plain_def)

lemma sql_rest_plain:
  "plain s \<Longrightarrow> d \<noteq> CHR 0x27 \<Longrightarrow> sql_rest acc (s @ CHR 0x27 # d # t) = (acc @ s) # sql_strings (d # t)"
proof (induction s arbitrary: acc)
  case (Cons c s)
  then have c: "c \<noteq> CHR 0x27" "c \<noteq> CHR 0x5C" "plain s" by (auto simp: plain_def)
  obtain x u where u: "s @ CHR 0x27 # d # t = x # u" by (cases s) auto
  have "sql_rest acc ((c # s) @ CHR 0x27 # d # t) = sql_rest (acc @ [c]) (s @ CHR 0x27 # d # t)"
    using c by (simp add: u)
  also have "\<dots> = (acc @ c # s) # sql_strings (d # t)"
    using Cons.IH [OF c(3) Cons.prems(2), of "acc @ [c]"] by simp
  finally show ?case .
qed (simp del: sql_strings.simps)

lemma sql_strings_quoted:
  "plain s \<Longrightarrow> d \<noteq> CHR 0x27 \<Longrightarrow> sql_strings (quoted s @ d # t) = s # sql_strings (d # t)"
  using sql_rest_plain [of s d "[]" t] by (simp add: quoted_def del: sql_strings.simps(2)) simp

lemma plain_append [simp]: "plain (s @ t) = (plain s \<and> plain t)"
  by (auto simp: plain_def)

lemma plain_Cons [simp]: "plain (c # s) = (c \<noteq> CHR 0x27 \<and> c \<noteq> CHR 0x5C \<and> plain s)"
  by (auto simp: plain_def)

lemma plain_Nil [simp]: "plain []"
  by (simp add: plain_def)

lemma digits_plain: "list_all is_digit s \<Longrightarrow> plain s"
  by (auto simp: plain_def list_all_iff is_digit_def)

lemma plain_show_nat [simp]: "plain (show_nat n)"
  by (rule digits_plain) (rule show_nat_digits)

lemma plain_fmt_lf [simp]: "plain (fmt_lf v)"
proof (cases v)
  case (F64_Fin s m e)
  moreover have "plain (replicate n (CHR ''0''))" for n by (induction n) auto
  ultimately show ?thesis by (simp add: pad6_def Let_def)
qed auto

lemma plain_DB_NAME [simp]: "plain DB_NAME"
  by (simp add: DB_NAME_def)

lemma sql_strings_fixed [simp]: "plain s \<Longrightarrow> sql_strings s = []"
  using sql_strings_plain [of s "[]"] by simp

lemma sql_strings_skip: "c \<noteq> CHR 0x27 \<Longrightarrow> sql_strings (c # s) = sql_strings s"
  by simp

lemmas sql_scan = sql_strings_skip sql_strings_plain sql_strings_quoted

text \<open>C39: The row stored for a change names the source and the label the caller gave, as long as
  neither has a quote or a backslash: the literals of the statement are these two strings.\<close>

theorem history_names_roundtrip:
  assumes "plain src" "plain name"
  shows "sql_strings (history_query src name v flags) = [src, name]"
  using assms
  by (simp add: history_query_def sql_scan DB_NAME_def del: sql_strings.simps(2))

theorem history_names_roundtrip_witness:
  "sql_strings (history_query ''door'' ''lamp'' f64_one 0) = [''door'', ''lamp'']"
  by (rule history_names_roundtrip) (simp_all add: plain_def)

text \<open>C40: A quote inside a name ends the literal there: the statement names what stands before
  the quote, and the rest of the name is read as SQL.\<close>

theorem history_name_injection:
  assumes "plain src" "plain a" "d \<noteq> CHR 0x27"
  shows "take 2 (sql_strings (history_query src (a @ CHR 0x27 # d # b) v flags)) = [src, a]"
proof -
  have q: "quoted (a @ CHR 0x27 # d # b) @ t = quoted a @ d # b @ CHR 0x27 # t" for t
    by (simp add: quoted_def)
  show ?thesis
    using assms unfolding history_query_def append_assoc q
    by (simp add: sql_scan DB_NAME_def del: sql_strings.simps(2))
qed

theorem history_name_injection_witness:
  "take 2 (sql_strings (history_query ''door'' (''lamp'' @ CHR 0x27 # CHR '')'' # '' OR 1=1 --'') f64_one 0))
     = [''door'', ''lamp'']"
  by (rule history_name_injection) (simp_all add: plain_def)

section \<open>Whole numbers through the database\<close>

lemma f64_round_common_factor:
  assumes "0 < c" "0 < d"
  shows "f64_round s (n * c) (d * c) e = f64_round s n d e"
proof -
  have e: "f64_exp (n * c) (d * c) e = f64_exp n d e" using assms by (simp add: f64_exp_def)
  have "rne (f64_num (n * c) (d * c) e) (f64_den (n * c) (d * c) e)
      = rne (f64_num n d e * c) (f64_den n d e * c)"
    unfolding f64_num_def f64_den_def e by (simp add: ac_simps)
  also have "\<dots> = rne (f64_num n d e) (f64_den n d e)"
    using assms by (simp add: rne_scale f64_den_pos)
  finally show ?thesis using assms by (simp add: f64_round_eq e)
qed

lemma f64_of_decimal_whole:
  "f64_of_decimal s (n * 10 ^ k) (- int k) = f64_round s (int n) 1 0"
proof (cases "n = 0")
  case True
  then show ?thesis by (simp add: f64_of_decimal_def Let_def f64_round_def)
next
  case False
  then have le: "10 ^ k \<le> int n * 10 ^ k" by simp
  have "int (n * 10 ^ k) = int n * 10 ^ k" by simp
  moreover have "0 \<le> - int k \<longleftrightarrow> k = 0" by simp
  ultimately have "f64_of_decimal s (n * 10 ^ k) (- int k) = f64_round s (int n * 10 ^ k) (1 * 10 ^ k) 0"
    using le by (cases "k = 0") (simp_all add: f64_of_decimal_def Let_def del: of_nat_mult)
  also have "\<dots> = f64_round s (int n) 1 0"
    by (rule f64_round_common_factor) simp_all
  finally show ?thesis .
qed

lemma f64_of_int_small:
  assumes "\<bar>i\<bar> < 2 ^ 53"
  obtains m e where "f64_of_int i = F64_Fin (i < 0) m e" "e \<le> 0" "m = \<bar>i\<bar> * 2 ^ nat (- e)"
proof (cases "i = 0")
  case True
  then show ?thesis by (intro that [of 0 "-1074"]) (auto simp: f64_of_int_def f64_round_def)
next
  case False
  let ?t = "f64_exp \<bar>i\<bar> 1 0"
  have b: "2 ^ nat (f64_bitlen \<bar>i\<bar> - 1) \<le> \<bar>i\<bar>" using f64_bitlen_bounds [of "\<bar>i\<bar>"] False by auto
  have t: "?t \<le> 0"
  proof (rule ccontr)
    assume "\<not> ?t \<le> 0"
    then have "53 \<le> nat (f64_bitlen \<bar>i\<bar> - 1)" by (simp add: f64_exp_def max_def split: if_splits)
    then have "(2::int) ^ 53 \<le> 2 ^ nat (f64_bitlen \<bar>i\<bar> - 1)" by (intro power_increasing) auto
    with b assms show False by linarith
  qed
  have d: "f64_den \<bar>i\<bar> 1 0 = 1" using t by (simp add: f64_den_def)
  have n: "f64_num \<bar>i\<bar> 1 0 < 2 ^ 53" using f64_scaled_bounds(1) [of 1 "\<bar>i\<bar>" 0] False d by simp
  have r: "rne (f64_num \<bar>i\<bar> 1 0) (f64_den \<bar>i\<bar> 1 0) = f64_num \<bar>i\<bar> 1 0"
    using rne_exact [of 1 "f64_num \<bar>i\<bar> 1 0"] by (simp add: d)
  have "f64_of_int i = F64_Fin (i < 0) (f64_num \<bar>i\<bar> 1 0) ?t"
    using False n t unfolding f64_of_int_def f64_round_eq Let_def r by simp
  then show ?thesis using t by (intro that) (auto simp: f64_num_def)
qed

lemma fmt_lf_of_int:
  assumes "\<bar>i\<bar> < 2 ^ 53"
  shows "fmt_lf (f64_of_int i) = show_int i @ ''.000000''"
proof -
  obtain m e where f: "f64_of_int i = F64_Fin (i < 0) m e" "e \<le> 0" "m = \<bar>i\<bar> * 2 ^ nat (- e)"
    using f64_of_int_small [OF assms] .
  have "rne (m * 1000000) (pow2 (- e)) = \<bar>i\<bar> * 1000000"
    using rne_exact [of "2 ^ nat (- e)" "\<bar>i\<bar> * 1000000"] 
    unfolding f(3) pow2_eq by (simp only: ac_simps zero_less_power zero_less_numeral)
  moreover have "0 \<le> e \<Longrightarrow> m * 1000000 * pow2 e = \<bar>i\<bar> * 1000000"
    using f(2,3) by (simp add: pow2_eq)
  moreover have "pad6 (show_nat 0) = ''000000''" by code_simp
  moreover have "\<bar>i\<bar> * 1000000 div 1000000 = \<bar>i\<bar>" "\<bar>i\<bar> * 1000000 mod 1000000 = 0" by simp_all
  moreover have "show_int i = (if i < 0 then ''-'' else []) @ show_nat (nat \<bar>i\<bar>)" by (simp add: show_int_def)
  ultimately show ?thesis unfolding f(1) fmt_lf.simps Let_def by (simp split del: if_split) auto
qed

lemma takeWhile_digits:
  "list_all is_digit s \<Longrightarrow> t = [] \<or> \<not> is_digit (hd t) \<Longrightarrow>
    takeWhile is_digit (s @ t) = s \<and> dropWhile is_digit (s @ t) = t"
  by (induction s) (cases t; auto)+

lemma scan_lf_digits:
  assumes "list_all is_digit s" "s \<noteq> []" "list_all is_digit t"
  shows "scan_lf ((if neg then ''-'' else []) @ s @ (if t = [] then [] else ''.'' @ t))
    = Some (f64_of_decimal neg (nat_of_digits (s @ t)) (- int (length t)))"
proof -
  note takeWhile_eq_all_conv [simp del] dropWhile_eq_Nil_conv [simp del]
  obtain c s' where s: "s = c # s'" "is_digit c" "list_all is_digit s'" using assms by (cases s) auto
  have c: "c \<noteq> CHR '' ''" "c \<noteq> CHR ''-''" "c \<noteq> CHR ''+''" using s(2) by (auto simp: is_digit_def)
  have w: "takeWhile is_digit (s @ (if t = [] then [] else ''.'' @ t)) = s"
    "dropWhile is_digit (s @ (if t = [] then [] else ''.'' @ t)) = (if t = [] then [] else ''.'' @ t)"
    using takeWhile_digits [OF assms(1), of "if t = [] then [] else ''.'' @ t"] by (simp_all add: is_digit_def)
  have "takeWhile is_digit t = t" "dropWhile is_digit t = []"
    using takeWhile_digits [OF assms(3), of "[]"] by simp_all
  then show ?thesis
    using w s c assms(2) by (cases neg) (simp_all add: scan_lf_def Let_def scan_exponent_def)
qed

lemma scan_lf_whole:
  "scan_lf (show_int i @ (if f then ''.000000'' else [])) = Some (f64_of_int i)"
proof -
  let ?s = "show_nat (nat \<bar>i\<bar>)" and ?t = "if f then ''000000'' else []"
  have "show_int i @ (if f then ''.000000'' else [])
      = (if i < 0 then ''-'' else []) @ ?s @ (if ?t = [] then [] else ''.'' @ ?t)"
    by (auto simp: show_int_def)
  moreover have "list_all is_digit ?t" by (simp add: is_digit_def)
  moreover have "nat_of_digits (?s @ ?t) = nat \<bar>i\<bar> * 10 ^ length ?t"
    using nat_of_digits_show_nat [of "nat \<bar>i\<bar>"]
    by (simp add: nat_of_digits_def digit_val_def)
  ultimately show ?thesis
    using scan_lf_digits [OF show_nat_digits show_nat_nonempty, of ?t "i < 0" "nat \<bar>i\<bar>"]
      f64_of_decimal_whole [of "i < 0" "nat \<bar>i\<bar>" "length ?t"]
    by (simp only: f64_of_int_def) simp
qed

text \<open>A whole number below \<open>2^53\<close> comes back from the history as it was stored: the text in
  the statement, and the text MySQL answers with, with or without the decimals, scan to it.\<close>

theorem whole_value_roundtrip:
  assumes "\<bar>i\<bar> < 2 ^ 53" "s = fmt_lf (f64_of_int i) \<or> s = show_int i"
    and "db (my_queries self) (last_value_query name) = Inr (Some [Some s])"
  shows "fst (st_mysql_client_get_last_history_value db self name) = f64_of_int i"
  using assms scan_lf_whole [of i True] scan_lf_whole [of i False] fmt_lf_of_int [OF assms(1)]
  by (auto simp: st_mysql_client_get_last_history_value_def st_mysql_client_perform_query_def)

theorem whole_value_roundtrip_witness:
  "fst (st_mysql_client_get_last_history_value (\<lambda>_ _. Inr (Some [Some ''-42'']))
     (st_mysql_client_new ''door'') ''lamp'') = f64_of_int (- 42)"
proof (rule whole_value_roundtrip)
  have "''-42'' = show_int (- 42)" by code_simp
  then show "''-42'' = fmt_lf (f64_of_int (- 42)) \<or> ''-42'' = show_int (- 42)" ..
qed simp_all

text \<open>\<open>%lf\<close> keeps six decimals: a small value is stored as zero and comes back as zero.\<close>

theorem small_value_lost:
  "let v = f64_div f64_one (f64_of_int 10000000) in
     v \<noteq> f64_zero \<and> fmt_lf v = ''0.000000'' \<and> scan_lf (fmt_lf v) = Some f64_zero"
  by code_simp

end
