(* ===== verification/CString.thy ===== *)
theory CString
  imports Defs
begin

text \<open>
  The functions of the C library on strings that the program uses to read numbers: \<open>strtoul\<close>,
  \<open>strstr\<close> and \<open>sscanf\<close> with \<open>%u\<close>.
\<close>

text \<open>
  C's \<open>strtoul (s, &end, 10)\<close> with a 64-bit \<open>unsigned long\<close>: blanks, a sign, digits. A value
  too large gives \<open>ULONG_MAX\<close>; a minus sign negates modulo \<open>2^64\<close>. Without a digit \<open>end\<close> is
  the start.
\<close>

definition is_space :: "char \<Rightarrow> bool" where
  "is_space c = (c = CHR '' '' \<or> (9 \<le> (of_char c :: nat) \<and> (of_char c :: nat) \<le> 13))"

definition strtoul :: "string \<Rightarrow> guint64 \<times> string" where
  "strtoul s =
     (let t = dropWhile is_space s;
          neg = (t \<noteq> [] \<and> hd t = CHR ''-'');
          u = (if t \<noteq> [] \<and> (hd t = CHR ''-'' \<or> hd t = CHR ''+'') then tl t else t);
          n = nat_of_digits (takeWhile is_digit u)
      in if takeWhile is_digit u = [] then (0, s)
         else (if 2 ^ 64 \<le> n then - 1 else if neg then - of_nat n else of_nat n,
               dropWhile is_digit u))"

text \<open>
  \<open>strstr\<close>, and the number that \<open>sscanf\<close> reads with \<open>%u\<close>: a 32-bit value, the low half of what
  \<open>strtoul\<close> gives.
\<close>

fun after_sub :: "string \<Rightarrow> string \<Rightarrow> string option" where
  "after_sub p [] = (if p = [] then Some [] else None)"
| "after_sub p (c # s) =
     (if take (length p) (c # s) = p then Some (drop (length p) (c # s)) else after_sub p s)"

definition scan_u :: "string \<Rightarrow> guint32 option" where
  "scan_u s = (let (v, end) = strtoul s in if end = s then None else Some (ucast v))"

end
