(* ===== verification/Debug.thy ===== *)
theory Debug
  imports Input Output Stats CString
begin

text \<open>
  \<open>src/debug-server.c\<close>: the debugger of the core. It mirrors the peers, broadcasts signals to
  the connected clients, and holds breakpoints and watchpoints; the core asks it before it applies
  the rules (\<open>intercept_change\<close>, \<open>intercept_apply\<close>), and it answers TRUE from the first hit
  until \<open>Continue\<close>. The functions that read the core's tables are in the theory of the core.
  The D-Bus server is a parameter: what creating one at an address gives.
\<close>

section \<open>State\<close>

record debug_peer =
  dp_address :: string
  dp_port :: guint16
  dp_state :: guint32

record debug_point =
  pt_handle :: guint32
  pt_id :: string

datatype debug_signal =
    PeerChanged string string guint32 guint32 string
  | InputChanged st_input
  | OutputChanged st_output
  | StatsChanged string
  | VarChanged string string
  | RuleTriggered string string
  | TriggerTriggered string string
  | Stopped string string f64 guint32

text \<open>
  \<open>db_sent\<close> lists what was emitted, each with its connection. \<open>db_owner\<close> says whether the
  running thread owns the context the server was started in (the core has one loop: always).
\<close>

record st_core_debug =
  db_server :: bool
  db_connections :: "nat list"
  db_peers :: "(string, debug_peer) ghash"
  db_listen_context :: bool
  db_owner :: bool
  db_bind_host :: "string option"
  db_bind_port :: guint16
  db_client_address :: "string option"
  db_breakpoints :: "(guint32, debug_point) ghash"
  db_watchpoints :: "(guint32, debug_point) ghash"
  db_next_handle :: guint32
  db_paused :: bool
  db_stop_reason :: "string option"
  db_stop_id :: "string option"
  db_stop_value :: f64
  db_stop_handle :: guint32
  db_sent :: "(nat \<times> debug_signal) list"

definition st_core_debug_init :: st_core_debug where
  "st_core_debug_init =
     \<lparr>db_server = False, db_connections = [], db_peers = gh_new, db_listen_context = False,
      db_owner = True, db_bind_host = None, db_bind_port = 0, db_client_address = None,
      db_breakpoints = gh_new, db_watchpoints = gh_new, db_next_handle = 1, db_paused = False,
      db_stop_reason = None, db_stop_id = None, db_stop_value = f64_zero, db_stop_handle = 0,
      db_sent = []\<rparr>"

section \<open>The address to listen on\<close>

text \<open>\<open>strrchr (spec, ':')\<close>: what stands before and after the last colon.\<close>

definition split_last_colon :: "string \<Rightarrow> (string \<times> string) option" where
  "split_last_colon s =
     (let r = rev s in
      if CHR '':'' \<in> set s
      then Some (rev (tl (dropWhile (\<lambda>c. c \<noteq> CHR '':'') r)), rev (takeWhile (\<lambda>c. c \<noteq> CHR '':'') r))
      else None)"

definition bad_bind :: "string \<Rightarrow> string \<Rightarrow> gerror" where
  "bad_bind m spec = \<lparr>err_code = G_IO_ERROR_CODE ''INVALID_ARGUMENT'', err_message = m @ spec\<rparr>"

definition parse_bind_spec :: "string \<Rightarrow> gerror + (string \<times> guint16)" where
  "parse_bind_spec spec =
     (case split_last_colon spec of
        None \<Rightarrow> Inl (bad_bind ''invalid debug-server bind '' spec)
      | Some (host, rest) \<Rightarrow>
          if host = [] \<or> rest = [] then Inl (bad_bind ''invalid debug-server bind '' spec)
          else
            let (port, end) = strtoul rest
            in if end = rest \<or> end \<noteq> [] \<or> 65535 < port
               then Inl (bad_bind ''invalid debug-server port in '' spec)
               else Inr (host, ucast port))"

section \<open>Signals and connections\<close>

definition broadcast_signal :: "st_core_debug \<Rightarrow> debug_signal \<Rightarrow> st_core_debug" where
  "broadcast_signal self s =
     (if db_listen_context self \<and> \<not> db_owner self then self
      else self\<lparr>db_sent := db_sent self @ map (\<lambda>c. (c, s)) (db_connections self)\<rparr>)"

definition peers_upsert ::
  "st_core_debug \<Rightarrow> string \<Rightarrow> string \<Rightarrow> guint16 \<Rightarrow> guint32 \<Rightarrow> st_core_debug" where
  "peers_upsert self name address port state =
     self\<lparr>db_peers := gh_insert (db_peers self) name
            \<lparr>dp_address = address, dp_port = port, dp_state = state\<rparr>\<rparr>"

definition st_core_debug_emit_peer_changed ::
  "st_core_debug \<Rightarrow> string \<Rightarrow> string \<Rightarrow> guint16 \<Rightarrow> guint32 \<Rightarrow> string \<Rightarrow> st_core_debug" where
  "st_core_debug_emit_peer_changed self name address port state ev =
     (if ev = ''removed'' \<or> ev = ''failed'' then
        let (addr, emit_port) =
              (case gh_lookup (db_peers self) name of
                 Some existing \<Rightarrow>
                   if address = [] then (dp_address existing, dp_port existing) else (address, port)
               | None \<Rightarrow> (address, port))
        in broadcast_signal (self\<lparr>db_peers := gh_remove (db_peers self) name\<rparr>)
             (PeerChanged name addr (ucast emit_port) state ev)
      else broadcast_signal (peers_upsert self name address port state)
             (PeerChanged name address (ucast port) state ev))"

definition st_core_debug_emit_input_changed :: "st_core_debug \<Rightarrow> st_input \<Rightarrow> st_core_debug" where
  "st_core_debug_emit_input_changed self i = broadcast_signal self (InputChanged i)"

definition st_core_debug_emit_output_changed :: "st_core_debug \<Rightarrow> st_output \<Rightarrow> st_core_debug" where
  "st_core_debug_emit_output_changed self x = broadcast_signal self (OutputChanged x)"

definition st_core_debug_emit_stats_changed :: "st_core_debug \<Rightarrow> st_stats \<Rightarrow> st_core_debug" where
  "st_core_debug_emit_stats_changed self s = broadcast_signal self (StatsChanged (stats_name s))"

text \<open>\<open>desc\<close> is what \<open>expr_describe\<close> prints for the value.\<close>

definition st_core_debug_emit_var_changed :: "st_core_debug \<Rightarrow> string \<Rightarrow> string \<Rightarrow> st_core_debug" where
  "st_core_debug_emit_var_changed self name desc = broadcast_signal self (VarChanged name desc)"

definition st_core_debug_emit_rule_triggered ::
  "st_core_debug \<Rightarrow> string \<Rightarrow> string \<Rightarrow> st_core_debug" where
  "st_core_debug_emit_rule_triggered self dest desc = broadcast_signal self (RuleTriggered dest desc)"

definition st_core_debug_emit_trigger_triggered ::
  "st_core_debug \<Rightarrow> string \<Rightarrow> string \<Rightarrow> st_core_debug" where
  "st_core_debug_emit_trigger_triggered self dest desc =
     broadcast_signal self (TriggerTriggered dest desc)"

text \<open>\<open>registered\<close>: whether registering the object on the new connection succeeds.\<close>

definition on_new_connection :: "bool \<Rightarrow> nat \<Rightarrow> st_core_debug \<Rightarrow> bool \<times> st_core_debug" where
  "on_new_connection registered c self =
     (let self = self\<lparr>db_connections := db_connections self @ [c]\<rparr>
      in if registered then (True, self)
         else (False, self\<lparr>db_connections := remove1 c (db_connections self)\<rparr>))"

definition connection_closed :: "nat \<Rightarrow> st_core_debug \<Rightarrow> st_core_debug" where
  "connection_closed c self = self\<lparr>db_connections := remove1 c (db_connections self)\<rparr>"

section \<open>Starting and stopping\<close>

definition ST_CORE_DEBUG_DEFAULT_BIND :: string where
  "ST_CORE_DEBUG_DEFAULT_BIND = ''0.0.0.0:17373''"

definition st_core_debug_start ::
  "(string \<Rightarrow> gerror + string option) \<Rightarrow> string option \<Rightarrow> st_core_debug
   \<Rightarrow> gerror option \<times> st_core_debug" where
  "st_core_debug_start listen bind_spec self =
     (if db_server self
      then (Some \<lparr>err_code = G_IO_ERROR_CODE ''EXISTS'', err_message = ''debug server already started''\<rparr>, self)
      else
        case parse_bind_spec
               (case bind_spec of None \<Rightarrow> ST_CORE_DEBUG_DEFAULT_BIND
                | Some s \<Rightarrow> if s = [] then ST_CORE_DEBUG_DEFAULT_BIND else s) of
          Inl e \<Rightarrow> (Some e, self)
        | Inr (host, port) \<Rightarrow>
            (case listen (''tcp:host='' @ host @ '',port='' @ show_nat (unat port)) of
               Inl e \<Rightarrow> (Some e, self)
             | Inr client_addr \<Rightarrow>
                 let parsed = (case client_addr of None \<Rightarrow> None
                               | Some a \<Rightarrow> Option.bind (after_sub ''port='' a) scan_u)
                 in (None,
                     self\<lparr>db_server := True, db_bind_host := Some host,
                          db_bind_port :=
                            (case parsed of
                               Some p \<Rightarrow> if p \<le> 65535 then ucast p else port
                             | None \<Rightarrow> port),
                          db_client_address := client_addr, db_listen_context := True\<rparr>)))"

definition st_core_debug_stop :: "st_core_debug \<Rightarrow> st_core_debug" where
  "st_core_debug_stop self =
     self\<lparr>db_connections := [], db_server := False, db_listen_context := False\<rparr>"

definition st_core_debug_is_active :: "st_core_debug \<Rightarrow> bool" where
  "st_core_debug_is_active self = db_server self"

section \<open>Breakpoints and watchpoints\<close>

text \<open>0 and the error, or the handle, with the table and the next handle.\<close>

definition add_point ::
  "(guint32, debug_point) ghash \<Rightarrow> guint32 \<Rightarrow> string
   \<Rightarrow> guint32 \<times> gerror option \<times> (guint32, debug_point) ghash \<times> guint32" where
  "add_point table next_handle ident =
     (if ident = []
      then (0, Some \<lparr>err_code = G_IO_ERROR_CODE ''INVALID_ARGUMENT'',
                  err_message = ''empty breakpoint/watchpoint id''\<rparr>, table, next_handle)
      else
        let (handle, next_handle) =
              (if next_handle = 0 then (next_handle + 1, next_handle + 1 + 1)
               else (next_handle, next_handle + 1))
        in (handle, None, gh_insert table handle \<lparr>pt_handle = handle, pt_id = ident\<rparr>, next_handle))"

definition remove_point ::
  "(guint32, debug_point) ghash \<Rightarrow> guint32 \<Rightarrow> gerror option \<times> (guint32, debug_point) ghash" where
  "remove_point table handle =
     (if handle = 0 \<or> \<not> gh_contains table handle
      then (Some \<lparr>err_code = G_IO_ERROR_CODE ''NOT_FOUND'',
                  err_message = ''unknown handle '' @ show_nat (unat handle)\<rparr>, table)
      else (None, gh_remove table handle))"

definition find_point_by_id :: "(guint32, debug_point) ghash \<Rightarrow> string \<Rightarrow> debug_point option" where
  "find_point_by_id table ident = find (\<lambda>p. pt_id p = ident) (map snd table)"

definition st_core_debug_add_breakpoint :: "st_core_debug \<Rightarrow> string \<Rightarrow> guint32 \<times> st_core_debug" where
  "st_core_debug_add_breakpoint self ident =
     (let (handle, _, table, next) = add_point (db_breakpoints self) (db_next_handle self) ident
      in (handle, self\<lparr>db_breakpoints := table, db_next_handle := next\<rparr>))"

definition st_core_debug_add_watchpoint :: "st_core_debug \<Rightarrow> string \<Rightarrow> guint32 \<times> st_core_debug" where
  "st_core_debug_add_watchpoint self ident =
     (let (handle, _, table, next) = add_point (db_watchpoints self) (db_next_handle self) ident
      in (handle, self\<lparr>db_watchpoints := table, db_next_handle := next\<rparr>))"

definition st_core_debug_remove_breakpoint :: "st_core_debug \<Rightarrow> guint32 \<Rightarrow> bool \<times> st_core_debug" where
  "st_core_debug_remove_breakpoint self handle =
     (let (e, table) = remove_point (db_breakpoints self) handle
      in (e = None, self\<lparr>db_breakpoints := table\<rparr>))"

definition st_core_debug_remove_watchpoint :: "st_core_debug \<Rightarrow> guint32 \<Rightarrow> bool \<times> st_core_debug" where
  "st_core_debug_remove_watchpoint self handle =
     (let (e, table) = remove_point (db_watchpoints self) handle
      in (e = None, self\<lparr>db_watchpoints := table\<rparr>))"

section \<open>Stopping the engine\<close>

definition enter_stopped ::
  "st_core_debug \<Rightarrow> string \<Rightarrow> string \<Rightarrow> f64 \<Rightarrow> guint32 \<Rightarrow> st_core_debug" where
  "enter_stopped self reason ident v handle =
     broadcast_signal
       (self\<lparr>db_paused := True, db_stop_reason := Some reason, db_stop_id := Some ident,
             db_stop_value := v, db_stop_handle := handle\<rparr>)
       (Stopped reason ident v handle)"

definition st_core_debug_continue :: "st_core_debug \<Rightarrow> st_core_debug" where
  "st_core_debug_continue self =
     (if \<not> db_paused self then self
      else self\<lparr>db_paused := False, db_stop_reason := None, db_stop_id := None,
                db_stop_value := f64_zero, db_stop_handle := 0\<rparr>)"

definition st_core_debug_is_paused :: "st_core_debug \<Rightarrow> bool" where
  "st_core_debug_is_paused self = db_paused self"

definition st_core_debug_intercept_change ::
  "st_core_debug \<Rightarrow> string \<Rightarrow> f64 \<Rightarrow> bool \<times> st_core_debug" where
  "st_core_debug_intercept_change self ident v =
     (if db_paused self then (True, self)
      else case find_point_by_id (db_watchpoints self) ident of
        Some watch \<Rightarrow> (True, enter_stopped self ''watchpoint'' ident v (pt_handle watch))
      | None \<Rightarrow>
        (case find_point_by_id (db_breakpoints self) ident of
           Some brk \<Rightarrow> (True, enter_stopped self ''breakpoint'' ident v (pt_handle brk))
         | None \<Rightarrow> (False, self)))"

definition st_core_debug_intercept_apply ::
  "st_core_debug \<Rightarrow> string option \<Rightarrow> bool \<times> st_core_debug" where
  "st_core_debug_intercept_apply self ident =
     (if db_paused self then (True, self)
      else case ident of
        None \<Rightarrow> (False, self)
      | Some s \<Rightarrow>
        (case find_point_by_id (db_breakpoints self) s of
           Some brk \<Rightarrow> (True, enter_stopped self ''breakpoint'' s f64_zero (pt_handle brk))
         | None \<Rightarrow> (False, self)))"

end
