(* ===== verification/DebugPoints.thy ===== *)
theory DebugPoints
  imports Debug
begin

text \<open>
  What the debugger promises: handles stay unique until the counter wraps, a stop lasts until
  \<open>Continue\<close> and names the point that was hit, the mirrored peers follow the events, and the
  address to listen on is read back as it is written.
\<close>

section \<open>Runs of the debugger\<close>

datatype debug_op =
    AddBreakpoint string
  | AddWatchpoint string
  | RemoveBreakpoint guint32
  | RemoveWatchpoint guint32
  | Continue
  | InterceptChange string f64
  | InterceptApply "string option"
  | Emit debug_signal
  | PeerEvent string string guint16 guint32 string
  | Connect bool nat
  | Disconnect nat
  | StartServer "string \<Rightarrow> gerror + string option" "string option"
  | StopServer

fun debug_step :: "debug_op \<Rightarrow> st_core_debug \<Rightarrow> st_core_debug" where
  "debug_step (AddBreakpoint s) d = snd (st_core_debug_add_breakpoint d s)"
| "debug_step (AddWatchpoint s) d = snd (st_core_debug_add_watchpoint d s)"
| "debug_step (RemoveBreakpoint h) d = snd (st_core_debug_remove_breakpoint d h)"
| "debug_step (RemoveWatchpoint h) d = snd (st_core_debug_remove_watchpoint d h)"
| "debug_step Continue d = st_core_debug_continue d"
| "debug_step (InterceptChange s v) d = snd (st_core_debug_intercept_change d s v)"
| "debug_step (InterceptApply s) d = snd (st_core_debug_intercept_apply d s)"
| "debug_step (Emit s) d = broadcast_signal d s"
| "debug_step (PeerEvent n a p s ev) d = st_core_debug_emit_peer_changed d n a p s ev"
| "debug_step (Connect registered c) d = snd (on_new_connection registered c d)"
| "debug_step (Disconnect c) d = connection_closed c d"
| "debug_step (StartServer listen spec) d = snd (st_core_debug_start listen spec d)"
| "debug_step StopServer d = st_core_debug_stop d"

fun debug_run :: "debug_op list \<Rightarrow> st_core_debug \<Rightarrow> st_core_debug" where
  "debug_run [] d = d"
| "debug_run (c # cs) d = debug_run cs (debug_step c d)"

fun is_add :: "debug_op \<Rightarrow> bool" where
  "is_add (AddBreakpoint s) = (s \<noteq> [])"
| "is_add (AddWatchpoint s) = (s \<noteq> [])"
| "is_add _ = False"

lemma debug_run_append: "debug_run (xs @ ys) d = debug_run ys (debug_run xs d)"
  by (induction xs arbitrary: d) auto

lemma broadcast_frame [simp]:
  "db_breakpoints (broadcast_signal d s) = db_breakpoints d"
  "db_watchpoints (broadcast_signal d s) = db_watchpoints d"
  "db_next_handle (broadcast_signal d s) = db_next_handle d"
  "db_paused (broadcast_signal d s) = db_paused d"
  "db_stop_reason (broadcast_signal d s) = db_stop_reason d"
  "db_stop_id (broadcast_signal d s) = db_stop_id d"
  "db_stop_value (broadcast_signal d s) = db_stop_value d"
  "db_stop_handle (broadcast_signal d s) = db_stop_handle d"
  "db_peers (broadcast_signal d s) = db_peers d"
  by (simp_all add: broadcast_signal_def)

lemma peer_changed_frame [simp]:
  "db_breakpoints (st_core_debug_emit_peer_changed d n a p s ev) = db_breakpoints d"
  "db_watchpoints (st_core_debug_emit_peer_changed d n a p s ev) = db_watchpoints d"
  "db_next_handle (st_core_debug_emit_peer_changed d n a p s ev) = db_next_handle d"
  "db_paused (st_core_debug_emit_peer_changed d n a p s ev) = db_paused d"
  "db_stop_reason (st_core_debug_emit_peer_changed d n a p s ev) = db_stop_reason d"
  "db_stop_id (st_core_debug_emit_peer_changed d n a p s ev) = db_stop_id d"
  "db_stop_value (st_core_debug_emit_peer_changed d n a p s ev) = db_stop_value d"
  "db_stop_handle (st_core_debug_emit_peer_changed d n a p s ev) = db_stop_handle d"
  by (simp_all add: st_core_debug_emit_peer_changed_def peers_upsert_def split_beta Let_def)

lemma connection_frame [simp]:
  "db_breakpoints (snd (on_new_connection r c d)) = db_breakpoints d"
  "db_watchpoints (snd (on_new_connection r c d)) = db_watchpoints d"
  "db_next_handle (snd (on_new_connection r c d)) = db_next_handle d"
  "db_paused (snd (on_new_connection r c d)) = db_paused d"
  "db_stop_reason (snd (on_new_connection r c d)) = db_stop_reason d"
  "db_stop_id (snd (on_new_connection r c d)) = db_stop_id d"
  "db_stop_value (snd (on_new_connection r c d)) = db_stop_value d"
  "db_stop_handle (snd (on_new_connection r c d)) = db_stop_handle d"
  "db_peers (snd (on_new_connection r c d)) = db_peers d"
  "db_breakpoints (connection_closed c d) = db_breakpoints d"
  "db_watchpoints (connection_closed c d) = db_watchpoints d"
  "db_next_handle (connection_closed c d) = db_next_handle d"
  "db_paused (connection_closed c d) = db_paused d"
  "db_stop_reason (connection_closed c d) = db_stop_reason d"
  "db_stop_id (connection_closed c d) = db_stop_id d"
  "db_stop_value (connection_closed c d) = db_stop_value d"
  "db_stop_handle (connection_closed c d) = db_stop_handle d"
  "db_peers (connection_closed c d) = db_peers d"
  "db_breakpoints (st_core_debug_stop d) = db_breakpoints d"
  "db_watchpoints (st_core_debug_stop d) = db_watchpoints d"
  "db_next_handle (st_core_debug_stop d) = db_next_handle d"
  "db_paused (st_core_debug_stop d) = db_paused d"
  "db_stop_reason (st_core_debug_stop d) = db_stop_reason d"
  "db_stop_id (st_core_debug_stop d) = db_stop_id d"
  "db_stop_value (st_core_debug_stop d) = db_stop_value d"
  "db_stop_handle (st_core_debug_stop d) = db_stop_handle d"
  "db_peers (st_core_debug_stop d) = db_peers d"
  by (simp_all add: on_new_connection_def connection_closed_def st_core_debug_stop_def Let_def)

lemma start_frame [simp]:
  "db_breakpoints (snd (st_core_debug_start l b d)) = db_breakpoints d"
  "db_watchpoints (snd (st_core_debug_start l b d)) = db_watchpoints d"
  "db_next_handle (snd (st_core_debug_start l b d)) = db_next_handle d"
  "db_paused (snd (st_core_debug_start l b d)) = db_paused d"
  "db_stop_reason (snd (st_core_debug_start l b d)) = db_stop_reason d"
  "db_stop_id (snd (st_core_debug_start l b d)) = db_stop_id d"
  "db_stop_value (snd (st_core_debug_start l b d)) = db_stop_value d"
  "db_stop_handle (snd (st_core_debug_start l b d)) = db_stop_handle d"
  "db_peers (snd (st_core_debug_start l b d)) = db_peers d"
  by (simp_all add: st_core_debug_start_def Let_def split: sum.split prod.split)

lemmas point_ops =
  st_core_debug_add_breakpoint_def st_core_debug_add_watchpoint_def
  st_core_debug_remove_breakpoint_def st_core_debug_remove_watchpoint_def

lemmas stop_ops =
  st_core_debug_intercept_change_def st_core_debug_intercept_apply_def enter_stopped_def
  st_core_debug_continue_def

section \<open>Handles\<close>

text \<open>
  The points of both tables: stored under their own handles, which are below the counter. \<open>n\<close>
  counts the points added so far.
\<close>

definition points_ok :: "nat \<Rightarrow> st_core_debug \<Rightarrow> bool" where
  "points_ok n d \<longleftrightarrow>
     unat (db_next_handle d) = n + 1 \<and> gh_wf (db_breakpoints d) \<and> gh_wf (db_watchpoints d) \<and>
     (\<forall>h p. gh_lookup (db_breakpoints d) h = Some p \<longrightarrow>
        pt_handle p = h \<and> h \<noteq> 0 \<and> h < db_next_handle d \<and> gh_lookup (db_watchpoints d) h = None) \<and>
     (\<forall>h p. gh_lookup (db_watchpoints d) h = Some p \<longrightarrow> pt_handle p = h \<and> h \<noteq> 0 \<and> h < db_next_handle d)"

lemma points_ok_init: "points_ok 0 st_core_debug_init"
  by (simp add: points_ok_def st_core_debug_init_def gh.wf_empty)

lemma next_handle_step:
  "unat (h :: guint32) = n + 1 \<Longrightarrow> n < 2 ^ 32 - 2 \<Longrightarrow> unat (h + 1) = n + 2 \<and> h < h + 1 \<and> h \<noteq> 0"
proof -
  assume h: "unat h = n + 1" "n < 2 ^ 32 - 2"
  then have "unat (h + 1) = n + 2" using unat_add_lem [of h 1] by simp
  with h show ?thesis by (auto simp: word_less_nat_alt)
qed

lemma points_ok_other: "points_ok n d \<Longrightarrow> db_breakpoints d' = db_breakpoints d \<Longrightarrow>
    db_watchpoints d' = db_watchpoints d \<Longrightarrow> db_next_handle d' = db_next_handle d \<Longrightarrow> points_ok n d'"
  by (simp add: points_ok_def)

lemma points_ok_add:
  assumes ok: "points_ok n d" and n: "n < 2 ^ 32 - 2" and s: "s \<noteq> []"
  shows "points_ok (n + 1) (snd (st_core_debug_add_breakpoint d s))"
    and "points_ok (n + 1) (snd (st_core_debug_add_watchpoint d s))"
    and "fst (st_core_debug_add_breakpoint d s) = db_next_handle d"
    and "fst (st_core_debug_add_watchpoint d s) = db_next_handle d"
proof -
  let ?h = "db_next_handle d"
  have h: "unat (?h + 1) = n + 2" "?h < ?h + 1" "?h \<noteq> 0"
    using next_handle_step [of ?h n] ok n by (auto simp: points_ok_def)
  have lt: "k < ?h \<Longrightarrow> k < ?h + 1 \<and> k \<noteq> ?h" for k using h(2) by auto
  have fresh: "gh_lookup (db_breakpoints d) ?h = None" "gh_lookup (db_watchpoints d) ?h = None"
    using ok unfolding points_ok_def by (metis less_irrefl not_None_eq)+
  show "points_ok (n + 1) (snd (st_core_debug_add_breakpoint d s))"
    using ok h lt fresh s
    by (auto simp: points_ok_def point_ops add_point_def gh.wf_insert gh.lookup_insert split: if_splits)
  show "points_ok (n + 1) (snd (st_core_debug_add_watchpoint d s))"
    using ok h lt fresh s
    by (auto simp: points_ok_def point_ops add_point_def gh.wf_insert gh.lookup_insert split: if_splits)
  show "fst (st_core_debug_add_breakpoint d s) = ?h" "fst (st_core_debug_add_watchpoint d s) = ?h"
    using s h(3) by (simp_all add: point_ops add_point_def)
qed

lemma add_empty_id:
  "st_core_debug_add_breakpoint d [] = (0, d)" "st_core_debug_add_watchpoint d [] = (0, d)"
  by (simp_all add: point_ops add_point_def)

lemma points_ok_step:
  assumes ok: "points_ok n d" and n: "is_add c \<Longrightarrow> n < 2 ^ 32 - 2"
  shows "points_ok (if is_add c then n + 1 else n) (debug_step c d)"
proof (cases c)
  case (AddBreakpoint s)
  then show ?thesis
    using points_ok_add(1) [OF ok, of s] n ok by (cases "s = []") (simp_all add: add_empty_id)
next
  case (AddWatchpoint s)
  then show ?thesis
    using points_ok_add(2) [OF ok, of s] n ok by (cases "s = []") (simp_all add: add_empty_id)
next
  case (RemoveBreakpoint h)
  then show ?thesis
    using ok by (auto simp: points_ok_def point_ops remove_point_def gh.wf_remove gh.lookup_remove split: if_splits)
next
  case (RemoveWatchpoint h)
  then show ?thesis
    using ok by (auto simp: points_ok_def point_ops remove_point_def gh.wf_remove gh.lookup_remove split: if_splits)
qed (use ok in \<open>auto intro: points_ok_other simp: stop_ops split: option.split\<close>)

lemma points_ok_run:
  "points_ok n d \<Longrightarrow> n + length (filter is_add cs) < 2 ^ 32 - 1 \<Longrightarrow>
   points_ok (n + length (filter is_add cs)) (debug_run cs d)"
proof (induction cs arbitrary: n d)
  case (Cons c cs)
  have "points_ok (if is_add c then n + 1 else n) (debug_step c d)"
    using Cons.prems(2) by (intro points_ok_step [OF Cons.prems(1)]) auto
  from Cons.IH [OF this] Cons.prems(2) show ?case by (simp split: if_splits)
qed simp

text \<open>C36: Until four thousand million points have been added, a new breakpoint and a new watchpoint alike get a
  nonzero handle that no live point of either table has; the new point is found under its handle, every other handle
  leads where it led, and the other table stays as it is.\<close>

theorem handles_unique:
  assumes "length (filter is_add cs) < 2 ^ 32 - 2" "s \<noteq> []"
  shows "let d = debug_run cs st_core_debug_init;
             (h, d1) = st_core_debug_add_breakpoint d s; (k, d2) = st_core_debug_add_watchpoint d s
         in h \<noteq> 0 \<and> gh_lookup (db_breakpoints d) h = None \<and> gh_lookup (db_watchpoints d) h = None \<and>
           gh_lookup (db_breakpoints d1) = (gh_lookup (db_breakpoints d))(h \<mapsto> \<lparr>pt_handle = h, pt_id = s\<rparr>) \<and>
           db_watchpoints d1 = db_watchpoints d \<and>
           k \<noteq> 0 \<and> gh_lookup (db_breakpoints d) k = None \<and> gh_lookup (db_watchpoints d) k = None \<and>
           gh_lookup (db_watchpoints d2) = (gh_lookup (db_watchpoints d))(k \<mapsto> \<lparr>pt_handle = k, pt_id = s\<rparr>) \<and>
           db_breakpoints d2 = db_breakpoints d"
proof -
  define d where "d = debug_run cs st_core_debug_init"
  let ?n = "length (filter is_add cs)" and ?h = "db_next_handle d"
  have ok: "points_ok ?n d" unfolding d_def using points_ok_run [OF points_ok_init, of cs] assms(1) by simp
  have h: "?h \<noteq> 0" using ok assms(1) by (auto simp: points_ok_def)
  have "gh_lookup (db_breakpoints d) ?h = None" "gh_lookup (db_watchpoints d) ?h = None"
    using ok unfolding points_ok_def by (metis less_irrefl not_None_eq)+
  then show ?thesis
    using assms(2) h unfolding d_def [symmetric]
    by (simp add: point_ops add_point_def gh.lookup_insert split_beta Let_def)
qed

theorem handles_unique_witness:
  "let d = debug_run [AddBreakpoint ''lamp'', AddWatchpoint ''door''] st_core_debug_init;
       (h, d1) = st_core_debug_add_breakpoint d ''heat''; (k, d2) = st_core_debug_add_watchpoint d ''heat''
   in h \<noteq> 0 \<and> gh_lookup (db_breakpoints d) h = None \<and> gh_lookup (db_watchpoints d) h = None \<and>
     gh_lookup (db_breakpoints d1) = (gh_lookup (db_breakpoints d))(h \<mapsto> \<lparr>pt_handle = h, pt_id = ''heat''\<rparr>) \<and>
     db_watchpoints d1 = db_watchpoints d \<and>
     k \<noteq> 0 \<and> gh_lookup (db_breakpoints d) k = None \<and> gh_lookup (db_watchpoints d) k = None \<and>
     gh_lookup (db_watchpoints d2) = (gh_lookup (db_watchpoints d))(k \<mapsto> \<lparr>pt_handle = k, pt_id = ''heat''\<rparr>) \<and>
     db_breakpoints d2 = db_breakpoints d"
  by (rule handles_unique) simp_all

text \<open>The counter wraps: \<open>add_point\<close> skips 0 and nothing else.\<close>

fun churn :: "nat \<Rightarrow> nat \<Rightarrow> debug_op list" where
  "churn h 0 = []"
| "churn h (Suc n) = AddWatchpoint ''x'' # RemoveWatchpoint (of_nat h) # churn (h + 1) n"

lemma churn_run:
  "db_next_handle d = of_nat h \<Longrightarrow> db_watchpoints d = [] \<Longrightarrow> 0 < h \<Longrightarrow> h + n \<le> 2 ^ 32 \<Longrightarrow>
   debug_run (churn h n) d = d\<lparr>db_next_handle := of_nat (h + n)\<rparr>"
proof (induction n arbitrary: h d)
  case (Suc n)
  let ?d = "debug_step (RemoveWatchpoint (of_nat h)) (debug_step (AddWatchpoint ''x'') d)"
  have "unat (of_nat h :: guint32) = h" using Suc.prems by (simp add: unat_of_nat)
  then have h: "(of_nat h :: guint32) \<noteq> 0" using Suc.prems(3) by (metis unat_0 less_irrefl)
  then have d: "?d = d\<lparr>db_next_handle := of_nat (h + 1)\<rparr>"
    using Suc.prems(1,2)
    by (simp add: point_ops add_point_def remove_point_def gh_remove_def gh_contains_def gh_lookup_def add.commute)
  show ?case
    using Suc.IH [of ?d "h + 1"] Suc.prems by (simp add: d del: debug_step.simps of_nat_add)
qed simp

text \<open>After \<open>2^32 - 1\<close> points the handle of a live breakpoint is given out again, and the
  breakpoint is lost.\<close>

theorem handle_wrap_loses_breakpoint:
  "\<exists>cs. let d = debug_run cs st_core_debug_init; (h, d') = st_core_debug_add_breakpoint d ''b'' in
     gh_lookup (db_breakpoints d) h = Some \<lparr>pt_handle = h, pt_id = ''a''\<rparr> \<and>
     find_point_by_id (db_breakpoints d') ''a'' = None"
proof
  let ?d0 = "debug_run [AddBreakpoint ''a''] st_core_debug_init"
  have d0: "db_next_handle ?d0 = 2" "db_watchpoints ?d0 = []"
    "db_breakpoints ?d0 = [(1, \<lparr>pt_handle = 1, pt_id = ''a''\<rparr>)]"
    by (simp_all add: point_ops add_point_def st_core_debug_init_def gh_new_def)
  have "debug_run (churn 2 (2 ^ 32 - 2)) ?d0 = ?d0\<lparr>db_next_handle := of_nat (2 + (2 ^ 32 - 2))\<rparr>"
    by (rule churn_run) (simp_all add: d0 del: debug_run.simps)
  also have "of_nat (2 + (2 ^ 32 - 2)) = (0 :: guint32)" by simp
  finally have d: "debug_run ([AddBreakpoint ''a''] @ churn 2 (2 ^ 32 - 2)) st_core_debug_init
      = ?d0\<lparr>db_next_handle := 0\<rparr>"
    unfolding debug_run_append .
  show "let d = debug_run ([AddBreakpoint ''a''] @ churn 2 (2 ^ 32 - 2)) st_core_debug_init;
      (h, d') = st_core_debug_add_breakpoint d ''b'' in
     gh_lookup (db_breakpoints d) h = Some \<lparr>pt_handle = h, pt_id = ''a''\<rparr> \<and>
     find_point_by_id (db_breakpoints d') ''a'' = None"
    unfolding d by (simp add: point_ops add_point_def d0 gh_lookup_def find_point_by_id_def del: debug_run.simps)
qed

section \<open>Stops\<close>

definition stop_info :: "st_core_debug \<Rightarrow> bool \<times> string option \<times> string option \<times> f64 \<times> guint32" where
  "stop_info d = (db_paused d, db_stop_reason d, db_stop_id d, db_stop_value d, db_stop_handle d)"

lemma stop_kept_step:
  "db_paused d \<Longrightarrow> c \<noteq> Continue \<Longrightarrow> stop_info (debug_step c d) = stop_info d"
  by (cases c) (simp_all add: stop_info_def point_ops stop_ops split_beta)

text \<open>Once stopped, whatever happens short of \<open>Continue\<close>, the debugger stays stopped at the
  same place, and it keeps every change away from the engine.\<close>

theorem stop_lasts:
  assumes "db_paused d" "Continue \<notin> set cs"
  shows "stop_info (debug_run cs d) = stop_info d \<and>
    fst (st_core_debug_intercept_change (debug_run cs d) s v) \<and>
    fst (st_core_debug_intercept_apply (debug_run cs d) t)"
proof -
  have "stop_info (debug_run cs d) = stop_info d" using assms
  proof (induction cs arbitrary: d)
    case (Cons c cs)
    then have c: "stop_info (debug_step c d) = stop_info d" using stop_kept_step [of d c] by auto
    then have "db_paused (debug_step c d)" using Cons.prems(1) by (simp add: stop_info_def)
    with Cons.IH [of "debug_step c d"] Cons.prems c show ?case by simp
  qed simp
  then show ?thesis using assms(1) by (simp add: stop_ops stop_info_def)
qed

lemma find_some: "find P xs = Some x \<Longrightarrow> P x \<and> x \<in> set xs"
  by (induction xs) (auto split: if_splits)

lemma find_point_live:
  assumes "gh_wf t" "find_point_by_id t s = Some p" "\<forall>h q. gh_lookup t h = Some q \<longrightarrow> pt_handle q = h"
  shows "gh_lookup t (pt_handle p) = Some p \<and> pt_id p = s"
proof -
  from find_some [OF assms(2) [unfolded find_point_by_id_def]] obtain h where
    "pt_id p = s" "(h, p) \<in> set t" by auto
  with gh_lookup_of_set [OF assms(1)] assms(3) show ?thesis by fastforce
qed

lemma find_point_none: "find_point_by_id t s = None \<longleftrightarrow> (\<forall>p\<in>snd ` set t. pt_id p \<noteq> s)"
  by (auto simp: find_point_by_id_def find_None_iff)

definition has_point :: "(guint32, debug_point) ghash \<Rightarrow> string \<Rightarrow> bool" where
  "has_point t s = list_ex (\<lambda>e. pt_id (snd e) = s) t"

lemma has_point_find: "has_point t s \<longleftrightarrow> find_point_by_id t s \<noteq> None"
  by (auto simp: has_point_def find_point_none list_ex_iff)

text \<open>C35: A change stops the core exactly when its name has a point. The stop names the change,
  a watchpoint goes before a breakpoint, the handle leads to a live point of that name, and
  every connection is told.\<close>

theorem change_stops_iff_point:
  assumes "length (filter is_add cs) < 2 ^ 32 - 1"
  shows "let d = debug_run cs st_core_debug_init; (hit, d') = st_core_debug_intercept_change d s v;
             t = (if has_point (db_watchpoints d) s then db_watchpoints d else db_breakpoints d)
         in db_paused d \<or>
            (if has_point (db_watchpoints d) s \<or> has_point (db_breakpoints d) s
             then hit \<and> db_paused d' \<and> db_stop_id d' = Some s \<and> db_stop_value d' = v \<and>
               db_stop_reason d' =
                 Some (if has_point (db_watchpoints d) s then ''watchpoint'' else ''breakpoint'') \<and>
               (\<exists>p. gh_lookup t (db_stop_handle d') = Some p \<and> pt_id p = s) \<and>
               (db_owner d \<longrightarrow> (\<forall>c\<in>set (db_connections d). \<exists>r h. (c, Stopped r s v h) \<in> set (db_sent d')))
             else \<not> hit \<and> d' = d)"
proof -
  define d where "d = debug_run cs st_core_debug_init"
  have ok: "points_ok (length (filter is_add cs)) d"
    unfolding d_def using points_ok_run [OF points_ok_init, of cs] assms by simp
  have w: "gh_lookup (db_watchpoints d) (pt_handle p) = Some p \<and> pt_id p = s"
    if "find_point_by_id (db_watchpoints d) s = Some p" for p
    using find_point_live [OF _ that] ok by (simp add: points_ok_def)
  have b: "gh_lookup (db_breakpoints d) (pt_handle p) = Some p \<and> pt_id p = s"
    if "find_point_by_id (db_breakpoints d) s = Some p" for p
    using find_point_live [OF _ that] ok by (simp add: points_ok_def)
  show ?thesis
    unfolding d_def [symmetric] has_point_find Let_def
    using w b by (auto simp: stop_ops broadcast_signal_def split: option.split)
qed

theorem change_stops_iff_point_witness:
  "let d = debug_run [Connect True 7, AddBreakpoint ''lamp'', AddWatchpoint ''lamp''] st_core_debug_init;
       (hit, d') = st_core_debug_intercept_change d ''lamp'' f64_one;
       t = (if has_point (db_watchpoints d) ''lamp'' then db_watchpoints d else db_breakpoints d)
   in db_paused d \<or>
      (if has_point (db_watchpoints d) ''lamp'' \<or> has_point (db_breakpoints d) ''lamp''
       then hit \<and> db_paused d' \<and> db_stop_id d' = Some ''lamp'' \<and> db_stop_value d' = f64_one \<and>
         db_stop_reason d' =
           Some (if has_point (db_watchpoints d) ''lamp'' then ''watchpoint'' else ''breakpoint'') \<and>
         (\<exists>p. gh_lookup t (db_stop_handle d') = Some p \<and> pt_id p = ''lamp'') \<and>
         (db_owner d \<longrightarrow>
           (\<forall>c\<in>set (db_connections d). \<exists>r h. (c, Stopped r ''lamp'' f64_one h) \<in> set (db_sent d')))
       else \<not> hit \<and> d' = d)"
  by (rule change_stops_iff_point) simp

theorem stop_lasts_witness:
  "let d = snd (st_core_debug_intercept_change
                  (snd (st_core_debug_add_breakpoint st_core_debug_init ''lamp'')) ''lamp'' f64_one)
   in stop_info (debug_run [InterceptChange ''door'' f64_zero, RemoveBreakpoint 1] d) = stop_info d \<and>
     fst (st_core_debug_intercept_change
            (debug_run [InterceptChange ''door'' f64_zero, RemoveBreakpoint 1] d) ''door'' f64_zero) \<and>
     fst (st_core_debug_intercept_apply
            (debug_run [InterceptChange ''door'' f64_zero, RemoveBreakpoint 1] d) None)"
  unfolding Let_def
  by (rule stop_lasts)
    (simp_all add: stop_ops point_ops add_point_def st_core_debug_init_def find_point_by_id_def gh_new_def)

section \<open>Peers\<close>

lemma peer_kept_step:
  assumes "\<forall>n a p s ev. c = PeerEvent n a p s ev \<longrightarrow> n \<noteq> name"
  shows "gh_lookup (db_peers (debug_step c d)) name = gh_lookup (db_peers d) name"
  using assms
  by (cases c) (auto simp: point_ops stop_ops split_beta st_core_debug_emit_peer_changed_def peers_upsert_def
      Let_def split: option.split)

definition no_event :: "string \<Rightarrow> debug_op list \<Rightarrow> bool" where
  "no_event name cs = list_all (\<lambda>c. case c of PeerEvent n a p s ev \<Rightarrow> n \<noteq> name | _ \<Rightarrow> True) cs"

lemma peer_kept_run:
  "no_event name cs \<Longrightarrow> gh_lookup (db_peers (debug_run cs d)) name = gh_lookup (db_peers d) name"
proof (induction cs arbitrary: d)
  case (Cons c cs)
  then have "gh_lookup (db_peers (debug_step c d)) name = gh_lookup (db_peers d) name"
    by (intro peer_kept_step) (auto simp: no_event_def)
  with Cons show ?case by (simp add: no_event_def)
qed simp

text \<open>When the core removes a ready peer it does not know the address any more and passes an
  empty one: the debugger reports the address and port the peer was announced with, and forgets
  the peer.\<close>

theorem removed_peer_address:
  assumes "ev \<noteq> ''removed''" "ev \<noteq> ''failed''" "no_event name cs"
  shows "let d = debug_run cs (st_core_debug_emit_peer_changed d0 name a p s ev);
             d' = st_core_debug_emit_peer_changed d name '''' 0 s' ''removed''
         in d' = broadcast_signal (d\<lparr>db_peers := gh_remove (db_peers d) name\<rparr>)
                   (PeerChanged name a (ucast p) s' ''removed'') \<and>
            gh_lookup (db_peers d') name = None"
proof -
  have "gh_lookup (db_peers (debug_run cs (st_core_debug_emit_peer_changed d0 name a p s ev))) name
      = Some \<lparr>dp_address = a, dp_port = p, dp_state = s\<rparr>"
    using assms by (simp add: peer_kept_run) (simp add: st_core_debug_emit_peer_changed_def peers_upsert_def)
  then show ?thesis
    unfolding Let_def by (simp add: st_core_debug_emit_peer_changed_def [of _ _ _ _ _ "''removed''"])
qed

theorem removed_peer_address_witness:
  "let d = debug_run [AddBreakpoint ''lamp'', PeerEvent ''ST:B'' ''b'' 2 2 ''ready'']
             (st_core_debug_emit_peer_changed st_core_debug_init ''ST:A'' ''a'' 1 2 ''ready'');
       d' = st_core_debug_emit_peer_changed d ''ST:A'' '''' 0 3 ''removed''
   in d' = broadcast_signal (d\<lparr>db_peers := gh_remove (db_peers d) ''ST:A''\<rparr>)
             (PeerChanged ''ST:A'' ''a'' (ucast (1 :: guint16)) 3 ''removed'') \<and>
      gh_lookup (db_peers d') ''ST:A'' = None"
  by (rule removed_peer_address) (simp_all add: no_event_def)

section \<open>The address to listen on\<close>

lemma split_last_colon_join:
  "CHR '':'' \<notin> set t \<Longrightarrow> split_last_colon (s @ '':'' @ t) = Some (s, t)"
proof -
  assume "CHR '':'' \<notin> set t"
  then have "takeWhile (\<lambda>c. c \<noteq> CHR '':'') (rev t @ CHR '':'' # rev s) = rev t"
    "dropWhile (\<lambda>c. c \<noteq> CHR '':'') (rev t @ CHR '':'' # rev s) = CHR '':'' # rev s"
    by (auto simp: takeWhile_append dropWhile_append)
  then show ?thesis by (simp add: split_last_colon_def Let_def)
qed

lemma split_last_colon_Some:
  "split_last_colon s = Some (a, b) \<Longrightarrow> s = a @ '':'' @ b \<and> CHR '':'' \<notin> set b"
proof -
  let ?P = "\<lambda>c. c \<noteq> CHR '':''"
  assume h: "split_last_colon s = Some (a, b)"
  then have m: "CHR '':'' \<in> set s" by (auto simp: split_last_colon_def Let_def split: if_splits)
  then have "dropWhile ?P (rev s) \<noteq> []" by auto
  then obtain u where u: "dropWhile ?P (rev s) = CHR '':'' # u"
    using hd_dropWhile [of ?P "rev s"] by (cases "dropWhile ?P (rev s)") auto
  have "rev s = takeWhile ?P (rev s) @ CHR '':'' # u"
    using takeWhile_dropWhile_id [of ?P "rev s"] u by simp
  then have "rev (rev s) = rev (takeWhile ?P (rev s) @ CHR '':'' # u)" by (rule arg_cong)
  then have "s = rev u @ '':'' @ rev (takeWhile ?P (rev s))" by (simp del: rev_is_rev_conv)
  moreover have "CHR '':'' \<notin> set (takeWhile ?P (rev s))" by (auto dest: set_takeWhileD)
  moreover have "a = rev u" "b = rev (takeWhile ?P (rev s))"
    using h m u by (simp_all add: split_last_colon_def Let_def)
  ultimately show ?thesis by simp
qed

lemma digit_not_space: "is_digit c \<Longrightarrow> \<not> is_space c \<and> c \<noteq> CHR ''-'' \<and> c \<noteq> CHR ''+'' \<and> c \<noteq> CHR '':''"
  by (auto simp: is_digit_def is_space_def)

lemma strtoul_show_nat: "n < 2 ^ 64 \<Longrightarrow> strtoul (show_nat n) = (of_nat n, [])"
proof -
  assume n: "n < 2 ^ 64"
  note takeWhile_eq_all_conv [simp del] dropWhile_eq_Nil_conv [simp del]
  obtain c s where s: "show_nat n = c # s" "is_digit c" "list_all is_digit s"
    using show_nat_nonempty [of n] show_nat_digits [of n] by (cases "show_nat n") auto
  then have t: "takeWhile is_digit (show_nat n) = show_nat n" "dropWhile is_digit (show_nat n) = []"
    using show_nat_digits [of n] by (auto simp: list_all_iff takeWhile_eq_all_conv dropWhile_eq_Nil_conv)
  have "dropWhile is_space (show_nat n) = show_nat n" "hd (show_nat n) \<noteq> CHR ''-''"
    "hd (show_nat n) \<noteq> CHR ''+''"
    using s digit_not_space [OF s(2)] by auto
  with t n show ?thesis by (simp add: strtoul_def Let_def nat_of_digits_show_nat)
qed

text \<open>C37: A bind address written from a host and a port is read back as that host and that
  port, IPv6 hosts with colons included.\<close>

theorem parse_bind_spec_roundtrip:
  assumes "host \<noteq> []"
  shows "parse_bind_spec (host @ '':'' @ show_nat (unat port)) = Inr (host, port)"
proof -
  have "CHR '':'' \<notin> set (show_nat (unat port))"
    using show_nat_digits [of "unat port"] digit_not_space by (auto simp: list_all_iff)
  moreover have "unat port < 2 ^ 64" using unsigned_less [of port, where 'a = nat] by simp
  moreover have up: "unat (of_nat (unat port) :: guint64) = unat port"
    using unsigned_less [of port, where 'a = nat] by (simp only: unat_of_nat) simp
  then have "\<not> (65535 :: guint64) < of_nat (unat port)"
    using unsigned_less [of port, where 'a = nat] unfolding word_less_nat_alt by simp
  moreover have "unat (ucast (of_nat (unat port) :: guint64) :: guint16) = unat port"
    unfolding unsigned_ucast_eq up using unsigned_less [of port, where 'a = nat]
    by (simp add: take_bit_nat_eq_self)
  then have "ucast (of_nat (unat port) :: guint64) = port" by (simp only: word_unat_eq_iff)
  ultimately show ?thesis
    using assms show_nat_nonempty [of "unat port", symmetric]
    by (simp add: parse_bind_spec_def split_last_colon_join [simplified] strtoul_show_nat)
qed

theorem parse_bind_spec_roundtrip_witness:
  "parse_bind_spec (''::1'' @ '':'' @ show_nat (unat (17373 :: guint16))) = Inr (''::1'', 17373)"
  by (rule parse_bind_spec_roundtrip) simp

text \<open>C38: A port that is accepted fills what follows the last colon and is below 65536; a minus
  sign does not make it invalid, since \<open>strtoul\<close> negates modulo \<open>2^64\<close>.\<close>

theorem parse_bind_spec_bounds:
  "(case parse_bind_spec spec of
      Inl e \<Rightarrow> err_code e = G_IO_ERROR_CODE ''INVALID_ARGUMENT''
    | Inr (host, port) \<Rightarrow>
        host \<noteq> [] \<and> (\<exists>rest. spec = host @ '':'' @ rest \<and> CHR '':'' \<notin> set rest \<and>
          strtoul rest = (ucast port, []))) \<and>
   parse_bind_spec ''host:-18446744073709551615'' = Inr (''host'', 1)"
proof
  have "ucast (ucast w :: guint16) = w" if "\<not> 65535 < w" for w :: guint64
  proof -
    have "unat w < 2 ^ 16" using that by (simp add: word_less_nat_alt not_less)
    then have "unat (ucast (ucast w :: guint16) :: guint64) = unat w"
      by (simp add: unsigned_ucast_eq unsigned_take_bit_eq take_bit_nat_eq_self)
    then show ?thesis by (simp only: word_unat_eq_iff)
  qed
  then show "case parse_bind_spec spec of
      Inl e \<Rightarrow> err_code e = G_IO_ERROR_CODE ''INVALID_ARGUMENT''
    | Inr (host, port) \<Rightarrow>
        host \<noteq> [] \<and> (\<exists>rest. spec = host @ '':'' @ rest \<and> CHR '':'' \<notin> set rest \<and>
          strtoul rest = (ucast port, []))"
    by (auto simp: parse_bind_spec_def bad_bind_def dest!: split_last_colon_Some
        split: option.split prod.split)
  show "parse_bind_spec ''host:-18446744073709551615'' = Inr (''host'', 1)" by code_simp
qed

end
