(* ===== verification/Core.thy ===== *)
theory Core
  imports EngineCalls Mysql DebugPoints
begin

text \<open>
  The core process, \<open>src/main.c\<close> and \<open>src/mdns.c\<close>: the peers that appear and go, the tables of
  their inputs and outputs, and the handlers of change signals, which store the history, ask the
  debugger, and apply the rules. A changed variable applies the rules again from inside the
  engine: \<open>st_core_var_changed_callback\<close> closes the recursion, and its first argument is the depth
  of nested applications the C stack has room for.
\<close>

section \<open>State\<close>

text \<open>What the callbacks of the engine act on. \<open>cd_debug\<close> is \<open>self->debug\<close>.\<close>

record core_data =
  cd_debug :: "st_core_debug option"
  cd_mysql :: st_mysql_client

type_synonym core_world = "core_data world"

text \<open>
  A \<open>PendingClient\<close> with the client it starts. \<open>co_pmem\<close> is the memory they live in: a freed
  one reads as \<open>None\<close>.
\<close>

record pending_client =
  pe_name :: string
  pe_address :: string
  pe_port :: guint16
  pe_client :: nat

record st_core =
  co_world :: core_world
  co_engine :: "core_data engine"
  co_clients :: "(string, nat) ghash"
  co_pending_clients :: "(string, nat) ghash"
  co_pmem :: "nat \<Rightarrow> pending_client option"
  co_next :: nat
  co_all_inputs :: io_table
  co_all_outputs :: io_table
  co_no_discovery :: bool
  co_srvmatch :: string
  co_rules_file :: "string option"

text \<open>
  What stays outside: the name and version of the build, the matching of service names, the buses and the database, the
  indeterminate result of \<open>EVAL\<close>, and the stack, as the depth of the expression code and the
  number of nested applications of the rules.
\<close>

record core_env =
  ce_package :: string
  ce_version :: string
  ce_match :: "string \<Rightarrow> bool"
  ce_bus :: "nat \<Rightarrow> bus"
  ce_db :: db
  ce_noret :: ev_result
  ce_fuel :: nat
  ce_depth :: nat

definition core_ctx :: "core_env \<Rightarrow> st_core \<Rightarrow> ctx" where
  "core_ctx E self = \<lparr>cx_inputs = Some (co_all_inputs self), cx_outputs = Some (co_all_outputs self),
     cx_bus = ce_bus E, cx_noret = ce_noret E, cx_fuel = ce_fuel E\<rparr>"

definition set_debug :: "st_core_debug \<Rightarrow> core_world \<Rightarrow> core_world" where
  "set_debug d w = w\<lparr>w_data := (w_data w)\<lparr>cd_debug := Some d\<rparr>\<rparr>"

definition set_mysql :: "st_mysql_client \<Rightarrow> core_world \<Rightarrow> core_world" where
  "set_mysql m w = w\<lparr>w_data := (w_data w)\<lparr>cd_mysql := m\<rparr>\<rparr>"

section \<open>Callbacks of the engine\<close>

text \<open>Registered only when the debugger exists.\<close>

definition on_debug_rule_triggered :: "string \<Rightarrow> string \<Rightarrow> core_data \<Rightarrow> core_data" where
  "on_debug_rule_triggered dest desc self =
     self\<lparr>cd_debug := map_option (\<lambda>d. st_core_debug_emit_rule_triggered d dest desc) (cd_debug self)\<rparr>"

definition on_debug_trigger_triggered :: "string \<Rightarrow> string \<Rightarrow> core_data \<Rightarrow> core_data" where
  "on_debug_trigger_triggered dest desc self =
     self\<lparr>cd_debug := map_option (\<lambda>d. st_core_debug_emit_trigger_triggered d dest desc) (cd_debug self)\<rparr>"

text \<open>What \<open>main\<close> does to the engine once the debugger runs.\<close>

definition connect_debug :: "core_data engine \<Rightarrow> core_data engine" where
  "connect_debug eng = eng\<lparr>en_on_rule_triggered := Some on_debug_rule_triggered,
     en_on_trigger_triggered := Some on_debug_trigger_triggered\<rparr>"

section \<open>Handlers of change signals\<close>

text \<open>
  A variable changed. With a debugger the value is described and evaluated first, for the signal
  and for the breakpoints; \<open>v\<close> stays 0 when the evaluation fails.
\<close>

primrec st_core_var_changed_callback ::
  "nat \<Rightarrow> ctx \<Rightarrow> core_data engine \<Rightarrow> st_var \<Rightarrow> core_world \<Rightarrow> core_world res" where
  "st_core_var_changed_callback 0 cx eng var w = Fuel"
| "st_core_var_changed_callback (Suc n) cx eng var w =
     (case cd_debug (w_data w) of
        None \<Rightarrow> engine_apply cx (st_core_var_changed_callback n cx eng) eng (Some (var_name var)) w
      | Some d \<Rightarrow>
          rbind (expr_describe (cx_fuel cx) (var_value var) (w_heap w)) (\<lambda>desc.
          let d = st_core_debug_emit_var_changed d (var_name var) desc in
          rbind (w_eval cx (var_value var) (set_debug d w)) (\<lambda>(r, w).
          let (hit, d) = st_core_debug_intercept_change d (var_name var)
                           (case r of EvTrue v \<Rightarrow> v | EvFalse _ \<Rightarrow> f64_zero)
          in if hit then Ret (set_debug d w)
             else engine_apply cx (st_core_var_changed_callback n cx eng) eng (Some (var_name var))
                    (set_debug d w))))"

text \<open>Storing a change unless the \<open>NO_HISTORY\<close> flag is set; a failure is only logged.\<close>

definition store_change :: "db \<Rightarrow> string \<Rightarrow> f64 \<Rightarrow> guint64 \<Rightarrow> core_world \<Rightarrow> core_world" where
  "store_change db name v flags w =
     (if flags AND ST_IO_FLAG_NO_HISTORY = 0
      then set_mysql (snd (st_mysql_client_store_history db (cd_mysql (w_data w)) name v flags)) w
      else w)"

definition st_core_input_changed_callback ::
  "core_env \<Rightarrow> ctx \<Rightarrow> core_data engine \<Rightarrow> st_input \<Rightarrow> core_world \<Rightarrow> core_world res" where
  "st_core_input_changed_callback E cx eng inp w =
     (let (hit, w) =
            (case cd_debug (w_data w) of
               None \<Rightarrow> (False, w)
             | Some d \<Rightarrow>
                 let (hit, d) = st_core_debug_intercept_change
                                  (st_core_debug_emit_input_changed d inp) (in_name inp) (in_val inp)
                 in (hit, set_debug d w));
          w = store_change (ce_db E) (in_name inp) (in_val inp) (in_flags inp) w
      in if hit then Ret w
         else engine_apply cx (st_core_var_changed_callback (ce_depth E) cx eng) eng
                (Some (in_name inp)) w)"

definition st_core_output_changed_callback ::
  "core_env \<Rightarrow> ctx \<Rightarrow> core_data engine \<Rightarrow> st_output \<Rightarrow> core_world \<Rightarrow> core_world res" where
  "st_core_output_changed_callback E cx eng out w =
     (let (hit, w) =
            (case cd_debug (w_data w) of
               None \<Rightarrow> (False, w)
             | Some d \<Rightarrow>
                 let (hit, d) = st_core_debug_intercept_change
                                  (st_core_debug_emit_output_changed d out) (out_name out) (out_val out)
                 in (hit, set_debug d w));
          w = store_change (ce_db E) (out_name out) (out_val out) (out_flags out) w
      in if hit then Ret w
         else engine_apply cx (st_core_var_changed_callback (ce_depth E) cx eng) eng
                (Some (out_name out)) w)"

definition st_core_stats_changed_callback :: "core_env \<Rightarrow> st_stats \<Rightarrow> core_world \<Rightarrow> core_world" where
  "st_core_stats_changed_callback E stats w =
     (let w = (case cd_debug (w_data w) of
                 None \<Rightarrow> w
               | Some d \<Rightarrow> set_debug (st_core_debug_emit_stats_changed d stats) w)
      in set_mysql (snd (st_mysql_client_store_stats (ce_db E) (cd_mysql (w_data w)) stats)) w)"

section \<open>The tables of inputs and outputs\<close>

text \<open>One entry for each input of each client, by name; of equal names the last one stays.\<close>

fun add_entries :: "nat \<Rightarrow> nat \<Rightarrow> string list \<Rightarrow> io_table \<Rightarrow> io_table" where
  "add_entries c i [] t = t"
| "add_entries c i (s # ss) t =
     add_entries c (Suc i) ss (gh_insert t s \<lparr>cm_client = c, cm_index = i\<rparr>)"

definition foreach_add_inputs :: "core_world \<Rightarrow> nat \<Rightarrow> io_table \<Rightarrow> io_table res" where
  "foreach_add_inputs w c t =
     rbind (deref (w_clients w c)) (\<lambda>cl. Ret (add_entries c 0 (map in_name (cl_inputs cl)) t))"

definition foreach_add_outputs :: "core_world \<Rightarrow> nat \<Rightarrow> io_table \<Rightarrow> io_table res" where
  "foreach_add_outputs w c t =
     rbind (deref (w_clients w c)) (\<lambda>cl. Ret (add_entries c 0 (map out_name (cl_outputs cl)) t))"

fun gh_foreach :: "('v \<Rightarrow> 't \<Rightarrow> 't res) \<Rightarrow> ('k, 'v) ghash \<Rightarrow> 't \<Rightarrow> 't res" where
  "gh_foreach f [] t = Ret t"
| "gh_foreach f (e # es) t = rbind (f (snd e) t) (gh_foreach f es)"

definition st_core_setup_inputs_hash_table :: "st_core \<Rightarrow> io_table res" where
  "st_core_setup_inputs_hash_table self =
     gh_foreach (foreach_add_inputs (co_world self)) (co_clients self) gh_new"

definition st_core_setup_outputs_hash_table :: "st_core \<Rightarrow> io_table res" where
  "st_core_setup_outputs_hash_table self =
     gh_foreach (foreach_add_outputs (co_world self)) (co_clients self) gh_new"

definition rebuild_tables :: "st_core \<Rightarrow> st_core res" where
  "rebuild_tables self =
     rbind (st_core_setup_inputs_hash_table self) (\<lambda>t.
     rbind (st_core_setup_outputs_hash_table (self\<lparr>co_all_inputs := t\<rparr>)) (\<lambda>u.
     Ret (self\<lparr>co_all_inputs := t, co_all_outputs := u\<rparr>)))"

section \<open>Peers\<close>

definition emit_peer ::
  "string \<Rightarrow> string \<Rightarrow> guint16 \<Rightarrow> guint32 \<Rightarrow> string \<Rightarrow> st_core \<Rightarrow> st_core" where
  "emit_peer name address port state ev self =
     (case cd_debug (w_data (co_world self)) of
        None \<Rightarrow> self
      | Some d \<Rightarrow> self\<lparr>co_world :=
          set_debug (st_core_debug_emit_peer_changed d name address port state ev) (co_world self)\<rparr>)"

text \<open>The values of \<open>STClientState\<close> in the signal.\<close>

definition state_code :: "st_client_state \<Rightarrow> guint32" where
  "state_code s = (case s of ST_CLIENT_STATE_IDLE \<Rightarrow> 0 | ST_CLIENT_STATE_PENDING \<Rightarrow> 1
     | ST_CLIENT_STATE_READY \<Rightarrow> 2 | ST_CLIENT_STATE_FAILED \<Rightarrow> 3)"

text \<open>
  Registering a value: its label, and its value when it differs from the last one stored.
\<close>

definition register_input :: "db \<Rightarrow> st_input \<Rightarrow> st_mysql_client \<Rightarrow> st_mysql_client" where
  "register_input db i m =
     (if in_flags i AND ST_IO_FLAG_NO_HISTORY = 0
      then let m = snd (st_mysql_client_store_input_label db m i);
               (db_val, m) = st_mysql_client_get_last_history_value db m (in_name i)
           in if \<not> f64_eq db_val (in_val i)
              then snd (st_mysql_client_store_history db m (in_name i) (in_val i) (in_flags i))
              else m
      else m)"

definition register_output :: "db \<Rightarrow> st_output \<Rightarrow> st_mysql_client \<Rightarrow> st_mysql_client" where
  "register_output db out m =
     (if out_flags out AND ST_IO_FLAG_NO_HISTORY = 0
      then let m = snd (st_mysql_client_store_output_label db m out);
               (db_val, m) = st_mysql_client_get_last_history_value db m (out_name out)
           in if \<not> f64_eq db_val (out_val out)
              then snd (st_mysql_client_store_history db m (out_name out) (out_val out) (out_flags out))
              else m
      else m)"

text \<open>
  \<open>register_ready_client\<close>: the client replaces an entry of the same name. Its signals lead to
  the handlers from here on.
\<close>

definition register_ready_client ::
  "core_env \<Rightarrow> st_core \<Rightarrow> string \<Rightarrow> nat \<Rightarrow> string \<Rightarrow> guint16 \<Rightarrow> st_core res" where
  "register_ready_client E self name client address port =
     rbind (deref (w_clients (co_world self) client)) (\<lambda>c.
       let self = emit_peer name address port (state_code ST_CLIENT_STATE_READY) ''ready''
                    (self\<lparr>co_clients := gh_insert (co_clients self) name client\<rparr>);
           m = cd_mysql (w_data (co_world self));
           m = fold (register_input (ce_db E)) (cl_inputs c) m;
           m = fold (register_output (ce_db E)) (cl_outputs c) m
       in rbind (rebuild_tables (self\<lparr>co_world := set_mysql m (co_world self)\<rparr>)) (\<lambda>self.
          let w = co_world self; cx = core_ctx E self in
          if (case cd_debug (w_data w) of None \<Rightarrow> False
              | Some d \<Rightarrow> fst (st_core_debug_intercept_apply d None))
          then Ret self
          else rbind (engine_apply cx (st_core_var_changed_callback (ce_depth E) cx (co_engine self))
                        (co_engine self) None w) (\<lambda>w.
               Ret (self\<lparr>co_world := w\<rparr>))))"

text \<open>
  \<open>pending_client_free\<close> on the entry of a name, as the table's destructor: the start is
  cancelled, whose callback comes later, and the memory is given back.
\<close>

definition remove_pending :: "st_core \<Rightarrow> string \<Rightarrow> st_core" where
  "remove_pending self name =
     (case gh_lookup (co_pending_clients self) name of
        None \<Rightarrow> self
      | Some p \<Rightarrow> self\<lparr>co_pending_clients := gh_remove (co_pending_clients self) name,
                      co_pmem := (co_pmem self)(p := None)\<rparr>)"

text \<open>
  The start of the client of \<open>pending\<close> has finished: \<open>result\<close> is the error of
  \<open>st_client_start_finish\<close>, and \<open>c\<close> the client with its snapshots.
\<close>

definition on_client_start_finished ::
  "core_env \<Rightarrow> nat \<Rightarrow> gerror option \<Rightarrow> st_client \<Rightarrow> st_core \<Rightarrow> st_core res" where
  "on_client_start_finished E p result c self =
     rbind (deref (co_pmem self p)) (\<lambda>pending.
       if gh_lookup (co_pending_clients self) (pe_name pending) \<noteq> Some p then Ret self
       else case result of
         Some e \<Rightarrow>
           Ret (remove_pending
                  (emit_peer (pe_name pending) (pe_address pending) (pe_port pending)
                     (state_code ST_CLIENT_STATE_FAILED) ''failed'' self)
                  (pe_name pending))
       | None \<Rightarrow>
           let w = co_world self;
               self = self\<lparr>co_pending_clients := gh_remove (co_pending_clients self) (pe_name pending),
                 co_world := w\<lparr>w_clients := (w_clients w)(pe_client pending \<mapsto> c)\<rparr>\<rparr>
           in rbind (register_ready_client E self (pe_name pending) (pe_client pending)
                       (pe_address pending) (pe_port pending)) (\<lambda>self.
              Ret (self\<lparr>co_pmem := (co_pmem self)(p := None)\<rparr>)))"

text \<open>A removed client is destroyed with its signals; the tables are rebuilt without it.\<close>

definition on_mdns_service_removed :: "string \<Rightarrow> st_core \<Rightarrow> st_core res" where
  "on_mdns_service_removed name self =
     rbind
       (if gh_contains (co_pending_clients self) name
        then rbind (deref (Option.bind (gh_lookup (co_pending_clients self) name) (co_pmem self))) (\<lambda>pending.
             Ret (remove_pending
                    (emit_peer name (pe_address pending) (pe_port pending)
                       (state_code ST_CLIENT_STATE_FAILED) ''removed'' self) name))
        else Ret self) (\<lambda>self.
       case gh_lookup (co_clients self) name of
         None \<Rightarrow> Ret self
       | Some n \<Rightarrow>
           let self = emit_peer name '''' 0 (state_code ST_CLIENT_STATE_FAILED) ''removed'' self;
               w = co_world self
           in rebuild_tables (self\<lparr>co_clients := gh_remove (co_clients self) name,
                co_world := w\<lparr>w_clients := (w_clients w)(n := None)\<rparr>\<rparr>))"

definition on_mdns_service_added :: "core_env \<Rightarrow> string \<Rightarrow> string \<Rightarrow> guint16 \<Rightarrow> st_core \<Rightarrow> st_core" where
  "on_mdns_service_added E name address port self =
     (if ce_match E name \<and> \<not> gh_contains (co_clients self) name
         \<and> \<not> gh_contains (co_pending_clients self) name
      then let n = co_next self; w = co_world self;
               self = self\<lparr>co_next := Suc n,
                 co_pmem := (co_pmem self)(n \<mapsto> \<lparr>pe_name = name, pe_address = address,
                   pe_port = port, pe_client = n\<rparr>),
                 co_world := w\<lparr>w_clients := (w_clients w)(n \<mapsto> st_client_init)\<rparr>,
                 co_pending_clients := gh_insert (co_pending_clients self) name n\<rparr>
           in emit_peer name address port (state_code ST_CLIENT_STATE_PENDING) ''connecting'' self
      else self)"

end
