(* ===== verification/CoreEvents.thy ===== *)
theory CoreEvents
  imports Core
begin

text \<open>
  What the main loop of the core dispatches: services that appear and go, finished starts,
  change signals of the peers, and calls to the debugger. The value signals of a mirrored object
  run the core's handlers while the object has the state it emitted the signal in; the handlers
  read the objects and never write them.
\<close>

section \<open>Signals of mirrored objects\<close>

definition put_input :: "nat \<Rightarrow> nat \<Rightarrow> st_input \<Rightarrow> core_world \<Rightarrow> core_world res" where
  "put_input n i x w =
     rbind (deref (w_clients w n)) (\<lambda>c.
     rbind (pdata (cl_inputs c) i) (\<lambda>_.
     Ret (w\<lparr>w_clients := (w_clients w)(n \<mapsto> c\<lparr>cl_inputs := (cl_inputs c)[i := x]\<rparr>)\<rparr>)))"

definition put_output :: "nat \<Rightarrow> nat \<Rightarrow> st_output \<Rightarrow> core_world \<Rightarrow> core_world res" where
  "put_output n i x w =
     rbind (deref (w_clients w n)) (\<lambda>c.
     rbind (pdata (cl_outputs c) i) (\<lambda>_.
     Ret (w\<lparr>w_clients := (w_clients w)(n \<mapsto> c\<lparr>cl_outputs := (cl_outputs c)[i := x]\<rparr>)\<rparr>)))"

fun input_emissions ::
  "core_env \<Rightarrow> ctx \<Rightarrow> core_data engine \<Rightarrow> nat \<Rightarrow> nat \<Rightarrow> (io_signal \<times> st_input) list
   \<Rightarrow> core_world \<Rightarrow> core_world res" where
  "input_emissions E cx eng n i [] w = Ret w"
| "input_emissions E cx eng n i ((sig, x) # es) w =
     rbind (put_input n i x w) (\<lambda>w.
     rbind (if sig = SIG_VAL_CHANGED then st_core_input_changed_callback E cx eng x w else Ret w)
       (input_emissions E cx eng n i es))"

fun output_emissions ::
  "core_env \<Rightarrow> ctx \<Rightarrow> core_data engine \<Rightarrow> nat \<Rightarrow> nat \<Rightarrow> (io_signal \<times> st_output) list
   \<Rightarrow> core_world \<Rightarrow> core_world res" where
  "output_emissions E cx eng n i [] w = Ret w"
| "output_emissions E cx eng n i ((sig, x) # es) w =
     rbind (put_output n i x w) (\<lambda>w.
     rbind (if sig = SIG_VAL_CHANGED then st_core_output_changed_callback E cx eng x w else Ret w)
       (output_emissions E cx eng n i es))"

text \<open>The emissions of a run of setters on one object, which is left in the state \<open>x\<close>.\<close>

definition emit_input ::
  "core_env \<Rightarrow> nat \<Rightarrow> nat \<Rightarrow> st_input \<Rightarrow> (io_signal \<times> st_input) list \<Rightarrow> st_core \<Rightarrow> st_core res" where
  "emit_input E n i x es self =
     rbind (input_emissions E (core_ctx E self) (co_engine self) n i es (co_world self)) (\<lambda>w.
     rbind (put_input n i x w) (\<lambda>w. Ret (self\<lparr>co_world := w\<rparr>)))"

definition emit_output ::
  "core_env \<Rightarrow> nat \<Rightarrow> nat \<Rightarrow> st_output \<Rightarrow> (io_signal \<times> st_output) list \<Rightarrow> st_core \<Rightarrow> st_core res" where
  "emit_output E n i x es self =
     rbind (output_emissions E (core_ctx E self) (co_engine self) n i es (co_world self)) (\<lambda>w.
     rbind (put_output n i x w) (\<lambda>w. Ret (self\<lparr>co_world := w\<rparr>)))"

text \<open>A change signal of the peer \<open>n\<close>, once its client is registered.\<close>

definition core_input_signal :: "core_env \<Rightarrow> nat \<Rightarrow> io_entry \<Rightarrow> st_core \<Rightarrow> st_core res" where
  "core_input_signal E n e self =
     rbind (deref (w_clients (co_world self) n)) (\<lambda>c.
       case first_index (\<lambda>x. in_name x = ie_name e) (cl_inputs c) of
         None \<Rightarrow> Ret self
       | Some i \<Rightarrow>
           let (c', es) = handle_input_changed_signal c e
           in emit_input E n i (cl_inputs c' ! i) es self)"

definition core_output_signal :: "core_env \<Rightarrow> nat \<Rightarrow> io_entry \<Rightarrow> st_core \<Rightarrow> st_core res" where
  "core_output_signal E n e self =
     rbind (deref (w_clients (co_world self) n)) (\<lambda>c.
       case first_index (\<lambda>x. out_name x = ie_name e) (cl_outputs c) of
         None \<Rightarrow> Ret self
       | Some i \<Rightarrow>
           let (c', es) = handle_output_changed_signal c e
           in emit_output E n i (cl_outputs c' ! i) es self)"

definition core_stats_signal :: "core_env \<Rightarrow> nat \<Rightarrow> st_stats \<Rightarrow> st_core \<Rightarrow> st_core res" where
  "core_stats_signal E n p self =
     rbind (deref (w_clients (co_world self) n)) (\<lambda>c.
       let (c', chg) = handle_stats_changed_signal c p;
           w = co_world self;
           w = w\<lparr>w_clients := (w_clients w)(n \<mapsto> c')\<rparr>
       in Ret (self\<lparr>co_world :=
            if chg then st_core_stats_changed_callback E (cl_stats c') w else w\<rparr>))"

section \<open>Calls to the debugger\<close>

datatype status_value = SvString string | SvUint16 guint16 | SvUint32 guint32 | SvBool bool

datatype debug_method =
    GetStatus | ListPeers | ListInputs | ListOutputs
  | SetInput string f64 guint64 | SetOutput string f64 guint64
  | MAddBreakpoint string | MRemoveBreakpoint guint32 | ListBreakpoints
  | MAddWatchpoint string | MRemoveWatchpoint guint32 | ListWatchpoints
  | MContinue | GetPaused | UnknownMethod string

datatype debug_reply =
    RpStatus "(string \<times> status_value) list"
  | RpPeers "(string \<times> string \<times> guint32 \<times> guint32) list"
  | RpInputs "(string \<times> st_input) list"
  | RpOutputs "(string \<times> st_output) list"
  | RpInt int | RpHandle guint32 | RpBool bool
  | RpPoints "(guint32 \<times> string) list"
  | RpNone
  | RpError string

definition opt_str :: "string option \<Rightarrow> string" where
  "opt_str s = (case s of None \<Rightarrow> '''' | Some s \<Rightarrow> s)"

definition handle_get_status :: "core_env \<Rightarrow> st_core \<Rightarrow> st_core_debug \<Rightarrow> (string \<times> status_value) list" where
  "handle_get_status E core d =
     [(''package'', SvString (ce_package E)),
      (''version'', SvString (ce_version E)),
      (''rules-file'', SvString (opt_str (co_rules_file core))),
      (''service-match'', SvString (co_srvmatch core)),
      (''bind-host'', SvString (opt_str (db_bind_host d))),
      (''bind-port'', SvUint16 (db_bind_port d)),
      (''client-address'', SvString (opt_str (db_client_address d))),
      (''peers'', SvUint32 (of_nat (length (db_peers d)))),
      (''pending-peers'', SvUint32 (of_nat (length (co_pending_clients core)))),
      (''inputs'', SvUint32 (of_nat (length (co_all_inputs core)))),
      (''outputs'', SvUint32 (of_nat (length (co_all_outputs core)))),
      (''no-discovery'', SvBool (co_no_discovery core)),
      (''paused'', SvBool (db_paused d)),
      (''stop-reason'', SvString (opt_str (db_stop_reason d))),
      (''stop-id'', SvString (opt_str (db_stop_id d))),
      (''breakpoints'', SvUint32 (of_nat (length (db_breakpoints d)))),
      (''watchpoints'', SvUint32 (of_nat (length (db_watchpoints d))))]"

definition handle_list_peers :: "st_core_debug \<Rightarrow> (string \<times> string \<times> guint32 \<times> guint32) list" where
  "handle_list_peers d =
     map (\<lambda>(name, p). (name, dp_address p, ucast (dp_port p), dp_state p)) (db_peers d)"

text \<open>NULL for an unknown name, for a client that is gone, and for an index out of range.\<close>

definition lookup_input :: "st_core \<Rightarrow> string \<Rightarrow> (client_map \<times> st_input) option" where
  "lookup_input core ident =
     (case gh_lookup (co_all_inputs core) ident of
        None \<Rightarrow> None
      | Some m \<Rightarrow>
          (case w_clients (co_world core) (cm_client m) of
             None \<Rightarrow> None
           | Some c \<Rightarrow> if cm_index m < length (cl_inputs c) then Some (m, cl_inputs c ! cm_index m) else None))"

definition lookup_output :: "st_core \<Rightarrow> string \<Rightarrow> (client_map \<times> st_output) option" where
  "lookup_output core ident =
     (case gh_lookup (co_all_outputs core) ident of
        None \<Rightarrow> None
      | Some m \<Rightarrow>
          (case w_clients (co_world core) (cm_client m) of
             None \<Rightarrow> None
           | Some c \<Rightarrow> if cm_index m < length (cl_outputs c) then Some (m, cl_outputs c ! cm_index m) else None))"

definition handle_list_inputs :: "st_core \<Rightarrow> (string \<times> st_input) list" where
  "handle_list_inputs core =
     List.map_filter (\<lambda>(ident, _). map_option (\<lambda>(_, i). (ident, i)) (lookup_input core ident))
       (co_all_inputs core)"

definition handle_list_outputs :: "st_core \<Rightarrow> (string \<times> st_output) list" where
  "handle_list_outputs core =
     List.map_filter (\<lambda>(ident, _). map_option (\<lambda>(_, i). (ident, i)) (lookup_output core ident))
       (co_all_outputs core)"

text \<open>
  \<open>SetInput\<close> writes the mirrored object, whose handlers run; the flags are only set when the
  value was accepted. \<open>SetOutput\<close> is sent to the peer whatever its \<open>MANUAL_OVERRIDE\<close> flag says.
\<close>

definition st_core_debug_set_input ::
  "core_env \<Rightarrow> string \<Rightarrow> f64 \<Rightarrow> guint64 \<Rightarrow> st_core \<Rightarrow> (bool \<times> st_core) res" where
  "st_core_debug_set_input E ident v flags core =
     (case lookup_input core ident of
        None \<Rightarrow> Ret (False, core)
      | Some (m, inp) \<Rightarrow>
          (case st_input_set_val inp v of
             (Some e, _) \<Rightarrow> Ret (False, core)
           | (None, inp, es) \<Rightarrow>
               rbind (emit_input E (cm_client m) (cm_index m) inp es core) (\<lambda>core.
               case st_input_set_flags inp flags of
                 (e, inp, es) \<Rightarrow>
                   rbind (emit_input E (cm_client m) (cm_index m) inp es core) (\<lambda>core.
                   Ret (e = None, core)))))"

definition st_core_debug_set_output ::
  "core_env \<Rightarrow> string \<Rightarrow> f64 \<Rightarrow> guint64 \<Rightarrow> st_core \<Rightarrow> (bool \<times> st_core) res" where
  "st_core_debug_set_output E ident v flags core =
     (case gh_lookup (co_all_outputs core) ident of
        None \<Rightarrow> Ret (False, core)
      | Some m \<Rightarrow>
          rbind (send_output (core_ctx E core) m ident v flags (co_world core)) (\<lambda>(ok, w).
          Ret (ok, core\<lparr>co_world := w\<rparr>)))"

definition handle_set_input ::
  "core_env \<Rightarrow> string \<Rightarrow> f64 \<Rightarrow> guint64 \<Rightarrow> st_core \<Rightarrow> (debug_reply \<times> st_core) res" where
  "handle_set_input E ident v flags core =
     rbind (st_core_debug_set_input E ident v flags core) (\<lambda>(ok, core).
     Ret (RpInt (if ok then 1 else 0), core))"

definition handle_set_output ::
  "core_env \<Rightarrow> string \<Rightarrow> f64 \<Rightarrow> guint64 \<Rightarrow> st_core \<Rightarrow> (debug_reply \<times> st_core) res" where
  "handle_set_output E ident v flags core =
     rbind (st_core_debug_set_output E ident v flags core) (\<lambda>(ok, core).
     Ret (RpInt (if ok then 1 else 0), core))"

definition put_debug :: "st_core_debug \<Rightarrow> st_core \<Rightarrow> st_core" where
  "put_debug d core = core\<lparr>co_world := set_debug d (co_world core)\<rparr>"

definition list_points :: "(guint32, debug_point) ghash \<Rightarrow> (guint32 \<times> string) list" where
  "list_points t = map (\<lambda>(_, p). (pt_handle p, pt_id p)) t"

definition handle_method_call ::
  "core_env \<Rightarrow> debug_method \<Rightarrow> st_core_debug \<Rightarrow> st_core \<Rightarrow> (debug_reply \<times> st_core) res" where
  "handle_method_call E m d core =
     (case m of
        GetStatus \<Rightarrow> Ret (RpStatus (handle_get_status E core d), core)
      | ListPeers \<Rightarrow> Ret (RpPeers (handle_list_peers d), core)
      | ListInputs \<Rightarrow> Ret (RpInputs (handle_list_inputs core), core)
      | ListOutputs \<Rightarrow> Ret (RpOutputs (handle_list_outputs core), core)
      | SetInput s v f \<Rightarrow> handle_set_input E s v f core
      | SetOutput s v f \<Rightarrow> handle_set_output E s v f core
      | MAddBreakpoint s \<Rightarrow>
          (let (h, d) = st_core_debug_add_breakpoint d s in Ret (RpHandle h, put_debug d core))
      | MRemoveBreakpoint h \<Rightarrow>
          (let (ok, d) = st_core_debug_remove_breakpoint d h in Ret (RpBool ok, put_debug d core))
      | ListBreakpoints \<Rightarrow> Ret (RpPoints (list_points (db_breakpoints d)), core)
      | MAddWatchpoint s \<Rightarrow>
          (let (h, d) = st_core_debug_add_watchpoint d s in Ret (RpHandle h, put_debug d core))
      | MRemoveWatchpoint h \<Rightarrow>
          (let (ok, d) = st_core_debug_remove_watchpoint d h in Ret (RpBool ok, put_debug d core))
      | ListWatchpoints \<Rightarrow> Ret (RpPoints (list_points (db_watchpoints d)), core)
      | MContinue \<Rightarrow> Ret (RpNone, put_debug (st_core_debug_continue d) core)
      | GetPaused \<Rightarrow> Ret (RpBool (st_core_debug_is_paused d), core)
      | UnknownMethod s \<Rightarrow> Ret (RpError (''Unknown method '' @ s), core))"

section \<open>The main loop\<close>

datatype core_event =
    ServiceAdded string string guint16
  | ServiceRemoved string
  | StartFinished nat "gerror option" st_client
  | InputSignal nat io_entry
  | OutputSignal nat io_entry
  | StatsSignal nat st_stats
  | DebugCall debug_method
  | SelfStatsChanged st_stats

text \<open>
  A call to the debugger needs one; a change signal is dispatched to a handler of a registered
  client only.
\<close>

definition core_step :: "core_env \<Rightarrow> core_event \<Rightarrow> st_core \<Rightarrow> st_core res" where
  "core_step E ev self =
     (case ev of
        ServiceAdded name address port \<Rightarrow> Ret (on_mdns_service_added E name address port self)
      | ServiceRemoved name \<Rightarrow> on_mdns_service_removed name self
      | StartFinished p result c \<Rightarrow> on_client_start_finished E p result c self
      | InputSignal n e \<Rightarrow>
          if n \<in> snd ` set (co_clients self) then core_input_signal E n e self else Ret self
      | OutputSignal n e \<Rightarrow>
          if n \<in> snd ` set (co_clients self) then core_output_signal E n e self else Ret self
      | StatsSignal n p \<Rightarrow>
          if n \<in> snd ` set (co_clients self) then core_stats_signal E n p self else Ret self
      | DebugCall m \<Rightarrow>
          (case cd_debug (w_data (co_world self)) of
             None \<Rightarrow> Ret self
           | Some d \<Rightarrow> rbind (handle_method_call E m d self) (\<lambda>(_, self). Ret self))
      | SelfStatsChanged s \<Rightarrow>
          Ret (self\<lparr>co_world := st_core_stats_changed_callback E s (co_world self)\<rparr>))"

fun core_run :: "core_env \<Rightarrow> core_event list \<Rightarrow> st_core \<Rightarrow> st_core res" where
  "core_run E [] self = Ret self"
| "core_run E (ev # evs) self = rbind (core_step E ev self) (core_run E evs)"

text \<open>The state \<open>main\<close> starts the loop in, from the engine and the variables of the rules file.\<close>

definition core_init ::
  "core_data engine \<Rightarrow> var_table \<Rightarrow> expr_heap \<Rightarrow> st_core_debug option \<Rightarrow> st_core" where
  "core_init eng vars h debug =
     \<lparr>co_world = \<lparr>w_heap = h, w_vars = vars, w_clients = Map.empty,
        w_data = \<lparr>cd_debug = debug, cd_mysql = st_mysql_client_new ''STCore''\<rparr>\<rparr>,
      co_engine = eng, co_clients = gh_new, co_pending_clients = gh_new, co_pmem = Map.empty,
      co_next = 0, co_all_inputs = gh_new, co_all_outputs = gh_new, co_no_discovery = False,
      co_srvmatch = ''^(STARTER:|ST:).*'', co_rules_file = None\<rparr>"

end
