(* ===== verification/CoreSafe.thy ===== *)
theory CoreSafe
  imports CoreEvents
begin

text \<open>
  The core keeps its tables right and never reads freed memory, with one exception: a service
  that is removed while its client starts. The invariant of the core is the invariant of the
  engine, and a registry: names, clients, pending starts and the tables of inputs and outputs
  agree. The handlers of change signals only add calls to the clients, so they keep it.
\<close>

section \<open>The handlers are fine\<close>

lemma world_debug_ok [simp]:
  "world_ok r cand cx eng (set_debug d w) = world_ok r cand cx eng w"
  "world_ok r cand cx eng (set_mysql m w) = world_ok r cand cx eng w"
  by (simp_all add: set_debug_def set_mysql_def)

lemma set_debug_frame [simp]:
  "w_heap (set_debug d w) = w_heap w" "w_vars (set_debug d w) = w_vars w"
  "w_clients (set_debug d w) = w_clients w"
  "w_heap (set_mysql m w) = w_heap w" "w_vars (set_mysql m w) = w_vars w"
  "w_clients (set_mysql m w) = w_clients w"
  by (simp_all add: set_debug_def set_mysql_def)

lemma store_change_frame [simp]:
  "w_heap (store_change db s v f w) = w_heap w" "w_vars (store_change db s v f w) = w_vars w"
  "w_clients (store_change db s v f w) = w_clients w"
  "world_ok r cand cx eng (store_change db s v f w) = world_ok r cand cx eng w"
  by (simp_all add: store_change_def)

lemma var_handler_ok:
  assumes fuel: "fuel_ok r cx" and acyc: "rules_acyclic cand eng"
  shows "handler_ok r cand cx eng (st_core_var_changed_callback n cx eng)"
proof (induction n)
  case 0
  then show ?case by (simp add: handler_ok_def fine_def)
next
  case (Suc n)
  show ?case
    unfolding handler_ok_def
  proof (intro allI impI)
    fix k v w
    assume ok: "world_ok r cand cx eng w" and v: "gh_lookup (w_vars w) k = Some v"
    let ?app = "\<lambda>w. engine_apply cx (st_core_var_changed_callback n cx eng) eng (Some (var_name v)) w"
    have app: "fine (world_ok r cand cx eng) (?app w)" if "world_ok r cand cx eng w" for w
      by (rule engine_fine [OF that fuel acyc Suc])
    show "fine (world_ok r cand cx eng) (st_core_var_changed_callback (Suc n) cx eng v w)"
    proof (cases "cd_debug (w_data w)")
      case None
      with app ok show ?thesis by simp
    next
      case (Some d)
      have own: "var_value v \<in># owners eng (w_vars w)" by (rule var_owned [OF v])
      obtain x where "eh_cell (w_heap w) (var_value v) = Some x"
        using heap_inv_root [OF world_inv [OF ok] own] by blast
      then have desc: "\<exists>s. expr_describe (cx_fuel cx) (var_value v) (w_heap w) = Ret s"
        using expr_describe_total [OF world_inv [OF ok]] fuel by (simp add: fuel_ok_def)
      have ev: "fine_world r cand cx eng (w_eval cx (var_value v) (set_debug d w))" for d
        by (rule eval_fine_owned) (use ok fuel own in simp_all)
      show ?thesis
        unfolding st_core_var_changed_callback.simps Some option.case Let_def
        by (rule fine_bind_total [OF desc], rule fine_pair [OF ev])
          (auto intro!: app fine_Ret split: prod.split)
    qed
  qed
qed

lemma engine_run_fine:
  "world_ok r cand cx eng w \<Longrightarrow> fuel_ok r cx \<Longrightarrow> rules_acyclic cand eng \<Longrightarrow>
   fine (world_ok r cand cx eng) (engine_apply cx (st_core_var_changed_callback n cx eng) eng ident w)"
  by (rule engine_fine [OF _ _ _ var_handler_ok])

lemma input_callback_fine:
  "world_ok r cand cx eng w \<Longrightarrow> fuel_ok r cx \<Longrightarrow> rules_acyclic cand eng \<Longrightarrow>
   fine (world_ok r cand cx eng) (st_core_input_changed_callback E cx eng x w)"
  by (auto simp: st_core_input_changed_callback_def Let_def intro!: engine_run_fine fine_Ret
      split: prod.split option.split)

lemma output_callback_fine:
  "world_ok r cand cx eng w \<Longrightarrow> fuel_ok r cx \<Longrightarrow> rules_acyclic cand eng \<Longrightarrow>
   fine (world_ok r cand cx eng) (st_core_output_changed_callback E cx eng x w)"
  by (auto simp: st_core_output_changed_callback_def Let_def intro!: engine_run_fine fine_Ret
      split: prod.split option.split)

section \<open>Relations that the handlers keep\<close>

text \<open>A relation that survives a change of the debugger too is kept by the handler of variables.\<close>

locale core_relation = run_relation cx eng Q
  for cx :: ctx and eng :: "core_data engine" and Q :: "core_world \<Rightarrow> core_world \<Rightarrow> bool" +
  assumes Q_debug: "Q w (set_debug d w)"
begin

lemma keeps_var_callback: "st_core_var_changed_callback n cx eng v w = Ret w' \<Longrightarrow> Q w w'"
proof (induction n arbitrary: v w w')
  case (Suc n)
  have rel: "engine_relation cx eng Q (st_core_var_changed_callback n cx eng)"
    by unfold_locales (rule Suc.IH)
  note app = engine_relation.engine_kept [OF rel]
  show ?case
  proof (cases "cd_debug (w_data w)")
    case None
    with Suc.prems app show ?thesis by simp
  next
    case (Some d)
    with Suc.prems obtain d1 q h where
      t: "(case st_core_debug_intercept_change d1 (var_name v)
            (case q of EvTrue v \<Rightarrow> v | EvFalse _ \<Rightarrow> f64_zero) of
           (hit, d) \<Rightarrow> if hit then Ret (set_debug d (set_debug d1 w\<lparr>w_heap := h\<rparr>))
             else engine_apply cx (st_core_var_changed_callback n cx eng) eng (Some (var_name v))
               (set_debug d (set_debug d1 w\<lparr>w_heap := h\<rparr>))) = Ret w'"
      by (auto simp: Let_def w_eval_def)
    have "Q w (set_debug d (set_debug d1 w\<lparr>w_heap := h\<rparr>))" for d
      using Q_trans [OF Q_trans [OF Q_debug Q_heap] Q_debug] .
    with t show ?thesis by (auto split: prod.splits if_splits intro: Q_trans dest!: app)
  qed
qed simp

lemma keeps_engine: "engine_apply cx (st_core_var_changed_callback n cx eng) eng ident w = Ret w' \<Longrightarrow> Q w w'"
  by (rule engine_relation.engine_kept [where chg = "st_core_var_changed_callback n cx eng"])
    (unfold_locales, rule keeps_var_callback)

end

interpretation core_legit: core_relation cx eng "clients_legit cx"
  for cx :: ctx and eng :: "core_data engine"
  by unfold_locales simp

text \<open>The engine never touches the database.\<close>

interpretation core_mysql: core_relation cx "connect_debug eng" "\<lambda>w w'. cd_mysql (w_data w') = cd_mysql (w_data w)"
  for cx :: ctx and eng :: "core_data engine"
  by unfold_locales
    (auto simp: connect_debug_def set_debug_def on_debug_rule_triggered_def on_debug_trigger_triggered_def)

lemma input_callback_legit:
  "st_core_input_changed_callback E cx eng x w = Ret w' \<Longrightarrow> clients_legit cx w w'"
  by (auto simp: st_core_input_changed_callback_def Let_def split: option.splits prod.splits if_splits
      dest!: core_legit.keeps_engine)

lemma output_callback_legit:
  "st_core_output_changed_callback E cx eng x w = Ret w' \<Longrightarrow> clients_legit cx w w'"
  by (auto simp: st_core_output_changed_callback_def Let_def split: option.splits prod.splits if_splits
      dest!: core_legit.keeps_engine)

section \<open>What the handlers may do\<close>

text \<open>C18: Whatever the rules say, all that a changed input makes the core send, nested
  applications of the rules included, is calls that set an output to a new value while its
  \<open>MANUAL_OVERRIDE\<close> flag is clear, with the flags it has, or that change one user flag of an input
  or output and keep its value. The mirrored objects stay as they are.\<close>

theorem input_change_calls:
  assumes "st_core_input_changed_callback E cx eng x w = Ret w'"
  shows "legit cx (w_clients w) (w_clients w')"
  using assms by (rule input_callback_legit)

text \<open>\<open>LAMP: SET 1 WHEN DOOR;\<close> with one peer that owns both.\<close>

definition door :: st_input where
  "door = \<lparr>in_name = ''DOOR'', in_descr = '''', in_unit = 0, in_val = f64_one,
     in_min = f64_zero, in_max = f64_one, in_step = f64_one, in_flags = 0\<rparr>"

definition lamp :: "guint64 \<Rightarrow> st_output" where
  "lamp flags = \<lparr>out_name = ''LAMP'', out_descr = '''', out_unit = 0, out_val = f64_zero,
     out_min = f64_zero, out_max = f64_one, out_step = f64_one, out_flags = flags\<rparr>"

definition lamp_rules :: "core_data engine" where
  "lamp_rules = connect_debug
     \<lparr>en_labels = [[\<lparr>le_cond = 0, le_ass = \<lparr>as_id = ''LAMP'', as_rval = 1, as_flag_bit = 0\<rparr>\<rparr>]],
      en_triggers = [], en_on_rule_triggered = None, en_on_trigger_triggered = None\<rparr>"

definition lamp_heap :: expr_heap where
  "lamp_heap = heap_of [\<lparr>ex_data = EX_REF ''DOOR'', ex_nref = 1\<rparr>, \<lparr>ex_data = EX_LITERAL f64_one, ex_nref = 1\<rparr>]"

definition lamp_client :: "guint64 \<Rightarrow> st_client" where
  "lamp_client flags =
     st_client_init\<lparr>cl_connection := True, cl_inputs := [door], cl_outputs := [lamp flags]\<rparr>"

definition lamp_ctx :: ctx where
  "lamp_ctx = \<lparr>cx_inputs = Some [(''DOOR'', \<lparr>cm_client = 0, cm_index = 0\<rparr>)],
     cx_outputs = Some [(''LAMP'', \<lparr>cm_client = 0, cm_index = 0\<rparr>)],
     cx_bus = (\<lambda>_ _ _. Inr (V_INT 1)), cx_noret = EvFalse None, cx_fuel = 10\<rparr>"

definition lamp_world :: "guint64 \<Rightarrow> st_core_debug option \<Rightarrow> core_world" where
  "lamp_world flags d = \<lparr>w_heap = lamp_heap, w_vars = [], w_clients = [0 \<mapsto> lamp_client flags],
     w_data = \<lparr>cd_debug = d, cd_mysql = st_mysql_client_new ''STCore''\<rparr>\<rparr>"

definition lamp_env :: core_env where
  "lamp_env = \<lparr>ce_package = ''starter-core'', ce_version = ''1'', ce_match = (\<lambda>_. True),
     ce_bus = (\<lambda>_ _ _. Inr (V_INT 1)), ce_db = (\<lambda>_ _. Inr None), ce_noret = EvFalse None,
     ce_fuel = 10, ce_depth = 5\<rparr>"

definition calls_to :: "nat \<Rightarrow> core_world res \<Rightarrow> bus_call list option" where
  "calls_to n r = (case r of Ret w \<Rightarrow> map_option cl_calls (w_clients w n) | _ \<Rightarrow> None)"

lemma lamp_run:
  "calls_to 0 (st_core_input_changed_callback lamp_env lamp_ctx lamp_rules door (lamp_world 0 None))
     = Some [CallSetOutput ''LAMP'' f64_one 0]"
  by code_simp

theorem input_change_calls_witness:
  "\<exists>w'. st_core_input_changed_callback lamp_env lamp_ctx lamp_rules door (lamp_world 0 None) = Ret w'
     \<and> legit lamp_ctx (w_clients (lamp_world 0 None)) (w_clients w')
     \<and> map_option cl_calls (w_clients w' 0) = Some [CallSetOutput ''LAMP'' f64_one 0]"
proof -
  obtain w' where
    r: "st_core_input_changed_callback lamp_env lamp_ctx lamp_rules door (lamp_world 0 None) = Ret w'"
    "map_option cl_calls (w_clients w' 0) = Some [CallSetOutput ''LAMP'' f64_one 0]"
    using lamp_run by (auto simp: calls_to_def split: res.splits)
  with input_change_calls [OF r(1)] show ?thesis by blast
qed

text \<open>C19: While the debugger is stopped a changed input only reaches the database and the
  connected debuggers: no rule is applied, no call is sent, no variable changes.\<close>

theorem stopped_core_is_still:
  assumes "cd_debug (w_data w) = Some d" "db_paused d"
  shows "st_core_input_changed_callback E cx eng x w =
    Ret (w\<lparr>w_data := \<lparr>cd_debug = Some (broadcast_signal d (InputChanged x)),
            cd_mysql = (let m = cd_mysql (w_data w) in
              if in_flags x AND ST_IO_FLAG_NO_HISTORY = 0
              then m\<lparr>my_queries := my_queries m
                     @ [history_query (my_source m) (in_name x) (in_val x) (in_flags x)]\<rparr>
              else m)\<rparr>\<rparr>)"
  using assms
  by (simp add: st_core_input_changed_callback_def st_core_debug_emit_input_changed_def Let_def
      st_core_debug_intercept_change_def store_change_def set_debug_def set_mysql_def
      st_mysql_client_store_history_def st_mysql_client_perform_query_def)

theorem stopped_core_is_still_witness:
  "let d = snd (st_core_debug_intercept_apply (snd (st_core_debug_add_breakpoint st_core_debug_init ''LAMP''))
                  (Some ''LAMP''))
   in st_core_input_changed_callback lamp_env lamp_ctx lamp_rules door (lamp_world 0 (Some d)) =
      Ret ((lamp_world 0 (Some d))\<lparr>w_data := \<lparr>cd_debug = Some (broadcast_signal d (InputChanged door)),
            cd_mysql = (let m = cd_mysql (w_data (lamp_world 0 (Some d))) in
              if in_flags door AND ST_IO_FLAG_NO_HISTORY = 0
              then m\<lparr>my_queries := my_queries m
                     @ [history_query (my_source m) (in_name door) (in_val door) (in_flags door)]\<rparr>
              else m)\<rparr>\<rparr>)"
  unfolding Let_def [of "snd (st_core_debug_intercept_apply _ _)"]
  by (rule stopped_core_is_still)
    (simp_all add: lamp_world_def stop_ops point_ops add_point_def st_core_debug_init_def
      find_point_by_id_def gh_new_def)

text \<open>C20: A change of an input is stored in the history exactly once, under its name, with the value
  and flags it had when the change was signalled, or not at all when its \<open>NO_HISTORY\<close> flag is set,
  whether or not the debugger stops there and whatever the rules do.\<close>

theorem input_change_history:
  assumes "st_core_input_changed_callback E cx (connect_debug eng) x w = Ret w'"
  shows "my_queries (cd_mysql (w_data w')) = my_queries (cd_mysql (w_data w)) @
    (if in_flags x AND ST_IO_FLAG_NO_HISTORY = 0
     then [history_query (my_source (cd_mysql (w_data w))) (in_name x) (in_val x) (in_flags x)] else [])"
proof -
  have "cd_mysql (w_data w') = (let m = cd_mysql (w_data w) in
      if in_flags x AND ST_IO_FLAG_NO_HISTORY = 0
      then snd (st_mysql_client_store_history (ce_db E) m (in_name x) (in_val x) (in_flags x)) else m)"
    using assms
    by (auto simp: st_core_input_changed_callback_def Let_def store_change_def set_debug_def set_mysql_def
        split: option.splits prod.splits if_splits dest!: core_mysql.keeps_engine)
  then show ?thesis
    by (simp add: Let_def st_mysql_client_store_history_def st_mysql_client_perform_query_def)
qed

theorem input_change_history_witness:
  "\<exists>w'. st_core_input_changed_callback lamp_env lamp_ctx lamp_rules door (lamp_world 0 None) = Ret w' \<and>
     my_queries (cd_mysql (w_data w')) = my_queries (cd_mysql (w_data (lamp_world 0 None))) @
       (if in_flags door AND ST_IO_FLAG_NO_HISTORY = 0
        then [history_query (my_source (cd_mysql (w_data (lamp_world 0 None)))) (in_name door)
                (in_val door) (in_flags door)] else [])"
proof -
  obtain w' where
    r: "st_core_input_changed_callback lamp_env lamp_ctx lamp_rules door (lamp_world 0 None) = Ret w'"
    using lamp_run by (auto simp: calls_to_def split: res.splits)
  with input_change_history [OF r [unfolded lamp_rules_def]] show ?thesis by blast
qed

end
