(* ===== verification/CoreLoops.thy ===== *)
theory CoreLoops
  imports CoreSafe
begin

text \<open>
  Rules that never settle: two triggers that set a variable back and forth recurse through the
  handler of its \<open>changed\<close> signal until the C stack is exhausted.
\<close>

lemma expr_put_heap_of [simp]: "a < length xs \<Longrightarrow> expr_put a x (heap_of xs) = heap_of (xs[a := x])"
  by (auto simp: expr_put_def heap_of_def fun_eq_iff)

text \<open>
  \<open>VAR X = 0; TRIGGER WHEN X == 0 SET X = 1; TRIGGER WHEN X == 1 SET X = 0;\<close> The literals at 6
  and 7 are the right-hand sides, and the variable refers to one of them after the first change.
\<close>

definition blink_nodes :: "bool \<Rightarrow> expr list" where
  "blink_nodes b =
     [\<lparr>ex_data = EX_REF ''X'', ex_nref = 1\<rparr>, \<lparr>ex_data = EX_LITERAL f64_zero, ex_nref = 1\<rparr>,
      \<lparr>ex_data = EX_OP ''=='' 0 1, ex_nref = 1\<rparr>,
      \<lparr>ex_data = EX_REF ''X'', ex_nref = 1\<rparr>, \<lparr>ex_data = EX_LITERAL f64_one, ex_nref = 1\<rparr>,
      \<lparr>ex_data = EX_OP ''=='' 3 4, ex_nref = 1\<rparr>,
      \<lparr>ex_data = EX_LITERAL f64_one, ex_nref = (if b then 2 else 1)\<rparr>,
      \<lparr>ex_data = EX_LITERAL f64_zero, ex_nref = (if b then 1 else 2)\<rparr>]"

definition blink_rules :: "core_data engine" where
  "blink_rules =
     \<lparr>en_labels = [],
      en_triggers = [\<lparr>tr_cond = 2, tr_ass = [\<lparr>as_id = ''X'', as_rval = 6, as_flag_bit = 0\<rparr>]\<rparr>,
                     \<lparr>tr_cond = 5, tr_ass = [\<lparr>as_id = ''X'', as_rval = 7, as_flag_bit = 0\<rparr>]\<rparr>],
      en_on_rule_triggered = None, en_on_trigger_triggered = None\<rparr>"

definition blink_var :: "bool \<Rightarrow> st_var" where
  "blink_var b = \<lparr>var_name = ''X'', var_value = (if b then 6 else 7)\<rparr>"

definition blink_world :: "core_data \<Rightarrow> bool \<Rightarrow> core_world" where
  "blink_world d b = \<lparr>w_heap = heap_of (blink_nodes b), w_vars = [(''X'', blink_var b)],
     w_clients = Map.empty, w_data = d\<rparr>"

definition blink_ctx :: "nat \<Rightarrow> ctx" where
  "blink_ctx k = \<lparr>cx_inputs = Some [], cx_outputs = Some [], cx_bus = (\<lambda>_ _ _. Inr (V_INT 1)),
     cx_noret = EvFalse None, cx_fuel = k\<rparr>"

lemma one_zero [simp]:
  "f64_eq f64_one f64_zero = False" "f64_eq f64_zero f64_one = False"
  "f64_eq f64_zero f64_zero = True" "f64_eq f64_one f64_one = True"
  by code_simp+

lemmas blink_defs = blink_world_def blink_rules_def blink_ctx_def blink_var_def

lemma blink_cell [simp]:
  "expr_at (heap_of (blink_nodes b)) 0 = Ret \<lparr>ex_data = EX_REF ''X'', ex_nref = 1\<rparr>"
  "expr_at (heap_of (blink_nodes b)) (Suc 0) = Ret \<lparr>ex_data = EX_LITERAL f64_zero, ex_nref = 1\<rparr>"
  "expr_at (heap_of (blink_nodes b)) 2 = Ret \<lparr>ex_data = EX_OP ''=='' 0 1, ex_nref = 1\<rparr>"
  "expr_at (heap_of (blink_nodes b)) 3 = Ret \<lparr>ex_data = EX_REF ''X'', ex_nref = 1\<rparr>"
  "expr_at (heap_of (blink_nodes b)) 4 = Ret \<lparr>ex_data = EX_LITERAL f64_one, ex_nref = 1\<rparr>"
  "expr_at (heap_of (blink_nodes b)) 5 = Ret \<lparr>ex_data = EX_OP ''=='' 3 4, ex_nref = 1\<rparr>"
  "expr_at (heap_of (blink_nodes b)) 6 = Ret \<lparr>ex_data = EX_LITERAL f64_one, ex_nref = (if b then 2 else 1)\<rparr>"
  "expr_at (heap_of (blink_nodes b)) 7 = Ret \<lparr>ex_data = EX_LITERAL f64_zero, ex_nref = (if b then 1 else 2)\<rparr>"
  by (simp_all add: expr_at_def blink_nodes_def)

lemma fuel3: "k + 3 = Suc (Suc (Suc k))"
  by simp

lemma blink_eq [simp]:
  "op_value ''=='' v w = Some (f64_of_bool (f64_eq v w))"
  "f64_eq (f64_of_bool b) f64_zero = (\<not> b)" "f64_eq (f64_of_bool b) f64_one = b"
  by (simp_all add: op_value_def f64_of_bool_def)

lemma blink_lookup [simp]:
  "tab_lookup (Some [(''X'', v)]) ''X'' = Some v" "gh_lookup [(''X'', v)] ''X'' = Some v"
  "tab_lookup (Some []) s = None"
  by (simp_all add: tab_lookup_def gh_lookup_def)

lemma blink_X:
  "expr_eval E (Some [(''X'', blink_var b)]) (Suc (Suc k)) a (heap_of (blink_nodes b))
     = Ret (EvTrue (f64_of_bool b), heap_of (blink_nodes b))"
  if "ev_inputs E = Some []" "ev_outputs E = Some []" "a = 0 \<or> a = 3"
  using that by (auto simp: eval_node_def ref_expr_eval_def literal_expr_eval_def
      blink_var_def f64_of_bool_def)

lemma blink_cond:
  "w_eval (blink_ctx (k + 3)) 2 (blink_world d b) = Ret (EvTrue (f64_of_bool (\<not> b)), blink_world d b)"
  "w_eval (blink_ctx (k + 3)) 5 (blink_world d b) = Ret (EvTrue (f64_of_bool b), blink_world d b)"
proof -
  let ?E = "\<lparr>ev_inputs = Some [], ev_outputs = Some [], ev_clients = Map.empty, ev_noret = EvFalse None\<rparr>"
  let ?h = "heap_of (blink_nodes b)" and ?V = "Some [(''X'', blink_var b)]"
  have lit: "expr_eval ?E ?V (Suc (Suc k)) (Suc 0) ?h = Ret (EvTrue f64_zero, ?h)"
    "expr_eval ?E ?V (Suc (Suc k)) 4 ?h = Ret (EvTrue f64_one, ?h)"
    by (simp_all add: eval_node_def literal_expr_eval_def)
  have x: "expr_eval ?E ?V (Suc (Suc k)) 0 ?h = Ret (EvTrue (f64_of_bool b), ?h)"
    "expr_eval ?E ?V (Suc (Suc k)) 3 ?h = Ret (EvTrue (f64_of_bool b), ?h)"
    by (rule blink_X; simp)+
  have "expr_eval ?E ?V (Suc (Suc (Suc k))) 2 ?h = Ret (EvTrue (f64_of_bool (\<not> b)), ?h)"
    "expr_eval ?E ?V (Suc (Suc (Suc k))) 5 ?h = Ret (EvTrue (f64_of_bool b), ?h)"
    unfolding expr_eval.simps(2) [of _ _ "Suc (Suc k)"] eval_node_def
    by (simp_all add: op_expr_eval_def ev_then_def lit x del: expr_eval.simps)
  then show
    "w_eval (blink_ctx (k + 3)) 2 (blink_world d b) = Ret (EvTrue (f64_of_bool (\<not> b)), blink_world d b)"
    "w_eval (blink_ctx (k + 3)) 5 (blink_world d b) = Ret (EvTrue (f64_of_bool b), blink_world d b)"
    by (simp_all add: w_eval_def w_env_def blink_ctx_def blink_world_def fuel3 del: expr_eval.simps)
qed

lemma blink_refs:
  assumes "c = 2 \<or> c = 5"
  shows "trigger_have_ref_to (k + 3) \<lparr>tr_cond = c, tr_ass = as\<rparr> ''X'' vs (heap_of (blink_nodes b)) = Ret True"
  using assms by (auto simp: trigger_have_ref_to_def fuel3)

lemma blink_swap:
  "\<exists>h. expr_unref (k + 3) (if b then 6 else 7) (heap_of (blink_nodes b)) = Ret h \<and>
     expr_ref (if b then 7 else 6) h = Ret (heap_of (blink_nodes (\<not> b)))"
  by (cases b) (simp_all add: fuel3 expr_at_def expr_ref_def blink_nodes_def)

lemma blink_set:
  "assign_apply (blink_ctx (k + 3)) chg \<lparr>as_id = ''X'', as_rval = (if b then 7 else 6), as_flag_bit = 0\<rparr>
     (blink_world d b) = rbind (chg (blink_var (\<not> b)) (blink_world d (\<not> b))) (\<lambda>w. Ret (ApOk True, w))"
proof -
  obtain h where h: "expr_unref (k + 3) (if b then 6 else 7) (heap_of (blink_nodes b)) = Ret h"
    "expr_ref (if b then 7 else 6) h = Ret (heap_of (blink_nodes (\<not> b)))"
    using blink_swap [of k b] by blast
  have "expr_equal (k + 3) (if b then 6 else 7) (if b then 7 else 6) (heap_of (blink_nodes b)) = Ret False"
    by (cases b) (simp_all add: fuel3)
  with h show ?thesis
    by (cases b) (simp_all add: blink_defs assign_apply_def tab_lookup_def gh_lookup_def
        st_var_set_value_def rbind_assoc del: expr_equal.simps expr_unref.simps)
qed

lemma blink_trigger:
  assumes "\<And>b. chg (blink_var b) (blink_world d b) = Fuel"
  shows "engine_apply (blink_ctx (k + 3)) chg blink_rules (Some ''X'') (blink_world d b) = Fuel"
proof -
  let ?cx = "blink_ctx (k + 3)"
  obtain t u where ts: "en_triggers blink_rules = [t, u]"
    "t = \<lparr>tr_cond = 2, tr_ass = [\<lparr>as_id = ''X'', as_rval = 6, as_flag_bit = 0\<rparr>]\<rparr>"
    "u = \<lparr>tr_cond = 5, tr_ass = [\<lparr>as_id = ''X'', as_rval = 7, as_flag_bit = 0\<rparr>]\<rparr>"
    by (simp add: blink_rules_def)
  have none: "Option.bind (Some blink_rules) en_on_trigger_triggered = None" by (simp add: blink_rules_def)
  have cx: "cx_fuel ?cx = k + 3" by (simp add: blink_ctx_def)
  have set6: "assign_apply ?cx chg \<lparr>as_id = ''X'', as_rval = 6, as_flag_bit = 0\<rparr> (blink_world d False) = Fuel"
    and set7: "assign_apply ?cx chg \<lparr>as_id = ''X'', as_rval = 7, as_flag_bit = 0\<rparr> (blink_world d True) = Fuel"
    using blink_set [where k = k and chg = chg and d = d and b = False]
      blink_set [where k = k and chg = chg and d = d and b = True] assms by simp_all
  have t: "trigger_apply ?cx chg (Some blink_rules) t (blink_world d b)
      = (if b then Ret (None, blink_world d b) else Fuel)"
    unfolding trigger_apply_def ts(2) none by (cases b) (simp_all add: blink_cond set6)
  have u: "trigger_apply ?cx chg (Some blink_rules) u (blink_world d True) = Fuel"
    unfolding trigger_apply_def ts(3) none by (simp add: blink_cond set7)
  have h: "w_heap (blink_world d b) = heap_of (blink_nodes b)" for b by (simp add: blink_world_def)
  have "apply_triggers ?cx chg blink_rules (Some ''X'') [t, u] (blink_world d b) = Fuel"
    using t u blink_refs [where c = 2 and k = k] blink_refs [where c = 5 and k = k]
    by (cases b) (simp_all add: cx h ts(2,3))
  then show ?thesis
    by (simp add: engine_apply_def ts(1)) (simp add: blink_rules_def)
qed

text \<open>C21: With the rules above a change of \<open>X\<close> exhausts every stack: each application of the
  rules sets \<open>X\<close> to the other value, and that emits \<open>changed\<close> before the application returns.\<close>

theorem blinking_rules_never_settle:
  "st_core_var_changed_callback n (blink_ctx (k + 3)) blink_rules (blink_var b)
     (blink_world \<lparr>cd_debug = None, cd_mysql = m\<rparr> b) = Fuel"
proof (induction n arbitrary: b)
  case (Suc n)
  let ?d = "\<lparr>cd_debug = None, cd_mysql = m\<rparr>"
  have "var_name (blink_var b) = ''X''" by (simp add: blink_var_def)
  moreover have "cd_debug (w_data (blink_world ?d b)) = None" by (simp add: blink_world_def)
  moreover have "engine_apply (blink_ctx (k + 3)) (st_core_var_changed_callback n (blink_ctx (k + 3)) blink_rules)
      blink_rules (Some ''X'') (blink_world ?d b) = Fuel"
    by (rule blink_trigger) (rule Suc)
  ultimately show ?case by simp
qed simp

end
