(* ===== verification/CoreInv.thy ===== *)
theory CoreInv
  imports CoreLoops
begin

text \<open>
  The core's registry: names, clients, pending starts and the tables of inputs and outputs agree,
  and stay so over every event of the main loop. With the invariant of the engine this makes the
  core safe: no event reads freed memory, except the end of a start whose service has been
  removed meanwhile.
\<close>

section \<open>Shapes\<close>

text \<open>What the tables depend on: the names of the inputs and outputs of each client.\<close>

type_synonym shape = "string list \<times> string list"

definition shape :: "st_client \<Rightarrow> shape" where
  "shape c = (map in_name (cl_inputs c), map out_name (cl_outputs c))"

definition shapes :: "core_world \<Rightarrow> nat \<Rightarrow> shape option" where
  "shapes w n = map_option shape (w_clients w n)"

lemma shapes_data [simp]: "shapes (set_debug d w) = shapes w" "shapes (set_mysql m w) = shapes w"
  "shapes (store_change db s v f w) = shapes w"
  by (simp_all add: shapes_def fun_eq_iff)

lemma shapes_upd: "shapes (w\<lparr>w_clients := (w_clients w)(n \<mapsto> c)\<rparr>) = (shapes w)(n \<mapsto> shape c)"
  by (simp add: shapes_def fun_eq_iff)

lemma shapes_Some: "shapes w n = Some sh \<longleftrightarrow> (\<exists>c. w_clients w n = Some c \<and> shape c = sh)"
  by (auto simp: shapes_def)

lemma legit_shapes: "clients_legit cx w w' \<Longrightarrow> shapes w' = shapes w"
proof
  fix n
  assume "clients_legit cx w w'"
  then have "legit_client cx n (w_clients w n) (w_clients w' n)" by (simp add: legit_def)
  then show "shapes w' n = shapes w n"
    by (auto simp: legit_client_def shapes_def shape_def split: option.splits)
qed

definition table_fits :: "io_table \<Rightarrow> (nat \<Rightarrow> string list option) \<Rightarrow> nat set \<Rightarrow> bool" where
  "table_fits t names N \<longleftrightarrow>
     (\<forall>s m. gh_lookup t s = Some m \<longrightarrow> cm_client m \<in> N \<and>
        (\<exists>ns. names (cm_client m) = Some ns \<and> cm_index m < length ns \<and> ns ! cm_index m = s)) \<and>
     (\<forall>n\<in>N. \<forall>ns. names n = Some ns \<longrightarrow> (\<forall>s\<in>set ns. gh_lookup t s \<noteq> None))"

lemma world_ok_shapes:
  assumes "world_ok r cand cx eng w" "w_heap w' = w_heap w" "w_vars w' = w_vars w" "table_ok cx (w_clients w')"
  shows "world_ok r cand cx eng w'"
  using assms by (simp add: world_ok_def)

lemma table_ok_shapes: "shapes w' = shapes w \<Longrightarrow> table_ok cx (w_clients w) \<Longrightarrow> table_ok cx (w_clients w')"
proof -
  assume s: "shapes w' = shapes w" and ok: "table_ok cx (w_clients w)"
  have "\<exists>c'. w_clients w' n = Some c' \<and> length (cl_inputs c') = length (cl_inputs c)
      \<and> length (cl_outputs c') = length (cl_outputs c)" if "w_clients w n = Some c" for n c
  proof -
    have "shapes w' n = Some (shape c)" using s that by (simp add: shapes_def)
    then show ?thesis by (auto simp: shapes_Some shape_def dest: map_eq_imp_length_eq)
  qed
  with ok show ?thesis unfolding table_ok_def by metis
qed

lemma table_ok_fits:
  assumes "table_fits t (\<lambda>n. map_option fst (shapes w n)) N" "table_fits u (\<lambda>n. map_option snd (shapes w n)) N"
    "cx_inputs cx = Some t" "cx_outputs cx = Some u"
  shows "table_ok cx (w_clients w)"
  using assms
  by (fastforce simp: table_ok_def table_fits_def tab_lookup_def shapes_Some shape_def)

section \<open>Rebuilding the tables\<close>

lemma add_entries_lookup:
  "gh_lookup (add_entries c i ss t) s =
     (case find (\<lambda>j. ss ! j = s) (rev [0..<length ss]) of
        Some j \<Rightarrow> Some \<lparr>cm_client = c, cm_index = i + j\<rparr>
      | None \<Rightarrow> gh_lookup t s)"
proof (induction ss arbitrary: i t)
  case (Cons x ss)
  have up: "rev [0..<length (x # ss)] = map Suc (rev [0..<length ss]) @ [0]"
    by (simp add: upt_conv_Cons map_Suc_upt flip: rev_map del: upt_Suc)
  have shift: "find (\<lambda>j. (x # ss) ! j = s) (map Suc xs) = map_option Suc (find (\<lambda>j. ss ! j = s) xs)" for xs
    by (induction xs) auto
  have app: "find P (xs @ ys) = (case find P xs of None \<Rightarrow> find P ys | Some y \<Rightarrow> Some y)" for P :: "nat \<Rightarrow> bool" and xs ys
    by (induction xs) auto
  show ?case
    unfolding up app shift add_entries.simps Cons.IH
    by (auto simp: gh_lookup_insert split: option.split)
qed simp

lemma add_entries_fits:
  "table_fits t names N \<Longrightarrow> names n = Some ns \<Longrightarrow> table_fits (add_entries n 0 ns t) names (insert n N)"
proof -
  assume fits: "table_fits t names N" and n: "names n = Some ns"
  let ?t = "add_entries n 0 ns t"
  have look: "(cm_client m = n \<and> cm_index m < length ns \<and> ns ! cm_index m = s) \<or> gh_lookup t s = Some m"
    if "gh_lookup ?t s = Some m" for s m
    using that find_some [of "\<lambda>j. ns ! j = s" "rev [0..<length ns]"]
    by (auto simp: add_entries_lookup split: option.splits)
  have listed: "gh_lookup ?t s \<noteq> None" if "s \<in> set ns \<or> gh_lookup t s \<noteq> None" for s
    using that by (auto simp: add_entries_lookup find_None_iff in_set_conv_nth split: option.split)
  show ?thesis
    unfolding table_fits_def
  proof (intro conjI allI impI ballI)
    fix s m
    assume "gh_lookup ?t s = Some m"
    from look [OF this] fits n
    show "cm_client m \<in> insert n N"
      "\<exists>ns. names (cm_client m) = Some ns \<and> cm_index m < length ns \<and> ns ! cm_index m = s"
      unfolding table_fits_def by blast+
  next
    fix k ks s
    assume "k \<in> insert n N" "names k = Some ks" "s \<in> set ks"
    then have "s \<in> set ns \<or> gh_lookup t s \<noteq> None" using fits n unfolding table_fits_def by auto
    then show "gh_lookup ?t s \<noteq> None" by (rule listed)
  qed
qed

lemma setup_fits:
  assumes "\<And>n t. n \<in> set (map snd cs) \<Longrightarrow> \<exists>ns. names n = Some ns \<and> f n t = Ret (add_entries n 0 ns t)"
    "table_fits t names N"
  shows "\<exists>t'. gh_foreach f cs t = Ret t' \<and> table_fits t' names (N \<union> snd ` set cs)"
  using assms
proof (induction cs arbitrary: t N)
  case (Cons e es)
  then obtain ns where ns: "names (snd e) = Some ns" "f (snd e) t = Ret (add_entries (snd e) 0 ns t)" by fastforce
  have "table_fits (add_entries (snd e) 0 ns t) names (insert (snd e) N)"
    by (rule add_entries_fits [OF Cons.prems(2) ns(1)])
  from Cons.IH [OF _ this] Cons.prems(1) obtain t' where
    "gh_foreach f es (add_entries (snd e) 0 ns t) = Ret t'" "table_fits t' names (insert (snd e) N \<union> snd ` set es)"
    by auto
  with ns(2) show ?case by auto
qed simp

lemma table_fits_new: "table_fits gh_new names {}"
  by (simp add: table_fits_def)

lemma rebuild_ok:
  assumes "\<forall>n\<in>snd ` set (co_clients self). shapes (co_world self) n \<noteq> None"
  shows "\<exists>t u. rebuild_tables self = Ret (self\<lparr>co_all_inputs := t, co_all_outputs := u\<rparr>) \<and>
    table_fits t (\<lambda>n. map_option fst (shapes (co_world self) n)) (snd ` set (co_clients self)) \<and>
    table_fits u (\<lambda>n. map_option snd (shapes (co_world self) n)) (snd ` set (co_clients self))"
proof -
  let ?w = "co_world self" and ?cs = "co_clients self"
  have c: "\<exists>c. w_clients ?w n = Some c" if "n \<in> set (map snd ?cs)" for n
    using assms that by (fastforce simp: shapes_def)
  have "\<exists>t. gh_foreach (foreach_add_inputs ?w) ?cs gh_new = Ret t \<and>
      table_fits t (\<lambda>n. map_option fst (shapes ?w n)) ({} \<union> snd ` set ?cs)"
    by (rule setup_fits [OF _ table_fits_new])
      (drule c, auto simp: foreach_add_inputs_def shapes_def shape_def)
  moreover have "\<exists>u. gh_foreach (foreach_add_outputs ?w) ?cs gh_new = Ret u \<and>
      table_fits u (\<lambda>n. map_option snd (shapes ?w n)) ({} \<union> snd ` set ?cs)"
    by (rule setup_fits [OF _ table_fits_new])
      (drule c, auto simp: foreach_add_outputs_def shapes_def shape_def)
  ultimately show ?thesis
    by (auto simp: rebuild_tables_def st_core_setup_inputs_hash_table_def st_core_setup_outputs_hash_table_def)
qed

section \<open>The invariant of the core\<close>

definition clients_ok :: "(string, nat) ghash \<Rightarrow> (nat \<Rightarrow> bool) \<Rightarrow> bool" where
  "clients_ok cs good \<longleftrightarrow> gh_wf cs \<and> distinct (map snd cs) \<and> (\<forall>n\<in>snd ` set cs. good n)"

text \<open>A pending start is in memory exactly as long as the table has it, and its name is no client's.\<close>

definition pending_ok ::
  "(string, nat) ghash \<Rightarrow> (string, nat) ghash \<Rightarrow> (nat \<Rightarrow> pending_client option) \<Rightarrow> nat \<Rightarrow> bool" where
  "pending_ok pd cs pm nx \<longleftrightarrow>
     gh_wf pd \<and>
     (\<forall>p pe. pm p = Some pe \<longrightarrow> p < nx \<and> pe_client pe = p \<and> gh_lookup pd (pe_name pe) = Some p \<and>
        gh_lookup cs (pe_name pe) = None) \<and>
     (\<forall>s p. gh_lookup pd s = Some p \<longrightarrow> (\<exists>pe. pm p = Some pe \<and> pe_name pe = s))"

definition tables_ok :: "io_table \<Rightarrow> io_table \<Rightarrow> (nat \<Rightarrow> shape option) \<Rightarrow> nat set \<Rightarrow> bool" where
  "tables_ok t u sh N \<longleftrightarrow>
     table_fits t (\<lambda>n. map_option fst (sh n)) N \<and> table_fits u (\<lambda>n. map_option snd (sh n)) N"

definition registry_ok :: "st_core \<Rightarrow> bool" where
  "registry_ok self \<longleftrightarrow>
     clients_ok (co_clients self)
       (\<lambda>n. shapes (co_world self) n \<noteq> None \<and> n < co_next self \<and> co_pmem self n = None) \<and>
     pending_ok (co_pending_clients self) (co_clients self) (co_pmem self) (co_next self) \<and>
     tables_ok (co_all_inputs self) (co_all_outputs self) (shapes (co_world self))
       (snd ` set (co_clients self))"

lemma pending_mem: "pending_ok pd cs pm nx \<Longrightarrow> pm p = Some pe \<Longrightarrow>
    p < nx \<and> pe_client pe = p \<and> gh_lookup pd (pe_name pe) = Some p \<and> gh_lookup cs (pe_name pe) = None"
  unfolding pending_ok_def by blast

lemma pending_entry:
  "pending_ok pd cs pm nx \<Longrightarrow> gh_lookup pd s = Some p \<Longrightarrow> \<exists>pe. pm p = Some pe \<and> pe_name pe = s"
  unfolding pending_ok_def by blast

lemma pending_okI:
  assumes "gh_wf pd"
    and "\<And>p pe. pm p = Some pe \<Longrightarrow> p < nx \<and> pe_client pe = p \<and> gh_lookup pd (pe_name pe) = Some p
        \<and> gh_lookup cs (pe_name pe) = None"
    and "\<And>s p. gh_lookup pd s = Some p \<Longrightarrow> \<exists>pe. pm p = Some pe \<and> pe_name pe = s"
  shows "pending_ok pd cs pm nx"
  using assms unfolding pending_ok_def by blast

lemma pending_add:
  assumes ok: "pending_ok pd cs pm nx" and s: "gh_lookup cs s = None" "gh_lookup pd s = None"
    and pe: "pe_name pe = s" "pe_client pe = nx"
  shows "pending_ok (gh_insert pd s nx) cs (pm(nx \<mapsto> pe)) (Suc nx)"
proof (rule pending_okI)
  show "gh_wf (gh_insert pd s nx)" using ok by (simp add: pending_ok_def gh.wf_insert)
next
  fix q pf
  assume q: "(pm(nx \<mapsto> pe)) q = Some pf"
  show "q < Suc nx \<and> pe_client pf = q \<and> gh_lookup (gh_insert pd s nx) (pe_name pf) = Some q
      \<and> gh_lookup cs (pe_name pf) = None"
  proof (cases "q = nx")
    case True
    with q s pe show ?thesis by (simp add: gh.lookup_insert)
  next
    case False
    with q have "pm q = Some pf" by simp
    from pending_mem [OF ok this] s(2) show ?thesis by (auto simp: gh.lookup_insert)
  qed
next
  fix t q
  assume t: "gh_lookup (gh_insert pd s nx) t = Some q"
  show "\<exists>pf. (pm(nx \<mapsto> pe)) q = Some pf \<and> pe_name pf = t"
  proof (cases "t = s")
    case True
    with t pe show ?thesis by simp
  next
    case False
    with t have "gh_lookup pd t = Some q" by simp
    from pending_entry [OF ok this] obtain pf where pf: "pm q = Some pf" "pe_name pf = t" by blast
    from pending_mem [OF ok pf(1)] have "q \<noteq> nx" by simp
    with pf show ?thesis by simp
  qed
qed

lemma pending_del:
  assumes ok: "pending_ok pd cs pm nx" and s: "gh_lookup pd s = Some p"
    and cs': "cs' = cs \<or> cs' = gh_insert cs s n"
  shows "pending_ok (gh_remove pd s) cs' (pm(p := None)) nx"
proof (rule pending_okI)
  show "gh_wf (gh_remove pd s)" using ok by (simp add: pending_ok_def gh.wf_remove)
next
  fix q pf
  assume "(pm(p := None)) q = Some pf"
  then have q: "q \<noteq> p" "pm q = Some pf" by (auto split: if_splits)
  note m = pending_mem [OF ok q(2)]
  then have "pe_name pf \<noteq> s" using s q(1) by auto
  with m cs' show "q < nx \<and> pe_client pf = q \<and> gh_lookup (gh_remove pd s) (pe_name pf) = Some q
      \<and> gh_lookup cs' (pe_name pf) = None"
    by (auto simp: gh.lookup_remove gh.lookup_insert)
next
  fix t q
  assume "gh_lookup (gh_remove pd s) t = Some q"
  then have t: "t \<noteq> s" "gh_lookup pd t = Some q" by (auto simp: gh.lookup_remove split: if_splits)
  from pending_entry [OF ok t(2)] obtain pf where pf: "pm q = Some pf" "pe_name pf = t" by blast
  from pending_entry [OF ok s] pf t(1) have "q \<noteq> p" by auto
  with pf show "\<exists>pf. (pm(p := None)) q = Some pf \<and> pe_name pf = t" by simp
qed

lemma pending_drop: "pending_ok pd cs pm nx \<Longrightarrow> pending_ok pd (gh_remove cs s) pm nx"
  by (auto simp: pending_ok_def gh.lookup_remove)

lemma clients_add:
  "clients_ok cs good \<Longrightarrow> gh_lookup cs s = None \<Longrightarrow> n \<notin> snd ` set cs \<Longrightarrow> good' n \<Longrightarrow>
   (\<And>k. k \<in> snd ` set cs \<Longrightarrow> good k \<Longrightarrow> good' k) \<Longrightarrow> clients_ok (gh_insert cs s n) good'"
  using gh.wf_insert [of cs s n] by (auto simp: clients_ok_def gh_insert_fresh)

lemma clients_drop:
  "clients_ok cs good \<Longrightarrow> gh_lookup cs s = Some n \<Longrightarrow> (\<And>k. k \<noteq> n \<Longrightarrow> good k \<Longrightarrow> good' k) \<Longrightarrow>
   clients_ok (gh_remove cs s) good' \<and> snd ` set (gh_remove cs s) = snd ` set cs - {n}"
proof -
  assume h: "clients_ok cs good" "gh_lookup cs s = Some n" "\<And>k. k \<noteq> n \<Longrightarrow> good k \<Longrightarrow> good' k"
  have d: "fst e = s \<longleftrightarrow> snd e = n" if "e \<in> set cs" for e
  proof -
    have "(s, n) \<in> set cs" using h(2) by (rule gh_lookup_in_set)
    moreover have "distinct (map fst cs)" "distinct (map snd cs)" using h(1) by (auto simp: clients_ok_def gh_wf_def)
    ultimately show ?thesis using that by (metis eq_key_imp_eq_value prod.collapse distinct_map inj_onD snd_conv fst_conv)
  qed
  then have s: "snd ` set (gh_remove cs s) = snd ` set cs - {n}" by (auto simp: gh_remove_def)
  moreover have "distinct (map snd (gh_remove cs s))" "gh_wf (gh_remove cs s)"
    using h(1) by (auto simp: clients_ok_def gh_remove_def distinct_map_filter gh.wf_remove [unfolded gh_remove_def])
  moreover have "\<forall>k\<in>snd ` set (gh_remove cs s). good' k"
    using h(1,3) unfolding s clients_ok_def by blast
  ultimately show ?thesis by (simp add: clients_ok_def)
qed

lemma clients_mono: "clients_ok cs good \<Longrightarrow> (\<And>k. k \<in> snd ` set cs \<Longrightarrow> good k \<Longrightarrow> good' k) \<Longrightarrow> clients_ok cs good'"
  by (auto simp: clients_ok_def)

definition core_ok :: "(addr \<Rightarrow> nat) \<Rightarrow> (string \<Rightarrow> addr \<Rightarrow> bool) \<Rightarrow> core_env \<Rightarrow> st_core \<Rightarrow> bool" where
  "core_ok r cand E self \<longleftrightarrow>
     world_ok r cand (core_ctx E self) (co_engine self) (co_world self) \<and>
     rules_acyclic cand (co_engine self) \<and> registry_ok self"

definition fuel_enough :: "(addr \<Rightarrow> nat) \<Rightarrow> core_env \<Rightarrow> bool" where
  "fuel_enough r E \<longleftrightarrow> (\<forall>a. r a < ce_fuel E)"

lemma fuel_ctx: "fuel_enough r E \<Longrightarrow> fuel_ok r (core_ctx E self)"
  by (simp add: fuel_enough_def fuel_ok_def core_ctx_def)

lemma registry_tables:
  "registry_ok self \<Longrightarrow> table_ok (core_ctx E self) (w_clients (co_world self))"
  by (rule table_ok_fits) (auto simp: registry_ok_def tables_ok_def core_ctx_def)

lemma world_ok_base:
  "world_ok r cand cx eng w \<Longrightarrow> w_heap w' = w_heap w \<Longrightarrow> w_vars w' = w_vars w \<Longrightarrow>
   table_ok cx' (w_clients w') \<Longrightarrow> world_ok r cand cx' eng w'"
  by (simp add: world_ok_def)

text \<open>An event that changes only the world, and no shape in it.\<close>

lemma core_ok_world:
  assumes "core_ok r cand E self" "world_ok r cand (core_ctx E self) (co_engine self) w"
    "shapes w = shapes (co_world self)"
  shows "core_ok r cand E (self\<lparr>co_world := w\<rparr>)"
  using assms by (simp add: core_ok_def registry_ok_def core_ctx_def)

lemma core_ok_same:
  assumes "core_ok r cand E self" "w_heap w = w_heap (co_world self)" "w_vars w = w_vars (co_world self)"
    "shapes w = shapes (co_world self)"
  shows "core_ok r cand E (self\<lparr>co_world := w\<rparr>)"
proof (rule core_ok_world [OF assms(1) _ assms(4)])
  have ok: "world_ok r cand (core_ctx E self) (co_engine self) (co_world self)"
    using assms(1) by (simp add: core_ok_def)
  then have "table_ok (core_ctx E self) (w_clients (co_world self))" by (simp add: world_ok_def)
  from world_ok_base [OF ok assms(2,3) table_ok_shapes [OF assms(4) this]]
  show "world_ok r cand (core_ctx E self) (co_engine self) w" .
qed

lemma emit_peer_world:
  "emit_peer name a p st ev self = self\<lparr>co_world :=
     (case cd_debug (w_data (co_world self)) of None \<Rightarrow> co_world self
      | Some d \<Rightarrow> set_debug (st_core_debug_emit_peer_changed d name a p st ev) (co_world self))\<rparr>"
  by (simp add: emit_peer_def split: option.split)

lemma shapes_same: "w_clients w = w_clients w' \<Longrightarrow> shapes w = shapes w'"
  by (simp add: shapes_def fun_eq_iff)

lemma emit_peer_ok: "core_ok r cand E self \<Longrightarrow> core_ok r cand E (emit_peer name a p st ev self)"
  unfolding emit_peer_world by (rule core_ok_same) (auto split: option.split)

section \<open>Services\<close>

text \<open>An event that changes the registry and no expression or variable.\<close>

lemma core_ok_registry:
  assumes "core_ok r cand E self" "registry_ok self'" "co_engine self' = co_engine self"
    "w_heap (co_world self') = w_heap (co_world self)" "w_vars (co_world self') = w_vars (co_world self)"
  shows "core_ok r cand E self'"
proof -
  have "world_ok r cand (core_ctx E self) (co_engine self) (co_world self)"
    using assms(1) by (simp add: core_ok_def)
  from world_ok_base [OF this assms(4,5) registry_tables [OF assms(2)]]
  show ?thesis using assms(1-3) by (simp add: core_ok_def)
qed

lemma tables_cong:
  assumes "\<And>n. n \<in> N \<Longrightarrow> sh n = sh' n" "tables_ok t u sh N"
  shows "tables_ok t u sh' N"
proof -
  have "table_fits t (\<lambda>n. map_option f (sh' n)) N" if "table_fits t (\<lambda>n. map_option f (sh n)) N" for t f
    using that assms(1) unfolding table_fits_def by (metis (no_types, lifting))
  with assms(2) show ?thesis by (simp add: tables_ok_def)
qed

lemma added_ok:
  assumes ok: "core_ok r cand E self"
  shows "core_ok r cand E (on_mdns_service_added E name a p self)"
proof (cases "ce_match E name \<and> \<not> gh_contains (co_clients self) name \<and> \<not> gh_contains (co_pending_clients self) name")
  case False
  then show ?thesis unfolding on_mdns_service_added_def if_not_P [OF False] by (intro ok)
next
  case True
  let ?n = "co_next self" and ?w = "co_world self" and ?N = "snd ` set (co_clients self)"
  let ?pe = "\<lparr>pe_name = name, pe_address = a, pe_port = p, pe_client = ?n\<rparr>"
  let ?w' = "?w\<lparr>w_clients := (w_clients ?w)(?n \<mapsto> st_client_init)\<rparr>"
  let ?self = "self\<lparr>co_next := Suc ?n, co_pmem := (co_pmem self)(?n \<mapsto> ?pe), co_world := ?w',
    co_pending_clients := gh_insert (co_pending_clients self) name ?n\<rparr>"
  have cl: "clients_ok (co_clients self) (\<lambda>n. shapes ?w n \<noteq> None \<and> n < ?n \<and> co_pmem self n = None)"
    and pd: "pending_ok (co_pending_clients self) (co_clients self) (co_pmem self) ?n"
    and tb: "tables_ok (co_all_inputs self) (co_all_outputs self) (shapes ?w) ?N"
    using ok by (auto simp: core_ok_def registry_ok_def)
  have names: "gh_lookup (co_clients self) name = None" "gh_lookup (co_pending_clients self) name = None"
    using True by (auto simp: gh_contains_def)
  have fresh: "k \<noteq> ?n" if "k \<in> ?N" for k using cl that by (auto simp: clients_ok_def)
  have "clients_ok (co_clients self)
      (\<lambda>n. shapes ?w' n \<noteq> None \<and> n < Suc ?n \<and> ((co_pmem self)(?n \<mapsto> ?pe)) n = None)"
    by (rule clients_mono [OF cl]) (use fresh in \<open>auto simp: shapes_upd\<close>)
  moreover have "pending_ok (gh_insert (co_pending_clients self) name ?n) (co_clients self)
      ((co_pmem self)(?n \<mapsto> ?pe)) (Suc ?n)"
    by (rule pending_add [OF pd names]) simp_all
  moreover have "tables_ok (co_all_inputs self) (co_all_outputs self) (shapes ?w') ?N"
    by (rule tables_cong [OF _ tb]) (use fresh in \<open>auto simp: shapes_upd\<close>)
  ultimately have "registry_ok ?self" by (simp add: registry_ok_def)
  then have "core_ok r cand E ?self" by (rule core_ok_registry [OF ok]) simp_all
  with True show ?thesis by (simp add: on_mdns_service_added_def Let_def emit_peer_ok)
qed

end
