(* ===== verification/CoreRun.thy ===== *)
theory CoreRun
  imports CoreInv
begin

text \<open>
  Every event of the main loop keeps the invariant of the core, and what that means for runs: the
  loop never reads freed memory while each start ends before its service is removed, and it does
  otherwise.
\<close>

section \<open>Removed services\<close>

lemma core_ok_parts:
  assumes "core_ok r cand E self"
  shows "clients_ok (co_clients self)
      (\<lambda>n. shapes (co_world self) n \<noteq> None \<and> n < co_next self \<and> co_pmem self n = None)"
    "pending_ok (co_pending_clients self) (co_clients self) (co_pmem self) (co_next self)"
    "tables_ok (co_all_inputs self) (co_all_outputs self) (shapes (co_world self))
       (snd ` set (co_clients self))"
    "world_ok r cand (core_ctx E self) (co_engine self) (co_world self)"
    "rules_acyclic cand (co_engine self)"
  using assms by (auto simp: core_ok_def registry_ok_def)

lemma emit_peer_same [simp]:
  "co_engine (emit_peer n a p s e self) = co_engine self"
  "co_clients (emit_peer n a p s e self) = co_clients self"
  "co_pending_clients (emit_peer n a p s e self) = co_pending_clients self"
  "co_pmem (emit_peer n a p s e self) = co_pmem self"
  "co_next (emit_peer n a p s e self) = co_next self"
  "w_clients (co_world (emit_peer n a p s e self)) = w_clients (co_world self)"
  "w_heap (co_world (emit_peer n a p s e self)) = w_heap (co_world self)"
  "w_vars (co_world (emit_peer n a p s e self)) = w_vars (co_world self)"
  by (simp_all add: emit_peer_world split: option.split)

lemma remove_pending_ok:
  assumes ok: "core_ok r cand E self"
  shows "core_ok r cand E (remove_pending self s)"
proof (cases "gh_lookup (co_pending_clients self) s")
  case None
  with ok show ?thesis by (simp add: remove_pending_def)
next
  case (Some p)
  let ?self = "self\<lparr>co_pending_clients := gh_remove (co_pending_clients self) s,
    co_pmem := (co_pmem self)(p := None)\<rparr>"
  note parts = core_ok_parts [OF ok]
  have "clients_ok (co_clients self)
      (\<lambda>n. shapes (co_world self) n \<noteq> None \<and> n < co_next self \<and> ((co_pmem self)(p := None)) n = None)"
    by (rule clients_mono [OF parts(1)]) auto
  with pending_del [OF parts(2) Some disjI1 [OF refl]] parts(3)
  have "registry_ok ?self" by (simp add: registry_ok_def)
  then have "core_ok r cand E ?self" by (rule core_ok_registry [OF ok]) simp_all
  with Some show ?thesis by (simp add: remove_pending_def)
qed

lemma drop_client_ok:
  assumes ok: "core_ok r cand E self" and n: "gh_lookup (co_clients self) s = Some n"
  shows "fine (core_ok r cand E) (rebuild_tables (self\<lparr>co_clients := gh_remove (co_clients self) s,
    co_world := co_world self\<lparr>w_clients := (w_clients (co_world self))(n := None)\<rparr>\<rparr>))"
proof -
  let ?w = "co_world self\<lparr>w_clients := (w_clients (co_world self))(n := None)\<rparr>"
  let ?self = "self\<lparr>co_clients := gh_remove (co_clients self) s, co_world := ?w\<rparr>"
  note parts = core_ok_parts [OF ok]
  have sh: "shapes ?w k = shapes (co_world self) k" if "k \<noteq> n" for k
    using that by (simp add: shapes_def)
  have cl: "clients_ok (gh_remove (co_clients self) s)
        (\<lambda>k. shapes ?w k \<noteq> None \<and> k < co_next self \<and> co_pmem self k = None)"
    using clients_drop [OF parts(1) n, of "\<lambda>k. shapes ?w k \<noteq> None \<and> k < co_next self \<and> co_pmem self k = None"] sh
    by auto
  then have "\<forall>k\<in>snd ` set (co_clients ?self). shapes (co_world ?self) k \<noteq> None" by (simp add: clients_ok_def)
  from rebuild_ok [OF this] obtain t u where
    tu: "rebuild_tables ?self = Ret (?self\<lparr>co_all_inputs := t, co_all_outputs := u\<rparr>)"
    "tables_ok t u (shapes ?w) (snd ` set (gh_remove (co_clients self) s))"
    by (auto simp: tables_ok_def)
  have "registry_ok (?self\<lparr>co_all_inputs := t, co_all_outputs := u\<rparr>)"
    using cl tu(2) pending_drop [OF parts(2), of s] by (simp add: registry_ok_def)
  then have "core_ok r cand E (?self\<lparr>co_all_inputs := t, co_all_outputs := u\<rparr>)"
    by (rule core_ok_registry [OF ok]) simp_all
  with tu(1) show ?thesis by (simp add: fine_def)
qed

lemma removed_ok:
  assumes ok: "core_ok r cand E self"
  shows "fine (core_ok r cand E) (on_mdns_service_removed s self)"
proof -
  have pend: "fine (core_ok r cand E)
     (if gh_contains (co_pending_clients self) s
        then rbind (deref (Option.bind (gh_lookup (co_pending_clients self) s) (co_pmem self))) (\<lambda>pending.
             Ret (remove_pending
                    (emit_peer s (pe_address pending) (pe_port pending)
                       (state_code ST_CLIENT_STATE_FAILED) ''removed'' self) s))
        else Ret self)"
  proof (cases "gh_lookup (co_pending_clients self) s")
    case None
    with ok show ?thesis by (simp add: gh_contains_def fine_def)
  next
    case (Some p)
    with pending_entry [OF core_ok_parts(2) [OF ok] Some] ok show ?thesis
      by (auto simp: gh_contains_def fine_def intro!: remove_pending_ok emit_peer_ok)
  qed
  have cli: "fine (core_ok r cand E)
      (case gh_lookup (co_clients self) s of
         None \<Rightarrow> Ret self
       | Some n \<Rightarrow>
           let self = emit_peer s '''' 0 (state_code ST_CLIENT_STATE_FAILED) ''removed'' self;
               w = co_world self
           in rebuild_tables (self\<lparr>co_clients := gh_remove (co_clients self) s,
                co_world := w\<lparr>w_clients := (w_clients w)(n := None)\<rparr>\<rparr>))"
    if "core_ok r cand E self" for self
    using that drop_client_ok [OF emit_peer_ok [OF that]]
    by (auto simp: Let_def fine_def split: option.split)
  show ?thesis
    unfolding on_mdns_service_removed_def by (rule fine_bind [OF pend cli])
qed

section \<open>Finished starts\<close>

lemma world_clients_ok:
  "world_ok r cand cx eng w \<Longrightarrow> table_ok cx' (w_clients w') \<Longrightarrow> w_heap w' = w_heap w \<Longrightarrow>
   w_vars w' = w_vars w \<Longrightarrow> world_ok r cand cx' eng w'"
  by (rule world_ok_base)

text \<open>What \<open>register_ready_client\<close> leaves, apart from the memory of the pending start.\<close>

definition registered ::
  "(addr \<Rightarrow> nat) \<Rightarrow> (string \<Rightarrow> addr \<Rightarrow> bool) \<Rightarrow> core_env \<Rightarrow> st_core \<Rightarrow> string \<Rightarrow> nat \<Rightarrow> st_core \<Rightarrow> bool" where
  "registered r cand E self s n self' \<longleftrightarrow>
     (\<exists>w t u. self' = self\<lparr>co_clients := gh_insert (co_clients self) s n, co_world := w,
        co_all_inputs := t, co_all_outputs := u\<rparr> \<and> shapes w = shapes (co_world self) \<and>
        tables_ok t u (shapes w) (snd ` set (gh_insert (co_clients self) s n)) \<and>
        world_ok r cand (core_ctx E self') (co_engine self) w)"

lemma register_ok:
  assumes base: "world_ok r cand cx0 (co_engine self) w0" "w_heap (co_world self) = w_heap w0"
      "w_vars (co_world self) = w_vars w0"
    and acyc: "rules_acyclic cand (co_engine self)" and fuel: "fuel_enough r E"
    and live: "\<forall>k\<in>snd ` set (gh_insert (co_clients self) s n). shapes (co_world self) k \<noteq> None"
    and n: "shapes (co_world self) n \<noteq> None"
  shows "fine (registered r cand E self s n) (register_ready_client E self s n a p)"
proof -
  let ?cs = "gh_insert (co_clients self) s n"
  obtain c where c: "w_clients (co_world self) n = Some c" using n by (auto simp: shapes_def)
  let ?s1 = "emit_peer s a p (state_code ST_CLIENT_STATE_READY) ''ready'' (self\<lparr>co_clients := ?cs\<rparr>)"
  define m where "m = fold (register_output (ce_db E)) (cl_outputs c)
    (fold (register_input (ce_db E)) (cl_inputs c) (cd_mysql (w_data (co_world ?s1))))"
  define w1 where "w1 = set_mysql m (co_world ?s1)"
  have s2: "?s1\<lparr>co_world := w1\<rparr> = self\<lparr>co_clients := ?cs, co_world := w1\<rparr>"
    by (simp add: emit_peer_world)
  have w1: "w_heap w1 = w_heap w0" "w_vars w1 = w_vars w0"
    using base(2,3) by (simp_all add: w1_def)
  have "w_clients w1 = w_clients (co_world self)" by (simp add: w1_def)
  note w1 = w1 shapes_same [OF this]
  have "\<forall>k\<in>snd ` set (co_clients (self\<lparr>co_clients := ?cs, co_world := w1\<rparr>)).
      shapes (co_world (self\<lparr>co_clients := ?cs, co_world := w1\<rparr>)) k \<noteq> None"
    using live w1 by simp
  from rebuild_ok [OF this] obtain t u where
    tu: "rebuild_tables (self\<lparr>co_clients := ?cs, co_world := w1\<rparr>)
       = Ret (self\<lparr>co_clients := ?cs, co_world := w1, co_all_inputs := t, co_all_outputs := u\<rparr>)"
    "tables_ok t u (shapes w1) (snd ` set ?cs)"
    by (auto simp: tables_ok_def)
  let ?s3 = "self\<lparr>co_clients := ?cs, co_world := w1, co_all_inputs := t, co_all_outputs := u\<rparr>"
  let ?cx = "core_ctx E ?s3"
  have tab: "table_ok ?cx (w_clients w1)"
    by (rule table_ok_fits [where N = "snd ` set ?cs"])
      (use tu(2) in \<open>auto simp: tables_ok_def core_ctx_def\<close>)
  have ok1: "world_ok r cand ?cx (co_engine self) w1"
    by (rule world_ok_base [OF base(1) w1(1,2) tab])
  have run: "fine (\<lambda>w. world_ok r cand ?cx (co_engine self) w \<and> shapes w = shapes w1)
      (engine_apply ?cx (st_core_var_changed_callback (ce_depth E) ?cx (co_engine self)) (co_engine self) None w1)"
    using engine_run_fine [OF ok1 fuel_ctx [OF fuel] acyc] core_legit.keeps_engine legit_shapes
    unfolding fine_def by blast
  have cx: "core_ctx E (?s3\<lparr>co_world := w\<rparr>) = ?cx" for w by (simp add: core_ctx_def)
  have ret: "registered r cand E self s n (?s3\<lparr>co_world := v\<rparr>)"
    if "world_ok r cand ?cx (co_engine self) v" "shapes v = shapes w1" for v
    using that tu(2) w1(3) unfolding registered_def cx
    by (intro exI [of _ v] exI [of _ t] exI [of _ u]) simp
  have "?s3\<lparr>co_world := w1\<rparr> = ?s3" by (rule st_core.equality) simp_all
  with ret [OF ok1 refl] have ret1: "registered r cand E self s n ?s3" by metis
  have eq: "register_ready_client E self s n a p =
      (if (case cd_debug (w_data w1) of None \<Rightarrow> False | Some d \<Rightarrow> fst (st_core_debug_intercept_apply d None))
       then Ret ?s3
       else rbind (engine_apply ?cx (st_core_var_changed_callback (ce_depth E) ?cx (co_engine self))
                     (co_engine self) None w1) (\<lambda>w. Ret (?s3\<lparr>co_world := w\<rparr>)))"
    unfolding register_ready_client_def c deref_simps rbind.simps Let_def m_def [symmetric] w1_def [symmetric]
      s2 tu(1)
    by simp
  have "fine (registered r cand E self s n)
      (rbind (engine_apply ?cx (st_core_var_changed_callback (ce_depth E) ?cx (co_engine self))
                     (co_engine self) None w1) (\<lambda>w. Ret (?s3\<lparr>co_world := w\<rparr>)))"
    by (rule fine_bind [OF run], rule fine_Ret, rule ret) (elim conjE; assumption)+
  with ret1 show ?thesis unfolding eq by (simp add: fine_Ret)
qed

lemma finished_ok:
  assumes ok: "core_ok r cand E self" and fuel: "fuel_enough r E" and p: "co_pmem self p \<noteq> None"
  shows "fine (core_ok r cand E) (on_client_start_finished E p result c self)"
proof -
  note parts = core_ok_parts [OF ok]
  obtain pe where pe: "co_pmem self p = Some pe" using p by blast
  note mem = pending_mem [OF parts(2) pe]
  show ?thesis
  proof (cases result)
    case (Some e)
    with ok pe mem show ?thesis
      by (simp add: on_client_start_finished_def fine_def remove_pending_ok emit_peer_ok)
  next
    case None
    let ?s = "pe_name pe" and ?w = "co_world self"
    let ?w1 = "?w\<lparr>w_clients := (w_clients ?w)(p \<mapsto> c)\<rparr>"
    let ?s1 = "self\<lparr>co_pending_clients := gh_remove (co_pending_clients self) ?s, co_world := ?w1\<rparr>"
    let ?cs = "gh_insert (co_clients self) ?s p"
    have new: "p \<notin> snd ` set (co_clients self)"
      using parts(1) pe by (auto simp: clients_ok_def)
    have vals: "snd ` set ?cs = insert p (snd ` set (co_clients self))"
      using mem by (auto simp: gh_insert_fresh)
    have sh1: "shapes ?w1 k \<noteq> None" if "k \<in> insert p (snd ` set (co_clients self))" for k
      using that parts(1) by (auto simp: shapes_upd clients_ok_def)
    have fin: "fine (registered r cand E ?s1 ?s p)
        (register_ready_client E ?s1 ?s p (pe_address pe) (pe_port pe))"
    proof (rule register_ok)
      show "world_ok r cand (core_ctx E self) (co_engine ?s1) ?w" using parts(4) by simp
      show "rules_acyclic cand (co_engine ?s1)" using parts(5) by simp
      show "fuel_enough r E" by (rule fuel)
      show "\<forall>k\<in>snd ` set (gh_insert (co_clients ?s1) ?s p). shapes (co_world ?s1) k \<noteq> None"
        using sh1 vals by simp
      show "shapes (co_world ?s1) p \<noteq> None" using sh1 by simp
    qed simp_all
    have keep: "core_ok r cand E (self'\<lparr>co_pmem := (co_pmem self')(p := None)\<rparr>)"
      if reg: "registered r cand E ?s1 ?s p self'" for self'
    proof -
      from reg obtain w t u where s': "self' = ?s1\<lparr>co_clients := ?cs, co_world := w,
          co_all_inputs := t, co_all_outputs := u\<rparr>" "shapes w = shapes ?w1"
        "tables_ok t u (shapes w) (snd ` set ?cs)"
        "world_ok r cand (core_ctx E self') (co_engine self) w"
        unfolding registered_def by auto
      let ?s2 = "self'\<lparr>co_pmem := (co_pmem self')(p := None)\<rparr>"
      have "clients_ok ?cs (\<lambda>k. shapes w k \<noteq> None \<and> k < co_next self \<and> ((co_pmem self)(p := None)) k = None)"
        by (rule clients_add [OF parts(1)])
          (use mem new sh1 s'(2) in \<open>auto simp: shapes_upd\<close>)
      moreover have "pending_ok (gh_remove (co_pending_clients self) ?s) ?cs ((co_pmem self)(p := None)) (co_next self)"
        using pending_del [OF parts(2)] mem by blast
      ultimately have "registry_ok ?s2" using s'(1,3) by (simp add: registry_ok_def)
      moreover have "core_ctx E ?s2 = core_ctx E self'" by (simp add: core_ctx_def)
      ultimately show ?thesis using s'(1,4) parts(5) by (simp add: core_ok_def)
    qed
    have "on_client_start_finished E p result c self =
        rbind (register_ready_client E ?s1 ?s p (pe_address pe) (pe_port pe)) (\<lambda>self.
          Ret (self\<lparr>co_pmem := (co_pmem self)(p := None)\<rparr>))"
      using None pe mem by (simp add: on_client_start_finished_def Let_def)
    also have "fine (core_ok r cand E) \<dots>"
      by (rule fine_bind [OF fin], rule fine_Ret, rule keep)
    finally show ?thesis .
  qed
qed

section \<open>Signals of mirrored objects\<close>

definition keeps_shapes where
  "keeps_shapes r cand cx eng w w' \<longleftrightarrow> world_ok r cand cx eng w' \<and> shapes w' = shapes w"

lemma fine_kept:
  "fine (world_ok r cand cx eng) m \<Longrightarrow> (\<And>w'. m = Ret w' \<Longrightarrow> shapes w' = shapes w) \<Longrightarrow>
   fine (keeps_shapes r cand cx eng w) m"
  by (auto simp: fine_def keeps_shapes_def)

lemma callback_fine:
  assumes "world_ok r cand cx eng w" "fuel_ok r cx" "rules_acyclic cand eng"
  shows "fine (keeps_shapes r cand cx eng w) (st_core_input_changed_callback E cx eng x w)"
    and "fine (keeps_shapes r cand cx eng w) (st_core_output_changed_callback E cx eng y w)"
  by (rule fine_kept [OF input_callback_fine [OF assms] legit_shapes [OF input_callback_legit]], assumption)
    (rule fine_kept [OF output_callback_fine [OF assms] legit_shapes [OF output_callback_legit]], assumption)

lemma shape_update:
  "i < length (cl_inputs c) \<Longrightarrow> in_name x = in_name (cl_inputs c ! i) \<Longrightarrow>
   shape (c\<lparr>cl_inputs := (cl_inputs c)[i := x]\<rparr>) = shape c"
  "i < length (cl_outputs c) \<Longrightarrow> out_name y = out_name (cl_outputs c ! i) \<Longrightarrow>
   shape (c\<lparr>cl_outputs := (cl_outputs c)[i := y]\<rparr>) = shape c"
  by (simp_all add: shape_def map_update list_update_same_conv)

lemma put_input_fine:
  assumes ok: "world_ok r cand cx eng w" and n: "shapes w n = Some sh"
    and i: "i < length (fst sh)" "fst sh ! i = in_name x"
  shows "fine (keeps_shapes r cand cx eng w) (put_input n i x w)"
proof -
  obtain c where c: "w_clients w n = Some c" "shape c = sh" using n by (auto simp: shapes_Some)
  then have l: "i < length (cl_inputs c)" "in_name x = in_name (cl_inputs c ! i)"
    using i by (auto simp: shape_def)
  let ?w = "w\<lparr>w_clients := (w_clients w)(n \<mapsto> c\<lparr>cl_inputs := (cl_inputs c)[i := x]\<rparr>)\<rparr>"
  have sh: "shapes ?w = shapes w"
    unfolding shapes_upd shape_update(1) [OF l] c(2) using n by (simp add: fun_eq_iff)
  have "table_ok cx (w_clients w)" using ok by (simp add: world_ok_def)
  from world_ok_base [OF ok _ _ table_ok_shapes [OF sh this]] have "world_ok r cand cx eng ?w" by simp
  with c(1) l(1) sh show ?thesis by (simp add: put_input_def pdata_def fine_def keeps_shapes_def)
qed

lemma put_output_fine:
  assumes ok: "world_ok r cand cx eng w" and n: "shapes w n = Some sh"
    and i: "i < length (snd sh)" "snd sh ! i = out_name x"
  shows "fine (keeps_shapes r cand cx eng w) (put_output n i x w)"
proof -
  obtain c where c: "w_clients w n = Some c" "shape c = sh" using n by (auto simp: shapes_Some)
  then have l: "i < length (cl_outputs c)" "out_name x = out_name (cl_outputs c ! i)"
    using i by (auto simp: shape_def)
  let ?w = "w\<lparr>w_clients := (w_clients w)(n \<mapsto> c\<lparr>cl_outputs := (cl_outputs c)[i := x]\<rparr>)\<rparr>"
  have sh: "shapes ?w = shapes w"
    unfolding shapes_upd shape_update(2) [OF l] c(2) using n by (simp add: fun_eq_iff)
  have "table_ok cx (w_clients w)" using ok by (simp add: world_ok_def)
  from world_ok_base [OF ok _ _ table_ok_shapes [OF sh this]] have "world_ok r cand cx eng ?w" by simp
  with c(1) l(1) sh show ?thesis by (simp add: put_output_def pdata_def fine_def keeps_shapes_def)
qed

lemma keeps_shapes_bind:
  assumes "fine (keeps_shapes r cand cx eng w) m"
    "\<And>w'. world_ok r cand cx eng w' \<Longrightarrow> shapes w' = shapes w \<Longrightarrow> fine (keeps_shapes r cand cx eng w') (f w')"
  shows "fine (keeps_shapes r cand cx eng w) (rbind m f)"
  using assms by (cases m) (simp_all add: fine_def keeps_shapes_def)

lemma input_emissions_fine:
  assumes "world_ok r cand cx eng w" "fuel_ok r cx" "rules_acyclic cand eng" "shapes w n = Some sh"
    "i < length (fst sh)" "\<forall>(g, x)\<in>set es. in_name x = fst sh ! i"
  shows "fine (keeps_shapes r cand cx eng w) (input_emissions E cx eng n i es w)"
  using assms(1,4,6)
proof (induction es arbitrary: w)
  case Nil
  then show ?case by (simp add: fine_def keeps_shapes_def)
next
  case (Cons e es)
  obtain g x where e: "e = (g, x)" by (cases e)
  have step: "fine (keeps_shapes r cand cx eng v)
      (rbind (if g = SIG_VAL_CHANGED then st_core_input_changed_callback E cx eng x v else Ret v)
        (input_emissions E cx eng n i es))"
    if "world_ok r cand cx eng v" "shapes v = shapes w" for v
  proof (rule keeps_shapes_bind)
    show "fine (keeps_shapes r cand cx eng v)
        (if g = SIG_VAL_CHANGED then st_core_input_changed_callback E cx eng x v else Ret v)"
      using callback_fine(1) [OF that(1) assms(2,3)] that(1) by (simp add: fine_def keeps_shapes_def)
    show "fine (keeps_shapes r cand cx eng u) (input_emissions E cx eng n i es u)"
      if "world_ok r cand cx eng u" "shapes u = shapes v" for u
      using Cons.IH [OF that(1)] Cons.prems that(2) \<open>shapes v = shapes w\<close> by simp
  qed
  have "fine (keeps_shapes r cand cx eng w) (put_input n i x w)"
    by (rule put_input_fine [OF Cons.prems(1,2) assms(5)]) (use Cons.prems(3) e in simp)
  from keeps_shapes_bind [OF this step] show ?case by (simp add: e)
qed

lemma output_emissions_fine:
  assumes "world_ok r cand cx eng w" "fuel_ok r cx" "rules_acyclic cand eng" "shapes w n = Some sh"
    "i < length (snd sh)" "\<forall>(g, x)\<in>set es. out_name x = snd sh ! i"
  shows "fine (keeps_shapes r cand cx eng w) (output_emissions E cx eng n i es w)"
  using assms(1,4,6)
proof (induction es arbitrary: w)
  case Nil
  then show ?case by (simp add: fine_def keeps_shapes_def)
next
  case (Cons e es)
  obtain g x where e: "e = (g, x)" by (cases e)
  have step: "fine (keeps_shapes r cand cx eng v)
      (rbind (if g = SIG_VAL_CHANGED then st_core_output_changed_callback E cx eng x v else Ret v)
        (output_emissions E cx eng n i es))"
    if "world_ok r cand cx eng v" "shapes v = shapes w" for v
  proof (rule keeps_shapes_bind)
    show "fine (keeps_shapes r cand cx eng v)
        (if g = SIG_VAL_CHANGED then st_core_output_changed_callback E cx eng x v else Ret v)"
      using callback_fine(2) [OF that(1) assms(2,3)] that(1) by (simp add: fine_def keeps_shapes_def)
    show "fine (keeps_shapes r cand cx eng u) (output_emissions E cx eng n i es u)"
      if "world_ok r cand cx eng u" "shapes u = shapes v" for u
      using Cons.IH [OF that(1)] Cons.prems that(2) \<open>shapes v = shapes w\<close> by simp
  qed
  have "fine (keeps_shapes r cand cx eng w) (put_output n i x w)"
    by (rule put_output_fine [OF Cons.prems(1,2) assms(5)]) (use Cons.prems(3) e in simp)
  from keeps_shapes_bind [OF this step] show ?case by (simp add: e)
qed

lemma emit_input_ok:
  assumes ok: "core_ok r cand E self" and fuel: "fuel_enough r E" and n: "shapes (co_world self) n = Some sh"
    and i: "i < length (fst sh)" "in_name x = fst sh ! i" and es: "\<forall>(g, y)\<in>set es. in_name y = fst sh ! i"
  shows "fine (\<lambda>self'. core_ok r cand E self' \<and> shapes (co_world self') = shapes (co_world self))
    (emit_input E n i x es self)"
proof -
  note parts = core_ok_parts [OF ok]
  have "fine (keeps_shapes r cand (core_ctx E self) (co_engine self) (co_world self))
      (rbind (input_emissions E (core_ctx E self) (co_engine self) n i es (co_world self)) (put_input n i x))"
    by (rule keeps_shapes_bind [OF input_emissions_fine [OF parts(4) fuel_ctx [OF fuel] parts(5) n i(1) es]])
      (rule put_input_fine, use n i in auto)
  then have "fine (\<lambda>self'. core_ok r cand E self' \<and> shapes (co_world self') = shapes (co_world self))
      (rbind (rbind (input_emissions E (core_ctx E self) (co_engine self) n i es (co_world self)) (put_input n i x))
        (\<lambda>w. Ret (self\<lparr>co_world := w\<rparr>)))"
    by (rule fine_bind) (auto simp: keeps_shapes_def intro!: fine_Ret core_ok_world [OF ok])
  then show ?thesis by (simp add: emit_input_def rbind_assoc)
qed

lemma emit_output_ok:
  assumes ok: "core_ok r cand E self" and fuel: "fuel_enough r E" and n: "shapes (co_world self) n = Some sh"
    and i: "i < length (snd sh)" "out_name x = snd sh ! i" and es: "\<forall>(g, y)\<in>set es. out_name y = snd sh ! i"
  shows "fine (\<lambda>self'. core_ok r cand E self' \<and> shapes (co_world self') = shapes (co_world self))
    (emit_output E n i x es self)"
proof -
  note parts = core_ok_parts [OF ok]
  have "fine (keeps_shapes r cand (core_ctx E self) (co_engine self) (co_world self))
      (rbind (output_emissions E (core_ctx E self) (co_engine self) n i es (co_world self)) (put_output n i x))"
    by (rule keeps_shapes_bind [OF output_emissions_fine [OF parts(4) fuel_ctx [OF fuel] parts(5) n i(1) es]])
      (rule put_output_fine, use n i in auto)
  then have "fine (\<lambda>self'. core_ok r cand E self' \<and> shapes (co_world self') = shapes (co_world self))
      (rbind (rbind (output_emissions E (core_ctx E self) (co_engine self) n i es (co_world self)) (put_output n i x))
        (\<lambda>w. Ret (self\<lparr>co_world := w\<rparr>)))"
    by (rule fine_bind) (auto simp: keeps_shapes_def intro!: fine_Ret core_ok_world [OF ok])
  then show ?thesis by (simp add: emit_output_def rbind_assoc)
qed

text \<open>No setter but \<open>set_name\<close> touches the name.\<close>

lemma emit_pair_snd: "(g, y) \<in> set (emit_pair chg sig x) \<Longrightarrow> y = x"
  by (auto simp: emit_pair_def split: if_splits)

lemma input_apply_name:
  assumes "\<And>s. c \<noteq> ISetName s"
  shows "in_name (fst (snd (input_apply c x))) = in_name x \<and>
    (\<forall>(g, y)\<in>set (snd (snd (input_apply c x))). in_name y = in_name x)"
  using assms
  by (cases c) (auto simp: st_input_setter_defs st_input_set_step_def Let_def dest!: emit_pair_snd split: if_splits)

lemma output_apply_name:
  assumes "\<And>s. c \<noteq> OSetName s"
  shows "out_name (fst (snd (output_apply c x))) = out_name x \<and>
    (\<forall>(g, y)\<in>set (snd (snd (output_apply c x))). out_name y = out_name x)"
  using assms
  by (cases c) (auto simp: st_output_setter_defs st_output_set_step_def Let_def dest!: emit_pair_snd split: if_splits)

lemma input_apply_all_name:
  "(\<forall>c\<in>set cs. \<forall>s. c \<noteq> ISetName s) \<Longrightarrow> in_name (fst (input_apply_all cs x)) = in_name x \<and>
    (\<forall>(g, y)\<in>set (snd (input_apply_all cs x)). in_name y = in_name x)"
proof (induction cs arbitrary: x)
  case (Cons c cs)
  from Cons.IH [of "fst (snd (input_apply c x))"] Cons.prems input_apply_name [of c x]
  show ?case by (auto simp: Let_def)
qed simp

lemma output_apply_all_name:
  "(\<forall>c\<in>set cs. \<forall>s. c \<noteq> OSetName s) \<Longrightarrow> out_name (fst (output_apply_all cs x)) = out_name x \<and>
    (\<forall>(g, y)\<in>set (snd (output_apply_all cs x)). out_name y = out_name x)"
proof (induction cs arbitrary: x)
  case (Cons c cs)
  from Cons.IH [of "fst (snd (output_apply c x))"] Cons.prems output_apply_name [of c x]
  show ?case by (auto simp: Let_def)
qed simp

lemma update_first_input_at:
  "first_index (\<lambda>x. in_name x = ie_name e) xs = Some i \<Longrightarrow>
   update_first_input e xs = (let r = input_apply_all (input_setters e) (xs ! i) in (xs[i := fst r], snd r))"
  by (induction xs arbitrary: i) (auto simp: Let_def split: if_splits)

lemma update_first_output_at:
  "first_index (\<lambda>x. out_name x = ie_name e) xs = Some i \<Longrightarrow>
   update_first_output e xs = (let r = output_apply_all (output_setters e) (xs ! i) in (xs[i := fst r], snd r))"
  by (induction xs arbitrary: i) (auto simp: Let_def split: if_splits)

lemma input_signal_ok:
  assumes ok: "core_ok r cand E self" and fuel: "fuel_enough r E" and n: "n \<in> snd ` set (co_clients self)"
  shows "fine (core_ok r cand E) (core_input_signal E n e self)"
proof -
  have "shapes (co_world self) n \<noteq> None" using core_ok_parts(1) [OF ok] n by (auto simp: clients_ok_def)
  then obtain c where c: "w_clients (co_world self) n = Some c" by (auto simp: shapes_def)
  show ?thesis
  proof (cases "first_index (\<lambda>x. in_name x = ie_name e) (cl_inputs c)")
    case None
    with c ok show ?thesis by (simp add: core_input_signal_def fine_def)
  next
    case (Some i)
    let ?x = "cl_inputs c ! i" and ?r = "input_apply_all (input_setters e) (cl_inputs c ! i)"
    have i: "i < length (cl_inputs c)" using first_index_Some [OF Some] by simp
    have nm: "in_name (fst ?r) = in_name ?x \<and> (\<forall>(g, y)\<in>set (snd ?r). in_name y = in_name ?x)"
      by (rule input_apply_all_name) (auto simp: input_setters_def)
    have "core_input_signal E n e self = emit_input E n i (fst ?r) (snd ?r) self"
      using c Some i by (simp add: core_input_signal_def handle_input_changed_signal_def
          update_first_input_at [OF Some] Let_def)
    moreover have "fine (\<lambda>self'. core_ok r cand E self' \<and> shapes (co_world self') = shapes (co_world self))
        (emit_input E n i (fst ?r) (snd ?r) self)"
      by (rule emit_input_ok [OF ok fuel, where sh = "shape c"])
        (use c i nm in \<open>auto simp: shapes_def shape_def\<close>)
    ultimately show ?thesis by (auto simp: fine_def)
  qed
qed

lemma output_signal_ok:
  assumes ok: "core_ok r cand E self" and fuel: "fuel_enough r E" and n: "n \<in> snd ` set (co_clients self)"
  shows "fine (core_ok r cand E) (core_output_signal E n e self)"
proof -
  have "shapes (co_world self) n \<noteq> None" using core_ok_parts(1) [OF ok] n by (auto simp: clients_ok_def)
  then obtain c where c: "w_clients (co_world self) n = Some c" by (auto simp: shapes_def)
  show ?thesis
  proof (cases "first_index (\<lambda>x. out_name x = ie_name e) (cl_outputs c)")
    case None
    with c ok show ?thesis by (simp add: core_output_signal_def fine_def)
  next
    case (Some i)
    let ?x = "cl_outputs c ! i" and ?r = "output_apply_all (output_setters e) (cl_outputs c ! i)"
    have i: "i < length (cl_outputs c)" using first_index_Some [OF Some] by simp
    have nm: "out_name (fst ?r) = out_name ?x \<and> (\<forall>(g, y)\<in>set (snd ?r). out_name y = out_name ?x)"
      by (rule output_apply_all_name) (auto simp: output_setters_def)
    have "core_output_signal E n e self = emit_output E n i (fst ?r) (snd ?r) self"
      using c Some i by (simp add: core_output_signal_def handle_output_changed_signal_def
          update_first_output_at [OF Some] Let_def)
    moreover have "fine (\<lambda>self'. core_ok r cand E self' \<and> shapes (co_world self') = shapes (co_world self))
        (emit_output E n i (fst ?r) (snd ?r) self)"
      by (rule emit_output_ok [OF ok fuel, where sh = "shape c"])
        (use c i nm in \<open>auto simp: shapes_def shape_def\<close>)
    ultimately show ?thesis by (auto simp: fine_def)
  qed
qed

lemma stats_callback_frame [simp]:
  "w_heap (st_core_stats_changed_callback E s w) = w_heap w"
  "w_vars (st_core_stats_changed_callback E s w) = w_vars w"
  "w_clients (st_core_stats_changed_callback E s w) = w_clients w"
  by (simp_all add: st_core_stats_changed_callback_def Let_def split: option.split)

lemma stats_signal_ok:
  assumes ok: "core_ok r cand E self" and n: "n \<in> snd ` set (co_clients self)"
  shows "fine (core_ok r cand E) (core_stats_signal E n p self)"
proof -
  have "shapes (co_world self) n \<noteq> None" using core_ok_parts(1) [OF ok] n by (auto simp: clients_ok_def)
  then obtain c where c: "w_clients (co_world self) n = Some c" by (auto simp: shapes_def)
  let ?c = "fst (handle_stats_changed_signal c p)"
  let ?w = "(co_world self)\<lparr>w_clients := (w_clients (co_world self))(n \<mapsto> ?c)\<rparr>"
  have "shape ?c = shape c" by (simp add: handle_stats_changed_signal_def shape_def Let_def)
  then have sh: "shapes ?w = shapes (co_world self)"
    using c unfolding shapes_upd by (simp add: fun_eq_iff shapes_def)
  have "core_ok r cand E (self\<lparr>co_world := w\<rparr>)"
    if "w_heap w = w_heap ?w" "w_vars w = w_vars ?w" "w_clients w = w_clients ?w" for w
    using core_ok_same [OF ok, of w] that sh shapes_same [OF that(3)] by simp
  with c show ?thesis by (auto simp: core_stats_signal_def Let_def split_beta intro!: fine_Ret)
qed

end
