(* ===== verification/CoreLive.thy ===== *)
theory CoreLive
  imports CoreRun
begin

text \<open>
  The main loop as a whole. Every event keeps the invariant of the core, calls to the debugger
  included, so no run from the start of the program reads freed memory as long as each start of a
  client ends while its service is still announced; and the tables always list what the registered
  clients have. When a service goes away first, the end of its start reads a freed record.
\<close>

section \<open>Calls to the debugger\<close>

lemma put_debug_ok: "core_ok r cand E self \<Longrightarrow> core_ok r cand E (put_debug d self)"
  unfolding put_debug_def by (rule core_ok_same) simp_all

lemma lookup_input_shape:
  "lookup_input core s = Some (m, x) \<Longrightarrow>
   \<exists>sh. shapes (co_world core) (cm_client m) = Some sh \<and> cm_index m < length (fst sh) \<and>
     in_name x = fst sh ! cm_index m"
  by (auto simp: lookup_input_def shapes_def shape_def split: option.splits if_splits)

lemma set_val_names:
  "st_input_set_val x v = (e, y, es) \<Longrightarrow> in_name y = in_name x \<and> (\<forall>(g, z)\<in>set es. in_name z = in_name x)"
  "st_input_set_flags x f = (e, y, es) \<Longrightarrow> in_name y = in_name x \<and> (\<forall>(g, z)\<in>set es. in_name z = in_name x)"
  by (auto simp: st_input_set_val_def st_input_set_flags_def Let_def dest!: emit_pair_snd split: if_splits)

lemma set_input_ok:
  assumes ok: "core_ok r cand E self" and fuel: "fuel_enough r E"
  shows "fine (\<lambda>p. core_ok r cand E (snd p)) (st_core_debug_set_input E s v f self)"
proof (cases "lookup_input self s")
  case None
  with ok show ?thesis by (simp add: st_core_debug_set_input_def fine_def)
next
  case (Some mx)
  obtain m x where mx: "mx = (m, x)" by (cases mx)
  from lookup_input_shape [OF Some [unfolded mx]] obtain sh where
    sh: "shapes (co_world self) (cm_client m) = Some sh" "cm_index m < length (fst sh)"
      "in_name x = fst sh ! cm_index m" by blast
  obtain e1 x1 es1 where r1: "st_input_set_val x v = (e1, x1, es1)" by (metis prod_cases3)
  note n1 = set_val_names(1) [OF r1]
  obtain e2 x2 es2 where r2: "st_input_set_flags x1 f = (e2, x2, es2)" by (metis prod_cases3)
  note n2 = set_val_names(2) [OF r2]
  have second: "fine (\<lambda>p. core_ok r cand E (snd p))
      (rbind (emit_input E (cm_client m) (cm_index m) x2 es2 core) (\<lambda>core. Ret (e2 = None, core)))"
    if c: "core_ok r cand E core \<and> shapes (co_world core) = shapes (co_world self)" for core
  proof (rule fine_bind)
    show "fine (\<lambda>c. core_ok r cand E c \<and> shapes (co_world c) = shapes (co_world core))
        (emit_input E (cm_client m) (cm_index m) x2 es2 core)"
      by (rule emit_input_ok [OF conjunct1 [OF c] fuel]) (use c sh n1 n2 in auto)
  qed (simp add: fine_def)
  have "fine (\<lambda>p. core_ok r cand E (snd p))
      (rbind (emit_input E (cm_client m) (cm_index m) x1 es1 self)
        (\<lambda>core. rbind (emit_input E (cm_client m) (cm_index m) x2 es2 core) (\<lambda>core. Ret (e2 = None, core))))"
    by (rule fine_bind [OF emit_input_ok [OF ok fuel sh(1,2)] second]) (use sh n1 in auto)
  with ok Some mx r1 r2 show ?thesis
    by (cases e1) (simp_all add: st_core_debug_set_input_def fine_def)
qed

lemma send_output_shapes: "send_output cx m s v f w = Ret (b, w') \<Longrightarrow> shapes w' = shapes w"
proof -
  assume r: "send_output cx m s v f w = Ret (b, w')"
  then obtain c where c: "w_clients w (cm_client m) = Some c"
    "w' = w\<lparr>w_clients := (w_clients w)(cm_client m \<mapsto>
        snd (st_client_set_output (cx_bus cx (cm_client m)) c s v f))\<rparr>"
    by (cases "w_clients w (cm_client m)") (auto simp: send_output_def Let_def)
  have "shape (snd (st_client_set_output (cx_bus cx (cm_client m)) c s v f)) = shape c"
    by (simp add: st_client_set_output_def Let_def set_io_calls shape_def)
  with c show "shapes w' = shapes w" by (simp add: shapes_def fun_eq_iff)
qed

lemma set_output_ok:
  assumes ok: "core_ok r cand E self"
  shows "fine (\<lambda>p. core_ok r cand E (snd p)) (st_core_debug_set_output E s v f self)"
proof (cases "gh_lookup (co_all_outputs self) s")
  case None
  with ok show ?thesis by (simp add: st_core_debug_set_output_def fine_def)
next
  case (Some m)
  note parts = core_ok_parts [OF ok]
  have tab: "tab_lookup (cx_outputs (core_ctx E self)) s = Some m"
    using Some by (simp add: core_ctx_def tab_lookup_def)
  have "shapes w = shapes (co_world self)" if "send_output (core_ctx E self) m s v f (co_world self) = Ret (b, w)" for b w
    by (rule send_output_shapes [OF that])
  then have "core_ok r cand E (self\<lparr>co_world := w\<rparr>)"
    if "send_output (core_ctx E self) m s v f (co_world self) = Ret (b, w)" for b w
    using that send_output_fine [OF parts(4) tab, of s v f] core_ok_world [OF ok, of w] by (auto simp: fine_def)
  with send_output_fine [OF parts(4) tab, of s v f] Some show ?thesis
    by (auto simp: st_core_debug_set_output_def fine_def)
qed

lemma method_call_ok:
  assumes "core_ok r cand E self" "fuel_enough r E"
  shows "fine (\<lambda>p. core_ok r cand E (snd p)) (handle_method_call E m d self)"
proof -
  have io: "fine (\<lambda>p. core_ok r cand E (snd p)) (handle_set_input E s v f self)"
    "fine (\<lambda>p. core_ok r cand E (snd p)) (handle_set_output E s v f self)" for s v f
    unfolding handle_set_input_def handle_set_output_def
    by (rule fine_bind [OF set_input_ok [OF assms]], simp add: split_beta fine_Ret)
      (rule fine_bind [OF set_output_ok [OF assms(1)]], simp add: split_beta fine_Ret)
  show ?thesis
    using assms(1) by (cases m) (auto simp: handle_method_call_def io put_debug_ok fine_def [of _ "Ret _"]
        split: prod.split)
qed

section \<open>Runs\<close>

text \<open>The record of a pending start is still in memory when its start ends.\<close>

definition start_live :: "core_event \<Rightarrow> st_core \<Rightarrow> bool" where
  "start_live ev self = (case ev of StartFinished p _ _ \<Rightarrow> co_pmem self p \<noteq> None | _ \<Rightarrow> True)"

fun starts_live :: "core_env \<Rightarrow> core_event list \<Rightarrow> st_core \<Rightarrow> bool" where
  "starts_live E [] self = True"
| "starts_live E (ev # evs) self =
     (start_live ev self \<and> (case core_step E ev self of Ret self \<Rightarrow> starts_live E evs self | _ \<Rightarrow> True))"

lemma core_step_ok:
  assumes ok: "core_ok r cand E self" and fuel: "fuel_enough r E" and live: "start_live ev self"
  shows "fine (core_ok r cand E) (core_step E ev self)"
proof (cases ev)
  case (ServiceAdded s a p)
  with added_ok [OF ok] show ?thesis by (simp add: core_step_def fine_def)
next
  case (ServiceRemoved s)
  with removed_ok [OF ok] show ?thesis by (simp add: core_step_def)
next
  case (StartFinished p e c)
  with live finished_ok [OF ok fuel] show ?thesis by (simp add: core_step_def start_live_def)
next
  case (InputSignal n e)
  with ok input_signal_ok [OF ok fuel] show ?thesis by (simp add: core_step_def fine_Ret)
next
  case (OutputSignal n e)
  with ok output_signal_ok [OF ok fuel] show ?thesis by (simp add: core_step_def fine_Ret)
next
  case (StatsSignal n s)
  with ok stats_signal_ok [OF ok] show ?thesis by (simp add: core_step_def fine_Ret)
next
  case (DebugCall m)
  have "fine (core_ok r cand E) (rbind (handle_method_call E m d self) (\<lambda>(_, self). Ret self))" for d
    by (rule fine_bind [OF method_call_ok [OF ok fuel]]) (simp add: split_beta fine_Ret)
  with DebugCall ok show ?thesis by (simp add: core_step_def fine_Ret split: option.split)
next
  case (SelfStatsChanged s)
  have "core_ok r cand E (self\<lparr>co_world := st_core_stats_changed_callback E s (co_world self)\<rparr>)"
    by (rule core_ok_same [OF ok _ _ shapes_same]) simp_all
  then show ?thesis unfolding SelfStatsChanged core_step_def core_event.case by (rule fine_Ret)
qed

lemma dead_start_Ub: "\<not> start_live ev self \<Longrightarrow> core_step E ev self = Ub"
  by (cases ev) (auto simp: start_live_def core_step_def on_client_start_finished_def)

lemma core_run_ok:
  assumes "core_ok r cand E self" "fuel_enough r E" "starts_live E evs self"
  shows "fine (core_ok r cand E) (core_run E evs self)"
  using assms(1,3)
proof (induction evs arbitrary: self)
  case (Cons ev evs)
  then have "fine (core_ok r cand E) (core_step E ev self)" using core_step_ok [OF _ assms(2)] by simp
  with Cons show ?case by (cases "core_step E ev self") (auto simp: fine_def)
qed (simp add: fine_Ret)

lemma core_run_dead:
  assumes "core_ok r cand E self" "fuel_enough r E" "\<not> starts_live E evs self"
  shows "core_run E evs self = Ub"
  using assms(1,3)
proof (induction evs arbitrary: self)
  case (Cons ev evs)
  show ?case
  proof (cases "start_live ev self")
    case False
    then show ?thesis by (simp add: dead_start_Ub)
  next
    case True
    from core_step_ok [OF Cons.prems(1) assms(2) True] Cons.prems(2) True
    obtain s where "core_step E ev self = Ret s" "core_ok r cand E s" "\<not> starts_live E evs s"
      by (auto simp: fine_def)
    with Cons.IH show ?thesis by simp
  qed
qed simp

section \<open>The start of the program\<close>

text \<open>
  What the rules file has to give: counted references, and a rank that falls along the operands
  and from a reference to every expression its variable may hold.
\<close>

definition rules_loaded ::
  "(addr \<Rightarrow> nat) \<Rightarrow> (string \<Rightarrow> addr \<Rightarrow> bool) \<Rightarrow> core_data engine \<Rightarrow> var_table \<Rightarrow> expr_heap \<Rightarrow> bool" where
  "rules_loaded r cand eng vars h \<longleftrightarrow>
     heap_inv r cand (owners eng vars) h \<and> gh_wf vars \<and>
     (\<forall>s v. gh_lookup vars s = Some v \<longrightarrow> cand s (var_value v)) \<and> rules_acyclic cand eng"

lemma core_init_ok: "rules_loaded r cand eng vars h \<Longrightarrow> core_ok r cand E (core_init eng vars h dbg)"
  by (auto simp: rules_loaded_def core_ok_def core_init_def world_ok_def registry_ok_def clients_ok_def
      pending_ok_def tables_ok_def table_fits_def table_ok_def core_ctx_def tab_lookup_def gh_wf_def gh_lookup_def gh_new_def)


definition lamp_cand :: "string \<Rightarrow> addr \<Rightarrow> bool" where
  "lamp_cand s a \<longleftrightarrow> s = ''LAMP'' \<and> a = 1"

lemma lamp_loaded: "rules_loaded (\<lambda>_. 0) lamp_cand lamp_rules [] lamp_heap"
proof -
  have "heap_inv (\<lambda>_. 0) lamp_cand {#0, 1#} lamp_heap"
    unfolding lamp_heap_def
    by (rule heap_inv_heap_of) (auto simp: less_Suc_eq lamp_cand_def)
  moreover have "owners lamp_rules [] = {#0, 1#}"
    by (simp add: owners_def rule_nodes_def entry_assigns_def lamp_rules_def connect_debug_def)
  ultimately show ?thesis
    by (auto simp: rules_loaded_def rules_acyclic_def entry_assigns_def lamp_rules_def connect_debug_def
        lamp_cand_def gh_wf_def gh_lookup_def)
qed

lemma lamp_fuel: "fuel_enough (\<lambda>_. 0) lamp_env"
  by (simp add: fuel_enough_def lamp_env_def)

text \<open>A peer appears and becomes ready, another one fails, and the first one goes.\<close>

definition lamp_events :: "core_event list" where
  "lamp_events =
     [ServiceAdded ''ST:House'' ''10.0.0.7'' 8000, ServiceAdded ''ST:Barn'' ''10.0.0.8'' 8000,
      StartFinished 0 None (lamp_client 0),
      StartFinished 1 (Some \<lparr>err_code = ST_ERROR_INVALID_VALUE, err_message = ''''\<rparr>) st_client_init,
      ServiceRemoved ''ST:House'']"

definition ends_in :: "(st_core \<Rightarrow> bool) \<Rightarrow> st_core res \<Rightarrow> bool" where
  "ends_in P r = (case r of Ret s \<Rightarrow> P s | _ \<Rightarrow> False)"

lemma lamp_day:
  "ends_in (\<lambda>s. co_all_inputs s = [] \<and> co_clients s = [] \<and> co_pending_clients s = [])
     (core_run lamp_env lamp_events (core_init lamp_rules [] lamp_heap None))"
  by code_simp


text \<open>The registered clients, with their addresses.\<close>

definition registered :: "st_core \<Rightarrow> (nat \<times> st_client) set" where
  "registered s = {(n, c). n \<in> snd ` set (co_clients s) \<and> w_clients (co_world s) n = Some c}"

lemma table_entry:
  assumes "table_fits t (\<lambda>n. map_option (\<lambda>c. map nm (sel c)) (C n)) N" "gh_lookup t x = Some m"
  shows "\<exists>c. C (cm_client m) = Some c \<and> cm_client m \<in> N \<and> cm_index m < length (sel c) \<and> nm (sel c ! cm_index m) = x"
  using assms unfolding table_fits_def by fastforce

lemma table_complete:
  assumes "table_fits t (\<lambda>n. map_option (\<lambda>c. map nm (sel c)) (C n)) N" "n \<in> N" "C n = Some c" "x \<in> nm ` set (sel c)"
  shows "gh_lookup t x \<noteq> None"
  using assms by (auto simp: table_fits_def)

lemma tables_registered:
  assumes "registry_ok s"
  shows "table_fits (co_all_inputs s) (\<lambda>n. map_option (\<lambda>c. map in_name (cl_inputs c)) (w_clients (co_world s) n)) (snd ` set (co_clients s))"
    "table_fits (co_all_outputs s) (\<lambda>n. map_option (\<lambda>c. map out_name (cl_outputs c)) (w_clients (co_world s) n)) (snd ` set (co_clients s))"
  using assms by (simp_all add: registry_ok_def tables_ok_def shapes_def shape_def map_option.compositionality comp_def)

lemma lookup_input_registered:
  assumes "registry_ok s"
  shows "lookup_input s x \<noteq> None \<longleftrightarrow> (\<exists>(n, c)\<in>registered s. x \<in> in_name ` set (cl_inputs c))"
    and "lookup_input s x = Some (m, i) \<Longrightarrow> in_name i = x \<and> (\<exists>c. (cm_client m, c) \<in> registered s \<and> i \<in> set (cl_inputs c))"
proof -
  note fits = tables_registered(1) [OF assms]
  show "lookup_input s x = Some (m, i) \<Longrightarrow> in_name i = x \<and> (\<exists>c. (cm_client m, c) \<in> registered s \<and> i \<in> set (cl_inputs c))"
    using table_entry [OF fits, of x m] by (auto simp: lookup_input_def registered_def split: option.splits if_splits)
  show "lookup_input s x \<noteq> None \<longleftrightarrow> (\<exists>(n, c)\<in>registered s. x \<in> in_name ` set (cl_inputs c))"
  proof (cases "gh_lookup (co_all_inputs s) x")
    case None
    then show ?thesis using table_complete [OF fits, of _ _ x] by (auto simp: lookup_input_def registered_def)
  next
    case (Some m)
    from table_entry [OF fits Some] Some show ?thesis by (force simp: lookup_input_def registered_def)
  qed
qed

lemma lookup_output_registered:
  assumes "registry_ok s"
  shows "lookup_output s x \<noteq> None \<longleftrightarrow> (\<exists>(n, c)\<in>registered s. x \<in> out_name ` set (cl_outputs c))"
    and "lookup_output s x = Some (m, i) \<Longrightarrow> out_name i = x \<and> (\<exists>c. (cm_client m, c) \<in> registered s \<and> i \<in> set (cl_outputs c))"
proof -
  note fits = tables_registered(2) [OF assms]
  show "lookup_output s x = Some (m, i) \<Longrightarrow> out_name i = x \<and> (\<exists>c. (cm_client m, c) \<in> registered s \<and> i \<in> set (cl_outputs c))"
    using table_entry [OF fits, of x m] by (auto simp: lookup_output_def registered_def split: option.splits if_splits)
  show "lookup_output s x \<noteq> None \<longleftrightarrow> (\<exists>(n, c)\<in>registered s. x \<in> out_name ` set (cl_outputs c))"
  proof (cases "gh_lookup (co_all_outputs s) x")
    case None
    then show ?thesis using table_complete [OF fits, of _ _ x] by (auto simp: lookup_output_def registered_def)
  next
    case (Some m)
    from table_entry [OF fits Some] Some show ?thesis by (force simp: lookup_output_def registered_def)
  qed
qed


lemma lamp_morning:
  "ends_in (\<lambda>s. lookup_input s ''DOOR'' = Some (\<lparr>cm_client = 0, cm_index = 0\<rparr>, door) \<and> lookup_output s ''LAMP'' \<noteq> None)
     (core_run lamp_env (take 3 lamp_events) (core_init lamp_rules [] lamp_heap None))"
  by code_simp


text \<open>C32: A service that goes away while its client is being started leaves the start with a freed
  record: \<open>pending_client_free\<close> cancels the start, whose callback comes later and reads
  \<open>pending->core\<close> first of all.\<close>

theorem removed_pending_use_after_free:
  assumes "ce_match E name"
  shows "core_run E [ServiceAdded name address port, ServiceRemoved name, StartFinished 0 result c]
     (core_init eng vars h dbg) = Ub"
  using assms
  by (cases dbg) (simp_all add: core_step_def on_mdns_service_added_def on_mdns_service_removed_def
      on_client_start_finished_def remove_pending_def core_init_def Let_def gh_contains_def
      gh.lookup_insert gh.lookup_empty emit_peer_def set_debug_def)

theorem removed_pending_use_after_free_witness:
  "core_run lamp_env [ServiceAdded ''ST:House'' ''10.0.0.7'' 8000, ServiceRemoved ''ST:House'',
      StartFinished 0 (Some \<lparr>err_code = G_IO_ERROR_CODE ''CANCELLED'', err_message = ''''\<rparr>) st_client_init]
     (core_init lamp_rules [] lamp_heap None) = Ub"
  by (rule removed_pending_use_after_free) (simp add: lamp_env_def)

end
