(* ===== verification/Server.thy ===== *)
theory Server
  imports Client CString
begin

text \<open>
  \<open>lib/server.c\<close>: the service of a peer. It owns the inputs, outputs and statistics that clients
  mirror, answers their calls, and sends every change to every connection. The D-Bus library is a
  parameter: what starting a server gives, and whether registering the object succeeds.
\<close>

section \<open>State\<close>

type_synonym guint8 = "8 word"

record st_version =
  ve_major :: guint8
  ve_minor :: guint8
  ve_micro :: guint8

text \<open>\<open>sv_sent\<close> lists the emitted signals, each with its connection.\<close>

record st_server =
  sv_server :: bool
  sv_connections :: "nat list"
  sv_name :: string
  sv_port :: guint32
  sv_version :: st_version
  sv_inputs :: "st_input list"
  sv_outputs :: "st_output list"
  sv_stats :: st_stats
  sv_sent :: "(nat \<times> server_signal) list"

text \<open>\<open>st_server_init\<close> and \<open>st_server_new\<close>; the handlers of the objects are connected from here on.\<close>

definition st_server_new ::
  "string \<Rightarrow> st_version \<Rightarrow> st_input list \<Rightarrow> st_output list \<Rightarrow> st_server" where
  "st_server_new name version inputs outputs =
     \<lparr>sv_server = False, sv_connections = [], sv_name = name, sv_port = 0, sv_version = version,
      sv_inputs = inputs, sv_outputs = outputs, sv_stats = st_stats_new name, sv_sent = []\<rparr>"

definition st_server_set_name :: "st_server \<Rightarrow> string \<Rightarrow> bool \<times> st_server" where
  "st_server_set_name self name = (True, self\<lparr>sv_name := name\<rparr>)"

definition st_server_set_version :: "st_server \<Rightarrow> st_version \<Rightarrow> bool \<times> st_server" where
  "st_server_set_version self version = (True, self\<lparr>sv_version := version\<rparr>)"

definition st_server_dup_inputs :: "st_server \<Rightarrow> st_input list" where
  "st_server_dup_inputs self = map st_input_dup (sv_inputs self)"

definition st_server_dup_outputs :: "st_server \<Rightarrow> st_output list" where
  "st_server_dup_outputs self = map st_output_dup (sv_outputs self)"

section \<open>Signals\<close>

definition input_entry :: "st_input \<Rightarrow> io_entry" where
  "input_entry i = \<lparr>ie_name = in_name i, ie_descr = in_descr i, ie_unit = in_unit i, ie_min = in_min i,
     ie_max = in_max i, ie_step = in_step i, ie_val = in_val i, ie_flags = in_flags i\<rparr>"

definition output_entry :: "st_output \<Rightarrow> io_entry" where
  "output_entry i = \<lparr>ie_name = out_name i, ie_descr = out_descr i, ie_unit = out_unit i, ie_min = out_min i,
     ie_max = out_max i, ie_step = out_step i, ie_val = out_val i, ie_flags = out_flags i\<rparr>"

definition emit_input_changed :: "nat \<Rightarrow> st_input \<Rightarrow> st_server \<Rightarrow> st_server" where
  "emit_input_changed c i self = self\<lparr>sv_sent := sv_sent self @ [(c, SgInputChanged (input_entry i))]\<rparr>"

definition emit_output_changed :: "nat \<Rightarrow> st_output \<Rightarrow> st_server \<Rightarrow> st_server" where
  "emit_output_changed c i self = self\<lparr>sv_sent := sv_sent self @ [(c, SgOutputChanged (output_entry i))]\<rparr>"

definition emit_stats_changed :: "nat \<Rightarrow> st_stats \<Rightarrow> st_server \<Rightarrow> st_server" where
  "emit_stats_changed c s self = self\<lparr>sv_sent := sv_sent self @ [(c, SgStatsChanged s)]\<rparr>"

definition input_changed_callback :: "st_input \<Rightarrow> st_server \<Rightarrow> st_server" where
  "input_changed_callback i self = fold (\<lambda>c. emit_input_changed c i) (sv_connections self) self"

definition output_changed_callback :: "st_output \<Rightarrow> st_server \<Rightarrow> st_server" where
  "output_changed_callback i self = fold (\<lambda>c. emit_output_changed c i) (sv_connections self) self"

definition stats_changed_callback :: "st_stats \<Rightarrow> st_server \<Rightarrow> st_server" where
  "stats_changed_callback s self = fold (\<lambda>c. emit_stats_changed c s) (sv_connections self) self"

text \<open>
  \<open>setup_inputs_signals\<close> and \<open>setup_outputs_signals\<close>: the callbacks see the \<open>changed\<close> signals of the
  objects in the arrays, in the order a setter emits them.
\<close>

definition setup_inputs_signals :: "(io_signal \<times> st_input) list \<Rightarrow> st_server \<Rightarrow> st_server" where
  "setup_inputs_signals es self =
     fold (\<lambda>(sig, i). if sig = SIG_CHANGED then input_changed_callback i else (\<lambda>s. s)) es self"

definition setup_outputs_signals :: "(io_signal \<times> st_output) list \<Rightarrow> st_server \<Rightarrow> st_server" where
  "setup_outputs_signals es self =
     fold (\<lambda>(sig, i). if sig = SIG_CHANGED then output_changed_callback i else (\<lambda>s. s)) es self"

section \<open>Calls\<close>

text \<open>A completion of an invocation: a value or an error. A handler may complete it twice.\<close>

datatype completion = CpValue variant | CpError gerror

text \<open>
  The error has the domain of D-Bus and the code \<open>G_IO_ERROR_NOT_FOUND\<close>, which is 1, of another domain: there
  1 means that memory is exhausted.
\<close>

definition unmanaged :: "string \<Rightarrow> gerror" where
  "unmanaged m = \<lparr>err_code = G_DBUS_ERROR_CODE 1, err_message = ''unknown method: '' @ m\<rparr>"

text \<open>
  The loop of \<open>SetOutput\<close> over the outputs: the first one of the name has its value set, then its
  flags when the value was accepted.
\<close>

definition set_output_loop ::
  "string \<Rightarrow> f64 \<Rightarrow> guint64 \<Rightarrow> st_server \<Rightarrow> bool \<times> gerror option \<times> st_server" where
  "set_output_loop name v flags self =
     (case first_index (\<lambda>x. out_name x = name) (sv_outputs self) of
        None \<Rightarrow> (False, None, self)
      | Some i \<Rightarrow>
          let (e, x, es) = st_output_set_val (sv_outputs self ! i) v;
              self = setup_outputs_signals es (self\<lparr>sv_outputs := (sv_outputs self)[i := x]\<rparr>)
          in case e of
               Some e \<Rightarrow> (False, Some e, self)
             | None \<Rightarrow>
                 let (e, x, es) = st_output_set_flags x flags;
                     self = setup_outputs_signals es (self\<lparr>sv_outputs := (sv_outputs self)[i := x]\<rparr>)
                 in (e = None, e, self))"

definition set_input_loop ::
  "string \<Rightarrow> f64 \<Rightarrow> guint64 \<Rightarrow> st_server \<Rightarrow> bool \<times> gerror option \<times> st_server" where
  "set_input_loop name v flags self =
     (case first_index (\<lambda>x. in_name x = name) (sv_inputs self) of
        None \<Rightarrow> (False, None, self)
      | Some i \<Rightarrow>
          let (e, x, es) = st_input_set_val (sv_inputs self ! i) v;
              self = setup_inputs_signals es (self\<lparr>sv_inputs := (sv_inputs self)[i := x]\<rparr>)
          in case e of
               Some e \<Rightarrow> (False, Some e, self)
             | None \<Rightarrow>
                 let (e, x, es) = st_input_set_flags x flags;
                     self = setup_inputs_signals es (self\<lparr>sv_inputs := (sv_inputs self)[i := x]\<rparr>)
                 in (e = None, e, self))"

definition bool_reply :: "bool \<Rightarrow> completion" where
  "bool_reply res = CpValue (V_INT (if res then 1 else 0))"

text \<open>
  \<open>handle_method_call\<close>: \<open>parameters\<close> is the tuple \<open>(sdt)\<close> of the two setters. What is returned
  lists the completions of the invocation in order.
\<close>

definition handle_method_call ::
  "string \<Rightarrow> string \<times> f64 \<times> guint64 \<Rightarrow> st_server \<Rightarrow> completion list \<times> st_server" where
  "handle_method_call method_name parameters self =
     (let (value, error, self) =
        (if method_name = ''GetName'' then ([CpValue (V_NAME (sv_name self))], None, self)
         else if method_name = ''GetVersion'' then
           ([CpValue (V_VERSION (uint (ve_major (sv_version self))) (uint (ve_minor (sv_version self)))
               (uint (ve_micro (sv_version self))))], None, self)
         else if method_name = ''GetInputs'' then
           ([CpValue (V_IO_MAP (map input_entry (sv_inputs self)))], None, self)
         else if method_name = ''GetOutputs'' then
           ([CpValue (V_IO_MAP (map output_entry (sv_outputs self)))], None, self)
         else if method_name = ''SetOutput'' then
           (let (name, v, flags) = parameters; (res, e, self) = set_output_loop name v flags self
            in ([bool_reply res], e, self))
         else if method_name = ''SetInput'' then
           (let (name, v, flags) = parameters; (res, e, self) = set_input_loop name v flags self
            in ([bool_reply res], e, self))
         else if method_name = ''GetStats'' then ([CpValue (V_STATS (sv_stats self))], None, self)
         else ([], Some (unmanaged method_name), self))
      in (value @ (case error of Some e \<Rightarrow> [CpError e] | None \<Rightarrow> []), self))"

section \<open>Connections\<close>

definition connection_closed :: "nat \<Rightarrow> st_server \<Rightarrow> st_server" where
  "connection_closed c self = self\<lparr>sv_connections := remove1 c (sv_connections self)\<rparr>"

text \<open>A connection whose object cannot be registered ends the process.\<close>

definition on_new_connection :: "bool \<Rightarrow> nat \<Rightarrow> st_server \<Rightarrow> st_server res" where
  "on_new_connection registered c self =
     (let self = self\<lparr>sv_connections := sv_connections self @ [c]\<rparr>
      in if registered then Ret self else Abort)"

text \<open>
  \<open>st_server_start\<close>: \<open>listen\<close> gives the error of \<open>g_dbus_server_new_sync\<close> or the client address,
  which is missing when the library has none. The port that was bound is read from the address.
\<close>

definition st_server_start ::
  "(string \<Rightarrow> gerror + string option) \<Rightarrow> guint16 \<Rightarrow> st_server \<Rightarrow> gerror option \<times> st_server" where
  "st_server_start listen port self =
     (let self = self\<lparr>sv_port := ucast port\<rparr>
      in case listen (''tcp:host=0.0.0.0,port='' @ show_nat (unat port)) of
           Inl e \<Rightarrow> (Some e, self\<lparr>sv_server := False\<rparr>)
         | Inr addr \<Rightarrow>
             let self = self\<lparr>sv_server := True\<rparr>
             in (None,
                 case addr of
                   None \<Rightarrow> self
                 | Some addr \<Rightarrow>
                     (case Option.bind (after_sub ''port='' addr) scan_u of
                        None \<Rightarrow> self
                      | Some p \<Rightarrow> self\<lparr>sv_port := p\<rparr>)))"

definition st_server_get_port :: "st_server \<Rightarrow> guint16" where
  "st_server_get_port self = ucast (sv_port self)"

section \<open>What the callbacks send\<close>

lemma callback_sends:
  "input_changed_callback i self =
     self\<lparr>sv_sent := sv_sent self @ map (\<lambda>c. (c, SgInputChanged (input_entry i))) (sv_connections self)\<rparr>"
  "output_changed_callback x self =
     self\<lparr>sv_sent := sv_sent self @ map (\<lambda>c. (c, SgOutputChanged (output_entry x))) (sv_connections self)\<rparr>"
proof -
  have "fold (\<lambda>c. emit_input_changed c i) cs s =
      s\<lparr>sv_sent := sv_sent s @ map (\<lambda>c. (c, SgInputChanged (input_entry i))) cs\<rparr>" for cs s
    by (induction cs arbitrary: s) (simp_all add: emit_input_changed_def)
  then show "input_changed_callback i self =
     self\<lparr>sv_sent := sv_sent self @ map (\<lambda>c. (c, SgInputChanged (input_entry i))) (sv_connections self)\<rparr>"
    by (simp add: input_changed_callback_def)
  have "fold (\<lambda>c. emit_output_changed c x) cs s =
      s\<lparr>sv_sent := sv_sent s @ map (\<lambda>c. (c, SgOutputChanged (output_entry x))) cs\<rparr>" for cs s
    by (induction cs arbitrary: s) (simp_all add: emit_output_changed_def)
  then show "output_changed_callback x self =
     self\<lparr>sv_sent := sv_sent self @ map (\<lambda>c. (c, SgOutputChanged (output_entry x))) (sv_connections self)\<rparr>"
    by (simp add: output_changed_callback_def)
qed

definition announce :: "server_signal \<Rightarrow> nat list \<Rightarrow> (nat \<times> server_signal) list" where
  "announce s cs = map (\<lambda>c. (c, s)) cs"

lemma setup_signals_none [simp]:
  "setup_outputs_signals [] self = self" "setup_inputs_signals [] self = self"
  by (simp_all add: setup_outputs_signals_def setup_inputs_signals_def)

lemma setup_signals_emit [simp]:
  "sig \<noteq> SIG_CHANGED \<Longrightarrow> setup_outputs_signals (emit_pair chg sig x) self =
     self\<lparr>sv_sent := sv_sent self @ (if chg then announce (SgOutputChanged (output_entry x)) (sv_connections self) else [])\<rparr>"
  "sig \<noteq> SIG_CHANGED \<Longrightarrow> setup_inputs_signals (emit_pair chg sig i) self =
     self\<lparr>sv_sent := sv_sent self @ (if chg then announce (SgInputChanged (input_entry i)) (sv_connections self) else [])\<rparr>"
  by (cases chg; simp add: setup_outputs_signals_def setup_inputs_signals_def emit_pair_def callback_sends announce_def)+

section \<open>Calls that set an output\<close>

text \<open>The value is accepted by an output, after snapping.\<close>

definition output_accepts :: "st_output \<Rightarrow> f64 \<Rightarrow> bool" where
  "output_accepts x v \<longleftrightarrow> f64_le (out_min x) (snap_to_step v (out_step x)) \<and> f64_le (snap_to_step v (out_step x)) (out_max x)"

definition input_accepts :: "st_input \<Rightarrow> f64 \<Rightarrow> bool" where
  "input_accepts x v \<longleftrightarrow> f64_le (in_min x) (snap_to_step v (in_step x)) \<and> f64_le (snap_to_step v (in_step x)) (in_max x)"

text \<open>C27: \<open>SetOutput\<close> for a known name whose output accepts the value answers 1, stores the snapped
  value and the flags in the first output of that name, changes nothing else, and announces to
  every connection, in order, the object with the new value when the value has moved by more than
  the tolerance and the object with the new flags when they differ.\<close>

theorem set_output_call:
  assumes "first_index (\<lambda>x. out_name x = name) (sv_outputs s) = Some i" "x = sv_outputs s ! i" "output_accepts x v"
  shows "let x1 = x\<lparr>out_val := snap_to_step v (out_step x)\<rparr>; x2 = x1\<lparr>out_flags := flags\<rparr> in
    handle_method_call ''SetOutput'' (name, v, flags) s =
      ([CpValue (V_INT 1)], s\<lparr>sv_outputs := (sv_outputs s)[i := x2],
         sv_sent := sv_sent s
           @ (if nearly_equal (out_val x) (snap_to_step v (out_step x)) (out_step x) then []
              else announce (SgOutputChanged (output_entry x1)) (sv_connections s))
           @ (if out_flags x = flags then []
              else announce (SgOutputChanged (output_entry x2)) (sv_connections s))\<rparr>)"
  using assms
  by (simp add: handle_method_call_def set_output_loop_def output_accepts_def st_output_set_val_def
      st_output_set_flags_def bool_reply_def Let_def)

definition relay :: st_output where
  "relay = \<lparr>out_name = ''RELAY'', out_descr = '''', out_unit = 0, out_val = f64_one, out_min = f64_one,
     out_max = f64_of_int 4, out_step = f64_one, out_flags = 0\<rparr>"

definition relay_server :: st_server where
  "relay_server = (st_server_new ''ST:House'' \<lparr>ve_major = 1, ve_minor = 0, ve_micro = 0\<rparr> [] [relay])\<lparr>sv_connections := [7, 9]\<rparr>"

lemma relay_facts:
  "snap_to_step (f64_of_int 3) f64_one = f64_of_int 3" "snap_to_step (f64_of_int 9) f64_one = f64_of_int 9"
  "f64_le f64_one (f64_of_int 3)" "f64_le (f64_of_int 3) (f64_of_int 4)" "\<not> f64_le (f64_of_int 9) (f64_of_int 4)"
  "\<not> nearly_equal f64_one (f64_of_int 3) f64_one"
  by code_simp+

theorem set_output_call_witness:
  "let x1 = relay\<lparr>out_val := f64_of_int 3\<rparr> in
   handle_method_call ''SetOutput'' (''RELAY'', f64_of_int 3, 0) relay_server =
     ([CpValue (V_INT 1)], relay_server\<lparr>sv_outputs := [x1],
        sv_sent := [(7, SgOutputChanged (output_entry x1)), (9, SgOutputChanged (output_entry x1))]\<rparr>)"
  using set_output_call [of "''RELAY''" relay_server 0 relay "f64_of_int 3" 0]
  by (simp add: relay_facts relay_def relay_server_def st_server_new_def output_accepts_def announce_def Let_def)

section \<open>How often an invocation is completed\<close>

text \<open>A call of a setter with a known name and a value that its object rejects.\<close>

definition rejected :: "string \<Rightarrow> string \<times> f64 \<times> guint64 \<Rightarrow> st_server \<Rightarrow> bool" where
  "rejected m p s \<longleftrightarrow>
     (case p of (name, v, flags) \<Rightarrow>
        m = ''SetOutput'' \<and> (\<exists>i. first_index (\<lambda>x. out_name x = name) (sv_outputs s) = Some i \<and>
          \<not> output_accepts (sv_outputs s ! i) v) \<or>
        m = ''SetInput'' \<and> (\<exists>i. first_index (\<lambda>x. in_name x = name) (sv_inputs s) = Some i \<and>
          \<not> input_accepts (sv_inputs s ! i) v))"

lemma set_output_loop_cases:
  "case first_index (\<lambda>x. out_name x = name) (sv_outputs s) of
     None \<Rightarrow> set_output_loop name v flags s = (False, None, s)
   | Some i \<Rightarrow>
       if output_accepts (sv_outputs s ! i) v then \<exists>s'. set_output_loop name v flags s = (True, None, s')
       else \<exists>e. set_output_loop name v flags s = (False, Some e, s)"
  by (auto simp: set_output_loop_def st_output_set_val_def st_output_set_flags_def output_accepts_def Let_def
      split: option.split)

lemma set_input_loop_cases:
  "case first_index (\<lambda>x. in_name x = name) (sv_inputs s) of
     None \<Rightarrow> set_input_loop name v flags s = (False, None, s)
   | Some i \<Rightarrow>
       if input_accepts (sv_inputs s ! i) v then \<exists>s'. set_input_loop name v flags s = (True, None, s')
       else \<exists>e. set_input_loop name v flags s = (False, Some e, s)"
  by (auto simp: set_input_loop_def st_input_set_val_def st_input_set_flags_def input_accepts_def Let_def
      split: option.split)

text \<open>C28: Every invocation is completed exactly once, except that a setter whose object rejects the
  value completes it twice, first with the value 0 and then with the error, and leaves the server
  as it was.\<close>

theorem invocation_completions:
  "if rejected m p s
   then \<exists>e. handle_method_call m p s = ([CpValue (V_INT 0), CpError e], s)
   else length (fst (handle_method_call m p s)) = 1"
proof -
  obtain name v flags where p: "p = (name, v, flags)" by (cases p)
  consider "m = ''SetOutput''" | "m = ''SetInput''" | "m \<noteq> ''SetOutput''" "m \<noteq> ''SetInput''" by blast
  then show ?thesis
  proof cases
    case 1
    with set_output_loop_cases [where name = name and s = s and v = v and flags = flags] show ?thesis
      by (auto simp: rejected_def p handle_method_call_def bool_reply_def Let_def split: option.splits if_splits)
  next
    case 2
    with set_input_loop_cases [where name = name and s = s and v = v and flags = flags] show ?thesis
      by (auto simp: rejected_def p handle_method_call_def bool_reply_def Let_def split: option.splits if_splits)
  next
    case 3
    then show ?thesis by (auto simp: rejected_def p handle_method_call_def)
  qed
qed

theorem invocation_completions_witness:
  "\<exists>e. handle_method_call ''SetOutput'' (''RELAY'', f64_of_int 9, 0) relay_server = ([CpValue (V_INT 0), CpError e], relay_server)"
  using invocation_completions [of "''SetOutput''" "(''RELAY'', f64_of_int 9, 0)" relay_server]
  by (simp add: rejected_def relay_facts relay_def relay_server_def st_server_new_def output_accepts_def)

end
