(* ===== verification/ClientStart.thy ===== *)
theory ClientStart
  imports Client
begin

text \<open>
  The asynchronous start of a client, \<open>st_client_start_async\<close> in \<open>lib/client.c\<close>: a task that
  waits for the connection and for the answers to three calls, one after the other, and may be
  cancelled at any time. Each callback is a function of the answer that arrives and the state of
  the task; the main loop is the relation \<open>start_step\<close>, in which signals of the peer and the
  cancellation come in between.
\<close>

section \<open>State\<close>

text \<open>What the task waits for, and what it has returned.\<close>

datatype start_phase = PhIdle | PhConnect | PhInputs | PhOutputs | PhStats | PhReturned "gerror option"

text \<open>\<open>ta_cancelled\<close> is the state of the task's \<open>GCancellable\<close>.\<close>

record start_task =
  ta_client :: st_client
  ta_phase :: start_phase
  ta_cancelled :: bool

definition was_cancelled :: gerror where
  "was_cancelled = \<lparr>err_code = G_IO_ERROR_CODE ''CANCELLED'', err_message = ''Operation was cancelled''\<rparr>"

definition async_call :: "bus_call \<Rightarrow> start_phase \<Rightarrow> start_task \<Rightarrow> start_task" where
  "async_call call ph t = t\<lparr>ta_phase := ph,
     ta_client := (ta_client t)\<lparr>cl_calls := cl_calls (ta_client t) @ [call]\<rparr>\<rparr>"

section \<open>The callbacks\<close>

definition start_async_fail :: "gerror \<Rightarrow> start_task \<Rightarrow> start_task" where
  "start_async_fail e t = t\<lparr>ta_phase := PhReturned (Some e),
     ta_client := (ta_client t)\<lparr>cl_state := ST_CLIENT_STATE_FAILED, cl_start_cancellable := False,
       cl_connection := False\<rparr>\<rparr>"

definition start_async_complete_ready :: "start_task \<Rightarrow> start_task" where
  "start_async_complete_ready t = t\<lparr>ta_phase := PhReturned None,
     ta_client := (subscribe_change_signals (ta_client t))\<lparr>cl_state := ST_CLIENT_STATE_READY,
       cl_start_cancellable := False\<rparr>\<rparr>"

definition start_async_call_get_inputs :: "start_task \<Rightarrow> start_task" where
  "start_async_call_get_inputs t = async_call CallGetInputs PhInputs t"

definition on_start_async_connected :: "gerror option \<Rightarrow> start_task \<Rightarrow> start_task" where
  "on_start_async_connected r t =
     (case r of
        Some e \<Rightarrow> start_async_fail e (t\<lparr>ta_client := (ta_client t)\<lparr>cl_connection := False\<rparr>\<rparr>)
      | None \<Rightarrow>
          let t = t\<lparr>ta_client := (ta_client t)\<lparr>cl_connection := True\<rparr>\<rparr>
          in if ta_cancelled t
             then t\<lparr>ta_phase := PhReturned (Some was_cancelled),
                    ta_client := (ta_client t)\<lparr>cl_state := ST_CLIENT_STATE_FAILED,
                      cl_start_cancellable := False, cl_connection := False\<rparr>\<rparr>
             else start_async_call_get_inputs t)"

definition on_start_async_get_inputs :: "gerror + variant \<Rightarrow> start_task \<Rightarrow> start_task res" where
  "on_start_async_get_inputs r t =
     (case r of
        Inl e \<Rightarrow> Ret (start_async_fail e t)
      | Inr result \<Rightarrow>
          rbind (apply_inputs_from_result (ta_client t) result) (\<lambda>(e, c).
          let t = t\<lparr>ta_client := c\<rparr>
          in case e of
               Some e \<Rightarrow> Ret (start_async_fail e t)
             | None \<Rightarrow>
                 if ta_cancelled t
                 then Ret (t\<lparr>ta_phase := PhReturned (Some was_cancelled),
                     ta_client := (ta_client t)\<lparr>cl_state := ST_CLIENT_STATE_FAILED,
                       cl_start_cancellable := False, cl_connection := False\<rparr>\<rparr>)
                 else Ret (async_call CallGetOutputs PhOutputs t)))"

definition on_start_async_get_outputs :: "gerror + variant \<Rightarrow> start_task \<Rightarrow> start_task res" where
  "on_start_async_get_outputs r t =
     (case r of
        Inl e \<Rightarrow> Ret (start_async_fail e t)
      | Inr result \<Rightarrow>
          rbind (apply_outputs_from_result (ta_client t) result) (\<lambda>(e, c).
          let t = t\<lparr>ta_client := c\<rparr>
          in case e of
               Some e \<Rightarrow> Ret (start_async_fail e t)
             | None \<Rightarrow>
                 if ta_cancelled t
                 then Ret (t\<lparr>ta_phase := PhReturned (Some was_cancelled),
                     ta_client := (ta_client t)\<lparr>cl_state := ST_CLIENT_STATE_FAILED,
                       cl_start_cancellable := False, cl_connection := False\<rparr>\<rparr>)
                 else Ret (async_call CallGetStats PhStats t)))"

definition on_start_async_get_stats :: "gerror + variant \<Rightarrow> start_task \<Rightarrow> start_task" where
  "on_start_async_get_stats r t =
     (case r of
        Inl e \<Rightarrow> start_async_fail e t
      | Inr result \<Rightarrow>
          (case apply_stats_from_result (ta_client t) result of
             (Some e, c) \<Rightarrow> start_async_fail e (t\<lparr>ta_client := c\<rparr>)
           | (None, c) \<Rightarrow>
               let t = t\<lparr>ta_client := c\<rparr>
               in if ta_cancelled t
                  then t\<lparr>ta_phase := PhReturned (Some was_cancelled),
                      ta_client := (ta_client t)\<lparr>cl_state := ST_CLIENT_STATE_FAILED,
                        cl_start_cancellable := False, cl_connection := False\<rparr>\<rparr>
                  else start_async_complete_ready t))"

text \<open>
  \<open>st_client_start_async\<close>: a start that is in progress or done answers with an error of its own
  and leaves the client alone; otherwise the task waits for the connection.
\<close>

definition st_client_start_async :: "start_task \<Rightarrow> gerror option \<times> start_task" where
  "st_client_start_async t =
     (let c = ta_client t
      in if cl_state c = ST_CLIENT_STATE_PENDING \<or> cl_state c = ST_CLIENT_STATE_READY
         then (Some start_in_progress, t)
         else (None, t\<lparr>ta_phase := PhConnect, ta_cancelled := False,
                ta_client := c\<lparr>cl_state := ST_CLIENT_STATE_PENDING, cl_start_cancellable := True\<rparr>\<rparr>))"

text \<open>
  \<open>st_client_start_finish\<close>: the result of a task, which \<open>g_task_propagate_boolean\<close> replaces by
  \<open>G_IO_ERROR_CANCELLED\<close> when the cancellable has been cancelled meanwhile.
\<close>

definition st_client_start_finish :: "start_task \<Rightarrow> gerror option option" where
  "st_client_start_finish t =
     (case ta_phase t of
        PhReturned e \<Rightarrow> Some (if ta_cancelled t then Some was_cancelled else e)
      | _ \<Rightarrow> None)"

section \<open>The main loop\<close>

datatype start_event =
    EvConnected "gerror option"
  | EvReply "gerror + variant"
  | EvCancel
  | EvSignal server_signal

text \<open>A signal of the peer has no handler before the client subscribes.\<close>

inductive start_step :: "start_task \<Rightarrow> start_event \<Rightarrow> start_task \<Rightarrow> bool" where
  connected: "ta_phase t = PhConnect \<Longrightarrow> start_step t (EvConnected r) (on_start_async_connected r t)"
| inputs: "ta_phase t = PhInputs \<Longrightarrow> on_start_async_get_inputs r t = Ret t' \<Longrightarrow> start_step t (EvReply r) t'"
| outputs: "ta_phase t = PhOutputs \<Longrightarrow> on_start_async_get_outputs r t = Ret t' \<Longrightarrow> start_step t (EvReply r) t'"
| stats: "ta_phase t = PhStats \<Longrightarrow> start_step t (EvReply r) (on_start_async_get_stats r t)"
| cancel: "ta_phase t \<noteq> PhIdle \<Longrightarrow> start_step t EvCancel (t\<lparr>ta_cancelled := True\<rparr>)"
| signal: "cl_subscribed (ta_client t) \<Longrightarrow>
    start_step t (EvSignal s) (t\<lparr>ta_client := deliver_signal s (ta_client t)\<rparr>)"
| dropped: "\<not> cl_subscribed (ta_client t) \<Longrightarrow> start_step t (EvSignal s) t"

inductive start_steps :: "start_task \<Rightarrow> start_event list \<Rightarrow> start_task \<Rightarrow> bool" where
  none: "start_steps t [] t"
| more: "start_steps t evs u \<Longrightarrow> start_step u ev v \<Longrightarrow> start_steps t (evs @ [ev]) v"

inductive_cases start_step_connected: "start_step t (EvConnected r) t'"
inductive_cases start_step_reply: "start_step t (EvReply r) t'"
inductive_cases start_step_cancel: "start_step t EvCancel t'"
inductive_cases start_step_signal: "start_step t (EvSignal s) t'"

lemmas start_async_defs =
  on_start_async_connected_def on_start_async_get_inputs_def on_start_async_get_outputs_def
  on_start_async_get_stats_def start_async_fail_def start_async_complete_ready_def
  start_async_call_get_inputs_def async_call_def subscribe_change_signals_def

lemmas apply_result_defs =
  apply_inputs_from_result_def apply_outputs_from_result_def apply_stats_from_result_def

text \<open>The client before its first start, and the task that starts it.\<close>

definition start_task_new :: start_task where
  "start_task_new = \<lparr>ta_client = st_client_init, ta_phase = PhIdle, ta_cancelled = False\<rparr>"

definition started :: start_task where
  "started = snd (st_client_start_async start_task_new)"

section \<open>Soundness\<close>

text \<open>What each phase promises about the client.\<close>

definition fresh_phase :: "bus_call list \<Rightarrow> bool \<Rightarrow> st_client \<Rightarrow> bool" where
  "fresh_phase calls conn c \<longleftrightarrow> cl_state c = ST_CLIENT_STATE_PENDING \<and> cl_calls c = calls \<and>
     cl_connection c = conn \<and> \<not> cl_subscribed c \<and> cl_start_cancellable c"

definition snapshot_calls :: "bus_call list" where
  "snapshot_calls = [CallGetInputs, CallGetOutputs, CallGetStats]"

fun phase_ok :: "start_phase \<Rightarrow> st_client \<Rightarrow> bool" where
  "phase_ok PhIdle c = False"
| "phase_ok PhConnect c = fresh_phase [] False c"
| "phase_ok PhInputs c = fresh_phase [CallGetInputs] True c"
| "phase_ok PhOutputs c = fresh_phase [CallGetInputs, CallGetOutputs] True c"
| "phase_ok PhStats c = fresh_phase snapshot_calls True c"
| "phase_ok (PhReturned None) c =
     (cl_state c = ST_CLIENT_STATE_READY \<and> cl_calls c = snapshot_calls \<and> cl_connection c \<and>
      cl_subscribed c \<and> \<not> cl_start_cancellable c)"
| "phase_ok (PhReturned (Some e)) c =
     (cl_state c = ST_CLIENT_STATE_FAILED \<and> \<not> cl_connection c \<and> \<not> cl_subscribed c \<and> \<not> cl_start_cancellable c)"

lemma signal_frame [simp]:
  "cl_state (deliver_signal s c) = cl_state c"
  "cl_calls (deliver_signal s c) = cl_calls c"
  "cl_connection (deliver_signal s c) = cl_connection c"
  "cl_subscribed (deliver_signal s c) = cl_subscribed c"
  "cl_start_cancellable (deliver_signal s c) = cl_start_cancellable c"
  by (cases s; simp add: handle_input_changed_signal_def handle_output_changed_signal_def
      handle_stats_changed_signal_def Let_def)+

lemma phase_signal: "phase_ok ph (deliver_signal s c) = phase_ok ph c"
  by (cases "(ph, c)" rule: phase_ok.cases) (auto simp: fresh_phase_def)

lemma phase_step: "start_step t ev t' \<Longrightarrow> phase_ok (ta_phase t) (ta_client t) \<Longrightarrow> phase_ok (ta_phase t') (ta_client t')"
proof (induction rule: start_step.induct)
  case (connected t r)
  then show ?case
    by (auto simp: start_async_defs fresh_phase_def Let_def split: option.split)
next
  case (inputs t r t')
  then show ?case
    by (auto simp: start_async_defs fresh_phase_def apply_result_defs Let_def
        split: sum.splits variant.splits if_splits)
next
  case (outputs t r t')
  then show ?case
    by (auto simp: start_async_defs fresh_phase_def apply_result_defs snapshot_calls_def Let_def
        split: sum.splits variant.splits if_splits)
next
  case (stats t r)
  then show ?case
    by (auto simp: start_async_defs fresh_phase_def apply_result_defs Let_def
        split: sum.splits variant.splits if_splits)
next
  case (signal t s)
  then show ?case by (simp add: phase_signal)
qed simp_all

lemma phase_started: "phase_ok (ta_phase started) (ta_client started)"
  by (simp add: started_def start_task_new_def st_client_start_async_def st_client_init_def fresh_phase_def Let_def)

lemma phase_steps: "start_steps t evs t' \<Longrightarrow> phase_ok (ta_phase t) (ta_client t) \<Longrightarrow> phase_ok (ta_phase t') (ta_client t')"
  by (induction rule: start_steps.induct) (auto dest: phase_step)

text \<open>C22: However the answers, the signals of the peer and a cancellation interleave, the client is
  ready exactly when its task has returned success, and then it is connected, subscribed, and
  has made each of the three snapshot calls once, in order; when the task has returned an error
  the client has failed, without a connection or a subscription; \<open>st_client_start_finish\<close> reports
  success only for a client that is ready.\<close>

theorem start_sound:
  assumes "start_steps started evs t"
  shows "(st_client_is_ready (ta_client t) \<longleftrightarrow> ta_phase t = PhReturned None) \<and>
    (st_client_is_ready (ta_client t) \<longrightarrow> cl_connection (ta_client t) \<and> cl_subscribed (ta_client t) \<and>
       cl_calls (ta_client t) = [CallGetInputs, CallGetOutputs, CallGetStats]) \<and>
    (cl_state (ta_client t) = ST_CLIENT_STATE_FAILED \<longleftrightarrow> (\<exists>e. ta_phase t = PhReturned (Some e))) \<and>
    (cl_state (ta_client t) = ST_CLIENT_STATE_FAILED \<longrightarrow>
       \<not> cl_connection (ta_client t) \<and> \<not> cl_subscribed (ta_client t)) \<and>
    (st_client_start_finish t = Some None \<longrightarrow> st_client_is_ready (ta_client t) \<and> \<not> ta_cancelled t)"
  using phase_steps [OF assms phase_started]
  by (cases "(ta_phase t, ta_client t)" rule: phase_ok.cases)
    (auto simp: fresh_phase_def snapshot_calls_def st_client_is_ready_def st_client_start_finish_def)

text \<open>A start whose peer has one dial, at 2 when the snapshot is taken and at 3 soon after.\<close>

definition dial_entry :: "f64 \<Rightarrow> io_entry" where
  "dial_entry v = \<lparr>ie_name = ''DIAL'', ie_descr = '''', ie_unit = 0, ie_min = f64_one,
     ie_max = f64_of_int 4, ie_step = f64_one, ie_val = v, ie_flags = 0\<rparr>"

definition dial_input :: st_input where
  "dial_input = \<lparr>in_name = ''DIAL'', in_descr = '''', in_unit = 0, in_val = f64_of_int 2,
     in_min = f64_one, in_max = f64_of_int 4, in_step = f64_one, in_flags = 0\<rparr>"

definition dial_events :: "start_event list" where
  "dial_events =
     [EvConnected None, EvReply (Inr (V_IO_MAP [dial_entry (f64_of_int 2)])),
      EvSignal (SgInputChanged (dial_entry (f64_of_int 3))), EvReply (Inr (V_IO_MAP []))]"

definition dial_waiting :: start_task where
  "dial_waiting = \<lparr>ta_client = \<lparr>cl_connection = True, cl_subscribed = False, cl_inputs = [dial_input],
       cl_outputs = [], cl_stats = st_stats_new ''noname'', cl_state = ST_CLIENT_STATE_PENDING,
       cl_start_cancellable = True, cl_calls = [CallGetInputs, CallGetOutputs, CallGetStats]\<rparr>,
     ta_phase = PhStats, ta_cancelled = False\<rparr>"

lemma dial_new: "new_inputs [dial_entry (f64_of_int 2)] = Ret [dial_input]"
proof -
  have "snap_to_step f64_one f64_one = f64_one" "snap_to_step (f64_of_int 2) f64_one = f64_of_int 2"
    "snap_to_step (f64_of_int 4) f64_one = f64_of_int 4" by code_simp+
  moreover have "f64_lt DBL_MIN (f64_ABS f64_one)" "f64_le f64_one (f64_of_int 2)"
    "f64_le (f64_of_int 2) (f64_of_int 4)" by code_simp+
  ultimately show ?thesis by (simp add: dial_entry_def dial_input_def st_input_new_def)
qed

lemma start_steps_Cons: "start_steps u evs v \<Longrightarrow> start_step t ev u \<Longrightarrow> start_steps t (ev # evs) v"
proof (induction rule: start_steps.induct)
  case (none u)
  with start_steps.more [OF start_steps.none, of t ev u] show ?case by simp
next
  case (more u evs v ev' w)
  from start_steps.more [OF more.IH [OF more.prems] more.hyps(2)] show ?case by simp
qed

lemmas started_unfold =
  started_def start_task_new_def st_client_start_async_def st_client_init_def start_async_defs apply_result_defs

lemma dial_run: "start_steps started dial_events dial_waiting"
proof -
  let ?u = "on_start_async_connected None started"
  let ?v = "async_call CallGetOutputs PhOutputs
    (?u\<lparr>ta_client := (ta_client ?u)\<lparr>cl_inputs := [dial_input]\<rparr>\<rparr>)"
  have a: "start_step started (EvConnected None) ?u"
    by (rule start_step.connected) (simp add: started_unfold Let_def)
  have b: "start_step ?u (EvReply (Inr (V_IO_MAP [dial_entry (f64_of_int 2)]))) ?v"
    by (rule start_step.inputs) (simp_all add: dial_new started_unfold Let_def del: new_inputs.simps)
  have c: "start_step ?v (EvSignal (SgInputChanged (dial_entry (f64_of_int 3)))) ?v"
    by (rule start_step.dropped) (simp add: started_unfold Let_def)
  have d: "start_step ?v (EvReply (Inr (V_IO_MAP []))) dial_waiting"
    by (rule start_step.outputs) (simp_all add: dial_waiting_def started_unfold Let_def)
  show ?thesis
    unfolding dial_events_def
    by (rule start_steps_Cons [OF start_steps_Cons [OF start_steps_Cons [OF start_steps_Cons
          [OF start_steps.none d] c] b] a])
qed

theorem start_sound_witness:
  "\<not> st_client_is_ready (ta_client dial_waiting) \<and> cl_state (ta_client dial_waiting) \<noteq> ST_CLIENT_STATE_FAILED"
  using start_sound [OF dial_run] by (simp add: dial_waiting_def)

section \<open>Progress\<close>

fun is_answer :: "start_event \<Rightarrow> bool" where
  "is_answer (EvConnected r) = True"
| "is_answer (EvReply r) = True"
| "is_answer _ = False"

fun phase_left :: "start_phase \<Rightarrow> nat" where
  "phase_left PhIdle = 0"
| "phase_left PhConnect = 4"
| "phase_left PhInputs = 3"
| "phase_left PhOutputs = 2"
| "phase_left PhStats = 1"
| "phase_left (PhReturned e) = 0"

lemma answer_less:
  "start_step t ev t' \<Longrightarrow> phase_left (ta_phase t') + (if is_answer ev then 1 else 0) \<le> phase_left (ta_phase t)"
proof (induction rule: start_step.induct)
  case (connected t r)
  then show ?case by (auto simp: start_async_defs Let_def split: option.split)
next
  case (inputs t r t')
  then show ?case
    by (auto simp: start_async_defs apply_result_defs Let_def split: sum.splits variant.splits if_splits)
next
  case (outputs t r t')
  then show ?case
    by (auto simp: start_async_defs apply_result_defs Let_def split: sum.splits variant.splits if_splits)
next
  case (stats t r)
  then show ?case
    by (auto simp: start_async_defs apply_result_defs Let_def split: sum.splits variant.splits if_splits)
qed simp_all

lemma answers_left:
  "start_steps t evs t' \<Longrightarrow> phase_left (ta_phase t') + length (filter is_answer evs) \<le> phase_left (ta_phase t)"
  by (induction rule: start_steps.induct) (auto dest!: answer_less split: if_splits)

text \<open>C23: A start comes to an end: it takes at most four answers, after the fourth the task has
  returned, and until it has returned there is an answer it accepts, whatever else happens.\<close>

theorem start_terminates:
  assumes "start_steps started evs t"
  shows "length (filter is_answer evs) \<le> 4 \<and>
    (length (filter is_answer evs) = 4 \<longrightarrow> (\<exists>e. st_client_start_finish t = Some e)) \<and>
    (st_client_start_finish t = None \<longrightarrow> (\<exists>ev t'. is_answer ev \<and> start_step t ev t'))"
proof -
  note ok = phase_steps [OF assms phase_started]
  have left: "phase_left (ta_phase t) + length (filter is_answer evs) \<le> 4"
    using answers_left [OF assms] by (simp add: started_def start_task_new_def st_client_start_async_def
        st_client_init_def Let_def)
  note answer = start_step.connected [of t None] start_step.inputs [of t "Inl was_cancelled"]
    start_step.outputs [of t "Inl was_cancelled"] start_step.stats [of t "Inl was_cancelled"]
  have "\<exists>ev t'. is_answer ev \<and> start_step t ev t'" if "ta_phase t \<in> {PhConnect, PhInputs, PhOutputs, PhStats}"
    using that answer is_answer.simps(1,2)
    unfolding on_start_async_get_inputs_def on_start_async_get_outputs_def sum.case res.inject insert_iff
    by (metis empty_iff)
  with left ok show ?thesis
    by (cases "ta_phase t") (auto simp: st_client_start_finish_def)
qed

theorem start_terminates_witness:
  "\<exists>ev t'. is_answer ev \<and> start_step dial_waiting ev t'"
  using start_terminates [OF dial_run] by (simp add: dial_waiting_def st_client_start_finish_def)

section \<open>The synchronous start as reference\<close>

text \<open>The answer of a bus to the call that is outstanding, and a task driven by a bus.\<close>

definition bus_answer :: "bus \<Rightarrow> start_task \<Rightarrow> gerror + variant" where
  "bus_answer bus t = bus (butlast (cl_calls (ta_client t))) (last (cl_calls (ta_client t)))"

fun drive :: "bus \<Rightarrow> nat \<Rightarrow> start_task \<Rightarrow> start_task res" where
  "drive bus 0 t = Ret t"
| "drive bus (Suc n) t =
     (case ta_phase t of
        PhInputs \<Rightarrow> rbind (on_start_async_get_inputs (bus_answer bus t) t) (drive bus n)
      | PhOutputs \<Rightarrow> rbind (on_start_async_get_outputs (bus_answer bus t) t) (drive bus n)
      | PhStats \<Rightarrow> drive bus n (on_start_async_get_stats (bus_answer bus t) t)
      | _ \<Rightarrow> Ret t)"

lemma drive_returned: "ta_phase t = PhReturned e \<Longrightarrow> drive bus n t = Ret t"
  by (cases n) simp_all

definition task_end :: "start_task \<Rightarrow> gerror option \<times> st_client" where
  "task_end t = (case st_client_start_finish t of Some e \<Rightarrow> (e, ta_client t) | None \<Rightarrow> (Some start_in_progress, ta_client t))"

text \<open>The task of a client that waits with the connection up.\<close>

abbreviation waiting :: "start_phase \<Rightarrow> st_client \<Rightarrow> start_task" where
  "waiting ph c \<equiv> \<lparr>ta_client = c, ta_phase = ph, ta_cancelled = False\<rparr>"

definition calling :: "bus_call \<Rightarrow> st_client \<Rightarrow> st_client" where
  "calling call c = c\<lparr>cl_calls := cl_calls c @ [call]\<rparr>"

lemma fail_end:
  "task_end (start_async_fail e (waiting ph c)) =
     (Some e, c\<lparr>cl_state := ST_CLIENT_STATE_FAILED, cl_start_cancellable := False, cl_connection := False\<rparr>)"
  "drive bus n (start_async_fail e t) = Ret (start_async_fail e t)"
  by (simp add: task_end_def start_async_fail_def st_client_start_finish_def)
    (rule drive_returned [of _ "Some e"], simp add: start_async_fail_def)

lemma drive_stats:
  assumes "cl_connection c" "\<not> cl_start_cancellable c'" "c = c'\<lparr>cl_start_cancellable := True\<rparr>"
  shows "rbind (drive bus (Suc 0) (waiting PhStats (calling CallGetStats c))) (\<lambda>t. Ret (task_end t)) =
    (case call_get_stats_method bus c' of
       (Some e, c3) \<Rightarrow> start_failed e c3
     | (None, c3) \<Rightarrow> Ret (None, (subscribe_change_signals c3)\<lparr>cl_state := ST_CLIENT_STATE_READY\<rparr>))"
  using assms
  by (auto simp: bus_answer_def calling_def on_start_async_get_stats_def call_get_stats_method_def call_sync_def
      apply_stats_from_result_def fail_end start_failed_def task_end_def start_async_fail_def Let_def
      start_async_complete_ready_def st_client_start_finish_def subscribe_change_signals_def
      split: sum.split variant.split intro!: st_client.equality)

definition sync_rest :: "bus \<Rightarrow> st_client \<Rightarrow> (gerror option \<times> st_client) res" where
  "sync_rest bus c =
     (case call_get_stats_method bus c of
        (Some e, c) \<Rightarrow> start_failed e c
      | (None, c) \<Rightarrow> Ret (None, (subscribe_change_signals c)\<lparr>cl_state := ST_CLIENT_STATE_READY\<rparr>))"

lemma async_call_waiting: "async_call call ph (waiting ph' c) = waiting ph (calling call c)"
  by (simp add: async_call_def calling_def)

lemma drive_outputs:
  assumes "cl_connection c" "\<not> cl_start_cancellable c"
  shows "rbind (drive bus 2 (waiting PhOutputs (calling CallGetOutputs (c\<lparr>cl_start_cancellable := True\<rparr>)))) (\<lambda>t. Ret (task_end t)) =
    rbind (call_get_outputs_method bus c) (\<lambda>(e, c).
      case e of Some e \<Rightarrow> start_failed e c | None \<Rightarrow> sync_rest bus c)"
proof -
  let ?c = "calling CallGetOutputs c" and ?a = "bus (cl_calls c) CallGetOutputs"
  let ?t = "waiting PhOutputs (calling CallGetOutputs (c\<lparr>cl_start_cancellable := True\<rparr>))"
  have d: "drive bus 2 ?t = rbind (on_start_async_get_outputs ?a ?t) (drive bus (Suc 0))"
    by (simp add: numeral_2_eq_2 bus_answer_def calling_def)
  have m: "call_get_outputs_method bus c =
      (case ?a of Inl e \<Rightarrow> Ret (Some e, ?c) | Inr v \<Rightarrow> apply_outputs_from_result ?c v)"
    using assms by (simp add: call_get_outputs_method_def call_sync_def calling_def split: sum.split)
  have bad: "rbind (drive bus (Suc 0) (start_async_fail e ?t)) (\<lambda>t. Ret (task_end t)) = start_failed e ?c" for e
    using assms by (auto simp: fail_end(2) fail_end(1) start_failed_def calling_def intro!: st_client.equality)
  show ?thesis
  proof (cases ?a)
    case (Inl e)
    with bad show ?thesis unfolding d m by (simp add: on_start_async_get_outputs_def)
  next
    case (Inr v)
    have good: "rbind (drive bus (Suc 0) (async_call CallGetStats PhStats (?t\<lparr>ta_client := (ta_client ?t)\<lparr>cl_outputs := os\<rparr>\<rparr>)))
        (\<lambda>t. Ret (task_end t)) = sync_rest bus (?c\<lparr>cl_outputs := os\<rparr>)" for os
    proof -
      have "(calling CallGetOutputs (c\<lparr>cl_start_cancellable := True\<rparr>))\<lparr>cl_outputs := os\<rparr> =
          (?c\<lparr>cl_outputs := os\<rparr>)\<lparr>cl_start_cancellable := True\<rparr>"
        by (rule st_client.equality) (simp_all add: calling_def)
      then have "async_call CallGetStats PhStats (?t\<lparr>ta_client := (ta_client ?t)\<lparr>cl_outputs := os\<rparr>\<rparr>) =
          waiting PhStats (calling CallGetStats ((?c\<lparr>cl_outputs := os\<rparr>)\<lparr>cl_start_cancellable := True\<rparr>))"
        by (simp only: start_task.simps async_call_waiting)
      then show ?thesis unfolding sync_rest_def
        by (simp only:) (rule drive_stats, use assms in \<open>simp_all add: calling_def\<close>)
    qed
    show ?thesis
    proof (cases v)
      case (V_IO_MAP es)
      with Inr good show ?thesis unfolding d m
        by (cases "new_outputs es")
          (simp_all add: on_start_async_get_outputs_def apply_outputs_from_result_def rbind_assoc)
    qed (use Inr bad d m in \<open>simp_all add: on_start_async_get_outputs_def apply_outputs_from_result_def\<close>)
  qed
qed

lemma drive_inputs:
  assumes "cl_connection c" "\<not> cl_start_cancellable c"
  shows "rbind (drive bus 3 (waiting PhInputs (calling CallGetInputs (c\<lparr>cl_start_cancellable := True\<rparr>)))) (\<lambda>t. Ret (task_end t)) =
    rbind (call_get_inputs_method bus c) (\<lambda>(e, c).
      case e of Some e \<Rightarrow> start_failed e c | None \<Rightarrow>
      rbind (call_get_outputs_method bus c) (\<lambda>(e, c).
      case e of Some e \<Rightarrow> start_failed e c | None \<Rightarrow> sync_rest bus c))"
proof -
  let ?c = "calling CallGetInputs c" and ?a = "bus (cl_calls c) CallGetInputs"
  let ?t = "waiting PhInputs (calling CallGetInputs (c\<lparr>cl_start_cancellable := True\<rparr>))"
  let ?rest = "\<lambda>c. rbind (call_get_outputs_method bus c) (\<lambda>(e, c).
      case e of Some e \<Rightarrow> start_failed e c | None \<Rightarrow> sync_rest bus c)"
  have "Suc 2 = 3" by simp
  from drive.simps(2) [of bus 2 ?t, unfolded this] have d: "drive bus 3 ?t = rbind (on_start_async_get_inputs ?a ?t) (drive bus 2)"
    by (simp add: bus_answer_def calling_def)
  have m: "call_get_inputs_method bus c =
      (case ?a of Inl e \<Rightarrow> Ret (Some e, ?c) | Inr v \<Rightarrow> apply_inputs_from_result ?c v)"
    using assms by (simp add: call_get_inputs_method_def call_sync_def calling_def split: sum.split)
  have bad: "rbind (drive bus 2 (start_async_fail e ?t)) (\<lambda>t. Ret (task_end t)) = start_failed e ?c" for e
    using assms by (auto simp: fail_end(2) fail_end(1) start_failed_def calling_def intro!: st_client.equality)
  show ?thesis
  proof (cases ?a)
    case (Inl e)
    with bad show ?thesis unfolding d m by (simp add: on_start_async_get_inputs_def)
  next
    case (Inr v)
    have good: "rbind (drive bus 2 (async_call CallGetOutputs PhOutputs (?t\<lparr>ta_client := (ta_client ?t)\<lparr>cl_inputs := is\<rparr>\<rparr>)))
        (\<lambda>t. Ret (task_end t)) = ?rest (?c\<lparr>cl_inputs := is\<rparr>)" for "is"
    proof -
      have "(calling CallGetInputs (c\<lparr>cl_start_cancellable := True\<rparr>))\<lparr>cl_inputs := is\<rparr> =
          (?c\<lparr>cl_inputs := is\<rparr>)\<lparr>cl_start_cancellable := True\<rparr>"
        by (rule st_client.equality) (simp_all add: calling_def)
      then have "async_call CallGetOutputs PhOutputs (?t\<lparr>ta_client := (ta_client ?t)\<lparr>cl_inputs := is\<rparr>\<rparr>) =
          waiting PhOutputs (calling CallGetOutputs ((?c\<lparr>cl_inputs := is\<rparr>)\<lparr>cl_start_cancellable := True\<rparr>))"
        by (simp only: start_task.simps async_call_waiting)
      then show ?thesis
        by (simp only:) (rule drive_outputs, use assms in \<open>simp_all add: calling_def\<close>)
    qed
    show ?thesis
    proof (cases v)
      case (V_IO_MAP es)
      with Inr good show ?thesis unfolding d m
        by (cases "new_inputs es")
          (simp_all add: on_start_async_get_inputs_def apply_inputs_from_result_def rbind_assoc)
    qed (use Inr bad d m in \<open>simp_all add: on_start_async_get_inputs_def apply_inputs_from_result_def\<close>)
  qed
qed

text \<open>C24: The asynchronous start is the synchronous one: driven by the same bus and not cancelled, it
  ends with the same error or success and leaves the client in the same state, snapshots, calls
  and failures included, and it aborts exactly when the synchronous one does.\<close>

theorem async_start_equivalent:
  assumes "cl_state c \<noteq> ST_CLIENT_STATE_PENDING" "cl_state c \<noteq> ST_CLIENT_STATE_READY"
    "\<not> cl_start_cancellable c" "t = snd (st_client_start_async \<lparr>ta_client = c, ta_phase = ph, ta_cancelled = b\<rparr>)"
  shows "rbind (drive bus 3 (on_start_async_connected r t)) (\<lambda>t. Ret (task_end t)) = st_client_start bus r c"
proof (cases r)
  case (Some e)
  with assms show ?thesis
    by (simp add: st_client_start_async_def on_start_async_connected_def st_client_start_def start_failed_def
        start_async_fail_def drive_returned [of _ "Some e"] task_end_def st_client_start_finish_def Let_def)
next
  case None
  let ?c = "c\<lparr>cl_state := ST_CLIENT_STATE_PENDING, cl_connection := True\<rparr>"
  have "c\<lparr>cl_state := ST_CLIENT_STATE_PENDING, cl_start_cancellable := True, cl_connection := True\<rparr> =
      ?c\<lparr>cl_start_cancellable := True\<rparr>"
    by (rule st_client.equality) simp_all
  then have t: "on_start_async_connected r t = waiting PhInputs (calling CallGetInputs (?c\<lparr>cl_start_cancellable := True\<rparr>))"
    using None assms by (simp add: st_client_start_async_def on_start_async_connected_def Let_def
        start_async_call_get_inputs_def async_call_def calling_def)
  have "st_client_start bus r c = rbind (call_get_inputs_method bus ?c) (\<lambda>(e, c).
      case e of Some e \<Rightarrow> start_failed e c | None \<Rightarrow>
      rbind (call_get_outputs_method bus c) (\<lambda>(e, c).
      case e of Some e \<Rightarrow> start_failed e c | None \<Rightarrow> sync_rest bus c))"
    using None assms unfolding st_client_start_def sync_rest_def by simp
  then show ?thesis
    unfolding t using drive_inputs [of ?c bus] assms(3) by simp
qed

text \<open>A peer with one dial.\<close>

definition dial_bus :: bus where
  "dial_bus calls call =
     (case call of
        CallGetInputs \<Rightarrow> Inr (V_IO_MAP [dial_entry (f64_of_int 2)])
      | CallGetOutputs \<Rightarrow> Inr (V_IO_MAP [])
      | _ \<Rightarrow> Inl not_connected)"

theorem async_start_equivalent_witness:
  "rbind (drive dial_bus 3 (on_start_async_connected None started)) (\<lambda>t. Ret (fst (task_end t))) = Ret (Some not_connected) \<and>
   rbind (drive dial_bus 3 (on_start_async_connected None started)) (\<lambda>t. Ret (task_end t))
     = st_client_start dial_bus None st_client_init"
proof
  show eq: "rbind (drive dial_bus 3 (on_start_async_connected None started)) (\<lambda>t. Ret (task_end t))
      = st_client_start dial_bus None st_client_init"
    by (rule async_start_equivalent [of _ _ PhIdle False])
      (simp_all add: st_client_init_def started_def start_task_new_def)
  have "st_client_start dial_bus None st_client_init = Ret (Some not_connected,
      st_client_init\<lparr>cl_state := ST_CLIENT_STATE_FAILED, cl_inputs := [dial_input],
        cl_calls := [CallGetInputs, CallGetOutputs, CallGetStats]\<rparr>)"
    by (simp add: st_client_start_def call_get_inputs_method_def call_get_outputs_method_def
        call_get_stats_method_def call_sync_def dial_bus_def apply_result_defs dial_new start_failed_def
        st_client_init_def Let_def del: new_inputs.simps(2))
  with eq have "rbind (drive dial_bus 3 (on_start_async_connected None started)) (\<lambda>t. Ret (task_end t)) =
      Ret (Some not_connected, st_client_init\<lparr>cl_state := ST_CLIENT_STATE_FAILED, cl_inputs := [dial_input],
        cl_calls := [CallGetInputs, CallGetOutputs, CallGetStats]\<rparr>)" by simp
  then show "rbind (drive dial_bus 3 (on_start_async_connected None started)) (\<lambda>t. Ret (fst (task_end t))) = Ret (Some not_connected)"
    by auto
qed

section \<open>Signals before the subscription\<close>

fun is_signal :: "start_event \<Rightarrow> bool" where
  "is_signal (EvSignal s) = True"
| "is_signal _ = False"

lemma subscribed_grows: "start_step t ev t' \<Longrightarrow> phase_ok (ta_phase t) (ta_client t) \<Longrightarrow>
   cl_subscribed (ta_client t) \<Longrightarrow> cl_subscribed (ta_client t')"
  by (induction rule: start_step.induct) (auto simp: fresh_phase_def)

text \<open>The comment says that taking the snapshot first and subscribing afterwards avoids dropping
  early signals. It drops them: a run up to the moment the client subscribes is the run without
  its change signals, so what the peer announces after it has answered \<open>GetInputs\<close> and before the
  last answer arrives is lost, and the mirrored value stays stale.\<close>

theorem early_signals_lost:
  assumes "start_steps started evs t" "\<not> cl_subscribed (ta_client t)" "start_step t ev u" "\<not> is_signal ev"
  shows "start_steps started (filter (\<lambda>e. \<not> is_signal e) evs @ [ev]) u"
proof -
  have "\<not> cl_subscribed (ta_client t) \<longrightarrow> start_steps s (filter (\<lambda>e. \<not> is_signal e) evs) t"
    if "start_steps s evs t" "phase_ok (ta_phase s) (ta_client s)" for s evs t
    using that
  proof (induction rule: start_steps.induct)
    case (more s evs u ev v)
    note ok = phase_steps [OF more.hyps(1) more.prems]
    show ?case
    proof
      assume v: "\<not> cl_subscribed (ta_client v)"
      with subscribed_grows [OF more.hyps(2) ok] have "\<not> cl_subscribed (ta_client u)" by blast
      with more have run: "start_steps s (filter (\<lambda>e. \<not> is_signal e) evs) u" by blast
      show "start_steps s (filter (\<lambda>e. \<not> is_signal e) (evs @ [ev])) v"
      proof (cases ev)
        case (EvSignal e)
        with more.hyps(2) \<open>\<not> cl_subscribed (ta_client u)\<close> have "v = u" by (auto elim: start_step_signal)
        with run EvSignal show ?thesis by simp
      qed (use start_steps.more [OF run more.hyps(2)] in simp_all)
    qed
  qed (simp add: start_steps.none)
  from this [OF assms(1) phase_started] assms(2) have "start_steps started (filter (\<lambda>e. \<not> is_signal e) evs) t"
    by blast
  from start_steps.more [OF this assms(3)] show ?thesis .
qed

lemma dial_quiet: "filter (\<lambda>e. \<not> is_signal e) dial_events =
    [EvConnected None, EvReply (Inr (V_IO_MAP [dial_entry (f64_of_int 2)])), EvReply (Inr (V_IO_MAP []))]"
  unfolding dial_events_def by simp

theorem early_signals_lost_witness:
  "\<exists>u. start_step dial_waiting (EvReply (Inr (V_STATS (st_stats_new ''House'')))) u \<and>
     st_client_is_ready (ta_client u) \<and> map in_val (cl_inputs (ta_client u)) = [f64_of_int 2] \<and>
     start_steps started [EvConnected None, EvReply (Inr (V_IO_MAP [dial_entry (f64_of_int 2)])),
       EvReply (Inr (V_IO_MAP [])), EvReply (Inr (V_STATS (st_stats_new ''House'')))] u"
proof -
  let ?r = "Inr (V_STATS (st_stats_new ''House''))"
  let ?u = "on_start_async_get_stats ?r dial_waiting"
  have step: "start_step dial_waiting (EvReply ?r) ?u"
    by (rule start_step.stats) (simp add: dial_waiting_def)
  moreover have "st_client_is_ready (ta_client ?u)" "map in_val (cl_inputs (ta_client ?u)) = [f64_of_int 2]"
    by (simp_all add: on_start_async_get_stats_def dial_waiting_def apply_stats_from_result_def
        start_async_complete_ready_def subscribe_change_signals_def st_client_is_ready_def dial_input_def)
  moreover have "start_steps started [EvConnected None, EvReply (Inr (V_IO_MAP [dial_entry (f64_of_int 2)])),
       EvReply (Inr (V_IO_MAP [])), EvReply ?r] ?u"
  proof -
    have sub: "\<not> cl_subscribed (ta_client dial_waiting)" by (simp add: dial_waiting_def)
    have reply: "\<not> is_signal (EvReply ?r)" by (simp only: is_signal.simps not_False_eq_True)
    show ?thesis using early_signals_lost [OF dial_run sub step reply] unfolding dial_quiet append.simps .
  qed
  ultimately show ?thesis by (intro exI [of _ ?u] conjI)
qed

section \<open>Inconsistent peers\<close>

definition entry_consistent :: "io_entry \<Rightarrow> bool" where
  "entry_consistent e \<longleftrightarrow> f64_lt DBL_MIN (f64_ABS (ie_step e)) \<and>
     f64_le (snap_to_step (ie_min e) (ie_step e)) (snap_to_step (ie_val e) (ie_step e)) \<and>
     f64_le (snap_to_step (ie_val e) (ie_step e)) (snap_to_step (ie_max e) (ie_step e))"

lemma new_inputs_result:
  "if \<forall>e\<in>set es. entry_consistent e then \<exists>is. new_inputs es = Ret is else new_inputs es = Abort"
  by (induction es) (auto simp: entry_consistent_def st_input_new_def Let_def)

text \<open>C33: A peer ends the process: when its answer to \<open>GetInputs\<close> holds an entry whose step is zero or
  whose value lies outside its range, the assertions of the constructor abort the core, and no
  other list of entries does.\<close>

theorem inconsistent_peer_aborts:
  "on_start_async_get_inputs (Inr (V_IO_MAP es)) t = Abort \<longleftrightarrow> \<not> list_all entry_consistent es"
  using new_inputs_result [of es]
  by (cases "list_all entry_consistent es")
    (auto simp: on_start_async_get_inputs_def apply_inputs_from_result_def list_all_iff Let_def split: if_splits)

end
