(* ===== verification/Mirror.thy ===== *)
theory Mirror
  imports Server ClientStart
begin

text \<open>
  A server and a client of it: what the client mirrors is what the server has. The snapshot gives
  every object on its grid back as it is, and each announced change brings the mirrored object to
  the state of the original.
\<close>

section \<open>Objects on their grid\<close>

text \<open>What the constructor makes of the entry of an object: its numbers on the grid of its step.\<close>

definition snapped_input :: "st_input \<Rightarrow> st_input" where
  "snapped_input x = x\<lparr>in_val := snap_to_step (in_val x) (in_step x), in_min := snap_to_step (in_min x) (in_step x),
     in_max := snap_to_step (in_max x) (in_step x)\<rparr>"

definition snapped_output :: "st_output \<Rightarrow> st_output" where
  "snapped_output x = x\<lparr>out_val := snap_to_step (out_val x) (out_step x), out_min := snap_to_step (out_min x) (out_step x),
     out_max := snap_to_step (out_max x) (out_step x)\<rparr>"

text \<open>The step is not zero and the bounds hold.\<close>

definition input_sound :: "st_input \<Rightarrow> bool" where
  "input_sound x \<longleftrightarrow> f64_lt DBL_MIN (f64_ABS (in_step x)) \<and> f64_le (in_min x) (in_val x) \<and> f64_le (in_val x) (in_max x)"

definition output_sound :: "st_output \<Rightarrow> bool" where
  "output_sound x \<longleftrightarrow> f64_lt DBL_MIN (f64_ABS (out_step x)) \<and> f64_le (out_min x) (out_val x) \<and> f64_le (out_val x) (out_max x)"

definition input_on_grid :: "st_input \<Rightarrow> bool" where
  "input_on_grid x \<longleftrightarrow> input_sound x \<and> snapped_input x = x"

definition output_on_grid :: "st_output \<Rightarrow> bool" where
  "output_on_grid x \<longleftrightarrow> output_sound x \<and> snapped_output x = x"

lemma input_on_gridD:
  assumes "input_on_grid x"
  shows "f64_lt DBL_MIN (f64_ABS (in_step x))" "snap_to_step (in_min x) (in_step x) = in_min x"
    "snap_to_step (in_max x) (in_step x) = in_max x" "snap_to_step (in_val x) (in_step x) = in_val x"
    "f64_le (in_min x) (in_val x)" "f64_le (in_val x) (in_max x)"
  using assms by (cases x; simp add: input_on_grid_def input_sound_def snapped_input_def)+

lemma output_on_gridD:
  assumes "output_on_grid x"
  shows "f64_lt DBL_MIN (f64_ABS (out_step x))" "snap_to_step (out_min x) (out_step x) = out_min x"
    "snap_to_step (out_max x) (out_step x) = out_max x" "snap_to_step (out_val x) (out_step x) = out_val x"
    "f64_le (out_min x) (out_val x)" "f64_le (out_val x) (out_max x)"
  using assms by (cases x; simp add: output_on_grid_def output_sound_def snapped_output_def)+

lemma new_inputs_entries:
  "list_all (input_sound \<circ> snapped_input) xs \<Longrightarrow> new_inputs (map input_entry xs) = Ret (map snapped_input xs)"
  by (induction xs) (simp_all add: input_sound_def snapped_input_def input_entry_def st_input_new_def Let_def)

lemma new_outputs_entries:
  "list_all (output_sound \<circ> snapped_output) xs \<Longrightarrow> new_outputs (map output_entry xs) = Ret (map snapped_output xs)"
  by (induction xs) (simp_all add: output_sound_def snapped_output_def output_entry_def st_output_new_def Let_def)

lemma stats_set_all_copies: "fst (stats_set_all s p) = p"
  by (rule st_stats.equality) (simp_all add: stats_set_all_def st_stats_set_full_def full_step_def Let_def)

section \<open>The snapshot\<close>

text \<open>A bus that leads to a server.\<close>

fun call_method :: "bus_call \<Rightarrow> string \<times> (string \<times> f64 \<times> guint64)" where
  "call_method CallGetName = (''GetName'', '''', f64_zero, 0)"
| "call_method CallGetVersion = (''GetVersion'', '''', f64_zero, 0)"
| "call_method CallGetInputs = (''GetInputs'', '''', f64_zero, 0)"
| "call_method CallGetOutputs = (''GetOutputs'', '''', f64_zero, 0)"
| "call_method CallGetStats = (''GetStats'', '''', f64_zero, 0)"
| "call_method (CallSetOutput s v f) = (''SetOutput'', s, v, f)"
| "call_method (CallSetInput s v f) = (''SetInput'', s, v, f)"

text \<open>The client sees the first completion of its call; D-Bus drops a second one.\<close>

definition first_answer :: "completion list \<Rightarrow> gerror + variant" where
  "first_answer cs = (case cs of CpValue v # _ \<Rightarrow> Inr v | CpError e # _ \<Rightarrow> Inl e | [] \<Rightarrow> Inl not_connected)"

definition server_call :: "bus_call \<Rightarrow> st_server \<Rightarrow> (gerror + variant) \<times> st_server" where
  "server_call call s =
     (let (m, p) = call_method call; (cs, s) = handle_method_call m p s in (first_answer cs, s))"

definition server_bus :: "st_server \<Rightarrow> bus" where
  "server_bus s calls call = fst (server_call call (foldl (\<lambda>s c. snd (server_call c s)) s calls))"

lemma server_reads [simp]:
  "server_call CallGetInputs s = (Inr (V_IO_MAP (map input_entry (sv_inputs s))), s)"
  "server_call CallGetOutputs s = (Inr (V_IO_MAP (map output_entry (sv_outputs s))), s)"
  "server_call CallGetStats s = (Inr (V_STATS (sv_stats s)), s)"
  by (simp_all add: server_call_def handle_method_call_def first_answer_def)

text \<open>C25: A client that starts against a server becomes ready. Its statistics are those of the server, and its inputs
  and outputs are the server's, in the same order, as the constructor snaps them to their grids: each one that lies on
  its grid is copied as it is. The constructor has to accept the objects; otherwise it ends the process.\<close>

theorem start_mirrors_server:
  assumes "list_all (input_sound \<circ> snapped_input) (sv_inputs s)" "list_all (output_sound \<circ> snapped_output) (sv_outputs s)"
  shows "\<exists>c. st_client_start (server_bus s) None st_client_init = Ret (None, c) \<and> st_client_is_ready c \<and>
    cl_stats c = sv_stats s \<and>
    cl_inputs c = map (\<lambda>x. if input_on_grid x then x else snapped_input x) (sv_inputs s) \<and>
    cl_outputs c = map (\<lambda>x. if output_on_grid x then x else snapped_output x) (sv_outputs s)"
proof -
  have grid: "(\<lambda>x. if input_on_grid x then x else snapped_input x) = snapped_input"
    "(\<lambda>x. if output_on_grid x then x else snapped_output x) = snapped_output"
    by (auto simp: fun_eq_iff input_on_grid_def output_on_grid_def)
  show ?thesis
    unfolding grid using assms
    by (simp add: st_client_start_def call_get_inputs_method_def call_get_outputs_method_def call_get_stats_method_def
        call_sync_def server_bus_def apply_result_defs new_inputs_entries new_outputs_entries st_client_init_def
        subscribe_change_signals_def st_client_is_ready_def Let_def stats_set_all_copies)
qed

text \<open>A server with one dial.\<close>

definition dial_server :: st_server where
  "dial_server = st_server_new ''ST:House'' \<lparr>ve_major = 1, ve_minor = 0, ve_micro = 0\<rparr> [dial_input] []"

lemma dial_on_grid: "input_on_grid dial_input"
proof -
  have "snap_to_step f64_one f64_one = f64_one" "snap_to_step (f64_of_int 2) f64_one = f64_of_int 2"
    "snap_to_step (f64_of_int 4) f64_one = f64_of_int 4" by code_simp+
  moreover have "f64_lt DBL_MIN (f64_ABS f64_one)" "f64_le f64_one (f64_of_int 2)"
    "f64_le (f64_of_int 2) (f64_of_int 4)" by code_simp+
  ultimately show ?thesis by (simp add: input_on_grid_def input_sound_def snapped_input_def dial_input_def)
qed

theorem start_mirrors_server_witness:
  "\<exists>c. st_client_start (server_bus dial_server) None st_client_init = Ret (None, c) \<and> st_client_is_ready c \<and>
    cl_stats c = st_stats_new ''ST:House'' \<and> cl_inputs c = [dial_input] \<and> cl_outputs c = []"
proof -
  have "input_sound (snapped_input dial_input)" using dial_on_grid by (simp add: input_on_grid_def)
  then show ?thesis using start_mirrors_server [of dial_server] dial_on_grid
    by (simp add: dial_server_def st_server_new_def)
qed

section \<open>Changes\<close>

text \<open>
  A mirror takes over the state of the original when its own value lies in the new range: the
  handler sets the bounds before the value.
\<close>

lemma input_takes_over:
  assumes grid: "input_on_grid y" and name: "in_name y = in_name x" and step: "in_step y = in_step x"
    and low: "f64_le (in_min y) (in_val x)" and high: "f64_le (in_val x) (in_max y)"
    and val: "snap_to_step (in_val x) (in_step x) = in_val x"
  shows "fst (input_apply_all (input_setters (input_entry y)) x) = y"
proof -
  note g = input_on_gridD [OF grid]
  let ?x3 = "x\<lparr>in_descr := in_descr y, in_unit := in_unit y, in_min := in_min y, in_max := in_max y\<rparr>"
  have "\<not> f64_le (f64_ABS (in_step y)) DBL_MIN"
    using g f64_le_not_nan f64_le_lt_trans f64_lt_irrefl by blast
  then have st: "fst (snd (st_input_set_step ?x3 (in_step y))) = ?x3"
    using g low high val step
    by (simp add: st_input_set_step_def Let_def)
  have "fst (input_apply_all (input_setters (input_entry y)) x) =
      fst (input_apply_all [ISetVal (in_val y), ISetFlags (in_flags y)] (fst (snd (st_input_set_step ?x3 (in_step y)))))"
    using g low high step
    by (simp add: input_setters_def input_entry_def st_input_set_description_def st_input_set_unit_def
        st_input_set_min_def st_input_set_max_def Let_def)
  also have "\<dots> = ?x3\<lparr>in_val := in_val y, in_flags := in_flags y\<rparr>"
    unfolding st using g step by (simp add: st_input_set_val_def st_input_set_flags_def Let_def)
  also have "\<dots> = y"
    by (rule st_input.equality) (simp_all add: name step)
  finally show ?thesis .
qed

lemma output_takes_over:
  assumes grid: "output_on_grid y" and name: "out_name y = out_name x" and step: "out_step y = out_step x"
    and low: "f64_le (out_min y) (out_val x)" and high: "f64_le (out_val x) (out_max y)"
    and val: "snap_to_step (out_val x) (out_step x) = out_val x"
  shows "fst (output_apply_all (output_setters (output_entry y)) x) = y"
proof -
  note g = output_on_gridD [OF grid]
  let ?x3 = "x\<lparr>out_descr := out_descr y, out_unit := out_unit y, out_min := out_min y, out_max := out_max y\<rparr>"
  have "\<not> f64_le (f64_ABS (out_step y)) DBL_MIN"
    using g f64_le_not_nan f64_le_lt_trans f64_lt_irrefl by blast
  then have st: "fst (snd (st_output_set_step ?x3 (out_step y))) = ?x3"
    using g low high val step
    by (simp add: st_output_set_step_def Let_def)
  have "fst (output_apply_all (output_setters (output_entry y)) x) =
      fst (output_apply_all [OSetVal (out_val y), OSetFlags (out_flags y)] (fst (snd (st_output_set_step ?x3 (out_step y)))))"
    using g low high step
    by (simp add: output_setters_def output_entry_def st_output_set_description_def st_output_set_unit_def
        st_output_set_min_def st_output_set_max_def Let_def)
  also have "\<dots> = ?x3\<lparr>out_val := out_val y, out_flags := out_flags y\<rparr>"
    unfolding st using g step by (simp add: st_output_set_val_def st_output_set_flags_def Let_def)
  also have "\<dots> = y"
    by (rule st_output.equality) (simp_all add: name step)
  finally show ?thesis .
qed

text \<open>What a setter other than \<open>set_name\<close> and \<open>set_step\<close> does: it announces a change at most once.\<close>

lemma input_setter_result:
  assumes "\<not> input_sets_step c" "\<And>s. c \<noteq> ISetName s"
  shows "\<exists>e y chg sig. input_apply c x = (e, y, emit_pair chg sig y) \<and> sig \<noteq> SIG_CHANGED \<and> (e \<noteq> None \<longrightarrow> y = x) \<and>
    in_name y = in_name x \<and> in_step y = in_step x \<and> (in_val y = in_val x \<or> in_min y = in_min x \<and> in_max y = in_max x)"
proof (cases "fst (input_apply c x) = None")
  case True
  then show ?thesis
    using assms by (cases c) (auto simp: st_input_setter_defs input_sets_step_def Let_def split: if_splits)
next
  case False
  then have "input_apply c x = (fst (input_apply c x), x, emit_pair False SIG_VAL_CHANGED x)"
    using assms by (cases c) (auto simp: st_input_setter_defs input_sets_step_def emit_pair_def Let_def split: if_splits)
  then show ?thesis by (intro exI [of _ "fst (input_apply c x)"] exI [of _ x] exI [of _ False] exI [of _ SIG_VAL_CHANGED]) simp
qed

lemma output_setter_result:
  assumes "\<not> output_sets_step c" "\<And>s. c \<noteq> OSetName s"
  shows "\<exists>e y chg sig. output_apply c x = (e, y, emit_pair chg sig y) \<and> sig \<noteq> SIG_CHANGED \<and> (e \<noteq> None \<longrightarrow> y = x) \<and>
    out_name y = out_name x \<and> out_step y = out_step x \<and> (out_val y = out_val x \<or> out_min y = out_min x \<and> out_max y = out_max x)"
proof (cases "fst (output_apply c x) = None")
  case True
  then show ?thesis
    using assms by (cases c) (auto simp: st_output_setter_defs output_sets_step_def Let_def split: if_splits)
next
  case False
  then have "output_apply c x = (fst (output_apply c x), x, emit_pair False SIG_VAL_CHANGED x)"
    using assms by (cases c) (auto simp: st_output_setter_defs output_sets_step_def emit_pair_def Let_def split: if_splits)
  then show ?thesis by (intro exI [of _ "fst (output_apply c x)"] exI [of _ x] exI [of _ False] exI [of _ SIG_VAL_CHANGED]) simp
qed

text \<open>The handler finds the mirror of a name.\<close>

lemma update_input_at:
  "distinct (map in_name xs) \<Longrightarrow> i < length xs \<Longrightarrow> ie_name e = in_name (xs ! i) \<Longrightarrow>
    fst (update_first_input e xs) = xs[i := fst (input_apply_all (input_setters e) (xs ! i))]"
proof (induction xs arbitrary: i)
  case (Cons x xs)
  show ?case
  proof (cases i)
    case (Suc j)
    then have "j < length xs" using Cons.prems(2) by simp
    then have "in_name (xs ! j) \<in> in_name ` set xs" by simp
    then have "in_name (xs ! j) \<noteq> in_name x" using Cons.prems(1) by auto
    then show ?thesis using Cons Suc by (simp add: Let_def)
  qed (use Cons.prems in \<open>simp add: Let_def\<close>)
qed simp

lemma update_output_at:
  "distinct (map out_name xs) \<Longrightarrow> i < length xs \<Longrightarrow> ie_name e = out_name (xs ! i) \<Longrightarrow>
    fst (update_first_output e xs) = xs[i := fst (output_apply_all (output_setters e) (xs ! i))]"
proof (induction xs arbitrary: i)
  case (Cons x xs)
  show ?case
  proof (cases i)
    case (Suc j)
    then have "j < length xs" using Cons.prems(2) by simp
    then have "out_name (xs ! j) \<in> out_name ` set xs" by simp
    then have "out_name (xs ! j) \<noteq> out_name x" using Cons.prems(1) by auto
    then show ?thesis using Cons Suc by (simp add: Let_def)
  qed (use Cons.prems in \<open>simp add: Let_def\<close>)
qed simp

section \<open>A client that follows a server\<close>

text \<open>A setter of one of the server's objects, with its signals handled by the server.\<close>

datatype server_change = ChangeInput nat input_op | ChangeOutput nat output_op | ChangeStats stats_op

fun change_server :: "server_change \<Rightarrow> st_server \<Rightarrow> st_server" where
  "change_server (ChangeInput i c) s =
     (let (e, y, es) = input_apply c (sv_inputs s ! i)
      in setup_inputs_signals es (s\<lparr>sv_inputs := (sv_inputs s)[i := y]\<rparr>))"
| "change_server (ChangeOutput i c) s =
     (let (e, y, es) = output_apply c (sv_outputs s ! i)
      in setup_outputs_signals es (s\<lparr>sv_outputs := (sv_outputs s)[i := y]\<rparr>))"
| "change_server (ChangeStats c) s =
     (let (p, chg) = stats_apply c (sv_stats s); s = s\<lparr>sv_stats := p\<rparr>
      in if chg then stats_changed_callback p s else s)"

text \<open>What a change sends to a connection, and the run of server and client over several changes.\<close>

definition sent_to :: "nat \<Rightarrow> st_server \<Rightarrow> st_server \<Rightarrow> server_signal list" where
  "sent_to conn s s' = map snd (filter (\<lambda>e. fst e = conn) (drop (length (sv_sent s)) (sv_sent s')))"

fun follow :: "nat \<Rightarrow> server_change list \<Rightarrow> st_server \<Rightarrow> st_client \<Rightarrow> st_server \<times> st_client" where
  "follow conn [] s c = (s, c)"
| "follow conn (ch # chs) s c =
     (let s' = change_server ch s in follow conn chs s' (fold deliver_signal (sent_to conn s s') c))"

definition mirrors :: "st_server \<Rightarrow> st_client \<Rightarrow> bool" where
  "mirrors s c \<longleftrightarrow> cl_inputs c = sv_inputs s \<and> cl_outputs c = sv_outputs s \<and> cl_stats c = sv_stats s"

definition server_ok :: "nat \<Rightarrow> st_server \<Rightarrow> bool" where
  "server_ok conn s \<longleftrightarrow> list_all input_on_grid (sv_inputs s) \<and> list_all output_on_grid (sv_outputs s) \<and>
     distinct (map in_name (sv_inputs s)) \<and> distinct (map out_name (sv_outputs s)) \<and>
     distinct (sv_connections s) \<and> conn \<in> set (sv_connections s)"

text \<open>
  The changes a mirror can follow: the object keeps its name, its step and its grid, and a number that moves, moves by
  more than the tolerance within which no change is announced.
\<close>

fun follows_change :: "server_change \<Rightarrow> st_server \<Rightarrow> bool" where
  "follows_change (ChangeInput i c) s \<longleftrightarrow> i < length (sv_inputs s) \<and> \<not> input_sets_step c \<and> (\<forall>n. c \<noteq> ISetName n) \<and>
     (case input_apply c (sv_inputs s ! i) of (e, y, es) \<Rightarrow>
        input_on_grid y \<and> (y = sv_inputs s ! i \<or> (SIG_CHANGED, y) \<in> set es))"
| "follows_change (ChangeOutput i c) s \<longleftrightarrow> i < length (sv_outputs s) \<and> \<not> output_sets_step c \<and> (\<forall>n. c \<noteq> OSetName n) \<and>
     (case output_apply c (sv_outputs s ! i) of (e, y, es) \<Rightarrow>
        output_on_grid y \<and> (y = sv_outputs s ! i \<or> (SIG_CHANGED, y) \<in> set es))"
| "follows_change (ChangeStats c) s \<longleftrightarrow>
     (case stats_apply c (sv_stats s) of (p, chg) \<Rightarrow> p = sv_stats s \<or> chg)"

fun follows_changes :: "server_change list \<Rightarrow> st_server \<Rightarrow> bool" where
  "follows_changes [] s = True"
| "follows_changes (ch # chs) s = (follows_change ch s \<and> follows_changes chs (change_server ch s))"

lemma stats_callback_sends:
  "stats_changed_callback p s = s\<lparr>sv_sent := sv_sent s @ announce (SgStatsChanged p) (sv_connections s)\<rparr>"
proof -
  have "fold (\<lambda>c. emit_stats_changed c p) cs s = s\<lparr>sv_sent := sv_sent s @ announce (SgStatsChanged p) cs\<rparr>" for cs s
    by (induction cs arbitrary: s) (simp_all add: emit_stats_changed_def announce_def)
  then show ?thesis by (simp add: stats_changed_callback_def)
qed

lemma announced_once: "distinct cs \<Longrightarrow> conn \<in> set cs \<Longrightarrow> filter (\<lambda>e. fst e = conn) (announce sg cs) = [(conn, sg)]"
  by (induction cs) (auto simp: announce_def filter_empty_conv)

lemma follow_input:
  assumes "mirrors s c" "server_ok conn s" "follows_change (ChangeInput i op) s"
  shows "mirrors (change_server (ChangeInput i op) s)
      (fold deliver_signal (sent_to conn s (change_server (ChangeInput i op) s)) c)"
    "server_ok conn (change_server (ChangeInput i op) s)"
proof -
  let ?x = "sv_inputs s ! i" and ?xs = "sv_inputs s"
  have i: "i < length ?xs" and op: "\<not> input_sets_step op" "\<And>n. op \<noteq> ISetName n" using assms(3) by auto
  obtain e y chg sig where r: "input_apply op ?x = (e, y, emit_pair chg sig y)" "sig \<noteq> SIG_CHANGED"
      "in_name y = in_name ?x" "in_step y = in_step ?x" "in_val y = in_val ?x \<or> in_min y = in_min ?x \<and> in_max y = in_max ?x"
    using input_setter_result [OF op, of ?x] by blast
  let ?s = "s\<lparr>sv_inputs := ?xs[i := y], sv_sent := sv_sent s @
    (if chg then announce (SgInputChanged (input_entry y)) (sv_connections s) else [])\<rparr>"
  have s: "change_server (ChangeInput i op) s = ?s" using r(1,2) by simp
  have y: "input_on_grid y" "y = ?x \<or> chg" using assms(3) r(1) by (auto simp: emit_pair_def split: if_splits)
  have ok: "input_on_grid ?x" "distinct (map in_name ?xs)" "distinct (sv_connections s)" "conn \<in> set (sv_connections s)"
    using assms(2) i by (auto simp: server_ok_def list_all_iff)
  have names: "map in_name (?xs[i := y]) = map in_name ?xs" using i r(3) by (simp add: map_update list_update_same_conv)
  show "server_ok conn (change_server (ChangeInput i op) s)"
    unfolding s using assms(2) y(1) names
    by (auto simp: server_ok_def list_all_iff dest: set_update_subset_insert [THEN subsetD])
  have "fst (input_apply_all (input_setters (input_entry y)) ?x) = y"
    using y(1) input_on_gridD [OF y(1)] input_on_gridD [OF ok(1)] r(3-5) by (intro input_takes_over) auto
  then have up: "fst (update_first_input (input_entry y) ?xs) = ?xs[i := y]"
    using update_input_at [OF ok(2) i, of "input_entry y"] r(3) by (simp add: input_entry_def)
  show "mirrors (change_server (ChangeInput i op) s)
      (fold deliver_signal (sent_to conn s (change_server (ChangeInput i op) s)) c)"
    unfolding s using assms(1) y(2) up announced_once [OF ok(3,4)]
    by (auto simp: mirrors_def sent_to_def handle_input_changed_signal_def Let_def)
qed

lemma follow_output:
  assumes "mirrors s c" "server_ok conn s" "follows_change (ChangeOutput i op) s"
  shows "mirrors (change_server (ChangeOutput i op) s)
      (fold deliver_signal (sent_to conn s (change_server (ChangeOutput i op) s)) c)"
    "server_ok conn (change_server (ChangeOutput i op) s)"
proof -
  let ?x = "sv_outputs s ! i" and ?xs = "sv_outputs s"
  have i: "i < length ?xs" and op: "\<not> output_sets_step op" "\<And>n. op \<noteq> OSetName n" using assms(3) by auto
  obtain e y chg sig where r: "output_apply op ?x = (e, y, emit_pair chg sig y)" "sig \<noteq> SIG_CHANGED"
      "out_name y = out_name ?x" "out_step y = out_step ?x" "out_val y = out_val ?x \<or> out_min y = out_min ?x \<and> out_max y = out_max ?x"
    using output_setter_result [OF op, of ?x] by blast
  let ?s = "s\<lparr>sv_outputs := ?xs[i := y], sv_sent := sv_sent s @
    (if chg then announce (SgOutputChanged (output_entry y)) (sv_connections s) else [])\<rparr>"
  have s: "change_server (ChangeOutput i op) s = ?s" using r(1,2) by simp
  have y: "output_on_grid y" "y = ?x \<or> chg" using assms(3) r(1) by (auto simp: emit_pair_def split: if_splits)
  have ok: "output_on_grid ?x" "distinct (map out_name ?xs)" "distinct (sv_connections s)" "conn \<in> set (sv_connections s)"
    using assms(2) i by (auto simp: server_ok_def list_all_iff)
  have names: "map out_name (?xs[i := y]) = map out_name ?xs" using i r(3) by (simp add: map_update list_update_same_conv)
  show "server_ok conn (change_server (ChangeOutput i op) s)"
    unfolding s using assms(2) y(1) names
    by (auto simp: server_ok_def list_all_iff dest: set_update_subset_insert [THEN subsetD])
  have "fst (output_apply_all (output_setters (output_entry y)) ?x) = y"
    using y(1) output_on_gridD [OF y(1)] output_on_gridD [OF ok(1)] r(3-5) by (intro output_takes_over) auto
  then have up: "fst (update_first_output (output_entry y) ?xs) = ?xs[i := y]"
    using update_output_at [OF ok(2) i, of "output_entry y"] r(3) by (simp add: output_entry_def)
  show "mirrors (change_server (ChangeOutput i op) s)
      (fold deliver_signal (sent_to conn s (change_server (ChangeOutput i op) s)) c)"
    unfolding s using assms(1) y(2) up announced_once [OF ok(3,4)]
    by (auto simp: mirrors_def sent_to_def handle_output_changed_signal_def Let_def)
qed

lemma follow_stats:
  assumes "mirrors s c" "server_ok conn s" "follows_change (ChangeStats op) s"
  shows "mirrors (change_server (ChangeStats op) s)
      (fold deliver_signal (sent_to conn s (change_server (ChangeStats op) s)) c)"
    "server_ok conn (change_server (ChangeStats op) s)"
proof -
  obtain p chg where r: "stats_apply op (sv_stats s) = (p, chg)" by force
  have ok: "distinct (sv_connections s)" "conn \<in> set (sv_connections s)" using assms(2) by (simp_all add: server_ok_def)
  show "mirrors (change_server (ChangeStats op) s)
      (fold deliver_signal (sent_to conn s (change_server (ChangeStats op) s)) c)"
    using assms(1,3) r announced_once [OF ok]
    by (auto simp: mirrors_def sent_to_def stats_callback_sends handle_stats_changed_signal_def stats_set_all_copies Let_def)
  show "server_ok conn (change_server (ChangeStats op) s)"
    using assms(2) r by (simp add: server_ok_def stats_callback_sends Let_def)
qed

lemma follow_change:
  assumes "mirrors s c" "server_ok conn s" "follows_change ch s"
  shows "mirrors (change_server ch s) (fold deliver_signal (sent_to conn s (change_server ch s)) c)"
    "server_ok conn (change_server ch s)"
  using assms by (cases ch; simp only: follow_input follow_output follow_stats)+

text \<open>C26: A client whose mirrors are equal to the objects of its server stays so over any changes on the server: each
  setter of an input, an output or a statistic makes the server send its signal to the client's connection, and the
  handler of the client brings the mirror to the new state exactly, all other mirrors included. A number that moves
  within the tolerance is not announced; and the changes are those for which the object keeps its name, its step and
  its grid.\<close>

theorem mirror_follows:
  assumes "mirrors s c" "server_ok conn s" "follows_changes chs s" "follow conn chs s c = (s', c')"
  shows "mirrors s' c'"
  using assms
proof (induction chs arbitrary: s c)
  case (Cons ch chs)
  then have ch: "follows_change ch s" "follows_changes chs (change_server ch s)" by simp_all
  note f = follow_change [OF Cons.prems(1,2) ch(1)]
  show ?case by (rule Cons.IH [OF f ch(2)]) (use Cons.prems(4) in \<open>simp add: Let_def\<close>)
qed simp

text \<open>A server with a dial and a relay. The flags of the dial change, then the relay is set.\<close>

definition house :: st_server where
  "house = (st_server_new ''ST:House'' \<lparr>ve_major = 1, ve_minor = 0, ve_micro = 0\<rparr> [dial_input] [relay])\<lparr>sv_connections := [7, 9]\<rparr>"

definition house_client :: st_client where
  "house_client = st_client_init\<lparr>cl_inputs := [dial_input], cl_outputs := [relay], cl_stats := st_stats_new ''ST:House''\<rparr>"

lemma relay_on_grid: "output_on_grid relay" "output_on_grid (relay\<lparr>out_val := f64_of_int 3\<rparr>)"
proof -
  have "snap_to_step f64_one f64_one = f64_one" "snap_to_step (f64_of_int 4) f64_one = f64_of_int 4"
    "f64_lt DBL_MIN (f64_ABS f64_one)" "f64_le f64_one f64_one" "f64_le f64_one (f64_of_int 4)" by code_simp+
  then show "output_on_grid relay" "output_on_grid (relay\<lparr>out_val := f64_of_int 3\<rparr>)"
    by (simp_all add: output_on_grid_def output_sound_def snapped_output_def relay_def relay_facts)
qed

lemma follow_server: "fst (follow conn chs s c) = fold change_server chs s"
  by (induction chs arbitrary: s c) (simp_all add: Let_def)

lemma grid_flags: "input_on_grid (x\<lparr>in_flags := f\<rparr>) = input_on_grid x"
  by (cases x) (simp add: input_on_grid_def input_sound_def snapped_input_def)

theorem mirror_follows_witness:
  "\<exists>s c. follow 9 [ChangeInput 0 (ISetFlags 2), ChangeOutput 0 (OSetVal (f64_of_int 3))] house house_client = (s, c) \<and>
    cl_inputs c = [dial_input\<lparr>in_flags := 2\<rparr>] \<and> cl_outputs c = [relay\<lparr>out_val := f64_of_int 3\<rparr>]"
proof -
  let ?chs = "[ChangeInput 0 (ISetFlags 2), ChangeOutput 0 (OSetVal (f64_of_int 3))]"
  obtain s c where run: "follow 9 ?chs house house_client = (s, c)" by force
  have dial: "input_on_grid (dial_input\<lparr>in_flags := 2\<rparr>)"
    using dial_on_grid by (simp add: grid_flags)
  have relay: "st_output_set_val relay (f64_of_int 3) =
      (None, relay\<lparr>out_val := f64_of_int 3\<rparr>, emit_pair True SIG_VAL_CHANGED (relay\<lparr>out_val := f64_of_int 3\<rparr>))"
    by (simp add: st_output_set_val_def relay_def relay_facts Let_def)
  have flags: "st_input_set_flags dial_input 2 =
      (None, dial_input\<lparr>in_flags := 2\<rparr>, emit_pair True SIG_FLAGS_CHANGED (dial_input\<lparr>in_flags := 2\<rparr>))"
    by (simp add: st_input_set_flags_def dial_input_def Let_def)
  have fits: "follows_changes ?chs house"
    using dial relay_on_grid
    by (simp add: house_def st_server_new_def flags relay input_sets_step_def output_sets_step_def Let_def)
      (simp add: emit_pair_def)
  have s: "s = fold change_server ?chs house" using run follow_server [of 9 ?chs house house_client] by simp
  have "sv_inputs s = [dial_input\<lparr>in_flags := 2\<rparr>]" "sv_outputs s = [relay\<lparr>out_val := f64_of_int 3\<rparr>]"
    unfolding s by (simp_all add: house_def st_server_new_def flags relay Let_def)
  note objects = this
  have "mirrors house house_client" by (simp add: mirrors_def house_def house_client_def st_server_new_def)
  moreover have "server_ok 9 house"
    using dial_on_grid relay_on_grid by (simp add: server_ok_def house_def st_server_new_def)
  ultimately have "mirrors s c" using mirror_follows fits run by blast
  with run objects show ?thesis by (simp add: mirrors_def)
qed

end
