(* ===== verification/Mdns.thy ===== *)
theory Mdns
  imports Defs "HOL-Library.List_Lexorder" "HOL-Library.Product_Lexorder"
begin

text \<open>
  \<open>lib/mdns.c\<close> and \<open>lib/mdns-service.c\<close>: the browser of services. It keeps a list of the resolved
  instances of services, one for each network interface and protocol, and emits \<open>service-added\<close>
  for each new instance and \<open>service-removed\<close> when the last instance of a name and type is gone.
  The Avahi library is a parameter: which of its objects can be created, and how it numbers the
  address families (\<open>avahi_proto_to_af\<close>). Its callbacks are the events of the model.
\<close>

section \<open>Services\<close>

record mdns_service =
  ms_name :: string
  ms_type :: string
  ms_host :: string
  ms_address :: string
  ms_port :: guint16
  ms_proto :: int
  ms_iface :: int

definition st_mdns_service_new ::
  "string \<Rightarrow> string \<Rightarrow> string \<Rightarrow> string \<Rightarrow> guint16 \<Rightarrow> int \<Rightarrow> int \<Rightarrow> mdns_service" where
  "st_mdns_service_new name type host address port proto iface =
     \<lparr>ms_name = name, ms_type = type, ms_host = host, ms_address = address, ms_port = port,
      ms_proto = proto, ms_iface = iface\<rparr>"

definition st_mdns_service_set_name :: "mdns_service \<Rightarrow> string \<Rightarrow> mdns_service" where
  "st_mdns_service_set_name self name = self\<lparr>ms_name := name\<rparr>"

definition st_mdns_service_set_mdns_type :: "mdns_service \<Rightarrow> string \<Rightarrow> mdns_service" where
  "st_mdns_service_set_mdns_type self type = self\<lparr>ms_type := type\<rparr>"

definition st_mdns_service_set_host :: "mdns_service \<Rightarrow> string \<Rightarrow> mdns_service" where
  "st_mdns_service_set_host self host = self\<lparr>ms_host := host\<rparr>"

definition st_mdns_service_set_address :: "mdns_service \<Rightarrow> string \<Rightarrow> mdns_service" where
  "st_mdns_service_set_address self address = self\<lparr>ms_address := address\<rparr>"

definition st_mdns_service_set_port :: "mdns_service \<Rightarrow> guint16 \<Rightarrow> mdns_service" where
  "st_mdns_service_set_port self port = self\<lparr>ms_port := port\<rparr>"

text \<open>The argument is a \<open>guint16\<close>, although the field is a \<open>gint\<close>.\<close>

definition st_mdns_service_set_proto :: "mdns_service \<Rightarrow> guint16 \<Rightarrow> mdns_service" where
  "st_mdns_service_set_proto self proto = self\<lparr>ms_proto := uint proto\<rparr>"

definition st_mdns_service_set_iface :: "mdns_service \<Rightarrow> int \<Rightarrow> mdns_service" where
  "st_mdns_service_set_iface self iface = self\<lparr>ms_iface := iface\<rparr>"

text \<open>The sign of \<open>strcmp\<close>, which is all that C promises.\<close>

fun strcmp :: "string \<Rightarrow> string \<Rightarrow> int" where
  "strcmp [] [] = 0"
| "strcmp [] (d # t) = - 1"
| "strcmp (c # s) [] = 1"
| "strcmp (c # s) (d # t) =
     (if c = d then strcmp s t else if (of_char c :: nat) < of_char d then - 1 else 1)"

definition st_mdns_service_compare :: "mdns_service \<Rightarrow> mdns_service \<Rightarrow> int" where
  "st_mdns_service_compare self other =
     (let r = strcmp (ms_name self) (ms_name other) in if r \<noteq> 0 then r else
      let r = strcmp (ms_type self) (ms_type other) in if r \<noteq> 0 then r else
      let r = strcmp (ms_host self) (ms_host other) in if r \<noteq> 0 then r else
      let r = strcmp (ms_address self) (ms_address other) in if r \<noteq> 0 then r else
      if ms_port self = ms_port other then
        if ms_proto self = ms_proto other then
          if ms_iface self < ms_iface other then - 1 else if ms_iface other < ms_iface self then 1 else 0
        else if ms_proto self < ms_proto other then - 1 else 1
      else if ms_port self < ms_port other then - 1 else 1)"

section \<open>The browser\<close>

datatype mdns_signal = SgServiceAdded mdns_service | SgServiceRemoved string

text \<open>\<open>md_resolvers\<close> are the resolvers in flight: interface, protocol, name, type and domain of each.\<close>

record st_mdns =
  md_options :: int
  md_client :: bool
  md_group :: bool
  md_service_type_browser :: bool
  md_service_browsers :: "(string, unit) ghash"
  md_services :: "mdns_service list"
  md_resolvers :: "(int \<times> int \<times> string \<times> string \<times> string) list"
  md_emitted :: "mdns_signal list"

definition ST_MDNS_OPTION_NO_DISCOVERY :: int where "ST_MDNS_OPTION_NO_DISCOVERY = 1"

definition st_mdns_init :: st_mdns where
  "st_mdns_init = \<lparr>md_options = 0, md_client = False, md_group = False, md_service_type_browser = False,
     md_service_browsers = gh_new, md_services = [], md_resolvers = [], md_emitted = []\<rparr>"

text \<open>\<open>poll\<close> and \<open>client\<close>: whether Avahi can create the two.\<close>

definition st_mdns_new_with_options :: "int \<Rightarrow> bool \<Rightarrow> bool \<Rightarrow> st_mdns" where
  "st_mdns_new_with_options options poll client =
     (let r = st_mdns_init\<lparr>md_options := options\<rparr>
      in if poll then (if client then r\<lparr>md_client := True\<rparr> else r) else r)"

definition lookup_service ::
  "st_mdns \<Rightarrow> string \<Rightarrow> string \<Rightarrow> string \<Rightarrow> string \<Rightarrow> guint16 \<Rightarrow> int \<Rightarrow> int \<Rightarrow> mdns_service option" where
  "lookup_service self name type host address port proto iface =
     (let b = st_mdns_service_new name type host address port proto iface
      in find (\<lambda>s. st_mdns_service_compare s b = 0) (md_services self))"

fun count_by_name_and_type :: "string \<Rightarrow> string \<Rightarrow> mdns_service list \<Rightarrow> nat" where
  "count_by_name_and_type name type [] = 0"
| "count_by_name_and_type name type (s # ss) =
     (if name = ms_name s \<and> type = ms_type s then Suc (count_by_name_and_type name type ss)
      else count_by_name_and_type name type ss)"

definition count_services_by_name_and_type :: "st_mdns \<Rightarrow> string \<Rightarrow> string \<Rightarrow> nat" where
  "count_services_by_name_and_type self name type = count_by_name_and_type name type (md_services self)"

text \<open>
  The outer loop of \<open>remove_service_instance\<close>: each round drops the first instance that matches,
  until a round finds none.
\<close>

definition instance_of :: "string \<Rightarrow> string \<Rightarrow> int \<Rightarrow> int \<Rightarrow> mdns_service \<Rightarrow> bool" where
  "instance_of name type iface proto s \<longleftrightarrow>
     name = ms_name s \<and> type = ms_type s \<and> ms_iface s = iface \<and> ms_proto s = proto"

lemma first_index_less: "first_index P xs = Some i \<Longrightarrow> i < length xs"
  using first_index_Some by blast

function remove_loop :: "(mdns_service \<Rightarrow> bool) \<Rightarrow> mdns_service list \<Rightarrow> nat \<Rightarrow> nat \<times> mdns_service list" where
  "remove_loop P ss removed =
     (case first_index P ss of
        Some i \<Rightarrow> remove_loop P (take i ss @ drop (Suc i) ss) (Suc removed)
      | None \<Rightarrow> (removed, ss))"
  by pat_completeness auto
termination
  by (relation "measure (\<lambda>(P, ss, n). length ss)") (auto dest: first_index_less)

declare remove_loop.simps [simp del]

definition remove_service_instance :: "st_mdns \<Rightarrow> string \<Rightarrow> string \<Rightarrow> int \<Rightarrow> int \<Rightarrow> nat \<times> st_mdns" where
  "remove_service_instance self name type iface proto =
     (let (removed, ss) = remove_loop (instance_of name type iface proto) (md_services self) 0
      in (removed, self\<lparr>md_services := ss\<rparr>))"

section \<open>Callbacks\<close>

datatype resolver_event = AVAHI_RESOLVER_FOUND | AVAHI_RESOLVER_FAILURE

datatype browser_event =
    AVAHI_BROWSER_NEW | AVAHI_BROWSER_REMOVE | AVAHI_BROWSER_ALL_FOR_NOW
  | AVAHI_BROWSER_CACHE_EXHAUSTED | AVAHI_BROWSER_FAILURE

datatype client_state =
    AVAHI_CLIENT_S_RUNNING | AVAHI_CLIENT_S_REGISTERING | AVAHI_CLIENT_S_COLLISION
  | AVAHI_CLIENT_FAILURE | AVAHI_CLIENT_CONNECTING

definition resolve_cb ::
  "(int \<Rightarrow> int) \<Rightarrow> int \<Rightarrow> int \<Rightarrow> resolver_event \<Rightarrow> string \<Rightarrow> string \<Rightarrow> string \<Rightarrow> string \<Rightarrow> string \<Rightarrow> guint16
   \<Rightarrow> st_mdns \<Rightarrow> st_mdns" where
  "resolve_cb af interface protocol event name type domain host_name addr_str port self =
     (let self = self\<lparr>md_resolvers := remove1 (interface, protocol, name, type, domain) (md_resolvers self)\<rparr>
      in if event = AVAHI_RESOLVER_FOUND then
           if md_services self = []
              \<or> lookup_service self name type host_name addr_str port (af protocol) interface = None
           then let p = st_mdns_service_new name type host_name addr_str port (af protocol) interface
                in self\<lparr>md_services := md_services self @ [p],
                        md_emitted := md_emitted self @ [SgServiceAdded p]\<rparr>
           else self
         else self)"

text \<open>\<open>created\<close>: whether the resolver of a new instance can be created.\<close>

definition service_browser_cb ::
  "(int \<Rightarrow> int) \<Rightarrow> bool \<Rightarrow> int \<Rightarrow> int \<Rightarrow> browser_event \<Rightarrow> string \<Rightarrow> string \<Rightarrow> string \<Rightarrow> st_mdns \<Rightarrow> st_mdns" where
  "service_browser_cb af created interface protocol event name type domain self =
     (if event = AVAHI_BROWSER_NEW then
        if created
        then self\<lparr>md_resolvers := md_resolvers self @ [(interface, protocol, name, type, domain)]\<rparr>
        else self
      else if event = AVAHI_BROWSER_REMOVE then
        let (removed, self) = remove_service_instance self name type interface (af protocol);
            remaining = count_services_by_name_and_type self name type
        in if remaining = 0 then self\<lparr>md_emitted := md_emitted self @ [SgServiceRemoved name]\<rparr> else self
      else self)"

definition service_type_browser_cb :: "bool \<Rightarrow> browser_event \<Rightarrow> string \<Rightarrow> st_mdns \<Rightarrow> st_mdns" where
  "service_type_browser_cb created event type self =
     (case event of
        AVAHI_BROWSER_NEW \<Rightarrow>
          if \<not> gh_contains (md_service_browsers self) type \<and> created
          then self\<lparr>md_service_browsers := gh_insert (md_service_browsers self) type ()\<rparr>
          else self
      | _ \<Rightarrow> self)"

definition client_state_cb :: "bool \<Rightarrow> bool \<Rightarrow> client_state \<Rightarrow> st_mdns \<Rightarrow> st_mdns" where
  "client_state_cb browser grp state self =
     (case state of
        AVAHI_CLIENT_S_RUNNING \<Rightarrow>
          let self = (if md_options self AND ST_MDNS_OPTION_NO_DISCOVERY = 0
                      then self\<lparr>md_service_type_browser := browser\<rparr> else self)
          in self\<lparr>md_group := grp\<rparr>
      | _ \<Rightarrow> self)"

text \<open>
  \<open>st_mdns_publish_service\<close>: \<open>add\<close> and \<open>commit\<close> are what the two calls on the entry group return.
\<close>

definition st_mdns_publish_service :: "int \<Rightarrow> int \<Rightarrow> bool" where
  "st_mdns_publish_service add commit =
     (let r = True; r = (if add < 0 then False else r) in if commit < 0 then False else r)"

section \<open>Comparing services\<close>

lemma strcmp_0: "strcmp s t = 0 \<longleftrightarrow> s = t"
  by (induction s t rule: strcmp.induct) auto

lemma strcmp_lex: "strcmp s t < 0 \<longleftrightarrow> map of_char s < (map of_char t :: nat list)"
  by (induction s t rule: strcmp.induct) auto

text \<open>The fields in the order in which they count.\<close>

definition service_key :: "mdns_service \<Rightarrow>
    nat list \<times> nat list \<times> nat list \<times> nat list \<times> guint16 \<times> int \<times> int" where
  "service_key s = (map of_char (ms_name s), map of_char (ms_type s), map of_char (ms_host s),
     map of_char (ms_address s), ms_port s, ms_proto s, ms_iface s)"

lemma compare_0: "st_mdns_service_compare x y = 0 \<longleftrightarrow> x = y"
  unfolding st_mdns_service_compare_def Let_def
  by (cases x; cases y) (auto simp: strcmp_0)

text \<open>C30: \<open>st_mdns_service_compare\<close> is a total order, the lexicographic one on name, type, host,
  address, port, protocol and interface, and 0 only for services that agree in all of them.\<close>

theorem service_compare_order:
  "(st_mdns_service_compare x y < 0 \<longleftrightarrow> service_key x < service_key y) \<and>
   (st_mdns_service_compare x y = 0 \<longleftrightarrow> x = y) \<and>
   (0 < st_mdns_service_compare x y \<longleftrightarrow> service_key y < service_key x)"
proof -
  have keys: "service_key x = service_key y \<longleftrightarrow> x = y" for x y
    by (cases x; cases y) (simp add: service_key_def inj_map_eq_map inj_of_char)
  have pair: "(a, b) < (c, d) \<longleftrightarrow> a < c \<or> a = c \<and> b < d"
    for a c :: "'a :: linorder" and b d :: "'b :: linorder"
    by auto
  have step: "(if strcmp s t \<noteq> 0 then strcmp s t else k) < 0 \<longleftrightarrow>
      map of_char s < (map of_char t :: nat list) \<or> map of_char s = (map of_char t :: nat list) \<and> k < 0" for s t k
    using strcmp_lex [of s t] by (auto simp: strcmp_0 inj_map_eq_map inj_of_char)
  have less: "st_mdns_service_compare x y < 0 \<longleftrightarrow> service_key x < service_key y" for x y
    unfolding st_mdns_service_compare_def service_key_def Let_def step pair by auto
  from less [of x y] keys [of x y] compare_0 [of x y] show ?thesis by (metis linorder_neqE not_less_iff_gr_or_eq)
qed

lemma lookup_service_None:
  "lookup_service self n t h a p pr i = None \<longleftrightarrow> st_mdns_service_new n t h a p pr i \<notin> set (md_services self)"
  by (auto simp: lookup_service_def find_None_iff compare_0 Let_def)

section \<open>The list of services\<close>

lemma drop_first: "first_index P ss = Some i \<Longrightarrow>
    filter (\<lambda>s. \<not> P s) (take i ss @ drop (Suc i) ss) = filter (\<lambda>s. \<not> P s) ss \<and>
    length (filter P ss) = Suc (length (filter P (take i ss @ drop (Suc i) ss)))"
proof (induction ss arbitrary: i)
  case (Cons s ss)
  then show ?case by (cases "P s") (auto split: if_splits)
qed simp

lemma first_index_None: "first_index P xs = None \<longleftrightarrow> filter P xs = []"
  by (induction xs) auto

lemma remove_loop_filter: "remove_loop P ss n = (n + length (filter P ss), filter (\<lambda>s. \<not> P s) ss)"
proof (induction P ss n rule: remove_loop.induct)
  case (1 P ss n)
  show ?case
  proof (cases "first_index P ss")
    case None
    then have "filter P ss = []" by (simp add: first_index_None)
    moreover from this have "filter (\<lambda>s. \<not> P s) ss = ss" by (auto simp: filter_empty_conv filter_id_conv)
    ultimately show ?thesis using None by (subst remove_loop.simps) simp
  next
    case (Some i)
    with 1 [OF Some] drop_first [OF Some] show ?thesis by (subst remove_loop.simps) simp
  qed
qed

lemma count_filter: "count_by_name_and_type n t ss = length (filter (\<lambda>s. ms_name s = n \<and> ms_type s = t) ss)"
  by (induction ss) auto

datatype mdns_event =
    EvResolved int int resolver_event string string string string string guint16
  | EvBrowser bool int int browser_event string string string
  | EvType bool browser_event string
  | EvClient bool bool client_state

fun mdns_step :: "(int \<Rightarrow> int) \<Rightarrow> mdns_event \<Rightarrow> st_mdns \<Rightarrow> st_mdns" where
  "mdns_step af (EvResolved i p e n t d h a port) = resolve_cb af i p e n t d h a port"
| "mdns_step af (EvBrowser c i p e n t d) = service_browser_cb af c i p e n t d"
| "mdns_step af (EvType c e t) = service_type_browser_cb c e t"
| "mdns_step af (EvClient b g s) = client_state_cb b g s"

definition mdns_run :: "(int \<Rightarrow> int) \<Rightarrow> mdns_event list \<Rightarrow> st_mdns \<Rightarrow> st_mdns" where
  "mdns_run af evs self = fold (mdns_step af) evs self"

text \<open>The effect of an event on the set of listed instances, and its signals.\<close>

fun spec_step :: "(int \<Rightarrow> int) \<Rightarrow> mdns_event \<Rightarrow> mdns_service set \<Rightarrow> mdns_service set" where
  "spec_step af (EvResolved i p e n t d h a port) S =
     (if e = AVAHI_RESOLVER_FOUND then insert (st_mdns_service_new n t h a port (af p) i) S else S)"
| "spec_step af (EvBrowser c i p e n t d) S =
     (if e = AVAHI_BROWSER_REMOVE then {s \<in> S. \<not> instance_of n t i (af p) s} else S)"
| "spec_step af _ S = S"

fun spec_signals :: "(int \<Rightarrow> int) \<Rightarrow> mdns_event \<Rightarrow> mdns_service set \<Rightarrow> mdns_signal list" where
  "spec_signals af (EvResolved i p e n t d h a port) S =
     (if e = AVAHI_RESOLVER_FOUND \<and> st_mdns_service_new n t h a port (af p) i \<notin> S
      then [SgServiceAdded (st_mdns_service_new n t h a port (af p) i)] else [])"
| "spec_signals af (EvBrowser c i p e n t d) S =
     (if e = AVAHI_BROWSER_REMOVE \<and> (\<forall>s\<in>S. ms_name s = n \<and> ms_type s = t \<longrightarrow> ms_iface s = i \<and> ms_proto s = af p)
      then [SgServiceRemoved n] else [])"
| "spec_signals af _ S = []"

lemma mdns_step_refines:
  assumes "distinct (md_services self)"
  shows "distinct (md_services (mdns_step af ev self)) \<and>
    set (md_services (mdns_step af ev self)) = spec_step af ev (set (md_services self)) \<and>
    md_emitted (mdns_step af ev self) = md_emitted self @ spec_signals af ev (set (md_services self))"
proof (cases ev)
  case (EvResolved i p e n t d h a port)
  have "lookup_service (self\<lparr>md_resolvers := r\<rparr>) n t h a port (af p) i = lookup_service self n t h a port (af p) i" for r
    by (simp add: lookup_service_def)
  with assms EvResolved lookup_service_None [of self n t h a port "af p" i] show ?thesis
    by (auto simp: resolve_cb_def Let_def)
next
  case (EvBrowser c i p e n t d)
  let ?P = "instance_of n t i (af p)" and ?S = "set (md_services self)"
  have "count_by_name_and_type n t (filter (\<lambda>s. \<not> ?P s) (md_services self)) = 0 \<longleftrightarrow>
      (\<forall>s\<in>?S. ms_name s = n \<and> ms_type s = t \<longrightarrow> ms_iface s = i \<and> ms_proto s = af p)"
    by (auto simp: count_filter filter_empty_conv instance_of_def)
  with assms EvBrowser show ?thesis
    by (simp add: service_browser_cb_def remove_service_instance_def remove_loop_filter
        count_services_by_name_and_type_def) auto
next
  case (EvType c e t)
  with assms show ?thesis by (cases e) (auto simp: service_type_browser_cb_def)
next
  case (EvClient b g s)
  with assms show ?thesis by (cases s) (auto simp: client_state_cb_def Let_def)
qed

fun spec_emitted :: "(int \<Rightarrow> int) \<Rightarrow> mdns_event list \<Rightarrow> mdns_service set \<Rightarrow> mdns_signal list" where
  "spec_emitted af [] S = []"
| "spec_emitted af (ev # evs) S = spec_signals af ev S @ spec_emitted af evs (spec_step af ev S)"

lemma distinct_one: "distinct xs \<Longrightarrow> set xs = {a} \<Longrightarrow> xs = [a]"
  by (cases xs) (auto simp: subset_singleton_iff)

lemma browser_run:
  "distinct (md_services (mdns_run af evs (st_mdns_new_with_options opts poll client)))"
  "set (md_services (mdns_run af evs (st_mdns_new_with_options opts poll client))) = fold (spec_step af) evs {}"
  "md_emitted (mdns_run af evs (st_mdns_new_with_options opts poll client)) = spec_emitted af evs {}"
proof -
  have run: "distinct (md_services self) \<Longrightarrow> distinct (md_services (mdns_run af evs self)) \<and>
      set (md_services (mdns_run af evs self)) = fold (spec_step af) evs (set (md_services self)) \<and>
      md_emitted (mdns_run af evs self) = md_emitted self @ spec_emitted af evs (set (md_services self))" for self
  proof (induction evs arbitrary: self)
    case (Cons ev evs)
    from mdns_step_refines [OF Cons.prems, of af ev] Cons.IH [of "mdns_step af ev self"] show ?case
      by (simp add: mdns_run_def)
  qed (simp add: mdns_run_def)
  have "distinct (md_services (st_mdns_new_with_options opts poll client))"
    "md_services (st_mdns_new_with_options opts poll client) = []"
    "md_emitted (st_mdns_new_with_options opts poll client) = []"
    by (simp_all add: st_mdns_new_with_options_def st_mdns_init_def Let_def)
  with run [of "st_mdns_new_with_options opts poll client"]
  show "distinct (md_services (mdns_run af evs (st_mdns_new_with_options opts poll client)))"
    "set (md_services (mdns_run af evs (st_mdns_new_with_options opts poll client))) = fold (spec_step af) evs {}"
    "md_emitted (mdns_run af evs (st_mdns_new_with_options opts poll client)) = spec_emitted af evs {}"
    by simp_all
qed

text \<open>
  The list and the signals from the events alone: an instance is listed when it was resolved and no removal of its name,
  type, interface and protocol came after.
\<close>

fun resolves :: "(int \<Rightarrow> int) \<Rightarrow> mdns_event \<Rightarrow> mdns_service option" where
  "resolves af (EvResolved i p e n t d h a port) =
     (if e = AVAHI_RESOLVER_FOUND then Some (st_mdns_service_new n t h a port (af p) i) else None)"
| "resolves af _ = None"

fun removes :: "(int \<Rightarrow> int) \<Rightarrow> mdns_event \<Rightarrow> mdns_service \<Rightarrow> bool" where
  "removes af (EvBrowser c i p e n t d) s \<longleftrightarrow>
     e = AVAHI_BROWSER_REMOVE \<and> ms_name s = n \<and> ms_type s = t \<and> ms_iface s = i \<and> ms_proto s = af p"
| "removes af _ s \<longleftrightarrow> False"

definition listed :: "(int \<Rightarrow> int) \<Rightarrow> mdns_event list \<Rightarrow> mdns_service set" where
  "listed af evs = {s. \<exists>i<length evs. resolves af (evs ! i) = Some s \<and>
     (\<forall>j. i < j \<and> j < length evs \<longrightarrow> \<not> removes af (evs ! j) s)}"

text \<open>
  What an event announces after the events before it. A removal is announced when no instance of the name and type
  is listed after it, whether or not one was before.
\<close>

definition announced :: "(int \<Rightarrow> int) \<Rightarrow> mdns_event list \<Rightarrow> mdns_event \<Rightarrow> mdns_signal list" where
  "announced af evs ev =
     (case resolves af ev of Some s \<Rightarrow> if s \<in> listed af evs then [] else [SgServiceAdded s]
      | None \<Rightarrow> (case ev of
          EvBrowser c i p e n t d \<Rightarrow>
            if e = AVAHI_BROWSER_REMOVE \<and> (\<forall>s\<in>listed af (evs @ [ev]). \<not> (ms_name s = n \<and> ms_type s = t))
            then [SgServiceRemoved n] else []
        | _ \<Rightarrow> []))"

lemma listed_Nil: "listed af [] = {}"
  by (simp add: listed_def)

lemma listed_snoc:
  "listed af (evs @ [ev]) = {s. resolves af ev = Some s \<or> s \<in> listed af evs \<and> \<not> removes af ev s}"
proof (rule set_eqI)
  fix s
  let ?n = "length evs"
  have old: "(\<exists>i<?n. resolves af ((evs @ [ev]) ! i) = Some s \<and> (\<forall>j. i < j \<and> j < Suc ?n \<longrightarrow> \<not> removes af ((evs @ [ev]) ! j) s))
      \<longleftrightarrow> s \<in> listed af evs \<and> \<not> removes af ev s"
    by (auto simp: listed_def nth_append less_Suc_eq)
  have "s \<in> listed af (evs @ [ev]) \<longleftrightarrow> resolves af ev = Some s \<or> (\<exists>i<?n. resolves af ((evs @ [ev]) ! i) = Some s \<and>
      (\<forall>j. i < j \<and> j < Suc ?n \<longrightarrow> \<not> removes af ((evs @ [ev]) ! j) s))"
    by (auto simp: listed_def less_Suc_eq)
  with old show "s \<in> listed af (evs @ [ev]) \<longleftrightarrow> s \<in> {s. resolves af ev = Some s \<or> s \<in> listed af evs \<and> \<not> removes af ev s}"
    by simp
qed

lemma spec_step_listed: "spec_step af ev (listed af evs) = listed af (evs @ [ev])"
  unfolding listed_snoc by (cases ev) (auto simp: instance_of_def)

lemma spec_signals_announced: "spec_signals af ev (listed af evs) = announced af evs ev"
proof (cases ev)
  case (EvBrowser c i p e n t d)
  then show ?thesis by (auto simp: announced_def listed_snoc)
qed (auto simp: announced_def)

lemma spec_listed: "fold (spec_step af) evs (listed af pre) = listed af (pre @ evs)"
  by (induction evs arbitrary: pre) (simp_all add: spec_step_listed)

lemma spec_emitted_announced:
  "spec_emitted af evs (listed af pre) =
    concat (map (\<lambda>k. announced af (pre @ take k evs) (evs ! k)) [0..<length evs])"
proof (induction evs arbitrary: pre)
  case (Cons ev evs)
  have "[0..<length (ev # evs)] = 0 # map Suc [0..<length evs]" by (simp add: upt_conv_Cons map_Suc_upt del: upt_Suc)
  with Cons [of "pre @ [ev]"] show ?case
    by (simp add: spec_signals_announced spec_step_listed comp_def del: upt_Suc)
qed simp

text \<open>C29: After any callbacks the browser lists, each once, exactly the instances that were resolved and of which no
  removal came after they were last resolved. Each callback announces what follows from the callbacks before it:
  \<open>service-added\<close> for a resolved instance that is not listed, and \<open>service-removed\<close> for a removal that leaves no
  instance of the name and type, also when it removed none.\<close>

theorem browser_refines:
  "distinct (md_services (mdns_run af evs (st_mdns_new_with_options opts poll client))) \<and>
   set (md_services (mdns_run af evs (st_mdns_new_with_options opts poll client))) = listed af evs \<and>
   md_emitted (mdns_run af evs (st_mdns_new_with_options opts poll client)) =
     concat (map (\<lambda>k. announced af (take k evs) (evs ! k)) [0..<length evs])"
  using spec_listed [of af evs "[]"] spec_emitted_announced [of af evs "[]"] by (simp add: browser_run listed_Nil)

text \<open>A resolver is not stopped when its instance goes: an instance that disappears while it is
  being resolved is announced as removed first and as added afterwards, and stays in the list.\<close>

theorem late_resolution:
  "md_emitted (mdns_run af
      [EvBrowser True i p AVAHI_BROWSER_NEW n t d, EvBrowser True i p AVAHI_BROWSER_REMOVE n t d,
       EvResolved i p AVAHI_RESOLVER_FOUND n t d h a port] (st_mdns_new_with_options opts poll client))
     = [SgServiceRemoved n, SgServiceAdded (st_mdns_service_new n t h a port (af p) i)]"
  by (simp add: browser_run)

text \<open>\<open>service-removed\<close> carries the name alone: when the last instance of a name under one type
  goes, the name is announced as removed although it is still there under another type.\<close>

theorem removed_while_advertised:
  assumes "t \<noteq> t'"
  shows "let self = mdns_run af
      [EvResolved i p AVAHI_RESOLVER_FOUND n t d h a port, EvResolved i p AVAHI_RESOLVER_FOUND n t' d h a port,
       EvBrowser True i p AVAHI_BROWSER_REMOVE n t d] (st_mdns_new_with_options opts poll client) in
     md_services self = [st_mdns_service_new n t' h a port (af p) i] \<and> last (md_emitted self) = SgServiceRemoved n"
proof -
  let ?self = "mdns_run af
      [EvResolved i p AVAHI_RESOLVER_FOUND n t d h a port, EvResolved i p AVAHI_RESOLVER_FOUND n t' d h a port,
       EvBrowser True i p AVAHI_BROWSER_REMOVE n t d] (st_mdns_new_with_options opts poll client)"
  have "set (md_services ?self) = {st_mdns_service_new n t' h a port (af p) i}" "distinct (md_services ?self)"
    using assms by (auto simp: browser_run instance_of_def st_mdns_service_new_def)
  then have "md_services ?self = [st_mdns_service_new n t' h a port (af p) i]"
    by (rule distinct_one [rotated])
  moreover have "last (md_emitted ?self) = SgServiceRemoved n"
    using assms by (auto simp: browser_run st_mdns_service_new_def)
  ultimately show ?thesis by (simp add: Let_def)
qed

theorem removed_while_advertised_witness:
  "let self = mdns_run (\<lambda>p. p)
      [EvResolved 2 0 AVAHI_RESOLVER_FOUND ''ST:House'' ''_st._tcp'' ''local'' ''house'' ''10.0.0.7'' 8000,
       EvResolved 2 0 AVAHI_RESOLVER_FOUND ''ST:House'' ''_http._tcp'' ''local'' ''house'' ''10.0.0.7'' 8000,
       EvBrowser True 2 0 AVAHI_BROWSER_REMOVE ''ST:House'' ''_st._tcp'' ''local''] (st_mdns_new_with_options 0 True True) in
   length (md_services self) = 1 \<and> last (md_emitted self) = SgServiceRemoved ''ST:House''"
  using removed_while_advertised [of "''_st._tcp''" "''_http._tcp''" "\<lambda>p. p" 2 0 "''ST:House''" "''local''"
      "''house''" "''10.0.0.7''" 8000 0 True True]
  by (simp add: Let_def)

end
