(* ===== verification/Collector.thy ===== *)
theory Collector
  imports Stats CString
begin

text \<open>
  \<open>lib/process-stats-collector.c\<close> and \<open>lib/stats-collector.c\<close>: the collector that reads the counters
  of the own process from \<open>/proc\<close> once in an interval and turns them into the entries of a statistics object.
  The files are a parameter: their contents, or none when they cannot be opened; so are the
  monotonic clock and \<open>sysconf\<close>.
\<close>

section \<open>Reading numbers\<close>

type_synonym gulong = "64 word"
type_synonym glong = "64 word"

text \<open>
  The conversions of \<open>sscanf\<close>: \<open>%lu\<close> is \<open>strtoul\<close>; \<open>%ld\<close> is \<open>strtol\<close>, whose result is clamped to the
  range of \<open>long\<close> and kept here as a 64-bit word that is read signed. The result comes with what
  is left of the string; none when there is no digit.
\<close>

definition scan_lu :: "string \<Rightarrow> (gulong \<times> string) option" where
  "scan_lu s = (let (v, rest) = strtoul s in if rest = s then None else Some (v, rest))"

definition scan_ld :: "string \<Rightarrow> (glong \<times> string) option" where
  "scan_ld s =
     (let t = dropWhile is_space s;
          neg = (t \<noteq> [] \<and> hd t = CHR ''-'');
          u = (if t \<noteq> [] \<and> (hd t = CHR ''-'' \<or> hd t = CHR ''+'') then tl t else t);
          n = int (nat_of_digits (takeWhile is_digit u));
          i = (if neg then - n else n)
      in if takeWhile is_digit u = [] then None
         else Some (word_of_int (if i < - (2 ^ 63) then - (2 ^ 63) else if 2 ^ 63 - 1 < i then 2 ^ 63 - 1 else i),
                    dropWhile is_digit u))"

text \<open>\<open>fgets\<close> with a buffer of \<open>n\<close> bytes, and the lines a loop over it reads.\<close>

definition fgets :: "nat \<Rightarrow> string \<Rightarrow> string" where
  "fgets n s =
     (let l = takeWhile (\<lambda>c. c \<noteq> CHR 0x0A) s;
          l = (if length l < length s then l @ [CHR 0x0A] else l)
      in take (n - 1) l)"

lemma fgets_shorter: "s \<noteq> [] \<Longrightarrow> 2 \<le> n \<Longrightarrow> length (drop (length (fgets n s)) s) < length s"
  by (cases s) (auto simp: fgets_def Let_def)

function fgets_lines :: "nat \<Rightarrow> string \<Rightarrow> string list" where
  "fgets_lines n s =
     (if s = [] \<or> n < 2 then [] else fgets n s # fgets_lines n (drop (length (fgets n s)) s))"
  by pat_completeness auto
termination
  by (relation "measure (\<lambda>(n, s). length s)") (use fgets_shorter in auto)

declare fgets_lines.simps [simp del]

section \<open>\<open>/proc/self/stat\<close>\<close>

text \<open>The macro \<open>SKIP_FIELDS\<close>: blanks and then the characters up to the next blank, \<open>count\<close> times.\<close>

definition skip_field :: "string \<Rightarrow> string option" where
  "skip_field p =
     (let p = dropWhile (\<lambda>c. c = CHR '' '') p
      in if p = [] then None else Some (dropWhile (\<lambda>c. c \<noteq> CHR '' '') p))"

primrec skip_fields :: "nat \<Rightarrow> string \<Rightarrow> string option" where
  "skip_fields 0 p = Some p"
| "skip_fields (Suc n) p = (case skip_field p of None \<Rightarrow> None | Some p \<Rightarrow> skip_fields n p)"

record stat_out =
  so_utime :: gulong
  so_stime :: gulong
  so_priority :: glong
  so_threads :: glong
  so_nivcsw :: gulong

text \<open>What follows the last closing parenthesis, after the name of the program.\<close>

definition after_last_paren :: "string \<Rightarrow> string option" where
  "after_last_paren s =
     (if CHR '')'' \<in> set s then Some (rev (takeWhile (\<lambda>c. c \<noteq> CHR '')'') (rev s))) else None)"

text \<open>The results are written as they are read, also when a later one is missing.\<close>

definition read_proc_stat_process :: "string option \<Rightarrow> stat_out \<Rightarrow> bool \<times> stat_out" where
  "read_proc_stat_process stat_file out =
     (case stat_file of None \<Rightarrow> (False, out) | Some contents \<Rightarrow>
      if contents = [] then (False, out) else
      case after_last_paren (fgets 4096 contents) of None \<Rightarrow> (False, out) | Some p \<Rightarrow>
      (case skip_fields 11 p of None \<Rightarrow> (False, out) | Some p \<Rightarrow>
      (case scan_lu p of None \<Rightarrow> (False, out) | Some (utime, q) \<Rightarrow>
       let out = out\<lparr>so_utime := utime\<rparr> in
      (case scan_lu q of None \<Rightarrow> (False, out) | Some (stime, _) \<Rightarrow>
       let out = out\<lparr>so_stime := stime\<rparr> in
      (case skip_fields 2 p of None \<Rightarrow> (False, out) | Some p \<Rightarrow>
      (case Option.bind (scan_ld p) (\<lambda>(_, q). Option.bind (scan_ld q) (\<lambda>(_, q). scan_ld q)) of
         None \<Rightarrow> (False, out) | Some (prio, _) \<Rightarrow>
       let out = out\<lparr>so_priority := prio\<rparr> in
      (case skip_fields 3 p of None \<Rightarrow> (False, out) | Some p \<Rightarrow>
      (case Option.bind (scan_ld p) (\<lambda>(_, q). scan_ld q) of None \<Rightarrow> (False, out) | Some (nthreads, _) \<Rightarrow>
       let out = out\<lparr>so_threads := nthreads\<rparr> in
      (case Option.bind (skip_fields 2 p) (\<lambda>p. Option.bind (skip_fields 2 p) (skip_fields 19)) of
         None \<Rightarrow> (False, out) | Some p \<Rightarrow>
      (case scan_lu p of None \<Rightarrow> (False, out) | Some (nivcsw, _) \<Rightarrow>
       (True, out\<lparr>so_nivcsw := nivcsw\<rparr>)))))))))))"

section \<open>The collector\<close>

record process_collector =
  pc_utime_prev :: gulong
  pc_stime_prev :: gulong
  pc_nivcsw_prev :: gulong
  pc_monotonic_time_prev :: int
  pc_vmsize_current_kb :: gulong
  pc_vmrss_current_kb :: gulong
  pc_vmswap_current_kb :: gulong
  pc_rchar_prev :: gulong
  pc_wchar_prev :: gulong
  pc_priority_current :: glong
  pc_num_threads_current :: glong
  pc_clk_tck :: int

definition SAMPLING_INTERVAL_S :: f64 where "SAMPLING_INTERVAL_S = f64_of_int 5"

text \<open>\<open>sscanf (line, "<prefix> %lu kB", &x)\<close> for a line that begins with the prefix.\<close>

definition scan_line :: "string \<Rightarrow> string \<Rightarrow> gulong \<Rightarrow> gulong" where
  "scan_line prefix line x =
     (case scan_lu (drop (length prefix) line) of None \<Rightarrow> x | Some (v, _) \<Rightarrow> v)"

definition has_prefix :: "string \<Rightarrow> string \<Rightarrow> bool" where
  "has_prefix line prefix \<longleftrightarrow> take (length prefix) line = prefix"

definition status_line :: "string \<Rightarrow> process_collector \<Rightarrow> process_collector" where
  "status_line line st =
     (if has_prefix line ''VmSize:''
      then st\<lparr>pc_vmsize_current_kb := scan_line ''VmSize:'' line (pc_vmsize_current_kb st)\<rparr>
      else if has_prefix line ''VmRSS:''
      then st\<lparr>pc_vmrss_current_kb := scan_line ''VmRSS:'' line (pc_vmrss_current_kb st)\<rparr>
      else if has_prefix line ''VmSwap:''
      then st\<lparr>pc_vmswap_current_kb := scan_line ''VmSwap:'' line (pc_vmswap_current_kb st)\<rparr>
      else st)"

definition read_proc_status_memory :: "string option \<Rightarrow> process_collector \<Rightarrow> bool \<times> process_collector" where
  "read_proc_status_memory status_file st =
     (case status_file of None \<Rightarrow> (False, st) | Some contents \<Rightarrow>
        let st = fold status_line (fgets_lines 256 contents)
                   (st\<lparr>pc_vmsize_current_kb := 0, pc_vmrss_current_kb := 0, pc_vmswap_current_kb := 0\<rparr>)
        in (0 < pc_vmrss_current_kb st, st))"

text \<open>The two counters, and whether their lines were found.\<close>

definition io_line :: "string \<Rightarrow> (gulong \<times> bool) \<times> (gulong \<times> bool) \<Rightarrow> (gulong \<times> bool) \<times> (gulong \<times> bool)" where
  "io_line line io =
     (let ((r, rf), (w, wf)) = io in
      if has_prefix line ''rchar:'' then ((scan_line ''rchar:'' line r, True), (w, wf))
      else if has_prefix line ''wchar:'' then ((r, rf), (scan_line ''wchar:'' line w, True))
      else io)"

definition read_proc_io :: "string option \<Rightarrow> gulong \<times> gulong \<Rightarrow> bool \<times> gulong \<times> gulong" where
  "read_proc_io io_file out =
     (case io_file of None \<Rightarrow> (False, out) | Some contents \<Rightarrow>
        let ((r, rf), (w, wf)) = fold io_line (fgets_lines 256 contents) ((fst out, False), (snd out, False))
        in (rf \<and> wf, r, w))"

text \<open>What the environment shows at one moment.\<close>

record proc_view =
  pv_stat :: "string option"
  pv_status :: "string option"
  pv_io :: "string option"
  pv_monotonic :: int

definition init_monitoring :: "int \<Rightarrow> proc_view \<Rightarrow> process_collector \<Rightarrow> process_collector" where
  "init_monitoring sysconf_tck v st =
     (let st = st\<lparr>pc_clk_tck := (if sysconf_tck \<le> 0 then 100 else sysconf_tck)\<rparr>;
          (ok, out) = read_proc_stat_process (pv_stat v)
             \<lparr>so_utime = pc_utime_prev st, so_stime = pc_stime_prev st, so_priority = pc_priority_current st,
              so_threads = pc_num_threads_current st, so_nivcsw = 0\<rparr>;
          st = st\<lparr>pc_utime_prev := so_utime out, pc_stime_prev := so_stime out,
                  pc_priority_current := so_priority out, pc_num_threads_current := so_threads out,
                  pc_nivcsw_prev := so_nivcsw out, pc_monotonic_time_prev := pv_monotonic v\<rparr>;
          (ok, r, w) = read_proc_io (pv_io v) (pc_rchar_prev st, pc_wchar_prev st)
      in st\<lparr>pc_rchar_prev := r, pc_wchar_prev := w\<rparr>)"

definition st_process_stats_collector_init :: process_collector where
  "st_process_stats_collector_init =
     \<lparr>pc_utime_prev = 0, pc_stime_prev = 0, pc_nivcsw_prev = 0, pc_monotonic_time_prev = 0,
      pc_vmsize_current_kb = 0, pc_vmrss_current_kb = 0, pc_vmswap_current_kb = 0, pc_rchar_prev = 0,
      pc_wchar_prev = 0, pc_priority_current = 0, pc_num_threads_current = 0, pc_clk_tck = 0\<rparr>"

definition st_process_stats_collector_new :: "int \<Rightarrow> proc_view \<Rightarrow> process_collector" where
  "st_process_stats_collector_new sysconf_tck v = init_monitoring sysconf_tck v st_process_stats_collector_init"

text \<open>Conversion of the unsigned and the signed counters to \<open>double\<close>.\<close>

definition f64_of_ulong :: "gulong \<Rightarrow> f64" where "f64_of_ulong w = f64_of_int (uint w)"
definition f64_of_long :: "glong \<Rightarrow> f64" where "f64_of_long w = f64_of_int (sint w)"

definition calculate_cpu_usage :: "gulong \<Rightarrow> gulong \<Rightarrow> int \<Rightarrow> process_collector \<Rightarrow> f64 \<times> process_collector" where
  "calculate_cpu_usage utime_curr stime_curr monotonic_time_curr st =
     (let curr = utime_curr + stime_curr; prev = pc_utime_prev st + pc_stime_prev st
      in if curr < prev then (f64_zero, st)
         else
           let delta_time_us = monotonic_time_curr - pc_monotonic_time_prev st;
               elapsed = f64_mul (f64_div (f64_of_int delta_time_us) (f64_of_int 1000000)) (f64_of_int (pc_clk_tck st));
               cpu = (if 0 < delta_time_us \<and> f64_lt f64_zero elapsed
                      then f64_mul (f64_div (f64_of_ulong (curr - prev)) elapsed) (f64_of_int 100)
                      else f64_zero)
           in (cpu, st\<lparr>pc_utime_prev := utime_curr, pc_stime_prev := stime_curr\<rparr>))"

definition calculate_context_switch_rate :: "gulong \<Rightarrow> process_collector \<Rightarrow> f64 \<times> process_collector" where
  "calculate_context_switch_rate nivcsw_curr st =
     (if nivcsw_curr < pc_nivcsw_prev st then (f64_zero, st)
      else (f64_div (f64_of_ulong (nivcsw_curr - pc_nivcsw_prev st)) SAMPLING_INTERVAL_S,
            st\<lparr>pc_nivcsw_prev := nivcsw_curr\<rparr>))"

text \<open>
  \<open>update_callback\<close>: FALSE when \<open>/proc/self/stat\<close> cannot be read, after the memory was; else the
  statistics with every entry updated, and whether \<open>changed\<close> was emitted. The initial contents of
  the uninitialised variables are a parameter.
\<close>

definition kb_rate :: "gulong \<Rightarrow> f64" where
  "kb_rate delta = f64_div (f64_div (f64_of_ulong delta) (f64_of_int 1024)) SAMPLING_INTERVAL_S"

definition update_callback ::
  "stat_out \<Rightarrow> gulong \<times> gulong \<Rightarrow> proc_view \<Rightarrow> st_stats \<Rightarrow> process_collector
   \<Rightarrow> bool \<times> (st_stats \<times> bool) \<times> process_collector" where
  "update_callback junk junk_io v stats priv =
     (let (mem, priv) = read_proc_status_memory (pv_status v) priv;
          vs = (if mem then st_entry_update (vmsize stats) (f64_of_ulong (pc_vmsize_current_kb priv)) else vmsize stats);
          vr = (if mem then st_entry_update (vmrss stats) (f64_of_ulong (pc_vmrss_current_kb priv)) else vmrss stats);
          vw = (if mem then st_entry_update (vmswap stats) (f64_of_ulong (pc_vmswap_current_kb priv)) else vmswap stats);
          (ok, out) = read_proc_stat_process (pv_stat v) junk
      in if \<not> ok then (False, (stats, False), priv)
         else
           let (io, rchar_curr, wchar_curr) = read_proc_io (pv_io v) junk_io;
               ir = (if io then st_entry_update (io_read stats) (kb_rate (rchar_curr - pc_rchar_prev priv)) else io_read stats);
               iw = (if io then st_entry_update (io_write stats) (kb_rate (wchar_curr - pc_wchar_prev priv)) else io_write stats);
               priv = (if io then priv\<lparr>pc_rchar_prev := rchar_curr, pc_wchar_prev := wchar_curr\<rparr> else priv);
               pr = st_entry_update (priority stats) (f64_of_long (so_priority out));
               th = st_entry_update (threads stats) (f64_of_long (so_threads out));
               (rate, priv) = calculate_context_switch_rate (so_nivcsw out) priv;
               ic = st_entry_update (icswitch stats) rate;
               (usage, priv) = calculate_cpu_usage (so_utime out) (so_stime out) (pv_monotonic v) priv;
               cp = st_entry_update (cpu stats) usage;
               priv = priv\<lparr>pc_monotonic_time_prev := pv_monotonic v\<rparr>
           in (True,
               st_stats_set_full stats None (Some vs) (Some vr) (Some vw) (Some ir) (Some iw) (Some pr) (Some th)
                 (Some ic) (Some cp),
               priv))"

section \<open>Which fields are read\<close>

definition fields_text :: "string list \<Rightarrow> string" where
  "fields_text ws = concat (map (\<lambda>w. CHR '' '' # w) ws) @ [CHR 0x0A]"

definition is_word :: "string \<Rightarrow> bool" where
  "is_word w \<longleftrightarrow> w \<noteq> [] \<and> (\<forall>c\<in>set w. c \<noteq> CHR '' '' \<and> c \<noteq> CHR '')'' \<and> c \<noteq> CHR 0x0A)"

lemma fields_text_Cons: "fields_text (w # ws) = CHR '' '' # w @ fields_text ws"
  by (simp add: fields_text_def)

lemma fields_text_start: "\<exists>c s. fields_text ws = c # s \<and> \<not> is_digit c \<and> is_space c"
  by (cases ws) (simp_all add: fields_text_def is_digit_def is_space_def)

lemma dropWhile_word: "(\<forall>c\<in>set w. P c) \<Longrightarrow> \<not> P d \<Longrightarrow> dropWhile P (w @ d # s) = d # s"
  by (induction w) auto

lemma skip_field_text:
  assumes "is_word w" "ws \<noteq> []"
  shows "skip_field (fields_text (w # ws)) = Some (fields_text ws)"
proof -
  obtain v vs where ws: "ws = v # vs" using assms(2) by (cases ws) auto
  obtain c u where w: "w = c # u" using assms(1) by (cases w) (auto simp: is_word_def)
  have "dropWhile (\<lambda>c. c = CHR '' '') (fields_text (w # ws)) = w @ CHR '' '' # v @ fields_text vs"
    using assms(1) by (simp add: fields_text_Cons ws w is_word_def)
  moreover have "dropWhile (\<lambda>c. c \<noteq> CHR '' '') (w @ CHR '' '' # v @ fields_text vs) = CHR '' '' # v @ fields_text vs"
    by (rule dropWhile_word) (use assms(1) in \<open>auto simp: is_word_def\<close>)
  ultimately show ?thesis by (simp add: skip_field_def fields_text_Cons ws w Let_def)
qed

lemma skip_fields_text:
  "list_all is_word ws \<Longrightarrow> n < length ws \<Longrightarrow> skip_fields n (fields_text ws) = Some (fields_text (drop n ws))"
proof (induction n arbitrary: ws)
  case (Suc n)
  then obtain w vs where ws: "ws = w # vs" by (cases ws) auto
  with Suc.prems have "vs \<noteq> []" by auto
  with Suc ws show ?case by (simp add: skip_field_text)
qed simp

lemma fields_digits: "list_all is_digit s \<Longrightarrow> takeWhile is_digit (s @ fields_text ws) = s \<and>
    dropWhile is_digit (s @ fields_text ws) = fields_text ws"
  using fields_text_start [of ws] by (induction s) auto

lemma drop_blank: "\<not> is_space c \<Longrightarrow> dropWhile is_space (CHR '' '' # c # s) = c # s"
  by (simp add: is_space_def [of "CHR '' ''"])

lemma digit_plain: "is_digit c \<Longrightarrow> \<not> is_space c \<and> c \<noteq> CHR ''-'' \<and> c \<noteq> CHR ''+''"
  by (auto simp: is_digit_def is_space_def)

lemma show_nat_Cons: "\<exists>c s. show_nat n = c # s \<and> is_digit c"
  using show_nat_digits [of n] show_nat_nonempty [of n] by (cases "show_nat n") auto

lemma scan_lu_text:
  assumes "n < 2 ^ 64"
  shows "scan_lu (fields_text (show_nat n # ws)) = Some (of_nat n, fields_text ws)"
proof -
  obtain c s where s: "show_nat n = c # s" "is_digit c" using show_nat_Cons by blast
  note p = digit_plain [OF s(2)]
  have t: "dropWhile is_space (fields_text (show_nat n # ws)) = show_nat n @ fields_text ws"
    unfolding fields_text_Cons s(1) append.simps by (rule drop_blank) (use p in simp)
  have hd: "hd (show_nat n @ fields_text ws) = c" by (simp add: s(1))
  note d = fields_digits [OF show_nat_digits, of n ws]
  have "fields_text ws \<noteq> fields_text (show_nat n # ws)"
    by (rule notI, drule arg_cong [where f = length]) (simp add: fields_text_Cons)
  with t hd d p assms show ?thesis
    by (simp add: scan_lu_def strtoul_def Let_def nat_of_digits_show_nat)
qed

lemma scan_ld_text:
  assumes "- (2 ^ 63) \<le> i" "i < 2 ^ 63"
  shows "scan_ld (fields_text (show_int i # ws)) = Some (word_of_int i, fields_text ws)"
proof (cases "i < 0")
  case True
  obtain c s where s: "show_nat (nat (- i)) = c # s" "is_digit c" using show_nat_Cons by blast
  have t: "dropWhile is_space (fields_text (show_int i # ws)) = CHR ''-'' # show_nat (nat (- i)) @ fields_text ws"
    using True by (simp add: fields_text_Cons show_int_def is_space_def)
  note d = fields_digits [OF show_nat_digits, of "nat (- i)" ws]
  from True t d assms show ?thesis
    by (simp add: scan_ld_def Let_def nat_of_digits_show_nat)
next
  case False
  obtain c s where s: "show_nat (nat i) = c # s" "is_digit c" using show_nat_Cons by blast
  note p = digit_plain [OF s(2)]
  have t: "dropWhile is_space (fields_text (show_int i # ws)) = show_nat (nat i) @ fields_text ws"
    using False p unfolding fields_text_Cons show_int_def s(1) by (simp add: s(1) is_space_def [of "CHR '' ''"])
  have hd: "hd (show_nat (nat i) @ fields_text ws) = c" by (simp add: s(1))
  note d = fields_digits [OF show_nat_digits, of "nat i" ws]
  from False t hd d p assms show ?thesis
    by (simp add: scan_ld_def Let_def nat_of_digits_show_nat)
qed

lemma takeWhile_stop: "d \<notin> set s \<Longrightarrow> takeWhile (\<lambda>c. c \<noteq> d) (s @ d # t) = s"
  by (induction s) auto

lemma after_last_paren_text: "CHR '')'' \<notin> set t \<Longrightarrow> after_last_paren (s @ CHR '')'' # t) = Some t"
  by (simp add: after_last_paren_def takeWhile_stop)

lemma fgets_line: "CHR 0x0A \<notin> set s \<Longrightarrow> length s + 1 < n \<Longrightarrow> fgets n (s @ [CHR 0x0A]) = s @ [CHR 0x0A]"
  by (simp add: fgets_def Let_def takeWhile_stop)

text \<open>The collector reads the fields 14, 15, 18 and 20 of \<open>/proc/self/stat\<close>, user time, system time,
  priority and threads, whatever the name of the program is, parentheses and blanks included; and
  what it takes for the involuntary context switches is field 42, the time spent waiting for block
  devices.\<close>

theorem stat_fields_read:
  assumes line: "contents = pid @ '' ('' @ comm @ '')'' @ fields_text fs"
      "length contents \<le> 4095" "CHR 0x0A \<notin> set (pid @ comm)"
    and words: "list_all is_word fs" "40 \<le> length fs"
    and used: "fs ! 11 = show_nat u" "u < 2 ^ 64" "fs ! 12 = show_nat s" "s < 2 ^ 64"
      "\<forall>i\<in>{13, 14, 16}. \<exists>k. fs ! i = show_int k \<and> - (2 ^ 63) \<le> k \<and> k < 2 ^ 63"
      "fs ! 15 = show_int p" "- (2 ^ 63) \<le> p" "p < 2 ^ 63" "fs ! 17 = show_int t" "- (2 ^ 63) \<le> t" "t < 2 ^ 63"
      "fs ! 39 = show_nat d" "d < 2 ^ 64"
  shows "read_proc_stat_process (Some contents) out =
    (True, \<lparr>so_utime = of_nat u, so_stime = of_nat s, so_priority = word_of_int p,
       so_threads = word_of_int t, so_nivcsw = of_nat d\<rparr>)"
proof -
  have at: "fields_text (drop i fs) = fields_text (fs ! i # drop (Suc i) fs)" if "i < 40" for i
    using that words(2) by (simp add: Cons_nth_drop_Suc)
  have skip: "skip_fields n (fields_text (drop i fs)) = Some (fields_text (drop (i + n) fs))" if "i + n < 40" for n i
  proof -
    have "list_all is_word (drop i fs)" using words(1) by (auto simp: list_all_iff dest: in_set_dropD)
    moreover have "n < length (drop i fs)" using that words(2) by simp
    ultimately show ?thesis by (simp add: skip_fields_text add.commute)
  qed
  have int: "\<exists>k. scan_ld (fields_text (drop i fs)) = Some (k, fields_text (drop (Suc i) fs))" if "i \<in> {13, 14, 16}" for i
    using used(5) that scan_ld_text at [of i] by force
  obtain k13 k14 k16 where k:
    "scan_ld (fields_text (drop 13 fs)) = Some (k13, fields_text (drop 14 fs))"
    "scan_ld (fields_text (drop 14 fs)) = Some (k14, fields_text (drop 15 fs))"
    "scan_ld (fields_text (drop 16 fs)) = Some (k16, fields_text (drop 17 fs))"
    using int [of 13] int [of 14] int [of 16] by auto
  have num: "scan_lu (fields_text (drop 11 fs)) = Some (of_nat u, fields_text (drop 12 fs))"
    "scan_lu (fields_text (drop 12 fs)) = Some (of_nat s, fields_text (drop 13 fs))"
    "scan_lu (fields_text (drop 39 fs)) = Some (of_nat d, fields_text (drop 40 fs))"
    "scan_ld (fields_text (drop 15 fs)) = Some (word_of_int p, fields_text (drop 16 fs))"
    "scan_ld (fields_text (drop 17 fs)) = Some (word_of_int t, fields_text (drop 18 fs))"
    using at [of 11] at [of 12] at [of 39] at [of 15] at [of 17] used scan_lu_text [of u] scan_lu_text [of s]
      scan_lu_text [of d] scan_ld_text by simp_all
  have "CHR '')'' \<notin> set (fields_text fs)" "CHR 0x0A \<notin> set (concat (map (\<lambda>w. CHR '' '' # w) fs))"
    using words(1) by (auto simp: fields_text_def list_all_iff is_word_def)
  then have p: "after_last_paren (fgets 4096 contents) = Some (fields_text fs)"
    using fgets_line [of "pid @ '' ('' @ comm @ '')'' @ concat (map (\<lambda>w. CHR '' '' # w) fs)" 4096] line
      after_last_paren_text [of "fields_text fs" "pid @ '' ('' @ comm"]
    by (simp add: fields_text_def)
  have sk: "skip_fields 11 (fields_text fs) = Some (fields_text (drop 11 fs))"
    "skip_fields 2 (fields_text (drop 11 fs)) = Some (fields_text (drop 13 fs))"
    "skip_fields 3 (fields_text (drop 13 fs)) = Some (fields_text (drop 16 fs))"
    "skip_fields 2 (fields_text (drop 16 fs)) = Some (fields_text (drop 18 fs))"
    "skip_fields 2 (fields_text (drop 18 fs)) = Some (fields_text (drop 20 fs))"
    "skip_fields 19 (fields_text (drop 20 fs)) = Some (fields_text (drop 39 fs))"
    using skip [of 0 11] skip [of 11 2] skip [of 13 3] skip [of 16 2] skip [of 18 2] skip [of 20 19] by simp_all
  have "contents \<noteq> []" using line(1) by simp
  then show ?thesis
    by (simp add: read_proc_stat_process_def p sk num k del: skip_fields.simps)
qed


lemma stat_fields_read_witness:
  "read_proc_stat_process
     (Some (''1234'' @ '' ('' @ ''my (core) x'' @ '')'' @ fields_text (map show_nat [3..<55])))
     \<lparr>so_utime = 0, so_stime = 0, so_priority = 0, so_threads = 0, so_nivcsw = 0\<rparr> =
   (True, \<lparr>so_utime = 14, so_stime = 15, so_priority = 18, so_threads = 20, so_nivcsw = 42\<rparr>)"
proof -
  have w: "is_word (show_nat n)" for n
    using show_nat_digits [of n] show_nat_nonempty [of n]
    by (force simp: is_word_def list_all_iff is_digit_def)
  have i: "show_int (int n) = show_nat n" for n by (simp add: show_int_def)
  have w': "is_word (show_int (int n))" for n by (simp add: i w)
  have "\<forall>i\<in>{13, 14, 16}. \<exists>k. map show_nat [3..<55] ! i = show_int k \<and> - (2 ^ 63) \<le> k \<and> k < 2 ^ 63"
    by (auto simp: nth_append i [symmetric])
  moreover have "length (''1234'' @ '' ('' @ ''my (core) x'' @ '')'' @ fields_text (map show_nat [3..<55])) \<le> 4095"
    by code_simp
  ultimately show ?thesis
    using stat_fields_read [OF refl, of "''1234''" "''my (core) x''" "map show_nat [3..<55]" 14 15 18 20 42
        "\<lparr>so_utime = 0, so_stime = 0, so_priority = 0, so_threads = 0, so_nivcsw = 0\<rparr>"] w w' [of 18] w' [of 20]
    by (simp add: list_all_iff i [of 18, simplified, symmetric] i [of 20, simplified, symmetric])
qed

section \<open>The periodic update\<close>

text \<open>
  \<open>STStatsCollectorPrivate\<close>: the statistics object it updates, none before it is set; the
  interval; the number of the timeout source, 0 when there is none; and what the derived class
  keeps. The sources of the main loop are an association list from their number to the interval,
  and the number the next one gets, as \<open>g_timeout_add\<close> promises: positive and not in use.
\<close>

record stats_collector =
  sc_stats :: "st_stats option"
  sc_interval_ms :: nat
  sc_source_id :: nat
  sc_process :: process_collector

record timeouts =
  to_sources :: "(nat \<times> nat) list"
  to_next :: nat

definition g_timeout_add :: "nat \<Rightarrow> timeouts \<Rightarrow> nat \<times> timeouts" where
  "g_timeout_add interval w =
     (to_next w, w\<lparr>to_sources := (to_next w, interval) # to_sources w, to_next := to_next w + 1\<rparr>)"

definition g_source_remove :: "nat \<Rightarrow> timeouts \<Rightarrow> timeouts" where
  "g_source_remove n w = w\<lparr>to_sources := filter (\<lambda>(m, _). m \<noteq> n) (to_sources w)\<rparr>"

datatype collector_prop = PROP_STATS st_stats | PROP_INTERVAL nat

definition st_stats_collector_init :: "process_collector \<Rightarrow> stats_collector" where
  "st_stats_collector_init p = \<lparr>sc_stats = None, sc_interval_ms = 0, sc_source_id = 0, sc_process = p\<rparr>"

fun st_stats_collector_set_property ::
  "collector_prop \<Rightarrow> stats_collector \<times> timeouts \<Rightarrow> stats_collector \<times> timeouts" where
  "st_stats_collector_set_property (PROP_STATS s) (self, w) = (self\<lparr>sc_stats := Some s\<rparr>, w)"
| "st_stats_collector_set_property (PROP_INTERVAL ms) (self, w) =
     (let w = (if sc_source_id self \<noteq> 0 then g_source_remove (sc_source_id self) w else w);
          (n, w) = g_timeout_add ms w
      in (self\<lparr>sc_interval_ms := ms, sc_source_id := n\<rparr>, w))"

definition st_stats_collector_finalize :: "stats_collector \<times> timeouts \<Rightarrow> timeouts" where
  "st_stats_collector_finalize sw =
     (let (self, w) = sw in if 0 < sc_source_id self then g_source_remove (sc_source_id self) w else w)"

text \<open>
  The callback of the timeout for the process collector: whether \<open>changed\<close> was emitted, and always
  that the source stays. After a failed update the error, which is never set, is freed: GLib only
  warns of that.
\<close>

definition periodic_callback ::
  "stat_out \<Rightarrow> gulong \<times> gulong \<Rightarrow> proc_view \<Rightarrow> stats_collector \<Rightarrow> stats_collector \<times> bool" where
  "periodic_callback junk junk_io v self =
     (case sc_stats self of None \<Rightarrow> (self, False)
      | Some stats \<Rightarrow>
          let (_, (stats, chg), p) = update_callback junk junk_io v stats (sc_process self)
          in (self\<lparr>sc_stats := Some stats, sc_process := p\<rparr>, chg))"

text \<open>One timeout at most, the collector's own, with the interval set last.\<close>

definition one_timeout :: "stats_collector \<times> timeouts \<Rightarrow> bool" where
  "one_timeout sw \<longleftrightarrow>
     (let (self, w) = sw in 0 < to_next w \<and> (\<forall>(n, _)\<in>set (to_sources w). n < to_next w)
        \<and> sc_source_id self < to_next w
        \<and> to_sources w = (if sc_source_id self = 0 then [] else [(sc_source_id self, sc_interval_ms self)]))"

lemma set_property_one_timeout: "one_timeout sw \<Longrightarrow> one_timeout (st_stats_collector_set_property p sw)"
  by (cases sw; cases p) (auto simp: one_timeout_def g_timeout_add_def g_source_remove_def Let_def)

lemma finalize_no_timeout: "one_timeout sw \<Longrightarrow> to_sources (st_stats_collector_finalize sw) = []"
  by (cases sw) (auto simp: one_timeout_def st_stats_collector_finalize_def g_source_remove_def)

lemma set_full_rates:
  "io_read (fst (st_stats_set_full s None (Some vs) (Some vr) (Some vw) (Some ir) (Some iw) (Some pr) (Some th)
     (Some ic) (Some cp))) = ir"
  "io_write (fst (st_stats_set_full s None (Some vs) (Some vr) (Some vw) (Some ir) (Some iw) (Some pr) (Some th)
     (Some ic) (Some cp))) = iw"
  "icswitch (fst (st_stats_set_full s None (Some vs) (Some vr) (Some vw) (Some ir) (Some iw) (Some pr) (Some th)
     (Some ic) (Some cp))) = ic"
  by (simp_all add: st_stats_set_full_def full_step_def Let_def)

lemma memory_frame [simp]:
  "pc_rchar_prev (snd (read_proc_status_memory f p)) = pc_rchar_prev p"
  "pc_wchar_prev (snd (read_proc_status_memory f p)) = pc_wchar_prev p"
  "pc_nivcsw_prev (snd (read_proc_status_memory f p)) = pc_nivcsw_prev p"
proof -
  have "pc_rchar_prev (fold status_line ls q) = pc_rchar_prev q \<and> pc_wchar_prev (fold status_line ls q) = pc_wchar_prev q \<and>
      pc_nivcsw_prev (fold status_line ls q) = pc_nivcsw_prev q" for ls q
    by (induction ls arbitrary: q) (simp_all add: status_line_def)
  then show "pc_rchar_prev (snd (read_proc_status_memory f p)) = pc_rchar_prev p"
    "pc_wchar_prev (snd (read_proc_status_memory f p)) = pc_wchar_prev p"
    "pc_nivcsw_prev (snd (read_proc_status_memory f p)) = pc_nivcsw_prev p"
    by (simp_all add: read_proc_status_memory_def Let_def split: option.splits)
qed

lemma cpu_frame [simp]:
  "pc_rchar_prev (snd (calculate_cpu_usage u s m p)) = pc_rchar_prev p"
  "pc_wchar_prev (snd (calculate_cpu_usage u s m p)) = pc_wchar_prev p"
  by (simp_all add: calculate_cpu_usage_def Let_def)

text \<open>C34: Whatever interval the collector was created with, and however much time its clock says has
  passed, an update divides what was counted since the last one by five: the bytes read and the bytes written, in
  units of 1024, and the context switches, for which a counter that fell gives 0. So the rates per second are right only
  for an interval of five seconds. The counters of bytes that were read are those of the next update.\<close>

theorem rates_assume_five_seconds:
  assumes "sc_stats self = Some stats" "read_proc_stat_process (pv_stat v) junk = (True, out)"
    "read_proc_io (pv_io v) junk_io = (True, r, w)"
  shows "let p = sc_process self; self' = fst (periodic_callback junk junk_io v self) in
    \<exists>stats'. sc_stats self' = Some stats' \<and>
      se_last (io_read stats') = f64_div (f64_div (f64_of_ulong (r - pc_rchar_prev p)) (f64_of_int 1024)) (f64_of_int 5) \<and>
      se_last (io_write stats') = f64_div (f64_div (f64_of_ulong (w - pc_wchar_prev p)) (f64_of_int 1024)) (f64_of_int 5) \<and>
      se_last (icswitch stats') =
        (if so_nivcsw out < pc_nivcsw_prev p then f64_zero
         else f64_div (f64_of_ulong (so_nivcsw out - pc_nivcsw_prev p)) (f64_of_int 5)) \<and>
      pc_rchar_prev (sc_process self') = r \<and> pc_wchar_prev (sc_process self') = w"
proof -
  have last: "se_last (st_entry_update e x) = x" for e x
    by (simp add: st_entry_update_def Let_def)
  show ?thesis
    using assms
    by (simp add: periodic_callback_def update_callback_def Let_def split_beta last set_full_rates kb_rate_def
        calculate_context_switch_rate_def SAMPLING_INTERVAL_S_def)
qed

definition example_stat :: string where
  "example_stat = ''7 (core) S 1 1 1 0 -1 4 9 0 0 0 3 2 0 0 20 0 1 0 5 6 7 8 9 0 0 0 0 0 0 0 0 0 0 17 1 0 0 0 0 0''"

definition example_view :: proc_view where
  "example_view = \<lparr>pv_stat = Some example_stat, pv_status = None,
     pv_io = Some (''rchar: 51200'' @ [CHR 0x0A] @ ''wchar: 102400'' @ [CHR 0x0A]), pv_monotonic = 1000000\<rparr>"

definition example_collector :: stats_collector where
  "example_collector = fst (st_stats_collector_set_property (PROP_STATS (st_stats_new ''c''))
     (st_stats_collector_set_property (PROP_INTERVAL 1000)
        (st_stats_collector_init st_process_stats_collector_init, \<lparr>to_sources = [], to_next = 1\<rparr>)))"

theorem rates_assume_five_seconds_witness:
  "\<exists>stats'. sc_stats (fst (periodic_callback
        \<lparr>so_utime = 0, so_stime = 0, so_priority = 0, so_threads = 0, so_nivcsw = 0\<rparr> (0, 0)
        example_view example_collector)) = Some stats'
    \<and> se_last (io_read stats') = f64_of_int 10 \<and> se_last (io_write stats') = f64_of_int 20"
proof -
  let ?junk = "\<lparr>so_utime = 0, so_stime = 0, so_priority = 0, so_threads = 0, so_nivcsw = 0\<rparr>"
  have s: "sc_stats example_collector = Some (st_stats_new ''c'')"
    and p: "pc_rchar_prev (sc_process example_collector) = 0" "pc_wchar_prev (sc_process example_collector) = 0"
    by (simp_all add: example_collector_def st_stats_collector_init_def g_timeout_add_def
        st_process_stats_collector_init_def)
  have "fst (read_proc_stat_process (pv_stat example_view) ?junk)" by code_simp
  then obtain out where st: "read_proc_stat_process (pv_stat example_view) ?junk = (True, out)"
    by (cases "read_proc_stat_process (pv_stat example_view) ?junk") simp
  have io: "read_proc_io (pv_io example_view) (0, 0) = (True, 51200, 102400)" by code_simp
  have "f64_div (f64_div (f64_of_ulong 51200) (f64_of_int 1024)) (f64_of_int 5) = f64_of_int 10"
    "f64_div (f64_div (f64_of_ulong 102400) (f64_of_int 1024)) (f64_of_int 5) = f64_of_int 20" by code_simp+
  with rates_assume_five_seconds [OF s st io] show ?thesis by (auto simp: p Let_def)
qed

end
