(* ===== verification/RulesTables.thy ===== *)
theory RulesTables
  imports Prelude
begin

text \<open>
  The tables of the parser of the rules language, as they stand in \<open>src/rules.c\<close>, which \<open>bison\<close>
  generated from \<open>src/rules.y\<close>: 86 states, 40 rules, 31 terminals and 13 nonterminals. Symbols
  are numbered as in \<open>yysymbol_kind_t\<close>; the terminals are first.
\<close>

section \<open>Symbols\<close>

text \<open>The codes of the tokens, \<open>yytokentype\<close>; a token of one character has its code.\<close>

definition YYEMPTY :: int where "YYEMPTY = - 2"
definition YYEOF :: int where "YYEOF = 0"
definition YYerror :: int where "YYerror = 256"
definition YYUNDEF :: int where "YYUNDEF = 257"
definition T_EQ :: int where "T_EQ = 258"
definition T_NE :: int where "T_NE = 259"
definition T_LT :: int where "T_LT = 260"
definition T_LE :: int where "T_LE = 261"
definition T_GT :: int where "T_GT = 262"
definition T_GE :: int where "T_GE = 263"
definition T_AND :: int where "T_AND = 264"
definition T_OR :: int where "T_OR = 265"
definition T_KEY_VAR :: int where "T_KEY_VAR = 266"
definition T_KEY_SET :: int where "T_KEY_SET = 267"
definition T_KEY_WHEN :: int where "T_KEY_WHEN = 268"
definition T_KEY_TRIGGER :: int where "T_KEY_TRIGGER = 269"
definition T_KEY_FLAG :: int where "T_KEY_FLAG = 270"
definition VALUE :: int where "VALUE = 271"
definition IDENTIFIER :: int where "IDENTIFIER = 272"
definition T_FLAG_NAME :: int where "T_FLAG_NAME = 273"

lemmas token_codes = YYEMPTY_def YYEOF_def YYerror_def YYUNDEF_def T_EQ_def T_NE_def T_LT_def T_LE_def T_GT_def
  T_GE_def T_AND_def T_OR_def T_KEY_VAR_def T_KEY_SET_def T_KEY_WHEN_def T_KEY_TRIGGER_def T_KEY_FLAG_def
  VALUE_def IDENTIFIER_def T_FLAG_NAME_def

section \<open>Sizes\<close>

definition YYFINAL :: nat where "YYFINAL = 14"
definition YYLAST :: int where "YYLAST = 194"
definition YYNTOKENS :: nat where "YYNTOKENS = 31"
definition YYMAXUTOK :: int where "YYMAXUTOK = 274"
definition YYMAXDEPTH :: nat where "YYMAXDEPTH = 10000"
definition YYPACT_NINF :: int where "YYPACT_NINF = - 25"

lemmas yy_sizes = YYFINAL_def YYLAST_def YYNTOKENS_def YYMAXUTOK_def YYPACT_NINF_def

section \<open>Tables\<close>

text \<open>The symbol of a token code.\<close>

definition yytranslate :: "nat list" where
  "yytranslate =
    [0, 2, 2, 2, 2, 2, 2, 2, 2, 2, 2, 2, 2, 2, 2, 2, 2, 2, 2, 2, 2, 2, 2, 2, 2, 2, 2, 2, 2, 2, 2,
     2, 2, 2, 2, 2, 2, 2, 2, 2, 29, 30, 21, 19, 27, 20, 2, 22, 2, 2, 2, 2, 2, 2, 2, 2, 2, 2, 2,
     26, 2, 28, 2, 2, 2, 2, 2, 2, 2, 2, 2, 2, 2, 2, 2, 2, 2, 2, 2, 2, 2, 2, 2, 2, 2, 2, 2, 2, 2,
     2, 2, 2, 2, 2, 2, 2, 2, 2, 2, 2, 2, 2, 2, 2, 2, 2, 2, 2, 2, 2, 2, 2, 2, 2, 2, 2, 2, 2, 2, 2,
     2, 2, 2, 24, 2, 25, 2, 2, 2, 2, 2, 2, 2, 2, 2, 2, 2, 2, 2, 2, 2, 2, 2, 2, 2, 2, 2, 2, 2, 2,
     2, 2, 2, 2, 2, 2, 2, 2, 2, 2, 2, 2, 2, 2, 2, 2, 2, 2, 2, 2, 2, 2, 2, 2, 2, 2, 2, 2, 2, 2, 2,
     2, 2, 2, 2, 2, 2, 2, 2, 2, 2, 2, 2, 2, 2, 2, 2, 2, 2, 2, 2, 2, 2, 2, 2, 2, 2, 2, 2, 2, 2, 2,
     2, 2, 2, 2, 2, 2, 2, 2, 2, 2, 2, 2, 2, 2, 2, 2, 2, 2, 2, 2, 2, 2, 2, 2, 2, 2, 2, 2, 2, 2, 2,
     2, 2, 2, 2, 2, 2, 2, 2, 2, 2, 2, 2, 2, 1, 2, 3, 4, 5, 6, 7, 8, 9, 10, 11, 12, 13, 14, 15, 16,
     17, 18, 23]"

text \<open>The offset of a state in \<open>yytable\<close>.\<close>

definition yypact :: "int list" where
  "yypact =
    [57, - 11, - 3, - 13, 46, 57, - 25, - 25, - 25, - 25, 44, 23, 33, 61, - 25, - 25, - 25, 23,
     - 25, - 6, 23, 23, 104, 45, 23, 16, - 25, 56, 62, 23, - 25, 28, 23, 23, 23, 23, 23, 23, 23,
     23, 64, 23, 23, 23, 23, 61, 124, - 25, - 25, - 25, - 25, 144, - 22, - 25, 162, 162, 72, 72,
     72, 72, 152, 172, 14, 29, - 25, - 8, - 8, - 25, - 25, 18, 23, 23, - 25, 77, 23, - 25, 64, - 25,
     80, 144, 51, 144, - 25, - 25, 23, 144]"

text \<open>The rule a state reduces by when \<open>yytable\<close> does not say, zero for an error.\<close>

definition yydefact :: "nat list" where
  "yydefact =
    [0, 0, 0, 0, 0, 2, 3, 5, 6, 7, 0, 0, 0, 0, 1, 4, 18, 0, 20, 21, 0, 0, 0, 0, 0, 0, 10, 0, 0,
     38, 36, 0, 0, 0, 0, 0, 0, 0, 0, 0, 0, 0, 0, 0, 0, 0, 0, 8, 11, 19, 22, 39, 0, 35, 23, 24, 25,
     26, 27, 28, 29, 30, 0, 0, 14, 31, 32, 33, 34, 0, 0, 0, 37, 0, 0, 13, 0, 9, 0, 40, 0, 16, 15,
     12, 0, 17]"

text \<open>The offset of a nonterminal in \<open>yytable\<close>.\<close>

definition yypgoto :: "int list" where
  "yypgoto =
    [- 25, - 25, - 25, 91, - 25, 52, - 24, - 25, - 25, 22, - 25, - 17, - 25]"

text \<open>The state a nonterminal leads to when \<open>yytable\<close> does not say.\<close>

definition yydefgoto :: "nat list" where
  "yydefgoto =
    [0, 4, 5, 6, 7, 25, 26, 8, 63, 64, 9, 22, 52]"

text \<open>States to shift to; \<open>yycheck\<close> holds the symbol or the state an entry is for.\<close>

definition yytable :: "nat list" where
  "yytable =
    [27, 48, 12, 30, 31, 71, 10, 46, 72, 28, 11, 13, 51, 43, 44, 54, 55, 56, 57, 58, 59, 60, 61,
     29, 65, 66, 67, 68, 24, 73, 24, 32, 33, 34, 35, 36, 37, 38, 39, 18, 19, 47, 74, 77, 20, 48,
     14, 41, 42, 43, 44, 23, 21, 78, 79, 75, 76, 81, 53, 32, 33, 34, 35, 36, 37, 38, 39, 85, 1,
     45, 16, 2, 17, 24, 3, 41, 42, 43, 44, 84, 50, 62, 49, 32, 33, 34, 35, 36, 37, 38, 39, 41, 42,
     43, 44, 80, 15, 69, 82, 41, 42, 43, 44, 0, 0, 0, 83, 32, 33, 34, 35, 36, 37, 38, 39, 0, 40,
     0, 0, 0, 0, 0, 0, 41, 42, 43, 44, 32, 33, 34, 35, 36, 37, 38, 39, 0, 0, 70, 0, 0, 0, 0, 0,
     41, 42, 43, 44, 32, 33, 34, 35, 36, 37, 38, 39, 32, 33, 34, 35, 36, 37, 0, 39, 41, 42, 43,
     44, 34, 35, 36, 37, 41, 42, 43, 44, 32, 33, 34, 35, 36, 37, 41, 42, 43, 44, 0, 0, 0, 0, 0,
     0, 41, 42, 43, 44]"

definition yycheck :: "int list" where
  "yycheck =
    [17, 25, 15, 20, 21, 27, 17, 24, 30, 15, 13, 24, 29, 21, 22, 32, 33, 34, 35, 36, 37, 38, 39,
     29, 41, 42, 43, 44, 12, 15, 12, 3, 4, 5, 6, 7, 8, 9, 10, 16, 17, 25, 28, 25, 21, 69, 0, 19,
     20, 21, 22, 18, 29, 70, 71, 26, 27, 74, 30, 3, 4, 5, 6, 7, 8, 9, 10, 84, 11, 24, 26, 14, 28,
     12, 17, 19, 20, 21, 22, 28, 18, 17, 26, 3, 4, 5, 6, 7, 8, 9, 10, 19, 20, 21, 22, 18, 5, 45,
     76, 19, 20, 21, 22, - 1, - 1, - 1, 26, 3, 4, 5, 6, 7, 8, 9, 10, - 1, 12, - 1, - 1, - 1, - 1,
     - 1, - 1, 19, 20, 21, 22, 3, 4, 5, 6, 7, 8, 9, 10, - 1, - 1, 13, - 1, - 1, - 1, - 1, - 1, 19,
     20, 21, 22, 3, 4, 5, 6, 7, 8, 9, 10, 3, 4, 5, 6, 7, 8, - 1, 10, 19, 20, 21, 22, 5, 6, 7, 8,
     19, 20, 21, 22, 3, 4, 5, 6, 7, 8, 19, 20, 21, 22, - 1, - 1, - 1, - 1, - 1, - 1, 19, 20, 21,
     22]"

text \<open>The symbol a state is entered with.\<close>

definition yystos :: "nat list" where
  "yystos =
    [0, 11, 14, 17, 32, 33, 34, 35, 38, 41, 17, 13, 15, 24, 0, 34, 26, 28, 16, 17, 21, 29, 42, 18,
     12, 36, 37, 42, 15, 29, 42, 42, 3, 4, 5, 6, 7, 8, 9, 10, 12, 19, 20, 21, 22, 24, 42, 25, 37,
     26, 18, 42, 43, 30, 42, 42, 42, 42, 42, 42, 42, 42, 17, 39, 40, 42, 42, 42, 42, 36, 13, 27,
     30, 15, 28, 26, 27, 25, 42, 42, 18, 42, 40, 26, 28, 42]"

text \<open>The left-hand side of a rule and the length of its right-hand side.\<close>

definition yyr1 :: "nat list" where
  "yyr1 =
    [0, 31, 32, 33, 33, 34, 34, 34, 35, 35, 36, 36, 37, 38, 39, 39, 40, 40, 41, 41, 42, 42, 42,
     42, 42, 42, 42, 42, 42, 42, 42, 42, 42, 42, 42, 42, 42, 42, 43, 43, 43]"

definition yyr2 :: "nat list" where
  "yyr2 =
    [0, 2, 1, 1, 2, 1, 1, 1, 4, 6, 1, 2, 5, 6, 1, 3, 3, 5, 3, 5, 1, 1, 3, 3, 3, 3, 3, 3, 3, 3, 3,
     3, 3, 3, 3, 3, 2, 4, 0, 1, 3]"

end
