(* ===== verification/Parser.thy ===== *)
theory Parser
  imports Engine RulesTables
begin

text \<open>
  The parser of the rules language, \<open>yyparse\<close> in \<open>src/rules.c\<close>: a stack of states with their
  semantic values, a lookahead token, and the actions of \<open>src/rules.y\<close>, which build the nodes, the
  label blocks, the triggers and the variables of the engine. The scanner is a parameter.
\<close>

section \<open>Values\<close>

text \<open>
  \<open>YYSTYPE\<close> is a union; the constructors are its members. Reading a value through another member
  than the one it was written through is undefined behaviour, and so is reading \<open>YyGarbage\<close>, a slot
  that was never written or a pointer to freed memory.
\<close>

datatype yystype =
    YyDval f64
  | YySval string
  | YyUval guint64
  | YyExpr addr
  | YyAss assign
  | YyTrigger trigger
  | YyEntry label_entry
  | YyBlock label_block
  | YyExprs "addr list"
  | YyEntries "label_entry list"
  | YyAsses "assign list"
  | YyGarbage

definition dval :: "yystype \<Rightarrow> f64 res" where "dval v = (case v of YyDval x \<Rightarrow> Ret x | _ \<Rightarrow> Ub)"
definition sval :: "yystype \<Rightarrow> string res" where "sval v = (case v of YySval x \<Rightarrow> Ret x | _ \<Rightarrow> Ub)"
definition uval :: "yystype \<Rightarrow> guint64 res" where "uval v = (case v of YyUval x \<Rightarrow> Ret x | _ \<Rightarrow> Ub)"
definition expr_ptr :: "yystype \<Rightarrow> addr res" where "expr_ptr v = (case v of YyExpr x \<Rightarrow> Ret x | _ \<Rightarrow> Ub)"
definition ass_ptr :: "yystype \<Rightarrow> assign res" where "ass_ptr v = (case v of YyAss x \<Rightarrow> Ret x | _ \<Rightarrow> Ub)"
definition trigger_ptr :: "yystype \<Rightarrow> trigger res" where
  "trigger_ptr v = (case v of YyTrigger x \<Rightarrow> Ret x | _ \<Rightarrow> Ub)"
definition label_entry_ptr :: "yystype \<Rightarrow> label_entry res" where
  "label_entry_ptr v = (case v of YyEntry x \<Rightarrow> Ret x | _ \<Rightarrow> Ub)"
definition label_block_ptr :: "yystype \<Rightarrow> label_block res" where
  "label_block_ptr v = (case v of YyBlock x \<Rightarrow> Ret x | _ \<Rightarrow> Ub)"

text \<open>The member \<open>ptr_array\<close>, whose elements the code casts to what the rule expects.\<close>

definition expr_array :: "yystype \<Rightarrow> addr list res" where "expr_array v = (case v of YyExprs x \<Rightarrow> Ret x | _ \<Rightarrow> Ub)"
definition entry_array :: "yystype \<Rightarrow> label_entry list res" where
  "entry_array v = (case v of YyEntries x \<Rightarrow> Ret x | _ \<Rightarrow> Ub)"
definition ass_array :: "yystype \<Rightarrow> assign list res" where "ass_array v = (case v of YyAsses x \<Rightarrow> Ret x | _ \<Rightarrow> Ub)"

lemmas yymember_defs = dval_def sval_def uval_def expr_ptr_def ass_ptr_def trigger_ptr_def label_entry_ptr_def
  label_block_ptr_def expr_array_def entry_array_def ass_array_def

section \<open>What the actions change\<close>

text \<open>
  The fields of the engine, the heap of the nodes and the messages of \<open>yyerror\<close>. A syntax error is
  recorded with the state and the symbol from which \<open>yysyntax_error\<close> makes its text.
  \<open>ru_replaced\<close> are the variables that a second declaration of their name destroyed:
  \<open>st_var_finalize\<close> leaves their expression alone, with its reference.
\<close>

datatype yymessage = SyntaxError nat int | Message string

record rules =
  ru_labels :: "label_block list"
  ru_triggers :: "trigger list"
  ru_vars :: var_table
  ru_heap :: expr_heap
  ru_messages :: "yymessage list"
  ru_replaced :: "st_var list"

definition engine_new :: rules where
  "engine_new = \<lparr>ru_labels = [], ru_triggers = [], ru_vars = gh_new, ru_heap = heap_empty, ru_messages = [],
     ru_replaced = []\<rparr>"

definition yyerror :: "yymessage \<Rightarrow> rules \<Rightarrow> rules" where
  "yyerror m R = R\<lparr>ru_messages := ru_messages R @ [m]\<rparr>"

definition set_heap :: "rules \<Rightarrow> expr_heap \<Rightarrow> rules" where
  "set_heap R h = R\<lparr>ru_heap := h\<rparr>"

definition unref :: "nat \<Rightarrow> addr \<Rightarrow> rules \<Rightarrow> rules res" where
  "unref k a R = rbind (expr_unref k a (ru_heap R)) (\<lambda>h. Ret (set_heap R h))"

section \<open>The actions\<close>

text \<open>
  Each takes the stack of values, whose top is \<open>yyvsp[0]\<close>, and returns \<open>yyval\<close>. \<open>k\<close> is the stack
  left for \<open>expr_unref\<close>.
\<close>

definition yyvsp :: "yystype list \<Rightarrow> nat \<Rightarrow> yystype res" where "yyvsp vs i = pdata vs i"

definition action_instruction :: "nat \<Rightarrow> yystype list \<Rightarrow> yystype \<Rightarrow> rules \<Rightarrow> (yystype \<times> rules) res" where
  "action_instruction r vs yyval R =
     (if r = 5 then
        rbind (rbind (yyvsp vs 0) label_block_ptr) (\<lambda>b. Ret (yyval, R\<lparr>ru_labels := ru_labels R @ [b]\<rparr>))
      else if r = 6 then
        rbind (rbind (yyvsp vs 0) trigger_ptr) (\<lambda>t. Ret (yyval, R\<lparr>ru_triggers := ru_triggers R @ [t]\<rparr>))
      else Ret (yyval, R))"

definition retarget :: "string \<Rightarrow> guint64 \<Rightarrow> label_entry \<Rightarrow> label_entry" where
  "retarget ident fb e = e\<lparr>le_ass := (le_ass e)\<lparr>as_id := ident, as_flag_bit := fb\<rparr>\<rparr>"

definition action_label_block :: "nat \<Rightarrow> yystype list \<Rightarrow> rules \<Rightarrow> (yystype \<times> rules) res" where
  "action_label_block r vs R =
     (if r = 8 then
        rbind (rbind (yyvsp vs 1) entry_array) (\<lambda>es.
        rbind (rbind (yyvsp vs 3) sval) (\<lambda>s. Ret (YyBlock (map (retarget s 0) es), R)))
      else
        rbind (rbind (yyvsp vs 1) entry_array) (\<lambda>es.
        rbind (rbind (yyvsp vs 5) sval) (\<lambda>s.
        rbind (rbind (yyvsp vs 3) uval) (\<lambda>fb. Ret (YyBlock (map (retarget s fb) es), R)))))"

definition action_label_entries :: "nat \<Rightarrow> yystype list \<Rightarrow> rules \<Rightarrow> (yystype \<times> rules) res" where
  "action_label_entries r vs R =
     (if r = 10 then rbind (rbind (yyvsp vs 0) label_entry_ptr) (\<lambda>e. Ret (YyEntries [e], R))
      else
        rbind (rbind (yyvsp vs 1) entry_array) (\<lambda>es.
        rbind (rbind (yyvsp vs 0) label_entry_ptr) (\<lambda>e. Ret (YyEntries (es @ [e]), R))))"

definition action_label_entry :: "nat \<Rightarrow> yystype list \<Rightarrow> rules \<Rightarrow> (yystype \<times> rules) res" where
  "action_label_entry k vs R =
     rbind (rbind (yyvsp vs 3) expr_ptr) (\<lambda>rval.
     rbind (rbind (yyvsp vs 1) expr_ptr) (\<lambda>cond.
     rbind (assign_new '''' rval (ru_heap R)) (\<lambda>(a, h).
     rbind (label_entry_new cond a h) (\<lambda>(e, h).
     rbind (unref k rval (set_heap R h)) (\<lambda>R.
     rbind (unref k cond R) (\<lambda>R. Ret (YyEntry e, R)))))))"

definition action_trigger :: "nat \<Rightarrow> yystype list \<Rightarrow> rules \<Rightarrow> (yystype \<times> rules) res" where
  "action_trigger k vs R =
     rbind (rbind (yyvsp vs 3) expr_ptr) (\<lambda>cond.
     rbind (rbind (yyvsp vs 1) ass_array) (\<lambda>as.
     rbind (trigger_new cond as (ru_heap R)) (\<lambda>(t, h).
     rbind (unref k cond (set_heap R h)) (\<lambda>R. Ret (YyTrigger t, R)))))"

definition action_assignment_list :: "nat \<Rightarrow> yystype list \<Rightarrow> yystype \<Rightarrow> rules \<Rightarrow> (yystype \<times> rules) res" where
  "action_assignment_list r vs yyval R =
     (if r = 14 then rbind (rbind (yyvsp vs 0) ass_ptr) (\<lambda>a. Ret (YyAsses [a], R))
      else
        rbind (ass_array yyval) (\<lambda>as.
        rbind (rbind (yyvsp vs 0) ass_ptr) (\<lambda>a. Ret (YyAsses (as @ [a]), R))))"

definition action_assignment :: "nat \<Rightarrow> nat \<Rightarrow> yystype list \<Rightarrow> rules \<Rightarrow> (yystype \<times> rules) res" where
  "action_assignment k r vs R =
     (if r = 16 then
        rbind (rbind (yyvsp vs 2) sval) (\<lambda>s.
        rbind (rbind (yyvsp vs 0) expr_ptr) (\<lambda>e.
        rbind (assign_new s e (ru_heap R)) (\<lambda>(a, h).
        rbind (unref k e (set_heap R h)) (\<lambda>R. Ret (YyAss a, R)))))
      else
        rbind (rbind (yyvsp vs 4) sval) (\<lambda>s.
        rbind (rbind (yyvsp vs 2) uval) (\<lambda>fb.
        rbind (rbind (yyvsp vs 0) expr_ptr) (\<lambda>e.
        rbind (assign_new_flag s fb e (ru_heap R)) (\<lambda>(a, h).
        rbind (unref k e (set_heap R h)) (\<lambda>R. Ret (YyAss a, R)))))))"

text \<open>\<open>g_hash_table_insert\<close> of a variable: the one it replaces is destroyed.\<close>

definition insert_var :: "string \<Rightarrow> st_var \<Rightarrow> rules \<Rightarrow> rules" where
  "insert_var s v R = R\<lparr>ru_vars := gh_insert (ru_vars R) s v,
     ru_replaced := ru_replaced R @ (case gh_lookup (ru_vars R) s of None \<Rightarrow> [] | Some old \<Rightarrow> [old])\<rparr>"

definition action_declaration :: "nat \<Rightarrow> nat \<Rightarrow> yystype list \<Rightarrow> yystype \<Rightarrow> rules \<Rightarrow> (yystype \<times> rules) res" where
  "action_declaration k r vs yyval R =
     (if r = 18 then
        let (v, h) = expr_new_literal f64_zero (ru_heap R)
        in rbind (rbind (yyvsp vs 1) sval) (\<lambda>s.
           rbind (st_var_new s v h) (\<lambda>(var, h).
           rbind (unref k v (insert_var s var (set_heap R h))) (\<lambda>R. Ret (yyval, R))))
      else
        rbind (rbind (yyvsp vs 3) sval) (\<lambda>s.
        rbind (rbind (yyvsp vs 1) expr_ptr) (\<lambda>e.
        rbind (st_var_new s e (ru_heap R)) (\<lambda>(var, h).
        rbind (unref k e (insert_var s var (set_heap R h))) (\<lambda>R. Ret (yyval, R))))))"

definition action_leaf :: "nat \<Rightarrow> yystype list \<Rightarrow> rules \<Rightarrow> (yystype \<times> rules) res" where
  "action_leaf r vs R =
     (if r = 20 then
        rbind (rbind (yyvsp vs 0) dval) (\<lambda>d.
          let (a, h) = expr_new_literal d (ru_heap R) in Ret (YyExpr a, set_heap R h))
      else if r = 21 then
        rbind (rbind (yyvsp vs 0) sval) (\<lambda>s.
          let (a, h) = expr_new_ref s (ru_heap R) in Ret (YyExpr a, set_heap R h))
      else
        rbind (rbind (yyvsp vs 2) sval) (\<lambda>s.
        rbind (rbind (yyvsp vs 0) uval) (\<lambda>fb.
          let (a, h) = expr_new_flag s fb (ru_heap R) in Ret (YyExpr a, set_heap R h))))"

text \<open>The operator of the rules 23 to 34.\<close>

definition op_of_rule :: "nat \<Rightarrow> string" where
  "op_of_rule r =
     (if r = 23 then ''=='' else if r = 24 then ''!='' else if r = 25 then ''<'' else if r = 26 then ''<=''
      else if r = 27 then ''>'' else if r = 28 then ''>='' else if r = 29 then ''&&'' else if r = 30 then ''||''
      else if r = 31 then ''+'' else if r = 32 then ''-'' else if r = 33 then ''*'' else ''/'')"

definition new_op :: "nat \<Rightarrow> string \<Rightarrow> addr \<Rightarrow> addr \<Rightarrow> rules \<Rightarrow> (yystype \<times> rules) res" where
  "new_op k op a b R =
     rbind (expr_new_op op a b (ru_heap R)) (\<lambda>(e, h).
     rbind (unref k a (set_heap R h)) (\<lambda>R.
     rbind (unref k b R) (\<lambda>R. Ret (YyExpr e, R))))"

definition action_op :: "nat \<Rightarrow> nat \<Rightarrow> yystype list \<Rightarrow> rules \<Rightarrow> (yystype \<times> rules) res" where
  "action_op k r vs R =
     rbind (rbind (yyvsp vs 2) expr_ptr) (\<lambda>a.
     rbind (rbind (yyvsp vs 0) expr_ptr) (\<lambda>b. new_op k (op_of_rule r) a b R))"

definition action_paren :: "nat \<Rightarrow> nat \<Rightarrow> yystype list \<Rightarrow> rules \<Rightarrow> (yystype \<times> rules) res" where
  "action_paren k r vs R =
     (if r = 35 then rbind (rbind (yyvsp vs 1) expr_ptr) (\<lambda>e. Ret (YyExpr e, R))
      else
        let (le, h) = expr_new_literal (f64_of_int (- 1)) (ru_heap R)
        in rbind (rbind (yyvsp vs 0) expr_ptr) (\<lambda>e. new_op k ''*'' le e (set_heap R h)))"

text \<open>
  A call. A wrong number of arguments is only reported. For an unknown function \<open>yyval\<close> keeps its
  default \<open>$1\<close>, the name, which is freed at the end: the value of the expression is then a
  dangling pointer.
\<close>

definition check_args :: "bool \<Rightarrow> string \<Rightarrow> rules \<Rightarrow> rules" where
  "check_args ok f R = (if ok then R else yyerror (Message (''wrong number of arguments for '' @ f)) R)"

definition action_call :: "yystype list \<Rightarrow> rules \<Rightarrow> (yystype \<times> rules) res" where
  "action_call vs R =
     rbind (rbind (yyvsp vs 3) sval) (\<lambda>f.
       let node = (\<lambda>ok mk.
         rbind (rbind (yyvsp vs 1) expr_array) (\<lambda>args.
           let R = check_args (ok (length args)) f R;
               (a, h) = mk args (ru_heap R)
           in Ret (YyExpr a, set_heap R h)))
       in if f = ''MIN'' then node (\<lambda>n. \<not> n < 1) expr_new_func_min
          else if f = ''MAX'' then node (\<lambda>n. \<not> n < 1) expr_new_func_max
          else if f = ''ROUND'' then node (\<lambda>n. n = 1) expr_new_func_round
          else if f = ''LIMIT'' then node (\<lambda>n. n = 3) expr_new_func_limit
          else if f = ''EVAL'' then node (\<lambda>n. n = 1) expr_new_func_eval
          else if f = ''CHANGED'' then node (\<lambda>n. \<not> n < 1) expr_new_func_changed
          else Ret (YyGarbage, yyerror (Message ''Unknown function'') R))"

definition action_argument_list :: "nat \<Rightarrow> yystype list \<Rightarrow> yystype \<Rightarrow> rules \<Rightarrow> (yystype \<times> rules) res" where
  "action_argument_list r vs yyval R =
     (if r = 38 then Ret (yyval, R)
      else if r = 39 then rbind (rbind (yyvsp vs 0) expr_ptr) (\<lambda>e. Ret (YyExprs [e], R))
      else
        rbind (expr_array yyval) (\<lambda>es.
        rbind (rbind (yyvsp vs 0) expr_ptr) (\<lambda>e. Ret (YyExprs (es @ [e]), R))))"

text \<open>The switch. The rules without an action are those for the program and its list.\<close>

definition yyaction :: "nat \<Rightarrow> nat \<Rightarrow> yystype list \<Rightarrow> yystype \<Rightarrow> rules \<Rightarrow> (yystype \<times> rules) res" where
  "yyaction k r vs yyval R =
     (if r < 5 then Ret (yyval, R)
      else if r \<le> 7 then action_instruction r vs yyval R
      else if r \<le> 9 then action_label_block r vs R
      else if r \<le> 11 then action_label_entries r vs R
      else if r = 12 then action_label_entry k vs R
      else if r = 13 then action_trigger k vs R
      else if r \<le> 15 then action_assignment_list r vs yyval R
      else if r \<le> 17 then action_assignment k r vs R
      else if r \<le> 19 then action_declaration k r vs yyval R
      else if r \<le> 22 then action_leaf r vs R
      else if r \<le> 34 then action_op k r vs R
      else if r \<le> 36 then action_paren k r vs R
      else if r = 37 then action_call vs R
      else if r \<le> 40 then action_argument_list r vs yyval R
      else Ret (yyval, R))"

section \<open>The automaton\<close>

text \<open>
  The stack has its top first; at the bottom is the state 0 with the unused first slot of the values.
  The scanner gives the next token, its value and its own new state, from its state and \<open>yylval\<close>,
  which a token without a value leaves as it is.
\<close>

type_synonym 'l lexer = "'l \<Rightarrow> yystype \<Rightarrow> (int \<times> yystype \<times> 'l) res"

record 'l parser =
  ps_stack :: "(nat \<times> yystype) list"
  ps_char :: int
  ps_lval :: yystype
  ps_errstatus :: nat
  ps_lex :: 'l
  ps_rules :: rules

datatype 'l outcome = Running "'l parser" | Returned nat rules

definition yyinit :: "'l \<Rightarrow> rules \<Rightarrow> 'l parser" where
  "yyinit l R = \<lparr>ps_stack = [(0, YyGarbage)], ps_char = YYEMPTY, ps_lval = YyGarbage, ps_errstatus = 0,
     ps_lex = l, ps_rules = R\<rparr>"

text \<open>
  \<open>yynewstate\<close>: the stacks grow by doubling from 200 to \<open>YYMAXDEPTH\<close> slots; when they are full
  then the parser gives up.
\<close>

definition yypush :: "nat \<Rightarrow> yystype \<Rightarrow> 'l parser \<Rightarrow> 'l outcome" where
  "yypush s v P =
     (let st = (s, v) # ps_stack P
      in if YYMAXDEPTH \<le> length st
         then Returned 2 (yyerror (Message ''memory exhausted'') (ps_rules P))
         else Running (P\<lparr>ps_stack := st\<rparr>))"

definition yygoto :: "nat \<Rightarrow> nat \<Rightarrow> nat" where
  "yygoto r s =
     (let lhs = yyr1 ! r - YYNTOKENS; i = yypgoto ! lhs + int s
      in if 0 \<le> i \<and> i \<le> YYLAST \<and> yycheck ! nat i = int s then yytable ! nat i else yydefgoto ! lhs)"

definition yyreduce :: "nat \<Rightarrow> nat \<Rightarrow> 'l parser \<Rightarrow> 'l outcome res" where
  "yyreduce k r P =
     (let len = yyr2 ! r; vs = map snd (ps_stack P)
      in rbind (if len = 0 then Ret YyGarbage else yyvsp vs (len - 1)) (\<lambda>yyval.
         rbind (yyaction k r vs yyval (ps_rules P)) (\<lambda>(yyval, R).
         case drop len (ps_stack P) of
           [] \<Rightarrow> Ub
         | (s, v) # st \<Rightarrow>
             Ret (yypush (yygoto r s) yyval (P\<lparr>ps_stack := (s, v) # st, ps_rules := R\<rparr>)))))"

definition YYTRANSLATE :: "int \<Rightarrow> nat" where
  "YYTRANSLATE c = (if 0 \<le> c \<and> c \<le> YYMAXUTOK then yytranslate ! nat c else 2)"

text \<open>The state a state shifts the symbol \<open>error\<close> to, if it does.\<close>

definition shifts_error :: "nat \<Rightarrow> nat option" where
  "shifts_error s =
     (let n = yypact ! s; i = n + 1
      in if n \<noteq> YYPACT_NINF \<and> 0 \<le> i \<and> i \<le> YYLAST \<and> yycheck ! nat i = 1 \<and> 0 < yytable ! nat i
         then Some (yytable ! nat i) else None)"

fun error_pop :: "(nat \<times> yystype) list \<Rightarrow> ((nat \<times> yystype) list \<times> nat) option" where
  "error_pop [] = None"
| "error_pop ((s, v) # st) =
     (case shifts_error s of
        Some n \<Rightarrow> Some ((s, v) # st, n)
      | None \<Rightarrow> if st = [] then None else error_pop st)"

definition yyerrlab1 :: "'l parser \<Rightarrow> 'l outcome" where
  "yyerrlab1 P =
     (let P = P\<lparr>ps_errstatus := 3\<rparr>
      in case error_pop (ps_stack P) of
           None \<Rightarrow> Returned 1 (ps_rules P)
         | Some (st, n) \<Rightarrow> yypush n (ps_lval P) (P\<lparr>ps_stack := st\<rparr>))"

definition yyerrlab :: "nat \<Rightarrow> 'l parser \<Rightarrow> 'l outcome" where
  "yyerrlab s P =
     (let P = (if ps_errstatus P = 0
               then P\<lparr>ps_rules := yyerror (SyntaxError s (if ps_char P = YYEMPTY then YYEMPTY else int (YYTRANSLATE (ps_char P))))
                 (ps_rules P)\<rparr> else P)
      in if ps_errstatus P = 3 then
           if ps_char P \<le> YYEOF
           then (if ps_char P = YYEOF then Returned 1 (ps_rules P) else yyerrlab1 P)
           else yyerrlab1 (P\<lparr>ps_char := YYEMPTY\<rparr>)
         else yyerrlab1 P)"

definition yydefault :: "nat \<Rightarrow> nat \<Rightarrow> 'l parser \<Rightarrow> 'l outcome res" where
  "yydefault k s P =
     (let r = yydefact ! s in if r = 0 then Ret (yyerrlab s P) else yyreduce k r P)"

definition yyshift :: "nat \<Rightarrow> 'l parser \<Rightarrow> 'l outcome" where
  "yyshift s P = yypush s (ps_lval P) (P\<lparr>ps_char := YYEMPTY, ps_errstatus := ps_errstatus P - 1\<rparr>)"

text \<open>From \<open>yysetstate\<close>, with the state on the top of the stack, to the next state.\<close>

definition yybackup :: "'l lexer \<Rightarrow> nat \<Rightarrow> 'l parser \<Rightarrow> 'l outcome res" where
  "yybackup yylex k P =
     (case ps_stack P of [] \<Rightarrow> Ub | (s, _) # _ \<Rightarrow>
      if s = YYFINAL then Ret (Returned 0 (ps_rules P))
      else if yypact ! s = YYPACT_NINF then yydefault k s P
      else
        rbind (if ps_char P = YYEMPTY
               then rbind (yylex (ps_lex P) (ps_lval P)) (\<lambda>(c, v, l).
                    Ret (P\<lparr>ps_char := c, ps_lval := v, ps_lex := l\<rparr>))
               else Ret P) (\<lambda>P.
        if ps_char P = YYerror then Ret (yyerrlab1 (P\<lparr>ps_char := YYUNDEF\<rparr>))
        else
          let P = (if ps_char P \<le> YYEOF then P\<lparr>ps_char := YYEOF\<rparr> else P);
              t = YYTRANSLATE (ps_char P);
              i = yypact ! s + int t
          in if i < 0 \<or> YYLAST < i \<or> yycheck ! nat i \<noteq> int t then yydefault k s P
             else if yytable ! nat i = 0 then yyreduce k 0 P
             else Ret (yyshift (yytable ! nat i) P)))"

text \<open>The loop, with a bound on the number of rounds.\<close>

fun yyloop :: "'l lexer \<Rightarrow> nat \<Rightarrow> nat \<Rightarrow> 'l parser \<Rightarrow> (nat \<times> rules) res" where
  "yyloop yylex k 0 P = Fuel"
| "yyloop yylex k (Suc n) P =
     rbind (yybackup yylex k P) (\<lambda>out. case out of
       Running P \<Rightarrow> yyloop yylex k n P
     | Returned r R \<Rightarrow> Ret (r, R))"

definition yyparse :: "'l lexer \<Rightarrow> nat \<Rightarrow> nat \<Rightarrow> 'l \<Rightarrow> rules \<Rightarrow> (nat \<times> rules) res" where
  "yyparse yylex k n l R = yyloop yylex k n (yyinit l R)"

section \<open>A scanner over a list of tokens\<close>

type_synonym token = "int \<times> yystype option"

fun list_lex :: "token list lexer" where
  "list_lex [] v = Ret (YYEOF, v, [])"
| "list_lex ((c, w) # ts) v = Ret (c, case w of None \<Rightarrow> v | Some w \<Rightarrow> w, ts)"

end
