(* ===== verification/RulesFacts.thy ===== *)
theory RulesFacts
  imports RulesTables
begin

text \<open>
  The entries of the tables as rewrite rules, so that the decisions of the parser evaluate by simplification.
\<close>

lemma yypact_nth:
  "yypact ! 0 = 57" "yypact ! (Suc 0) = - 11" "yypact ! 2 = - 3" "yypact ! 3 = - 13" "yypact ! 4 = 46"
  "yypact ! 5 = 57" "yypact ! 6 = - 25" "yypact ! 7 = - 25" "yypact ! 8 = - 25" "yypact ! 9 = - 25"
  "yypact ! 10 = 44" "yypact ! 11 = 23" "yypact ! 12 = 33" "yypact ! 13 = 61" "yypact ! 14 = - 25"
  "yypact ! 15 = - 25" "yypact ! 16 = - 25" "yypact ! 17 = 23" "yypact ! 18 = - 25" "yypact ! 19 = - 6"
  "yypact ! 20 = 23" "yypact ! 21 = 23" "yypact ! 22 = 104" "yypact ! 23 = 45" "yypact ! 24 = 23"
  "yypact ! 25 = 16" "yypact ! 26 = - 25" "yypact ! 27 = 56" "yypact ! 28 = 62" "yypact ! 29 = 23"
  "yypact ! 30 = - 25" "yypact ! 31 = 28" "yypact ! 32 = 23" "yypact ! 33 = 23" "yypact ! 34 = 23"
  "yypact ! 35 = 23" "yypact ! 36 = 23" "yypact ! 37 = 23" "yypact ! 38 = 23" "yypact ! 39 = 23"
  "yypact ! 40 = 64" "yypact ! 41 = 23" "yypact ! 42 = 23" "yypact ! 43 = 23" "yypact ! 44 = 23"
  "yypact ! 45 = 61" "yypact ! 46 = 124" "yypact ! 47 = - 25" "yypact ! 48 = - 25" "yypact ! 49 = - 25"
  "yypact ! 50 = - 25" "yypact ! 51 = 144" "yypact ! 52 = - 22" "yypact ! 53 = - 25" "yypact ! 54 = 162"
  "yypact ! 55 = 162" "yypact ! 56 = 72" "yypact ! 57 = 72" "yypact ! 58 = 72" "yypact ! 59 = 72"
  "yypact ! 60 = 152" "yypact ! 61 = 172" "yypact ! 62 = 14" "yypact ! 63 = 29" "yypact ! 64 = - 25"
  "yypact ! 65 = - 8" "yypact ! 66 = - 8" "yypact ! 67 = - 25" "yypact ! 68 = - 25" "yypact ! 69 = 18"
  "yypact ! 70 = 23" "yypact ! 71 = 23" "yypact ! 72 = - 25" "yypact ! 73 = 77" "yypact ! 74 = 23"
  "yypact ! 75 = - 25" "yypact ! 76 = 64" "yypact ! 77 = - 25" "yypact ! 78 = 80" "yypact ! 79 = 144"
  "yypact ! 80 = 51" "yypact ! 81 = 144" "yypact ! 82 = - 25" "yypact ! 83 = - 25" "yypact ! 84 = 23"
  "yypact ! 85 = 144"
  by (simp_all add: yypact_def)

lemma yydefact_nth:
  "yydefact ! 0 = 0" "yydefact ! (Suc 0) = 0" "yydefact ! 2 = 0" "yydefact ! 3 = 0" "yydefact ! 4 = 0"
  "yydefact ! 5 = 2" "yydefact ! 6 = 3" "yydefact ! 7 = 5" "yydefact ! 8 = 6" "yydefact ! 9 = 7"
  "yydefact ! 10 = 0" "yydefact ! 11 = 0" "yydefact ! 12 = 0" "yydefact ! 13 = 0" "yydefact ! 14 = Suc 0"
  "yydefact ! 15 = 4" "yydefact ! 16 = 18" "yydefact ! 17 = 0" "yydefact ! 18 = 20" "yydefact ! 19 = 21"
  "yydefact ! 20 = 0" "yydefact ! 21 = 0" "yydefact ! 22 = 0" "yydefact ! 23 = 0" "yydefact ! 24 = 0"
  "yydefact ! 25 = 0" "yydefact ! 26 = 10" "yydefact ! 27 = 0" "yydefact ! 28 = 0" "yydefact ! 29 = 38"
  "yydefact ! 30 = 36" "yydefact ! 31 = 0" "yydefact ! 32 = 0" "yydefact ! 33 = 0" "yydefact ! 34 = 0"
  "yydefact ! 35 = 0" "yydefact ! 36 = 0" "yydefact ! 37 = 0" "yydefact ! 38 = 0" "yydefact ! 39 = 0"
  "yydefact ! 40 = 0" "yydefact ! 41 = 0" "yydefact ! 42 = 0" "yydefact ! 43 = 0" "yydefact ! 44 = 0"
  "yydefact ! 45 = 0" "yydefact ! 46 = 0" "yydefact ! 47 = 8" "yydefact ! 48 = 11" "yydefact ! 49 = 19"
  "yydefact ! 50 = 22" "yydefact ! 51 = 39" "yydefact ! 52 = 0" "yydefact ! 53 = 35" "yydefact ! 54 = 23"
  "yydefact ! 55 = 24" "yydefact ! 56 = 25" "yydefact ! 57 = 26" "yydefact ! 58 = 27" "yydefact ! 59 = 28"
  "yydefact ! 60 = 29" "yydefact ! 61 = 30" "yydefact ! 62 = 0" "yydefact ! 63 = 0" "yydefact ! 64 = 14"
  "yydefact ! 65 = 31" "yydefact ! 66 = 32" "yydefact ! 67 = 33" "yydefact ! 68 = 34" "yydefact ! 69 = 0"
  "yydefact ! 70 = 0" "yydefact ! 71 = 0" "yydefact ! 72 = 37" "yydefact ! 73 = 0" "yydefact ! 74 = 0"
  "yydefact ! 75 = 13" "yydefact ! 76 = 0" "yydefact ! 77 = 9" "yydefact ! 78 = 0" "yydefact ! 79 = 40"
  "yydefact ! 80 = 0" "yydefact ! 81 = 16" "yydefact ! 82 = 15" "yydefact ! 83 = 12" "yydefact ! 84 = 0"
  "yydefact ! 85 = 17"
  by (simp_all add: yydefact_def)

lemma yypgoto_nth:
  "yypgoto ! 0 = - 25" "yypgoto ! (Suc 0) = - 25" "yypgoto ! 2 = - 25" "yypgoto ! 3 = 91" "yypgoto ! 4 = - 25"
  "yypgoto ! 5 = 52" "yypgoto ! 6 = - 24" "yypgoto ! 7 = - 25" "yypgoto ! 8 = - 25" "yypgoto ! 9 = 22"
  "yypgoto ! 10 = - 25" "yypgoto ! 11 = - 17" "yypgoto ! 12 = - 25"
  by (simp_all add: yypgoto_def)

lemma yydefgoto_nth:
  "yydefgoto ! 0 = 0" "yydefgoto ! (Suc 0) = 4" "yydefgoto ! 2 = 5" "yydefgoto ! 3 = 6" "yydefgoto ! 4 = 7"
  "yydefgoto ! 5 = 25" "yydefgoto ! 6 = 26" "yydefgoto ! 7 = 8" "yydefgoto ! 8 = 63" "yydefgoto ! 9 = 64"
  "yydefgoto ! 10 = 9" "yydefgoto ! 11 = 22" "yydefgoto ! 12 = 52"
  by (simp_all add: yydefgoto_def)

lemma yytable_nth:
  "yytable ! 0 = 27" "yytable ! (Suc 0) = 48" "yytable ! 2 = 12" "yytable ! 3 = 30" "yytable ! 4 = 31"
  "yytable ! 5 = 71" "yytable ! 6 = 10" "yytable ! 7 = 46" "yytable ! 8 = 72" "yytable ! 9 = 28"
  "yytable ! 10 = 11" "yytable ! 11 = 13" "yytable ! 12 = 51" "yytable ! 13 = 43" "yytable ! 14 = 44"
  "yytable ! 15 = 54" "yytable ! 16 = 55" "yytable ! 17 = 56" "yytable ! 18 = 57" "yytable ! 19 = 58"
  "yytable ! 20 = 59" "yytable ! 21 = 60" "yytable ! 22 = 61" "yytable ! 23 = 29" "yytable ! 24 = 65"
  "yytable ! 25 = 66" "yytable ! 26 = 67" "yytable ! 27 = 68" "yytable ! 28 = 24" "yytable ! 29 = 73"
  "yytable ! 30 = 24" "yytable ! 31 = 32" "yytable ! 32 = 33" "yytable ! 33 = 34" "yytable ! 34 = 35"
  "yytable ! 35 = 36" "yytable ! 36 = 37" "yytable ! 37 = 38" "yytable ! 38 = 39" "yytable ! 39 = 18"
  "yytable ! 40 = 19" "yytable ! 41 = 47" "yytable ! 42 = 74" "yytable ! 43 = 77" "yytable ! 44 = 20"
  "yytable ! 45 = 48" "yytable ! 46 = 14" "yytable ! 47 = 41" "yytable ! 48 = 42" "yytable ! 49 = 43"
  "yytable ! 50 = 44" "yytable ! 51 = 23" "yytable ! 52 = 21" "yytable ! 53 = 78" "yytable ! 54 = 79"
  "yytable ! 55 = 75" "yytable ! 56 = 76" "yytable ! 57 = 81" "yytable ! 58 = 53" "yytable ! 59 = 32"
  "yytable ! 60 = 33" "yytable ! 61 = 34" "yytable ! 62 = 35" "yytable ! 63 = 36" "yytable ! 64 = 37"
  "yytable ! 65 = 38" "yytable ! 66 = 39" "yytable ! 67 = 85" "yytable ! 68 = Suc 0" "yytable ! 69 = 45"
  "yytable ! 70 = 16" "yytable ! 71 = 2" "yytable ! 72 = 17" "yytable ! 73 = 24" "yytable ! 74 = 3"
  "yytable ! 75 = 41" "yytable ! 76 = 42" "yytable ! 77 = 43" "yytable ! 78 = 44" "yytable ! 79 = 84"
  "yytable ! 80 = 50" "yytable ! 81 = 62" "yytable ! 82 = 49" "yytable ! 83 = 32" "yytable ! 84 = 33"
  "yytable ! 85 = 34" "yytable ! 86 = 35" "yytable ! 87 = 36" "yytable ! 88 = 37" "yytable ! 89 = 38"
  "yytable ! 90 = 39" "yytable ! 91 = 41" "yytable ! 92 = 42" "yytable ! 93 = 43" "yytable ! 94 = 44"
  "yytable ! 95 = 80" "yytable ! 96 = 15" "yytable ! 97 = 69" "yytable ! 98 = 82" "yytable ! 99 = 41"
  "yytable ! 100 = 42" "yytable ! 101 = 43" "yytable ! 102 = 44" "yytable ! 103 = 0" "yytable ! 104 = 0"
  "yytable ! 105 = 0" "yytable ! 106 = 83" "yytable ! 107 = 32" "yytable ! 108 = 33" "yytable ! 109 = 34"
  "yytable ! 110 = 35" "yytable ! 111 = 36" "yytable ! 112 = 37" "yytable ! 113 = 38" "yytable ! 114 = 39"
  "yytable ! 115 = 0" "yytable ! 116 = 40" "yytable ! 117 = 0" "yytable ! 118 = 0" "yytable ! 119 = 0"
  "yytable ! 120 = 0" "yytable ! 121 = 0" "yytable ! 122 = 0" "yytable ! 123 = 41" "yytable ! 124 = 42"
  "yytable ! 125 = 43" "yytable ! 126 = 44" "yytable ! 127 = 32" "yytable ! 128 = 33" "yytable ! 129 = 34"
  "yytable ! 130 = 35" "yytable ! 131 = 36" "yytable ! 132 = 37" "yytable ! 133 = 38" "yytable ! 134 = 39"
  "yytable ! 135 = 0" "yytable ! 136 = 0" "yytable ! 137 = 70" "yytable ! 138 = 0" "yytable ! 139 = 0"
  "yytable ! 140 = 0" "yytable ! 141 = 0" "yytable ! 142 = 0" "yytable ! 143 = 41" "yytable ! 144 = 42"
  "yytable ! 145 = 43" "yytable ! 146 = 44" "yytable ! 147 = 32" "yytable ! 148 = 33" "yytable ! 149 = 34"
  "yytable ! 150 = 35" "yytable ! 151 = 36" "yytable ! 152 = 37" "yytable ! 153 = 38" "yytable ! 154 = 39"
  "yytable ! 155 = 32" "yytable ! 156 = 33" "yytable ! 157 = 34" "yytable ! 158 = 35" "yytable ! 159 = 36"
  "yytable ! 160 = 37" "yytable ! 161 = 0" "yytable ! 162 = 39" "yytable ! 163 = 41" "yytable ! 164 = 42"
  "yytable ! 165 = 43" "yytable ! 166 = 44" "yytable ! 167 = 34" "yytable ! 168 = 35" "yytable ! 169 = 36"
  "yytable ! 170 = 37" "yytable ! 171 = 41" "yytable ! 172 = 42" "yytable ! 173 = 43" "yytable ! 174 = 44"
  "yytable ! 175 = 32" "yytable ! 176 = 33" "yytable ! 177 = 34" "yytable ! 178 = 35" "yytable ! 179 = 36"
  "yytable ! 180 = 37" "yytable ! 181 = 41" "yytable ! 182 = 42" "yytable ! 183 = 43" "yytable ! 184 = 44"
  "yytable ! 185 = 0" "yytable ! 186 = 0" "yytable ! 187 = 0" "yytable ! 188 = 0" "yytable ! 189 = 0"
  "yytable ! 190 = 0" "yytable ! 191 = 41" "yytable ! 192 = 42" "yytable ! 193 = 43" "yytable ! 194 = 44"
  by (simp_all add: yytable_def)

lemma yycheck_nth:
  "yycheck ! 0 = 17" "yycheck ! (Suc 0) = 25" "yycheck ! 2 = 15" "yycheck ! 3 = 20" "yycheck ! 4 = 21"
  "yycheck ! 5 = 27" "yycheck ! 6 = 17" "yycheck ! 7 = 24" "yycheck ! 8 = 30" "yycheck ! 9 = 15"
  "yycheck ! 10 = 13" "yycheck ! 11 = 24" "yycheck ! 12 = 29" "yycheck ! 13 = 21" "yycheck ! 14 = 22"
  "yycheck ! 15 = 32" "yycheck ! 16 = 33" "yycheck ! 17 = 34" "yycheck ! 18 = 35" "yycheck ! 19 = 36"
  "yycheck ! 20 = 37" "yycheck ! 21 = 38" "yycheck ! 22 = 39" "yycheck ! 23 = 29" "yycheck ! 24 = 41"
  "yycheck ! 25 = 42" "yycheck ! 26 = 43" "yycheck ! 27 = 44" "yycheck ! 28 = 12" "yycheck ! 29 = 15"
  "yycheck ! 30 = 12" "yycheck ! 31 = 3" "yycheck ! 32 = 4" "yycheck ! 33 = 5" "yycheck ! 34 = 6"
  "yycheck ! 35 = 7" "yycheck ! 36 = 8" "yycheck ! 37 = 9" "yycheck ! 38 = 10" "yycheck ! 39 = 16"
  "yycheck ! 40 = 17" "yycheck ! 41 = 25" "yycheck ! 42 = 28" "yycheck ! 43 = 25" "yycheck ! 44 = 21"
  "yycheck ! 45 = 69" "yycheck ! 46 = 0" "yycheck ! 47 = 19" "yycheck ! 48 = 20" "yycheck ! 49 = 21"
  "yycheck ! 50 = 22" "yycheck ! 51 = 18" "yycheck ! 52 = 29" "yycheck ! 53 = 70" "yycheck ! 54 = 71"
  "yycheck ! 55 = 26" "yycheck ! 56 = 27" "yycheck ! 57 = 74" "yycheck ! 58 = 30" "yycheck ! 59 = 3"
  "yycheck ! 60 = 4" "yycheck ! 61 = 5" "yycheck ! 62 = 6" "yycheck ! 63 = 7" "yycheck ! 64 = 8"
  "yycheck ! 65 = 9" "yycheck ! 66 = 10" "yycheck ! 67 = 84" "yycheck ! 68 = 11" "yycheck ! 69 = 24"
  "yycheck ! 70 = 26" "yycheck ! 71 = 14" "yycheck ! 72 = 28" "yycheck ! 73 = 12" "yycheck ! 74 = 17"
  "yycheck ! 75 = 19" "yycheck ! 76 = 20" "yycheck ! 77 = 21" "yycheck ! 78 = 22" "yycheck ! 79 = 28"
  "yycheck ! 80 = 18" "yycheck ! 81 = 17" "yycheck ! 82 = 26" "yycheck ! 83 = 3" "yycheck ! 84 = 4"
  "yycheck ! 85 = 5" "yycheck ! 86 = 6" "yycheck ! 87 = 7" "yycheck ! 88 = 8" "yycheck ! 89 = 9"
  "yycheck ! 90 = 10" "yycheck ! 91 = 19" "yycheck ! 92 = 20" "yycheck ! 93 = 21" "yycheck ! 94 = 22"
  "yycheck ! 95 = 18" "yycheck ! 96 = 5" "yycheck ! 97 = 45" "yycheck ! 98 = 76" "yycheck ! 99 = 19"
  "yycheck ! 100 = 20" "yycheck ! 101 = 21" "yycheck ! 102 = 22" "yycheck ! 103 = - 1" "yycheck ! 104 = - 1"
  "yycheck ! 105 = - 1" "yycheck ! 106 = 26" "yycheck ! 107 = 3" "yycheck ! 108 = 4" "yycheck ! 109 = 5"
  "yycheck ! 110 = 6" "yycheck ! 111 = 7" "yycheck ! 112 = 8" "yycheck ! 113 = 9" "yycheck ! 114 = 10"
  "yycheck ! 115 = - 1" "yycheck ! 116 = 12" "yycheck ! 117 = - 1" "yycheck ! 118 = - 1" "yycheck ! 119 = - 1"
  "yycheck ! 120 = - 1" "yycheck ! 121 = - 1" "yycheck ! 122 = - 1" "yycheck ! 123 = 19" "yycheck ! 124 = 20"
  "yycheck ! 125 = 21" "yycheck ! 126 = 22" "yycheck ! 127 = 3" "yycheck ! 128 = 4" "yycheck ! 129 = 5"
  "yycheck ! 130 = 6" "yycheck ! 131 = 7" "yycheck ! 132 = 8" "yycheck ! 133 = 9" "yycheck ! 134 = 10"
  "yycheck ! 135 = - 1" "yycheck ! 136 = - 1" "yycheck ! 137 = 13" "yycheck ! 138 = - 1" "yycheck ! 139 = - 1"
  "yycheck ! 140 = - 1" "yycheck ! 141 = - 1" "yycheck ! 142 = - 1" "yycheck ! 143 = 19" "yycheck ! 144 = 20"
  "yycheck ! 145 = 21" "yycheck ! 146 = 22" "yycheck ! 147 = 3" "yycheck ! 148 = 4" "yycheck ! 149 = 5"
  "yycheck ! 150 = 6" "yycheck ! 151 = 7" "yycheck ! 152 = 8" "yycheck ! 153 = 9" "yycheck ! 154 = 10"
  "yycheck ! 155 = 3" "yycheck ! 156 = 4" "yycheck ! 157 = 5" "yycheck ! 158 = 6" "yycheck ! 159 = 7"
  "yycheck ! 160 = 8" "yycheck ! 161 = - 1" "yycheck ! 162 = 10" "yycheck ! 163 = 19" "yycheck ! 164 = 20"
  "yycheck ! 165 = 21" "yycheck ! 166 = 22" "yycheck ! 167 = 5" "yycheck ! 168 = 6" "yycheck ! 169 = 7"
  "yycheck ! 170 = 8" "yycheck ! 171 = 19" "yycheck ! 172 = 20" "yycheck ! 173 = 21" "yycheck ! 174 = 22"
  "yycheck ! 175 = 3" "yycheck ! 176 = 4" "yycheck ! 177 = 5" "yycheck ! 178 = 6" "yycheck ! 179 = 7"
  "yycheck ! 180 = 8" "yycheck ! 181 = 19" "yycheck ! 182 = 20" "yycheck ! 183 = 21" "yycheck ! 184 = 22"
  "yycheck ! 185 = - 1" "yycheck ! 186 = - 1" "yycheck ! 187 = - 1" "yycheck ! 188 = - 1" "yycheck ! 189 = - 1"
  "yycheck ! 190 = - 1" "yycheck ! 191 = 19" "yycheck ! 192 = 20" "yycheck ! 193 = 21" "yycheck ! 194 = 22"
  by (simp_all add: yycheck_def)

lemma yystos_nth:
  "yystos ! 0 = 0" "yystos ! (Suc 0) = 11" "yystos ! 2 = 14" "yystos ! 3 = 17" "yystos ! 4 = 32"
  "yystos ! 5 = 33" "yystos ! 6 = 34" "yystos ! 7 = 35" "yystos ! 8 = 38" "yystos ! 9 = 41" "yystos ! 10 = 17"
  "yystos ! 11 = 13" "yystos ! 12 = 15" "yystos ! 13 = 24" "yystos ! 14 = 0" "yystos ! 15 = 34"
  "yystos ! 16 = 26" "yystos ! 17 = 28" "yystos ! 18 = 16" "yystos ! 19 = 17" "yystos ! 20 = 21"
  "yystos ! 21 = 29" "yystos ! 22 = 42" "yystos ! 23 = 18" "yystos ! 24 = 12" "yystos ! 25 = 36"
  "yystos ! 26 = 37" "yystos ! 27 = 42" "yystos ! 28 = 15" "yystos ! 29 = 29" "yystos ! 30 = 42"
  "yystos ! 31 = 42" "yystos ! 32 = 3" "yystos ! 33 = 4" "yystos ! 34 = 5" "yystos ! 35 = 6" "yystos ! 36 = 7"
  "yystos ! 37 = 8" "yystos ! 38 = 9" "yystos ! 39 = 10" "yystos ! 40 = 12" "yystos ! 41 = 19"
  "yystos ! 42 = 20" "yystos ! 43 = 21" "yystos ! 44 = 22" "yystos ! 45 = 24" "yystos ! 46 = 42"
  "yystos ! 47 = 25" "yystos ! 48 = 37" "yystos ! 49 = 26" "yystos ! 50 = 18" "yystos ! 51 = 42"
  "yystos ! 52 = 43" "yystos ! 53 = 30" "yystos ! 54 = 42" "yystos ! 55 = 42" "yystos ! 56 = 42"
  "yystos ! 57 = 42" "yystos ! 58 = 42" "yystos ! 59 = 42" "yystos ! 60 = 42" "yystos ! 61 = 42"
  "yystos ! 62 = 17" "yystos ! 63 = 39" "yystos ! 64 = 40" "yystos ! 65 = 42" "yystos ! 66 = 42"
  "yystos ! 67 = 42" "yystos ! 68 = 42" "yystos ! 69 = 36" "yystos ! 70 = 13" "yystos ! 71 = 27"
  "yystos ! 72 = 30" "yystos ! 73 = 15" "yystos ! 74 = 28" "yystos ! 75 = 26" "yystos ! 76 = 27"
  "yystos ! 77 = 25" "yystos ! 78 = 42" "yystos ! 79 = 42" "yystos ! 80 = 18" "yystos ! 81 = 42"
  "yystos ! 82 = 40" "yystos ! 83 = 26" "yystos ! 84 = 28" "yystos ! 85 = 42"
  by (simp_all add: yystos_def)

lemma yyr1_nth:
  "yyr1 ! 0 = 0" "yyr1 ! (Suc 0) = 31" "yyr1 ! 2 = 32" "yyr1 ! 3 = 33" "yyr1 ! 4 = 33" "yyr1 ! 5 = 34"
  "yyr1 ! 6 = 34" "yyr1 ! 7 = 34" "yyr1 ! 8 = 35" "yyr1 ! 9 = 35" "yyr1 ! 10 = 36" "yyr1 ! 11 = 36"
  "yyr1 ! 12 = 37" "yyr1 ! 13 = 38" "yyr1 ! 14 = 39" "yyr1 ! 15 = 39" "yyr1 ! 16 = 40" "yyr1 ! 17 = 40"
  "yyr1 ! 18 = 41" "yyr1 ! 19 = 41" "yyr1 ! 20 = 42" "yyr1 ! 21 = 42" "yyr1 ! 22 = 42" "yyr1 ! 23 = 42"
  "yyr1 ! 24 = 42" "yyr1 ! 25 = 42" "yyr1 ! 26 = 42" "yyr1 ! 27 = 42" "yyr1 ! 28 = 42" "yyr1 ! 29 = 42"
  "yyr1 ! 30 = 42" "yyr1 ! 31 = 42" "yyr1 ! 32 = 42" "yyr1 ! 33 = 42" "yyr1 ! 34 = 42" "yyr1 ! 35 = 42"
  "yyr1 ! 36 = 42" "yyr1 ! 37 = 42" "yyr1 ! 38 = 43" "yyr1 ! 39 = 43" "yyr1 ! 40 = 43"
  by (simp_all add: yyr1_def)

lemma yyr2_nth:
  "yyr2 ! 0 = 0" "yyr2 ! (Suc 0) = 2" "yyr2 ! 2 = Suc 0" "yyr2 ! 3 = Suc 0" "yyr2 ! 4 = 2" "yyr2 ! 5 = Suc 0"
  "yyr2 ! 6 = Suc 0" "yyr2 ! 7 = Suc 0" "yyr2 ! 8 = 4" "yyr2 ! 9 = 6" "yyr2 ! 10 = Suc 0" "yyr2 ! 11 = 2"
  "yyr2 ! 12 = 5" "yyr2 ! 13 = 6" "yyr2 ! 14 = Suc 0" "yyr2 ! 15 = 3" "yyr2 ! 16 = 3" "yyr2 ! 17 = 5"
  "yyr2 ! 18 = 3" "yyr2 ! 19 = 5" "yyr2 ! 20 = Suc 0" "yyr2 ! 21 = Suc 0" "yyr2 ! 22 = 3" "yyr2 ! 23 = 3"
  "yyr2 ! 24 = 3" "yyr2 ! 25 = 3" "yyr2 ! 26 = 3" "yyr2 ! 27 = 3" "yyr2 ! 28 = 3" "yyr2 ! 29 = 3"
  "yyr2 ! 30 = 3" "yyr2 ! 31 = 3" "yyr2 ! 32 = 3" "yyr2 ! 33 = 3" "yyr2 ! 34 = 3" "yyr2 ! 35 = 3"
  "yyr2 ! 36 = 2" "yyr2 ! 37 = 4" "yyr2 ! 38 = 0" "yyr2 ! 39 = Suc 0" "yyr2 ! 40 = 3"
  by (simp_all add: yyr2_def)

lemma yytranslate_nth:
  "yytranslate ! 0 = 0" "yytranslate ! 40 = 29" "yytranslate ! 41 = 30" "yytranslate ! 42 = 21"
  "yytranslate ! 43 = 19" "yytranslate ! 44 = 27" "yytranslate ! 45 = 20" "yytranslate ! 47 = 22"
  "yytranslate ! 59 = 26" "yytranslate ! 61 = 28" "yytranslate ! 123 = 24" "yytranslate ! 125 = 25"
  "yytranslate ! 256 = Suc 0" "yytranslate ! 257 = 2" "yytranslate ! 258 = 3" "yytranslate ! 259 = 4"
  "yytranslate ! 260 = 5" "yytranslate ! 261 = 6" "yytranslate ! 262 = 7" "yytranslate ! 263 = 8"
  "yytranslate ! 264 = 9" "yytranslate ! 265 = 10" "yytranslate ! 266 = 11" "yytranslate ! 267 = 12"
  "yytranslate ! 268 = 13" "yytranslate ! 269 = 14" "yytranslate ! 270 = 15" "yytranslate ! 271 = 16"
  "yytranslate ! 272 = 17" "yytranslate ! 273 = 18"
  by (simp_all add: yytranslate_def)

lemmas table_facts = yypact_nth yydefact_nth yypgoto_nth yydefgoto_nth yytable_nth yycheck_nth yystos_nth yyr1_nth
  yyr2_nth

end
