(* ===== verification/RulesAuto.thy ===== *)
theory RulesAuto
  imports Parser RulesFacts
begin

text \<open>
  The automaton of the parser. \<open>decide\<close> is the decision of \<open>yybackup\<close> in a state for a symbol.
  A certificate, the list of the states that can lie below a state on the stack and the
  right-hand sides of the rules, is checked against the tables: it shows that a reduction always
  finds its right-hand side on the stack. The parser is then related to an abstract one that looks
  at the rest of the input without reading ahead.
\<close>

section \<open>Decisions\<close>

datatype lr_act = Shift nat | Reduce nat | Error

definition act_at :: "nat \<Rightarrow> nat \<Rightarrow> int \<Rightarrow> lr_act" where
  "act_at s t i =
     (if i < 0 \<or> YYLAST < i \<or> yycheck ! nat i \<noteq> int t
      then (if yydefact ! s = 0 then Error else Reduce (yydefact ! s))
      else if yytable ! nat i = 0 then Reduce 0 else Shift (yytable ! nat i))"

definition decide :: "nat \<Rightarrow> nat \<Rightarrow> lr_act" where
  "decide s t =
     (if yypact ! s = YYPACT_NINF then (if yydefact ! s = 0 then Error else Reduce (yydefact ! s))
      else act_at s t (yypact ! s + int t))"

lemmas decide_eval = decide_def act_at_def YYPACT_NINF_def YYLAST_def table_facts
lemmas yygoto_eval = yygoto_def Let_def YYNTOKENS_def YYLAST_def table_facts

section \<open>The certificate\<close>

definition yypreds :: "nat list list" where
  "yypreds =
    [[], [0, 5], [0, 5], [0, 5], [0], [0], [0], [0, 5], [0, 5], [0, 5], [1], [2], [3], [3], [4], [5], 
     [10], [10], [11, 17, 20, 21, 24, 29, 32, 33, 34, 35, 36, 37, 38, 39, 41, 42, 43, 44, 70, 71, 74, 84], 
     [11, 17, 20, 21, 24, 29, 32, 33, 34, 35, 36, 37, 38, 39, 41, 42, 43, 44, 70, 71, 74, 84], 
     [11, 17, 20, 21, 24, 29, 32, 33, 34, 35, 36, 37, 38, 39, 41, 42, 43, 44, 70, 71, 74, 84], 
     [11, 17, 20, 21, 24, 29, 32, 33, 34, 35, 36, 37, 38, 39, 41, 42, 43, 44, 70, 71, 74, 84], [11], [12], 
     [13, 25, 45, 69], [13], [13, 45], [17], [19], [19], [20], [21], 
     [22, 27, 31, 46, 51, 60, 61, 78, 79, 81, 85], [22, 27, 31, 46, 51, 60, 61, 78, 79, 81, 85], 
     [22, 27, 31, 46, 51, 54, 55, 60, 61, 78, 79, 81, 85], 
     [22, 27, 31, 46, 51, 54, 55, 60, 61, 78, 79, 81, 85], 
     [22, 27, 31, 46, 51, 54, 55, 60, 61, 78, 79, 81, 85], 
     [22, 27, 31, 46, 51, 54, 55, 60, 61, 78, 79, 81, 85], [22, 27, 31, 46, 51, 78, 79, 81, 85], 
     [22, 27, 31, 46, 51, 60, 78, 79, 81, 85], [22], 
     [22, 27, 31, 46, 51, 54, 55, 56, 57, 58, 59, 60, 61, 78, 79, 81, 85], 
     [22, 27, 31, 46, 51, 54, 55, 56, 57, 58, 59, 60, 61, 78, 79, 81, 85], 
     [22, 27, 31, 46, 51, 54, 55, 56, 57, 58, 59, 60, 61, 65, 66, 78, 79, 81, 85], 
     [22, 27, 31, 46, 51, 54, 55, 56, 57, 58, 59, 60, 61, 65, 66, 78, 79, 81, 85], [23], [24], [25], 
     [25, 69], [27], [28], [29], [29], [31], [32], [33], [34], [35], [36], [37], [38], [39], [40, 76], 
     [40], [40], [41], [42], [43], [44], [45], [46], [52], [52], [62], [62], [63], [63], [69], [70], [71], 
     [73], [74], [76], [78], [80], [84]]"

definition yyrhs :: "nat list list" where
  "yyrhs =
    [[], [32, 0], [33], [34], [33, 34], [35], [38], [41], [17, 24, 36, 25], [17, 15, 18, 24, 36, 25], 
     [37], [36, 37], [12, 42, 13, 42, 26], [14, 13, 42, 12, 39, 26], [40], [39, 27, 40], [17, 28, 42], 
     [17, 15, 18, 28, 42], [11, 17, 26], [11, 17, 28, 42, 26], [16], [17], [17, 15, 18], [42, 3, 42], 
     [42, 4, 42], [42, 5, 42], [42, 6, 42], [42, 7, 42], [42, 8, 42], [42, 9, 42], [42, 10, 42], 
     [42, 19, 42], [42, 20, 42], [42, 21, 42], [42, 22, 42], [29, 42, 30], [21, 42], [17, 29, 43, 30], [], 
     [42], [43, 27, 42]]"

text \<open>The states that can lie under the symbols \<open>xs\<close>, the last one first, when they end in one of \<open>L\<close>.\<close>

fun back_states :: "nat list \<Rightarrow> nat list \<Rightarrow> nat list option" where
  "back_states [] L = Some L"
| "back_states (x # xs) L =
     (if list_all (\<lambda>s. s \<noteq> 0 \<and> s < 86 \<and> yystos ! s = x) L
      then back_states xs (remdups (concat (map (\<lambda>s. yypreds ! s) L))) else None)"

definition edge :: "nat \<Rightarrow> nat \<Rightarrow> bool" where
  "edge s s' \<longleftrightarrow> s' < 86 \<and> s \<in> set (yypreds ! s')"

definition shift_ok :: "nat \<Rightarrow> nat \<Rightarrow> bool" where
  "shift_ok s t = (case decide s t of
     Shift s' \<Rightarrow> edge s s' \<and> yystos ! s' = t
   | Reduce r \<Rightarrow> 0 < r \<and> r = yydefact ! s \<and> r < 41
   | Error \<Rightarrow> True)"

text \<open>The states from which a nonterminal is entered, from its first number 31 on.\<close>

definition goto_from :: "nat list list" where
  "goto_from =
    [[], [0], [0], [0, 5], [0, 5], [13, 45], [13, 25, 45, 69], [0, 5], [40], [40, 76], [0, 5], 
     [11, 17, 20, 21, 24, 29, 32, 33, 34, 35, 36, 37, 38, 39, 41, 42, 43, 44, 70, 71, 74, 84], [29]]"

definition goto_ok :: "nat \<Rightarrow> nat \<Rightarrow> bool" where
  "goto_ok r s \<longleftrightarrow> edge s (yygoto r s) \<and> yystos ! yygoto r s = yyr1 ! r"

definition reduce_ok :: "nat \<Rightarrow> nat \<Rightarrow> bool" where
  "reduce_ok s r = (case back_states (rev (yyrhs ! r)) [s] of
     None \<Rightarrow> False
   | Some L \<Rightarrow> list_all (\<lambda>x. x \<in> set (goto_from ! (yyr1 ! r - 31))) L)"

lemma yypreds_nth:
  "yypreds ! 0 = []" "yypreds ! (Suc 0) = [0, 5]" "yypreds ! 2 = [0, 5]" "yypreds ! 3 = [0, 5]"
  "yypreds ! 4 = [0]" "yypreds ! 5 = [0]" "yypreds ! 6 = [0]" "yypreds ! 7 = [0, 5]" "yypreds ! 8 = [0, 5]"
  "yypreds ! 9 = [0, 5]" "yypreds ! 10 = [Suc 0]" "yypreds ! 11 = [2]" "yypreds ! 12 = [3]"
  "yypreds ! 13 = [3]" "yypreds ! 14 = [4]" "yypreds ! 15 = [5]" "yypreds ! 16 = [10]" "yypreds ! 17 = [10]"
  "yypreds ! 18 = [11, 17, 20, 21, 24, 29, 32, 33, 34, 35, 36, 37, 38, 39, 41, 42, 43, 44, 70, 71, 74, 84]"
  "yypreds ! 19 = [11, 17, 20, 21, 24, 29, 32, 33, 34, 35, 36, 37, 38, 39, 41, 42, 43, 44, 70, 71, 74, 84]"
  "yypreds ! 20 = [11, 17, 20, 21, 24, 29, 32, 33, 34, 35, 36, 37, 38, 39, 41, 42, 43, 44, 70, 71, 74, 84]"
  "yypreds ! 21 = [11, 17, 20, 21, 24, 29, 32, 33, 34, 35, 36, 37, 38, 39, 41, 42, 43, 44, 70, 71, 74, 84]"
  "yypreds ! 22 = [11]" "yypreds ! 23 = [12]" "yypreds ! 24 = [13, 25, 45, 69]" "yypreds ! 25 = [13]"
  "yypreds ! 26 = [13, 45]" "yypreds ! 27 = [17]" "yypreds ! 28 = [19]" "yypreds ! 29 = [19]"
  "yypreds ! 30 = [20]" "yypreds ! 31 = [21]" "yypreds ! 32 = [22, 27, 31, 46, 51, 60, 61, 78, 79, 81, 85]"
  "yypreds ! 33 = [22, 27, 31, 46, 51, 60, 61, 78, 79, 81, 85]"
  "yypreds ! 34 = [22, 27, 31, 46, 51, 54, 55, 60, 61, 78, 79, 81, 85]"
  "yypreds ! 35 = [22, 27, 31, 46, 51, 54, 55, 60, 61, 78, 79, 81, 85]"
  "yypreds ! 36 = [22, 27, 31, 46, 51, 54, 55, 60, 61, 78, 79, 81, 85]"
  "yypreds ! 37 = [22, 27, 31, 46, 51, 54, 55, 60, 61, 78, 79, 81, 85]"
  "yypreds ! 38 = [22, 27, 31, 46, 51, 78, 79, 81, 85]"
  "yypreds ! 39 = [22, 27, 31, 46, 51, 60, 78, 79, 81, 85]" "yypreds ! 40 = [22]"
  "yypreds ! 41 = [22, 27, 31, 46, 51, 54, 55, 56, 57, 58, 59, 60, 61, 78, 79, 81, 85]"
  "yypreds ! 42 = [22, 27, 31, 46, 51, 54, 55, 56, 57, 58, 59, 60, 61, 78, 79, 81, 85]"
  "yypreds ! 43 = [22, 27, 31, 46, 51, 54, 55, 56, 57, 58, 59, 60, 61, 65, 66, 78, 79, 81, 85]"
  "yypreds ! 44 = [22, 27, 31, 46, 51, 54, 55, 56, 57, 58, 59, 60, 61, 65, 66, 78, 79, 81, 85]"
  "yypreds ! 45 = [23]" "yypreds ! 46 = [24]" "yypreds ! 47 = [25]" "yypreds ! 48 = [25, 69]"
  "yypreds ! 49 = [27]" "yypreds ! 50 = [28]" "yypreds ! 51 = [29]" "yypreds ! 52 = [29]" "yypreds ! 53 = [31]"
  "yypreds ! 54 = [32]" "yypreds ! 55 = [33]" "yypreds ! 56 = [34]" "yypreds ! 57 = [35]" "yypreds ! 58 = [36]"
  "yypreds ! 59 = [37]" "yypreds ! 60 = [38]" "yypreds ! 61 = [39]" "yypreds ! 62 = [40, 76]"
  "yypreds ! 63 = [40]" "yypreds ! 64 = [40]" "yypreds ! 65 = [41]" "yypreds ! 66 = [42]" "yypreds ! 67 = [43]"
  "yypreds ! 68 = [44]" "yypreds ! 69 = [45]" "yypreds ! 70 = [46]" "yypreds ! 71 = [52]" "yypreds ! 72 = [52]"
  "yypreds ! 73 = [62]" "yypreds ! 74 = [62]" "yypreds ! 75 = [63]" "yypreds ! 76 = [63]" "yypreds ! 77 = [69]"
  "yypreds ! 78 = [70]" "yypreds ! 79 = [71]" "yypreds ! 80 = [73]" "yypreds ! 81 = [74]" "yypreds ! 82 = [76]"
  "yypreds ! 83 = [78]" "yypreds ! 84 = [80]" "yypreds ! 85 = [84]"
  by (simp_all add: yypreds_def)

lemma yyrhs_nth:
  "yyrhs ! 0 = []" "yyrhs ! (Suc 0) = [32, 0]" "yyrhs ! 2 = [33]" "yyrhs ! 3 = [34]" "yyrhs ! 4 = [33, 34]"
  "yyrhs ! 5 = [35]" "yyrhs ! 6 = [38]" "yyrhs ! 7 = [41]" "yyrhs ! 8 = [17, 24, 36, 25]"
  "yyrhs ! 9 = [17, 15, 18, 24, 36, 25]" "yyrhs ! 10 = [37]" "yyrhs ! 11 = [36, 37]"
  "yyrhs ! 12 = [12, 42, 13, 42, 26]" "yyrhs ! 13 = [14, 13, 42, 12, 39, 26]" "yyrhs ! 14 = [40]"
  "yyrhs ! 15 = [39, 27, 40]" "yyrhs ! 16 = [17, 28, 42]" "yyrhs ! 17 = [17, 15, 18, 28, 42]"
  "yyrhs ! 18 = [11, 17, 26]" "yyrhs ! 19 = [11, 17, 28, 42, 26]" "yyrhs ! 20 = [16]" "yyrhs ! 21 = [17]"
  "yyrhs ! 22 = [17, 15, 18]" "yyrhs ! 23 = [42, 3, 42]" "yyrhs ! 24 = [42, 4, 42]" "yyrhs ! 25 = [42, 5, 42]"
  "yyrhs ! 26 = [42, 6, 42]" "yyrhs ! 27 = [42, 7, 42]" "yyrhs ! 28 = [42, 8, 42]" "yyrhs ! 29 = [42, 9, 42]"
  "yyrhs ! 30 = [42, 10, 42]" "yyrhs ! 31 = [42, 19, 42]" "yyrhs ! 32 = [42, 20, 42]"
  "yyrhs ! 33 = [42, 21, 42]" "yyrhs ! 34 = [42, 22, 42]" "yyrhs ! 35 = [29, 42, 30]" "yyrhs ! 36 = [21, 42]"
  "yyrhs ! 37 = [17, 29, 43, 30]" "yyrhs ! 38 = []" "yyrhs ! 39 = [42]" "yyrhs ! 40 = [43, 27, 42]"
  by (simp_all add: yyrhs_def)

lemma goto_from_nth:
  "goto_from ! 0 = []" "goto_from ! (Suc 0) = [0]" "goto_from ! 2 = [0]" "goto_from ! 3 = [0, 5]"
  "goto_from ! 4 = [0, 5]" "goto_from ! 5 = [13, 45]" "goto_from ! 6 = [13, 25, 45, 69]"
  "goto_from ! 7 = [0, 5]" "goto_from ! 8 = [40]" "goto_from ! 9 = [40, 76]" "goto_from ! 10 = [0, 5]"
  "goto_from ! 11 = [11, 17, 20, 21, 24, 29, 32, 33, 34, 35, 36, 37, 38, 39, 41, 42, 43, 44, 70, 71, 74, 84]"
  "goto_from ! 12 = [29]"
  by (simp_all add: goto_from_def)

definition all_states :: "nat list" where
  "all_states =
    [0, 1, 2, 3, 4, 5, 6, 7, 8, 9, 10, 11, 12, 13, 14, 15, 16, 17, 18, 19, 20, 21, 22, 23, 24, 25, 26, 27, 
     28, 29, 30, 31, 32, 33, 34, 35, 36, 37, 38, 39, 40, 41, 42, 43, 44, 45, 46, 47, 48, 49, 50, 51, 52, 
     53, 54, 55, 56, 57, 58, 59, 60, 61, 62, 63, 64, 65, 66, 67, 68, 69, 70, 71, 72, 73, 74, 75, 76, 77, 
     78, 79, 80, 81, 82, 83, 84, 85]"

definition all_symbols :: "nat list" where
  "all_symbols =
    [0, 1, 2, 3, 4, 5, 6, 7, 8, 9, 10, 11, 12, 13, 14, 15, 16, 17, 18, 19, 20, 21, 22, 23, 24, 25, 26, 27, 
     28, 29, 30]"

lemma in_all_states: "s < 86 \<Longrightarrow> s \<in> set all_states"
proof -
  have "all_states = [0..<86]" by code_simp
  then have "set all_states = {0..<86}" using set_upt [of 0 86] by (rule ssubst)
  then show "s < 86 \<Longrightarrow> s \<in> set all_states" by simp
qed

lemma in_all_symbols: "t < 31 \<Longrightarrow> t \<in> set all_symbols"
proof -
  have "all_symbols = [0..<31]" by code_simp
  then have "set all_symbols = {0..<31}" using set_upt [of 0 31] by (rule ssubst)
  then show "t < 31 \<Longrightarrow> t \<in> set all_symbols" by simp
qed

lemma shift_ok_all: "s < 86 \<Longrightarrow> t < 31 \<Longrightarrow> shift_ok s t"
proof -
  have "list_all (\<lambda>s. list_all (shift_ok s) all_symbols) all_states"
    by (simp add: all_states_def all_symbols_def shift_ok_def decide_eval edge_def yypreds_nth)
  then show "s < 86 \<Longrightarrow> t < 31 \<Longrightarrow> shift_ok s t"
    using in_all_states in_all_symbols unfolding list_all_iff by blast
qed

lemma goto_ok_all:
  assumes "0 < r" "r < 41" "x \<in> set (goto_from ! (yyr1 ! r - 31))"
  shows "goto_ok r x"
proof -
  have all: "list_all (\<lambda>r. list_all (goto_ok r) (goto_from ! (yyr1 ! r - 31)))
     [1, 2, 3, 4, 5, 6, 7, 8, 9, 10, 11, 12, 13, 14, 15, 16, 17, 18, 19, 20, 21, 22, 23, 24, 25, 26, 27, 28, 29, 30, 31, 32, 33, 34, 35, 36, 37, 38, 39, 40]"
    by (simp add: goto_ok_def yygoto_eval edge_def yypreds_nth goto_from_nth)
  have "[1, 2, 3, 4, 5, 6, 7, 8, 9, 10, 11, 12, 13, 14, 15, 16, 17, 18, 19, 20, 21, 22, 23, 24, 25, 26, 27, 28, 29, 30, 31, 32, 33, 34, 35, 36, 37, 38, 39, 40] = [1..<41]" by code_simp
  then have "list_all (\<lambda>r. list_all (goto_ok r) (goto_from ! (yyr1 ! r - 31))) [1..<41]" using all by (simp only:)
  with assms show ?thesis unfolding list_all_iff set_upt by simp
qed

definition reducing :: "nat list" where
  "reducing =
    [5, 6, 7, 8, 9, 15, 16, 18, 19, 26, 29, 30, 47, 48, 49, 50, 51, 53, 54, 55, 56, 57, 58, 59, 60, 61, 64, 65, 66, 67, 68, 72, 75, 77, 79, 81, 82, 83, 85]"

lemma reduce_ok_all:
  assumes "s < 86" "s \<noteq> YYFINAL" "yydefact ! s \<noteq> 0"
  shows "reduce_ok s (yydefact ! s) \<and> yydefact ! s < 41"
proof -
  have "list_all (\<lambda>s. s = 14 \<or> yydefact ! s = 0 \<or> s \<in> set reducing) all_states"
    by (simp add: all_states_def reducing_def yydefact_nth)
  then have "s = 14 \<or> yydefact ! s = 0 \<or> s \<in> set reducing"
    using in_all_states [OF assms(1)] by (simp only: list_all_iff)
  with assms have s: "s \<in> set reducing" by (simp add: YYFINAL_def)
  have "list_all (\<lambda>s. reduce_ok s (yydefact ! s)) reducing"
    by (simp add: reducing_def reduce_ok_def table_facts yypreds_nth yyrhs_nth goto_from_nth)
  moreover have "list_all (\<lambda>s. yydefact ! s < 41) reducing"
    by (simp add: reducing_def yydefact_nth)
  ultimately show ?thesis using s by (simp only: list_all_iff)
qed

end
