(* ===== verification/RulesRun.thy ===== *)
theory RulesRun
  imports RulesAuto
begin

text \<open>
  The parser without its lookahead variable: a configuration is the stack, the rest of the input,
  which ends with the end-of-file token, and what the actions change. Over a list of tokens the parser of
  \<open>src/rules.c\<close> does what this machine does.
\<close>

section \<open>The machine\<close>

type_synonym stack = "(nat \<times> yystype) list"
type_synonym input = "(int \<times> yystype) list"
type_synonym config = "stack \<times> input \<times> rules"

text \<open>A token without a value leaves \<open>yylval\<close> as it was.\<close>

fun with_values :: "yystype \<Rightarrow> token list \<Rightarrow> input" where
  "with_values v [] = [(YYEOF, v)]"
| "with_values v ((c, None) # ts) = (c, v) # with_values v ts"
| "with_values v ((c, Some w) # ts) = (c, w) # with_values w ts"

definition look :: "input \<Rightarrow> nat" where
  "look inp = (case inp of [] \<Rightarrow> 0 | (c, _) # _ \<Rightarrow> YYTRANSLATE c)"

text \<open>The end of file can be read again and again.\<close>

definition advance :: "input \<Rightarrow> input" where
  "advance inp = (if length inp \<le> 1 then inp else tl inp)"

definition lr_push :: "nat \<Rightarrow> yystype \<Rightarrow> config \<Rightarrow> config + nat \<times> rules" where
  "lr_push s v C =
     (let (st, inp, R) = C
      in if YYMAXDEPTH \<le> Suc (length st) then Inr (2, yyerror (Message ''memory exhausted'') R)
         else Inl ((s, v) # st, inp, R))"

definition lr_reduce :: "nat \<Rightarrow> nat \<Rightarrow> config \<Rightarrow> (config + nat \<times> rules) res" where
  "lr_reduce k r C =
     (let (st, inp, R) = C; len = yyr2 ! r; vs = map snd st
      in rbind (if len = 0 then Ret YyGarbage else yyvsp vs (len - 1)) (\<lambda>yyval.
         rbind (yyaction k r vs yyval R) (\<lambda>(yyval, R).
         case drop len st of
           [] \<Rightarrow> Ub
         | (s, v) # st \<Rightarrow> Ret (lr_push (yygoto r s) yyval ((s, v) # st, inp, R)))))"

definition lr_step :: "nat \<Rightarrow> config \<Rightarrow> (config + nat \<times> rules) res" where
  "lr_step k C =
     (case C of
        ([], inp, R) \<Rightarrow> Ub
      | ((s, v) # st, inp, R) \<Rightarrow>
          if s = YYFINAL then Ret (Inr (0, R))
          else (case decide s (look inp) of
             Shift s' \<Rightarrow> Ret (lr_push s' (snd (hd inp)) (fst C, advance inp, R))
           | Reduce r \<Rightarrow> lr_reduce k r C
           | Error \<Rightarrow> Ret (Inr (1, yyerror (SyntaxError s (int (look inp))) R))))"

fun lr_loop :: "nat \<Rightarrow> nat \<Rightarrow> config \<Rightarrow> (nat \<times> rules) res" where
  "lr_loop k 0 C = Fuel"
| "lr_loop k (Suc n) C =
     rbind (lr_step k C) (\<lambda>out. case out of Inl C \<Rightarrow> lr_loop k n C | Inr x \<Rightarrow> Ret x)"

definition lr_parse :: "nat \<Rightarrow> nat \<Rightarrow> input \<Rightarrow> rules \<Rightarrow> (nat \<times> rules) res" where
  "lr_parse k n inp R = lr_loop k n ([(0, YyGarbage)], inp, R)"

section \<open>The parser is the machine\<close>

definition token_code_ok :: "token \<Rightarrow> bool" where
  "token_code_ok t \<longleftrightarrow> 0 < fst t \<and> fst t \<noteq> YYerror"

definition pending_input :: "token list parser \<Rightarrow> input" where
  "pending_input P =
     (if ps_char P = YYEMPTY then with_values (ps_lval P) (ps_lex P)
      else if ps_char P = YYEOF then [(YYEOF, ps_lval P)]
      else (ps_char P, ps_lval P) # with_values (ps_lval P) (ps_lex P))"

definition follows :: "token list parser \<Rightarrow> config \<Rightarrow> bool" where
  "follows P C \<longleftrightarrow>
     C = (ps_stack P, pending_input P, ps_rules P) \<and> ps_errstatus P = 0 \<and>
     list_all token_code_ok (ps_lex P) \<and> list_all (\<lambda>x. fst x < 86) (ps_stack P) \<and>
     (ps_char P = YYEOF \<longrightarrow> ps_lex P = []) \<and>
     (ps_char P = YYEMPTY \<or> ps_char P = YYEOF \<or> 0 < ps_char P \<and> ps_char P \<noteq> YYerror)"

fun outcome_follows :: "token list outcome \<Rightarrow> config + nat \<times> rules \<Rightarrow> bool" where
  "outcome_follows (Running P) (Inl C) = follows P C"
| "outcome_follows (Returned r R) (Inr x) = (x = (r, R))"
| "outcome_follows _ _ = False"

lemma yytable_below: "i < 195 \<Longrightarrow> yytable ! i < 86"
proof -
  have "list_all (\<lambda>x. x < 86) yytable" "length yytable = 195" by (simp_all add: yytable_def)
  then show "i < 195 \<Longrightarrow> yytable ! i < 86" by (simp add: list_all_length)
qed

lemma yytranslate_below: "YYTRANSLATE c < 31"
proof -
  have "list_all (\<lambda>x. x < 31) yytranslate" "length yytranslate = 275" by (simp_all add: yytranslate_def)
  then show ?thesis by (simp add: list_all_length YYTRANSLATE_def YYMAXUTOK_def nat_less_iff)
qed

lemma look_below: "look inp < 31"
  using yytranslate_below by (simp add: look_def split: list.split)

lemma yygoto_below:
  assumes "r < 41"
  shows "yygoto r s < 86"
proof -
  have len: "length yydefgoto = 13" "length yyr1 = 41" by (simp_all add: yydefgoto_def yyr1_def)
  have "list_all (\<lambda>x. x < 44) yyr1" by (simp add: yyr1_def)
  with assms len have "yyr1 ! r < 44" by (simp add: list_all_length)
  then have i: "yyr1 ! r - 31 < 13" by linarith
  have "list_all (\<lambda>x. x < 86) yydefgoto" by (simp add: yydefgoto_def)
  with i len have "yydefgoto ! (yyr1 ! r - 31) < 86" by (simp add: list_all_length)
  then show ?thesis using yytable_below by (auto simp: yygoto_def Let_def YYNTOKENS_def YYLAST_def nat_less_iff)
qed

lemma all_statesD: "list_all P all_states \<Longrightarrow> s < 86 \<Longrightarrow> P s"
  using in_all_states by (simp only: list_all_iff)

lemma no_error_shift: "s < 86 \<Longrightarrow> shifts_error s = None"
proof -
  have "list_all (\<lambda>s. shifts_error s = None) all_states"
    by (simp add: all_states_def shifts_error_def YYPACT_NINF_def YYLAST_def table_facts)
  then show "s < 86 \<Longrightarrow> shifts_error s = None" by (rule all_statesD)
qed

lemma consistent_reduces: "s < 86 \<Longrightarrow> yypact ! s = YYPACT_NINF \<Longrightarrow> yydefact ! s \<noteq> 0"
proof -
  have "list_all (\<lambda>s. yypact ! s = - 25 \<longrightarrow> yydefact ! s \<noteq> 0) all_states"
    by (simp add: all_states_def table_facts)
  from all_statesD [OF this] show "s < 86 \<Longrightarrow> yypact ! s = YYPACT_NINF \<Longrightarrow> yydefact ! s \<noteq> 0"
    by (simp add: YYPACT_NINF_def)
qed

lemma error_pop_none: "list_all (\<lambda>x. fst x < 86) st \<Longrightarrow> error_pop st = None"
  by (induction st rule: error_pop.induct) (auto simp: no_error_shift)


definition same_result :: "token list outcome res \<Rightarrow> (config + nat \<times> rules) res \<Rightarrow> bool" where
  "same_result m m' =
     (case m of Ret x \<Rightarrow> (\<exists>y. m' = Ret y \<and> outcome_follows x y) | Ub \<Rightarrow> m' = Ub | Fuel \<Rightarrow> m' = Fuel | Abort \<Rightarrow> m' = Abort)"

lemma same_result_bind:
  "(\<And>x. m = Ret x \<Longrightarrow> same_result (f x) (g x)) \<Longrightarrow> same_result (rbind m f) (rbind m g)"
  by (cases m) (auto simp: same_result_def)

lemma push_follows:
  "follows P (st, inp, R) \<Longrightarrow> s < 86 \<Longrightarrow> outcome_follows (yypush s v P) (lr_push s v (st, inp, R))"
  by (auto simp: yypush_def lr_push_def follows_def Let_def pending_input_def)

lemma reduce_follows:
  assumes "follows P (st, inp, R)" "r < 41"
  shows "same_result (yyreduce k r P) (lr_reduce k r (st, inp, R))"
proof -
  from assms have st: "ps_stack P = st" "ps_rules P = R" by (simp_all add: follows_def)
  have "follows (P\<lparr>ps_stack := drop n st, ps_rules := R'\<rparr>) (drop n st, inp, R')" for n R'
    using assms(1) by (auto simp: follows_def pending_input_def list_all_iff dest: in_set_dropD)
  then have push: "drop n st = (s, v) # st' \<Longrightarrow>
      outcome_follows (yypush (yygoto r s) w (P\<lparr>ps_stack := (s, v) # st', ps_rules := R'\<rparr>))
        (lr_push (yygoto r s) w ((s, v) # st', inp, R'))" for n s v st' w R'
    using push_follows yygoto_below [OF assms(2)] by metis
  show ?thesis
    unfolding yyreduce_def lr_reduce_def Let_def st prod.case
    by (intro same_result_bind) (auto simp: same_result_def push split: list.split)
qed

lemma decide_shift: "s < 86 \<Longrightarrow> t < 31 \<Longrightarrow> decide s t = Shift s' \<Longrightarrow> s' < 86"
  using shift_ok_all [of s t] by (simp add: shift_ok_def edge_def)

lemma decide_reduce: "s < 86 \<Longrightarrow> t < 31 \<Longrightarrow> decide s t = Reduce r \<Longrightarrow> 0 < r \<and> r < 41 \<and> r = yydefact ! s"
  using shift_ok_all [of s t] by (simp add: shift_ok_def)

lemma with_values_length [simp]: "length (with_values v ts) = Suc (length ts)"
  by (induction v ts rule: with_values.induct) auto

lemma advance_Cons: "advance (x # with_values v ts) = with_values v ts"
  by (simp add: advance_def)

definition read_token :: "token list parser \<Rightarrow> token list parser res" where
  "read_token P =
     (if ps_char P = YYEMPTY
      then rbind (list_lex (ps_lex P) (ps_lval P)) (\<lambda>(c, v, l). Ret (P\<lparr>ps_char := c, ps_lval := v, ps_lex := l\<rparr>))
      else Ret P)"

lemma token_distinct [simp]:
  "YYEMPTY \<noteq> YYEOF" "YYEOF \<noteq> YYEMPTY" "YYEMPTY \<noteq> YYerror" "YYEOF \<noteq> YYerror" "\<not> 0 < YYEMPTY" "\<not> 0 < YYEOF"
  by (simp_all add: token_codes)

lemma read_follows:
  assumes "follows P (st, inp, R)"
  obtains P' where "read_token P = Ret P'" "follows P' (st, inp, R)"
    "ps_char P' = YYEOF \<or> 0 < ps_char P' \<and> ps_char P' \<noteq> YYerror" "YYTRANSLATE (ps_char P') = look inp"
    "snd (hd inp) = ps_lval P'" "follows (P'\<lparr>ps_char := YYEMPTY\<rparr>) (st, advance inp, R)"
proof (cases "ps_char P = YYEMPTY")
  case False
  with assms that [of P] show ?thesis
    by (auto simp: read_token_def follows_def pending_input_def look_def advance_Cons) (simp_all add: advance_def)
next
  case True
  show ?thesis
  proof (cases "ps_lex P")
    case Nil
    with True assms that [of "P\<lparr>ps_char := YYEOF\<rparr>"] show ?thesis
      by (auto simp: read_token_def follows_def pending_input_def look_def advance_def token_codes)
  next
    case (Cons t ts)
    obtain c w where t: "t = (c, w)" by (cases t)
    define v where "v = (case w of None \<Rightarrow> ps_lval P | Some w \<Rightarrow> w)"
    have wv: "with_values (ps_lval P) ((c, w) # ts) = (c, v) # with_values v ts"
      by (cases w) (simp_all add: v_def)
    from True Cons t assms that [of "P\<lparr>ps_char := c, ps_lval := v, ps_lex := ts\<rparr>"] show ?thesis
      by (auto simp: read_token_def follows_def pending_input_def look_def wv advance_Cons token_code_ok_def
          token_codes v_def)
  qed
qed

lemma step_follows:
  assumes f: "follows P C"
  shows "same_result (yybackup list_lex k P) (lr_step k C)"
proof (cases "ps_stack P")
  case Nil
  with f show ?thesis by (simp add: follows_def yybackup_def lr_step_def same_result_def)
next
  case (Cons x st)
  obtain s v where x: "x = (s, v)" by (cases x)
  define inp where "inp = pending_input P"
  from f Cons x have C: "C = ((s, v) # st, inp, ps_rules P)" and s: "s < 86"
    by (simp_all add: follows_def inp_def)
  note red = decide_reduce [OF s look_below [of inp]]
  consider (final) "s = YYFINAL" | (default) "s \<noteq> YYFINAL" "yypact ! s = YYPACT_NINF"
    | (table) "\<not> (s = YYFINAL \<or> yypact ! s = YYPACT_NINF)" by blast
  then show ?thesis
  proof cases
    case final
    then show ?thesis by (simp add: yybackup_def lr_step_def same_result_def Cons x C)
  next
    case default
    have d: "decide s (look inp) = Reduce (yydefact ! s)"
      using consistent_reduces [OF s default(2)] default(2) by (simp add: decide_def)
    have "yybackup list_lex k P = yyreduce k (yydefact ! s) P"
      using default consistent_reduces [OF s default(2)] by (simp add: yybackup_def Cons x yydefault_def)
    with d default(1) reduce_follows [OF f [unfolded C]] red [OF d] show ?thesis by (simp add: lr_step_def C)
  next
    case table
    note False = this
    obtain P' where P': "read_token P = Ret P'" "follows P' ((s, v) # st, inp, ps_rules P)"
      "ps_char P' = YYEOF \<or> 0 < ps_char P' \<and> ps_char P' \<noteq> YYerror" "YYTRANSLATE (ps_char P') = look inp"
      "snd (hd inp) = ps_lval P'" "follows (P'\<lparr>ps_char := YYEMPTY\<rparr>) ((s, v) # st, advance inp, ps_rules P)"
      using f unfolding C by (rule read_follows)
    have "\<not> ps_char P' \<le> YYEOF \<or> P'\<lparr>ps_char := YYEOF\<rparr> = P'" using P'(3) by (auto simp: token_codes)
    then have char: "ps_char P' \<noteq> YYerror" "(if ps_char P' \<le> YYEOF then P'\<lparr>ps_char := YYEOF\<rparr> else P') = P'"
      "ps_char P' \<noteq> YYEMPTY" using P'(3) by (simp_all add: token_codes) linarith+
    have step: "yybackup list_lex k P = (let i = yypact ! s + int (look inp) in
      if i < 0 \<or> YYLAST < i \<or> yycheck ! nat i \<noteq> int (look inp) then yydefault k s P'
      else if yytable ! nat i = 0 then yyreduce k 0 P'
      else Ret (yyshift (yytable ! nat i) P'))"
      using False P'(1) char
      by (simp add: yybackup_def Cons x read_token_def [symmetric] Let_def P'(4))
    have err: "yyerrlab s P' = Returned 1 (yyerror (SyntaxError s (int (look inp))) (ps_rules P))"
      using P'(2,4) char error_pop_none [of "(s, v) # st"]
      by (simp add: yyerrlab_def yyerrlab1_def Let_def follows_def C)
    have shift: "outcome_follows (yyshift s' P') (lr_push s' (snd (hd inp)) ((s, v) # st, advance inp, ps_rules P))"
      if "decide s (look inp) = Shift s'" for s'
    proof -
      have "P'\<lparr>ps_char := YYEMPTY, ps_errstatus := ps_errstatus P' - 1\<rparr> = P'\<lparr>ps_char := YYEMPTY\<rparr>"
        using P'(2) by (simp add: follows_def)
      then show ?thesis
        using push_follows [OF P'(6) decide_shift [OF s look_below that]] P'(5) by (simp add: yyshift_def)
    qed
    have red0: "decide s (look inp) \<noteq> Reduce 0" using red [of 0] by blast
    show ?thesis
    proof (cases "decide s (look inp)")
      case (Shift s')
      then have "yybackup list_lex k P = Ret (yyshift s' P')"
        using False unfolding step by (auto simp: decide_def act_at_def Let_def split: if_splits)
      with Shift shift False show ?thesis by (auto simp: lr_step_def C same_result_def)
    next
      case (Reduce r)
      with red0 have "yybackup list_lex k P = yyreduce k r P'"
        using False unfolding step by (auto simp: decide_def act_at_def Let_def yydefault_def split: if_splits)
      with Reduce False reduce_follows [OF P'(2)] red [OF Reduce] show ?thesis by (simp add: lr_step_def C)
    next
      case Error
      then have "yybackup list_lex k P = Ret (yyerrlab s P')"
        using False unfolding step by (auto simp: decide_def act_at_def Let_def yydefault_def split: if_splits)
      with Error False show ?thesis by (simp add: lr_step_def C same_result_def err)
    qed
  qed
qed

lemma loop_follows: "follows P C \<Longrightarrow> yyloop list_lex k n P = lr_loop k n C"
proof (induction n arbitrary: P C)
  case (Suc n)
  note step = step_follows [OF Suc.prems, of k]
  show ?case
  proof (cases "yybackup list_lex k P")
    case (Ret out)
    with step obtain c where c: "lr_step k C = Ret c" "outcome_follows out c" by (auto simp: same_result_def)
    with Ret Suc.IH show ?thesis by (cases out; cases c) auto
  qed (use step in \<open>auto simp: same_result_def\<close>)
qed simp

lemma init_follows:
  "list_all token_code_ok ts \<Longrightarrow> follows (yyinit ts R) ([(0, YyGarbage)], with_values YyGarbage ts, R)"
  by (simp add: follows_def yyinit_def pending_input_def)

text \<open>C9: The parser of \<open>src/rules.c\<close>, which reads a token only when its state needs one and keeps it
  in \<open>yychar\<close>, does on every list of tokens what the machine without a lookahead variable does,
  results, messages and undefined behaviour included.\<close>

theorem yyparse_is_machine:
  assumes "list_all token_code_ok ts"
  shows "yyparse list_lex k n ts R = lr_parse k n (with_values YyGarbage ts) R"
  unfolding yyparse_def lr_parse_def by (rule loop_follows [OF init_follows [OF assms]])

theorem yyparse_is_machine_witness:
  "yyparse list_lex 1 9 [(T_KEY_VAR, None)] engine_new = lr_parse 1 9 [(T_KEY_VAR, YyGarbage), (YYEOF, YyGarbage)] engine_new"
  using yyparse_is_machine [of "[(T_KEY_VAR, None)]"] by (simp add: token_code_ok_def token_codes)

end
