(* ===== verification/RulesHeap.thy ===== *)
theory RulesHeap
  imports Parser ExprSafe
begin

text \<open>
  What the actions of the parser do to the heap: each takes references and drops its own, so that
  all that remains is one new node, or two. The references a semantic value holds are counted as roots of the
  heap; an action passes them on.
\<close>

section \<open>Taking and dropping a reference\<close>

definition bump :: "addr \<Rightarrow> int \<Rightarrow> expr_heap \<Rightarrow> expr_heap" where
  "bump a d h =
     (case eh_cell h a of None \<Rightarrow> h | Some x \<Rightarrow> expr_put a (x\<lparr>ex_nref := ex_nref x + d\<rparr>) h)"

definition nref :: "expr_heap \<Rightarrow> addr \<Rightarrow> int" where
  "nref h a = (case eh_cell h a of None \<Rightarrow> 0 | Some x \<Rightarrow> ex_nref x)"

lemma nref_bump: "0 < nref h a \<Longrightarrow> nref (bump a d h) b = nref h b + (if b = a then d else 0)"
  by (auto simp: nref_def bump_def expr_put_def split: option.splits)

lemma bump_commute: "bump a d (bump b e h) = bump b e (bump a d h)"
  by (cases "a = b") (auto simp: bump_def expr_put_def fun_upd_twist ac_simps split: option.splits)

lemma bump_bump: "bump a d (bump a e h) = bump a (d + e) h"
  by (auto simp: bump_def expr_put_def add.commute add.left_commute split: option.splits)

lemma bump_zero: "bump a 0 h = h"
  by (auto simp: bump_def expr_put_def fun_upd_idem split: option.splits)

lemma ref_bump: "0 < nref h a \<Longrightarrow> expr_ref a h = Ret (bump a 1 h)"
  by (auto simp: nref_def bump_def expr_ref_def expr_at_def split: option.splits)

lemma unref_bump: "1 < nref h a \<Longrightarrow> 0 < k \<Longrightarrow> expr_unref k a h = Ret (bump a (- 1) h)"
  by (cases k) (auto simp: nref_def bump_def expr_at_def split: option.splits)

lemma ref_unref:
  assumes "0 < nref h a" "0 < k"
  shows "rbind (expr_ref a h) (expr_unref k a) = Ret h"
  using assms by (simp add: ref_bump unref_bump nref_bump bump_bump bump_zero)

lemma refs_unrefs:
  assumes "0 < nref h a" "0 < nref h b" "0 < k"
  shows "rbind (expr_ref a h) (\<lambda>h. rbind (expr_ref b h) (\<lambda>h. rbind (expr_unref k a h) (expr_unref k b))) = Ret h"
  using assms by (auto simp: ref_bump unref_bump nref_bump bump_bump bump_zero bump_commute [of a "- 1" b])

section \<open>New nodes\<close>

definition alloc :: "expr_data \<Rightarrow> expr_heap \<Rightarrow> expr_heap" where
  "alloc d h = snd (expr_alloc d h)"

lemma expr_alloc_eq: "expr_alloc d h = (eh_next h, alloc d h)"
  by (simp add: expr_alloc_def alloc_def)

lemma alloc_cell: "eh_cell (alloc d h) = (eh_cell h)(eh_next h \<mapsto> \<lparr>ex_data = d, ex_nref = 1\<rparr>)"
  "eh_next (alloc d h) = Suc (eh_next h)"
  by (simp_all add: alloc_def expr_alloc_def)

lemma nref_alloc: "nref (alloc d h) a = (if a = eh_next h then 1 else nref h a)"
  by (simp add: nref_def alloc_cell)

text \<open>Counted references, and operands that are older than the node.\<close>

definition heap_counted :: "addr multiset \<Rightarrow> expr_heap \<Rightarrow> bool" where
  "heap_counted M h \<longleftrightarrow> heap_wf M {} h \<and> kids_fall (\<lambda>a. a) h"

lemma heap_counted_empty: "heap_counted {#} heap_empty"
  by (simp add: heap_counted_def heap_wf_def heap_empty_def heap_refs_def kids_fall_def)

lemma counted_live: "heap_counted M h \<Longrightarrow> a \<in># M \<Longrightarrow> 0 < nref h a \<and> a < eh_next h"
proof -
  assume h: "heap_counted M h" and a: "a \<in># M"
  then obtain x where x: "eh_cell h a = Some x"
    using heap_wf_live [of M h a] by (auto simp: heap_counted_def)
  moreover from h x a have "0 < ex_nref x"
    using heap_wf_cell [of M "{}" h a] by (auto simp: heap_counted_def simp del: count_greater_zero_iff)
  ultimately show ?thesis using h heap_wf_next [of M "{}" h a] by (simp add: nref_def heap_counted_def)
qed

lemma counted_alloc:
  assumes h: "heap_counted (mset (kids d) + M) h"
  shows "heap_counted (add_mset (eh_next h) M) (alloc d h)"
proof -
  let ?a = "eh_next h" and ?h = "alloc d h"
  have wf: "heap_wf (mset (kids d) + M) {} h" using h by (simp add: heap_counted_def)
  have kids: "\<forall>b\<in>set (kids d). b < ?a" using counted_live [OF h] by auto
  have fresh: "eh_cell h b = None" if "?a \<le> b" for b using heap_wf_fresh [OF wf that] .
  have zero: "count (heap_refs {} h + (mset (kids d) + M)) ?a = 0"
    using heap_wf_cell [OF wf, of ?a] fresh [of ?a] by simp
  have refs: "heap_refs {} ?h = heap_refs {} h + mset (kids d)"
    by (simp add: heap_refs_def alloc_cell lessThan_Suc add.commute)
  have "heap_wf (add_mset ?a M) {} ?h"
  proof (rule heap_wfI)
    fix b
    show "cell_ok (b \<in> {}) (count (heap_refs {} ?h + add_mset ?a M) b) (eh_cell ?h b)"
      unfolding refs using heap_wf_cell [OF wf, of b] zero
      by (cases "b = ?a") (auto simp: alloc_cell ac_simps simp del: count_greater_zero_iff)
    show "eh_next ?h \<le> b \<Longrightarrow> eh_cell ?h b = None" using fresh [of b] by (simp add: alloc_cell)
  qed simp
  moreover have "kids_fall (\<lambda>a. a) ?h"
    using h kids by (auto simp: heap_counted_def kids_fall_def alloc_cell)
  ultimately show ?thesis by (simp add: heap_counted_def)
qed

text \<open>The constructors, for operands that are live.\<close>

lemma new_op_eq:
  assumes "0 < nref (ru_heap R) a" "0 < nref (ru_heap R) b" "a < eh_next (ru_heap R)" "b < eh_next (ru_heap R)" "0 < k"
  shows "new_op k op a b R = Ret (YyExpr (eh_next (ru_heap R)), set_heap R (alloc (EX_OP op a b) (ru_heap R)))"
proof -
  let ?h = "alloc (EX_OP op a b) (ru_heap R)"
  have "0 < nref ?h a" "0 < nref ?h b" using assms by (simp_all add: nref_alloc)
  from refs_unrefs [OF this assms(5)] show ?thesis
    by (auto simp: new_op_def expr_new_op_def expr_alloc_eq unref_def set_heap_def rbind_assoc)
qed

section \<open>The roots of a value\<close>

definition entry_roots :: "label_entry \<Rightarrow> addr multiset" where
  "entry_roots e = {#le_cond e, as_rval (le_ass e)#}"

definition trigger_roots :: "trigger \<Rightarrow> addr multiset" where
  "trigger_roots t = add_mset (tr_cond t) (mset (map as_rval (tr_ass t)))"

definition block_roots :: "label_block \<Rightarrow> addr multiset" where
  "block_roots b = sum_list (map entry_roots b)"

fun value_roots :: "yystype \<Rightarrow> addr multiset" where
  "value_roots (YyExpr a) = {#a#}"
| "value_roots (YyAss a) = {#as_rval a#}"
| "value_roots (YyTrigger t) = trigger_roots t"
| "value_roots (YyEntry e) = entry_roots e"
| "value_roots (YyBlock b) = block_roots b"
| "value_roots (YyExprs as) = mset as"
| "value_roots (YyEntries b) = block_roots b"
| "value_roots (YyAsses as) = mset (map as_rval as)"
| "value_roots _ = {#}"

definition rules_roots :: "rules \<Rightarrow> addr multiset" where
  "rules_roots R = sum_list (map block_roots (ru_labels R)) + sum_list (map trigger_roots (ru_triggers R))
     + mset (map (var_value \<circ> snd) (ru_vars R)) + mset (map var_value (ru_replaced R))"

lemma block_roots_retarget: "block_roots (map (retarget s fb) es) = block_roots es"
  by (induction es) (simp_all add: block_roots_def entry_roots_def retarget_def)

lemma gh_insert_roots:
  "mset (map (f \<circ> snd) (gh_insert t s v)) + (case gh_lookup t s of None \<Rightarrow> {#} | Some w \<Rightarrow> {#f w#})
     = add_mset (f v) (mset (map (f \<circ> snd) t))"
  by (induction t) (auto simp: gh_lookup_def split: option.splits)

end
