(* ===== verification/RulesSafe.thy ===== *)
theory RulesSafe
  imports RulesRun RulesHeap
begin

text \<open>
  The parser is safe: semantic values are read through the member they were written through, the
  stack is never read below its bottom, the nodes keep their reference counts, and the parser
  returns. The two holes of the grammar are excluded by a condition on the tokens: a call of an unknown
  function, and a call whose argument list is empty or begins with a comma.
\<close>

section \<open>Typed values\<close>

definition plain :: "yystype \<Rightarrow> bool" where
  "plain v = (case v of YyDval _ \<Rightarrow> True | YySval _ \<Rightarrow> True | YyUval _ \<Rightarrow> True | YyGarbage \<Rightarrow> True | _ \<Rightarrow> False)"

text \<open>The declarations \<open>%type\<close> and \<open>%token\<close> of \<open>src/rules.y\<close>, by symbol number.\<close>

definition vt :: "nat \<Rightarrow> yystype \<Rightarrow> bool" where
  "vt A v =
     (if A = 16 then \<exists>d. v = YyDval d
      else if A = 17 then \<exists>s. v = YySval s
      else if A = 18 then \<exists>w. v = YyUval w
      else if A = 35 then \<exists>b. v = YyBlock b
      else if A = 36 then \<exists>es. v = YyEntries es
      else if A = 37 then \<exists>e. v = YyEntry e
      else if A = 38 then \<exists>t. v = YyTrigger t
      else if A = 39 then \<exists>as. v = YyAsses as
      else if A = 40 then \<exists>a. v = YyAss a
      else if A = 42 then \<exists>a. v = YyExpr a
      else if A = 43 then \<exists>as. v = YyExprs as
      else A \<in> {32, 33, 34} \<or> plain v)"

text \<open>What an instruction held has passed to the engine.\<close>

definition symbol_roots :: "nat \<Rightarrow> yystype \<Rightarrow> addr multiset" where
  "symbol_roots A v = (if A \<in> {32, 33, 34} then {#} else value_roots v)"

lemma plain_roots: "plain v \<Longrightarrow> value_roots v = {#}"
  by (cases v) (simp_all add: plain_def)

lemma terminal_roots: "vt A v \<Longrightarrow> A < 31 \<or> A = 41 \<Longrightarrow> symbol_roots A v = {#}"
  by (auto simp: vt_def symbol_roots_def plain_roots split: if_splits)

definition known_function :: "string \<Rightarrow> bool" where
  "known_function f \<longleftrightarrow> f \<in> {''MIN'', ''MAX'', ''ROUND'', ''LIMIT'', ''EVAL'', ''CHANGED''}"

definition known_name :: "yystype \<Rightarrow> bool" where
  "known_name v = (case v of YySval f \<Rightarrow> known_function f | _ \<Rightarrow> False)"

section \<open>The actions\<close>

definition action_goes ::
  "nat \<Rightarrow> addr multiset \<Rightarrow> (yystype \<times> rules) res \<Rightarrow> bool" where
  "action_goes A X m \<longleftrightarrow> (\<exists>v R. m = Ret (v, R) \<and> vt A v \<and>
     heap_counted (symbol_roots A v + X + rules_roots R) (ru_heap R))"

lemma action_goesI:
  "m = Ret (v, R) \<Longrightarrow> vt A v \<Longrightarrow> heap_counted (symbol_roots A v + X + rules_roots R) (ru_heap R) \<Longrightarrow> action_goes A X m"
  by (auto simp: action_goes_def)

lemma rules_roots_heap [simp]: "rules_roots (set_heap R h) = rules_roots R"
  "ru_heap (set_heap R h) = h"
  by (simp_all add: rules_roots_def set_heap_def)

lemma set_heap_same [simp]: "set_heap R (ru_heap R) = R"
  by (simp add: set_heap_def)

lemma yyvsp_simps [simp]: "yyvsp (v # vs) 0 = Ret v" "yyvsp (v # vs) (Suc n) = yyvsp vs n"
  by (simp_all add: yyvsp_def pdata_def)

lemma yyvsp_numeral [simp]: "yyvsp (v # vs) (numeral n) = yyvsp vs (pred_numeral n)"
  by (simp add: numeral_eq_Suc)

text \<open>An expression that passes from the stack to an owner.\<close>

lemma pass_live:
  "0 < nref (ru_heap R) a \<Longrightarrow> 0 < k \<Longrightarrow> rbind (expr_ref a (ru_heap R)) (\<lambda>h. unref k a (set_heap R h)) = Ret R"
  using ref_unref [of "ru_heap R" a k] by (auto simp: unref_def set_heap_def)

lemma new_node_goes:
  assumes "heap_counted (mset (kids d) + X + rules_roots R) (ru_heap R)"
    "m = Ret (YyExpr (eh_next (ru_heap R)), set_heap R (alloc d (ru_heap R)))"
  shows "action_goes 42 X m"
  using counted_alloc [of d "X + rules_roots R" "ru_heap R"] assms
  by (intro action_goesI [OF assms(2)]) (simp_all add: vt_def symbol_roots_def add.assoc)

lemma op_goes:
  assumes "heap_counted ({#a, b#} + X + rules_roots R) (ru_heap R)" "0 < k"
  shows "action_goes 42 X (new_op k op a b R)"
  by (rule new_node_goes [where d = "EX_OP op a b"])
    (use assms counted_live [OF assms(1), of a] counted_live [OF assms(1), of b] in \<open>simp_all add: new_op_eq\<close>)


lemma label_entry_eq:
  assumes "0 < nref (ru_heap R) r" "0 < nref (ru_heap R) c" "0 < k"
  shows "action_label_entry k (v0 # YyExpr c # v2 # YyExpr r # vs) R =
    Ret (YyEntry \<lparr>le_cond = c, le_ass = \<lparr>as_id = '''', as_rval = r, as_flag_bit = 0\<rparr>\<rparr>, R)"
  using assms
  by (auto simp: action_label_entry_def expr_ptr_def assign_new_def label_entry_new_def unref_def ref_bump unref_bump
      nref_bump bump_bump bump_zero bump_commute [of r "- 1" c] set_heap_def)

lemma trigger_eq:
  assumes "0 < nref (ru_heap R) c" "0 < k"
  shows "action_trigger k (v0 # YyAsses as # v2 # YyExpr c # vs) R = Ret (YyTrigger \<lparr>tr_cond = c, tr_ass = as\<rparr>, R)"
  using pass_live [OF assms] by (auto simp: action_trigger_def expr_ptr_def ass_array_def trigger_new_def)

lemma assignment_eq:
  assumes "0 < nref (ru_heap R) e" "0 < k"
  shows "action_assignment k 16 (YyExpr e # v1 # YySval s # vs) R =
      Ret (YyAss \<lparr>as_id = s, as_rval = e, as_flag_bit = 0\<rparr>, R)"
    "action_assignment k 17 (YyExpr e # v1 # YyUval fb # v3 # YySval s # vs) R =
      Ret (YyAss \<lparr>as_id = s, as_rval = e, as_flag_bit = fb\<rparr>, R)"
  using pass_live [OF assms]
  by (auto simp: action_assignment_def expr_ptr_def sval_def uval_def assign_new_flag_def assign_new_def rbind_assoc)

lemma label_entry_goes:
  assumes "heap_counted ({#c, r#} + X + rules_roots R) (ru_heap R)" "0 < k"
  shows "action_goes 37 X (action_label_entry k (v0 # YyExpr c # v2 # YyExpr r # vs) R)"
proof (rule action_goesI)
  have "0 < nref (ru_heap R) r" "0 < nref (ru_heap R) c"
    using counted_live [OF assms(1), of c] counted_live [OF assms(1), of r] by simp_all
  from label_entry_eq [OF this assms(2)] show "action_label_entry k (v0 # YyExpr c # v2 # YyExpr r # vs) R =
      Ret (YyEntry \<lparr>le_cond = c, le_ass = \<lparr>as_id = '''', as_rval = r, as_flag_bit = 0\<rparr>\<rparr>, R)" .
qed (use assms(1) in \<open>simp_all add: vt_def symbol_roots_def entry_roots_def\<close>)

lemma trigger_goes:
  assumes "heap_counted (mset (map as_rval as) + {#c#} + X + rules_roots R) (ru_heap R)" "0 < k"
  shows "action_goes 38 X (action_trigger k (v0 # YyAsses as # v2 # YyExpr c # vs) R)"
proof (rule action_goesI)
  show "action_trigger k (v0 # YyAsses as # v2 # YyExpr c # vs) R = Ret (YyTrigger \<lparr>tr_cond = c, tr_ass = as\<rparr>, R)"
    using trigger_eq counted_live [OF assms(1), of c] assms(2) by simp
qed (use assms(1) in \<open>simp_all add: vt_def symbol_roots_def trigger_roots_def\<close>)

lemma assignment_goes:
  assumes "heap_counted ({#e#} + X + rules_roots R) (ru_heap R)" "0 < k"
  shows "action_goes 40 X (action_assignment k 16 (YyExpr e # v1 # YySval s # vs) R)"
    "action_goes 40 X (action_assignment k 17 (YyExpr e # v1 # YyUval fb # v3 # YySval s # vs) R)"
  using assms assignment_eq [OF _ assms(2), of R e] counted_live [OF assms(1), of e]
  by (auto simp: action_goes_def vt_def symbol_roots_def)

lemma insert_var_roots: "rules_roots (insert_var s v R) = add_mset (var_value v) (rules_roots R)"
  "ru_heap (insert_var s v R) = ru_heap R"
proof -
  have "mset (map (var_value \<circ> snd) (gh_insert (ru_vars R) s v)) +
      mset (map var_value (case gh_lookup (ru_vars R) s of None \<Rightarrow> [] | Some old \<Rightarrow> [old])) =
      add_mset (var_value v) (mset (map (var_value \<circ> snd) (ru_vars R)))"
    using gh_insert_roots [of var_value "ru_vars R" s v] by (auto split: option.splits)
  then show "rules_roots (insert_var s v R) = add_mset (var_value v) (rules_roots R)"
    by (simp add: rules_roots_def insert_var_def ac_simps)
qed (simp add: insert_var_def)

lemma declare_eq:
  assumes "0 < nref (ru_heap R) e" "0 < k"
  shows "rbind (st_var_new s e (ru_heap R)) (\<lambda>(var, h).
      rbind (unref k e (insert_var s var (set_heap R h))) (\<lambda>R. Ret (yyval, R)))
    = Ret (yyval, insert_var s \<lparr>var_name = s, var_value = e\<rparr> R)"
  using assms
  by (simp add: st_var_new_def ref_bump unref_def unref_bump nref_bump bump_bump bump_zero insert_var_def set_heap_def)

lemma declaration_goes:
  assumes "heap_counted (M + X + rules_roots R) (ru_heap R)" "0 < k" "plain yyval"
  shows "M = {#} \<Longrightarrow> action_goes 41 X (action_declaration k 18 (v0 # YySval s # vs) yyval R)"
    "M = {#e#} \<Longrightarrow> action_goes 41 X (action_declaration k 19 (v0 # YyExpr e # v2 # YySval s # vs) yyval R)"
proof -
  show "action_goes 41 X (action_declaration k 18 (v0 # YySval s # vs) yyval R)" if "M = {#}"
  proof (rule action_goesI)
    let ?a = "eh_next (ru_heap R)" and ?h = "alloc (EX_LITERAL f64_zero) (ru_heap R)"
    show "action_declaration k 18 (v0 # YySval s # vs) yyval R =
        Ret (yyval, insert_var s \<lparr>var_name = s, var_value = ?a\<rparr> (set_heap R ?h))"
      using declare_eq [of "set_heap R ?h" ?a k s yyval] assms(2)
      by (simp add: action_declaration_def sval_def expr_new_literal_def expr_alloc_eq nref_alloc)
        (simp add: set_heap_def)
    show "heap_counted (symbol_roots 41 yyval + X +
        rules_roots (insert_var s \<lparr>var_name = s, var_value = ?a\<rparr> (set_heap R ?h)))
        (ru_heap (insert_var s \<lparr>var_name = s, var_value = ?a\<rparr> (set_heap R ?h)))"
      using counted_alloc [of "EX_LITERAL f64_zero" "X + rules_roots R" "ru_heap R"] assms(1) that
      by (simp add: insert_var_roots symbol_roots_def plain_roots [OF assms(3)])
  qed (use assms(3) in \<open>simp add: vt_def\<close>)
  show "action_goes 41 X (action_declaration k 19 (v0 # YyExpr e # v2 # YySval s # vs) yyval R)" if "M = {#e#}"
  proof (rule action_goesI)
    show "action_declaration k 19 (v0 # YyExpr e # v2 # YySval s # vs) yyval R =
        Ret (yyval, insert_var s \<lparr>var_name = s, var_value = e\<rparr> R)"
      using declare_eq [of R e k s yyval] counted_live [OF assms(1), of e] assms(2) that
      by (simp add: action_declaration_def sval_def expr_ptr_def)
    show "heap_counted (symbol_roots 41 yyval + X + rules_roots (insert_var s \<lparr>var_name = s, var_value = e\<rparr> R))
        (ru_heap (insert_var s \<lparr>var_name = s, var_value = e\<rparr> R))"
      using assms(1) that by (simp add: insert_var_roots symbol_roots_def plain_roots [OF assms(3)])
  qed (use assms(3) in \<open>simp add: vt_def\<close>)
qed

lemma check_args_roots: "rules_roots (check_args ok f R) = rules_roots R" "ru_heap (check_args ok f R) = ru_heap R"
  by (simp_all add: check_args_def yyerror_def rules_roots_def)

definition call_node :: "bool \<Rightarrow> string \<Rightarrow> string \<Rightarrow> addr list \<Rightarrow> expr_heap \<Rightarrow> rules \<Rightarrow> (yystype \<times> rules) res" where
  "call_node ok f g as h R = Ret (YyExpr (eh_next h), set_heap (check_args ok f R) (alloc (EX_FUNC g as) h))"

lemma call_node_goes:
  assumes "heap_counted (mset as + X + rules_roots R) h"
  shows "action_goes 42 X (call_node ok f g as h R)"
proof -
  have "heap_counted (mset as + X + rules_roots (set_heap (check_args ok f R) h)) h"
    using assms by (simp only: rules_roots_heap check_args_roots)
  then show ?thesis
    by (intro new_node_goes [where d = "EX_FUNC g as" and R = "set_heap (check_args ok f R) h"])
      (simp_all add: call_node_def, simp add: set_heap_def)
qed

text \<open>The numbers of arguments that are not reported.\<close>

definition args_ok :: "string \<Rightarrow> nat \<Rightarrow> bool" where
  "args_ok f n = (if f = ''ROUND'' \<or> f = ''EVAL'' then n = 1 else if f = ''LIMIT'' then n = 3 else 0 < n)"

lemma action_call_eq:
  assumes "known_function f"
  shows "action_call (v0 # YyExprs as # v2 # YySval f # vs) R =
    (if f = ''CHANGED''
     then call_node (args_ok f (length as)) f f (as @ [eh_next (ru_heap R)]) (alloc (EX_LITERAL G_MINDOUBLE) (ru_heap R)) R
     else call_node (args_ok f (length as)) f f as (ru_heap R) R)"
proof -
  note eval = action_call_def sval_def expr_array_def Let_def check_args_roots expr_new_func_def expr_new_func_min_def
    expr_new_func_max_def expr_new_func_round_def expr_new_func_limit_def expr_new_func_eval_def
    expr_new_func_changed_def expr_new_literal_def expr_alloc_eq call_node_def args_ok_def
  have "f = ''MIN'' \<or> f = ''MAX'' \<or> f = ''ROUND'' \<or> f = ''LIMIT'' \<or> f = ''EVAL'' \<or> f = ''CHANGED''"
    using assms by (simp only: known_function_def insert_iff empty_iff simp_thms)
  then show ?thesis by (elim disjE) (simp_all add: eval Suc_le_eq)
qed

lemma call_goes:
  assumes "heap_counted (mset as + X + rules_roots R) (ru_heap R)" "known_function f"
  shows "action_goes 42 X (action_call (v0 # YyExprs as # v2 # YySval f # vs) R)"
proof -
  let ?h = "alloc (EX_LITERAL G_MINDOUBLE) (ru_heap R)" and ?l = "eh_next (ru_heap R)"
  have h: "heap_counted (mset (as @ [?l]) + X + rules_roots R) ?h"
    using counted_alloc [of "EX_LITERAL G_MINDOUBLE" "mset as + X + rules_roots R"] assms(1)
    by (simp add: add.assoc)
  show ?thesis
    using call_node_goes [OF h] call_node_goes [OF assms(1)] action_call_eq [OF assms(2), of v0 as v2 vs R]
    by (simp split: if_split)
qed

section \<open>Every action\<close>

text \<open>
  The value of a rule is typed and owns what its right-hand side owned, less what went into a new
  node or into the engine. The empty argument list, rule 38, is not among them.
\<close>

definition seg_roots :: "nat list \<Rightarrow> yystype list \<Rightarrow> addr multiset" where
  "seg_roots xs us = sum_list (map2 symbol_roots xs us)"

lemma seg_roots_simps [simp]: "seg_roots [] us = {#}" "seg_roots (x # xs) (u # us) = symbol_roots x u + seg_roots xs us"
  by (simp_all add: seg_roots_def)

definition action_typed :: "nat \<Rightarrow> bool" where
  "action_typed r \<longleftrightarrow> (\<forall>k us vs X R.
     list_all2 vt (rev (yyrhs ! r)) us \<longrightarrow> 0 < k \<longrightarrow> (r = 37 \<longrightarrow> known_name (us ! 3)) \<longrightarrow>
     heap_counted (seg_roots (rev (yyrhs ! r)) us + X + rules_roots R) (ru_heap R) \<longrightarrow>
     action_goes (yyr1 ! r) X (yyaction k r (us @ vs) (last us) R))"

lemmas typed_eval = action_typed_def yyrhs_nth table_facts list_all2_Cons1 yyaction_def

lemma symbol_roots_typed [simp]:
  "symbol_roots 32 v = {#}" "symbol_roots 33 v = {#}" "symbol_roots 34 v = {#}"
  by (simp_all add: symbol_roots_def)

lemma vt_any [simp]: "vt 32 v" "vt 33 v" "vt 34 v"
  by (simp_all add: vt_def)

lemma list_typed: "action_typed 2" "action_typed 3" "action_typed 4"
  by (auto simp: typed_eval action_goes_def)

lemma instruction_typed: "action_typed 5" "action_typed 6" "action_typed 7"
  by (auto simp: typed_eval action_goes_def vt_def action_instruction_def label_block_ptr_def trigger_ptr_def symbol_roots_def
    rules_roots_def plain_roots add.assoc add.left_commute)

lemma label_block_typed: "action_typed 8" "action_typed 9"
  by (auto simp: typed_eval action_goes_def vt_def action_label_block_def sval_def uval_def entry_array_def symbol_roots_def
    plain_roots block_roots_retarget)

lemma label_entries_typed: "action_typed 10" "action_typed 11"
proof -
  show "action_typed 10"
    by (auto simp: typed_eval action_goes_def vt_def action_label_entries_def label_entry_ptr_def symbol_roots_def
      block_roots_def)
  have "block_roots (es @ [e]) = entry_roots e + block_roots es" for es e
    by (simp add: block_roots_def add.commute)
  then show "action_typed 11"
    by (auto simp: typed_eval action_goes_def vt_def action_label_entries_def label_entry_ptr_def entry_array_def
      symbol_roots_def)
qed

lemma label_entry_typed: "action_typed 12"
  by (auto simp: typed_eval vt_def symbol_roots_def plain_roots add_mset_commute intro!: label_entry_goes simp del: One_nat_def)

lemma trigger_typed: "action_typed 13"
  by (auto simp: typed_eval vt_def symbol_roots_def plain_roots intro!: trigger_goes simp del: One_nat_def)

lemma assignment_list_typed: "action_typed 14" "action_typed 15"
  by (auto simp: typed_eval action_goes_def vt_def action_assignment_list_def ass_ptr_def ass_array_def symbol_roots_def
    plain_roots)

lemma assignment_typed: "action_typed 16" "action_typed 17"
  by (auto simp: typed_eval vt_def symbol_roots_def plain_roots intro!: assignment_goes simp del: One_nat_def)

lemma declaration_typed: "action_typed 18" "action_typed 19"
  by (auto simp: typed_eval vt_def symbol_roots_def plain_roots simp del: One_nat_def
    intro!: declaration_goes(1) [OF _ _ _ refl] declaration_goes(2) [OF _ _ _ refl])

lemma leaf_typed: "action_typed 20" "action_typed 21" "action_typed 22"
  by (auto simp: typed_eval vt_def symbol_roots_def plain_roots action_leaf_def dval_def sval_def uval_def
    expr_new_literal_def expr_new_ref_def expr_new_flag_def expr_alloc_eq intro!: new_node_goes [OF _ refl])

lemma op_typed:
  assumes "yyrhs ! r = [42, yyrhs ! r ! 1, 42]" "yyrhs ! r ! 1 < 31" "yyr1 ! r = 42" "22 < r" "r \<le> 34"
  shows "action_typed r"
proof -
  obtain t where "yyrhs ! r = [42, t, 42]" "t < 31" using assms(1,2) by auto
  then show ?thesis
    using assms(3-) terminal_roots [of t]
  by (auto simp: action_typed_def list_all2_Cons1 yyaction_def vt_def [of 42] symbol_roots_def [of 42] action_op_def
    expr_ptr_def add_mset_commute intro!: op_goes)
qed

lemma neg_typed: "action_typed 36"
proof -
  have "action_goes 42 X (action_paren k 36 (YyExpr e # vs) R)"
    if "heap_counted (add_mset e (X + rules_roots R)) (ru_heap R)" "0 < k" for X k e vs R
  proof -
    let ?d = "EX_LITERAL (f64_of_int (- 1))" and ?h = "ru_heap R"
    have "heap_counted ({#eh_next ?h, e#} + X + rules_roots (set_heap R (alloc ?d ?h))) (ru_heap (set_heap R (alloc ?d ?h)))"
      using counted_alloc [of ?d "add_mset e (X + rules_roots R)" ?h] that(1) by simp
    from op_goes [OF this that(2)] show ?thesis
      by (simp add: action_paren_def expr_new_literal_def expr_alloc_eq expr_ptr_def)
  qed
  then show ?thesis by (auto simp: typed_eval vt_def symbol_roots_def plain_roots)
qed

lemma paren_typed: "action_typed 35"
  by (auto simp: typed_eval action_goes_def vt_def symbol_roots_def plain_roots action_paren_def expr_ptr_def)

lemma argument_list_typed: "action_typed 39" "action_typed 40"
  by (auto simp: typed_eval action_goes_def vt_def action_argument_list_def expr_ptr_def expr_array_def symbol_roots_def
    plain_roots)

lemma call_typed: "action_typed 37"
  by (auto simp: typed_eval vt_def symbol_roots_def plain_roots known_name_def intro!: call_goes simp del: One_nat_def)

lemma action_typed_all:
  assumes "1 < r" "r < 41" "r \<noteq> 38"
  shows "action_typed r"
proof -
  have all: "list_all action_typed
     ([2, 3, 4, 5, 6, 7, 8, 9, 10, 11, 12, 13, 14, 15, 16, 17, 18, 19, 20, 21, 22, 23, 24, 25, 26, 27, 28, 29, 30, 31, 32, 33, 34, 35, 36, 37] @
      [39, 40])"
    by (simp add: list_typed instruction_typed label_block_typed label_entries_typed label_entry_typed trigger_typed
      assignment_list_typed assignment_typed declaration_typed leaf_typed op_typed yyrhs_nth yyr1_nth neg_typed paren_typed
      call_typed argument_list_typed)
  have "[2, 3, 4, 5, 6, 7, 8, 9, 10, 11, 12, 13, 14, 15, 16, 17, 18, 19, 20, 21, 22, 23, 24, 25, 26, 27, 28, 29, 30, 31, 32, 33, 34, 35, 36, 37] = [2..<38]"
    "[39, 40] = [39..<41]" by code_simp+
  then have "list_all action_typed ([2..<38] @ [39..<41])" using all by (simp only:)
  moreover have "r \<in> {2..<38} \<union> {39..<41}" using assms by auto
  ultimately show ?thesis unfolding list_all_iff set_append set_upt by blast
qed

end
