(* ===== verification/RulesTotal.thy ===== *)
theory RulesTotal
  imports RulesSafe
begin

text \<open>
  The parser returns, without undefined behaviour and without losing a node. The stack is a path
  of the automaton whose values are typed; every reduction makes its weight smaller.
\<close>

section \<open>The stack\<close>

fun path :: "stack \<Rightarrow> bool" where
  "path [] = False"
| "path [(s, v)] = (s = 0 \<and> v = YyGarbage)"
| "path ((s, v) # (s', v') # st) =
     (edge s' s \<and> vt (yystos ! s) v \<and> (s = 29 \<longrightarrow> known_name v') \<and> path ((s', v') # st))"

definition stack_roots :: "stack \<Rightarrow> addr multiset" where
  "stack_roots st = sum_list (map (\<lambda>x. symbol_roots (yystos ! fst x) (snd x)) st)"

lemma stack_roots_simps [simp]:
  "stack_roots [] = {#}" "stack_roots (x # st) = symbol_roots (yystos ! fst x) (snd x) + stack_roots st"
  "stack_roots (us @ st) = stack_roots us + stack_roots st"
  by (simp_all add: stack_roots_def)

lemma path_below: "path ((s, v) # st) \<Longrightarrow> s < 86"
  by (cases st) (auto simp: edge_def)

lemma path_down: "path ((s, v) # st) \<Longrightarrow> s \<noteq> 0 \<Longrightarrow> \<exists>s' v' st'. st = (s', v') # st' \<and> s' \<in> set (yypreds ! s)
    \<and> vt (yystos ! s) v \<and> path st"
  by (cases st) (auto simp: edge_def)

text \<open>The states that lie below a right-hand side.\<close>

lemma back_path:
  assumes "back_states ys L = Some L'" "path st" "fst (hd st) \<in> set L"
  shows "\<exists>us s v st'. st = us @ (s, v) # st' \<and> list_all2 vt ys (map snd us) \<and> map (\<lambda>u. yystos ! fst u) us = ys
    \<and> s \<in> set L' \<and> path ((s, v) # st')"
  using assms
proof (induction ys arbitrary: L st)
  case Nil
  then show ?case by (cases st) auto
next
  case (Cons y ys)
  from Cons.prems(2) obtain s v st' where st: "st = (s, v) # st'" by (cases st) auto
  with Cons.prems have s: "s \<noteq> 0" "yystos ! s = y" "s \<in> set L"
    and rest: "back_states ys (remdups (concat (map (\<lambda>s. yypreds ! s) L))) = Some L'"
    by (auto simp: list_all_iff split: if_splits)
  from path_down [OF Cons.prems(2) [unfolded st] s(1)] obtain s' v' st'' where
    d: "st' = (s', v') # st''" "s' \<in> set (yypreds ! s)" "vt y v" "path st'" using s(2) by auto
  with s(3) have "fst (hd st') \<in> set (remdups (concat (map (\<lambda>s. yypreds ! s) L)))" by auto
  from Cons.IH [OF rest d(4) this] obtain us t w st0 where
    "st' = us @ (t, w) # st0" "list_all2 vt ys (map snd us)" "map (\<lambda>u. yystos ! fst u) us = ys"
    "t \<in> set L'" "path ((t, w) # st0)" by blast
  with st s(2) d(3) show ?case
    by (intro exI [where x = "(s, v) # us"] exI [where x = t] exI [where x = w] exI [where x = st0]) simp
qed

lemma stack_roots_seg:
  "map (\<lambda>u. yystos ! fst u) us = ys \<Longrightarrow> stack_roots us = seg_roots ys (map snd us)"
  by (induction us arbitrary: ys) auto

text \<open>Before the reduction of a call the name is the fourth value from the top.\<close>

lemma path_call:
  assumes "path ((72, v) # st)"
  shows "known_name (map snd ((72, v) # st) ! 3)"
proof -
  from path_down [OF assms] obtain v1 st1 where 1: "st = (52, v1) # st1" "path st" by (auto simp: yypreds_nth)
  from path_down [OF 1(2) [unfolded 1(1)]] obtain v2 st2 where 2: "st1 = (29, v2) # st2" "path st1"
    by (auto simp: yypreds_nth)
  from path_down [OF 2(2) [unfolded 2(1)]] obtain s3 v3 st3 where 3: "st2 = (s3, v3) # st3" by auto
  with 2 have "known_name v3" by simp
  with 1 2 3 show ?thesis by simp
qed

section \<open>The input\<close>

text \<open>
  A token carries the value its kind has, and a name followed by a parenthesis is the name of a
  function, whose argument list is not empty.
\<close>

fun calls_ok :: "input \<Rightarrow> bool" where
  "calls_ok [] = True"
| "calls_ok ((c, v) # inp) =
     ((YYTRANSLATE c = 17 \<and> look inp = 29 \<longrightarrow> known_name v \<and> look (tl inp) \<noteq> 27 \<and> look (tl inp) \<noteq> 30) \<and> calls_ok inp)"

fun ends_once :: "input \<Rightarrow> bool" where
  "ends_once [] = False"
| "ends_once [(c, v)] = (c = YYEOF)"
| "ends_once ((c, v) # inp) = (YYTRANSLATE c \<noteq> 0 \<and> ends_once inp)"

definition input_ok :: "input \<Rightarrow> bool" where
  "input_ok inp \<longleftrightarrow> list_all (\<lambda>(c, v). vt (YYTRANSLATE c) v) inp \<and> calls_ok inp \<and> ends_once inp"

section \<open>The invariant\<close>

text \<open>What the top of the stack says of the input.\<close>

definition top_ok :: "nat \<Rightarrow> yystype \<Rightarrow> input \<Rightarrow> bool" where
  "top_ok s v inp \<longleftrightarrow>
     (s = 19 \<and> look inp = 29 \<longrightarrow> known_name v \<and> look (advance inp) \<noteq> 27 \<and> look (advance inp) \<noteq> 30) \<and>
     (s = 29 \<longrightarrow> look inp \<noteq> 27 \<and> look inp \<noteq> 30)"

definition parse_inv :: "config \<Rightarrow> bool" where
  "parse_inv C = (case C of ([], inp, R) \<Rightarrow> False
     | ((s, v) # st, inp, R) \<Rightarrow> path ((s, v) # st) \<and> input_ok inp \<and> top_ok s v inp \<and>
         heap_counted (stack_roots ((s, v) # st) + rules_roots R) (ru_heap R))"

text \<open>An empty argument list before something that is neither a comma nor a parenthesis.\<close>

definition parse_hole :: "config \<Rightarrow> bool" where
  "parse_hole C = (case C of ([], inp, R) \<Rightarrow> False
     | ((s, v) # st, inp, R) \<Rightarrow> s = 52 \<and> look inp \<noteq> 27 \<and> look inp \<noteq> 30 \<and> (\<exists>L. heap_counted (L + rules_roots R) (ru_heap R)))"

definition symbol_weight :: "nat \<Rightarrow> nat" where
  "symbol_weight A =
     (if A \<in> {16, 17, 35, 38, 41} then 4 else if A \<in> {34, 37, 40, 42} then 3
      else if A \<in> {33, 36, 39, 43} then 2 else 1)"

definition config_weight :: "config \<Rightarrow> nat" where
  "config_weight C = (case C of (st, inp, R) \<Rightarrow>
     8 * (length inp - (if fst (hd st) = 14 then 1 else 0)) + sum_list (map (\<lambda>x. symbol_weight (yystos ! fst x)) st)
       + (if fst (hd st) = 29 then 3 else 0))"

definition result_ok :: "nat \<Rightarrow> rules \<Rightarrow> bool" where
  "result_ok r R \<longleftrightarrow> r \<le> 2 \<and> (\<exists>L. heap_counted (L + rules_roots R) (ru_heap R)) \<and>
     (r = 0 \<longrightarrow> heap_counted (rules_roots R) (ru_heap R))"

section \<open>Facts on the tables\<close>

lemma default_rule: "s < 86 \<Longrightarrow> (yydefact ! s = 38 \<longleftrightarrow> s = 29) \<and> (yydefact ! s = 37 \<longleftrightarrow> s = 72) \<and> (yydefact ! s = 1 \<longleftrightarrow> s = 14)"
proof -
  have "list_all (\<lambda>s. (yydefact ! s = 38 \<longleftrightarrow> s = 29) \<and> (yydefact ! s = 37 \<longleftrightarrow> s = 72) \<and> (yydefact ! s = 1 \<longleftrightarrow> s = 14)) all_states"
    by (simp add: all_states_def yydefact_nth)
  then show "s < 86 \<Longrightarrow> ?thesis" by (rule all_statesD)
qed

lemma eof_state: "s < 86 \<Longrightarrow> yystos ! s = 0 \<Longrightarrow> s = 0 \<or> s = 14"
proof -
  have "list_all (\<lambda>s. yystos ! s = 0 \<longrightarrow> s = 0 \<or> s = 14) all_states" by (simp add: all_states_def table_facts)
  from all_statesD [OF this] show "s < 86 \<Longrightarrow> yystos ! s = 0 \<Longrightarrow> s = 0 \<or> s = 14" by blast
qed

lemma rule_facts:
  assumes "1 < r" "r < 41"
  shows "yyr2 ! r = length (yyrhs ! r) \<and> 31 < yyr1 ! r \<and>
    symbol_weight (yyr1 ! r) < sum_list (map symbol_weight (yyrhs ! r)) + (if r = 38 then 3 else 0) \<and> (r \<noteq> 38 \<longrightarrow> yyrhs ! r \<noteq> [])"
    (is "?P r")
proof -
  have all: "list_all ?P
     [2, 3, 4, 5, 6, 7, 8, 9, 10, 11, 12, 13, 14, 15, 16, 17, 18, 19, 20, 21, 22, 23, 24, 25, 26, 27, 28, 29, 30, 31, 32, 33, 34, 35, 36, 37, 38, 39, 40]"
    by (simp add: table_facts yyrhs_nth symbol_weight_def)
  have "[2, 3, 4, 5, 6, 7, 8, 9, 10, 11, 12, 13, 14, 15, 16, 17, 18, 19, 20, 21, 22, 23, 24, 25, 26, 27, 28, 29, 30, 31, 32, 33, 34, 35, 36, 37, 38, 39, 40] = [2..<41]"
    by code_simp
  then have "list_all ?P [2..<41]" using all by (simp only:)
  moreover have "r \<in> {2..<41}" using assms by auto
  ultimately show ?thesis unfolding list_all_iff set_upt by blast
qed

lemma hole_error: "t < 31 \<Longrightarrow> t \<noteq> 27 \<Longrightarrow> t \<noteq> 30 \<Longrightarrow> decide 52 t = Error"
proof -
  have "list_all (\<lambda>t. t = 27 \<or> t = 30 \<or> decide 52 t = Error) all_symbols"
    by (simp add: all_symbols_def decide_eval)
  then show "t < 31 \<Longrightarrow> t \<noteq> 27 \<Longrightarrow> t \<noteq> 30 \<Longrightarrow> decide 52 t = Error"
    using in_all_symbols unfolding list_all_iff by blast
qed

section \<open>A step\<close>

lemma yyvsp_last: "us \<noteq> [] \<Longrightarrow> yyvsp (us @ vs) (length us - 1) = Ret (last us)"
  by (cases us) (auto simp: yyvsp_def pdata_def nth_append last_conv_nth)

lemma reduce_value:
  assumes p: "path st" "fst (hd st) = s" "reduce_ok s r" "1 < r" "r < 41"
    "heap_counted (stack_roots st + rules_roots R) (ru_heap R)" "0 < k" "r = yydefact ! s"
  shows "\<exists>us t w st' v R'. st = us @ (t, w) # st' \<and> path ((t, w) # st') \<and> map (\<lambda>u. yystos ! fst u) us = rev (yyrhs ! r) \<and>
    goto_ok r t \<and> lr_reduce k r (st, inp, R) = Ret (lr_push (yygoto r t) v ((t, w) # st', inp, R')) \<and>
    (r \<noteq> 38 \<longrightarrow> vt (yyr1 ! r) v) \<and>
    heap_counted ((if r = 38 then {#} else symbol_roots (yyr1 ! r) v) + stack_roots ((t, w) # st') + rules_roots R') (ru_heap R')"
proof -
  from p(3) obtain L where L: "back_states (rev (yyrhs ! r)) [s] = Some L" "\<forall>x\<in>set L. x \<in> set (goto_from ! (yyr1 ! r - 31))"
    by (auto simp: reduce_ok_def list_all_iff split: option.splits)
  from back_path [OF L(1) p(1)] p(2) obtain us t w st' where
    st: "st = us @ (t, w) # st'" "list_all2 vt (rev (yyrhs ! r)) (map snd us)"
      "map (\<lambda>u. yystos ! fst u) us = rev (yyrhs ! r)" "t \<in> set L" "path ((t, w) # st')" by auto
  let ?u = "map snd us" and ?v = "w # map snd st'"
  have g: "goto_ok r t" using goto_ok_all [of r t] p(4,5) L(2) st(4) by simp
  have len: "yyr2 ! r = length us" using rule_facts [OF p(4,5)] arg_cong [OF st(3), of length] by simp
  have below: "s < 86" using p(1,2) path_below by (cases st) auto
  have vs: "map snd st = ?u @ ?v" by (simp add: st(1))
  show ?thesis
  proof (cases "r = 38")
    case True
    with st(3) have "us = []" by (simp add: yyrhs_nth)
    then have "lr_reduce k r (st, inp, R) = Ret (lr_push (yygoto r t) YyGarbage ((t, w) # st', inp, R))"
      using len by (simp add: lr_reduce_def st(1) True yyaction_def action_argument_list_def)
    with \<open>us = []\<close> st g True p(6) show ?thesis by auto
  next
    case False
    with rule_facts [OF p(4,5)] st(3) have "us \<noteq> []" by auto
    have "known_name (?u ! 3)" if "r = 37"
    proof -
      have s: "s = 72" using default_rule [OF below] that p(8) by simp
      have "length us = 4" using len that by (simp add: yyr2_nth)
      then have "?u ! 3 = map snd st ! 3" unfolding vs by (simp add: nth_append)
      with s path_call p(1,2) show ?thesis by (cases st) auto
    qed
    moreover have "heap_counted (seg_roots (rev (yyrhs ! r)) ?u + stack_roots ((t, w) # st') + rules_roots R) (ru_heap R)"
      using p(6) stack_roots_seg [OF st(3)] unfolding st(1) by (simp only: stack_roots_simps(3) add.assoc)
    ultimately have "action_goes (yyr1 ! r) (stack_roots ((t, w) # st')) (yyaction k r (?u @ ?v) (last ?u) R)"
      using action_typed_all [OF p(4,5) False] st(2) p(7) unfolding action_typed_def by blast
    then obtain v R' where "yyaction k r (map snd st) (last ?u) R = Ret (v, R')" "vt (yyr1 ! r) v"
      "heap_counted (symbol_roots (yyr1 ! r) v + stack_roots ((t, w) # st') + rules_roots R') (ru_heap R')"
      unfolding action_goes_def vs by blast
    moreover from this(1) have "lr_reduce k r (st, inp, R) = Ret (lr_push (yygoto r t) v ((t, w) # st', inp, R'))"
      using yyvsp_last [of ?u ?v] \<open>us \<noteq> []\<close> unfolding lr_reduce_def Let_def prod.case len vs by (simp add: st(1))
    ultimately show ?thesis using False st(1,3,5) g
      by (intro exI [where x = us] exI [where x = t] exI [where x = w] exI [where x = st'] exI [where x = v]
        exI [where x = R']) simp
  qed
qed

definition step_ok :: "config \<Rightarrow> config + nat \<times> rules \<Rightarrow> bool" where
  "step_ok C out = (case out of
     Inl C' \<Rightarrow> (parse_inv C' \<or> parse_hole C') \<and> config_weight C' < config_weight C
   | Inr (r, R) \<Rightarrow> result_ok r R)"

lemma yyerror_counted:
  "heap_counted (L + rules_roots (yyerror m R)) (ru_heap (yyerror m R)) \<longleftrightarrow> heap_counted (L + rules_roots R) (ru_heap R)"
  by (simp add: yyerror_def rules_roots_def)

lemma push_ok:
  assumes "heap_counted (L + rules_roots R) (ru_heap R)"
    "parse_inv ((s, v) # st, inp, R) \<or> parse_hole ((s, v) # st, inp, R)"
    "config_weight ((s, v) # st, inp, R) < config_weight C"
  shows "step_ok C (lr_push s v (st, inp, R))"
  using assms yyerror_counted [of L "Message ''memory exhausted''" R]
  by (auto simp: step_ok_def lr_push_def result_ok_def)

lemma symbol_weight_top [simp]: "1 \<le> symbol_weight A" "symbol_weight A \<le> 4"
  by (auto simp: symbol_weight_def)

lemma map_weight: "sum_list (map (\<lambda>x. symbol_weight (yystos ! fst x)) us) = sum_list (map symbol_weight (map (\<lambda>u. yystos ! fst u) us))"
  by (simp add: comp_def)

lemma goto_state: "goto_ok r t \<Longrightarrow> 1 < r \<Longrightarrow> r < 41 \<Longrightarrow>
  31 < yystos ! yygoto r t \<and> yygoto r t \<noteq> 14 \<and> yygoto r t \<noteq> 19 \<and> yygoto r t \<noteq> 29 \<and> edge t (yygoto r t)"
  using rule_facts [of r] by (auto simp: goto_ok_def yystos_nth)

lemma reduce_step:
  assumes inv: "parse_inv ((s, v) # st, inp, R)" and k: "0 < k" and s: "s \<noteq> 14" and d: "decide s (look inp) = Reduce r"
  shows "\<exists>out. lr_reduce k r ((s, v) # st, inp, R) = Ret out \<and> step_ok ((s, v) # st, inp, R) out"
proof -
  let ?st = "(s, v) # st"
  from inv have p: "path ?st" "input_ok inp" "top_ok s v inp"
    "heap_counted (stack_roots ?st + rules_roots R) (ru_heap R)" by (simp_all add: parse_inv_def)
  from decide_reduce [OF path_below [OF p(1)] look_below d] have r: "0 < r" "r < 41" "r = yydefact ! s" by auto
  have def_s: "(r = 38 \<longleftrightarrow> s = 29) \<and> (r = 37 \<longleftrightarrow> s = 72) \<and> r \<noteq> 1"
    using default_rule [OF path_below [OF p(1)]] s r(3) by simp
  with r(1) have r1: "1 < r" by linarith
  have "fst (hd ?st) = s" "reduce_ok s r" using reduce_ok_all [OF path_below [OF p(1)]] s r by (simp_all add: YYFINAL_def)
  from reduce_value [OF p(1) this r1 r(2) p(4) k r(3), of inp] obtain us t w st' v' R' where
    u: "?st = us @ (t, w) # st'" "path ((t, w) # st')" "map (\<lambda>u. yystos ! fst u) us = rev (yyrhs ! r)" "goto_ok r t"
    "lr_reduce k r (?st, inp, R) = Ret (lr_push (yygoto r t) v' ((t, w) # st', inp, R'))"
    "r \<noteq> 38 \<longrightarrow> vt (yyr1 ! r) v'"
    "heap_counted ((if r = 38 then {#} else symbol_roots (yyr1 ! r) v') + stack_roots ((t, w) # st') + rules_roots R') (ru_heap R')"
    by blast
  let ?g = "yygoto r t"
  note g = goto_state [OF u(4) r1 r(2)]
  have sym: "yystos ! ?g = yyr1 ! r" using u(4) by (simp add: goto_ok_def)
  have "sum_list (map (\<lambda>x. symbol_weight (yystos ! fst x)) ?st) =
      sum_list (map symbol_weight (yyrhs ! r)) + sum_list (map (\<lambda>x. symbol_weight (yystos ! fst x)) ((t, w) # st'))"
    unfolding u(1) map_append sum_list.append map_weight u(3) by (simp add: rev_map [symmetric] sum_list_rev)
  moreover have "symbol_weight (yyr1 ! r) < sum_list (map symbol_weight (yyrhs ! r)) + (if s = 29 then 3 else 0)"
    using rule_facts [OF r1 r(2)] def_s by simp
  ultimately have weight: "config_weight ((?g, v') # (t, w) # st', inp, R') < config_weight (?st, inp, R)"
    using g s sym by (simp add: config_weight_def)
  have "parse_inv ((?g, v') # (t, w) # st', inp, R')" if "r \<noteq> 38"
    using that u(2,6,7) g sym p(2) by (simp add: parse_inv_def top_ok_def add.assoc)
  moreover have "parse_hole ((?g, v') # (t, w) # st', inp, R')" if "r = 38"
  proof -
    have "t \<in> {29}" using u(1,3) that def_s by (auto simp: yyrhs_nth)
    then have "?g = 52" using that by (simp add: yygoto_eval)
    with u(7) that p(3) def_s show ?thesis by (auto simp: parse_hole_def top_ok_def)
  qed
  ultimately have "step_ok (?st, inp, R) (lr_push ?g v' ((t, w) # st', inp, R'))"
    using push_ok [OF u(7) _ weight] by blast
  with u(5) show ?thesis by blast
qed

lemma input_ok_advance:
  assumes "input_ok inp"
  shows "input_ok (advance inp)" "vt (look inp) (snd (hd inp))"
    "look inp \<noteq> 0 \<Longrightarrow> Suc (length (advance inp)) = length inp" "look inp = 0 \<Longrightarrow> length inp = 1"
    "look inp = 17 \<Longrightarrow> look (advance inp) = 29 \<Longrightarrow>
       known_name (snd (hd inp)) \<and> look (advance (advance inp)) \<noteq> 27 \<and> look (advance (advance inp)) \<noteq> 30"
proof -
  obtain c v xs where inp: "inp = (c, v) # xs" using assms by (cases inp) (auto simp: input_ok_def)
  have z: "YYTRANSLATE YYEOF = 0" by (simp add: YYTRANSLATE_def token_codes yytranslate_def YYMAXUTOK_def)
  note ok = assms [unfolded inp input_ok_def]
  show "input_ok (advance inp)" "vt (look inp) (snd (hd inp))"
    "look inp \<noteq> 0 \<Longrightarrow> Suc (length (advance inp)) = length inp" "look inp = 0 \<Longrightarrow> length inp = 1"
    using ok z by (cases xs; auto simp: inp advance_def look_def input_ok_def)+
  show "known_name (snd (hd inp)) \<and> look (advance (advance inp)) \<noteq> 27 \<and> look (advance (advance inp)) \<noteq> 30"
    if "look inp = 17" "look (advance inp) = 29"
  proof (cases xs)
    case Nil
    with ok that z show ?thesis by (simp add: inp advance_def look_def)
  next
    case (Cons x ys)
    obtain c' v' where x: "x = (c', v')" by (cases x)
    have "ys \<noteq> []" using ok that z by (auto simp: inp Cons x advance_def look_def)
    with ok that show ?thesis by (auto simp: inp Cons x advance_def look_def)
  qed
qed

lemma shift_step:
  assumes inv: "parse_inv ((s, v) # st, inp, R)" and d: "decide s (look inp) = Shift s'"
  shows "step_ok ((s, v) # st, inp, R) (lr_push s' (snd (hd inp)) ((s, v) # st, advance inp, R))"
proof -
  let ?st = "(s, v) # st" and ?w = "snd (hd inp)"
  from inv have p: "path ?st" "input_ok inp" "top_ok s v inp"
    "heap_counted (stack_roots ?st + rules_roots R) (ru_heap R)" by (simp_all add: parse_inv_def)
  note a = input_ok_advance [OF p(2)]
  have e: "edge s s'" "yystos ! s' = look inp"
    using shift_ok_all [OF path_below [OF p(1)] look_below [of inp]] d by (simp_all add: shift_ok_def)
  have below: "s' < 86" using e(1) by (simp add: edge_def)
  have eof: "look inp = 0 \<longleftrightarrow> s' = 14"
    using eof_state [OF below] e by (auto simp: edge_def yypreds_nth yystos_nth)
  have not14: "s \<noteq> 14" using e(1) in_all_states [OF below]
  proof -
    have "list_all (\<lambda>x. 14 \<notin> set (yypreds ! x)) all_states" by (simp add: all_states_def yypreds_nth)
    from all_statesD [OF this below] show ?thesis using e(1) by (auto simp: edge_def)
  qed
  have paren: "s = 19 \<and> look inp = 29" if "s' = 29" using e that by (auto simp: edge_def yypreds_nth yystos_nth)
  have top: "top_ok s' ?w (advance inp)"
    using a(5) e(2) p(3) paren by (auto simp: top_ok_def yystos_nth)
  have known: "s' = 29 \<longrightarrow> known_name v" using paren p(3) by (auto simp: top_ok_def)
  have roots: "symbol_roots (look inp) ?w = {#}"
    using terminal_roots [OF a(2)] look_below by simp
  have "parse_inv ((s', ?w) # ?st, advance inp, R)"
    using p a(1,2) e top known roots by (simp add: parse_inv_def)
  moreover have "length (advance inp) \<le> length inp" by (simp add: advance_def)
  then have "config_weight ((s', ?w) # ?st, advance inp, R) < config_weight (?st, inp, R)"
    using a(3,4) eof not14 symbol_weight_top(2) [of "yystos ! s'"]
    by (cases "s' = 14") (auto simp: config_weight_def advance_def yystos_nth symbol_weight_def split: if_splits)
  ultimately show ?thesis using p(4) by (intro push_ok [where L = "stack_roots ?st"]) auto
qed

lemma final_roots:
  assumes "path ((14, v) # st)"
  shows "stack_roots ((14, v) # st) = {#}"
proof -
  from path_down [OF assms] obtain v1 st1 where 1: "st = (4, v1) # st1" "path st" "vt 0 v"
    by (auto simp: yypreds_nth yystos_nth)
  from path_down [OF 1(2) [unfolded 1(1)]] obtain v2 st2 where 2: "st1 = (0, v2) # st2" "path st1"
    by (auto simp: yypreds_nth)
  have "st2 = [] \<and> v2 = YyGarbage" using 2 by (cases st2) (auto simp: edge_def yypreds_nth)
  moreover have "symbol_roots 0 YyGarbage = {#}" by (simp add: symbol_roots_def)
  ultimately show ?thesis using terminal_roots [OF 1(3)] 1 2 by (simp add: yystos_nth)
qed

lemma lr_step_ok:
  assumes "parse_inv C" "0 < k"
  shows "\<exists>out. lr_step k C = Ret out \<and> step_ok C out"
proof -
  obtain s v st inp R where C: "C = ((s, v) # st, inp, R)"
    using assms(1) by (cases C; cases "fst C") (auto simp: parse_inv_def)
  from assms(1) have p: "path ((s, v) # st)" "heap_counted (stack_roots ((s, v) # st) + rules_roots R) (ru_heap R)"
    by (simp_all add: C parse_inv_def)
  show ?thesis
  proof (cases "s = 14")
    case True
    with p final_roots [of v st] show ?thesis
      by (auto simp: lr_step_def C YYFINAL_def step_ok_def result_ok_def intro!: exI [where x = "{#}"])
  next
    case False
    show ?thesis
    proof (cases "decide s (look inp)")
      case (Shift s')
      with False shift_step [OF assms(1) [unfolded C]] show ?thesis by (simp add: lr_step_def C YYFINAL_def)
    next
      case (Reduce r)
      with False reduce_step [OF assms(1) [unfolded C] assms(2) False] show ?thesis
        by (simp add: lr_step_def C YYFINAL_def)
    next
      case Error
      with False p(2) show ?thesis
        by (auto simp: lr_step_def C YYFINAL_def step_ok_def result_ok_def yyerror_def rules_roots_def)
    qed
  qed
qed

lemma hole_stops:
  assumes "parse_hole C"
  shows "\<exists>r R. lr_step k C = Ret (Inr (r, R)) \<and> result_ok r R"
proof -
  obtain s v st inp R where C: "C = ((s, v) # st, inp, R)"
    using assms by (cases C; cases "fst C") (auto simp: parse_hole_def)
  with assms hole_error [OF look_below [of inp]] yyerror_counted [of _ "SyntaxError s (int (look inp))" R]
  show ?thesis by (auto simp: parse_hole_def lr_step_def YYFINAL_def result_ok_def)
qed

lemma lr_loop_ok: "parse_inv C \<or> parse_hole C \<Longrightarrow> config_weight C < n \<Longrightarrow> 0 < k \<Longrightarrow>
  \<exists>r R. lr_loop k n C = Ret (r, R) \<and> result_ok r R"
proof (induction n arbitrary: C)
  case (Suc n)
  show ?case
  proof (cases "parse_hole C")
    case True
    with hole_stops [of C k] show ?thesis by auto
  next
    case False
    with Suc.prems lr_step_ok [of C k] obtain out where out: "lr_step k C = Ret out" "step_ok C out" by auto
    then show ?thesis using Suc.prems Suc.IH
      by (cases out) (auto simp: step_ok_def)
  qed
qed simp

section \<open>The parser returns\<close>

definition token_typed :: "token \<Rightarrow> bool" where
  "token_typed t \<longleftrightarrow>
     (case YYTRANSLATE (fst t) of A \<Rightarrow>
       if A \<in> {16, 17, 18} then (\<exists>v. snd t = Some v \<and> vt A v) else A \<noteq> 0 \<and> (\<forall>v. snd t = Some v \<longrightarrow> plain v))"

fun token_calls_ok :: "token list \<Rightarrow> bool" where
  "token_calls_ok ((c, v) # (c', v') # ts) =
     ((YYTRANSLATE c = 17 \<and> YYTRANSLATE c' = 29 \<longrightarrow> (\<exists>f. v = Some f \<and> known_name f) \<and>
         (case ts of [] \<Rightarrow> True | t # _ \<Rightarrow> YYTRANSLATE (fst t) \<noteq> 27 \<and> YYTRANSLATE (fst t) \<noteq> 30)) \<and>
      token_calls_ok ((c', v') # ts))"
| "token_calls_ok ts = True"

lemma with_values_Cons: "with_values v ((c, w) # ts) = (c, case w of None \<Rightarrow> v | Some w \<Rightarrow> w) # with_values (case w of None \<Rightarrow> v | Some w \<Rightarrow> w) ts"
  by (cases w) simp_all

lemma look_values: "look (with_values v ts) = (case ts of [] \<Rightarrow> 0 | t # _ \<Rightarrow> YYTRANSLATE (fst t))"
proof -
  have "YYTRANSLATE YYEOF = 0" by (simp add: YYTRANSLATE_def token_codes yytranslate_def YYMAXUTOK_def)
  then show ?thesis by (cases ts) (auto simp: look_def with_values_Cons)
qed

lemma look_tl_values: "look (tl (with_values v (t # ts))) = (case ts of [] \<Rightarrow> 0 | t # _ \<Rightarrow> YYTRANSLATE (fst t))"
  using look_values by (cases t) (simp add: with_values_Cons del: with_values.simps)

lemma vt_plain: "vt A v \<Longrightarrow> A \<in> {16, 17, 18} \<Longrightarrow> plain v"
  by (auto simp: vt_def plain_def)

lemma plain_vt: "plain v \<Longrightarrow> A < 31 \<Longrightarrow> A \<notin> {16, 17, 18} \<Longrightarrow> vt A v"
  by (auto simp: vt_def)

lemma typed_value:
  assumes "token_typed (c, w)" "plain v"
  shows "vt (YYTRANSLATE c) (case w of None \<Rightarrow> v | Some w \<Rightarrow> w) \<and> plain (case w of None \<Rightarrow> v | Some w \<Rightarrow> w) \<and> YYTRANSLATE c \<noteq> 0"
  using assms yytranslate_below [of c] vt_plain [of "YYTRANSLATE c"] plain_vt [of _ "YYTRANSLATE c"]
  by (auto simp: token_typed_def split: if_splits option.splits)

lemma values_ok:
  "list_all token_typed ts \<Longrightarrow> token_calls_ok ts \<Longrightarrow> plain v \<Longrightarrow> input_ok (with_values v ts)"
proof (induction ts arbitrary: v)
  case Nil
  have "YYTRANSLATE YYEOF = 0" by (simp add: YYTRANSLATE_def token_codes yytranslate_def YYMAXUTOK_def)
  with Nil show ?case by (simp add: input_ok_def plain_vt look_def)
next
  case (Cons t ts)
  obtain c w where t: "t = (c, w)" by (cases t)
  let ?w = "case w of None \<Rightarrow> v | Some w \<Rightarrow> w"
  from Cons.prems have tv: "vt (YYTRANSLATE c) ?w" "plain ?w" "YYTRANSLATE c \<noteq> 0"
    using typed_value [of c w v] by (simp_all add: t)
  have "token_calls_ok ts" using Cons.prems(2) by (cases ts) (auto simp: t)
  with Cons tv have ih: "input_ok (with_values ?w ts)" by simp
  have "known_name ?w \<and> look (tl (with_values ?w ts)) \<noteq> 27 \<and> look (tl (with_values ?w ts)) \<noteq> 30"
    if "YYTRANSLATE c = 17" "look (with_values ?w ts) = 29"
  proof (cases ts)
    case Nil
    with that look_values [of ?w "[]"] show ?thesis by simp
  next
    case (Cons t' ts')
    have "token_calls_ok (t # t' # ts')" using Cons.prems(2) Cons by simp
    with that look_tl_values [of ?w t' ts'] look_values [of ?w ts] show ?thesis
      by (cases t'; cases ts') (auto simp: t Cons simp del: with_values.simps)
  qed
  moreover have "with_values ?w ts \<noteq> []" by (metis length_0_conv with_values_length nat.distinct(1))
  ultimately show ?case using ih tv
    by (cases "with_values ?w ts") (auto simp: t with_values_Cons input_ok_def)
qed

text \<open>C8: The parser returns, with no more rounds than a multiple of the number of tokens, when each
  token carries the value of its kind and each call names a known function and has an argument. It reads
  every value through the member it was written through, never below the bottom of its
  stack, and the references it counts for the nodes are those of the rules it has built; a syntax error or a full stack
  leave some nodes without an owner, a parse that succeeds leaves none.\<close>

theorem yyparse_returns:
  assumes "list_all token_code_ok ts" "list_all token_typed ts" "token_calls_ok ts"
    and "heap_counted (rules_roots R) (ru_heap R)" "0 < k" "8 * length ts + 10 \<le> n"
  shows "\<exists>r R'. yyparse list_lex k n ts R = Ret (r, R') \<and> r \<le> 2 \<and>
    (\<exists>lost. heap_counted (lost + rules_roots R') (ru_heap R')) \<and>
    (r = 0 \<longrightarrow> heap_counted (rules_roots R') (ru_heap R'))"
proof -
  let ?C = "([(0, YyGarbage)], with_values YyGarbage ts, R)"
  have "input_ok (with_values YyGarbage ts)" using values_ok [OF assms(2,3)] by (simp add: plain_def)
  then have "parse_inv ?C" using assms(4) by (simp add: parse_inv_def top_ok_def symbol_roots_def yystos_nth)
  moreover have "config_weight ?C < n" using assms(6)
    by (simp add: config_weight_def yystos_nth symbol_weight_def)
  ultimately obtain r R' where "lr_loop k n ?C = Ret (r, R')" "result_ok r R'" using lr_loop_ok assms(5) by blast
  then show ?thesis
    using loop_follows [OF init_follows [OF assms(1)]] by (auto simp: result_ok_def yyparse_def)
qed

text \<open>\<open>VAR X = MIN(Y);\<close>\<close>

theorem yyparse_returns_witness:
  "\<exists>r R'. yyparse list_lex 1 100 [(T_KEY_VAR, None), (IDENTIFIER, Some (YySval ''X'')), (61, None),
      (IDENTIFIER, Some (YySval ''MIN'')), (40, None), (IDENTIFIER, Some (YySval ''Y'')), (41, None), (59, None)] engine_new =
    Ret (r, R') \<and> r \<le> 2"
proof -
  let ?ts = "[(T_KEY_VAR, None), (IDENTIFIER, Some (YySval ''X'')), (61, None), (IDENTIFIER, Some (YySval ''MIN'')), (40, None),
    (IDENTIFIER, Some (YySval ''Y'')), (41, None), (59, None)]"
  have a: "list_all token_code_ok ?ts" by (simp add: token_code_ok_def token_codes)
  have b: "list_all token_typed ?ts"
    by (simp add: token_typed_def YYTRANSLATE_def token_codes yytranslate_def YYMAXUTOK_def vt_def)
  have c: "token_calls_ok ?ts"
    by (simp add: YYTRANSLATE_def token_codes yytranslate_def YYMAXUTOK_def known_name_def known_function_def)
  have d: "heap_counted (rules_roots engine_new) (ru_heap engine_new)"
    using heap_counted_empty by (simp add: engine_new_def rules_roots_def gh_new_def)
  have "8 * length ?ts + 10 \<le> 100" by simp
  from yyparse_returns [OF a b c d zero_less_one this] show ?thesis by blast
qed

end
