(* ===== verification/RulesEval.thy ===== *)
theory RulesEval
  imports RulesTotal
begin

text \<open>
  The parser on given tokens, evaluated by simplification: the calls that leave its defined
  behaviour, a call with a wrong number of arguments, and the precedence of the operators.
\<close>

section \<open>Evaluation\<close>

lemma translate_eval:
  "YYTRANSLATE YYEOF = 0" "YYTRANSLATE T_EQ = 3" "YYTRANSLATE T_NE = 4" "YYTRANSLATE T_LT = 5" "YYTRANSLATE T_LE = 6"
  "YYTRANSLATE T_GT = 7" "YYTRANSLATE T_GE = 8" "YYTRANSLATE T_AND = 9" "YYTRANSLATE T_OR = 10"
  "YYTRANSLATE T_KEY_VAR = 11" "YYTRANSLATE T_KEY_SET = 12" "YYTRANSLATE T_KEY_WHEN = 13"
  "YYTRANSLATE T_KEY_TRIGGER = 14" "YYTRANSLATE T_KEY_FLAG = 15" "YYTRANSLATE VALUE = 16"
  "YYTRANSLATE IDENTIFIER = 17" "YYTRANSLATE T_FLAG_NAME = 18" "YYTRANSLATE 43 = 19" "YYTRANSLATE 45 = 20"
  "YYTRANSLATE 42 = 21" "YYTRANSLATE 47 = 22" "YYTRANSLATE 123 = 24" "YYTRANSLATE 125 = 25" "YYTRANSLATE 59 = 26"
  "YYTRANSLATE 44 = 27" "YYTRANSLATE 61 = 28" "YYTRANSLATE 40 = 29" "YYTRANSLATE 41 = 30"
  by (simp_all add: YYTRANSLATE_def token_codes yytranslate_def YYMAXUTOK_def)

lemma code_ok_pos: "token_code_ok (c, v) \<longleftrightarrow> 0 < c \<and> c \<noteq> 256"
  by (simp add: token_code_ok_def token_codes)

lemma yyvsp_value [simp]: "yyvsp vs n = pdata vs n"
  by (simp add: yyvsp_def)

lemma lr_loop_numeral:
  "lr_loop k (numeral n) C =
     rbind (lr_step k C) (\<lambda>out. case out of Inl C \<Rightarrow> lr_loop k (pred_numeral n) C | Inr x \<Rightarrow> Ret x)"
  by (simp add: numeral_eq_Suc)

lemma yyparse_runs:
  "list_all token_code_ok ts \<Longrightarrow> yyparse list_lex k n ts R = lr_loop k n ([(0, YyGarbage)], with_values YyGarbage ts, R)"
  unfolding yyparse_def by (rule loop_follows [OF init_follows])

lemmas lr_eval = lr_loop_numeral lr_step_def look_def advance_def decide_eval translate_eval lr_push_def lr_reduce_def
  YYMAXDEPTH_def YYFINAL_def yygoto_eval yyaction_def pdata_def

lemmas action_eval = action_leaf_def action_argument_list_def action_declaration_def action_op_def action_paren_def
  action_instruction_def yymember_defs expr_new_literal_def expr_new_ref_def expr_alloc_eq Let_def

section \<open>Calls\<close>

text \<open>The expression \<open>FOO(1)\<close> of a declaration, for a name that is no function.\<close>

lemma unknown_function_undefined:
  assumes "\<not> known_function f"
  shows "yyparse list_lex k 100 [(T_KEY_VAR, None), (IDENTIFIER, Some (YySval x)), (61, None),
    (IDENTIFIER, Some (YySval f)), (40, None), (VALUE, Some (YyDval d)), (41, None), (59, None)] R = Ub"
proof -
  have c: "action_call (v0 # YyExprs es # v # YySval f # vs) R = Ret (YyGarbage, yyerror (Message ''Unknown function'') R)"
    for es v v0 vs R
    using assms unfolding known_function_def by (simp add: action_call_def sval_def)
  show ?thesis
    by (subst yyparse_runs) (simp add: code_ok_pos token_codes, simp add: lr_eval c action_eval)
qed

text \<open>The expression \<open>MIN()\<close>: the array of the arguments is never written.\<close>

lemma empty_call_undefined:
  "yyparse list_lex k 100 [(T_KEY_VAR, None), (IDENTIFIER, Some (YySval x)), (61, None),
    (IDENTIFIER, Some (YySval ''MIN'')), (40, None), (41, None), (59, None)] R = Ub"
  by (subst yyparse_runs) (simp add: code_ok_pos token_codes, simp add: lr_eval action_eval action_call_def)

text \<open>A sign before a name is a syntax error; so is \<open>1 -2\<close>, whose tokens are two numbers.\<close>

lemma minus_rejected:
  "\<exists>R'. yyparse list_lex k 100 [(T_KEY_VAR, None), (IDENTIFIER, Some (YySval x)), (61, None), (45, None),
    (IDENTIFIER, Some (YySval y)), (59, None)] R = Ret (1, R')"
  by (subst yyparse_runs) (simp add: code_ok_pos token_codes, simp add: lr_eval action_eval)

lemma two_numbers_rejected:
  "\<exists>R'. yyparse list_lex k 100 [(T_KEY_VAR, None), (IDENTIFIER, Some (YySval x)), (61, None), (VALUE, Some (YyDval a)),
    (VALUE, Some (YyDval b)), (59, None)] R = Ret (1, R')"
  by (subst yyparse_runs) (simp add: code_ok_pos token_codes, simp add: lr_eval action_eval)

text \<open>\<open>ROUND(1, 2)\<close> is reported and accepted.\<close>

lemma wrong_count_accepted:
  assumes "0 < k"
  shows "\<exists>R'. yyparse list_lex k 100 [(T_KEY_VAR, None), (IDENTIFIER, Some (YySval x)), (61, None),
    (IDENTIFIER, Some (YySval ''ROUND'')), (40, None), (VALUE, Some (YyDval a)), (44, None), (VALUE, Some (YyDval b)),
    (41, None), (59, None)] engine_new = Ret (0, R') \<and> ru_messages R' = [Message ''wrong number of arguments for ROUND'']"
  using assms by (subst yyparse_runs) (simp add: code_ok_pos token_codes,
    simp add: lr_eval action_eval action_call_def expr_new_func_round_def expr_new_func_def check_args_def yyerror_def
      set_heap_def st_var_new_def ref_bump unref_bump nref_bump nref_alloc unref_def insert_var_def engine_new_def)

end
