(* ===== verification/RulesRound.thy ===== *)
theory RulesRound
  imports RulesEval
begin

text \<open>
  Expressions and programs of the rules language as trees, printed as tokens with no more parentheses than
  the precedences need; the parser reads a printed program back and builds its nodes in order.
\<close>

section \<open>Expressions\<close>

datatype binop = BEq | BNe | BLt | BLe | BGt | BGe | BAnd | BOr | BAdd | BSub | BMul | BDiv

datatype ast =
    ANum f64
  | ARef string
  | AFlag string guint64
  | AOp binop ast ast
  | ANeg ast
  | ACall string "ast list"

text \<open>The lines \<open>%left\<close> of \<open>src/rules.y\<close>, the weakest operator first.\<close>

fun op_level :: "binop \<Rightarrow> nat" where
  "op_level BAnd = 1"
| "op_level BOr = 2"
| "op_level BEq = 3"
| "op_level BNe = 3"
| "op_level BLt = 4"
| "op_level BLe = 4"
| "op_level BGt = 4"
| "op_level BGe = 4"
| "op_level BAdd = 5"
| "op_level BSub = 5"
| "op_level BMul = 6"
| "op_level BDiv = 6"

fun op_code :: "binop \<Rightarrow> int" where
  "op_code BEq = T_EQ"
| "op_code BNe = T_NE"
| "op_code BLt = T_LT"
| "op_code BLe = T_LE"
| "op_code BGt = T_GT"
| "op_code BGe = T_GE"
| "op_code BAnd = T_AND"
| "op_code BOr = T_OR"
| "op_code BAdd = 43"
| "op_code BSub = 45"
| "op_code BMul = 42"
| "op_code BDiv = 47"

fun op_rule :: "binop \<Rightarrow> nat" where
  "op_rule BEq = 23"
| "op_rule BNe = 24"
| "op_rule BLt = 25"
| "op_rule BLe = 26"
| "op_rule BGt = 27"
| "op_rule BGe = 28"
| "op_rule BAnd = 29"
| "op_rule BOr = 30"
| "op_rule BAdd = 31"
| "op_rule BSub = 32"
| "op_rule BMul = 33"
| "op_rule BDiv = 34"

definition parens :: "bool \<Rightarrow> token list \<Rightarrow> token list" where
  "parens b ts = (if b then (40, None) # ts @ [(41, None)] else ts)"

fun commas :: "token list list \<Rightarrow> token list" where
  "commas [] = []"
| "commas [ts] = ts"
| "commas (ts # tss) = ts @ (44, None) # commas tss"

text \<open>An expression where the context binds with strength below \<open>p\<close>.\<close>

fun print_expr :: "nat \<Rightarrow> ast \<Rightarrow> token list" where
  "print_expr p (ANum d) = [(VALUE, Some (YyDval d))]"
| "print_expr p (ARef s) = [(IDENTIFIER, Some (YySval s))]"
| "print_expr p (AFlag s fb) = [(IDENTIFIER, Some (YySval s)), (T_KEY_FLAG, None), (T_FLAG_NAME, Some (YyUval fb))]"
| "print_expr p (AOp op a b) =
     parens (op_level op < p) (print_expr (op_level op) a @ (op_code op, None) # print_expr (Suc (op_level op)) b)"
| "print_expr p (ANeg e) = (42, None) # print_expr 7 e"
| "print_expr p (ACall f es) =
     (IDENTIFIER, Some (YySval f)) # (40, None) # commas (map (print_expr 1) es) @ [(41, None)]"

text \<open>The calls the grammar accepts silently.\<close>

fun calls_fit :: "ast \<Rightarrow> bool" where
  "calls_fit (AOp op a b) = (calls_fit a \<and> calls_fit b)"
| "calls_fit (ANeg e) = calls_fit e"
| "calls_fit (ACall f es) = (known_function f \<and> args_ok f (length es) \<and> (\<forall>e\<in>set es. calls_fit e))"
| "calls_fit _ = True"

text \<open>The nodes, in the order in which the parser makes them.\<close>

definition node :: "expr_data \<Rightarrow> expr_heap \<Rightarrow> addr \<times> expr_heap" where
  "node d h = (eh_next h, alloc d h)"

fun build :: "ast \<Rightarrow> expr_heap \<Rightarrow> addr \<times> expr_heap"
  and builds :: "ast list \<Rightarrow> expr_heap \<Rightarrow> addr list \<times> expr_heap" where
  "build (ANum d) h = node (EX_LITERAL d) h"
| "build (ARef s) h = node (EX_REF s) h"
| "build (AFlag s fb) h = node (EX_FLAG s fb) h"
| "build (AOp op a b) h =
     (let (x, h) = build a h; (y, h) = build b h in node (EX_OP (op_of_rule (op_rule op)) x y) h)"
| "build (ANeg e) h =
     (let (x, h) = build e h; (l, h) = node (EX_LITERAL (f64_of_int (- 1))) h in node (EX_OP ''*'' l x) h)"
| "build (ACall f es) h =
     (let (xs, h) = builds es h
      in if f = ''CHANGED'' then let (l, h) = node (EX_LITERAL G_MINDOUBLE) h in node (EX_FUNC f (xs @ [l])) h
         else node (EX_FUNC f xs) h)"
| "builds [] h = ([], h)"
| "builds (e # es) h = (let (x, h) = build e h; (xs, h) = builds es h in (x # xs, h))"

section \<open>The nodes stay\<close>

definition heap_grows :: "expr_heap \<Rightarrow> expr_heap \<Rightarrow> bool" where
  "heap_grows h h' \<longleftrightarrow> eh_next h \<le> eh_next h' \<and> (\<forall>a < eh_next h. eh_cell h' a = eh_cell h a)"

definition live :: "expr_heap \<Rightarrow> addr \<Rightarrow> bool" where
  "live h a \<longleftrightarrow> a < eh_next h \<and> 0 < nref h a"

lemma grows_trans: "heap_grows h h' \<Longrightarrow> heap_grows h' h'' \<Longrightarrow> heap_grows h h''"
  by (auto simp: heap_grows_def)

lemma grows_same [simp]: "heap_grows h h"
  by (simp add: heap_grows_def)

lemma grows_live: "heap_grows h h' \<Longrightarrow> live h a \<Longrightarrow> live h' a"
  by (auto simp: heap_grows_def live_def nref_def)

lemma node_grows: "node d h = (a, h') \<Longrightarrow> heap_grows h h' \<and> live h' a"
  by (auto simp: node_def heap_grows_def live_def nref_alloc alloc_cell)

lemma node_grows_trans: "heap_grows h h1 \<Longrightarrow> node d h1 = (a, h') \<Longrightarrow> heap_grows h h' \<and> live h' a"
  using node_grows grows_trans by blast

lemma builds_grows:
  "(\<And>e h a h'. e \<in> set es \<Longrightarrow> build e h = (a, h') \<Longrightarrow> heap_grows h h' \<and> live h' a) \<Longrightarrow>
    builds es h = (as, h') \<Longrightarrow> heap_grows h h' \<and> (\<forall>a\<in>set as. live h' a)"
proof (induction es arbitrary: h as h')
  case (Cons e es)
  obtain a h1 where 1: "build e h = (a, h1)" by (cases "build e h")
  obtain as' h2 where 2: "builds es h1 = (as', h2)" by (cases "builds es h1")
  from Cons.prems(1) [OF _ 1] have a: "heap_grows h h1" "live h1 a" by simp_all
  have b: "heap_grows h1 h2 \<and> (\<forall>a\<in>set as'. live h2 a)"
    by (rule Cons.IH [OF _ 2]) (meson Cons.prems(1) list.set_intros(2))
  from Cons.prems(2) 1 2 have "as = a # as'" "h' = h2" by auto
  with a b show ?case using grows_trans [of h h1 h2] grows_live [of h1 h2 a] by auto
qed simp

lemma build_grows: "build e h = (a, h') \<Longrightarrow> heap_grows h h' \<and> live h' a"
proof (induction e arbitrary: h a h')
  case (AOp op x y)
  obtain b h1 where 1: "build x h = (b, h1)" by (cases "build x h")
  obtain c h2 where 2: "build y h1 = (c, h2)" by (cases "build y h1")
  from AOp.IH(1) [OF 1] AOp.IH(2) [OF 2] have "heap_grows h h2" using grows_trans by blast
  with AOp.prems 1 2 node_grows_trans show ?case by auto
next
  case (ANeg x)
  obtain b h1 where 1: "build x h = (b, h1)" by (cases "build x h")
  obtain l h2 where 2: "node (EX_LITERAL (f64_of_int (- 1))) h1 = (l, h2)" by (cases "node (EX_LITERAL (f64_of_int (- 1))) h1")
  from ANeg.IH [OF 1] node_grows [OF 2] have "heap_grows h h2" using grows_trans by blast
  with ANeg.prems 1 2 node_grows_trans show ?case by auto
next
  case (ACall f es)
  obtain as h1 where 1: "builds es h = (as, h1)" by (cases "builds es h")
  have g: "heap_grows h h1" using builds_grows [OF ACall.IH 1] by simp
  obtain l h2 where 2: "node (EX_LITERAL G_MINDOUBLE) h1 = (l, h2)" by (cases "node (EX_LITERAL G_MINDOUBLE) h1")
  from g node_grows [OF 2] have g2: "heap_grows h h2" using grows_trans by blast
  from node_grows_trans [OF g] node_grows_trans [OF g2] ACall.prems 1 2 show ?case by (auto split: if_splits)
qed (use node_grows in auto)

section \<open>Steps of the machine\<close>

definition leads :: "nat \<Rightarrow> config \<Rightarrow> config \<Rightarrow> bool" where
  "leads k C C' \<longleftrightarrow> (\<exists>m. \<forall>n. lr_loop k (m + n) C = lr_loop k n C')"

lemma leads_refl: "leads k C C"
  unfolding leads_def by (rule exI [where x = 0]) simp

lemma leads_trans: "leads k C C' \<Longrightarrow> leads k C' C'' \<Longrightarrow> leads k C C''"
  unfolding leads_def
proof (elim exE)
  fix m m' assume "\<forall>n. lr_loop k (m + n) C = lr_loop k n C'" "\<forall>n. lr_loop k (m' + n) C' = lr_loop k n C''"
  then have "\<forall>n. lr_loop k ((m + m') + n) C = lr_loop k n C''" by (simp only: add.assoc) simp
  then show "\<exists>m. \<forall>n. lr_loop k (m + n) C = lr_loop k n C''" by blast
qed

lemma leads_step: "lr_step k C = Ret (Inl C') \<Longrightarrow> leads k C C'"
  unfolding leads_def by (rule exI [where x = 1]) simp

lemma leads_shift:
  assumes "decide s (YYTRANSLATE c) = Shift s'" "s \<noteq> 14" "Suc (length st) < YYMAXDEPTH - 1"
  shows "leads k ((s, v) # st, with_values v0 ((c, w) # ts), R)
    ((s', case w of None \<Rightarrow> v0 | Some w \<Rightarrow> w) # (s, v) # st, with_values (case w of None \<Rightarrow> v0 | Some w \<Rightarrow> w) ts, R)"
  using assms
  by (intro leads_step) (simp add: lr_step_def YYFINAL_def look_def with_values_Cons advance_Cons lr_push_def)

lemma leads_reduce:
  assumes "decide s (look inp) = Reduce r" "s \<noteq> 14" "(s, v) # st = us @ (t, w) # st'" "yyr2 ! r = length us" "us \<noteq> []"
    "yyaction k r (map snd ((s, v) # st)) (snd (last us)) R = Ret (v', R')" "Suc (length st') < YYMAXDEPTH - 1"
  shows "leads k ((s, v) # st, inp, R) ((yygoto r t, v') # (t, w) # st', inp, R')"
proof -
  have "yyvsp (map snd ((s, v) # st)) (length us - 1) = Ret (snd (last us))"
    using assms(5) unfolding assms(3)
    by (cases us) (auto simp: yyvsp_def pdata_def nth_append last_conv_nth nth_map)
  then have "lr_reduce k r ((s, v) # st, inp, R) = Ret (Inl ((yygoto r t, v') # (t, w) # st', inp, R'))"
    using assms(4-7) unfolding lr_reduce_def Let_def prod.case by (simp add: assms(3) lr_push_def)
  then show ?thesis using assms(1,2) by (intro leads_step) (simp add: lr_step_def YYFINAL_def)
qed

section \<open>Decisions for expressions\<close>

definition expr_states :: "nat list" where
  "expr_states = [11, 17, 20, 21, 24, 29, 32, 33, 34, 35, 36, 37, 38, 39, 41, 42, 43, 44, 70, 71, 74, 84]"

text \<open>The strength of the operator to the left of the expression.\<close>

definition left_level :: "nat \<Rightarrow> nat" where
  "left_level s =
     (if s = 38 then 1 else if s = 39 then 2 else if s = 32 \<or> s = 33 then 3 else if 34 \<le> s \<and> s \<le> 37 then 4
      else if s = 41 \<or> s = 42 then 5 else if s = 20 \<or> s = 43 \<or> s = 44 then 6 else 0)"

text \<open>The strength of the symbol to its right, 0 for what is not an operator.\<close>

definition right_level :: "nat \<Rightarrow> nat" where
  "right_level t =
     (if t = 9 then 1 else if t = 10 then 2 else if t = 3 \<or> t = 4 then 3 else if 5 \<le> t \<and> t \<le> 8 then 4
      else if t = 19 \<or> t = 20 then 5 else if t = 21 \<or> t = 22 then 6 else 0)"

fun op_state :: "binop \<Rightarrow> nat" where
  "op_state BEq = 32"
| "op_state BNe = 33"
| "op_state BLt = 34"
| "op_state BLe = 35"
| "op_state BGt = 36"
| "op_state BGe = 37"
| "op_state BAnd = 38"
| "op_state BOr = 39"
| "op_state BAdd = 41"
| "op_state BSub = 42"
| "op_state BMul = 43"
| "op_state BDiv = 44"

definition goto_expr :: "nat \<Rightarrow> nat" where
  "goto_expr s = yygoto 20 s"

lemma goto_expr_rule: "yyr1 ! r = 42 \<Longrightarrow> yygoto r s = goto_expr s"
  by (simp add: goto_expr_def yygoto_def yyr1_nth)

lemma op_symbol: "YYTRANSLATE (op_code op) = yyrhs ! op_rule op ! 1" "right_level (YYTRANSLATE (op_code op)) = op_level op"
  "op_level op \<le> 6" "1 \<le> op_level op"
  by (cases op; simp add: translate_eval yyrhs_nth right_level_def)+

lemma op_shift:
  assumes "s \<in> set expr_states" "left_level s < op_level op"
  shows "decide (goto_expr s) (YYTRANSLATE (op_code op)) = Shift (op_state op)"
proof -
  have "list_all (\<lambda>s. left_level s < op_level op \<longrightarrow> decide (goto_expr s) (YYTRANSLATE (op_code op)) = Shift (op_state op)) expr_states"
    by (cases op; simp add: expr_states_def left_level_def goto_expr_def yygoto_eval decide_eval translate_eval)
  with assms show ?thesis unfolding list_all_iff by blast
qed

lemma op_state_facts: "op_state op \<in> set expr_states" "left_level (op_state op) = op_level op" "yyr1 ! op_rule op = 42"
  "yyr2 ! op_rule op = 3" "op_state op \<noteq> 14" "22 < op_rule op" "op_rule op \<le> 34"
  by (cases op; simp add: expr_states_def left_level_def table_facts)+

lemma op_reduce:
  assumes "t < 31" "right_level t \<le> op_level op"
  shows "decide (goto_expr (op_state op)) t = Reduce (op_rule op)"
proof -
  have "list_all (\<lambda>t. right_level t \<le> op_level op \<longrightarrow> decide (goto_expr (op_state op)) t = Reduce (op_rule op)) all_symbols"
    by (cases op; simp add: all_symbols_def right_level_def goto_expr_def yygoto_eval decide_eval)
  then show ?thesis using in_all_symbols [OF assms(1)] assms(2) unfolding list_all_iff by blast
qed

lemma expr_shift:
  assumes "s \<in> set expr_states"
  shows "decide s 16 = Shift 18" "decide s 17 = Shift 19" "decide s 29 = Shift 21" "decide s 21 = Shift 20" "s \<noteq> 14"
    "goto_expr s \<noteq> 14"
proof -
  have "list_all (\<lambda>s. decide s 16 = Shift 18 \<and> decide s 17 = Shift 19 \<and> decide s 29 = Shift 21 \<and> decide s 21 = Shift 20
      \<and> s \<noteq> 14 \<and> goto_expr s \<noteq> 14) expr_states"
    by (simp add: expr_states_def decide_eval goto_expr_def yygoto_eval)
  with assms show "decide s 16 = Shift 18" "decide s 17 = Shift 19" "decide s 29 = Shift 21" "decide s 21 = Shift 20"
    "s \<noteq> 14" "goto_expr s \<noteq> 14" unfolding list_all_iff by blast+
qed

text \<open>The states inside an expression.\<close>

lemma inner_decide:
  assumes "t < 31"
  shows "decide 18 t = Reduce 20" "t \<noteq> 15 \<Longrightarrow> t \<noteq> 29 \<Longrightarrow> decide 19 t = Reduce 21" "decide 50 t = Reduce 22"
    "decide 30 t = Reduce 36" "decide 53 t = Reduce 35" "decide 72 t = Reduce 37"
proof -
  have "list_all (\<lambda>t. decide 18 t = Reduce 20 \<and> (t \<noteq> 15 \<longrightarrow> t \<noteq> 29 \<longrightarrow> decide 19 t = Reduce 21) \<and> decide 50 t = Reduce 22
      \<and> decide 30 t = Reduce 36 \<and> decide 53 t = Reduce 35 \<and> decide 72 t = Reduce 37) all_symbols"
    by (simp add: all_symbols_def decide_eval)
  with in_all_symbols [OF assms] show "decide 18 t = Reduce 20" "t \<noteq> 15 \<Longrightarrow> t \<noteq> 29 \<Longrightarrow> decide 19 t = Reduce 21"
    "decide 50 t = Reduce 22" "decide 30 t = Reduce 36" "decide 53 t = Reduce 35" "decide 72 t = Reduce 37"
    unfolding list_all_iff by blast+
qed

lemma inner_shift: "decide 19 15 = Shift 28" "decide 28 18 = Shift 50" "decide 31 30 = Shift 53" "decide 19 29 = Shift 29"
  "decide 52 30 = Shift 72" "decide 52 27 = Shift 71" "decide 51 27 = Reduce 39" "decide 51 30 = Reduce 39"
  "decide 79 27 = Reduce 40" "decide 79 30 = Reduce 40" "yygoto 39 29 = 52" "yygoto 40 29 = 52"
  "goto_expr 20 = 30" "goto_expr 21 = 31" "goto_expr 29 = 51" "goto_expr 71 = 79"
  by (simp_all add: decide_eval yygoto_eval goto_expr_def)

section \<open>Reading an expression back\<close>

definition first_symbol :: "token list \<Rightarrow> nat" where
  "first_symbol ts = (case ts of [] \<Rightarrow> 0 | t # _ \<Rightarrow> YYTRANSLATE (fst t))"

lemma look_first: "look (with_values v ts) = first_symbol ts"
  by (simp add: look_values first_symbol_def)

lemma first_below: "first_symbol ts < 31"
  using look_below look_first by metis

lemma first_Cons [simp]: "first_symbol ((c, w) # ts) = YYTRANSLATE c"
  by (simp add: first_symbol_def)

definition follows_ok :: "nat \<Rightarrow> token list \<Rightarrow> bool" where
  "follows_ok p ts \<longleftrightarrow> right_level (first_symbol ts) \<le> p \<and> first_symbol ts \<noteq> 15 \<and> first_symbol ts \<noteq> 29"

definition reads :: "nat \<Rightarrow> nat \<Rightarrow> ast \<Rightarrow> bool" where
  "reads k p e \<longleftrightarrow> (\<forall>s v st v0 ts R a h.
     s \<in> set expr_states \<longrightarrow> left_level s < p \<longrightarrow> follows_ok p ts \<longrightarrow>
     Suc (length st) + length (print_expr p e) < YYMAXDEPTH - 1 \<longrightarrow> build e (ru_heap R) = (a, h) \<longrightarrow>
     (\<exists>v1. leads k ((s, v) # st, with_values v0 (print_expr p e @ ts), R)
        ((goto_expr s, YyExpr a) # (s, v) # st, with_values v1 ts, set_heap R h)))"

lemma readsD:
  assumes "reads k p e" "s \<in> set expr_states" "left_level s < p" "follows_ok p ts"
    "Suc (length st) + length (print_expr p e) < YYMAXDEPTH - 1" "build e (ru_heap R) = (a, h)"
  obtains v1 where "leads k ((s, v) # st, with_values v0 (print_expr p e @ ts), R)
    ((goto_expr s, YyExpr a) # (s, v) # st, with_values v1 ts, set_heap R h)"
  using assms unfolding reads_def by blast

lemma print_nonempty: "0 < length (print_expr p e)"
  by (cases e) (auto simp: parens_def)

lemma yyaction_binary: "22 < r \<Longrightarrow> r \<le> 34 \<Longrightarrow> yyaction k r vs y R = action_op k r vs R"
  by (simp add: yyaction_def)

lemma set_heap_twice [simp]: "set_heap (set_heap R h) h' = set_heap R h'"
  by (simp add: set_heap_def)

lemma reads_op_plain:
  assumes a: "reads k (op_level op) a" and b: "reads k (Suc (op_level op)) b" and k: "0 < k"
    and s: "s \<in> set expr_states" "left_level s < op_level op" and ts: "follows_ok (op_level op) ts"
    and depth: "Suc (length st) + length (print_expr (op_level op) a @ (op_code op, None) # print_expr (Suc (op_level op)) b)
      < YYMAXDEPTH - 1"
    and build: "build (AOp op a b) (ru_heap R) = (x, h)"
  obtains v1 where "leads k
    ((s, v) # st, with_values v0 (print_expr (op_level op) a @ (op_code op, None) # print_expr (Suc (op_level op)) b @ ts), R)
    ((goto_expr s, YyExpr x) # (s, v) # st, with_values v1 ts, set_heap R h)"
proof -
  let ?l = "op_level op" and ?o = "op_state op"
  obtain xa h1 where 1: "build a (ru_heap R) = (xa, h1)" by (cases "build a (ru_heap R)")
  obtain xb h2 where 2: "build b h1 = (xb, h2)" by (cases "build b h1")
  from build 1 2 have 3: "x = eh_next h2" "h = alloc (EX_OP (op_of_rule (op_rule op)) xa xb) h2" by (simp_all add: node_def)
  have live: "live h2 xa" "live h2 xb" using build_grows [OF 1] build_grows [OF 2] grows_live by blast+
  obtain n where la: "length (print_expr ?l a) = Suc n" using print_nonempty [of ?l a] by (cases "length (print_expr ?l a)") auto
  have fo: "follows_ok ?l ((op_code op, None) # print_expr (Suc ?l) b @ ts)"
    using op_symbol [of op] by (cases op) (simp_all add: follows_ok_def translate_eval right_level_def)
  obtain v1 where A: "leads k ((s, v) # st, with_values v0 (print_expr ?l a @ (op_code op, None) # print_expr (Suc ?l) b @ ts), R)
    ((goto_expr s, YyExpr xa) # (s, v) # st, with_values v1 ((op_code op, None) # print_expr (Suc ?l) b @ ts), set_heap R h1)"
    by (rule readsD [OF a s fo _ 1]) (use depth in auto)
  have B: "leads k
    ((goto_expr s, YyExpr xa) # (s, v) # st, with_values v1 ((op_code op, None) # print_expr (Suc ?l) b @ ts), set_heap R h1)
    ((?o, v1) # (goto_expr s, YyExpr xa) # (s, v) # st, with_values v1 (print_expr (Suc ?l) b @ ts), set_heap R h1)"
    using leads_shift [OF op_shift [OF s] expr_shift(6) [OF s(1)], of "(s, v) # st" k "YyExpr xa" v1 None] depth la by simp
  have ts': "follows_ok (Suc ?l) ts" using ts by (auto simp: follows_ok_def)
  obtain v2 where C: "leads k
    ((?o, v1) # (goto_expr s, YyExpr xa) # (s, v) # st, with_values v1 (print_expr (Suc ?l) b @ ts), set_heap R h1)
    ((goto_expr ?o, YyExpr xb) # (?o, v1) # (goto_expr s, YyExpr xa) # (s, v) # st, with_values v2 ts, set_heap R h2)"
    by (rule readsD [OF b, of ?o ts "(goto_expr s, YyExpr xa) # (s, v) # st" "set_heap R h1" xb h2 v1 v1])
      (use op_state_facts [of op] ts' 2 depth la in auto)
  have act: "yyaction k (op_rule op) (YyExpr xb # v1 # YyExpr xa # vs) y (set_heap R h2) = Ret (YyExpr x, set_heap R h)" for vs y
    using new_op_eq [of "set_heap R h2" xa xb k "op_of_rule (op_rule op)"] live k
    by (simp add: yyaction_binary op_state_facts action_op_def expr_ptr_def live_def 3)
  have D: "leads k
    ((goto_expr ?o, YyExpr xb) # (?o, v1) # (goto_expr s, YyExpr xa) # (s, v) # st, with_values v2 ts, set_heap R h2)
    ((yygoto (op_rule op) s, YyExpr x) # (s, v) # st, with_values v2 ts, set_heap R h)"
    by (rule leads_reduce [where us = "[(goto_expr ?o, YyExpr xb), (?o, v1), (goto_expr s, YyExpr xa)]"])
      (use op_reduce [OF first_below, of ts op] ts expr_shift(6) [OF op_state_facts(1)] act depth la
        in \<open>auto simp: look_first follows_ok_def op_state_facts\<close>)
  from leads_trans [OF leads_trans [OF A B] leads_trans [OF C D]] show ?thesis
    using that by (simp add: goto_expr_rule op_state_facts)
qed

lemma readsI:
  assumes "\<And>s v st v0 ts R a h. s \<in> set expr_states \<Longrightarrow> left_level s < p \<Longrightarrow> follows_ok p ts \<Longrightarrow>
     Suc (length st) + length (print_expr p e) < YYMAXDEPTH - 1 \<Longrightarrow> build e (ru_heap R) = (a, h) \<Longrightarrow>
     \<exists>v1. leads k ((s, v) # st, with_values v0 (print_expr p e @ ts), R)
        ((goto_expr s, YyExpr a) # (s, v) # st, with_values v1 ts, set_heap R h)"
  shows "reads k p e"
  using assms unfolding reads_def by blast

text \<open>The first token of an expression, from a state that expects one.\<close>

lemma leads_first:
  assumes "s \<in> set expr_states" "Suc (length st) < YYMAXDEPTH - 1"
  shows "leads k ((s, v) # st, with_values v0 ((VALUE, Some w) # ts), R) ((18, w) # (s, v) # st, with_values w ts, R)"
    "leads k ((s, v) # st, with_values v0 ((IDENTIFIER, Some w) # ts), R) ((19, w) # (s, v) # st, with_values w ts, R)"
    "leads k ((s, v) # st, with_values v0 ((40, None) # ts), R) ((21, v0) # (s, v) # st, with_values v0 ts, R)"
    "leads k ((s, v) # st, with_values v0 ((42, None) # ts), R) ((20, v0) # (s, v) # st, with_values v0 ts, R)"
  using leads_shift [OF _ expr_shift(5) [OF assms(1)] assms(2), of VALUE 18 k v v0 "Some w" ts R]
    leads_shift [OF _ expr_shift(5) [OF assms(1)] assms(2), of IDENTIFIER 19 k v v0 "Some w" ts R]
    leads_shift [OF _ expr_shift(5) [OF assms(1)] assms(2), of 40 21 k v v0 None ts R]
    leads_shift [OF _ expr_shift(5) [OF assms(1)] assms(2), of 42 20 k v v0 None ts R]
    expr_shift(1-4) [OF assms(1)]
  by (simp_all add: translate_eval)

lemma reads_num: "reads k p (ANum d)"
proof (rule readsI)
  fix s v and st :: stack and v0 ts and R :: rules and a h
  assume h: "s \<in> set expr_states" "Suc (length st) + length (print_expr p (ANum d)) < YYMAXDEPTH - 1"
    "build (ANum d) (ru_heap R) = (a, h)"
  have B: "leads k ((18, YyDval d) # (s, v) # st, with_values (YyDval d) ts, R)
      ((yygoto 20 s, YyExpr a) # (s, v) # st, with_values (YyDval d) ts, set_heap R h)"
    by (rule leads_reduce [where us = "[(18, YyDval d)]"])
      (use inner_decide(1) [OF first_below, of ts] h(2,3) in \<open>simp_all add: look_first yyr2_nth yyaction_def action_leaf_def
        dval_def expr_new_literal_def expr_alloc_eq node_def\<close>)
  from leads_trans [OF leads_first(1) [OF h(1), of st] B] h(2)
  show "\<exists>v1. leads k ((s, v) # st, with_values v0 (print_expr p (ANum d) @ ts), R)
      ((goto_expr s, YyExpr a) # (s, v) # st, with_values v1 ts, set_heap R h)"
    by (auto simp: goto_expr_rule yyr1_nth)
qed

lemma reads_ref: "reads k p (ARef x)"
proof (rule readsI)
  fix s v and st :: stack and v0 ts and R :: rules and a h
  assume h: "s \<in> set expr_states" "Suc (length st) + length (print_expr p (ARef x)) < YYMAXDEPTH - 1"
    "build (ARef x) (ru_heap R) = (a, h)" "follows_ok p ts"
  have B: "leads k ((19, YySval x) # (s, v) # st, with_values (YySval x) ts, R)
      ((yygoto 21 s, YyExpr a) # (s, v) # st, with_values (YySval x) ts, set_heap R h)"
    by (rule leads_reduce [where us = "[(19, YySval x)]"])
      (use inner_decide(2) [OF first_below, of ts] h(2-4) in \<open>simp_all add: look_first yyr2_nth yyaction_def action_leaf_def
        sval_def expr_new_ref_def expr_alloc_eq node_def follows_ok_def\<close>)
  from leads_trans [OF leads_first(2) [OF h(1), of st] B] h(2)
  show "\<exists>v1. leads k ((s, v) # st, with_values v0 (print_expr p (ARef x) @ ts), R)
      ((goto_expr s, YyExpr a) # (s, v) # st, with_values v1 ts, set_heap R h)"
    by (auto simp: goto_expr_rule yyr1_nth)
qed

text \<open>A token without alternatives.\<close>

lemma leads_token:
  assumes "decide s A = Shift s'" "YYTRANSLATE c = A" "s \<noteq> 14" "Suc (length st) < YYMAXDEPTH - 1"
  shows "leads k ((s, v) # st, with_values v0 ((c, None) # ts), R) ((s', v0) # (s, v) # st, with_values v0 ts, R)"
    "leads k ((s, v) # st, with_values v0 ((c, Some w) # ts), R) ((s', w) # (s, v) # st, with_values w ts, R)"
  using leads_shift [of s c s' st k v v0 None ts R] leads_shift [of s c s' st k v v0 "Some w" ts R] assms by simp_all

lemma reads_flag: "reads k p (AFlag x fb)"
proof (rule readsI)
  fix s v and st :: stack and v0 ts and R :: rules and a h
  assume h: "s \<in> set expr_states" "Suc (length st) + length (print_expr p (AFlag x fb)) < YYMAXDEPTH - 1"
    "build (AFlag x fb) (ru_heap R) = (a, h)"
  let ?f = "(T_FLAG_NAME, Some (YyUval fb)) # ts" and ?q = "(s, v) # st"
  have B: "leads k ((19, YySval x) # ?q, with_values (YySval x) ((T_KEY_FLAG, None) # ?f), R)
      ((28, YySval x) # (19, YySval x) # ?q, with_values (YySval x) ?f, R)"
    using h(2) by (intro leads_token(1) [OF inner_shift(1)]) (simp_all add: translate_eval)
  have C: "leads k ((28, YySval x) # (19, YySval x) # ?q, with_values (YySval x) ?f, R)
      ((50, YyUval fb) # (28, YySval x) # (19, YySval x) # ?q, with_values (YyUval fb) ts, R)"
    using h(2) by (intro leads_token(2) [OF inner_shift(2)]) (simp_all add: translate_eval)
  have D: "leads k ((50, YyUval fb) # (28, YySval x) # (19, YySval x) # ?q, with_values (YyUval fb) ts, R)
      ((yygoto 22 s, YyExpr a) # ?q, with_values (YyUval fb) ts, set_heap R h)"
    by (rule leads_reduce [where us = "[(50, YyUval fb), (28, YySval x), (19, YySval x)]"])
      (use inner_decide(3) [OF first_below, of ts] h(2,3) in \<open>simp_all add: look_first yyr2_nth yyaction_def action_leaf_def
        sval_def uval_def expr_new_flag_def expr_alloc_eq node_def\<close>)
  from leads_trans [OF leads_first(2) [OF h(1), of st] leads_trans [OF B leads_trans [OF C D]]] h(2)
  show "\<exists>v1. leads k (?q, with_values v0 (print_expr p (AFlag x fb) @ ts), R)
      ((goto_expr s, YyExpr a) # ?q, with_values v1 ts, set_heap R h)"
    by (auto simp: goto_expr_rule yyr1_nth)
qed

lemma reads_neg:
  assumes e: "reads k 7 e" and k: "0 < k" and p: "p \<le> 7"
  shows "reads k p (ANeg e)"
proof (rule readsI)
  fix s v and st :: stack and v0 ts and R :: rules and a h
  assume h: "s \<in> set expr_states" "follows_ok p ts" "Suc (length st) + length (print_expr p (ANeg e)) < YYMAXDEPTH - 1"
    "build (ANeg e) (ru_heap R) = (a, h)"
  let ?q = "(s, v) # st"
  obtain x h1 where 1: "build e (ru_heap R) = (x, h1)" by (cases "build e (ru_heap R)")
  let ?lit = "alloc (EX_LITERAL (f64_of_int (- 1))) h1"
  from h(4) 1 have a: "a = eh_next ?lit" "h = alloc (EX_OP ''*'' (eh_next h1) x) ?lit"
    by (simp_all add: node_def)
  have "live h1 x" using build_grows [OF 1] by simp
  then have live: "live ?lit x" "live ?lit (eh_next h1)" by (auto simp: live_def nref_alloc alloc_cell)
  have ts: "follows_ok 7 ts" using h(2) p by (auto simp: follows_ok_def)
  have A: "leads k (?q, with_values v0 (print_expr p (ANeg e) @ ts), R) ((20, v0) # ?q, with_values v0 (print_expr 7 e @ ts), R)"
    using leads_first(4) [OF h(1), of st] h(3) by simp
  obtain v1 where B: "leads k ((20, v0) # ?q, with_values v0 (print_expr 7 e @ ts), R)
      ((30, YyExpr x) # (20, v0) # ?q, with_values v1 ts, set_heap R h1)"
    by (rule readsD [OF e _ _ ts, of 20 ?q R x h1 v0 v0])
      (use h(3) 1 in \<open>auto simp: expr_states_def left_level_def inner_shift\<close>)
  have "yyaction k 36 (YyExpr x # vs) y (set_heap R h1) = Ret (YyExpr a, set_heap R h)" for vs y
    using new_op_eq [of "set_heap R ?lit" "eh_next h1" x k "''*''"] live k
    by (simp add: yyaction_def action_paren_def expr_ptr_def expr_new_literal_def expr_alloc_eq live_def a)
  then have C: "leads k ((30, YyExpr x) # (20, v0) # ?q, with_values v1 ts, set_heap R h1)
      ((yygoto 36 s, YyExpr a) # ?q, with_values v1 ts, set_heap R h)"
    by (intro leads_reduce [where us = "[(30, YyExpr x), (20, v0)]"])
      (use inner_decide(4) [OF first_below, of ts] h(3) in \<open>simp_all add: look_first yyr2_nth\<close>)
  from leads_trans [OF A leads_trans [OF B C]]
  show "\<exists>v1. leads k (?q, with_values v0 (print_expr p (ANeg e) @ ts), R)
      ((goto_expr s, YyExpr a) # ?q, with_values v1 ts, set_heap R h)"
    by (auto simp: goto_expr_rule yyr1_nth)
qed

lemma reads_op:
  assumes a: "reads k (op_level op) a" and b: "reads k (Suc (op_level op)) b" and k: "0 < k"
  shows "reads k p (AOp op a b)"
proof (rule readsI)
  fix s v and st :: stack and v0 ts and R :: rules and x h
  assume h: "s \<in> set expr_states" "left_level s < p" "follows_ok p ts"
    "Suc (length st) + length (print_expr p (AOp op a b)) < YYMAXDEPTH - 1" "build (AOp op a b) (ru_heap R) = (x, h)"
  let ?q = "(s, v) # st" and ?l = "op_level op"
  let ?e = "print_expr ?l a @ (op_code op, None) # print_expr (Suc ?l) b"
  show "\<exists>v1. leads k (?q, with_values v0 (print_expr p (AOp op a b) @ ts), R)
      ((goto_expr s, YyExpr x) # ?q, with_values v1 ts, set_heap R h)"
  proof (cases "?l < p")
    case False
    then have "left_level s < ?l" "follows_ok ?l ts" using h(2,3) by (auto simp: follows_ok_def)
    from reads_op_plain [OF a b k h(1) this, of st R x h v v0] h(4,5) False
    obtain v1 where "leads k (?q, with_values v0 (?e @ ts), R) ((goto_expr s, YyExpr x) # ?q, with_values v1 ts, set_heap R h)"
      by (auto simp: parens_def)
    with False show ?thesis by (auto simp: parens_def)
  next
    case True
    then have print: "print_expr p (AOp op a b) @ ts = (40, None) # ?e @ (41, None) # ts" by (simp add: parens_def)
    have A: "leads k (?q, with_values v0 (print_expr p (AOp op a b) @ ts), R)
        ((21, v0) # ?q, with_values v0 (?e @ (41, None) # ts), R)"
      using leads_first(3) [OF h(1), of st] h(4) unfolding print by simp
    have "21 \<in> set expr_states" "left_level 21 < ?l" "follows_ok ?l ((41, None) # ts)"
      using op_symbol(4) [of op] by (simp_all add: expr_states_def left_level_def follows_ok_def translate_eval right_level_def)
    from reads_op_plain [OF a b k this, of ?q R x h v0 v0] h(4,5) True
    obtain v1 where B: "leads k ((21, v0) # ?q, with_values v0 (?e @ (41, None) # ts), R)
        ((31, YyExpr x) # (21, v0) # ?q, with_values v1 ((41, None) # ts), set_heap R h)"
      by (auto simp: parens_def inner_shift)
    have C: "leads k ((31, YyExpr x) # (21, v0) # ?q, with_values v1 ((41, None) # ts), set_heap R h)
        ((53, v1) # (31, YyExpr x) # (21, v0) # ?q, with_values v1 ts, set_heap R h)"
      using h(4) True by (intro leads_token(1) [OF inner_shift(3)]) (simp_all add: translate_eval parens_def)
    have D: "leads k ((53, v1) # (31, YyExpr x) # (21, v0) # ?q, with_values v1 ts, set_heap R h)
        ((yygoto 35 s, YyExpr x) # ?q, with_values v1 ts, set_heap R h)"
      by (rule leads_reduce [where us = "[(53, v1), (31, YyExpr x), (21, v0)]"])
        (use inner_decide(5) [OF first_below, of ts] h(4) in \<open>simp_all add: look_first yyr2_nth yyaction_def
          action_paren_def expr_ptr_def\<close>)
    from leads_trans [OF leads_trans [OF A B] leads_trans [OF C D]] show ?thesis
      by (auto simp: goto_expr_rule yyr1_nth)
  qed
qed

lemma commas_Cons: "commas (ts # tss) = ts @ concat (map (\<lambda>x. (44, None) # x) tss)"
  by (induction tss arbitrary: ts) auto

lemma reads_arguments:
  assumes "\<forall>e\<in>set es. reads k 1 e" "builds es (ru_heap R) = (ys, h)" "0 < k"
    "2 + length st + length (concat (map (\<lambda>e. (44, None) # print_expr 1 e) es)) < YYMAXDEPTH - 1"
  shows "\<exists>v1. leads k
    ((52, YyExprs xs) # (29, w) # st, with_values v0 (concat (map (\<lambda>e. (44, None) # print_expr 1 e) es) @ (41, None) # ts), R)
    ((52, YyExprs (xs @ ys)) # (29, w) # st, with_values v1 ((41, None) # ts), set_heap R h)"
  using assms
proof (induction es arbitrary: R xs ys v0)
  case Nil
  then show ?case by (auto intro!: exI [where x = v0] leads_refl)
next
  case (Cons e es)
  let ?q = "(29, w) # st" and ?m = "concat (map (\<lambda>e. (44, None) # print_expr 1 e) es) @ (41, None) # ts"
  obtain y h1 where 1: "build e (ru_heap R) = (y, h1)" by (cases "build e (ru_heap R)")
  obtain ys' h2 where 2: "builds es h1 = (ys', h2)" by (cases "builds es h1")
  from Cons.prems(2) 1 2 have ys: "ys = y # ys'" "h = h2" by simp_all
  have fo: "follows_ok 1 ?m"
    by (cases es) (simp_all add: follows_ok_def translate_eval right_level_def)
  have A: "leads k ((52, YyExprs xs) # ?q, with_values v0 ((44, None) # print_expr 1 e @ ?m), R)
      ((71, v0) # (52, YyExprs xs) # ?q, with_values v0 (print_expr 1 e @ ?m), R)"
    using Cons.prems(4) by (intro leads_token(1) [OF inner_shift(6)]) (simp_all add: translate_eval)
  obtain v1 where B: "leads k ((71, v0) # (52, YyExprs xs) # ?q, with_values v0 (print_expr 1 e @ ?m), R)
      ((79, YyExpr y) # (71, v0) # (52, YyExprs xs) # ?q, with_values v1 ?m, set_heap R h1)"
    by (rule readsD [OF _ _ _ fo, of k e 71 "(52, YyExprs xs) # ?q" R y h1 v0 v0])
      (use Cons.prems 1 in \<open>auto simp: expr_states_def left_level_def inner_shift\<close>)
  have look: "look (with_values v1 ?m) = 27 \<or> look (with_values v1 ?m) = 30"
    unfolding look_first by (cases es) (simp_all add: translate_eval)
  have C: "leads k ((79, YyExpr y) # (71, v0) # (52, YyExprs xs) # ?q, with_values v1 ?m, set_heap R h1)
      ((yygoto 40 29, YyExprs (xs @ [y])) # ?q, with_values v1 ?m, set_heap R h1)"
    by (rule leads_reduce [where us = "[(79, YyExpr y), (71, v0), (52, YyExprs xs)]"])
      (use look Cons.prems(4) in \<open>auto simp: inner_shift yyr2_nth yyaction_def action_argument_list_def expr_array_def
        expr_ptr_def\<close>)
  obtain v2 where D: "leads k ((52, YyExprs (xs @ [y])) # ?q, with_values v1 ?m, set_heap R h1)
      ((52, YyExprs ((xs @ [y]) @ ys')) # ?q, with_values v2 ((41, None) # ts), set_heap (set_heap R h1) h2)"
    using Cons.IH [of "set_heap R h1" ys' "xs @ [y]" v1] Cons.prems 2 ys(2) by auto
  from leads_trans [OF leads_trans [OF A B] leads_trans [OF C]] D show ?case
    by (auto simp: ys inner_shift)
qed

lemma builds_length: "builds es h = (as, h') \<Longrightarrow> length as = length es"
  by (induction es arbitrary: h as) (auto split: prod.splits)

lemma reads_call:
  assumes es: "\<forall>e\<in>set es. reads k 1 e" and k: "0 < k" and f: "known_function f" "args_ok f (length es)"
  shows "reads k p (ACall f es)"
proof (rule readsI)
  fix s v and st :: stack and v0 ts and R :: rules and a h
  assume h: "s \<in> set expr_states" "Suc (length st) + length (print_expr p (ACall f es)) < YYMAXDEPTH - 1"
    "build (ACall f es) (ru_heap R) = (a, h)"
  let ?q = "(s, v) # st" and ?p = "(40, None) # commas (map (print_expr 1) es) @ (41, None) # ts"
  let ?n = "(19, YySval f) # ?q"
  from f(2) have "es \<noteq> []" by (auto simp: args_ok_def split: if_splits)
  then obtain e es' where Cons: "es = e # es'" by (cases es) auto
  let ?m = "concat (map (\<lambda>e. (44, None) # print_expr 1 e) es') @ (41, None) # ts"
  have commas: "commas (map (print_expr 1) es) @ (41, None) # ts = print_expr 1 e @ ?m"
    by (simp add: Cons commas_Cons comp_def del: commas.simps)
  obtain y h1 where 1: "build e (ru_heap R) = (y, h1)" by (cases "build e (ru_heap R)")
  obtain ys h2 where 2: "builds es' h1 = (ys, h2)" by (cases "builds es' h1")
  have 3: "builds es (ru_heap R) = (y # ys, h2)" using 1 2 by (simp add: Cons)
  have fo: "follows_ok 1 ?m" by (cases es') (simp_all add: follows_ok_def translate_eval right_level_def)
  have len: "length (commas (map (print_expr 1) es)) =
      length (print_expr 1 e) + length (concat (map (\<lambda>e. (44, None) # print_expr 1 e) es'))"
    using arg_cong [OF commas, of length] by simp
  have A: "leads k (?q, with_values v0 (print_expr p (ACall f es) @ ts), R) (?n, with_values (YySval f) ?p, R)"
    using leads_first(2) [OF h(1), of st k v v0 "YySval f" ?p R] h(2) by simp
  have B: "leads k (?n, with_values (YySval f) ?p, R) ((29, YySval f) # ?n, with_values (YySval f) (print_expr 1 e @ ?m), R)"
    using h(2) unfolding commas by (intro leads_token(1) [OF inner_shift(4)]) (simp_all add: translate_eval)
  obtain v1 where C: "leads k ((29, YySval f) # ?n, with_values (YySval f) (print_expr 1 e @ ?m), R)
      ((51, YyExpr y) # (29, YySval f) # ?n, with_values v1 ?m, set_heap R h1)"
    by (rule readsD [OF _ _ _ fo, of k e 29 ?n R y h1 "YySval f" "YySval f"])
      (use es h(2) 1 len in \<open>auto simp: expr_states_def left_level_def inner_shift Cons\<close>)
  have look: "look (with_values v1 ?m) = 27 \<or> look (with_values v1 ?m) = 30"
    unfolding look_first by (cases es') (simp_all add: translate_eval)
  have D: "leads k ((51, YyExpr y) # (29, YySval f) # ?n, with_values v1 ?m, set_heap R h1)
      ((yygoto 39 29, YyExprs [y]) # (29, YySval f) # ?n, with_values v1 ?m, set_heap R h1)"
    by (rule leads_reduce [where us = "[(51, YyExpr y)]"])
      (use look h(2) len in \<open>auto simp: inner_shift yyr2_nth yyaction_def action_argument_list_def expr_ptr_def\<close>)
  obtain v2 where E: "leads k ((52, YyExprs [y]) # (29, YySval f) # ?n, with_values v1 ?m, set_heap R h1)
      ((52, YyExprs (y # ys)) # (29, YySval f) # ?n, with_values v2 ((41, None) # ts), set_heap R h2)"
    using reads_arguments [of es' k "set_heap R h1" ys h2 ?n "[y]" "YySval f" v1 ts] es k 2 h(2) len
      print_nonempty [of 1 e] by (auto simp: Cons)
  have F: "leads k ((52, YyExprs (y # ys)) # (29, YySval f) # ?n, with_values v2 ((41, None) # ts), set_heap R h2)
      ((72, v2) # (52, YyExprs (y # ys)) # (29, YySval f) # ?n, with_values v2 ts, set_heap R h2)"
    using h(2) len print_nonempty [of 1 e] by (intro leads_token(1) [OF inner_shift(5)]) (auto simp: translate_eval)
  have "length (y # ys) = length es" using builds_length [OF 3] .
  then have act: "yyaction k 37 (v2 # YyExprs (y # ys) # YySval f # YySval f # vs) x (set_heap R h2) = Ret (YyExpr a, set_heap R h)" for vs x
    using action_call_eq [OF f(1), of v2 "y # ys" "YySval f" vs "set_heap R h2"] f(2) h(3) 3
    by (auto simp: yyaction_def call_node_def check_args_def node_def split: if_splits)
  have G: "leads k ((72, v2) # (52, YyExprs (y # ys)) # (29, YySval f) # ?n, with_values v2 ts, set_heap R h2)
      ((yygoto 37 s, YyExpr a) # ?q, with_values v2 ts, set_heap R h)"
    by (rule leads_reduce [where us = "[(72, v2), (52, YyExprs (y # ys)), (29, YySval f), (19, YySval f)]"])
      (use inner_decide(6) [OF first_below, of ts] act h(2) in \<open>simp_all add: look_first yyr2_nth\<close>)
  from leads_trans [OF A leads_trans [OF B leads_trans [OF C leads_trans [OF D [unfolded inner_shift] leads_trans [OF E leads_trans [OF F G]]]]]]
  show "\<exists>v1. leads k (?q, with_values v0 (print_expr p (ACall f es) @ ts), R)
      ((goto_expr s, YyExpr a) # ?q, with_values v1 ts, set_heap R h)"
    by (auto simp: goto_expr_rule yyr1_nth)
qed

lemma reads_all: "calls_fit e \<Longrightarrow> p \<le> 7 \<Longrightarrow> 0 < k \<Longrightarrow> reads k p e"
proof (induction e arbitrary: p)
  case (AOp op a b)
  then show ?case using op_symbol(3) [of op] by (intro reads_op) simp_all
next
  case (ANeg e)
  then show ?case by (intro reads_neg) simp_all
next
  case (ACall f es)
  then show ?case by (intro reads_call) simp_all
qed (simp_all add: reads_num reads_ref reads_flag)

end
