(* ===== verification/RulesProgram.thy ===== *)
theory RulesProgram
  imports RulesRound
begin

text \<open>
  Whole programs: declarations, label blocks and triggers. The parser reads a printed program
  back and gives the engine the variables, the labels and the triggers in the order of the text.
\<close>

section \<open>Programs\<close>

datatype rule_set = Set string "guint64 option" ast

datatype instruction =
    Var string "ast option"
  | Label string "guint64 option" "(ast \<times> ast) list"
  | Trigger ast "rule_set list"

definition print_flag :: "guint64 option \<Rightarrow> token list" where
  "print_flag fl = (case fl of None \<Rightarrow> [] | Some fb \<Rightarrow> [(T_KEY_FLAG, None), (T_FLAG_NAME, Some (YyUval fb))])"

definition print_entry :: "ast \<times> ast \<Rightarrow> token list" where
  "print_entry e = (T_KEY_SET, None) # print_expr 1 (fst e) @ (T_KEY_WHEN, None) # print_expr 1 (snd e) @ [(59, None)]"

fun print_set :: "rule_set \<Rightarrow> token list" where
  "print_set (Set x fl e) = (IDENTIFIER, Some (YySval x)) # print_flag fl @ (61, None) # print_expr 1 e"

fun print_instruction :: "instruction \<Rightarrow> token list" where
  "print_instruction (Var x None) = [(T_KEY_VAR, None), (IDENTIFIER, Some (YySval x)), (59, None)]"
| "print_instruction (Var x (Some e)) =
     (T_KEY_VAR, None) # (IDENTIFIER, Some (YySval x)) # (61, None) # print_expr 1 e @ [(59, None)]"
| "print_instruction (Label x fl es) =
     (IDENTIFIER, Some (YySval x)) # print_flag fl @ (123, None) # concat (map print_entry es) @ [(125, None)]"
| "print_instruction (Trigger c as) =
     (T_KEY_TRIGGER, None) # (T_KEY_WHEN, None) # print_expr 1 c @ (T_KEY_SET, None) # commas (map print_set as) @ [(59, None)]"

definition print_program :: "instruction list \<Rightarrow> token list" where
  "print_program is = concat (map print_instruction is)"

definition flag_bits :: "guint64 option \<Rightarrow> guint64" where
  "flag_bits fl = (case fl of None \<Rightarrow> 0 | Some fb \<Rightarrow> fb)"

fun build_entries :: "string \<Rightarrow> guint64 \<Rightarrow> (ast \<times> ast) list \<Rightarrow> expr_heap \<Rightarrow> label_block \<times> expr_heap" where
  "build_entries x fb [] h = ([], h)"
| "build_entries x fb ((r, c) # es) h =
     (let (a, h) = build r h; (b, h) = build c h; (es, h) = build_entries x fb es h
      in (\<lparr>le_cond = b, le_ass = \<lparr>as_id = x, as_rval = a, as_flag_bit = fb\<rparr>\<rparr> # es, h))"

fun build_sets :: "rule_set list \<Rightarrow> expr_heap \<Rightarrow> assign list \<times> expr_heap" where
  "build_sets [] h = ([], h)"
| "build_sets (Set x fl e # ss) h =
     (let (a, h) = build e h; (as, h) = build_sets ss h
      in (\<lparr>as_id = x, as_rval = a, as_flag_bit = flag_bits fl\<rparr> # as, h))"

text \<open>What an instruction gives the engine.\<close>

fun build_instruction :: "instruction \<Rightarrow> rules \<Rightarrow> rules" where
  "build_instruction (Var x e) R =
     (let (a, h) = (case e of None \<Rightarrow> node (EX_LITERAL f64_zero) (ru_heap R) | Some e \<Rightarrow> build e (ru_heap R))
      in insert_var x \<lparr>var_name = x, var_value = a\<rparr> (set_heap R h))"
| "build_instruction (Label x fl es) R =
     (let (b, h) = build_entries x (flag_bits fl) es (ru_heap R)
      in (set_heap R h)\<lparr>ru_labels := ru_labels R @ [b]\<rparr>)"
| "build_instruction (Trigger c ss) R =
     (let (a, h) = build c (ru_heap R); (as, h) = build_sets ss h
      in (set_heap R h)\<lparr>ru_triggers := ru_triggers R @ [\<lparr>tr_cond = a, tr_ass = as\<rparr>]\<rparr>)"

fun set_fits :: "rule_set \<Rightarrow> bool" where
  "set_fits (Set x fl e) = calls_fit e"

text \<open>
  Instructions the grammar accepts silently, and whose tokens fit the stack of the parser.
\<close>

fun instruction_fits :: "instruction \<Rightarrow> bool" where
  "instruction_fits (Var x e) = (case e of None \<Rightarrow> True | Some e \<Rightarrow> calls_fit e)"
| "instruction_fits (Label x fl es) = (es \<noteq> [] \<and> (\<forall>e\<in>set es. calls_fit (fst e) \<and> calls_fit (snd e)))"
| "instruction_fits (Trigger c ss) = (calls_fit c \<and> ss \<noteq> [] \<and> (\<forall>s\<in>set ss. set_fits s))"

definition fits_stack :: "instruction \<Rightarrow> bool" where
  "fits_stack i \<longleftrightarrow> length (print_instruction i) + 8 < YYMAXDEPTH"

section \<open>Decisions\<close>

lemma program_shift:
  "decide 0 11 = Shift 1" "decide 5 11 = Shift 1" "decide 0 14 = Shift 2" "decide 5 14 = Shift 2"
  "decide 0 17 = Shift 3" "decide 5 17 = Shift 3" "decide (Suc 0) 17 = Shift 10" "decide 10 26 = Shift 16"
  "decide 10 28 = Shift 17" "decide 27 26 = Shift 49" "decide 2 13 = Shift 11" "decide 22 12 = Shift 40"
  "decide 40 17 = Shift 62" "decide 76 17 = Shift 62" "decide 62 28 = Shift 74" "decide 62 15 = Shift 73"
  "decide 73 18 = Shift 80" "decide 80 28 = Shift 84" "decide 63 26 = Shift 75" "decide 63 27 = Shift 76"
  "decide 3 15 = Shift 12" "decide 3 24 = Shift 13" "decide 12 18 = Shift 23" "decide 23 24 = Shift 45"
  "decide 13 12 = Shift 24" "decide 25 12 = Shift 24" "decide 45 12 = Shift 24" "decide 69 12 = Shift 24"
  "decide 46 13 = Shift 70" "decide 78 26 = Shift 83" "decide 25 25 = Shift 47" "decide 69 25 = Shift 77"
  "decide 4 0 = Shift 14"
  by (simp_all add: decide_eval)

lemma program_goto:
  "goto_expr 17 = 27" "goto_expr 11 = 22" "goto_expr 74 = 81" "goto_expr 84 = 85" "goto_expr 24 = 46" "goto_expr 70 = 78"
  "yygoto 18 0 = 9" "yygoto 18 5 = 9" "yygoto 19 0 = 9" "yygoto 19 5 = 9" "yygoto 8 0 = 7" "yygoto 8 5 = 7"
  "yygoto 9 0 = 7" "yygoto 9 5 = 7" "yygoto 13 0 = 8" "yygoto 13 5 = 8" "yygoto 5 0 = 6" "yygoto 5 5 = 15"
  "yygoto 6 0 = 6" "yygoto 6 5 = 15" "yygoto 7 0 = 6" "yygoto 7 5 = 15" "yygoto 3 0 = 5" "yygoto 4 0 = 5"
  "yygoto 2 0 = 4" "yygoto 12 13 = 26" "yygoto 12 45 = 26" "yygoto 12 25 = 48" "yygoto 12 69 = 48" "yygoto 10 13 = 25"
  "yygoto 10 45 = 69" "yygoto 11 13 = 25" "yygoto 11 45 = 69" "yygoto 16 40 = 64" "yygoto 17 40 = 64"
  "yygoto 16 76 = 82" "yygoto 17 76 = 82" "yygoto 14 40 = 63" "yygoto 15 40 = 63"
  by (simp_all add: goto_expr_def yygoto_eval)

lemma program_reduce:
  "decide 16 t = Reduce 18" "decide 49 t = Reduce 19" "decide 9 t = Reduce 7" "decide 7 t = Reduce 5" "decide 8 t = Reduce 6"
  "decide 6 t = Reduce 3" "decide 15 t = Reduce 4" "decide 83 t = Reduce 12" "decide 26 t = Reduce 10"
  "decide 48 t = Reduce 11" "decide 47 t = Reduce 8" "decide 77 t = Reduce 9" "decide 64 t = Reduce 14"
  "decide 82 t = Reduce 15" "decide 75 t = Reduce 13" "decide 5 0 = Reduce 2" "decide 81 26 = Reduce 16"
  "decide 81 27 = Reduce 16" "decide 85 26 = Reduce 17" "decide 85 27 = Reduce 17"
  by (simp_all add: decide_def YYPACT_NINF_def table_facts) (simp_all add: act_at_def YYLAST_def table_facts)

section \<open>Parts of instructions\<close>

lemma follows_ends [simp]:
  "follows_ok (Suc 0) ((59, w) # ts)" "follows_ok (Suc 0) ((44, w) # ts)" "follows_ok (Suc 0) ((T_KEY_WHEN, w) # ts)"
  "follows_ok (Suc 0) ((T_KEY_SET, w) # ts)"
  by (simp_all add: follows_ok_def translate_eval right_level_def)

lemma leads_expr:
  assumes "calls_fit e" "0 < k" "s \<in> {11, 17, 24, 70, 74, 84}" "follows_ok 1 ts"
    "Suc (length st) + length (print_expr 1 e) < YYMAXDEPTH - 1" "build e (ru_heap R) = (a, h)"
  obtains v1 where "leads k ((s, v) # st, with_values v0 (print_expr 1 e @ ts), R)
    ((goto_expr s, YyExpr a) # (s, v) # st, with_values v1 ts, set_heap R h)"
proof -
  have "reads k 1 e" using reads_all [OF assms(1) _ assms(2), of 1] by simp
  then show ?thesis
    by (rule readsD [of k 1 e s ts st R a h v v0])
      (use assms(3-) that in \<open>auto simp: expr_states_def left_level_def\<close>)
qed

lemma print_length: "\<exists>n. length (print_expr p e) = Suc n"
  using print_nonempty [of p e] by (cases "length (print_expr p e)") auto

lemma reads_entry:
  assumes s: "decide s 12 = Shift 24" "s \<noteq> 14" and fit: "calls_fit r" "calls_fit c" and k: "0 < k"
    and depth: "length st + length (print_entry (r, c)) < YYMAXDEPTH - 1"
    and build: "build r (ru_heap R) = (a, h1)" "build c h1 = (b, h2)"
  obtains v1 where "leads k ((s, v) # st, with_values v0 (print_entry (r, c) @ ts), R)
    ((yygoto 12 s, YyEntry \<lparr>le_cond = b, le_ass = \<lparr>as_id = '''', as_rval = a, as_flag_bit = 0\<rparr>\<rparr>) # (s, v) # st,
      with_values v1 ts, set_heap R h2)"
proof -
  let ?q = "(s, v) # st" and ?c = "(T_KEY_WHEN, None) # print_expr 1 c @ (59, None) # ts"
  obtain m n where len: "length (print_entry (r, c)) = 3 + length (print_expr 1 r) + length (print_expr 1 c)"
    "length (print_expr 1 r) = Suc m" "length (print_expr 1 c) = Suc n"
    using print_length [of 1 r] print_length [of 1 c] by (auto simp: print_entry_def)
  have live: "0 < nref h2 a" "0 < nref h2 b"
    using build_grows [OF build(1)] build_grows [OF build(2)] grows_live by (auto simp: live_def)
  have A: "leads k (?q, with_values v0 (print_entry (r, c) @ ts), R) ((24, v0) # ?q, with_values v0 (print_expr 1 r @ ?c), R)"
    using leads_token(1) [OF s(1) _ s(2), of T_KEY_SET st k v v0 "print_expr 1 r @ ?c" R] depth
    by (simp add: print_entry_def translate_eval)
  obtain v1 where B: "leads k ((24, v0) # ?q, with_values v0 (print_expr 1 r @ ?c), R)
      ((46, YyExpr a) # (24, v0) # ?q, with_values v1 ?c, set_heap R h1)"
    by (rule leads_expr [OF fit(1) k, of 24 ?c ?q R a h1 v0 v0]) (use build len depth program_goto in auto)
  have C: "leads k ((46, YyExpr a) # (24, v0) # ?q, with_values v1 ?c, set_heap R h1)
      ((70, v1) # (46, YyExpr a) # (24, v0) # ?q, with_values v1 (print_expr 1 c @ (59, None) # ts), set_heap R h1)"
    by (rule leads_token(1) [where A = 13]) (use len depth in \<open>simp_all add: program_shift translate_eval\<close>)
  let ?p = "(70, v1) # (46, YyExpr a) # (24, v0) # ?q"
  obtain v2 where D: "leads k (?p, with_values v1 (print_expr 1 c @ (59, None) # ts), set_heap R h1)
      ((78, YyExpr b) # ?p, with_values v2 ((59, None) # ts), set_heap R h2)"
    by (rule leads_expr [OF fit(2) k, of 70 "(59, None) # ts" "(46, YyExpr a) # (24, v0) # ?q" "set_heap R h1" b h2 v1 v1])
      (use build len depth program_goto in auto)
  have E: "leads k ((78, YyExpr b) # ?p, with_values v2 ((59, None) # ts), set_heap R h2)
      ((83, v2) # (78, YyExpr b) # ?p, with_values v2 ts, set_heap R h2)"
    by (rule leads_token(1) [where A = 26]) (use len depth in \<open>simp_all add: program_shift translate_eval\<close>)
  have F: "leads k ((83, v2) # (78, YyExpr b) # ?p, with_values v2 ts, set_heap R h2)
      ((yygoto 12 s, YyEntry \<lparr>le_cond = b, le_ass = \<lparr>as_id = '''', as_rval = a, as_flag_bit = 0\<rparr>\<rparr>) # ?q,
        with_values v2 ts, set_heap R h2)"
    by (rule leads_reduce [where us = "[(83, v2), (78, YyExpr b), (70, v1), (46, YyExpr a), (24, v0)]"])
      (use label_entry_eq [of "set_heap R h2" a b k] live k depth len in \<open>simp_all add: program_reduce yyr2_nth yyaction_def\<close>)
  from leads_trans [OF A leads_trans [OF B leads_trans [OF C leads_trans [OF D leads_trans [OF E F]]]]] show ?thesis
    using that by blast
qed

lemma list_goto:
  assumes "s \<in> {13, 45}"
  shows "yygoto 12 s = 26" "yygoto 10 s = yygoto 11 s" "yygoto 12 (yygoto 11 s) = 48" "decide (yygoto 11 s) 12 = Shift 24"
    "yygoto 11 s \<noteq> 14" "decide s 12 = Shift 24" "s \<noteq> 14"
  using assms by (auto simp: program_goto program_shift)

lemma reads_more_entries:
  assumes s: "s \<in> {13, 45}" and k: "0 < k" and fit: "\<forall>e\<in>set es. calls_fit (fst e) \<and> calls_fit (snd e)"
    and depth: "Suc (length st) + length (concat (map print_entry es)) < YYMAXDEPTH - 1"
    and build: "build_entries '''' 0 es (ru_heap R) = (b, h)"
  shows "\<exists>v1. leads k ((yygoto 11 s, YyEntries xs) # (s, v) # st, with_values v0 (concat (map print_entry es) @ ts), R)
    ((yygoto 11 s, YyEntries (xs @ b)) # (s, v) # st, with_values v1 ts, set_heap R h)"
  using fit depth build
proof (induction es arbitrary: R b h xs v0)
  case Nil
  then show ?case by (auto intro!: exI [where x = v0] leads_refl)
next
  case (Cons e es)
  obtain r c where e: "e = (r, c)" by (cases e)
  let ?q = "(yygoto 11 s, YyEntries xs) # (s, v) # st" and ?m = "concat (map print_entry es) @ ts"
  obtain x h1 where 1: "build r (ru_heap R) = (x, h1)" by (cases "build r (ru_heap R)")
  obtain y h2 where 2: "build c h1 = (y, h2)" by (cases "build c h1")
  obtain b' h3 where 3: "build_entries '''' 0 es h2 = (b', h3)" by (cases "build_entries '''' 0 es h2")
  let ?e = "\<lparr>le_cond = y, le_ass = \<lparr>as_id = '''', as_rval = x, as_flag_bit = 0\<rparr>\<rparr>"
  from Cons.prems(3) 1 2 3 have b: "b = ?e # b'" "h = h3" by (simp_all add: e)
  obtain v1 where A: "leads k (?q, with_values v0 (print_entry (r, c) @ ?m), R) ((48, YyEntry ?e) # ?q, with_values v1 ?m, set_heap R h2)"
    by (rule reads_entry [OF list_goto(4,5) [OF s] _ _ k _ 1 2, of "(s, v) # st" "YyEntries xs" v0 ?m])
      (use Cons.prems list_goto(3) [OF s] in \<open>auto simp: e\<close>)
  have B: "leads k ((48, YyEntry ?e) # ?q, with_values v1 ?m, set_heap R h2)
      ((yygoto 11 s, YyEntries (xs @ [?e])) # (s, v) # st, with_values v1 ?m, set_heap R h2)"
    by (rule leads_reduce [where us = "[(48, YyEntry ?e), (yygoto 11 s, YyEntries xs)]"])
      (use Cons.prems(2) in \<open>simp_all add: program_reduce yyr2_nth yyaction_def action_label_entries_def entry_array_def
        label_entry_ptr_def\<close>)
  obtain v2 where C: "leads k ((yygoto 11 s, YyEntries (xs @ [?e])) # (s, v) # st, with_values v1 ?m, set_heap R h2)
      ((yygoto 11 s, YyEntries ((xs @ [?e]) @ b')) # (s, v) # st, with_values v2 ts, set_heap (set_heap R h2) h3)"
    using Cons.IH [of "set_heap R h2" b' h3 "xs @ [?e]" v1] Cons.prems 3 by auto
  from leads_trans [OF leads_trans [OF A B] C] show ?case by (auto simp: b e)
qed

lemma reads_entries:
  assumes s: "s \<in> {13, 45}" and k: "0 < k" and fit: "\<forall>e\<in>set es. calls_fit (fst e) \<and> calls_fit (snd e)" "es \<noteq> []"
    and depth: "Suc (length st) + length (concat (map print_entry es)) < YYMAXDEPTH - 1"
    and build: "build_entries '''' 0 es (ru_heap R) = (b, h)"
  obtains v1 where "leads k ((s, v) # st, with_values v0 (concat (map print_entry es) @ ts), R)
    ((yygoto 11 s, YyEntries b) # (s, v) # st, with_values v1 ts, set_heap R h)"
proof -
  obtain r c es' where es: "es = (r, c) # es'" using fit(2) by (cases es) auto
  let ?q = "(s, v) # st" and ?m = "concat (map print_entry es') @ ts"
  obtain x h1 where 1: "build r (ru_heap R) = (x, h1)" by (cases "build r (ru_heap R)")
  obtain y h2 where 2: "build c h1 = (y, h2)" by (cases "build c h1")
  obtain b' h3 where 3: "build_entries '''' 0 es' h2 = (b', h3)" by (cases "build_entries '''' 0 es' h2")
  let ?e = "\<lparr>le_cond = y, le_ass = \<lparr>as_id = '''', as_rval = x, as_flag_bit = 0\<rparr>\<rparr>"
  from build 1 2 3 have b: "b = ?e # b'" "h = h3" by (simp_all add: es)
  obtain v1 where A: "leads k (?q, with_values v0 (print_entry (r, c) @ ?m), R) ((26, YyEntry ?e) # ?q, with_values v1 ?m, set_heap R h2)"
    by (rule reads_entry [OF list_goto(6,7) [OF s] _ _ k _ 1 2, of st v v0 ?m])
      (use fit depth list_goto(1) [OF s] in \<open>auto simp: es\<close>)
  have B: "leads k ((26, YyEntry ?e) # ?q, with_values v1 ?m, set_heap R h2)
      ((yygoto 10 s, YyEntries [?e]) # ?q, with_values v1 ?m, set_heap R h2)"
    by (rule leads_reduce [where us = "[(26, YyEntry ?e)]"])
      (use depth in \<open>simp_all add: program_reduce yyr2_nth yyaction_def action_label_entries_def label_entry_ptr_def\<close>)
  obtain v2 where C: "leads k ((yygoto 11 s, YyEntries [?e]) # ?q, with_values v1 ?m, set_heap R h2)
      ((yygoto 11 s, YyEntries ([?e] @ b')) # ?q, with_values v2 ts, set_heap (set_heap R h2) h3)"
    using reads_more_entries [OF s k, of es' st "set_heap R h2" b' h3 "[?e]" v v1 ts] fit depth 3 by (auto simp: es)
  from leads_trans [OF leads_trans [OF A B [unfolded list_goto(2) [OF s]]] C] show ?thesis
    using that by (simp add: b es)
qed

lemma build_entries_retarget:
  "build_entries x fb es h = (let (b, h) = build_entries '''' 0 es h in (map (retarget x fb) b, h))"
  by (induction es arbitrary: h) (auto simp: retarget_def split: prod.splits)

lemma set_goto:
  assumes "s \<in> {40, 76}"
  shows "decide s 17 = Shift 62" "s \<noteq> 14" "yygoto 17 s = yygoto 16 s"
  using assms by (auto simp: program_goto program_shift)

lemma reads_set:
  assumes s: "s \<in> {40, 76}" and k: "0 < k" and fit: "calls_fit e"
    and depth: "Suc (length st) + length (print_set (Set x fl e)) < YYMAXDEPTH - 1"
    and build: "build e (ru_heap R) = (a, h)" and ts: "ts = (c, None) # ts'" "c = 59 \<or> c = 44"
  obtains v1 where "leads k ((s, v) # st, with_values v0 (print_set (Set x fl e) @ ts), R)
    ((yygoto 16 s, YyAss \<lparr>as_id = x, as_rval = a, as_flag_bit = flag_bits fl\<rparr>) # (s, v) # st, with_values v1 ts, set_heap R h)"
proof -
  let ?q = "(s, v) # st" and ?e = "(61, None) # print_expr 1 e @ ts"
  let ?n = "(62, YySval x) # ?q"
  have live: "0 < nref h a" using build_grows [OF build] by (simp add: live_def)
  have fo: "follows_ok 1 ts" using ts by auto
  have look: "look (with_values w ts) = 26 \<or> look (with_values w ts) = 27" for w
    unfolding look_first using ts by (auto simp: translate_eval)
  obtain n where len: "length (print_expr 1 e) = Suc n" using print_length by blast
  have A: "leads k (?q, with_values v0 (print_set (Set x fl e) @ ts), R) (?n, with_values (YySval x) (print_flag fl @ ?e), R)"
    using leads_token(2) [OF set_goto(1) [OF s] _ set_goto(2) [OF s], of IDENTIFIER st k v v0 "YySval x" "print_flag fl @ ?e" R] depth
    by (simp add: translate_eval)
  note act = assignment_eq [of "set_heap R h" a k]
  show ?thesis
  proof (cases fl)
    case None
    have B: "leads k (?n, with_values (YySval x) (print_flag fl @ ?e), R) ((74, YySval x) # ?n, with_values (YySval x) (print_expr 1 e @ ts), R)"
      unfolding None print_flag_def option.case append_Nil
      by (rule leads_token(1) [where A = 28]) (use depth len in \<open>simp_all add: translate_eval program_shift\<close>)
    obtain v1 where C: "leads k ((74, YySval x) # ?n, with_values (YySval x) (print_expr 1 e @ ts), R)
        ((81, YyExpr a) # (74, YySval x) # ?n, with_values v1 ts, set_heap R h)"
      by (rule leads_expr [OF fit k _ fo, of 74 ?n R a h "YySval x" "YySval x"]) (use build depth program_goto in auto)
    have D: "leads k ((81, YyExpr a) # (74, YySval x) # ?n, with_values v1 ts, set_heap R h)
        ((yygoto 16 s, YyAss \<lparr>as_id = x, as_rval = a, as_flag_bit = 0\<rparr>) # ?q, with_values v1 ts, set_heap R h)"
      by (rule leads_reduce [where us = "[(81, YyExpr a), (74, YySval x), (62, YySval x)]"])
        (use look [of v1] act(1) live k depth in \<open>auto simp: program_reduce yyr2_nth yyaction_def\<close>)
    from leads_trans [OF leads_trans [OF A B] leads_trans [OF C D]] show ?thesis
      using that by (simp add: None flag_bits_def)
  next
    case (Some fb)
    let ?f = "(73, YySval x) # ?n"
    have B: "leads k (?n, with_values (YySval x) (print_flag fl @ ?e), R)
        (?f, with_values (YySval x) ((T_FLAG_NAME, Some (YyUval fb)) # ?e), R)"
      unfolding Some print_flag_def option.case append.simps
      by (rule leads_token(1) [where A = 15]) (use depth len in \<open>simp_all add: translate_eval program_shift\<close>)
    have C: "leads k (?f, with_values (YySval x) ((T_FLAG_NAME, Some (YyUval fb)) # ?e), R)
        ((80, YyUval fb) # ?f, with_values (YyUval fb) ?e, R)"
      by (rule leads_token(2) [where A = 18]) (use depth len in \<open>simp_all add: translate_eval program_shift Some print_flag_def\<close>)
    have D: "leads k ((80, YyUval fb) # ?f, with_values (YyUval fb) ?e, R)
        ((84, YyUval fb) # (80, YyUval fb) # ?f, with_values (YyUval fb) (print_expr 1 e @ ts), R)"
      by (rule leads_token(1) [where A = 28]) (use depth len in \<open>simp_all add: translate_eval program_shift Some print_flag_def\<close>)
    obtain v1 where E: "leads k ((84, YyUval fb) # (80, YyUval fb) # ?f, with_values (YyUval fb) (print_expr 1 e @ ts), R)
        ((85, YyExpr a) # (84, YyUval fb) # (80, YyUval fb) # ?f, with_values v1 ts, set_heap R h)"
      by (rule leads_expr [OF fit k _ fo, of 84 "(80, YyUval fb) # ?f" R a h "YyUval fb" "YyUval fb"])
        (use build depth program_goto in \<open>auto simp: Some print_flag_def\<close>)
    have F: "leads k ((85, YyExpr a) # (84, YyUval fb) # (80, YyUval fb) # ?f, with_values v1 ts, set_heap R h)
        ((yygoto 17 s, YyAss \<lparr>as_id = x, as_rval = a, as_flag_bit = fb\<rparr>) # ?q, with_values v1 ts, set_heap R h)"
      by (rule leads_reduce [where us = "[(85, YyExpr a), (84, YyUval fb), (80, YyUval fb), (73, YySval x), (62, YySval x)]"])
        (use look [of v1] act(2) live k depth in \<open>auto simp: program_reduce yyr2_nth yyaction_def Some\<close>)
    from leads_trans [OF leads_trans [OF A B] leads_trans [OF C leads_trans [OF D leads_trans [OF E F]]]] show ?thesis
      using that by (simp add: Some flag_bits_def set_goto(3) [OF s])
  qed
qed

lemma reads_more_sets:
  assumes k: "0 < k" and fit: "\<forall>s\<in>set ss. set_fits s"
    and depth: "2 + length st + length (concat (map (\<lambda>s. (44, None) # print_set s) ss)) < YYMAXDEPTH - 1"
    and build: "build_sets ss (ru_heap R) = (as, h)"
  shows "\<exists>v1. leads k
    ((63, YyAsses xs) # (40, v) # st, with_values v0 (concat (map (\<lambda>s. (44, None) # print_set s) ss) @ (59, None) # ts), R)
    ((63, YyAsses (xs @ as)) # (40, v) # st, with_values v1 ((59, None) # ts), set_heap R h)"
  using fit depth build
proof (induction ss arbitrary: R as h xs v0)
  case Nil
  then show ?case by (auto intro!: exI [where x = v0] leads_refl)
next
  case (Cons s ss)
  obtain x fl e where s: "s = Set x fl e" by (cases s)
  let ?q = "(63, YyAsses xs) # (40, v) # st" and ?m = "concat (map (\<lambda>s. (44, None) # print_set s) ss) @ (59, None) # ts"
  obtain a h1 where 1: "build e (ru_heap R) = (a, h1)" by (cases "build e (ru_heap R)")
  obtain as' h2 where 2: "build_sets ss h1 = (as', h2)" by (cases "build_sets ss h1")
  let ?a = "\<lparr>as_id = x, as_rval = a, as_flag_bit = flag_bits fl\<rparr>"
  from Cons.prems(3) 1 2 have as: "as = ?a # as'" "h = h2" by (simp_all add: s)
  obtain c ms where m: "?m = (c, None) # ms" "c = 59 \<or> c = 44" by (cases ss) auto
  have A: "leads k (?q, with_values v0 ((44, None) # print_set s @ ?m), R) ((76, v0) # ?q, with_values v0 (print_set s @ ?m), R)"
    by (rule leads_token(1) [where A = 27]) (use Cons.prems in \<open>simp_all add: translate_eval program_shift\<close>)
  obtain v1 where B: "leads k ((76, v0) # ?q, with_values v0 (print_set s @ ?m), R) ((82, YyAss ?a) # (76, v0) # ?q, with_values v1 ?m, set_heap R h1)"
    by (rule reads_set [OF _ k _ _ 1 m, of 76 ?q x fl v0 v0])
      (use Cons.prems in \<open>auto simp: s program_goto\<close>)
  have C: "leads k ((82, YyAss ?a) # (76, v0) # ?q, with_values v1 ?m, set_heap R h1)
      ((yygoto 15 40, YyAsses (xs @ [?a])) # (40, v) # st, with_values v1 ?m, set_heap R h1)"
    by (rule leads_reduce [where us = "[(82, YyAss ?a), (76, v0), (63, YyAsses xs)]"])
      (use Cons.prems(2) in \<open>simp_all add: program_reduce yyr2_nth yyaction_def action_assignment_list_def ass_array_def
        ass_ptr_def\<close>)
  obtain v2 where D: "leads k ((63, YyAsses (xs @ [?a])) # (40, v) # st, with_values v1 ?m, set_heap R h1)
      ((63, YyAsses ((xs @ [?a]) @ as')) # (40, v) # st, with_values v2 ((59, None) # ts), set_heap (set_heap R h1) h2)"
    using Cons.IH [of "set_heap R h1" as' h2 "xs @ [?a]" v1] Cons.prems 2 by auto
  from leads_trans [OF leads_trans [OF A B] leads_trans [OF C]] D show ?case by (auto simp: as program_goto)
qed

lemma reads_sets:
  assumes k: "0 < k" and fit: "\<forall>s\<in>set ss. set_fits s" "ss \<noteq> []"
    and depth: "2 + length st + length (commas (map print_set ss)) < YYMAXDEPTH - 1"
    and build: "build_sets ss (ru_heap R) = (as, h)"
  obtains v1 where "leads k ((40, v) # st, with_values v0 (commas (map print_set ss) @ (59, None) # ts), R)
    ((63, YyAsses as) # (40, v) # st, with_values v1 ((59, None) # ts), set_heap R h)"
proof -
  obtain x fl e ss' where ss: "ss = Set x fl e # ss'" using fit(2) by (metis list.exhaust rule_set.exhaust)
  let ?q = "(40, v) # st" and ?m = "concat (map (\<lambda>s. (44, None) # print_set s) ss') @ (59, None) # ts"
  have commas: "commas (map print_set ss) @ (59, None) # ts = print_set (Set x fl e) @ ?m"
    by (simp add: ss commas_Cons comp_def del: commas.simps)
  obtain a h1 where 1: "build e (ru_heap R) = (a, h1)" by (cases "build e (ru_heap R)")
  obtain as' h2 where 2: "build_sets ss' h1 = (as', h2)" by (cases "build_sets ss' h1")
  let ?a = "\<lparr>as_id = x, as_rval = a, as_flag_bit = flag_bits fl\<rparr>"
  from build 1 2 have as: "as = ?a # as'" "h = h2" by (simp_all add: ss)
  obtain c ms where m: "?m = (c, None) # ms" "c = 59 \<or> c = 44" by (cases ss') auto
  have len: "length (commas (map print_set ss)) =
      length (print_set (Set x fl e)) + length (concat (map (\<lambda>s. (44, None) # print_set s) ss'))"
    using arg_cong [OF commas, of length] by simp
  obtain v1 where A: "leads k (?q, with_values v0 (print_set (Set x fl e) @ ?m), R) ((64, YyAss ?a) # ?q, with_values v1 ?m, set_heap R h1)"
    by (rule reads_set [OF _ k _ _ 1 m, of 40 st x fl v v0])
      (use fit depth len in \<open>auto simp: ss program_goto\<close>)
  have B: "leads k ((64, YyAss ?a) # ?q, with_values v1 ?m, set_heap R h1)
      ((yygoto 14 40, YyAsses [?a]) # ?q, with_values v1 ?m, set_heap R h1)"
    by (rule leads_reduce [where us = "[(64, YyAss ?a)]"])
      (use depth in \<open>simp_all add: program_reduce yyr2_nth yyaction_def action_assignment_list_def ass_ptr_def\<close>)
  obtain v2 where C: "leads k ((63, YyAsses [?a]) # ?q, with_values v1 ?m, set_heap R h1)
      ((63, YyAsses ([?a] @ as')) # ?q, with_values v2 ((59, None) # ts), set_heap (set_heap R h1) h2)"
    using reads_more_sets [OF k, of ss' st "set_heap R h1" as' h2 "[?a]" v v1 ts] fit depth len 2 by (auto simp: ss)
  from leads_trans [OF A leads_trans [OF B [unfolded program_goto] C]]
  have "leads k (?q, with_values v0 (print_set (Set x fl e) @ ?m), R)
      ((63, YyAsses as) # (40, v) # st, with_values v2 ((59, None) # ts), set_heap R h)" by (simp add: as)
  then show ?thesis using that unfolding commas by blast
qed

lemma build_sets_grows: "build_sets ss h = (as, h') \<Longrightarrow> heap_grows h h'"
proof (induction ss arbitrary: h as h')
  case (Cons s ss)
  obtain x fl e where s: "s = Set x fl e" by (cases s)
  obtain a h1 where 1: "build e h = (a, h1)" by (cases "build e h")
  obtain as' h2 where 2: "build_sets ss h1 = (as', h2)" by (cases "build_sets ss h1")
  from Cons.prems 1 2 have "h' = h2" by (simp add: s)
  with Cons.IH [OF 2] build_grows [OF 1] show ?case using grows_trans [of h h1 h2] by simp
qed simp

section \<open>Instructions\<close>

lemma start_facts:
  assumes "s \<in> {0, 5}"
  shows "decide s 11 = Shift 1" "decide s 14 = Shift 2" "decide s 17 = Shift 3" "s \<noteq> 14" "yygoto 18 s = 9" "yygoto 19 s = 9"
    "yygoto 8 s = 7" "yygoto 9 s = 7" "yygoto 13 s = 8"
  using assms by (auto simp: program_goto program_shift)

lemma reads_var:
  assumes s: "s \<in> {0, 5}" and k: "0 < k" and fit: "instruction_fits (Var x e)"
    and depth: "length st + length (print_instruction (Var x e)) < YYMAXDEPTH - 2"
  shows "\<exists>v1 w. leads k ((s, v) # st, with_values v0 (print_instruction (Var x e) @ ts), R)
    ((9, w) # (s, v) # st, with_values v1 ts, build_instruction (Var x e) R)"
proof -
  let ?q = "(s, v) # st" and ?n = "(10, YySval x) # (1, v0) # (s, v) # st"
  have d: "length st + 3 < YYMAXDEPTH - 2" using depth by (cases e) auto
  have A: "leads k (?q, with_values v0 ((T_KEY_VAR, None) # (IDENTIFIER, Some (YySval x)) # us), R)
      ((1, v0) # ?q, with_values v0 ((IDENTIFIER, Some (YySval x)) # us), R)" for us
    by (rule leads_token(1) [OF start_facts(1) [OF s] _ start_facts(4) [OF s]]) (use d in \<open>simp_all add: translate_eval\<close>)
  have B: "leads k ((1, v0) # ?q, with_values v0 ((IDENTIFIER, Some (YySval x)) # us), R) (?n, with_values (YySval x) us, R)" for us
    by (rule leads_token(2) [where A = 17]) (use d in \<open>simp_all add: translate_eval program_shift\<close>)
  show ?thesis
  proof (cases e)
    case None
    obtain a h where n: "node (EX_LITERAL f64_zero) (ru_heap R) = (a, h)" by (cases "node (EX_LITERAL f64_zero) (ru_heap R)")
    have C: "leads k (?n, with_values (YySval x) ((59, None) # ts), R) ((16, YySval x) # ?n, with_values (YySval x) ts, R)"
      by (rule leads_token(1) [where A = 26]) (use depth None in \<open>simp_all add: translate_eval program_shift\<close>)
    have "action_declaration k 18 (YySval x # YySval x # vs) y R = Ret (y, insert_var x \<lparr>var_name = x, var_value = a\<rparr> (set_heap R h))" for vs y
      using declare_eq [of "set_heap R h" a k x y] node_grows [OF n] k n
      by (simp add: action_declaration_def expr_new_literal_def expr_alloc_eq node_def sval_def live_def)
    then have D: "leads k ((16, YySval x) # ?n, with_values (YySval x) ts, R)
        ((yygoto 18 s, v0) # ?q, with_values (YySval x) ts, insert_var x \<lparr>var_name = x, var_value = a\<rparr> (set_heap R h))"
      by (intro leads_reduce [where us = "[(16, YySval x), (10, YySval x), (1, v0)]"])
        (use depth None in \<open>simp_all add: program_reduce yyr2_nth yyaction_def\<close>)
    from leads_trans [OF leads_trans [OF A B] leads_trans [OF C D]] show ?thesis
      by (auto simp: None n start_facts [OF s])
  next
    case (Some e')
    obtain a h where n: "build e' (ru_heap R) = (a, h)" by (cases "build e' (ru_heap R)")
    have C: "leads k (?n, with_values (YySval x) ((61, None) # print_expr 1 e' @ (59, None) # ts), R)
        ((17, YySval x) # ?n, with_values (YySval x) (print_expr 1 e' @ (59, None) # ts), R)"
      by (rule leads_token(1) [where A = 28]) (use depth Some in \<open>simp_all add: translate_eval program_shift\<close>)
    obtain v1 where D: "leads k ((17, YySval x) # ?n, with_values (YySval x) (print_expr 1 e' @ (59, None) # ts), R)
        ((27, YyExpr a) # (17, YySval x) # ?n, with_values v1 ((59, None) # ts), set_heap R h)"
      by (rule leads_expr [of e' k 17 "(59, None) # ts" ?n R a h "YySval x" "YySval x"])
        (use n depth fit k program_goto Some in auto)
    have E: "leads k ((27, YyExpr a) # (17, YySval x) # ?n, with_values v1 ((59, None) # ts), set_heap R h)
        ((49, v1) # (27, YyExpr a) # (17, YySval x) # ?n, with_values v1 ts, set_heap R h)"
      by (rule leads_token(1) [where A = 26]) (use depth Some print_length [of 1 e'] in \<open>auto simp: translate_eval program_shift\<close>)
    have "action_declaration k 19 (v1 # YyExpr a # YySval x # YySval x # vs) y (set_heap R h) =
        Ret (y, insert_var x \<lparr>var_name = x, var_value = a\<rparr> (set_heap R h))" for vs y
      using declare_eq [of "set_heap R h" a k x y] build_grows [OF n] k
      by (simp add: action_declaration_def expr_ptr_def sval_def live_def)
    then have F: "leads k ((49, v1) # (27, YyExpr a) # (17, YySval x) # ?n, with_values v1 ts, set_heap R h)
        ((yygoto 19 s, v0) # ?q, with_values v1 ts, insert_var x \<lparr>var_name = x, var_value = a\<rparr> (set_heap R h))"
      by (intro leads_reduce [where us = "[(49, v1), (27, YyExpr a), (17, YySval x), (10, YySval x), (1, v0)]"])
        (use depth Some in \<open>simp_all add: program_reduce yyr2_nth yyaction_def\<close>)
    from leads_trans [OF leads_trans [OF A B] leads_trans [OF C leads_trans [OF D leads_trans [OF E F]]]] show ?thesis
      by (auto simp: Some n start_facts [OF s])
  qed
qed

lemma reads_label:
  assumes s: "s \<in> {0, 5}" and k: "0 < k" and fit: "instruction_fits (Label x fl es)"
    and depth: "length st + length (print_instruction (Label x fl es)) < YYMAXDEPTH - 2"
    and build: "build_entries x (flag_bits fl) es (ru_heap R) = (b, h)"
  shows "\<exists>v1. leads k ((s, v) # st, with_values v0 (print_instruction (Label x fl es) @ ts), R)
    ((7, YyBlock b) # (s, v) # st, with_values v1 ts, set_heap R h)"
proof -
  let ?q = "(s, v) # st" and ?n = "(3, YySval x) # (s, v) # st"
  let ?e = "concat (map print_entry es) @ (125, None) # ts"
  obtain b' where b: "build_entries '''' 0 es (ru_heap R) = (b', h)" "b = map (retarget x (flag_bits fl)) b'"
    using build build_entries_retarget [of x "flag_bits fl" es "ru_heap R"] by (auto split: prod.splits)
  have fits: "\<forall>e\<in>set es. calls_fit (fst e) \<and> calls_fit (snd e)" "es \<noteq> []" using fit by simp_all
  have A: "leads k (?q, with_values v0 (print_instruction (Label x fl es) @ ts), R)
      (?n, with_values (YySval x) (print_flag fl @ (123, None) # ?e), R)"
    using leads_token(2) [OF start_facts(3) [OF s] _ start_facts(4) [OF s], of IDENTIFIER st k v v0 "YySval x"
      "print_flag fl @ (123, None) # ?e" R] depth by (simp add: translate_eval)
  show ?thesis
  proof (cases fl)
    case None
    have B: "leads k (?n, with_values (YySval x) (print_flag fl @ (123, None) # ?e), R) ((13, YySval x) # ?n, with_values (YySval x) ?e, R)"
      unfolding None print_flag_def option.case append_Nil
      by (rule leads_token(1) [where A = 24]) (use depth in \<open>simp_all add: translate_eval program_shift\<close>)
    obtain v1 where C: "leads k ((13, YySval x) # ?n, with_values (YySval x) ?e, R)
        ((25, YyEntries b') # (13, YySval x) # ?n, with_values v1 ((125, None) # ts), set_heap R h)"
      by (rule reads_entries [OF _ k fits _ b(1), of 13 ?n "YySval x" "YySval x" "(125, None) # ts"])
        (use depth in \<open>auto simp: program_goto\<close>)
    have D: "leads k ((25, YyEntries b') # (13, YySval x) # ?n, with_values v1 ((125, None) # ts), set_heap R h)
        ((47, v1) # (25, YyEntries b') # (13, YySval x) # ?n, with_values v1 ts, set_heap R h)"
      by (rule leads_token(1) [where A = 25]) (use depth fits(2) in \<open>cases es; auto simp: translate_eval program_shift print_entry_def\<close>)+
    have E: "leads k ((47, v1) # (25, YyEntries b') # (13, YySval x) # ?n, with_values v1 ts, set_heap R h)
        ((yygoto 8 s, YyBlock b) # ?q, with_values v1 ts, set_heap R h)"
      by (rule leads_reduce [where us = "[(47, v1), (25, YyEntries b'), (13, YySval x), (3, YySval x)]"])
        (use depth in \<open>simp_all add: program_reduce yyr2_nth yyaction_def action_label_block_def entry_array_def sval_def b(2)
          None flag_bits_def\<close>)
    from leads_trans [OF leads_trans [OF A B] leads_trans [OF C leads_trans [OF D E]]] show ?thesis
      by (auto simp: start_facts [OF s])
  next
    case (Some fb)
    let ?f = "(12, YySval x) # ?n" and ?u = "YyUval fb"
    have B: "leads k (?n, with_values (YySval x) (print_flag fl @ (123, None) # ?e), R)
        (?f, with_values (YySval x) ((T_FLAG_NAME, Some ?u) # (123, None) # ?e), R)"
      unfolding Some print_flag_def option.case append.simps
      by (rule leads_token(1) [where A = 15]) (use depth in \<open>simp_all add: translate_eval program_shift\<close>)
    have C: "leads k (?f, with_values (YySval x) ((T_FLAG_NAME, Some ?u) # (123, None) # ?e), R)
        ((23, ?u) # ?f, with_values ?u ((123, None) # ?e), R)"
      by (rule leads_token(2) [where A = 18]) (use depth in \<open>simp_all add: translate_eval program_shift Some print_flag_def\<close>)
    have D: "leads k ((23, ?u) # ?f, with_values ?u ((123, None) # ?e), R) ((45, ?u) # (23, ?u) # ?f, with_values ?u ?e, R)"
      by (rule leads_token(1) [where A = 24]) (use depth in \<open>simp_all add: translate_eval program_shift Some print_flag_def\<close>)
    obtain v1 where E: "leads k ((45, ?u) # (23, ?u) # ?f, with_values ?u ?e, R)
        ((69, YyEntries b') # (45, ?u) # (23, ?u) # ?f, with_values v1 ((125, None) # ts), set_heap R h)"
      by (rule reads_entries [OF _ k fits _ b(1), of 45 "(23, ?u) # ?f" ?u ?u "(125, None) # ts"])
        (use depth in \<open>auto simp: program_goto Some print_flag_def\<close>)
    have F: "leads k ((69, YyEntries b') # (45, ?u) # (23, ?u) # ?f, with_values v1 ((125, None) # ts), set_heap R h)
        ((77, v1) # (69, YyEntries b') # (45, ?u) # (23, ?u) # ?f, with_values v1 ts, set_heap R h)"
      by (rule leads_token(1) [where A = 25])
        (use depth fits(2) in \<open>cases es; auto simp: translate_eval program_shift print_entry_def Some print_flag_def\<close>)+
    have G: "leads k ((77, v1) # (69, YyEntries b') # (45, ?u) # (23, ?u) # ?f, with_values v1 ts, set_heap R h)
        ((yygoto 9 s, YyBlock b) # ?q, with_values v1 ts, set_heap R h)"
      by (rule leads_reduce [where us = "[(77, v1), (69, YyEntries b'), (45, ?u), (23, ?u), (12, YySval x), (3, YySval x)]"])
        (use depth in \<open>simp_all add: program_reduce yyr2_nth yyaction_def action_label_block_def entry_array_def sval_def uval_def b(2)
          Some flag_bits_def\<close>)
    from leads_trans [OF leads_trans [OF A B] leads_trans [OF C leads_trans [OF D leads_trans [OF E leads_trans [OF F G]]]]]
    show ?thesis by (auto simp: start_facts [OF s])
  qed
qed

lemma commas_length: "ss \<noteq> [] \<Longrightarrow> \<exists>n. length (commas (map print_set ss)) = Suc (Suc n)"
proof -
  assume "ss \<noteq> []"
  then obtain x fl e ss' where ss: "ss = Set x fl e # ss'" by (metis list.exhaust rule_set.exhaust)
  show ?thesis by (simp add: ss commas_Cons del: commas.simps)
qed

lemma reads_trigger:
  assumes s: "s \<in> {0, 5}" and k: "0 < k" and fit: "instruction_fits (Trigger c ss)"
    and depth: "length st + length (print_instruction (Trigger c ss)) < YYMAXDEPTH - 2"
    and build: "build c (ru_heap R) = (a, h1)" "build_sets ss h1 = (as, h)"
  shows "\<exists>v1. leads k ((s, v) # st, with_values v0 (print_instruction (Trigger c ss) @ ts), R)
    ((8, YyTrigger \<lparr>tr_cond = a, tr_ass = as\<rparr>) # (s, v) # st, with_values v1 ts, set_heap R h)"
proof -
  let ?q = "(s, v) # st" and ?n = "(11, v0) # (2, v0) # (s, v) # st"
  let ?s = "commas (map print_set ss) @ (59, None) # ts"
  let ?e = "print_expr 1 c @ (T_KEY_SET, None) # ?s"
  have fits: "calls_fit c" "\<forall>s\<in>set ss. set_fits s" "ss \<noteq> []" using fit by simp_all
  obtain n where len: "length (print_expr 1 c) = Suc n" using print_length by blast
  have A: "leads k (?q, with_values v0 (print_instruction (Trigger c ss) @ ts), R)
      ((2, v0) # ?q, with_values v0 ((T_KEY_WHEN, None) # ?e), R)"
    using leads_token(1) [OF start_facts(2) [OF s] _ start_facts(4) [OF s], of T_KEY_TRIGGER st k v v0
      "(T_KEY_WHEN, None) # ?e" R] depth by (simp add: translate_eval)
  have B: "leads k ((2, v0) # ?q, with_values v0 ((T_KEY_WHEN, None) # ?e), R) (?n, with_values v0 ?e, R)"
    by (rule leads_token(1) [where A = 13]) (use depth in \<open>simp_all add: translate_eval program_shift\<close>)
  obtain v1 where C: "leads k (?n, with_values v0 ?e, R) ((22, YyExpr a) # ?n, with_values v1 ((T_KEY_SET, None) # ?s), set_heap R h1)"
    by (rule leads_expr [OF fits(1) k, of 11 "(T_KEY_SET, None) # ?s" "(2, v0) # ?q" R a h1 v0 v0])
      (use build depth program_goto in auto)
  let ?m = "(40, v1) # (22, YyExpr a) # ?n"
  have D: "leads k ((22, YyExpr a) # ?n, with_values v1 ((T_KEY_SET, None) # ?s), set_heap R h1) (?m, with_values v1 ?s, set_heap R h1)"
    by (rule leads_token(1) [where A = 12]) (use depth len in \<open>simp_all add: translate_eval program_shift\<close>)
  obtain v2 where E: "leads k (?m, with_values v1 ?s, set_heap R h1) ((63, YyAsses as) # ?m, with_values v2 ((59, None) # ts), set_heap R h)"
    by (rule reads_sets [OF k fits(2,3), of "(22, YyExpr a) # ?n" "set_heap R h1" as h v1 v1 ts])
      (use build depth len in auto)
  have F: "leads k ((63, YyAsses as) # ?m, with_values v2 ((59, None) # ts), set_heap R h)
      ((75, v2) # (63, YyAsses as) # ?m, with_values v2 ts, set_heap R h)"
    by (rule leads_token(1) [where A = 26])
      (use depth len fits(3) commas_length [of ss] in \<open>auto simp: translate_eval program_shift\<close>)
  have "0 < nref h a" using build_grows [OF build(1)] build_sets_grows [OF build(2)] grows_live by (auto simp: live_def)
  then have G: "leads k ((75, v2) # (63, YyAsses as) # ?m, with_values v2 ts, set_heap R h)
      ((yygoto 13 s, YyTrigger \<lparr>tr_cond = a, tr_ass = as\<rparr>) # ?q, with_values v2 ts, set_heap R h)"
    by (intro leads_reduce [where us = "[(75, v2), (63, YyAsses as), (40, v1), (22, YyExpr a), (11, v0), (2, v0)]"])
      (use trigger_eq [of "set_heap R h" a k] k depth in \<open>simp_all add: program_reduce yyr2_nth yyaction_def\<close>)
  from leads_trans [OF leads_trans [OF A B] leads_trans [OF C leads_trans [OF D leads_trans [OF E leads_trans [OF F G]]]]]
  show ?thesis by (auto simp: start_facts [OF s])
qed

section \<open>Programs\<close>

lemma instruction_goto:
  assumes "s \<in> {0, 5}"
  shows "yygoto 5 s = yygoto 7 s" "yygoto 6 s = yygoto 7 s"
  using assms by (auto simp: program_goto)

lemma reads_instruction:
  assumes s: "s \<in> {0, 5}" and k: "0 < k" and fit: "instruction_fits i" "fits_stack i" and st: "length st \<le> 1"
  shows "\<exists>v1 w. leads k ((s, v) # st, with_values v0 (print_instruction i @ ts), R)
    ((yygoto 7 s, w) # (s, v) # st, with_values v1 ts, build_instruction i R)"
proof -
  have depth: "length st + length (print_instruction i) < YYMAXDEPTH - 2" and d: "Suc (length st) < YYMAXDEPTH - 1"
    using fit(2) st by (simp_all add: fits_stack_def)
  show ?thesis
  proof (cases i)
    case (Var x e)
    from reads_var [OF s k fit(1) [unfolded Var] depth [unfolded Var], of v v0 ts R]
    obtain v1 w where A: "leads k ((s, v) # st, with_values v0 (print_instruction i @ ts), R)
      ((9, w) # (s, v) # st, with_values v1 ts, build_instruction i R)" unfolding Var by blast
    have "leads k ((9, w) # (s, v) # st, with_values v1 ts, build_instruction i R)
      ((yygoto 7 s, w) # (s, v) # st, with_values v1 ts, build_instruction i R)"
      by (rule leads_reduce [where us = "[(9, w)]"])
        (use d in \<open>simp_all add: program_reduce yyr2_nth yyaction_def action_instruction_def\<close>)
    from leads_trans [OF A this] show ?thesis by blast
  next
    case (Label x fl es)
    obtain b h where b: "build_entries x (flag_bits fl) es (ru_heap R) = (b, h)"
      by (cases "build_entries x (flag_bits fl) es (ru_heap R)")
    from reads_label [OF s k fit(1) [unfolded Label] depth [unfolded Label] b, of v v0 ts]
    obtain v1 where A: "leads k ((s, v) # st, with_values v0 (print_instruction i @ ts), R)
      ((7, YyBlock b) # (s, v) # st, with_values v1 ts, set_heap R h)" unfolding Label by blast
    have "leads k ((7, YyBlock b) # (s, v) # st, with_values v1 ts, set_heap R h)
      ((yygoto 5 s, YyBlock b) # (s, v) # st, with_values v1 ts, build_instruction i R)"
      by (rule leads_reduce [where us = "[(7, YyBlock b)]"])
        (use d b in \<open>simp_all add: program_reduce yyr2_nth yyaction_def action_instruction_def label_block_ptr_def Label
          set_heap_def\<close>)
    from leads_trans [OF A this] show ?thesis unfolding instruction_goto [OF s] by blast
  next
    case (Trigger c ss)
    obtain a h1 where a: "build c (ru_heap R) = (a, h1)" by (cases "build c (ru_heap R)")
    obtain as h where as: "build_sets ss h1 = (as, h)" by (cases "build_sets ss h1")
    let ?t = "YyTrigger \<lparr>tr_cond = a, tr_ass = as\<rparr>"
    from reads_trigger [OF s k fit(1) [unfolded Trigger] depth [unfolded Trigger] a as, of v v0 ts]
    obtain v1 where A: "leads k ((s, v) # st, with_values v0 (print_instruction i @ ts), R)
      ((8, ?t) # (s, v) # st, with_values v1 ts, set_heap R h)" unfolding Trigger by blast
    have "leads k ((8, ?t) # (s, v) # st, with_values v1 ts, set_heap R h)
      ((yygoto 6 s, ?t) # (s, v) # st, with_values v1 ts, build_instruction i R)"
      by (rule leads_reduce [where us = "[(8, ?t)]"])
        (use d a as in \<open>simp_all add: program_reduce yyr2_nth yyaction_def action_instruction_def trigger_ptr_def Trigger
          set_heap_def\<close>)
    from leads_trans [OF A this] show ?thesis unfolding instruction_goto [OF s] by blast
  qed
qed

definition program_fits :: "instruction list \<Rightarrow> bool" where
  "program_fits is \<longleftrightarrow> is \<noteq> [] \<and> list_all (\<lambda>i. instruction_fits i \<and> fits_stack i) is"

lemma reads_more_instructions:
  assumes k: "0 < k" and fit: "list_all (\<lambda>i. instruction_fits i \<and> fits_stack i) is"
  shows "\<exists>v1 w'. leads k ([(5, w), (0, YyGarbage)], with_values v0 (print_program is), R)
    ([(5, w'), (0, YyGarbage)], with_values v1 [], fold build_instruction is R)"
  using fit
proof (induction "is" arbitrary: w v0 R)
  case Nil
  then show ?case using leads_refl by (fastforce simp: print_program_def)
next
  case (Cons i "is")
  from reads_instruction [OF _ k, of 5 i "[(0, YyGarbage)]" w v0 "print_program is" R] Cons.prems
  obtain v1 w1 where A: "leads k ([(5, w), (0, YyGarbage)], with_values v0 (print_program (i # is)), R)
      ([(15, w1), (5, w), (0, YyGarbage)], with_values v1 (print_program is), build_instruction i R)"
    by (auto simp: program_goto print_program_def)
  have B: "leads k ([(15, w1), (5, w), (0, YyGarbage)], with_values v1 (print_program is), build_instruction i R)
      ([(yygoto 4 0, w), (0, YyGarbage)], with_values v1 (print_program is), build_instruction i R)"
    by (rule leads_reduce [where us = "[(15, w1), (5, w)]"])
      (simp_all add: program_reduce yyr2_nth yyaction_def YYMAXDEPTH_def)
  obtain v2 w2 where C: "leads k ([(5, w), (0, YyGarbage)], with_values v1 (print_program is), build_instruction i R)
      ([(5, w2), (0, YyGarbage)], with_values v2 [], fold build_instruction is (build_instruction i R))"
    using Cons.IH [of w v1 "build_instruction i R"] Cons.prems by auto
  from leads_trans [OF leads_trans [OF A B [unfolded program_goto]] C] show ?case by auto
qed

lemma reads_program:
  assumes k: "0 < k" and fit: "program_fits is"
  shows "\<exists>m. \<forall>n. lr_loop k (m + Suc n) ([(0, YyGarbage)], with_values v0 (print_program is), R)
    = Ret (0, fold build_instruction is R)"
proof -
  obtain i is' where i: "is = i # is'" using fit by (cases "is") (auto simp: program_fits_def)
  let ?R = "fold build_instruction is R"
  from reads_instruction [OF _ k, of 0 i "[]" YyGarbage v0 "print_program is'" R] fit
  obtain v1 w1 where A: "leads k ([(0, YyGarbage)], with_values v0 (print_program is), R)
      ([(6, w1), (0, YyGarbage)], with_values v1 (print_program is'), build_instruction i R)"
    by (auto simp: i program_goto print_program_def program_fits_def)
  have B: "leads k ([(6, w1), (0, YyGarbage)], with_values v1 (print_program is'), build_instruction i R)
      ([(yygoto 3 0, w1), (0, YyGarbage)], with_values v1 (print_program is'), build_instruction i R)"
    by (rule leads_reduce [where us = "[(6, w1)]"]) (simp_all add: program_reduce yyr2_nth yyaction_def YYMAXDEPTH_def)
  obtain v2 w2 where C: "leads k ([(5, w1), (0, YyGarbage)], with_values v1 (print_program is'), build_instruction i R)
      ([(5, w2), (0, YyGarbage)], with_values v2 [], ?R)"
    using reads_more_instructions [OF k, of is' w1 v1 "build_instruction i R"] fit by (auto simp: i program_fits_def)
  have eof: "look (with_values v2 []) = 0" by (simp only: look_first) (simp add: first_symbol_def)
  have D: "leads k ([(5, w2), (0, YyGarbage)], with_values v2 [], ?R) ([(yygoto 2 0, w2), (0, YyGarbage)], with_values v2 [], ?R)"
    by (rule leads_reduce [where us = "[(5, w2)]"]) (use eof in \<open>simp_all add: program_reduce yyr2_nth yyaction_def YYMAXDEPTH_def\<close>)
  have E: "leads k ([(4, w2), (0, YyGarbage)], with_values v2 [], ?R) ([(14, v2), (4, w2), (0, YyGarbage)], with_values v2 [], ?R)"
    by (rule leads_step) (use eof in \<open>simp add: lr_step_def YYFINAL_def program_shift lr_push_def YYMAXDEPTH_def advance_def\<close>)
  from leads_trans [OF leads_trans [OF A B [unfolded program_goto]] leads_trans [OF C leads_trans [OF D [unfolded program_goto] E]]]
  obtain m where "\<forall>n. lr_loop k (m + n) ([(0, YyGarbage)], with_values v0 (print_program is), R) =
      lr_loop k n ([(14, v2), (4, w2), (0, YyGarbage)], with_values v2 [], ?R)"
    unfolding leads_def by blast
  moreover have "lr_loop k (Suc n) ([(14, v2), (4, w2), (0, YyGarbage)], with_values v2 [], ?R) = Ret (0, ?R)" for n
    by (simp add: lr_step_def YYFINAL_def)
  ultimately show ?thesis by metis
qed

end
