(* ===== verification/RulesReads.thy ===== *)
theory RulesReads
  imports RulesProgram
begin

text \<open>
  A printed program satisfies the condition on the tokens under which the parser returns, so that the
  number of rounds is bounded by the number of tokens.
\<close>

section \<open>The tokens of a printed program\<close>

definition token_ok :: "token \<Rightarrow> bool" where
  "token_ok t \<longleftrightarrow> token_code_ok t \<and> token_typed t"

lemma token_ok_simps [simp]:
  "token_ok (VALUE, Some (YyDval d))" "token_ok (IDENTIFIER, Some (YySval s))" "token_ok (T_FLAG_NAME, Some (YyUval w))"
  "token_ok (T_KEY_VAR, None)" "token_ok (T_KEY_SET, None)" "token_ok (T_KEY_WHEN, None)" "token_ok (T_KEY_TRIGGER, None)"
  "token_ok (T_KEY_FLAG, None)" "token_ok (40, None)" "token_ok (41, None)" "token_ok (42, None)" "token_ok (44, None)"
  "token_ok (59, None)" "token_ok (61, None)" "token_ok (123, None)" "token_ok (125, None)" "token_ok (op_code op, None)"
  by (simp_all add: token_ok_def token_typed_def translate_eval vt_def code_ok_pos)
    (simp_all add: token_codes, cases op, simp_all add: token_codes translate_eval [unfolded token_codes])

lemma commas_ok: "\<forall>ts\<in>set tss. list_all token_ok ts \<Longrightarrow> list_all token_ok (commas tss)"
  by (induction tss rule: commas.induct) auto

lemma expr_tokens_ok: "list_all token_ok (print_expr p e)"
  by (induction p e rule: print_expr.induct) (auto simp: parens_def intro!: commas_ok)

lemma flag_tokens_ok: "list_all token_ok (print_flag fl)"
  by (simp add: print_flag_def split: option.split)

lemma set_tokens_ok: "list_all token_ok (print_set s)"
  by (cases s) (simp add: expr_tokens_ok flag_tokens_ok)

lemma instruction_tokens_ok: "list_all token_ok (print_instruction i)"
  by (cases i rule: print_instruction.cases)
    (auto simp: expr_tokens_ok flag_tokens_ok set_tokens_ok print_entry_def list_all_iff [of _ "concat _"]
      intro!: commas_ok dest!: expr_tokens_ok [unfolded list_all_iff, rule_format])

lemma program_tokens_ok: "list_all token_ok (print_program is)"
  by (induction "is") (simp_all add: print_program_def instruction_tokens_ok)

section \<open>Its calls\<close>

lemma calls_Cons:
  "token_calls_ok ((c, v) # ts) \<longleftrightarrow>
     (YYTRANSLATE c = 17 \<and> first_symbol ts = 29 \<longrightarrow>
        (\<exists>f. v = Some f \<and> known_name f) \<and> first_symbol (tl ts) \<noteq> 27 \<and> first_symbol (tl ts) \<noteq> 30) \<and> token_calls_ok ts"
  by (cases ts) (auto simp: first_symbol_def split: list.split)

lemma calls_other [simp]: "YYTRANSLATE c \<noteq> 17 \<Longrightarrow> token_calls_ok ((c, v) # ts) = token_calls_ok ts"
  by (simp add: calls_Cons)

lemma first_print: "first_symbol (print_expr p e @ ts) \<in> {16, 17, 21, 29}"
  by (induction e arbitrary: p ts) (auto simp: parens_def translate_eval)

lemma first_print_not [simp]: "first_symbol (print_expr p e @ ts) \<noteq> 27" "first_symbol (print_expr p e @ ts) \<noteq> 30"
  using first_print [of p e ts] by auto

lemma op_not_name [simp]: "YYTRANSLATE (op_code op) \<noteq> 17" "YYTRANSLATE (op_code op) \<noteq> 29"
  by (cases op; simp add: translate_eval)+

lemma expr_calls_ok:
  "calls_fit e \<Longrightarrow> token_calls_ok ts \<Longrightarrow> first_symbol ts \<noteq> 29 \<Longrightarrow> token_calls_ok (print_expr p e @ ts)"
proof (induction e arbitrary: p ts)
  case (ACall f es)
  from ACall.prems(1) have "es \<noteq> []" by (auto simp: args_ok_def split: if_splits)
  then obtain e es' where es: "es = e # es'" by (cases es) auto
  have tail: "set es'' \<subseteq> set es \<Longrightarrow>
      token_calls_ok (concat (map (\<lambda>e. (44, None) # print_expr 1 e) es'') @ (41, None) # ts)" for es''
  proof (induction es'')
    case Nil
    then show ?case using ACall.prems by (simp add: translate_eval)
  next
    case (Cons x xs)
    then have "token_calls_ok (print_expr 1 x @ concat (map (\<lambda>e. (44, None) # print_expr 1 e) xs) @ (41, None) # ts)"
      using ACall.prems(1) by (intro ACall.IH) (auto, cases xs, auto simp: translate_eval)
    then show ?case by (simp add: translate_eval)
  qed
  have "first_symbol (concat (map (\<lambda>e. (44, None) # print_expr 1 e) es') @ (41, None) # ts) \<noteq> 29"
    by (cases es') (simp_all add: translate_eval)
  then have "token_calls_ok (print_expr 1 e @ concat (map (\<lambda>e. (44, None) # print_expr 1 e) es') @ (41, None) # ts)"
    using ACall.prems(1) tail [of es'] by (intro ACall.IH) (auto simp: es)
  moreover have "commas (map (print_expr 1) es) @ (41, None) # ts =
      print_expr 1 e @ concat (map (\<lambda>e. (44, None) # print_expr 1 e) es') @ (41, None) # ts"
    by (simp add: es commas_Cons comp_def del: commas.simps)
  ultimately show ?case
    using ACall.prems(1) by (simp add: calls_Cons translate_eval known_name_def)
qed (auto simp: parens_def calls_Cons translate_eval)

lemma set_calls_ok:
  "set_fits s \<Longrightarrow> token_calls_ok ts \<Longrightarrow> first_symbol ts \<noteq> 29 \<Longrightarrow> token_calls_ok (print_set s @ ts)"
  by (cases s) (auto simp: print_flag_def calls_Cons translate_eval expr_calls_ok split: option.splits)

lemma sets_calls_ok:
  "\<forall>s\<in>set ss. set_fits s \<Longrightarrow> token_calls_ok ts \<Longrightarrow> first_symbol ts \<noteq> 29 \<Longrightarrow>
    token_calls_ok (commas (map print_set ss) @ ts)"
proof (induction ss)
  case (Cons s ss)
  show ?case
  proof (cases ss)
    case Nil
    with Cons.prems show ?thesis by (simp add: set_calls_ok)
  next
    case (Cons s' ss')
    then have c: "commas (map print_set (s # ss)) = print_set s @ (44, None) # commas (map print_set ss)" by simp
    have "token_calls_ok (commas (map print_set ss) @ ts)" using Cons.IH Cons.prems by simp
    with Cons.prems show ?thesis unfolding c by (simp add: set_calls_ok translate_eval)
  qed
qed simp

lemma entries_calls_ok:
  "\<forall>e\<in>set es. calls_fit (fst e) \<and> calls_fit (snd e) \<Longrightarrow> token_calls_ok ts \<Longrightarrow>
    token_calls_ok (concat (map print_entry es) @ ts)"
  by (induction es) (simp_all add: print_entry_def expr_calls_ok translate_eval)

lemma instruction_calls_ok:
  assumes "instruction_fits i" "token_calls_ok ts" "first_symbol ts \<noteq> 29"
  shows "token_calls_ok (print_instruction i @ ts)"
proof (cases i)
  case (Var x e)
  with assms show ?thesis
    by (cases e) (simp_all add: calls_Cons [of IDENTIFIER] expr_calls_ok translate_eval)
next
  case (Label x fl es)
  with assms show ?thesis
    by (cases fl) (simp_all add: calls_Cons [of IDENTIFIER] print_flag_def entries_calls_ok translate_eval)
next
  case (Trigger c ss)
  with assms show ?thesis by (simp add: expr_calls_ok sets_calls_ok translate_eval)
qed

lemma first_instruction: "first_symbol (print_program is) \<noteq> 29"
proof (cases "is")
  case (Cons i is')
  then show ?thesis by (cases i rule: print_instruction.cases) (simp_all add: print_program_def translate_eval)
qed (simp add: print_program_def first_symbol_def)

lemma program_calls_ok: "list_all instruction_fits is \<Longrightarrow> token_calls_ok (print_program is)"
proof (induction "is")
  case (Cons i "is")
  then show ?case
    using instruction_calls_ok [of i "print_program is"] first_instruction [of "is"] by (simp add: print_program_def)
qed (simp add: print_program_def)

section \<open>The round trip\<close>

lemma lr_loop_more: "lr_loop k n C = Ret x \<Longrightarrow> lr_loop k (n + d) C = Ret x"
proof (induction n arbitrary: C)
  case (Suc n)
  then show ?case by (cases "lr_step k C") (auto split: sum.splits)
qed simp

lemma parse_of_print:
  assumes "program_fits is" "0 < k" "8 * length (print_program is) + 10 \<le> n"
    "heap_counted (rules_roots R) (ru_heap R)"
  shows "yyparse list_lex k n (print_program is) R = Ret (0, fold build_instruction is R)"
proof -
  let ?ts = "print_program is"
  let ?C = "([(0, YyGarbage)], with_values YyGarbage ?ts, R)"
  have fits: "list_all instruction_fits is" using assms(1) by (auto simp: program_fits_def list_all_iff)
  have ok: "list_all token_code_ok ?ts" "list_all token_typed ?ts"
    using program_tokens_ok [of "is"] by (auto simp: token_ok_def list_all_iff)
  have "input_ok (with_values YyGarbage ?ts)"
    using values_ok [OF ok(2) program_calls_ok [OF fits]] by (simp add: plain_def)
  then have "parse_inv ?C" using assms(4) by (simp add: parse_inv_def top_ok_def symbol_roots_def yystos_nth)
  moreover have "config_weight ?C < n" using assms(3) by (simp add: config_weight_def yystos_nth symbol_weight_def)
  ultimately obtain r R' where run: "lr_loop k n ?C = Ret (r, R')" using lr_loop_ok assms(2) by blast
  obtain m where m: "\<forall>n. lr_loop k (m + Suc n) ?C = Ret (0, fold build_instruction is R)"
    using reads_program [OF assms(2,1)] by blast
  have "lr_loop k (n + (m + 1)) ?C = Ret (r, R')" by (rule lr_loop_more [OF run])
  moreover have "lr_loop k (m + Suc n) ?C = Ret (0, fold build_instruction is R)" using m by blast
  moreover have "n + (m + 1) = m + Suc n" by simp
  ultimately have "Ret (r, R') = Ret (0, fold build_instruction is R)" by (simp only:)
  then have "(r, R') = (0, fold build_instruction is R)" by simp
  with run show ?thesis using yyparse_runs [OF ok(1)] by simp
qed

text \<open>C7: A program of declarations, label blocks and triggers, printed with no more parentheses than the
  precedences of \<open>src/rules.y\<close> need, is read back by the parser: it returns 0, and the engine has
  the variables, the label blocks and the triggers of the program in its order, with the trees of their
  expressions as nodes and with no message.\<close>

theorem yyparse_roundtrip:
  assumes "program_fits is" "0 < k" "8 * length (print_program is) + 10 \<le> n"
  shows "yyparse list_lex k n (print_program is) engine_new = Ret (0, fold build_instruction is engine_new)"
  using assms heap_counted_empty
  by (intro parse_of_print) (simp_all add: engine_new_def rules_roots_def gh_new_def)

text \<open>\<open>VAR X = A || B && C;\<close>, in which \<open>||\<close> binds more tightly.\<close>

theorem yyparse_roundtrip_witness:
  "yyparse list_lex 1 100
     [(T_KEY_VAR, None), (IDENTIFIER, Some (YySval ''X'')), (61, None), (IDENTIFIER, Some (YySval ''A'')), (T_OR, None),
      (IDENTIFIER, Some (YySval ''B'')), (T_AND, None), (IDENTIFIER, Some (YySval ''C'')), (59, None)] engine_new =
   Ret (0, build_instruction (Var ''X'' (Some (AOp BAnd (AOp BOr (ARef ''A'') (ARef ''B'')) (ARef ''C'')))) engine_new)"
  using yyparse_roundtrip [of "[Var ''X'' (Some (AOp BAnd (AOp BOr (ARef ''A'') (ARef ''B'')) (ARef ''C'')))]" 1 100]
  by (simp add: program_fits_def fits_stack_def print_program_def parens_def YYMAXDEPTH_def)

end
