(* ===== verification/RulesLive.thy ===== *)
theory RulesLive
  imports CoreLive RulesReads
begin

text \<open>
  The rules that a parsed program gives the core: when no variable depends on itself, the nodes have a rank, so that
  the main loop runs safely with them.
\<close>

section \<open>Dependencies of a program\<close>

fun refs_of :: "ast \<Rightarrow> string list" where
  "refs_of (ARef s) = [s]"
| "refs_of (AOp op a b) = refs_of a @ refs_of b"
| "refs_of (ANeg e) = refs_of e"
| "refs_of (ACall f es) = concat (map refs_of es)"
| "refs_of _ = []"

text \<open>\<open>CHANGED\<close> keeps its state in its second operand, so that a second operand of the user is lost.\<close>

fun one_changed :: "ast \<Rightarrow> bool" where
  "one_changed (AOp op a b) = (one_changed a \<and> one_changed b)"
| "one_changed (ANeg e) = one_changed e"
| "one_changed (ACall f es) = ((f = ''CHANGED'' \<longrightarrow> length es = 1) \<and> (\<forall>e\<in>set es. one_changed e))"
| "one_changed _ = True"

text \<open>The expressions of a program, and those that a name can be set to.\<close>

fun set_exprs :: "rule_set \<Rightarrow> ast list" where
  "set_exprs (Set x fl e) = [e]"

fun set_assigns :: "rule_set \<Rightarrow> (string \<times> ast) list" where
  "set_assigns (Set x fl e) = (if flag_bits fl = 0 then [(x, e)] else [])"

fun instruction_exprs :: "instruction \<Rightarrow> ast list" where
  "instruction_exprs (Var x e) = (case e of None \<Rightarrow> [] | Some e \<Rightarrow> [e])"
| "instruction_exprs (Label x fl es) = concat (map (\<lambda>(r, c). [r, c]) es)"
| "instruction_exprs (Trigger c ss) = c # concat (map set_exprs ss)"

fun instruction_assigns :: "instruction \<Rightarrow> (string \<times> ast) list" where
  "instruction_assigns (Var x e) = (case e of None \<Rightarrow> [] | Some e \<Rightarrow> [(x, e)])"
| "instruction_assigns (Label x fl es) = (if flag_bits fl = 0 then map (\<lambda>(r, c). (x, r)) es else [])"
| "instruction_assigns (Trigger c ss) = concat (map set_assigns ss)"

fun declared :: "instruction \<Rightarrow> string list" where
  "declared (Var x e) = [x]"
| "declared _ = []"

text \<open>\<open>\<rho>\<close> orders the names so that what a name is set to refers to smaller names only.\<close>

definition ordered :: "(string \<Rightarrow> nat) \<Rightarrow> instruction \<Rightarrow> bool" where
  "ordered \<rho> i \<longleftrightarrow> (\<forall>(x, e)\<in>set (instruction_assigns i). \<forall>s\<in>set (refs_of e). \<rho> s < \<rho> x)"

definition program_sound :: "(string \<Rightarrow> nat) \<Rightarrow> instruction list \<Rightarrow> bool" where
  "program_sound \<rho> is \<longleftrightarrow> list_all (ordered \<rho>) is \<and> list_all one_changed (concat (map instruction_exprs is)) \<and>
     distinct (concat (map declared is))"

section \<open>Levels of nodes\<close>

text \<open>
  All nodes of an expression have one level. That of an expression which \<open>x\<close> can be set to is \<open>\<rho> x\<close>, that of any
  other one lies above all names.
\<close>

definition levels :: "(string \<Rightarrow> nat) \<Rightarrow> (addr \<Rightarrow> nat) \<Rightarrow> expr_heap \<Rightarrow> bool" where
  "levels \<rho> L h \<longleftrightarrow> (\<forall>a x. eh_cell h a = Some x \<longrightarrow>
     (\<forall>b\<in>set (kids (ex_data x)). L b \<le> L a) \<and> (\<forall>s. ex_data x = EX_REF s \<longrightarrow> \<rho> s < L a))"

definition leveled :: "(string \<Rightarrow> nat) \<Rightarrow> (addr \<Rightarrow> nat) \<Rightarrow> addr multiset \<Rightarrow> expr_heap \<Rightarrow> bool" where
  "leveled \<rho> L M h \<longleftrightarrow> heap_counted M h \<and> levels \<rho> L h \<and> nodes_ok h"

lemma leveled_node:
  assumes "leveled \<rho> L (mset (kids d) + M) h" "\<forall>b\<in>set (kids d). L b \<le> l" "\<And>s. d = EX_REF s \<Longrightarrow> \<rho> s < l"
    and "\<And>f as. d = EX_FUNC f as \<Longrightarrow> func_ok h f as" "L (eh_next h) = l" "node d h = (a, h')"
  shows "leveled \<rho> L (add_mset a M) h'" "L a = l"
proof -
  let ?n = "eh_next h"
  have a: "a = ?n" "h' = alloc d h" using assms(6) by (simp_all add: node_def)
  have c: "heap_counted (mset (kids d) + M) h" and L: "levels \<rho> L h" and n: "nodes_ok h"
    using assms(1) by (simp_all add: leveled_def)
  have fresh: "eh_cell h ?n = None" using c heap_wf_fresh by (auto simp: heap_counted_def)
  have live: "b < ?n" if "eh_cell h a = Some x" "b \<in> set (kids (ex_data x))" for a x b
    using c that fresh heap_wf_fresh [of "mset (kids d) + M" "{}" h a]
    by (force simp: heap_counted_def kids_fall_def)
  have kids: "b < ?n" if "b \<in> set (kids d)" for b using counted_live [OF c, of b] that by simp
  have "levels \<rho> L (alloc d h)"
    using L assms(2,3,5) by (auto simp: levels_def alloc_cell)
  moreover have "nodes_ok (alloc d h)"
    unfolding nodes_ok_def
  proof (intro allI impI)
    fix b x f as assume x: "eh_cell (alloc d h) b = Some x" "ex_data x = EX_FUNC f as"
    have "func_ok h f as \<and> (\<forall>k\<in>set as. k < ?n)"
      using x n assms(4) kids live [of b x] by (auto simp: alloc_cell nodes_ok_def split: if_splits)
    moreover have "1 < length as" if "f = ''CHANGED''" "func_ok h f as" using that by (simp add: func_ok_def func_arity_def)
    ultimately show "func_ok (alloc d h) f as"
      by (fastforce simp: func_ok_def no_other_kind_def alloc_cell dest: nth_mem)
  qed
  ultimately show "leveled \<rho> L (add_mset a M) h'" "L a = l"
    using counted_alloc [OF c] assms(5) by (simp_all add: leveled_def a)
qed

lemma args_arity:
  assumes "known_function f" "args_ok f n" "f \<noteq> ''CHANGED''"
  shows "func_arity f n"
proof -
  have "f = ''MIN'' \<or> f = ''MAX'' \<or> f = ''ROUND'' \<or> f = ''LIMIT'' \<or> f = ''EVAL''"
    using assms(1,3) by (simp add: known_function_def)
  then show ?thesis using assms(2) by (elim disjE) (simp_all add: args_ok_def func_arity_def)
qed

text \<open>A new expression.\<close>

definition builds_well ::
  "(string \<Rightarrow> nat) \<Rightarrow> (addr \<Rightarrow> nat) \<Rightarrow> nat \<Rightarrow> expr_heap \<Rightarrow> addr multiset \<Rightarrow> addr list \<Rightarrow> expr_heap \<Rightarrow> bool" where
  "builds_well \<rho> L l h M as h' \<longleftrightarrow>
     leveled \<rho> L (mset as + M) h' \<and> (\<forall>a\<in>set as. L a = l) \<and> eh_next h \<le> eh_next h'"

lemma builds_node:
  assumes "builds_well \<rho> L l h M (kids d) h1" "\<And>s. d = EX_REF s \<Longrightarrow> \<rho> s < l"
    and "\<And>f as. d = EX_FUNC f as \<Longrightarrow> func_ok h1 f as" "\<forall>b\<ge>eh_next h. L b = l" "node d h1 = (a, h')"
  shows "builds_well \<rho> L l h M [a] h'"
proof -
  have "L (eh_next h1) = l" using assms(1,4) by (simp add: builds_well_def)
  with assms leveled_node [of \<rho> L d M h1 l a h'] node_grows [OF assms(5)] show ?thesis
    by (auto simp: builds_well_def heap_grows_def)
qed

lemma builds_append:
  assumes "builds_well \<rho> L l h M as h1" "\<And>M. leveled \<rho> L M h1 \<Longrightarrow> builds_well \<rho> L l h1 M bs h'"
  shows "builds_well \<rho> L l h M (as @ bs) h'"
  using assms(1) assms(2) [of "mset as + M"] by (auto simp: builds_well_def ac_simps)

lemma builds_refl: "leveled \<rho> L M h \<Longrightarrow> builds_well \<rho> L l h M [] h"
  by (simp add: builds_well_def)

lemma builds_above: "builds_well \<rho> L l h M as h1 \<Longrightarrow> \<forall>b\<ge>eh_next h. L b = l \<Longrightarrow> \<forall>b\<ge>eh_next h1. L b = l"
  by (auto simp: builds_well_def)

lemma builds_list:
  assumes "\<And>e M h a h'. e \<in> set es \<Longrightarrow> leveled \<rho> L M h \<Longrightarrow> \<forall>b\<ge>eh_next h. L b = l \<Longrightarrow> build e h = (a, h') \<Longrightarrow>
      builds_well \<rho> L l h M [a] h'"
    and "leveled \<rho> L M h" "\<forall>b\<ge>eh_next h. L b = l" "builds es h = (as, h')"
  shows "builds_well \<rho> L l h M as h'"
  using assms
proof (induction es arbitrary: M h as h')
  case (Cons e es)
  obtain a h1 where 1: "build e h = (a, h1)" by (cases "build e h")
  obtain as' h2 where 2: "builds es h1 = (as', h2)" by (cases "builds es h1")
  have 3: "builds_well \<rho> L l h M [a] h1" by (rule Cons.prems(1) [OF _ Cons.prems(2,3) 1]) simp
  have "builds_well \<rho> L l h1 M' as' h2" if "leveled \<rho> L M' h1" for M'
    by (rule Cons.IH [OF Cons.prems(1) that builds_above [OF 3 Cons.prems(3)] 2]) simp_all
  from builds_append [OF 3 this] Cons.prems(4) 1 2 show ?case by simp
qed (simp add: builds_refl)

lemma build_well:
  "leveled \<rho> L M h \<Longrightarrow> \<forall>b\<ge>eh_next h. L b = l \<Longrightarrow> \<forall>s\<in>set (refs_of e). \<rho> s < l \<Longrightarrow> calls_fit e \<Longrightarrow> one_changed e \<Longrightarrow>
    build e h = (a, h') \<Longrightarrow> builds_well \<rho> L l h M [a] h'"
proof (induction e arbitrary: M h a h')
  case (ANum d)
  then show ?case by (intro builds_node [of _ _ _ _ _ "EX_LITERAL d"]) (simp_all add: builds_refl)
next
  case (ARef s)
  then show ?case by (intro builds_node [of _ _ _ _ _ "EX_REF s"]) (simp_all add: builds_refl)
next
  case (AFlag s fb)
  then show ?case by (intro builds_node [of _ _ _ _ _ "EX_FLAG s fb"]) (simp_all add: builds_refl)
next
  case (AOp op x y)
  obtain b h1 where 1: "build x h = (b, h1)" by (cases "build x h")
  obtain c h2 where 2: "build y h1 = (c, h2)" by (cases "build y h1")
  have 3: "builds_well \<rho> L l h M [b] h1" by (rule AOp.IH(1) [OF _ _ _ _ _ 1]) (use AOp.prems in simp_all)
  have "builds_well \<rho> L l h1 M' [c] h2" if "leveled \<rho> L M' h1" for M'
    by (rule AOp.IH(2) [OF that builds_above [OF 3 AOp.prems(2)] _ _ _ 2]) (use AOp.prems in simp_all)
  from builds_append [OF 3 this] have "builds_well \<rho> L l h M (kids (EX_OP (op_of_rule (op_rule op)) b c)) h2" by simp
  then show ?case by (rule builds_node) (use AOp.prems 1 2 in simp_all)
next
  case (ANeg x)
  obtain b h1 where 1: "build x h = (b, h1)" by (cases "build x h")
  obtain c h2 where 2: "node (EX_LITERAL (f64_of_int (- 1))) h1 = (c, h2)" by (cases "node (EX_LITERAL (f64_of_int (- 1))) h1")
  have 3: "builds_well \<rho> L l h M [b] h1" by (rule ANeg.IH [OF _ _ _ _ _ 1]) (use ANeg.prems in simp_all)
  have "builds_well \<rho> L l h1 M' [c] h2" if "leveled \<rho> L M' h1" for M'
    by (rule builds_node [OF _ _ _ builds_above [OF 3 ANeg.prems(2)] 2]) (simp_all add: builds_refl that)
  from builds_append [OF 3 this] have "builds_well \<rho> L l h M (kids (EX_OP ''*'' c b)) h2"
    by (simp add: builds_well_def add_mset_commute)
  then show ?case by (rule builds_node) (use ANeg.prems 1 2 in simp_all)
next
  case (ACall f es)
  obtain as h1 where 1: "builds es h = (as, h1)" by (cases "builds es h")
  have len: "length as = length es" using 1 by (rule builds_length)
  have 3: "builds_well \<rho> L l h M as h1"
  proof (rule builds_list [OF _ ACall.prems(1,2) 1])
    fix e M h a h'
    assume e: "e \<in> set es" and b: "leveled \<rho> L M h" "\<forall>b\<ge>eh_next h. L b = l" "build e h = (a, h')"
    have "\<forall>s\<in>set (refs_of e). \<rho> s < l" "calls_fit e" "one_changed e" using ACall.prems(3-5) e by auto
    then show "builds_well \<rho> L l h M [a] h'" by (rule ACall.IH [OF e b(1,2) _ _ _ b(3)])
  qed
  show ?case
  proof (cases "f = ''CHANGED''")
    case False
    have "known_function f" "args_ok f (length as)" using ACall.prems(4) len by simp_all
    then have "func_ok h1 f as" using False args_arity by (simp add: func_ok_def)
    moreover have "builds_well \<rho> L l h M (kids (EX_FUNC f as)) h1" using 3 by simp
    ultimately show ?thesis by (intro builds_node [of _ _ _ _ _ "EX_FUNC f as"]) (use ACall.prems 1 False in simp_all)
  next
    case True
    obtain c h2 where 2: "node (EX_LITERAL G_MINDOUBLE) h1 = (c, h2)" by (cases "node (EX_LITERAL G_MINDOUBLE) h1")
    have "builds_well \<rho> L l h1 M' [c] h2" if "leveled \<rho> L M' h1" for M'
      by (rule builds_node [OF _ _ _ builds_above [OF 3 ACall.prems(2)] 2]) (simp_all add: builds_refl that)
    from builds_append [OF 3 this] have 4: "builds_well \<rho> L l h M (kids (EX_FUNC f (as @ [c]))) h2" by simp
    have "length as = 1" using True ACall.prems(5) len by simp
    then have "func_ok h2 f (as @ [c])" using True 2
      by (auto simp: func_ok_def func_arity_def no_other_kind_def is_literal_def nth_append node_def alloc_cell)
    with 4 show ?thesis by (intro builds_node [of _ _ _ _ _ "EX_FUNC f (as @ [c])"]) (use ACall.prems 1 2 True in simp_all)
  qed
qed

section \<open>Levels of rules\<close>

text \<open>From \<open>L\<close> and \<open>h\<close> the levels grow to \<open>L'\<close> with the heap \<open>h'\<close>, whose roots are \<open>M\<close>.\<close>

definition grows_to ::
  "(string \<Rightarrow> nat) \<Rightarrow> nat \<Rightarrow> (addr \<Rightarrow> nat) \<Rightarrow> expr_heap \<Rightarrow> addr multiset \<Rightarrow> (addr \<Rightarrow> nat) \<Rightarrow> expr_heap \<Rightarrow> bool" where
  "grows_to \<rho> m L h M L' h' \<longleftrightarrow>
     leveled \<rho> L' M h' \<and> (\<forall>a<eh_next h. L' a = L a) \<and> eh_next h \<le> eh_next h' \<and> (\<forall>a. L' a \<le> Suc m)"

lemma grows_toD:
  assumes "grows_to \<rho> m L h M L' h'"
  shows "leveled \<rho> L' M h'" "a < eh_next h \<Longrightarrow> L' a = L a" "eh_next h \<le> eh_next h'" "\<forall>a. L' a \<le> Suc m"
  using assms by (simp_all add: grows_to_def)

lemma grows_to_trans:
  "grows_to \<rho> m L h M1 L1 h1 \<Longrightarrow> grows_to \<rho> m L1 h1 M2 L2 h2 \<Longrightarrow> grows_to \<rho> m L h M2 L2 h2"
  by (auto simp: grows_to_def)

lemma leveled_live: "leveled \<rho> L M h \<Longrightarrow> a \<in># M \<Longrightarrow> a < eh_next h"
  using counted_live by (auto simp: leveled_def)

lemma leveled_cong:
  assumes "leveled \<rho> L M h" "\<forall>a<eh_next h. L' a = L a"
  shows "leveled \<rho> L' M h"
proof -
  have c: "heap_counted M h" using assms(1) by (simp add: leveled_def)
  have "a < eh_next h" if "eh_cell h a = Some x" for a x
    using that heap_wf_fresh [of M "{}" h a] c by (cases "a < eh_next h") (auto simp: heap_counted_def)
  moreover have "b < a" if "eh_cell h a = Some x" "b \<in> set (kids (ex_data x))" for a x b
    using that c by (auto simp: heap_counted_def kids_fall_def)
  ultimately have "levels \<rho> L' h"
    using assms unfolding leveled_def levels_def by (metis order.strict_trans)
  then show ?thesis using assms(1) by (simp add: leveled_def)
qed

lemma grow_expr:
  assumes "leveled \<rho> L M h" "\<forall>a. L a \<le> Suc m" "\<forall>s\<in>set (refs_of e). \<rho> s < l" "l \<le> Suc m" "calls_fit e" "one_changed e"
    "build e h = (a, h')"
  obtains L' where "grows_to \<rho> m L h (add_mset a M) L' h'" "L' a = l"
proof -
  let ?L = "\<lambda>b. if b < eh_next h then L b else l"
  have "leveled \<rho> ?L M h" using leveled_cong [OF assms(1)] by simp
  then have "builds_well \<rho> ?L l h M [a] h'" by (rule build_well) (use assms in simp_all)
  with assms(2,4) show ?thesis by (intro that [of ?L]) (auto simp: grows_to_def builds_well_def)
qed

lemma grow_literal:
  assumes "leveled \<rho> L M h" "\<forall>a. L a \<le> Suc m" "l \<le> Suc m" "node (EX_LITERAL d) h = (a, h')"
  obtains L' where "grows_to \<rho> m L h (add_mset a M) L' h'" "L' a = l"
  by (rule grow_expr [of \<rho> L M h m "ANum d" l a h']) (use assms that in simp_all)

lemma grow_entries:
  assumes "\<forall>s. \<rho> s \<le> m" "leveled \<rho> L M h" "\<forall>a. L a \<le> Suc m" "build_entries x fb es h = (b, h')"
    and "\<forall>(r, c)\<in>set es. calls_fit r \<and> calls_fit c \<and> one_changed r \<and> one_changed c"
    and "fb = 0 \<longrightarrow> (\<forall>(r, c)\<in>set es. \<forall>s\<in>set (refs_of r). \<rho> s < \<rho> x)"
  shows "\<exists>L'. grows_to \<rho> m L h (block_roots b + M) L' h' \<and>
    (\<forall>e\<in>set b. as_flag_bit (le_ass e) = 0 \<longrightarrow> L' (as_rval (le_ass e)) \<le> \<rho> (as_id (le_ass e)))"
  using assms(2-)
proof (induction es arbitrary: L M h b h')
  case Nil
  then show ?case by (intro exI [of _ L]) (auto simp: grows_to_def block_roots_def)
next
  case (Cons rc es)
  obtain r c where rc: "rc = (r, c)" by (cases rc)
  obtain a h1 where 1: "build r h = (a, h1)" by (cases "build r h")
  obtain a' h2 where 2: "build c h1 = (a', h2)" by (cases "build c h1")
  obtain b' h3 where 3: "build_entries x fb es h2 = (b', h3)" by (cases "build_entries x fb es h2")
  let ?l = "if fb = 0 then \<rho> x else Suc m"
  have l: "\<forall>s\<in>set (refs_of r). \<rho> s < ?l" "?l \<le> Suc m" "\<forall>s\<in>set (refs_of c). \<rho> s < Suc m"
    using Cons.prems(5) assms(1) rc by (auto simp: le_imp_less_Suc le_SucI)
  obtain L1 where g1: "grows_to \<rho> m L h (add_mset a M) L1 h1" and a: "L1 a = ?l"
    by (rule grow_expr [OF Cons.prems(1,2) l(1,2) _ _ 1]) (use Cons.prems(4) rc in auto)
  obtain L2 where g2: "grows_to \<rho> m L1 h1 (add_mset a' (add_mset a M)) L2 h2"
    by (rule grow_expr [OF grows_toD(1,4) [OF g1] l(3) _ _ _ 2]) (use Cons.prems(4) rc in auto)
  obtain L3 where g3: "grows_to \<rho> m L2 h2 (block_roots b' + add_mset a' (add_mset a M)) L3 h3"
    and b': "\<forall>e\<in>set b'. as_flag_bit (le_ass e) = 0 \<longrightarrow> L3 (as_rval (le_ass e)) \<le> \<rho> (as_id (le_ass e))"
    using Cons.IH [OF grows_toD(1,4) [OF g2] 3] Cons.prems(4,5) by auto
  have "a < eh_next h1" using leveled_live [OF grows_toD(1) [OF g1]] by simp
  then have "L3 a = ?l" using a grows_toD(2,3) [OF g2] grows_toD(2) [OF g3] by simp
  moreover have "grows_to \<rho> m L h (block_roots b' + add_mset a' (add_mset a M)) L3 h3"
    using grows_to_trans [OF g1 grows_to_trans [OF g2 g3]] .
  ultimately show ?case
    using Cons.prems(3) rc 1 2 3 b' by (intro exI [of _ L3]) (auto simp: block_roots_def entry_roots_def)
qed

lemma grow_sets:
  assumes "\<forall>s. \<rho> s \<le> m" "leveled \<rho> L M h" "\<forall>a. L a \<le> Suc m" "build_sets ss h = (as, h')"
    and "\<forall>s\<in>set ss. set_fits s \<and> list_all one_changed (set_exprs s)"
    and "\<forall>(x, e)\<in>set (concat (map set_assigns ss)). \<forall>s\<in>set (refs_of e). \<rho> s < \<rho> x"
  shows "\<exists>L'. grows_to \<rho> m L h (mset (map as_rval as) + M) L' h' \<and>
    (\<forall>a\<in>set as. as_flag_bit a = 0 \<longrightarrow> L' (as_rval a) \<le> \<rho> (as_id a))"
  using assms(2-)
proof (induction ss arbitrary: L M h as h')
  case Nil
  then show ?case by (intro exI [of _ L]) (auto simp: grows_to_def)
next
  case (Cons s ss)
  obtain x fl e where s: "s = Set x fl e" by (cases s)
  obtain a h1 where 1: "build e h = (a, h1)" by (cases "build e h")
  obtain as' h2 where 2: "build_sets ss h1 = (as', h2)" by (cases "build_sets ss h1")
  let ?l = "if flag_bits fl = 0 then \<rho> x else Suc m"
  have l: "\<forall>s\<in>set (refs_of e). \<rho> s < ?l" "?l \<le> Suc m"
    using Cons.prems(5) assms(1) s by (auto simp: le_imp_less_Suc le_SucI)
  obtain L1 where g1: "grows_to \<rho> m L h (add_mset a M) L1 h1" and a: "L1 a = ?l"
    by (rule grow_expr [OF Cons.prems(1,2) l _ _ 1]) (use Cons.prems(4) s in auto)
  obtain L2 where g2: "grows_to \<rho> m L1 h1 (mset (map as_rval as') + add_mset a M) L2 h2"
    and as': "\<forall>a\<in>set as'. as_flag_bit a = 0 \<longrightarrow> L2 (as_rval a) \<le> \<rho> (as_id a)"
    using Cons.IH [OF grows_toD(1,4) [OF g1] 2] Cons.prems(4,5) by auto
  have "a < eh_next h1" using leveled_live [OF grows_toD(1) [OF g1]] by simp
  then have "L2 a = ?l" using a grows_toD(2) [OF g2] by simp
  with grows_to_trans [OF g1 g2] Cons.prems(3) s 1 2 as' show ?case by (intro exI [of _ L2]) auto
qed

section \<open>Levels of a program\<close>

definition rule_assigns :: "rules \<Rightarrow> assign list" where
  "rule_assigns R = map le_ass (concat (ru_labels R)) @ concat (map tr_ass (ru_triggers R))"

text \<open>All rules so far have their levels.\<close>

definition rules_leveled :: "(string \<Rightarrow> nat) \<Rightarrow> nat \<Rightarrow> (addr \<Rightarrow> nat) \<Rightarrow> rules \<Rightarrow> bool" where
  "rules_leveled \<rho> m L R \<longleftrightarrow> leveled \<rho> L (rules_roots R) (ru_heap R) \<and> (\<forall>a. L a \<le> Suc m) \<and>
     (\<forall>a\<in>set (rule_assigns R). as_flag_bit a = 0 \<longrightarrow> L (as_rval a) \<le> \<rho> (as_id a)) \<and>
     (\<forall>e\<in>set (ru_vars R). L (var_value (snd e)) \<le> \<rho> (fst e)) \<and> ru_replaced R = []"

lemma mem_sum_list: "x \<in># sum_list Ms \<longleftrightarrow> (\<exists>M\<in>set Ms. x \<in># M)"
  by (induction Ms) auto

lemma assign_roots: "a \<in> set (rule_assigns R) \<Longrightarrow> as_rval a \<in># rules_roots R"
proof -
  assume "a \<in> set (rule_assigns R)"
  then have "(\<exists>b\<in>set (ru_labels R). as_rval a \<in># block_roots b) \<or> (\<exists>t\<in>set (ru_triggers R). as_rval a \<in># trigger_roots t)"
    by (auto simp: rule_assigns_def block_roots_def entry_roots_def trigger_roots_def mem_sum_list)
  then show ?thesis by (auto simp: rules_roots_def mem_sum_list)
qed

lemma var_roots: "e \<in> set (ru_vars R) \<Longrightarrow> var_value (snd e) \<in># rules_roots R"
  by (auto simp: rules_roots_def image_iff)

text \<open>Old rules keep their levels when the heap grows.\<close>

lemma kept_levels:
  assumes "rules_leveled \<rho> m L R" "grows_to \<rho> m L (ru_heap R) M L' h'"
  shows "\<forall>a\<in>set (rule_assigns R). as_flag_bit a = 0 \<longrightarrow> L' (as_rval a) \<le> \<rho> (as_id a)"
    "\<forall>e\<in>set (ru_vars R). L' (var_value (snd e)) \<le> \<rho> (fst e)" "\<forall>a. L' a \<le> Suc m" "leveled \<rho> L' M h'"
proof -
  have lv: "leveled \<rho> L (rules_roots R) (ru_heap R)" using assms(1) by (simp add: rules_leveled_def)
  have same: "a \<in># rules_roots R \<Longrightarrow> L' a = L a" for a
    using leveled_live [OF lv] grows_toD(2) [OF assms(2)] by blast
  show "\<forall>a\<in>set (rule_assigns R). as_flag_bit a = 0 \<longrightarrow> L' (as_rval a) \<le> \<rho> (as_id a)"
    using assms(1) same assign_roots by (simp add: rules_leveled_def)
  show "\<forall>e\<in>set (ru_vars R). L' (var_value (snd e)) \<le> \<rho> (fst e)"
    using assms(1) same var_roots by (simp add: rules_leveled_def)
  show "\<forall>a. L' a \<le> Suc m" "leveled \<rho> L' M h'" using assms(2) by (simp_all add: grows_to_def)
qed

lemma insert_entry: "e \<in> set (gh_insert t k v) \<Longrightarrow> e = (k, v) \<or> e \<in> set t"
  by (induction t) (auto split: if_splits)

lemma insert_var_leveled:
  assumes "rules_leveled \<rho> m L R" "gh_lookup (ru_vars R) x = None" "a \<notin># {#}"
    and "grows_to \<rho> m L (ru_heap R) (add_mset a (rules_roots R)) L' h'" "L' a = \<rho> x"
  shows "rules_leveled \<rho> m L' (insert_var x \<lparr>var_name = x, var_value = a\<rparr> (set_heap R h'))"
proof -
  note k = kept_levels [OF assms(1,4)]
  let ?v = "\<lparr>var_name = x, var_value = a\<rparr>"
  have "rules_roots (insert_var x ?v (set_heap R h')) = add_mset a (rules_roots R)"
    using gh_insert_roots [of var_value "ru_vars R" x ?v] assms(2)
    by (simp add: rules_roots_def insert_var_def set_heap_def add.commute)
  then show ?thesis
    using assms(1,2,5) k unfolding rules_leveled_def
    by (auto simp: insert_var_def set_heap_def rule_assigns_def dest: insert_entry)
qed

lemma instruction_leveled:
  assumes "\<forall>s. \<rho> s \<le> m" "rules_leveled \<rho> m L R" "instruction_fits i" "ordered \<rho> i"
    "list_all one_changed (instruction_exprs i)" "\<forall>x\<in>set (declared i). gh_lookup (ru_vars R) x = None"
  shows "\<exists>L'. rules_leveled \<rho> m L' (build_instruction i R)"
proof -
  have lv: "leveled \<rho> L (rules_roots R) (ru_heap R)" "\<forall>a. L a \<le> Suc m"
    using assms(2) by (simp_all add: rules_leveled_def)
  show ?thesis
  proof (cases i)
    case (Var x e)
    have new: "gh_lookup (ru_vars R) x = None" using assms(6) Var by simp
    have le: "\<rho> x \<le> Suc m" using assms(1) le_SucI by blast
    show ?thesis
    proof (cases e)
      case None
      obtain a h where n: "node (EX_LITERAL f64_zero) (ru_heap R) = (a, h)" by force
      obtain L' where "grows_to \<rho> m L (ru_heap R) (add_mset a (rules_roots R)) L' h" "L' a = \<rho> x"
        by (rule grow_literal [OF lv le n])
      from insert_var_leveled [OF assms(2) new _ this] show ?thesis using Var None n by auto
    next
      case (Some e')
      obtain a h where b: "build e' (ru_heap R) = (a, h)" by force
      obtain L' where "grows_to \<rho> m L (ru_heap R) (add_mset a (rules_roots R)) L' h" "L' a = \<rho> x"
        by (rule grow_expr [OF lv _ le _ _ b]) (use assms(3-5) Var Some in \<open>auto simp: ordered_def\<close>)
      from insert_var_leveled [OF assms(2) new _ this] show ?thesis using Var Some b by auto
    qed
  next
    case (Label x fl es)
    obtain b h where b: "build_entries x (flag_bits fl) es (ru_heap R) = (b, h)" by force
    have "\<forall>(r, c)\<in>set es. calls_fit r \<and> calls_fit c \<and> one_changed r \<and> one_changed c"
      "flag_bits fl = 0 \<longrightarrow> (\<forall>(r, c)\<in>set es. \<forall>s\<in>set (refs_of r). \<rho> s < \<rho> x)"
      using assms(3-5) Label by (fastforce simp: ordered_def list_all_iff)+
    from grow_entries [OF assms(1) lv b this] obtain L' where
      g: "grows_to \<rho> m L (ru_heap R) (block_roots b + rules_roots R) L' h" and
      a: "\<forall>e\<in>set b. as_flag_bit (le_ass e) = 0 \<longrightarrow> L' (as_rval (le_ass e)) \<le> \<rho> (as_id (le_ass e))" by blast
    note k = kept_levels [OF assms(2) g]
    have "rules_roots ((set_heap R h)\<lparr>ru_labels := ru_labels R @ [b]\<rparr>) = block_roots b + rules_roots R"
      by (simp add: rules_roots_def set_heap_def ac_simps)
    then have "rules_leveled \<rho> m L' ((set_heap R h)\<lparr>ru_labels := ru_labels R @ [b]\<rparr>)"
      using assms(2) k a unfolding rules_leveled_def by (auto simp: set_heap_def rule_assigns_def)
    then show ?thesis using Label b by auto
  next
    case (Trigger c ss)
    obtain a h where 1: "build c (ru_heap R) = (a, h)" by force
    obtain as h' where 2: "build_sets ss h = (as, h')" by force
    have c: "\<forall>s\<in>set (refs_of c). \<rho> s < Suc m" using assms(1) by (simp add: le_imp_less_Suc)
    obtain L1 where g1: "grows_to \<rho> m L (ru_heap R) (add_mset a (rules_roots R)) L1 h"
      by (rule grow_expr [OF lv c _ _ _ 1]) (use assms(3,5) Trigger in auto)
    have "\<forall>s\<in>set ss. set_fits s \<and> list_all one_changed (set_exprs s)"
      "\<forall>(x, e)\<in>set (concat (map set_assigns ss)). \<forall>s\<in>set (refs_of e). \<rho> s < \<rho> x"
      using assms(3-5) Trigger by (auto simp: ordered_def list_all_iff)
    from grow_sets [OF assms(1) grows_toD(1,4) [OF g1] 2 this] obtain L2 where
      g2: "grows_to \<rho> m L1 h (mset (map as_rval as) + add_mset a (rules_roots R)) L2 h'" and
      b: "\<forall>a\<in>set as. as_flag_bit a = 0 \<longrightarrow> L2 (as_rval a) \<le> \<rho> (as_id a)" by blast
    note k = kept_levels [OF assms(2) grows_to_trans [OF g1 g2]]
    let ?R = "(set_heap R h')\<lparr>ru_triggers := ru_triggers R @ [\<lparr>tr_cond = a, tr_ass = as\<rparr>]\<rparr>"
    have "rules_roots ?R = mset (map as_rval as) + add_mset a (rules_roots R)"
      by (simp add: rules_roots_def set_heap_def trigger_roots_def ac_simps)
    then have "rules_leveled \<rho> m L2 ?R"
      using assms(2) k b unfolding rules_leveled_def by (auto simp: set_heap_def rule_assigns_def)
    then show ?thesis using Trigger 1 2 by auto
  qed
qed

text \<open>The names of the variables, each of them once.\<close>

lemma build_instruction_vars:
  "fst ` set (ru_vars (build_instruction i R)) = set (declared i) \<union> fst ` set (ru_vars R)"
  "gh_wf (ru_vars R) \<Longrightarrow> gh_wf (ru_vars (build_instruction i R))"
  by (cases i; auto simp: insert_var_def set_heap_def gh_keys_insert gh_wf_insert split: option.splits prod.splits)+

lemma lookup_unknown: "x \<notin> fst ` set t \<Longrightarrow> gh_lookup t x = None"
  by (metis gh_lookup_in_set image_eqI fst_conv not_None_eq)

lemma instructions_leveled:
  assumes "\<forall>s. \<rho> s \<le> m" "rules_leveled \<rho> m L R" "gh_wf (ru_vars R)" "list_all instruction_fits is"
    "list_all (ordered \<rho>) is" "list_all one_changed (concat (map instruction_exprs is))"
    "distinct (concat (map declared is))" "set (concat (map declared is)) \<inter> fst ` set (ru_vars R) = {}"
  shows "(\<exists>L'. rules_leveled \<rho> m L' (fold build_instruction is R)) \<and> gh_wf (ru_vars (fold build_instruction is R))"
  using assms(2-)
proof (induction "is" arbitrary: L R)
  case (Cons i "is")
  note p = Cons.prems
  have new: "\<forall>x\<in>set (declared i). gh_lookup (ru_vars R) x = None"
    using p(7) by (intro ballI lookup_unknown) auto
  have one: "instruction_fits i" "ordered \<rho> i" "list_all one_changed (instruction_exprs i)"
    using p(3-5) by simp_all
  obtain L1 where L1: "rules_leveled \<rho> m L1 (build_instruction i R)"
    using instruction_leveled [OF assms(1) p(1) one new] by blast
  have "set (concat (map declared is)) \<inter> set (declared i) = {}"
    "set (concat (map declared is)) \<inter> fst ` set (ru_vars R) = {}" using p(6,7) by auto
  then have dis: "set (concat (map declared is)) \<inter> fst ` set (ru_vars (build_instruction i R)) = {}"
    by (simp only: build_instruction_vars(1) Int_Un_distrib Un_empty)
  have rest: "list_all instruction_fits is" "list_all (ordered \<rho>) is"
    "list_all one_changed (concat (map instruction_exprs is))" "distinct (concat (map declared is))"
    using p(3-6) by simp_all
  from Cons.IH [OF L1 build_instruction_vars(2) [OF p(2)] rest dis] show ?case by simp
qed auto

section \<open>What the core needs\<close>

text \<open>The rules of the parser as the engine of the core, without callbacks.\<close>

definition engine_of :: "rules \<Rightarrow> core_data engine" where
  "engine_of R = \<lparr>en_labels = ru_labels R, en_triggers = ru_triggers R, en_on_rule_triggered = None,
     en_on_trigger_triggered = None\<rparr>"

lemma block_owners:
  "block_roots b = mset (map le_cond b) + mset (map (as_rval \<circ> le_ass) b)"
  by (induction b) (simp_all add: block_roots_def entry_roots_def)

lemma label_owners:
  "sum_list (map block_roots bs) = mset (map le_cond (concat bs)) + mset (map (as_rval \<circ> le_ass) (concat bs))"
  by (induction bs) (simp_all add: block_owners comp_def)

lemma trigger_owners:
  "sum_list (map trigger_roots ts) = mset (map tr_cond ts) + mset (map as_rval (concat (map tr_ass ts)))"
  by (induction ts) (simp_all add: trigger_roots_def)

lemma roots_owners:
  assumes "ru_replaced R = []"
  shows "owners (connect_debug (engine_of R)) (ru_vars R) = rules_roots R"
  using assms
  by (simp add: owners_def rule_nodes_def entry_assigns_def connect_debug_def engine_of_def rules_roots_def
      label_owners trigger_owners)

text \<open>The levels as a rank: within a level the operands come first.\<close>

definition rank_of :: "(addr \<Rightarrow> nat) \<Rightarrow> nat \<Rightarrow> addr \<Rightarrow> nat" where
  "rank_of L n a = (if a < n then L a * n + a else 0)"

definition cand_of :: "(string \<Rightarrow> nat) \<Rightarrow> (addr \<Rightarrow> nat) \<Rightarrow> nat \<Rightarrow> string \<Rightarrow> addr \<Rightarrow> bool" where
  "cand_of \<rho> L n s a \<longleftrightarrow> a < n \<and> L a \<le> \<rho> s"

lemma rank_of_less: "a < n \<Longrightarrow> b < n \<Longrightarrow> L b < L a \<or> L b = L a \<and> b < a \<Longrightarrow> rank_of L n b < rank_of L n a"
proof -
  assume a: "a < n" and b: "b < n" and l: "L b < L a \<or> L b = L a \<and> b < a"
  have "L b * n + b < L a * n" if "L b < L a"
  proof -
    have "Suc (L b) * n \<le> L a * n" using that by (intro mult_le_mono) simp_all
    then show ?thesis using b by simp
  qed
  then show ?thesis using a b l by (auto simp: rank_of_def)
qed

lemma leveled_inv:
  assumes "leveled \<rho> L M h"
  shows "heap_inv (rank_of L (eh_next h)) (cand_of \<rho> L (eh_next h)) M h"
proof -
  have c: "heap_counted M h" and l: "levels \<rho> L h" and n: "nodes_ok h" using assms by (simp_all add: leveled_def)
  have live: "a < eh_next h" if "eh_cell h a = Some x" for a x
    using that heap_wf_fresh [of M "{}" h a] c by (cases "a < eh_next h") (auto simp: heap_counted_def)
  have "kids_fall (rank_of L (eh_next h)) h"
    unfolding kids_fall_def
  proof (intro allI impI)
    fix a x b assume x: "eh_cell h a = Some x" "b \<in> set (kids (ex_data x))"
    have "b < a" using c x by (simp add: heap_counted_def kids_fall_def)
    moreover have "L b \<le> L a" using l x by (simp add: levels_def)
    ultimately show "rank_of L (eh_next h) b < rank_of L (eh_next h) a"
      using live [OF x(1)] by (intro rank_of_less) auto
  qed
  moreover have "rank_of L (eh_next h) e < rank_of L (eh_next h) a"
    if "eh_cell h a = Some x" "ex_data x = EX_REF s" "cand_of \<rho> L (eh_next h) s e" for a x s e
  proof (rule rank_of_less)
    show "a < eh_next h" "e < eh_next h" using that live by (auto simp: cand_of_def)
    have "L e \<le> \<rho> s" "\<rho> s < L a" using that l by (auto simp: cand_of_def levels_def)
    then show "L e < L a \<or> L e = L a \<and> e < a" by simp
  qed
  ultimately show ?thesis
    using c n by (auto simp: heap_inv_def rank_ok_def heap_counted_def rank_of_def)
qed

lemma leveled_loaded:
  assumes "rules_leveled \<rho> m L R" "gh_wf (ru_vars R)"
  shows "rules_loaded (rank_of L (eh_next (ru_heap R))) (cand_of \<rho> L (eh_next (ru_heap R)))
    (connect_debug (engine_of R)) (ru_vars R) (ru_heap R)"
proof -
  have l: "leveled \<rho> L (rules_roots R) (ru_heap R)" and e: "ru_replaced R = []"
    using assms(1) by (simp_all add: rules_leveled_def)
  have inv: "heap_inv (rank_of L (eh_next (ru_heap R))) (cand_of \<rho> L (eh_next (ru_heap R)))
      (owners (connect_debug (engine_of R)) (ru_vars R)) (ru_heap R)"
    using leveled_inv [OF l] roots_owners [OF e] by simp
  have "cand_of \<rho> L (eh_next (ru_heap R)) s (var_value v)" if "gh_lookup (ru_vars R) s = Some v" for s v
    using assms(1) gh_lookup_in_set [OF that] var_roots [of "(s, v)"] leveled_live [OF l]
    by (auto simp: cand_of_def rules_leveled_def)
  moreover have "rules_acyclic (cand_of \<rho> L (eh_next (ru_heap R))) (connect_debug (engine_of R))"
    using assms(1) assign_roots [of _ R] leveled_live [OF l]
    by (auto simp: rules_acyclic_def entry_assigns_def connect_debug_def engine_of_def rules_leveled_def
        cand_of_def rule_assigns_def)
  ultimately show ?thesis using inv assms(2) by (simp add: rules_loaded_def)
qed

lemma rank_of_bound:
  assumes "\<forall>a. L a \<le> Suc m" "(m + 2) * n < k"
  shows "rank_of L n a < k"
proof (cases "a < n")
  case True
  have "L a * n \<le> Suc m * n" using assms(1) by (intro mult_le_mono) simp_all
  then show ?thesis using True assms(2) by (simp add: rank_of_def)
qed (use assms(2) in \<open>simp add: rank_of_def\<close>)

text \<open>The rules of a sound program, as the parser leaves them, are rules with which the core runs safely.\<close>

lemma program_loaded:
  assumes "program_fits is" "program_sound \<rho> is" "\<forall>s. \<rho> s \<le> m" "R = fold build_instruction is engine_new"
    "(m + 2) * eh_next (ru_heap R) < k"
  shows "\<exists>r cand. rules_loaded r cand (connect_debug (engine_of R)) (ru_vars R) (ru_heap R) \<and> (\<forall>a. r a < k)"
proof -
  have "rules_leveled \<rho> m (\<lambda>_. 0) engine_new"
    using heap_counted_empty
    by (simp add: rules_leveled_def engine_new_def leveled_def levels_def nodes_ok_def rules_roots_def rule_assigns_def
        gh_new_def heap_empty_def)
  moreover have "gh_wf (ru_vars engine_new)" by (simp add: engine_new_def gh_new_def gh_wf_def)
  ultimately obtain L where L: "rules_leveled \<rho> m L R" "gh_wf (ru_vars R)"
    using instructions_leveled [OF assms(3), of "\<lambda>_. 0" engine_new "is"] assms(1,2,4)
    by (auto simp: program_fits_def program_sound_def list_all_iff engine_new_def gh_new_def)
  have "\<forall>a. rank_of L (eh_next (ru_heap R)) a < k"
    using rank_of_bound [OF _ assms(5)] L(1) by (simp add: rules_leveled_def)
  with leveled_loaded [OF L] show ?thesis by blast
qed

end
