(* ===== verification/LexTables.thy ===== *)
theory LexTables
  imports Prelude
begin

text \<open>
  The tables of the scanner of the rules language, as they stand in \<open>src/lex.c\<close>, which \<open>flex\<close>
  generated from \<open>src/lex.l\<close>: 102 states, three templates, 48 classes of characters and 39 rules.
  State 0 and the class 0 are not for characters: the class stands for the end of the buffer.
\<close>

section \<open>Tables\<close>

text \<open>The rule a state accepts, zero for none.\<close>

definition yy_accept :: "nat list" where
  "yy_accept =
    [0, 0, 0, 40, 38, 35, 37, 38, 38, 38, 11, 12, 18, 16, 13, 17, 38, 19, 33, 15, 3, 14, 5, 34,
     34, 34, 34, 34, 34, 34, 34, 34, 9, 38, 10, 35, 2, 0, 36, 7, 0, 33, 33, 0, 4, 1, 6, 34, 34,
     34, 34, 34, 34, 34, 34, 34, 34, 8, 0, 33, 34, 34, 34, 34, 21, 34, 34, 34, 20, 34, 34, 24,
     34, 34, 34, 31, 25, 26, 27, 28, 22, 32, 34, 34, 34, 34, 34, 34, 34, 34, 23, 34, 34, 34, 34,
     34, 30, 34, 34, 34, 34, 29, 0]"

text \<open>The class of a character.\<close>

definition yy_ec :: "nat list" where
  "yy_ec =
    [0, 1, 1, 1, 1, 1, 1, 1, 1, 2, 3, 1, 1, 1, 1, 1, 1, 1, 1, 1, 1, 1, 1, 1, 1, 1, 1, 1, 1, 1,
     1, 1, 2, 4, 1, 5, 1, 1, 6, 1, 7, 8, 9, 10, 11, 12, 13, 14, 15, 16, 17, 18, 19, 15, 15, 15,
     15, 15, 20, 21, 22, 23, 24, 1, 1, 25, 26, 26, 27, 28, 29, 30, 31, 32, 26, 26, 33, 34, 35,
     36, 26, 26, 37, 38, 39, 40, 41, 42, 26, 43, 26, 1, 1, 1, 1, 44, 1, 26, 26, 26, 26, 45, 26,
     26, 26, 26, 26, 26, 26, 26, 26, 26, 26, 26, 26, 26, 26, 26, 26, 26, 26, 26, 26, 46, 47, 48,
     1, 1, 1, 1, 1, 1, 1, 1, 1, 1, 1, 1, 1, 1, 1, 1, 1, 1, 1, 1, 1, 1, 1, 1, 1, 1, 1, 1, 1, 1,
     1, 1, 1, 1, 1, 1, 1, 1, 1, 1, 1, 1, 1, 1, 1, 1, 1, 1, 1, 1, 1, 1, 1, 1, 1, 1, 1, 1, 1, 1,
     1, 1, 1, 1, 1, 1, 1, 1, 1, 1, 1, 1, 1, 1, 1, 1, 1, 1, 1, 1, 1, 1, 1, 1, 1, 1, 1, 1, 1, 1,
     1, 1, 1, 1, 1, 1, 1, 1, 1, 1, 1, 1, 1, 1, 1, 1, 1, 1, 1, 1, 1, 1, 1, 1, 1, 1, 1, 1, 1, 1,
     1, 1, 1, 1, 1, 1, 1, 1, 1, 1]"

text \<open>The class of a class in the states that are templates.\<close>

definition yy_meta :: "nat list" where
  "yy_meta =
    [0, 1, 1, 1, 1, 1, 1, 1, 1, 1, 1, 1, 1, 2, 1, 3, 3, 3, 3, 3, 4, 1, 1, 1, 1, 4, 4, 4, 3, 4,
     4, 4, 4, 4, 4, 4, 4, 4, 4, 4, 4, 4, 4, 4, 4, 3, 1, 1, 1]"

text \<open>The offset of a state in \<open>yy_nxt\<close>.\<close>

definition yy_base :: "nat list" where
  "yy_base =
    [0, 0, 0, 170, 171, 167, 171, 145, 164, 160, 171, 171, 171, 36, 171, 43, 48, 171, 44, 171,
     142, 141, 140, 0, 43, 137, 125, 132, 122, 120, 132, 125, 171, 108, 171, 152, 171, 150, 171,
     171, 62, 56, 75, 90, 171, 171, 171, 0, 119, 126, 115, 105, 109, 42, 110, 109, 117, 171, 80,
     95, 106, 113, 102, 110, 0, 110, 111, 69, 0, 103, 109, 0, 111, 103, 104, 0, 0, 0, 0, 0, 0,
     0, 100, 94, 103, 86, 90, 82, 82, 81, 0, 75, 78, 76, 40, 38, 0, 36, 39, 43, 22, 0, 171, 120,
     123, 124]"

text \<open>The state whose entries a state takes where it has none of its own.\<close>

definition yy_def :: "nat list" where
  "yy_def =
    [0, 102, 1, 102, 102, 102, 102, 102, 103, 102, 102, 102, 102, 102, 102, 102, 102, 102, 104,
     102, 102, 102, 102, 105, 105, 105, 105, 105, 105, 105, 105, 105, 102, 102, 102, 102, 102,
     103, 102, 102, 102, 104, 102, 102, 102, 102, 102, 105, 105, 105, 105, 105, 105, 105, 105,
     105, 105, 102, 102, 102, 105, 105, 105, 105, 105, 105, 105, 105, 105, 105, 105, 105, 105,
     105, 105, 105, 105, 105, 105, 105, 105, 105, 105, 105, 105, 105, 105, 105, 105, 105, 105,
     105, 105, 105, 105, 105, 105, 105, 105, 105, 105, 105, 0, 102, 102, 102]"

text \<open>States to go to; \<open>yy_chk\<close> holds the state an entry is for.\<close>

definition yy_nxt :: "nat list" where
  "yy_nxt =
    [0, 4, 5, 6, 7, 8, 9, 10, 11, 12, 13, 14, 15, 16, 17, 18, 18, 18, 18, 18, 4, 19, 20, 21, 22,
     23, 23, 23, 23, 24, 23, 23, 23, 23, 25, 26, 23, 23, 27, 28, 29, 30, 31, 23, 4, 23, 32, 33,
     34, 40, 101, 41, 41, 41, 41, 41, 40, 40, 41, 41, 41, 41, 41, 42, 42, 42, 42, 42, 48, 40,
     100, 99, 43, 98, 65, 97, 49, 42, 42, 42, 42, 42, 66, 96, 43, 76, 77, 78, 79, 43, 42, 42,
     42, 42, 42, 59, 59, 59, 59, 59, 58, 43, 58, 43, 95, 59, 59, 59, 59, 59, 59, 59, 59, 59, 59,
     94, 93, 92, 91, 90, 43, 37, 37, 37, 37, 41, 41, 47, 47, 89, 88, 87, 86, 85, 84, 83, 82, 81,
     80, 75, 74, 73, 72, 71, 70, 69, 68, 67, 64, 63, 62, 61, 60, 38, 35, 57, 56, 55, 54, 53, 52,
     51, 50, 46, 45, 44, 39, 38, 36, 35, 102, 3, 102, 102, 102, 102, 102, 102, 102, 102, 102,
     102, 102, 102, 102, 102, 102, 102, 102, 102, 102, 102, 102, 102, 102, 102, 102, 102, 102,
     102, 102, 102, 102, 102, 102, 102, 102, 102, 102, 102, 102, 102, 102, 102, 102, 102, 102,
     102, 102, 102]"

definition yy_chk :: "nat list" where
  "yy_chk =
    [0, 1, 1, 1, 1, 1, 1, 1, 1, 1, 1, 1, 1, 1, 1, 1, 1, 1, 1, 1, 1, 1, 1, 1, 1, 1, 1, 1, 1, 1,
     1, 1, 1, 1, 1, 1, 1, 1, 1, 1, 1, 1, 1, 1, 1, 1, 1, 1, 1, 13, 100, 13, 13, 13, 13, 13, 15,
     18, 15, 15, 15, 15, 15, 16, 16, 16, 16, 16, 24, 41, 99, 98, 18, 97, 53, 95, 24, 40, 40, 40,
     40, 40, 53, 94, 41, 67, 67, 67, 67, 18, 42, 42, 42, 42, 42, 58, 58, 58, 58, 58, 43, 41, 43,
     42, 93, 43, 43, 43, 43, 43, 59, 59, 59, 59, 59, 92, 91, 89, 88, 87, 42, 103, 103, 103, 103,
     104, 104, 105, 105, 86, 85, 84, 83, 82, 74, 73, 72, 70, 69, 66, 65, 63, 62, 61, 60, 56, 55,
     54, 52, 51, 50, 49, 48, 37, 35, 33, 31, 30, 29, 28, 27, 26, 25, 22, 21, 20, 9, 8, 7, 5, 3,
     102, 102, 102, 102, 102, 102, 102, 102, 102, 102, 102, 102, 102, 102, 102, 102, 102, 102,
     102, 102, 102, 102, 102, 102, 102, 102, 102, 102, 102, 102, 102, 102, 102, 102, 102, 102,
     102, 102, 102, 102, 102, 102, 102, 102, 102, 102, 102, 102, 102]"

lemmas lex_tables = yy_accept_def yy_ec_def yy_meta_def yy_base_def yy_def_def yy_nxt_def yy_chk_def

section \<open>One transition\<close>

text \<open>
  The inner loop of \<open>yy_match\<close>, \<open>yy_get_previous_state\<close> and \<open>yy_try_NUL_trans\<close>. It has at most three
  rounds, as the facts of LexFacts show: a state, its template and state 102, which has an entry for every class.
\<close>

fun yy_chain :: "nat \<Rightarrow> nat \<Rightarrow> nat \<Rightarrow> nat res" where
  "yy_chain 0 s c = Fuel"
| "yy_chain (Suc n) s c =
     (if yy_chk ! (yy_base ! s + c) \<noteq> s
      then let s = yy_def ! s; c = (if 103 \<le> s then yy_meta ! c else c) in yy_chain n s c
      else Ret (yy_nxt ! (yy_base ! s + c)))"

definition yy_next :: "nat \<Rightarrow> nat \<Rightarrow> nat res" where "yy_next s c = yy_chain 3 s c"

end
