(* ===== verification/Lex.thy ===== *)
theory Lex
  imports Parser LexTables CString
begin

text \<open>
  The scanner of the rules language, \<open>yylex\<close> in \<open>src/lex.c\<close>, with the buffer of \<open>flex\<close>: the text is read in
  pieces, a token may lie across two of them, and a NUL in the text looks like the end of the buffer. Positions
  in the buffer are indices; a cell that was never written is \<open>None\<close>, and reading it is undefined behaviour.
\<close>

section \<open>Decimal numbers\<close>

text \<open>
  \<open>atof\<close> in the C locale, as the program never calls \<open>setlocale\<close>: blanks, a sign, digits with an optional
  point, and an optional exponent; zero without a digit. The result is the nearest double. The other forms of
  \<open>strtod\<close> (hexadecimal, \<open>inf\<close> and \<open>nan\<close>) are not texts of the pattern \<open>NUMBER\<close>.
\<close>

definition decimal :: "bool \<Rightarrow> nat \<Rightarrow> int \<Rightarrow> f64" where
  "decimal neg m e =
     (if 0 \<le> e then f64_round neg (int m * 10 ^ nat e) 1 0
      else let d = 10 ^ nat (- e); k = f64_bitlen d in f64_round neg (int m * pow2 k) d (- k))"

definition split_sign :: "string \<Rightarrow> bool \<times> string" where
  "split_sign s = (case s of [] \<Rightarrow> (False, []) | c # t \<Rightarrow>
     if c = CHR ''-'' then (True, t) else if c = CHR ''+'' then (False, t) else (False, s))"

definition atof_exponent :: "string \<Rightarrow> int" where
  "atof_exponent s = (case s of [] \<Rightarrow> 0 | c # t \<Rightarrow>
     if c = CHR ''e'' \<or> c = CHR ''E'' then
       let (neg, u) = split_sign t; n = int (nat_of_digits (takeWhile is_digit u)) in if neg then - n else n
     else 0)"

definition atof :: "string \<Rightarrow> f64" where
  "atof s =
     (let (neg, u) = split_sign (dropWhile is_space s);
          whole = takeWhile is_digit u;
          rest = dropWhile is_digit u;
          (frac, rest) = (case rest of [] \<Rightarrow> ([], []) | c # t \<Rightarrow>
            if c = CHR ''.'' then (takeWhile is_digit t, dropWhile is_digit t) else ([], rest))
      in if whole @ frac = [] then f64_zero
         else decimal neg (nat_of_digits (whole @ frac)) (atof_exponent rest - int (length frac)))"

section \<open>The buffer\<close>

datatype buffer_status = YY_BUFFER_NEW | YY_BUFFER_NORMAL | YY_BUFFER_EOF_PENDING

text \<open>
  The globals of the scanner with the fields of the current buffer, of which the program has one;
  \<open>yyb_n_chars\<close> is the buffer's own \<open>yy_n_chars\<close>. \<open>yyin\<close> is what the file still holds,
  \<open>yyin_tty\<close> what \<open>isatty\<close> says of it.
\<close>

record scanner =
  yy_ch_buf :: "char option list"
  yy_buf_size :: nat
  yyb_n_chars :: nat
  yy_is_interactive :: bool
  yy_fill_buffer :: bool
  yy_buffer_status :: buffer_status
  yy_n_chars :: nat
  yy_c_buf_p :: nat
  yytext_ptr :: nat
  yy_hold_char :: char
  yy_last_accepting_state :: nat
  yy_last_accepting_cpos :: nat
  yylineno :: int
  yyin :: string
  yyin_tty :: bool

definition NUL :: char where "NUL = CHR 0x00"
definition NEWLINE :: char where "NEWLINE = CHR 0x0A"

definition cell :: "char option list \<Rightarrow> nat \<Rightarrow> char res" where
  "cell b i = (if i < length b then deref (b ! i) else Ub)"

definition set_cell :: "char option list \<Rightarrow> nat \<Rightarrow> char \<Rightarrow> char option list res" where
  "set_cell b i c = (if i < length b then Ret (b[i := Some c]) else Ub)"

text \<open>\<open>yytext\<close> as the string that C functions read from it.\<close>

fun c_string :: "char option list \<Rightarrow> string res" where
  "c_string [] = Ub"
| "c_string (None # b) = Ub"
| "c_string (Some c # b) = (if c = NUL then Ret [] else rbind (c_string b) (\<lambda>s. Ret (c # s)))"

definition yytext :: "scanner \<Rightarrow> string res" where
  "yytext S = c_string (drop (yytext_ptr S) (yy_ch_buf S))"

definition yy_load_buffer_state :: "scanner \<Rightarrow> scanner res" where
  "yy_load_buffer_state S =
     rbind (cell (yy_ch_buf S) 0) (\<lambda>c.
       Ret (S\<lparr>yy_n_chars := yyb_n_chars S, yytext_ptr := 0, yy_c_buf_p := 0, yy_hold_char := c\<rparr>))"

definition yy_flush_buffer :: "scanner \<Rightarrow> scanner res" where
  "yy_flush_buffer S =
     rbind (set_cell (yy_ch_buf S) 0 NUL) (\<lambda>b.
     rbind (set_cell b 1 NUL) (\<lambda>b.
       Ret (S\<lparr>yyb_n_chars := 0, yy_ch_buf := b, yy_buffer_status := YY_BUFFER_NEW\<rparr>)))"

definition yy_init_buffer :: "scanner \<Rightarrow> scanner res" where
  "yy_init_buffer S =
     rbind (yy_flush_buffer S) (\<lambda>S. Ret (S\<lparr>yy_fill_buffer := True, yy_is_interactive := yyin_tty S\<rparr>))"

definition yyrestart :: "scanner \<Rightarrow> scanner res" where
  "yyrestart S = rbind (yy_init_buffer S) yy_load_buffer_state"

definition YY_BUF_SIZE :: nat where "YY_BUF_SIZE = 16384"
definition YY_READ_BUF_SIZE :: nat where "YY_READ_BUF_SIZE = 8192"

definition yy_create_buffer :: "nat \<Rightarrow> bool \<Rightarrow> string \<Rightarrow> scanner res" where
  "yy_create_buffer n tty file =
     yy_init_buffer \<lparr>yy_ch_buf = replicate (n + 2) None, yy_buf_size = n, yyb_n_chars = 0,
       yy_is_interactive = False, yy_fill_buffer = False, yy_buffer_status = YY_BUFFER_NEW, yy_n_chars = 0,
       yy_c_buf_p = 0, yytext_ptr = 0, yy_hold_char = NUL, yy_last_accepting_state = 0,
       yy_last_accepting_cpos = 0, yylineno = 1, yyin = file, yyin_tty = tty\<rparr>"

text \<open>The scanner as the first call of \<open>yylex\<close> finds it, with \<open>yyin\<close> set.\<close>

definition yylex_init :: "bool \<Rightarrow> string \<Rightarrow> scanner res" where
  "yylex_init tty file = rbind (yy_create_buffer YY_BUF_SIZE tty file) yy_load_buffer_state"


section \<open>Filling the buffer\<close>

datatype eob_act = EOB_ACT_CONTINUE_SCAN | EOB_ACT_END_OF_FILE | EOB_ACT_LAST_MATCH

fun move_chars :: "nat \<Rightarrow> nat \<Rightarrow> nat \<Rightarrow> char option list \<Rightarrow> char option list res" where
  "move_chars 0 dest source b = Ret b"
| "move_chars (Suc n) dest source b =
     rbind (cell b source) (\<lambda>c. rbind (set_cell b dest c) (move_chars n (dest + 1) (source + 1)))"

definition realloc :: "char option list \<Rightarrow> nat \<Rightarrow> char option list" where
  "realloc b n = take n b @ replicate (n - length b) None"

text \<open>
  The loop that doubles the buffer until there is room for one more character. The size is an \<open>int\<close>; to
  double it beyond its range is undefined behaviour.
\<close>

function yy_grow :: "nat \<Rightarrow> scanner \<Rightarrow> scanner res" where
  "yy_grow k S =
     (if yy_buf_size S \<le> k + 1 then
        if yy_buf_size S = 0 then Fuel
        else if 2 ^ 31 \<le> 2 * yy_buf_size S then Ub
        else let n = 2 * yy_buf_size S
             in yy_grow k (S\<lparr>yy_buf_size := n, yy_ch_buf := realloc (yy_ch_buf S) (n + 2)\<rparr>)
      else Ret S)"
  by auto

termination by (relation "measure (\<lambda>(k, S). k + 2 - yy_buf_size S)") auto

declare yy_grow.simps [simp del]

text \<open>\<open>YY_INPUT\<close>: a line of a terminal, or as much of the file as there is room for.\<close>

definition read_line :: "nat \<Rightarrow> string \<Rightarrow> string" where
  "read_line max_size file =
     (let l = takeWhile (\<lambda>c. c \<noteq> NEWLINE) file
      in if max_size \<le> length l then take max_size l
         else if length l < length file then l @ [NEWLINE] else l)"

definition yy_input :: "nat \<Rightarrow> scanner \<Rightarrow> string" where
  "yy_input max_size S = (if yy_is_interactive S then read_line max_size (yyin S) else take max_size (yyin S))"

definition write_chars :: "nat \<Rightarrow> string \<Rightarrow> char option list \<Rightarrow> char option list res" where
  "write_chars i s b =
     (if i + length s \<le> length b then Ret (take i b @ map Some s @ drop (i + length s) b) else Ub)"

definition yy_read_more :: "nat \<Rightarrow> scanner \<Rightarrow> scanner res" where
  "yy_read_more k S =
     rbind (yy_grow k S) (\<lambda>S.
       let s = yy_input (min (yy_buf_size S - k - 1) YY_READ_BUF_SIZE) S
       in rbind (write_chars k s (yy_ch_buf S)) (\<lambda>b.
            Ret (S\<lparr>yy_ch_buf := b, yy_n_chars := length s, yyb_n_chars := length s,
                   yyin := drop (length s) (yyin S)\<rparr>)))"

text \<open>What \<open>yy_get_next_buffer\<close> does at the end: room for the text, and the two characters behind it.\<close>

definition yy_mark_end :: "nat \<Rightarrow> scanner \<Rightarrow> scanner res" where
  "yy_mark_end k S =
     (let n = yy_n_chars S + k;
          S = (if yy_buf_size S < n
               then let new_size = n + yy_n_chars S div 2
                    in S\<lparr>yy_ch_buf := realloc (yy_ch_buf S) new_size, yy_buf_size := new_size - 2\<rparr>
               else S)
      in rbind (set_cell (yy_ch_buf S) n NUL) (\<lambda>b.
         rbind (set_cell b (n + 1) NUL) (\<lambda>b.
           Ret (S\<lparr>yy_n_chars := n, yy_ch_buf := b, yytext_ptr := 0\<rparr>))))"

definition yy_get_next_buffer :: "scanner \<Rightarrow> (eob_act \<times> scanner) res" where
  "yy_get_next_buffer S =
     (if yy_n_chars S + 1 < yy_c_buf_p S then Abort
      else if \<not> yy_fill_buffer S then
        Ret (if yy_c_buf_p S - yytext_ptr S = 1 then EOB_ACT_END_OF_FILE else EOB_ACT_LAST_MATCH, S)
      else let k = yy_c_buf_p S - yytext_ptr S - 1 in
        rbind (move_chars k 0 (yytext_ptr S) (yy_ch_buf S)) (\<lambda>b.
        rbind (let S = S\<lparr>yy_ch_buf := b\<rparr>
               in if yy_buffer_status S = YY_BUFFER_EOF_PENDING
                  then Ret (S\<lparr>yyb_n_chars := 0, yy_n_chars := 0\<rparr>) else yy_read_more k S) (\<lambda>S.
        rbind (if yy_n_chars S = 0 then
                 if k = 0 then rbind (yyrestart S) (\<lambda>S. Ret (EOB_ACT_END_OF_FILE, S))
                 else Ret (EOB_ACT_LAST_MATCH, S\<lparr>yy_buffer_status := YY_BUFFER_EOF_PENDING\<rparr>)
               else Ret (EOB_ACT_CONTINUE_SCAN, S)) (\<lambda>(r, S).
        rbind (yy_mark_end k S) (\<lambda>S. Ret (r, S))))))"

section \<open>The automaton\<close>

definition yy_class :: "char \<Rightarrow> nat" where "yy_class c = yy_ec ! of_char c"

definition yy_accepting :: "nat \<Rightarrow> nat \<Rightarrow> scanner \<Rightarrow> scanner" where
  "yy_accepting s cp S =
     (if yy_accept ! s \<noteq> 0 then S\<lparr>yy_last_accepting_state := s, yy_last_accepting_cpos := cp\<rparr> else S)"

text \<open>The loop of \<open>yy_get_previous_state\<close>, over the \<open>n\<close> characters from \<open>cp\<close> on.\<close>

fun yy_rerun :: "nat \<Rightarrow> nat \<Rightarrow> nat \<Rightarrow> scanner \<Rightarrow> (nat \<times> scanner) res" where
  "yy_rerun 0 cp s S = Ret (s, S)"
| "yy_rerun (Suc n) cp s S =
     rbind (cell (yy_ch_buf S) cp) (\<lambda>c.
     rbind (yy_next s (if c \<noteq> NUL then yy_class c else 1)) (\<lambda>s'.
       yy_rerun n (cp + 1) s' (yy_accepting s cp S)))"

definition yy_get_previous_state :: "scanner \<Rightarrow> (nat \<times> scanner) res" where
  "yy_get_previous_state S = yy_rerun (yy_c_buf_p S - yytext_ptr S) (yytext_ptr S) 1 S"

definition yy_try_NUL_trans :: "nat \<Rightarrow> scanner \<Rightarrow> (nat \<times> scanner) res" where
  "yy_try_NUL_trans s S =
     rbind (yy_next s 1) (\<lambda>s'. Ret (if s' = 102 then 0 else s', yy_accepting s (yy_c_buf_p S) S))"

text \<open>The loop of \<open>yy_match\<close>; it gives the last state and the position behind the character that led there.\<close>

function yy_match :: "nat \<Rightarrow> nat \<Rightarrow> scanner \<Rightarrow> (nat \<times> nat \<times> scanner) res" where
  "yy_match s cp S =
     (if cp < length (yy_ch_buf S) then
        rbind (deref (yy_ch_buf S ! cp)) (\<lambda>c.
        rbind (yy_next s (yy_class c)) (\<lambda>s'.
          let S = yy_accepting s cp S
          in if yy_base ! s' \<noteq> 171 then yy_match s' (cp + 1) S else Ret (s', cp + 1, S)))
      else Ub)"
  by auto

termination
  by (relation "measure (\<lambda>(s, cp, S). length (yy_ch_buf S) - cp)") (auto simp: yy_accepting_def split: if_splits)

declare yy_match.simps [simp del]

section \<open>The rules\<close>

text \<open>
  The actions of \<open>src/lex.l\<close> that return a token: its code and \<open>yylval\<close>. The text of the token is between
  \<open>yytext_ptr\<close> and the NUL that \<open>YY_DO_BEFORE_ACTION\<close> has set.
\<close>

definition lex_token :: "nat \<Rightarrow> int" where
  "lex_token act =
     [0, T_EQ, T_NE, T_LT, T_LE, T_GT, T_GE, T_AND, T_OR, 123, 125, 40, 41, 44, 61, 59, 43, 45, 42, 47,
      T_KEY_VAR, T_KEY_SET, T_KEY_WHEN, T_KEY_TRIGGER, T_KEY_FLAG, T_FLAG_NAME, T_FLAG_NAME, T_FLAG_NAME,
      T_FLAG_NAME, T_FLAG_NAME, T_FLAG_NAME, VALUE, VALUE, VALUE, IDENTIFIER] ! act"

definition lex_value :: "nat \<Rightarrow> string \<Rightarrow> yystype \<Rightarrow> yystype" where
  "lex_value act text v =
     (if act = 25 then YyUval ST_IO_FLAG_USR1
      else if act = 26 then YyUval ST_IO_FLAG_USR2
      else if act = 27 then YyUval ST_IO_FLAG_USR3
      else if act = 28 then YyUval ST_IO_FLAG_USR4
      else if act = 29 then YyUval ST_IO_FLAG_MANUAL_OVERRIDE
      else if act = 30 then YyUval ST_IO_FLAG_NO_HISTORY
      else if act = 31 then YyDval f64_one
      else if act = 32 then YyDval f64_zero
      else if act = 33 then YyDval (atof text)
      else if act = 34 then YySval text
      else v)"

section \<open>One call\<close>

text \<open>
  The labels of \<open>yylex\<close>: the start of a token, \<open>yy_match\<close> and \<open>yy_find_action\<close> with the state, \<open>yy_cp\<close> and
  \<open>yy_bp\<close>, and the return.
\<close>

datatype yy_goto = YyToken | YyMatch nat nat nat | YyFind nat nat nat | YyReturn int yystype

definition yy_do_before_action :: "nat \<Rightarrow> nat \<Rightarrow> scanner \<Rightarrow> scanner res" where
  "yy_do_before_action bp cp S =
     rbind (cell (yy_ch_buf S) cp) (\<lambda>c.
     rbind (set_cell (yy_ch_buf S) cp NUL) (\<lambda>b.
       Ret (S\<lparr>yytext_ptr := bp, yy_hold_char := c, yy_ch_buf := b, yy_c_buf_p := cp\<rparr>)))"

text \<open>
  The case \<open>YY_END_OF_BUFFER\<close>: a NUL of the text, or the end of the buffer. \<open>yywrap\<close> always answers 1.
\<close>

definition yy_real_nul :: "nat \<Rightarrow> scanner \<Rightarrow> (yy_goto \<times> scanner) res" where
  "yy_real_nul amount S =
     (let S = S\<lparr>yy_c_buf_p := yytext_ptr S + amount\<rparr> in
      rbind (yy_get_previous_state S) (\<lambda>(s, S).
      rbind (yy_try_NUL_trans s S) (\<lambda>(s', S).
        if s' \<noteq> 0 then
          let cp = yy_c_buf_p S + 1 in Ret (YyMatch s' cp (yytext_ptr S), S\<lparr>yy_c_buf_p := cp\<rparr>)
        else Ret (YyFind s (yy_c_buf_p S) (yytext_ptr S), S))))"

definition yy_refilled :: "nat \<Rightarrow> yystype \<Rightarrow> eob_act \<Rightarrow> scanner \<Rightarrow> (yy_goto \<times> scanner) res" where
  "yy_refilled amount v r S = (case r of
     EOB_ACT_END_OF_FILE \<Rightarrow> Ret (YyReturn 0 v, S\<lparr>yy_c_buf_p := yytext_ptr S\<rparr>)
   | EOB_ACT_CONTINUE_SCAN \<Rightarrow>
       rbind (yy_get_previous_state (S\<lparr>yy_c_buf_p := yytext_ptr S + amount\<rparr>)) (\<lambda>(s, S).
         Ret (YyMatch s (yy_c_buf_p S) (yytext_ptr S), S))
   | EOB_ACT_LAST_MATCH \<Rightarrow>
       rbind (yy_get_previous_state (S\<lparr>yy_c_buf_p := yy_n_chars S\<rparr>)) (\<lambda>(s, S).
         Ret (YyFind s (yy_c_buf_p S) (yytext_ptr S), S)))"

definition yy_end_of_buffer :: "nat \<Rightarrow> yystype \<Rightarrow> scanner \<Rightarrow> (yy_goto \<times> scanner) res" where
  "yy_end_of_buffer cp v S =
     (let amount = cp - yytext_ptr S - 1 in
      rbind (set_cell (yy_ch_buf S) cp (yy_hold_char S)) (\<lambda>b.
      let S = S\<lparr>yy_ch_buf := b\<rparr>;
          S = (if yy_buffer_status S = YY_BUFFER_NEW
               then S\<lparr>yy_n_chars := yyb_n_chars S, yy_buffer_status := YY_BUFFER_NORMAL\<rparr> else S)
      in if yy_c_buf_p S \<le> yy_n_chars S then yy_real_nul amount S
         else rbind (yy_get_next_buffer S) (\<lambda>(r, S). yy_refilled amount v r S)))"

text \<open>
  The switch. Case 0 goes back to \<open>yy_find_action\<close>, which has just tried the last accepting state: it would not
  end. Rule 38 calls \<open>yyerror\<close> with one argument, where \<open>src/rules.y\<close> defines it with two. Rule 39 echoes the text, which is not
  modelled; no state accepts it.
\<close>

definition yy_do_action :: "nat \<Rightarrow> nat \<Rightarrow> yystype \<Rightarrow> scanner \<Rightarrow> (yy_goto \<times> scanner) res" where
  "yy_do_action act cp v S =
     (if act = 0 then Fuel
      else if act = 33 \<or> act = 34 then
        rbind (yytext S) (\<lambda>text. Ret (YyReturn (lex_token act) (lex_value act text v), S))
      else if act \<le> 32 then Ret (YyReturn (lex_token act) (lex_value act [] v), S)
      else if act = 35 then Ret (YyToken, S)
      else if act = 36 \<or> act = 37 then Ret (YyToken, S\<lparr>yylineno := yylineno S + 1\<rparr>)
      else if act = 38 then Ub
      else if act = 39 then Ret (YyToken, S)
      else if act = 40 then yy_end_of_buffer cp v S
      else Abort)"

definition yy_find_action :: "nat \<Rightarrow> nat \<Rightarrow> nat \<Rightarrow> yystype \<Rightarrow> scanner \<Rightarrow> (yy_goto \<times> scanner) res" where
  "yy_find_action s cp bp v S =
     (let (s, cp) = (if yy_accept ! s = 0 then (yy_last_accepting_state S, yy_last_accepting_cpos S) else (s, cp))
      in rbind (yy_do_before_action bp cp S) (yy_do_action (yy_accept ! s) cp v))"

definition yylex_step :: "yystype \<Rightarrow> yy_goto \<Rightarrow> scanner \<Rightarrow> (yy_goto \<times> scanner) res" where
  "yylex_step v L S = (case L of
     YyToken \<Rightarrow>
       let cp = yy_c_buf_p S in
       rbind (set_cell (yy_ch_buf S) cp (yy_hold_char S)) (\<lambda>b. Ret (YyMatch 1 cp cp, S\<lparr>yy_ch_buf := b\<rparr>))
   | YyMatch s cp bp \<Rightarrow> rbind (yy_match s cp S) (\<lambda>(s, cp, S). Ret (YyFind s cp bp, S))
   | YyFind s cp bp \<Rightarrow> yy_find_action s cp bp v S
   | YyReturn c w \<Rightarrow> Ret (L, S))"

text \<open>The gotos, with a bound on their number.\<close>

fun yylex_loop :: "nat \<Rightarrow> yystype \<Rightarrow> yy_goto \<Rightarrow> scanner \<Rightarrow> (int \<times> yystype \<times> scanner) res" where
  "yylex_loop 0 v L S = Fuel"
| "yylex_loop (Suc n) v L S =
     rbind (yylex_step v L S) (\<lambda>(L, S). case L of YyReturn c w \<Rightarrow> Ret (c, w, S) | _ \<Rightarrow> yylex_loop n v L S)"

definition yylex :: "nat \<Rightarrow> scanner lexer" where "yylex n S v = yylex_loop n v YyToken S"

end
