(* ===== verification/LexRegex.thy ===== *)
theory LexRegex
  imports Lex
begin

text \<open>
  The patterns of \<open>src/lex.l\<close> as regular expressions with the strings they match, and their partial derivatives.
  This is the specification that the tables of \<open>src/lex.c\<close> are checked against.
\<close>

section \<open>Regular expressions\<close>

text \<open>The sets of characters of the patterns.\<close>

datatype cset = Lit char | Letter | Word | Digit | Sign | ExpSign | Blank | NotNewline

fun in_cset :: "char \<Rightarrow> cset \<Rightarrow> bool" where
  "in_cset c (Lit d) = (c = d)"
| "in_cset c Letter = (let n = of_char c :: nat in 65 \<le> n \<and> n \<le> 90 \<or> 97 \<le> n \<and> n \<le> 122)"
| "in_cset c Word = (let n = of_char c :: nat
     in 65 \<le> n \<and> n \<le> 90 \<or> 97 \<le> n \<and> n \<le> 122 \<or> 48 \<le> n \<and> n \<le> 57 \<or> n = 95 \<or> n = 58)"
| "in_cset c Digit = (let n = of_char c :: nat in 48 \<le> n \<and> n \<le> 57)"
| "in_cset c Sign = (c = CHR ''-'' \<or> c = CHR ''+'')"
| "in_cset c ExpSign = (c = CHR ''e'' \<or> c = CHR ''E'')"
| "in_cset c Blank = (c = CHR '' '' \<or> c = CHR 0x09)"
| "in_cset c NotNewline = (c \<noteq> CHR 0x0A)"

datatype rexp = One | Chars cset | Seq rexp rexp | Alt rexp rexp | Star rexp

inductive rmatch :: "rexp \<Rightarrow> string \<Rightarrow> bool" where
  rm_one: "rmatch One []"
| rm_chars: "in_cset c s \<Longrightarrow> rmatch (Chars s) [c]"
| rm_seq: "rmatch r u \<Longrightarrow> rmatch s v \<Longrightarrow> rmatch (Seq r s) (u @ v)"
| rm_alt1: "rmatch r u \<Longrightarrow> rmatch (Alt r s) u"
| rm_alt2: "rmatch s u \<Longrightarrow> rmatch (Alt r s) u"
| rm_star0: "rmatch (Star r) []"
| rm_star1: "rmatch r u \<Longrightarrow> rmatch (Star r) v \<Longrightarrow> rmatch (Star r) (u @ v)"

inductive_simps rmatch_simps: "rmatch One w" "rmatch (Chars s) w" "rmatch (Seq r s) w" "rmatch (Alt r s) w"

definition Plus :: "rexp \<Rightarrow> rexp" where "Plus r = Seq r (Star r)"
definition Opt :: "rexp \<Rightarrow> rexp" where "Opt r = Alt r One"

fun lit :: "string \<Rightarrow> rexp" where
  "lit [] = One"
| "lit [c] = Chars (Lit c)"
| "lit (c # w) = Seq (Chars (Lit c)) (lit w)"

section \<open>Derivatives\<close>

fun nullable :: "rexp \<Rightarrow> bool" where
  "nullable One = True"
| "nullable (Chars s) = False"
| "nullable (Seq r s) = (nullable r \<and> nullable s)"
| "nullable (Alt r s) = (nullable r \<or> nullable s)"
| "nullable (Star r) = True"

definition seq :: "rexp \<Rightarrow> rexp \<Rightarrow> rexp" where "seq r s = (if r = One then s else Seq r s)"

text \<open>What may follow the character \<open>c\<close> in a match.\<close>

fun after :: "char \<Rightarrow> rexp \<Rightarrow> rexp list" where
  "after c One = []"
| "after c (Chars s) = (if in_cset c s then [One] else [])"
| "after c (Seq r s) = map (\<lambda>r'. seq r' s) (after c r) @ (if nullable r then after c s else [])"
| "after c (Alt r s) = after c r @ after c s"
| "after c (Star r) = map (\<lambda>r'. seq r' (Star r)) (after c r)"

lemma rmatch_Nil: "rmatch r [] \<longleftrightarrow> nullable r"
  by (induction r) (auto simp: rmatch_simps intro: rm_star0)

lemma rmatch_seq: "rmatch (seq r s) w \<longleftrightarrow> (\<exists>u v. w = u @ v \<and> rmatch r u \<and> rmatch s v)"
  by (auto simp: seq_def rmatch_simps)

lemma rmatch_Star_Cons:
  "rmatch (Star r) (c # w) \<longleftrightarrow> (\<exists>u v. w = u @ v \<and> rmatch r (c # u) \<and> rmatch (Star r) v)"
proof
  show "rmatch (Star r) (c # w) \<Longrightarrow> \<exists>u v. w = u @ v \<and> rmatch r (c # u) \<and> rmatch (Star r) v"
  proof (induction "Star r" "c # w" arbitrary: w rule: rmatch.induct)
    case (rm_star1 u v)
    then show ?case by (cases u) auto
  qed
qed (auto dest: rmatch.rm_star1)

lemma rmatch_Seq_Cons:
  "rmatch (Seq r s) (c # w) \<longleftrightarrow>
    (\<exists>u v. w = u @ v \<and> rmatch r (c # u) \<and> rmatch s v) \<or> nullable r \<and> rmatch s (c # w)"
proof
  assume "rmatch (Seq r s) (c # w)"
  then obtain u v where "c # w = u @ v" "rmatch r u" "rmatch s v" by (auto simp: rmatch_simps)
  then show "(\<exists>u v. w = u @ v \<and> rmatch r (c # u) \<and> rmatch s v) \<or> nullable r \<and> rmatch s (c # w)"
    by (cases u) (auto simp: rmatch_Nil)
next
  assume "(\<exists>u v. w = u @ v \<and> rmatch r (c # u) \<and> rmatch s v) \<or> nullable r \<and> rmatch s (c # w)"
  then show "rmatch (Seq r s) (c # w)"
    using rm_seq [of r "c # _"] rm_seq [of r "[]"] by (auto simp: rmatch_Nil)
qed

lemma rmatch_Cons: "rmatch r (c # w) \<longleftrightarrow> (\<exists>r'\<in>set (after c r). rmatch r' w)"
proof (induction r arbitrary: w)
  case (Seq r s)
  have "(\<exists>r'\<in>set (after c (Seq r s)). rmatch r' w) \<longleftrightarrow>
      (\<exists>r'\<in>set (after c r). \<exists>u v. w = u @ v \<and> rmatch r' u \<and> rmatch s v) \<or>
      nullable r \<and> (\<exists>r'\<in>set (after c s). rmatch r' w)"
    by (auto simp: bex_Un rmatch_seq)
  then show ?case unfolding rmatch_Seq_Cons Seq by blast
next
  case (Star r)
  have "(\<exists>r'\<in>set (after c (Star r)). rmatch r' w) \<longleftrightarrow>
      (\<exists>r'\<in>set (after c r). \<exists>u v. w = u @ v \<and> rmatch r' u \<and> rmatch (Star r) v)"
    by (simp add: rmatch_seq)
  then show ?case unfolding rmatch_Star_Cons Star by blast
qed (auto simp: rmatch_simps)

section \<open>Sets of rules\<close>

text \<open>Numbered expressions: which rules match a text, and what is left of them after a character.\<close>

definition rules_match :: "(nat \<times> rexp) list \<Rightarrow> nat \<Rightarrow> string \<Rightarrow> bool" where
  "rules_match rs a w = (\<exists>r. (a, r) \<in> set rs \<and> rmatch r w)"

definition rules_after :: "char \<Rightarrow> (nat \<times> rexp) list \<Rightarrow> (nat \<times> rexp) list" where
  "rules_after c rs = concat (map (\<lambda>(a, r). map (Pair a) (after c r)) rs)"

lemma rules_match_Cons: "rules_match rs a (c # w) \<longleftrightarrow> rules_match (rules_after c rs) a w"
  by (force simp: rules_match_def rules_after_def rmatch_Cons)

lemma rules_match_cong: "set rs = set rs' \<Longrightarrow> rules_match rs = rules_match rs'"
  by (auto simp: rules_match_def fun_eq_iff)

lemma rules_match_Nil: "rules_match rs a [] \<longleftrightarrow> a \<in> fst ` set (filter (\<lambda>(a, r). nullable r) rs)"
  by (force simp: rules_match_def rmatch_Nil)

text \<open>The first rule that matches the empty text, zero for none.\<close>

fun first_nullable :: "(nat \<times> rexp) list \<Rightarrow> nat" where
  "first_nullable [] = 0"
| "first_nullable ((a, r) # rs) =
     (let b = first_nullable rs in if nullable r \<and> (b = 0 \<or> a < b) then a else b)"

lemma first_nullable:
  assumes "\<forall>(a, r)\<in>set rs. 0 < a"
  shows "if first_nullable rs = 0 then \<forall>a. \<not> rules_match rs a []
    else rules_match rs (first_nullable rs) [] \<and> (\<forall>a. rules_match rs a [] \<longrightarrow> first_nullable rs \<le> a)"
  using assms
proof (induction rs)
  case (Cons x rs)
  then show ?case
    by (cases x) (auto simp: rules_match_def rmatch_Nil Let_def split: if_splits)
qed (simp add: rules_match_def)

section \<open>The patterns of the language\<close>

definition number_exponent :: rexp where
  "number_exponent = Opt (Seq (Chars ExpSign) (Seq (Opt (Chars Sign)) (Plus (Chars Digit))))"

definition NUMBER_pattern :: rexp where
  "NUMBER_pattern =
     Seq (Opt (Chars Sign))
       (Seq (Star (Chars Digit))
         (Seq (Opt (Chars (Lit (CHR ''.'')))) (Seq (Plus (Chars Digit)) number_exponent)))"

definition IDENTIFIER_pattern :: rexp where
  "IDENTIFIER_pattern = Seq (Chars Letter) (Star (Chars Word))"

definition comment_pattern :: rexp where
  "comment_pattern = Seq (Chars (Lit (CHR ''#''))) (Seq (Star (Chars NotNewline)) (Chars (Lit (CHR 0x0A))))"

text \<open>The rules, in the order of the file, which is that of their numbers.\<close>

definition lex_literals :: "string list" where
  "lex_literals = [''=='', ''!='', ''<'', ''<='', ''>'', ''>='', ''&&'', ''||'', ''{'', ''}'', ''('', '')'', '','', ''='',
     '';'', ''+'', ''-'', ''*'', ''/'', ''VAR'', ''SET'', ''WHEN'', ''TRIGGER'', ''FLAG'', ''USR1'', ''USR2'', ''USR3'', ''USR4'',
     ''MANUAL_OVERRIDE'', ''NO_HISTORY'', ''TRUE'', ''FALSE'']"

definition lex_rules :: "(nat \<times> rexp) list" where
  "lex_rules = zip [1..<33] (map lit lex_literals) @
     [(33, NUMBER_pattern), (34, IDENTIFIER_pattern), (35, Plus (Chars Blank)), (36, comment_pattern),
      (37, Chars (Lit (CHR 0x0A))), (38, Chars NotNewline)]"

end
