(* ===== verification/LexFacts.thy ===== *)
theory LexFacts
  imports LexRegex
begin

text \<open>
  The entries of the tables of the scanner as rewrite rules, and a certificate that holds for every state the
  patterns that are left in it. It is checked against the tables, so that the automaton is the one of the patterns
  of \<open>src/lex.l\<close>.
\<close>

section \<open>Entries\<close>

lemma yy_accept_nth:
  "yy_accept ! 0 = 0" "yy_accept ! (Suc 0) = 0" "yy_accept ! 2 = 0" "yy_accept ! 3 = 40" "yy_accept ! 4 = 38"
  "yy_accept ! 5 = 35" "yy_accept ! 6 = 37" "yy_accept ! 7 = 38" "yy_accept ! 8 = 38" "yy_accept ! 9 = 38"
  "yy_accept ! 10 = 11" "yy_accept ! 11 = 12" "yy_accept ! 12 = 18" "yy_accept ! 13 = 16" "yy_accept ! 14 = 13"
  "yy_accept ! 15 = 17" "yy_accept ! 16 = 38" "yy_accept ! 17 = 19" "yy_accept ! 18 = 33" "yy_accept ! 19 = 15"
  "yy_accept ! 20 = 3" "yy_accept ! 21 = 14" "yy_accept ! 22 = 5" "yy_accept ! 23 = 34" "yy_accept ! 24 = 34"
  "yy_accept ! 25 = 34" "yy_accept ! 26 = 34" "yy_accept ! 27 = 34" "yy_accept ! 28 = 34" "yy_accept ! 29 = 34"
  "yy_accept ! 30 = 34" "yy_accept ! 31 = 34" "yy_accept ! 32 = 9" "yy_accept ! 33 = 38" "yy_accept ! 34 = 10"
  "yy_accept ! 35 = 35" "yy_accept ! 36 = 2" "yy_accept ! 37 = 0" "yy_accept ! 38 = 36" "yy_accept ! 39 = 7"
  "yy_accept ! 40 = 0" "yy_accept ! 41 = 33" "yy_accept ! 42 = 33" "yy_accept ! 43 = 0" "yy_accept ! 44 = 4"
  "yy_accept ! 45 = Suc 0" "yy_accept ! 46 = 6" "yy_accept ! 47 = 34" "yy_accept ! 48 = 34"
  "yy_accept ! 49 = 34" "yy_accept ! 50 = 34" "yy_accept ! 51 = 34" "yy_accept ! 52 = 34" "yy_accept ! 53 = 34"
  "yy_accept ! 54 = 34" "yy_accept ! 55 = 34" "yy_accept ! 56 = 34" "yy_accept ! 57 = 8" "yy_accept ! 58 = 0"
  "yy_accept ! 59 = 33" "yy_accept ! 60 = 34" "yy_accept ! 61 = 34" "yy_accept ! 62 = 34" "yy_accept ! 63 = 34"
  "yy_accept ! 64 = 21" "yy_accept ! 65 = 34" "yy_accept ! 66 = 34" "yy_accept ! 67 = 34" "yy_accept ! 68 = 20"
  "yy_accept ! 69 = 34" "yy_accept ! 70 = 34" "yy_accept ! 71 = 24" "yy_accept ! 72 = 34" "yy_accept ! 73 = 34"
  "yy_accept ! 74 = 34" "yy_accept ! 75 = 31" "yy_accept ! 76 = 25" "yy_accept ! 77 = 26" "yy_accept ! 78 = 27"
  "yy_accept ! 79 = 28" "yy_accept ! 80 = 22" "yy_accept ! 81 = 32" "yy_accept ! 82 = 34" "yy_accept ! 83 = 34"
  "yy_accept ! 84 = 34" "yy_accept ! 85 = 34" "yy_accept ! 86 = 34" "yy_accept ! 87 = 34" "yy_accept ! 88 = 34"
  "yy_accept ! 89 = 34" "yy_accept ! 90 = 23" "yy_accept ! 91 = 34" "yy_accept ! 92 = 34" "yy_accept ! 93 = 34"
  "yy_accept ! 94 = 34" "yy_accept ! 95 = 34" "yy_accept ! 96 = 30" "yy_accept ! 97 = 34" "yy_accept ! 98 = 34"
  "yy_accept ! 99 = 34" "yy_accept ! 100 = 34" "yy_accept ! 101 = 29" "yy_accept ! 102 = 0"
  by (simp_all add: yy_accept_def)

lemma yy_ec_nth:
  "yy_ec ! 0 = 0" "yy_ec ! (Suc 0) = Suc 0" "yy_ec ! 2 = Suc 0" "yy_ec ! 3 = Suc 0" "yy_ec ! 4 = Suc 0"
  "yy_ec ! 5 = Suc 0" "yy_ec ! 6 = Suc 0" "yy_ec ! 7 = Suc 0" "yy_ec ! 8 = Suc 0" "yy_ec ! 9 = 2"
  "yy_ec ! 10 = 3" "yy_ec ! 11 = Suc 0" "yy_ec ! 12 = Suc 0" "yy_ec ! 13 = Suc 0" "yy_ec ! 14 = Suc 0"
  "yy_ec ! 15 = Suc 0" "yy_ec ! 16 = Suc 0" "yy_ec ! 17 = Suc 0" "yy_ec ! 18 = Suc 0" "yy_ec ! 19 = Suc 0"
  "yy_ec ! 20 = Suc 0" "yy_ec ! 21 = Suc 0" "yy_ec ! 22 = Suc 0" "yy_ec ! 23 = Suc 0" "yy_ec ! 24 = Suc 0"
  "yy_ec ! 25 = Suc 0" "yy_ec ! 26 = Suc 0" "yy_ec ! 27 = Suc 0" "yy_ec ! 28 = Suc 0" "yy_ec ! 29 = Suc 0"
  "yy_ec ! 30 = Suc 0" "yy_ec ! 31 = Suc 0" "yy_ec ! 32 = 2" "yy_ec ! 33 = 4" "yy_ec ! 34 = Suc 0"
  "yy_ec ! 35 = 5" "yy_ec ! 36 = Suc 0" "yy_ec ! 37 = Suc 0" "yy_ec ! 38 = 6" "yy_ec ! 39 = Suc 0"
  "yy_ec ! 40 = 7" "yy_ec ! 41 = 8" "yy_ec ! 42 = 9" "yy_ec ! 43 = 10" "yy_ec ! 44 = 11" "yy_ec ! 45 = 12"
  "yy_ec ! 46 = 13" "yy_ec ! 47 = 14" "yy_ec ! 48 = 15" "yy_ec ! 49 = 16" "yy_ec ! 50 = 17" "yy_ec ! 51 = 18"
  "yy_ec ! 52 = 19" "yy_ec ! 53 = 15" "yy_ec ! 54 = 15" "yy_ec ! 55 = 15" "yy_ec ! 56 = 15" "yy_ec ! 57 = 15"
  "yy_ec ! 58 = 20" "yy_ec ! 59 = 21" "yy_ec ! 60 = 22" "yy_ec ! 61 = 23" "yy_ec ! 62 = 24" "yy_ec ! 63 = Suc 0"
  "yy_ec ! 64 = Suc 0" "yy_ec ! 65 = 25" "yy_ec ! 66 = 26" "yy_ec ! 67 = 26" "yy_ec ! 68 = 27" "yy_ec ! 69 = 28"
  "yy_ec ! 70 = 29" "yy_ec ! 71 = 30" "yy_ec ! 72 = 31" "yy_ec ! 73 = 32" "yy_ec ! 74 = 26" "yy_ec ! 75 = 26"
  "yy_ec ! 76 = 33" "yy_ec ! 77 = 34" "yy_ec ! 78 = 35" "yy_ec ! 79 = 36" "yy_ec ! 80 = 26" "yy_ec ! 81 = 26"
  "yy_ec ! 82 = 37" "yy_ec ! 83 = 38" "yy_ec ! 84 = 39" "yy_ec ! 85 = 40" "yy_ec ! 86 = 41" "yy_ec ! 87 = 42"
  "yy_ec ! 88 = 26" "yy_ec ! 89 = 43" "yy_ec ! 90 = 26" "yy_ec ! 91 = Suc 0" "yy_ec ! 92 = Suc 0"
  "yy_ec ! 93 = Suc 0" "yy_ec ! 94 = Suc 0" "yy_ec ! 95 = 44" "yy_ec ! 96 = Suc 0" "yy_ec ! 97 = 26"
  "yy_ec ! 98 = 26" "yy_ec ! 99 = 26" "yy_ec ! 100 = 26" "yy_ec ! 101 = 45" "yy_ec ! 102 = 26"
  "yy_ec ! 103 = 26" "yy_ec ! 104 = 26" "yy_ec ! 105 = 26" "yy_ec ! 106 = 26" "yy_ec ! 107 = 26"
  "yy_ec ! 108 = 26" "yy_ec ! 109 = 26" "yy_ec ! 110 = 26" "yy_ec ! 111 = 26" "yy_ec ! 112 = 26"
  "yy_ec ! 113 = 26" "yy_ec ! 114 = 26" "yy_ec ! 115 = 26" "yy_ec ! 116 = 26" "yy_ec ! 117 = 26"
  "yy_ec ! 118 = 26" "yy_ec ! 119 = 26" "yy_ec ! 120 = 26" "yy_ec ! 121 = 26" "yy_ec ! 122 = 26"
  "yy_ec ! 123 = 46" "yy_ec ! 124 = 47" "yy_ec ! 125 = 48" "yy_ec ! 126 = Suc 0" "yy_ec ! 127 = Suc 0"
  "yy_ec ! 128 = Suc 0" "yy_ec ! 129 = Suc 0" "yy_ec ! 130 = Suc 0" "yy_ec ! 131 = Suc 0" "yy_ec ! 132 = Suc 0"
  "yy_ec ! 133 = Suc 0" "yy_ec ! 134 = Suc 0" "yy_ec ! 135 = Suc 0" "yy_ec ! 136 = Suc 0" "yy_ec ! 137 = Suc 0"
  "yy_ec ! 138 = Suc 0" "yy_ec ! 139 = Suc 0" "yy_ec ! 140 = Suc 0" "yy_ec ! 141 = Suc 0" "yy_ec ! 142 = Suc 0"
  "yy_ec ! 143 = Suc 0" "yy_ec ! 144 = Suc 0" "yy_ec ! 145 = Suc 0" "yy_ec ! 146 = Suc 0" "yy_ec ! 147 = Suc 0"
  "yy_ec ! 148 = Suc 0" "yy_ec ! 149 = Suc 0" "yy_ec ! 150 = Suc 0" "yy_ec ! 151 = Suc 0" "yy_ec ! 152 = Suc 0"
  "yy_ec ! 153 = Suc 0" "yy_ec ! 154 = Suc 0" "yy_ec ! 155 = Suc 0" "yy_ec ! 156 = Suc 0" "yy_ec ! 157 = Suc 0"
  "yy_ec ! 158 = Suc 0" "yy_ec ! 159 = Suc 0" "yy_ec ! 160 = Suc 0" "yy_ec ! 161 = Suc 0" "yy_ec ! 162 = Suc 0"
  "yy_ec ! 163 = Suc 0" "yy_ec ! 164 = Suc 0" "yy_ec ! 165 = Suc 0" "yy_ec ! 166 = Suc 0" "yy_ec ! 167 = Suc 0"
  "yy_ec ! 168 = Suc 0" "yy_ec ! 169 = Suc 0" "yy_ec ! 170 = Suc 0" "yy_ec ! 171 = Suc 0" "yy_ec ! 172 = Suc 0"
  "yy_ec ! 173 = Suc 0" "yy_ec ! 174 = Suc 0" "yy_ec ! 175 = Suc 0" "yy_ec ! 176 = Suc 0" "yy_ec ! 177 = Suc 0"
  "yy_ec ! 178 = Suc 0" "yy_ec ! 179 = Suc 0" "yy_ec ! 180 = Suc 0" "yy_ec ! 181 = Suc 0" "yy_ec ! 182 = Suc 0"
  "yy_ec ! 183 = Suc 0" "yy_ec ! 184 = Suc 0" "yy_ec ! 185 = Suc 0" "yy_ec ! 186 = Suc 0" "yy_ec ! 187 = Suc 0"
  "yy_ec ! 188 = Suc 0" "yy_ec ! 189 = Suc 0" "yy_ec ! 190 = Suc 0" "yy_ec ! 191 = Suc 0" "yy_ec ! 192 = Suc 0"
  "yy_ec ! 193 = Suc 0" "yy_ec ! 194 = Suc 0" "yy_ec ! 195 = Suc 0" "yy_ec ! 196 = Suc 0" "yy_ec ! 197 = Suc 0"
  "yy_ec ! 198 = Suc 0" "yy_ec ! 199 = Suc 0" "yy_ec ! 200 = Suc 0" "yy_ec ! 201 = Suc 0" "yy_ec ! 202 = Suc 0"
  "yy_ec ! 203 = Suc 0" "yy_ec ! 204 = Suc 0" "yy_ec ! 205 = Suc 0" "yy_ec ! 206 = Suc 0" "yy_ec ! 207 = Suc 0"
  "yy_ec ! 208 = Suc 0" "yy_ec ! 209 = Suc 0" "yy_ec ! 210 = Suc 0" "yy_ec ! 211 = Suc 0" "yy_ec ! 212 = Suc 0"
  "yy_ec ! 213 = Suc 0" "yy_ec ! 214 = Suc 0" "yy_ec ! 215 = Suc 0" "yy_ec ! 216 = Suc 0" "yy_ec ! 217 = Suc 0"
  "yy_ec ! 218 = Suc 0" "yy_ec ! 219 = Suc 0" "yy_ec ! 220 = Suc 0" "yy_ec ! 221 = Suc 0" "yy_ec ! 222 = Suc 0"
  "yy_ec ! 223 = Suc 0" "yy_ec ! 224 = Suc 0" "yy_ec ! 225 = Suc 0" "yy_ec ! 226 = Suc 0" "yy_ec ! 227 = Suc 0"
  "yy_ec ! 228 = Suc 0" "yy_ec ! 229 = Suc 0" "yy_ec ! 230 = Suc 0" "yy_ec ! 231 = Suc 0" "yy_ec ! 232 = Suc 0"
  "yy_ec ! 233 = Suc 0" "yy_ec ! 234 = Suc 0" "yy_ec ! 235 = Suc 0" "yy_ec ! 236 = Suc 0" "yy_ec ! 237 = Suc 0"
  "yy_ec ! 238 = Suc 0" "yy_ec ! 239 = Suc 0" "yy_ec ! 240 = Suc 0" "yy_ec ! 241 = Suc 0" "yy_ec ! 242 = Suc 0"
  "yy_ec ! 243 = Suc 0" "yy_ec ! 244 = Suc 0" "yy_ec ! 245 = Suc 0" "yy_ec ! 246 = Suc 0" "yy_ec ! 247 = Suc 0"
  "yy_ec ! 248 = Suc 0" "yy_ec ! 249 = Suc 0" "yy_ec ! 250 = Suc 0" "yy_ec ! 251 = Suc 0" "yy_ec ! 252 = Suc 0"
  "yy_ec ! 253 = Suc 0" "yy_ec ! 254 = Suc 0" "yy_ec ! 255 = Suc 0"
  by (simp_all add: yy_ec_def)

lemma yy_meta_nth:
  "yy_meta ! 0 = 0" "yy_meta ! (Suc 0) = Suc 0" "yy_meta ! 2 = Suc 0" "yy_meta ! 3 = Suc 0"
  "yy_meta ! 4 = Suc 0" "yy_meta ! 5 = Suc 0" "yy_meta ! 6 = Suc 0" "yy_meta ! 7 = Suc 0" "yy_meta ! 8 = Suc 0"
  "yy_meta ! 9 = Suc 0" "yy_meta ! 10 = Suc 0" "yy_meta ! 11 = Suc 0" "yy_meta ! 12 = Suc 0" "yy_meta ! 13 = 2"
  "yy_meta ! 14 = Suc 0" "yy_meta ! 15 = 3" "yy_meta ! 16 = 3" "yy_meta ! 17 = 3" "yy_meta ! 18 = 3"
  "yy_meta ! 19 = 3" "yy_meta ! 20 = 4" "yy_meta ! 21 = Suc 0" "yy_meta ! 22 = Suc 0" "yy_meta ! 23 = Suc 0"
  "yy_meta ! 24 = Suc 0" "yy_meta ! 25 = 4" "yy_meta ! 26 = 4" "yy_meta ! 27 = 4" "yy_meta ! 28 = 3"
  "yy_meta ! 29 = 4" "yy_meta ! 30 = 4" "yy_meta ! 31 = 4" "yy_meta ! 32 = 4" "yy_meta ! 33 = 4"
  "yy_meta ! 34 = 4" "yy_meta ! 35 = 4" "yy_meta ! 36 = 4" "yy_meta ! 37 = 4" "yy_meta ! 38 = 4"
  "yy_meta ! 39 = 4" "yy_meta ! 40 = 4" "yy_meta ! 41 = 4" "yy_meta ! 42 = 4" "yy_meta ! 43 = 4"
  "yy_meta ! 44 = 4" "yy_meta ! 45 = 3" "yy_meta ! 46 = Suc 0" "yy_meta ! 47 = Suc 0" "yy_meta ! 48 = Suc 0"
  by (simp_all add: yy_meta_def)

lemma yy_base_nth:
  "yy_base ! 0 = 0" "yy_base ! (Suc 0) = 0" "yy_base ! 2 = 0" "yy_base ! 3 = 170" "yy_base ! 4 = 171"
  "yy_base ! 5 = 167" "yy_base ! 6 = 171" "yy_base ! 7 = 145" "yy_base ! 8 = 164" "yy_base ! 9 = 160"
  "yy_base ! 10 = 171" "yy_base ! 11 = 171" "yy_base ! 12 = 171" "yy_base ! 13 = 36" "yy_base ! 14 = 171"
  "yy_base ! 15 = 43" "yy_base ! 16 = 48" "yy_base ! 17 = 171" "yy_base ! 18 = 44" "yy_base ! 19 = 171"
  "yy_base ! 20 = 142" "yy_base ! 21 = 141" "yy_base ! 22 = 140" "yy_base ! 23 = 0" "yy_base ! 24 = 43"
  "yy_base ! 25 = 137" "yy_base ! 26 = 125" "yy_base ! 27 = 132" "yy_base ! 28 = 122" "yy_base ! 29 = 120"
  "yy_base ! 30 = 132" "yy_base ! 31 = 125" "yy_base ! 32 = 171" "yy_base ! 33 = 108" "yy_base ! 34 = 171"
  "yy_base ! 35 = 152" "yy_base ! 36 = 171" "yy_base ! 37 = 150" "yy_base ! 38 = 171" "yy_base ! 39 = 171"
  "yy_base ! 40 = 62" "yy_base ! 41 = 56" "yy_base ! 42 = 75" "yy_base ! 43 = 90" "yy_base ! 44 = 171"
  "yy_base ! 45 = 171" "yy_base ! 46 = 171" "yy_base ! 47 = 0" "yy_base ! 48 = 119" "yy_base ! 49 = 126"
  "yy_base ! 50 = 115" "yy_base ! 51 = 105" "yy_base ! 52 = 109" "yy_base ! 53 = 42" "yy_base ! 54 = 110"
  "yy_base ! 55 = 109" "yy_base ! 56 = 117" "yy_base ! 57 = 171" "yy_base ! 58 = 80" "yy_base ! 59 = 95"
  "yy_base ! 60 = 106" "yy_base ! 61 = 113" "yy_base ! 62 = 102" "yy_base ! 63 = 110" "yy_base ! 64 = 0"
  "yy_base ! 65 = 110" "yy_base ! 66 = 111" "yy_base ! 67 = 69" "yy_base ! 68 = 0" "yy_base ! 69 = 103"
  "yy_base ! 70 = 109" "yy_base ! 71 = 0" "yy_base ! 72 = 111" "yy_base ! 73 = 103" "yy_base ! 74 = 104"
  "yy_base ! 75 = 0" "yy_base ! 76 = 0" "yy_base ! 77 = 0" "yy_base ! 78 = 0" "yy_base ! 79 = 0"
  "yy_base ! 80 = 0" "yy_base ! 81 = 0" "yy_base ! 82 = 100" "yy_base ! 83 = 94" "yy_base ! 84 = 103"
  "yy_base ! 85 = 86" "yy_base ! 86 = 90" "yy_base ! 87 = 82" "yy_base ! 88 = 82" "yy_base ! 89 = 81"
  "yy_base ! 90 = 0" "yy_base ! 91 = 75" "yy_base ! 92 = 78" "yy_base ! 93 = 76" "yy_base ! 94 = 40"
  "yy_base ! 95 = 38" "yy_base ! 96 = 0" "yy_base ! 97 = 36" "yy_base ! 98 = 39" "yy_base ! 99 = 43"
  "yy_base ! 100 = 22" "yy_base ! 101 = 0" "yy_base ! 102 = 171" "yy_base ! 103 = 120" "yy_base ! 104 = 123"
  "yy_base ! 105 = 124"
  by (simp_all add: yy_base_def)

lemma yy_def_nth:
  "yy_def ! 0 = 0" "yy_def ! (Suc 0) = 102" "yy_def ! 2 = Suc 0" "yy_def ! 3 = 102" "yy_def ! 4 = 102"
  "yy_def ! 5 = 102" "yy_def ! 6 = 102" "yy_def ! 7 = 102" "yy_def ! 8 = 103" "yy_def ! 9 = 102"
  "yy_def ! 10 = 102" "yy_def ! 11 = 102" "yy_def ! 12 = 102" "yy_def ! 13 = 102" "yy_def ! 14 = 102"
  "yy_def ! 15 = 102" "yy_def ! 16 = 102" "yy_def ! 17 = 102" "yy_def ! 18 = 104" "yy_def ! 19 = 102"
  "yy_def ! 20 = 102" "yy_def ! 21 = 102" "yy_def ! 22 = 102" "yy_def ! 23 = 105" "yy_def ! 24 = 105"
  "yy_def ! 25 = 105" "yy_def ! 26 = 105" "yy_def ! 27 = 105" "yy_def ! 28 = 105" "yy_def ! 29 = 105"
  "yy_def ! 30 = 105" "yy_def ! 31 = 105" "yy_def ! 32 = 102" "yy_def ! 33 = 102" "yy_def ! 34 = 102"
  "yy_def ! 35 = 102" "yy_def ! 36 = 102" "yy_def ! 37 = 103" "yy_def ! 38 = 102" "yy_def ! 39 = 102"
  "yy_def ! 40 = 102" "yy_def ! 41 = 104" "yy_def ! 42 = 102" "yy_def ! 43 = 102" "yy_def ! 44 = 102"
  "yy_def ! 45 = 102" "yy_def ! 46 = 102" "yy_def ! 47 = 105" "yy_def ! 48 = 105" "yy_def ! 49 = 105"
  "yy_def ! 50 = 105" "yy_def ! 51 = 105" "yy_def ! 52 = 105" "yy_def ! 53 = 105" "yy_def ! 54 = 105"
  "yy_def ! 55 = 105" "yy_def ! 56 = 105" "yy_def ! 57 = 102" "yy_def ! 58 = 102" "yy_def ! 59 = 102"
  "yy_def ! 60 = 105" "yy_def ! 61 = 105" "yy_def ! 62 = 105" "yy_def ! 63 = 105" "yy_def ! 64 = 105"
  "yy_def ! 65 = 105" "yy_def ! 66 = 105" "yy_def ! 67 = 105" "yy_def ! 68 = 105" "yy_def ! 69 = 105"
  "yy_def ! 70 = 105" "yy_def ! 71 = 105" "yy_def ! 72 = 105" "yy_def ! 73 = 105" "yy_def ! 74 = 105"
  "yy_def ! 75 = 105" "yy_def ! 76 = 105" "yy_def ! 77 = 105" "yy_def ! 78 = 105" "yy_def ! 79 = 105"
  "yy_def ! 80 = 105" "yy_def ! 81 = 105" "yy_def ! 82 = 105" "yy_def ! 83 = 105" "yy_def ! 84 = 105"
  "yy_def ! 85 = 105" "yy_def ! 86 = 105" "yy_def ! 87 = 105" "yy_def ! 88 = 105" "yy_def ! 89 = 105"
  "yy_def ! 90 = 105" "yy_def ! 91 = 105" "yy_def ! 92 = 105" "yy_def ! 93 = 105" "yy_def ! 94 = 105"
  "yy_def ! 95 = 105" "yy_def ! 96 = 105" "yy_def ! 97 = 105" "yy_def ! 98 = 105" "yy_def ! 99 = 105"
  "yy_def ! 100 = 105" "yy_def ! 101 = 105" "yy_def ! 102 = 0" "yy_def ! 103 = 102" "yy_def ! 104 = 102"
  "yy_def ! 105 = 102"
  by (simp_all add: yy_def_def)

lemma yy_nxt_nth:
  "yy_nxt ! 0 = 0" "yy_nxt ! (Suc 0) = 4" "yy_nxt ! 2 = 5" "yy_nxt ! 3 = 6" "yy_nxt ! 4 = 7" "yy_nxt ! 5 = 8"
  "yy_nxt ! 6 = 9" "yy_nxt ! 7 = 10" "yy_nxt ! 8 = 11" "yy_nxt ! 9 = 12" "yy_nxt ! 10 = 13" "yy_nxt ! 11 = 14"
  "yy_nxt ! 12 = 15" "yy_nxt ! 13 = 16" "yy_nxt ! 14 = 17" "yy_nxt ! 15 = 18" "yy_nxt ! 16 = 18"
  "yy_nxt ! 17 = 18" "yy_nxt ! 18 = 18" "yy_nxt ! 19 = 18" "yy_nxt ! 20 = 4" "yy_nxt ! 21 = 19"
  "yy_nxt ! 22 = 20" "yy_nxt ! 23 = 21" "yy_nxt ! 24 = 22" "yy_nxt ! 25 = 23" "yy_nxt ! 26 = 23"
  "yy_nxt ! 27 = 23" "yy_nxt ! 28 = 23" "yy_nxt ! 29 = 24" "yy_nxt ! 30 = 23" "yy_nxt ! 31 = 23"
  "yy_nxt ! 32 = 23" "yy_nxt ! 33 = 23" "yy_nxt ! 34 = 25" "yy_nxt ! 35 = 26" "yy_nxt ! 36 = 23"
  "yy_nxt ! 37 = 23" "yy_nxt ! 38 = 27" "yy_nxt ! 39 = 28" "yy_nxt ! 40 = 29" "yy_nxt ! 41 = 30"
  "yy_nxt ! 42 = 31" "yy_nxt ! 43 = 23" "yy_nxt ! 44 = 4" "yy_nxt ! 45 = 23" "yy_nxt ! 46 = 32"
  "yy_nxt ! 47 = 33" "yy_nxt ! 48 = 34" "yy_nxt ! 49 = 40" "yy_nxt ! 50 = 101" "yy_nxt ! 51 = 41"
  "yy_nxt ! 52 = 41" "yy_nxt ! 53 = 41" "yy_nxt ! 54 = 41" "yy_nxt ! 55 = 41" "yy_nxt ! 56 = 40"
  "yy_nxt ! 57 = 40" "yy_nxt ! 58 = 41" "yy_nxt ! 59 = 41" "yy_nxt ! 60 = 41" "yy_nxt ! 61 = 41"
  "yy_nxt ! 62 = 41" "yy_nxt ! 63 = 42" "yy_nxt ! 64 = 42" "yy_nxt ! 65 = 42" "yy_nxt ! 66 = 42"
  "yy_nxt ! 67 = 42" "yy_nxt ! 68 = 48" "yy_nxt ! 69 = 40" "yy_nxt ! 70 = 100" "yy_nxt ! 71 = 99"
  "yy_nxt ! 72 = 43" "yy_nxt ! 73 = 98" "yy_nxt ! 74 = 65" "yy_nxt ! 75 = 97" "yy_nxt ! 76 = 49"
  "yy_nxt ! 77 = 42" "yy_nxt ! 78 = 42" "yy_nxt ! 79 = 42" "yy_nxt ! 80 = 42" "yy_nxt ! 81 = 42"
  "yy_nxt ! 82 = 66" "yy_nxt ! 83 = 96" "yy_nxt ! 84 = 43" "yy_nxt ! 85 = 76" "yy_nxt ! 86 = 77"
  "yy_nxt ! 87 = 78" "yy_nxt ! 88 = 79" "yy_nxt ! 89 = 43" "yy_nxt ! 90 = 42" "yy_nxt ! 91 = 42"
  "yy_nxt ! 92 = 42" "yy_nxt ! 93 = 42" "yy_nxt ! 94 = 42" "yy_nxt ! 95 = 59" "yy_nxt ! 96 = 59"
  "yy_nxt ! 97 = 59" "yy_nxt ! 98 = 59" "yy_nxt ! 99 = 59" "yy_nxt ! 100 = 58" "yy_nxt ! 101 = 43"
  "yy_nxt ! 102 = 58" "yy_nxt ! 103 = 43" "yy_nxt ! 104 = 95" "yy_nxt ! 105 = 59" "yy_nxt ! 106 = 59"
  "yy_nxt ! 107 = 59" "yy_nxt ! 108 = 59" "yy_nxt ! 109 = 59" "yy_nxt ! 110 = 59" "yy_nxt ! 111 = 59"
  "yy_nxt ! 112 = 59" "yy_nxt ! 113 = 59" "yy_nxt ! 114 = 59" "yy_nxt ! 115 = 94" "yy_nxt ! 116 = 93"
  "yy_nxt ! 117 = 92" "yy_nxt ! 118 = 91" "yy_nxt ! 119 = 90" "yy_nxt ! 120 = 43" "yy_nxt ! 121 = 37"
  "yy_nxt ! 122 = 37" "yy_nxt ! 123 = 37" "yy_nxt ! 124 = 37" "yy_nxt ! 125 = 41" "yy_nxt ! 126 = 41"
  "yy_nxt ! 127 = 47" "yy_nxt ! 128 = 47" "yy_nxt ! 129 = 89" "yy_nxt ! 130 = 88" "yy_nxt ! 131 = 87"
  "yy_nxt ! 132 = 86" "yy_nxt ! 133 = 85" "yy_nxt ! 134 = 84" "yy_nxt ! 135 = 83" "yy_nxt ! 136 = 82"
  "yy_nxt ! 137 = 81" "yy_nxt ! 138 = 80" "yy_nxt ! 139 = 75" "yy_nxt ! 140 = 74" "yy_nxt ! 141 = 73"
  "yy_nxt ! 142 = 72" "yy_nxt ! 143 = 71" "yy_nxt ! 144 = 70" "yy_nxt ! 145 = 69" "yy_nxt ! 146 = 68"
  "yy_nxt ! 147 = 67" "yy_nxt ! 148 = 64" "yy_nxt ! 149 = 63" "yy_nxt ! 150 = 62" "yy_nxt ! 151 = 61"
  "yy_nxt ! 152 = 60" "yy_nxt ! 153 = 38" "yy_nxt ! 154 = 35" "yy_nxt ! 155 = 57" "yy_nxt ! 156 = 56"
  "yy_nxt ! 157 = 55" "yy_nxt ! 158 = 54" "yy_nxt ! 159 = 53" "yy_nxt ! 160 = 52" "yy_nxt ! 161 = 51"
  "yy_nxt ! 162 = 50" "yy_nxt ! 163 = 46" "yy_nxt ! 164 = 45" "yy_nxt ! 165 = 44" "yy_nxt ! 166 = 39"
  "yy_nxt ! 167 = 38" "yy_nxt ! 168 = 36" "yy_nxt ! 169 = 35" "yy_nxt ! 170 = 102" "yy_nxt ! 171 = 3"
  "yy_nxt ! 172 = 102" "yy_nxt ! 173 = 102" "yy_nxt ! 174 = 102" "yy_nxt ! 175 = 102" "yy_nxt ! 176 = 102"
  "yy_nxt ! 177 = 102" "yy_nxt ! 178 = 102" "yy_nxt ! 179 = 102" "yy_nxt ! 180 = 102" "yy_nxt ! 181 = 102"
  "yy_nxt ! 182 = 102" "yy_nxt ! 183 = 102" "yy_nxt ! 184 = 102" "yy_nxt ! 185 = 102" "yy_nxt ! 186 = 102"
  "yy_nxt ! 187 = 102" "yy_nxt ! 188 = 102" "yy_nxt ! 189 = 102" "yy_nxt ! 190 = 102" "yy_nxt ! 191 = 102"
  "yy_nxt ! 192 = 102" "yy_nxt ! 193 = 102" "yy_nxt ! 194 = 102" "yy_nxt ! 195 = 102" "yy_nxt ! 196 = 102"
  "yy_nxt ! 197 = 102" "yy_nxt ! 198 = 102" "yy_nxt ! 199 = 102" "yy_nxt ! 200 = 102" "yy_nxt ! 201 = 102"
  "yy_nxt ! 202 = 102" "yy_nxt ! 203 = 102" "yy_nxt ! 204 = 102" "yy_nxt ! 205 = 102" "yy_nxt ! 206 = 102"
  "yy_nxt ! 207 = 102" "yy_nxt ! 208 = 102" "yy_nxt ! 209 = 102" "yy_nxt ! 210 = 102" "yy_nxt ! 211 = 102"
  "yy_nxt ! 212 = 102" "yy_nxt ! 213 = 102" "yy_nxt ! 214 = 102" "yy_nxt ! 215 = 102" "yy_nxt ! 216 = 102"
  "yy_nxt ! 217 = 102" "yy_nxt ! 218 = 102" "yy_nxt ! 219 = 102"
  by (simp_all add: yy_nxt_def)

lemma yy_chk_nth:
  "yy_chk ! 0 = 0" "yy_chk ! (Suc 0) = Suc 0" "yy_chk ! 2 = Suc 0" "yy_chk ! 3 = Suc 0" "yy_chk ! 4 = Suc 0"
  "yy_chk ! 5 = Suc 0" "yy_chk ! 6 = Suc 0" "yy_chk ! 7 = Suc 0" "yy_chk ! 8 = Suc 0" "yy_chk ! 9 = Suc 0"
  "yy_chk ! 10 = Suc 0" "yy_chk ! 11 = Suc 0" "yy_chk ! 12 = Suc 0" "yy_chk ! 13 = Suc 0" "yy_chk ! 14 = Suc 0"
  "yy_chk ! 15 = Suc 0" "yy_chk ! 16 = Suc 0" "yy_chk ! 17 = Suc 0" "yy_chk ! 18 = Suc 0" "yy_chk ! 19 = Suc 0"
  "yy_chk ! 20 = Suc 0" "yy_chk ! 21 = Suc 0" "yy_chk ! 22 = Suc 0" "yy_chk ! 23 = Suc 0" "yy_chk ! 24 = Suc 0"
  "yy_chk ! 25 = Suc 0" "yy_chk ! 26 = Suc 0" "yy_chk ! 27 = Suc 0" "yy_chk ! 28 = Suc 0" "yy_chk ! 29 = Suc 0"
  "yy_chk ! 30 = Suc 0" "yy_chk ! 31 = Suc 0" "yy_chk ! 32 = Suc 0" "yy_chk ! 33 = Suc 0" "yy_chk ! 34 = Suc 0"
  "yy_chk ! 35 = Suc 0" "yy_chk ! 36 = Suc 0" "yy_chk ! 37 = Suc 0" "yy_chk ! 38 = Suc 0" "yy_chk ! 39 = Suc 0"
  "yy_chk ! 40 = Suc 0" "yy_chk ! 41 = Suc 0" "yy_chk ! 42 = Suc 0" "yy_chk ! 43 = Suc 0" "yy_chk ! 44 = Suc 0"
  "yy_chk ! 45 = Suc 0" "yy_chk ! 46 = Suc 0" "yy_chk ! 47 = Suc 0" "yy_chk ! 48 = Suc 0" "yy_chk ! 49 = 13"
  "yy_chk ! 50 = 100" "yy_chk ! 51 = 13" "yy_chk ! 52 = 13" "yy_chk ! 53 = 13" "yy_chk ! 54 = 13"
  "yy_chk ! 55 = 13" "yy_chk ! 56 = 15" "yy_chk ! 57 = 18" "yy_chk ! 58 = 15" "yy_chk ! 59 = 15"
  "yy_chk ! 60 = 15" "yy_chk ! 61 = 15" "yy_chk ! 62 = 15" "yy_chk ! 63 = 16" "yy_chk ! 64 = 16"
  "yy_chk ! 65 = 16" "yy_chk ! 66 = 16" "yy_chk ! 67 = 16" "yy_chk ! 68 = 24" "yy_chk ! 69 = 41"
  "yy_chk ! 70 = 99" "yy_chk ! 71 = 98" "yy_chk ! 72 = 18" "yy_chk ! 73 = 97" "yy_chk ! 74 = 53"
  "yy_chk ! 75 = 95" "yy_chk ! 76 = 24" "yy_chk ! 77 = 40" "yy_chk ! 78 = 40" "yy_chk ! 79 = 40"
  "yy_chk ! 80 = 40" "yy_chk ! 81 = 40" "yy_chk ! 82 = 53" "yy_chk ! 83 = 94" "yy_chk ! 84 = 41"
  "yy_chk ! 85 = 67" "yy_chk ! 86 = 67" "yy_chk ! 87 = 67" "yy_chk ! 88 = 67" "yy_chk ! 89 = 18"
  "yy_chk ! 90 = 42" "yy_chk ! 91 = 42" "yy_chk ! 92 = 42" "yy_chk ! 93 = 42" "yy_chk ! 94 = 42"
  "yy_chk ! 95 = 58" "yy_chk ! 96 = 58" "yy_chk ! 97 = 58" "yy_chk ! 98 = 58" "yy_chk ! 99 = 58"
  "yy_chk ! 100 = 43" "yy_chk ! 101 = 41" "yy_chk ! 102 = 43" "yy_chk ! 103 = 42" "yy_chk ! 104 = 93"
  "yy_chk ! 105 = 43" "yy_chk ! 106 = 43" "yy_chk ! 107 = 43" "yy_chk ! 108 = 43" "yy_chk ! 109 = 43"
  "yy_chk ! 110 = 59" "yy_chk ! 111 = 59" "yy_chk ! 112 = 59" "yy_chk ! 113 = 59" "yy_chk ! 114 = 59"
  "yy_chk ! 115 = 92" "yy_chk ! 116 = 91" "yy_chk ! 117 = 89" "yy_chk ! 118 = 88" "yy_chk ! 119 = 87"
  "yy_chk ! 120 = 42" "yy_chk ! 121 = 103" "yy_chk ! 122 = 103" "yy_chk ! 123 = 103" "yy_chk ! 124 = 103"
  "yy_chk ! 125 = 104" "yy_chk ! 126 = 104" "yy_chk ! 127 = 105" "yy_chk ! 128 = 105" "yy_chk ! 129 = 86"
  "yy_chk ! 130 = 85" "yy_chk ! 131 = 84" "yy_chk ! 132 = 83" "yy_chk ! 133 = 82" "yy_chk ! 134 = 74"
  "yy_chk ! 135 = 73" "yy_chk ! 136 = 72" "yy_chk ! 137 = 70" "yy_chk ! 138 = 69" "yy_chk ! 139 = 66"
  "yy_chk ! 140 = 65" "yy_chk ! 141 = 63" "yy_chk ! 142 = 62" "yy_chk ! 143 = 61" "yy_chk ! 144 = 60"
  "yy_chk ! 145 = 56" "yy_chk ! 146 = 55" "yy_chk ! 147 = 54" "yy_chk ! 148 = 52" "yy_chk ! 149 = 51"
  "yy_chk ! 150 = 50" "yy_chk ! 151 = 49" "yy_chk ! 152 = 48" "yy_chk ! 153 = 37" "yy_chk ! 154 = 35"
  "yy_chk ! 155 = 33" "yy_chk ! 156 = 31" "yy_chk ! 157 = 30" "yy_chk ! 158 = 29" "yy_chk ! 159 = 28"
  "yy_chk ! 160 = 27" "yy_chk ! 161 = 26" "yy_chk ! 162 = 25" "yy_chk ! 163 = 22" "yy_chk ! 164 = 21"
  "yy_chk ! 165 = 20" "yy_chk ! 166 = 9" "yy_chk ! 167 = 8" "yy_chk ! 168 = 7" "yy_chk ! 169 = 5"
  "yy_chk ! 170 = 3" "yy_chk ! 171 = 102" "yy_chk ! 172 = 102" "yy_chk ! 173 = 102" "yy_chk ! 174 = 102"
  "yy_chk ! 175 = 102" "yy_chk ! 176 = 102" "yy_chk ! 177 = 102" "yy_chk ! 178 = 102" "yy_chk ! 179 = 102"
  "yy_chk ! 180 = 102" "yy_chk ! 181 = 102" "yy_chk ! 182 = 102" "yy_chk ! 183 = 102" "yy_chk ! 184 = 102"
  "yy_chk ! 185 = 102" "yy_chk ! 186 = 102" "yy_chk ! 187 = 102" "yy_chk ! 188 = 102" "yy_chk ! 189 = 102"
  "yy_chk ! 190 = 102" "yy_chk ! 191 = 102" "yy_chk ! 192 = 102" "yy_chk ! 193 = 102" "yy_chk ! 194 = 102"
  "yy_chk ! 195 = 102" "yy_chk ! 196 = 102" "yy_chk ! 197 = 102" "yy_chk ! 198 = 102" "yy_chk ! 199 = 102"
  "yy_chk ! 200 = 102" "yy_chk ! 201 = 102" "yy_chk ! 202 = 102" "yy_chk ! 203 = 102" "yy_chk ! 204 = 102"
  "yy_chk ! 205 = 102" "yy_chk ! 206 = 102" "yy_chk ! 207 = 102" "yy_chk ! 208 = 102" "yy_chk ! 209 = 102"
  "yy_chk ! 210 = 102" "yy_chk ! 211 = 102" "yy_chk ! 212 = 102" "yy_chk ! 213 = 102" "yy_chk ! 214 = 102"
  "yy_chk ! 215 = 102" "yy_chk ! 216 = 102" "yy_chk ! 217 = 102" "yy_chk ! 218 = 102" "yy_chk ! 219 = 102"
  by (simp_all add: yy_chk_def)

lemmas lex_nth = yy_accept_nth yy_ec_nth yy_meta_nth yy_base_nth yy_def_nth yy_nxt_nth yy_chk_nth

section \<open>The patterns left in a state\<close>

text \<open>A character of each class but that of the end of the buffer.\<close>

definition class_reps :: "char list" where
  "class_reps =
    [CHR 0x01, CHR 0x09, CHR 0x0A, CHR 0x21, CHR 0x23, CHR 0x26, CHR 0x28, CHR 0x29, CHR 0x2A,
     CHR 0x2B, CHR 0x2C, CHR 0x2D, CHR 0x2E, CHR 0x2F, CHR 0x30, CHR 0x31, CHR 0x32, CHR 0x33,
     CHR 0x34, CHR 0x3A, CHR 0x3B, CHR 0x3C, CHR 0x3D, CHR 0x3E, CHR 0x41, CHR 0x42, CHR 0x44,
     CHR 0x45, CHR 0x46, CHR 0x47, CHR 0x48, CHR 0x49, CHR 0x4C, CHR 0x4D, CHR 0x4E, CHR 0x4F,
     CHR 0x52, CHR 0x53, CHR 0x54, CHR 0x55, CHR 0x56, CHR 0x57, CHR 0x59, CHR 0x5F, CHR 0x65,
     CHR 0x7B, CHR 0x7C, CHR 0x7D]"

definition any_left :: "nat \<times> rexp" where "any_left = (38, One)"
definition word_left :: "nat \<times> rexp" where "word_left = (34, Star (Chars Word))"
definition digits_left :: "nat \<times> rexp" where "digits_left = (33, Seq (Star (Chars Digit)) number_exponent)"
definition number_left :: "nat \<times> rexp" where
  "number_left = (33, Seq (Star (Chars Digit)) (Seq (Opt (Chars (Lit (CHR ''.'')))) (Seq (Plus (Chars Digit)) number_exponent)))"

definition lex_left :: "(nat \<times> rexp) list list" where
  "lex_left =
    [[],
     lex_rules,
     [],
     [],
     [any_left],
     [(35, Star (Chars Blank)), any_left],
     [(37, One)],
     [(2, lit ''=''), any_left],
     [(36, Seq (Star (Chars NotNewline)) (Chars (Lit (CHR 0x0A)))), any_left],
     [(7, lit ''&''), any_left],
     [(11, One), any_left],
     [(12, One), any_left],
     [(18, One), any_left],
     [(16, One), number_left, any_left],
     [(13, One), any_left],
     [(17, One), number_left, any_left],
     [(33, Seq (Plus (Chars Digit)) (number_exponent)), any_left],
     [(19, One), any_left],
     [number_left, digits_left, any_left],
     [(15, One), any_left],
     [(3, One), (4, lit ''=''), any_left],
     [(1, lit ''=''), (14, One), any_left],
     [(5, One), (6, lit ''=''), any_left],
     [word_left, any_left],
     [(24, lit ''LAG''), (32, lit ''ALSE''), word_left, any_left],
     [(29, lit ''ANUAL_OVERRIDE''), word_left, any_left],
     [(30, lit ''O_HISTORY''), word_left, any_left],
     [(21, lit ''ET''), word_left, any_left],
     [(23, lit ''RIGGER''), (31, lit ''RUE''), word_left, any_left],
     [(25, lit ''SR1''), (26, lit ''SR2''), (27, lit ''SR3''), (28, lit ''SR4''), word_left,
      any_left],
     [(20, lit ''AR''), word_left, any_left],
     [(22, lit ''HEN''), word_left, any_left],
     [(9, One), any_left],
     [(8, lit ''|''), any_left],
     [(10, One), any_left],
     [(35, Star (Chars Blank))],
     [(2, One)],
     [(36, Seq (Star (Chars NotNewline)) (Chars (Lit (CHR 0x0A))))],
     [(36, One)],
     [(7, One)],
     [(33, Seq (Plus (Chars Digit)) (number_exponent))],
     [number_left, digits_left],
     [digits_left],
     [(33, Seq (Opt (Chars Sign)) (Plus (Chars Digit)))],
     [(4, One)],
     [(1, One)],
     [(6, One)],
     [word_left],
     [(32, lit ''LSE''), word_left],
     [(24, lit ''AG''), word_left],
     [(29, lit ''NUAL_OVERRIDE''), word_left],
     [(30, lit ''_HISTORY''), word_left],
     [(21, lit ''T''), word_left],
     [(23, lit ''IGGER''), (31, lit ''UE''), word_left],
     [(25, lit ''R1''), (26, lit ''R2''), (27, lit ''R3''), (28, lit ''R4''), word_left],
     [(20, lit ''R''), word_left],
     [(22, lit ''EN''), word_left],
     [(8, One)],
     [(33, Plus (Chars Digit))],
     [(33, Star (Chars Digit))],
     [(32, lit ''SE''), word_left],
     [(24, lit ''G''), word_left],
     [(29, lit ''UAL_OVERRIDE''), word_left],
     [(30, lit ''HISTORY''), word_left],
     [(21, One), word_left],
     [(23, lit ''GGER''), word_left],
     [(31, lit ''E''), word_left],
     [(25, lit ''1''), (26, lit ''2''), (27, lit ''3''), (28, lit ''4''), word_left],
     [(20, One), word_left],
     [(22, lit ''N''), word_left],
     [(32, lit ''E''), word_left],
     [(24, One), word_left],
     [(29, lit ''AL_OVERRIDE''), word_left],
     [(30, lit ''ISTORY''), word_left],
     [(23, lit ''GER''), word_left],
     [(31, One), word_left],
     [(25, One), word_left],
     [(26, One), word_left],
     [(27, One), word_left],
     [(28, One), word_left],
     [(22, One), word_left],
     [(32, One), word_left],
     [(29, lit ''L_OVERRIDE''), word_left],
     [(30, lit ''STORY''), word_left],
     [(23, lit ''ER''), word_left],
     [(29, lit ''_OVERRIDE''), word_left],
     [(30, lit ''TORY''), word_left],
     [(23, lit ''R''), word_left],
     [(29, lit ''OVERRIDE''), word_left],
     [(30, lit ''ORY''), word_left],
     [(23, One), word_left],
     [(29, lit ''VERRIDE''), word_left],
     [(30, lit ''RY''), word_left],
     [(29, lit ''ERRIDE''), word_left],
     [(30, lit ''Y''), word_left],
     [(29, lit ''RRIDE''), word_left],
     [(30, One), word_left],
     [(29, lit ''RIDE''), word_left],
     [(29, lit ''IDE''), word_left],
     [(29, lit ''DE''), word_left],
     [(29, lit ''E''), word_left],
     [(29, One), word_left]]"

lemma lex_left_nth:
  "lex_left ! 0 = []" "lex_left ! (Suc 0) = lex_rules" "lex_left ! 2 = []" "lex_left ! 3 = []"
  "lex_left ! 4 = [any_left]" "lex_left ! 5 = [(35, Star (Chars Blank)), any_left]" "lex_left ! 6 = [(37, One)]"
  "lex_left ! 7 = [(2, lit ''=''), any_left]"
  "lex_left ! 8 = [(36, Seq (Star (Chars NotNewline)) (Chars (Lit (CHR 0x0A)))), any_left]"
  "lex_left ! 9 = [(7, lit ''&''), any_left]" "lex_left ! 10 = [(11, One), any_left]"
  "lex_left ! 11 = [(12, One), any_left]" "lex_left ! 12 = [(18, One), any_left]"
  "lex_left ! 13 = [(16, One), number_left, any_left]" "lex_left ! 14 = [(13, One), any_left]"
  "lex_left ! 15 = [(17, One), number_left, any_left]"
  "lex_left ! 16 = [(33, Seq (Plus (Chars Digit)) (number_exponent)), any_left]"
  "lex_left ! 17 = [(19, One), any_left]" "lex_left ! 18 = [number_left, digits_left, any_left]"
  "lex_left ! 19 = [(15, One), any_left]" "lex_left ! 20 = [(3, One), (4, lit ''=''), any_left]"
  "lex_left ! 21 = [(1, lit ''=''), (14, One), any_left]" "lex_left ! 22 = [(5, One), (6, lit ''=''), any_left]"
  "lex_left ! 23 = [word_left, any_left]"
  "lex_left ! 24 = [(24, lit ''LAG''), (32, lit ''ALSE''), word_left, any_left]"
  "lex_left ! 25 = [(29, lit ''ANUAL_OVERRIDE''), word_left, any_left]"
  "lex_left ! 26 = [(30, lit ''O_HISTORY''), word_left, any_left]"
  "lex_left ! 27 = [(21, lit ''ET''), word_left, any_left]"
  "lex_left ! 28 = [(23, lit ''RIGGER''), (31, lit ''RUE''), word_left, any_left]"
  "lex_left ! 29 = [(25, lit ''SR1''), (26, lit ''SR2''), (27, lit ''SR3''), (28, lit ''SR4''), word_left, any_left]"
  "lex_left ! 30 = [(20, lit ''AR''), word_left, any_left]"
  "lex_left ! 31 = [(22, lit ''HEN''), word_left, any_left]" "lex_left ! 32 = [(9, One), any_left]"
  "lex_left ! 33 = [(8, lit ''|''), any_left]" "lex_left ! 34 = [(10, One), any_left]"
  "lex_left ! 35 = [(35, Star (Chars Blank))]" "lex_left ! 36 = [(2, One)]"
  "lex_left ! 37 = [(36, Seq (Star (Chars NotNewline)) (Chars (Lit (CHR 0x0A))))]" "lex_left ! 38 = [(36, One)]"
  "lex_left ! 39 = [(7, One)]" "lex_left ! 40 = [(33, Seq (Plus (Chars Digit)) (number_exponent))]"
  "lex_left ! 41 = [number_left, digits_left]" "lex_left ! 42 = [digits_left]"
  "lex_left ! 43 = [(33, Seq (Opt (Chars Sign)) (Plus (Chars Digit)))]" "lex_left ! 44 = [(4, One)]"
  "lex_left ! 45 = [(1, One)]" "lex_left ! 46 = [(6, One)]" "lex_left ! 47 = [word_left]"
  "lex_left ! 48 = [(32, lit ''LSE''), word_left]" "lex_left ! 49 = [(24, lit ''AG''), word_left]"
  "lex_left ! 50 = [(29, lit ''NUAL_OVERRIDE''), word_left]"
  "lex_left ! 51 = [(30, lit ''_HISTORY''), word_left]" "lex_left ! 52 = [(21, lit ''T''), word_left]"
  "lex_left ! 53 = [(23, lit ''IGGER''), (31, lit ''UE''), word_left]"
  "lex_left ! 54 = [(25, lit ''R1''), (26, lit ''R2''), (27, lit ''R3''), (28, lit ''R4''), word_left]"
  "lex_left ! 55 = [(20, lit ''R''), word_left]" "lex_left ! 56 = [(22, lit ''EN''), word_left]"
  "lex_left ! 57 = [(8, One)]" "lex_left ! 58 = [(33, Plus (Chars Digit))]"
  "lex_left ! 59 = [(33, Star (Chars Digit))]" "lex_left ! 60 = [(32, lit ''SE''), word_left]"
  "lex_left ! 61 = [(24, lit ''G''), word_left]" "lex_left ! 62 = [(29, lit ''UAL_OVERRIDE''), word_left]"
  "lex_left ! 63 = [(30, lit ''HISTORY''), word_left]" "lex_left ! 64 = [(21, One), word_left]"
  "lex_left ! 65 = [(23, lit ''GGER''), word_left]" "lex_left ! 66 = [(31, lit ''E''), word_left]"
  "lex_left ! 67 = [(25, lit ''1''), (26, lit ''2''), (27, lit ''3''), (28, lit ''4''), word_left]"
  "lex_left ! 68 = [(20, One), word_left]" "lex_left ! 69 = [(22, lit ''N''), word_left]"
  "lex_left ! 70 = [(32, lit ''E''), word_left]" "lex_left ! 71 = [(24, One), word_left]"
  "lex_left ! 72 = [(29, lit ''AL_OVERRIDE''), word_left]" "lex_left ! 73 = [(30, lit ''ISTORY''), word_left]"
  "lex_left ! 74 = [(23, lit ''GER''), word_left]" "lex_left ! 75 = [(31, One), word_left]"
  "lex_left ! 76 = [(25, One), word_left]" "lex_left ! 77 = [(26, One), word_left]"
  "lex_left ! 78 = [(27, One), word_left]" "lex_left ! 79 = [(28, One), word_left]"
  "lex_left ! 80 = [(22, One), word_left]" "lex_left ! 81 = [(32, One), word_left]"
  "lex_left ! 82 = [(29, lit ''L_OVERRIDE''), word_left]" "lex_left ! 83 = [(30, lit ''STORY''), word_left]"
  "lex_left ! 84 = [(23, lit ''ER''), word_left]" "lex_left ! 85 = [(29, lit ''_OVERRIDE''), word_left]"
  "lex_left ! 86 = [(30, lit ''TORY''), word_left]" "lex_left ! 87 = [(23, lit ''R''), word_left]"
  "lex_left ! 88 = [(29, lit ''OVERRIDE''), word_left]" "lex_left ! 89 = [(30, lit ''ORY''), word_left]"
  "lex_left ! 90 = [(23, One), word_left]" "lex_left ! 91 = [(29, lit ''VERRIDE''), word_left]"
  "lex_left ! 92 = [(30, lit ''RY''), word_left]" "lex_left ! 93 = [(29, lit ''ERRIDE''), word_left]"
  "lex_left ! 94 = [(30, lit ''Y''), word_left]" "lex_left ! 95 = [(29, lit ''RRIDE''), word_left]"
  "lex_left ! 96 = [(30, One), word_left]" "lex_left ! 97 = [(29, lit ''RIDE''), word_left]"
  "lex_left ! 98 = [(29, lit ''IDE''), word_left]" "lex_left ! 99 = [(29, lit ''DE''), word_left]"
  "lex_left ! 100 = [(29, lit ''E''), word_left]" "lex_left ! 101 = [(29, One), word_left]"
  by (simp_all add: lex_left_def)

definition lex_atoms :: "cset list" where
  "lex_atoms =
    [Lit (CHR ''=''), Lit (CHR ''!''), Lit (CHR ''<''), Lit (CHR ''>''), Lit (CHR ''&''), Lit
     (CHR ''|''), Lit (CHR ''{''), Lit (CHR ''}''), Lit (CHR ''(''), Lit (CHR '')''), Lit (CHR
     '',''), Lit (CHR '';''), Lit (CHR ''+''), Lit (CHR ''-''), Lit (CHR ''*''), Lit (CHR
     ''/''), Lit (CHR ''R''), Lit (CHR ''A''), Lit (CHR ''V''), Lit (CHR ''T''), Lit (CHR
     ''E''), Lit (CHR ''S''), Lit (CHR ''N''), Lit (CHR ''H''), Lit (CHR ''W''), Lit (CHR
     ''G''), Lit (CHR ''I''), Lit (CHR ''L''), Lit (CHR ''F''), Lit (CHR ''1''), Lit (CHR
     ''U''), Lit (CHR ''2''), Lit (CHR ''3''), Lit (CHR ''4''), Lit (CHR ''D''), Lit (CHR
     ''O''), Lit (CHR ''_''), Lit (CHR ''M''), Lit (CHR ''Y''), Digit, Sign, ExpSign, Lit (CHR
     ''.''), Word, Letter, Blank, Lit (CHR 0x0A), NotNewline, Lit (CHR ''#'')]"

fun csets :: "rexp \<Rightarrow> cset list" where
  "csets One = []"
| "csets (Chars s) = [s]"
| "csets (Seq r s) = csets r @ csets s"
| "csets (Alt r s) = csets r @ csets s"
| "csets (Star r) = csets r"

section \<open>The checks\<close>

definition same_rules :: "(nat \<times> rexp) list \<Rightarrow> (nat \<times> rexp) list \<Rightarrow> bool" where
  "same_rules xs ys = (list_all (\<lambda>x. x \<in> set ys) xs \<and> list_all (\<lambda>x. x \<in> set xs) ys)"

definition check_step :: "nat \<Rightarrow> nat \<Rightarrow> char \<Rightarrow> bool" where
  "check_step s k c = (case yy_next s k of
     Ret s' \<Rightarrow>
       if s' = 102 then rules_after c (lex_left ! s) = []
       else 4 \<le> s' \<and> s' < 102 \<and> same_rules (rules_after c (lex_left ! s)) (lex_left ! s')
   | _ \<Rightarrow> False)"

definition check_state :: "nat \<Rightarrow> bool" where
  "check_state s =
     (yy_next s 0 = Ret 3 \<and> yy_accept ! s = first_nullable (lex_left ! s) \<and>
      list_all (\<lambda>(k, c). check_step s k c) (zip [1..<49] class_reps))"

lemma classes_upt:
  "[1..<49] =
    [1, 2, 3, 4, 5, 6, 7, 8, 9, 10, 11, 12, 13, 14, 15, 16, 17, 18, 19, 20, 21, 22, 23, 24, 25, 26, 27, 28, 29, 30,
     31, 32, 33, 34, 35, 36, 37, 38, 39, 40, 41, 42, 43, 44, 45, 46, 47, 48]"
  by (simp add: upt_conv_Cons eval_nat_numeral)

lemma upt_rules:
  "[1..<33] =
    [1, 2, 3, 4, 5, 6, 7, 8, 9, 10, 11, 12, 13, 14, 15, 16, 17, 18, 19, 20, 21, 22, 23, 24, 25, 26, 27, 28, 29, 30, 31, 32]"
proof -
  have "[1..<33] = take 32 [1..<49]" by (simp add: take_upt)
  then show ?thesis unfolding classes_upt by simp
qed

lemma check_state_unfold:
  "check_state s \<longleftrightarrow> yy_next s 0 = Ret 3 \<and> yy_accept ! s = first_nullable (lex_left ! s) \<and>
    check_step s (Suc 0) (CHR 0x01) \<and> check_step s 2 (CHR 0x09) \<and> check_step s 3 (CHR 0x0A)
    \<and> check_step s 4 (CHR 0x21) \<and> check_step s 5 (CHR 0x23) \<and> check_step s 6 (CHR 0x26)
    \<and> check_step s 7 (CHR 0x28) \<and> check_step s 8 (CHR 0x29) \<and> check_step s 9 (CHR 0x2A)
    \<and> check_step s 10 (CHR 0x2B) \<and> check_step s 11 (CHR 0x2C) \<and> check_step s 12 (CHR 0x2D)
    \<and> check_step s 13 (CHR 0x2E) \<and> check_step s 14 (CHR 0x2F) \<and> check_step s 15 (CHR 0x30)
    \<and> check_step s 16 (CHR 0x31) \<and> check_step s 17 (CHR 0x32) \<and> check_step s 18 (CHR 0x33)
    \<and> check_step s 19 (CHR 0x34) \<and> check_step s 20 (CHR 0x3A) \<and> check_step s 21 (CHR 0x3B)
    \<and> check_step s 22 (CHR 0x3C) \<and> check_step s 23 (CHR 0x3D) \<and> check_step s 24 (CHR 0x3E)
    \<and> check_step s 25 (CHR 0x41) \<and> check_step s 26 (CHR 0x42) \<and> check_step s 27 (CHR 0x44)
    \<and> check_step s 28 (CHR 0x45) \<and> check_step s 29 (CHR 0x46) \<and> check_step s 30 (CHR 0x47)
    \<and> check_step s 31 (CHR 0x48) \<and> check_step s 32 (CHR 0x49) \<and> check_step s 33 (CHR 0x4C)
    \<and> check_step s 34 (CHR 0x4D) \<and> check_step s 35 (CHR 0x4E) \<and> check_step s 36 (CHR 0x4F)
    \<and> check_step s 37 (CHR 0x52) \<and> check_step s 38 (CHR 0x53) \<and> check_step s 39 (CHR 0x54)
    \<and> check_step s 40 (CHR 0x55) \<and> check_step s 41 (CHR 0x56) \<and> check_step s 42 (CHR 0x57)
    \<and> check_step s 43 (CHR 0x59) \<and> check_step s 44 (CHR 0x5F) \<and> check_step s 45 (CHR 0x65)
    \<and> check_step s 46 (CHR 0x7B) \<and> check_step s 47 (CHR 0x7C) \<and> check_step s 48 (CHR 0x7D)"
  unfolding check_state_def classes_upt class_reps_def by simp

lemma yy_next_eval: "yy_next s c = yy_chain (Suc (Suc (Suc 0))) s c"
  by (simp add: yy_next_def numeral_3_eq_3)

lemma nth_two: "yy_nxt ! Suc (Suc 0) = 5" "yy_chk ! Suc (Suc 0) = Suc 0"
  by (simp_all add: yy_nxt_def yy_chk_def)

lemmas lex_eval = nth_two check_step_def same_rules_def yy_next_eval rules_after_def seq_def Plus_def Opt_def
  number_exponent_def any_left_def word_left_def digits_left_def number_left_def lex_nth lex_left_nth

lemma lex_rules_eval: "lex_rules =
  [(Suc 0, lit ''==''), (2, lit ''!=''), (3, lit ''<''), (4, lit ''<=''), (5, lit ''>''), (6, lit ''>=''), (7,
   lit ''&&''), (8, lit ''||''), (9, lit ''{''), (10, lit ''}''), (11, lit ''(''), (12, lit '')''), (13, lit
   '',''), (14, lit ''=''), (15, lit '';''), (16, lit ''+''), (17, lit ''-''), (18, lit ''*''), (19, lit
   ''/''), (20, lit ''VAR''), (21, lit ''SET''), (22, lit ''WHEN''), (23, lit ''TRIGGER''), (24, lit
   ''FLAG''), (25, lit ''USR1''), (26, lit ''USR2''), (27, lit ''USR3''), (28, lit ''USR4''), (29, lit
   ''MANUAL_OVERRIDE''), (30, lit ''NO_HISTORY''), (31, lit ''TRUE''), (32, lit ''FALSE''), (33,
   NUMBER_pattern), (34, IDENTIFIER_pattern), (35, Plus (Chars Blank)), (36, comment_pattern), (37, Chars
   (Lit (CHR 0x0A))), (38, Chars NotNewline)]"
  unfolding lex_rules_def lex_literals_def upt_rules
  by (simp only: list.map zip_Cons_Cons zip_Nil append.simps One_nat_def)

lemma checked_start: "check_state (Suc 0)"
  by (simp only: check_state_unfold) (simp add: lex_eval lex_rules_eval NUMBER_pattern_def IDENTIFIER_pattern_def
      comment_pattern_def)

lemma checked_1:
  "check_state 4" "check_state 5" "check_state 6" "check_state 7" "check_state 8" "check_state 9"
  "check_state 10" "check_state 11" "check_state 12"
  by (simp_all only: check_state_unfold) (simp_all add: lex_eval)

lemma checked_2:
  "check_state 13" "check_state 14" "check_state 15" "check_state 16" "check_state 17" "check_state 18"
  "check_state 19" "check_state 20" "check_state 21"
  by (simp_all only: check_state_unfold) (simp_all add: lex_eval)

lemma checked_3:
  "check_state 22" "check_state 23" "check_state 24" "check_state 25" "check_state 26" "check_state 27"
  "check_state 28" "check_state 29" "check_state 30"
  by (simp_all only: check_state_unfold) (simp_all add: lex_eval)

lemma checked_4:
  "check_state 31" "check_state 32" "check_state 33" "check_state 34" "check_state 35" "check_state 36"
  "check_state 37" "check_state 38" "check_state 39"
  by (simp_all only: check_state_unfold) (simp_all add: lex_eval)

lemma checked_5:
  "check_state 40" "check_state 41" "check_state 42" "check_state 43" "check_state 44" "check_state 45"
  "check_state 46" "check_state 47" "check_state 48"
  by (simp_all only: check_state_unfold) (simp_all add: lex_eval)

lemma checked_6:
  "check_state 49" "check_state 50" "check_state 51" "check_state 52" "check_state 53" "check_state 54"
  "check_state 55" "check_state 56" "check_state 57"
  by (simp_all only: check_state_unfold) (simp_all add: lex_eval)

lemma checked_7:
  "check_state 58" "check_state 59" "check_state 60" "check_state 61" "check_state 62" "check_state 63"
  "check_state 64" "check_state 65" "check_state 66"
  by (simp_all only: check_state_unfold) (simp_all add: lex_eval)

lemma checked_8:
  "check_state 67" "check_state 68" "check_state 69" "check_state 70" "check_state 71" "check_state 72"
  "check_state 73" "check_state 74" "check_state 75"
  by (simp_all only: check_state_unfold) (simp_all add: lex_eval)

lemma checked_9:
  "check_state 76" "check_state 77" "check_state 78" "check_state 79" "check_state 80" "check_state 81"
  "check_state 82" "check_state 83" "check_state 84"
  by (simp_all only: check_state_unfold) (simp_all add: lex_eval)

lemma checked_10:
  "check_state 85" "check_state 86" "check_state 87" "check_state 88" "check_state 89" "check_state 90"
  "check_state 91" "check_state 92" "check_state 93"
  by (simp_all only: check_state_unfold) (simp_all add: lex_eval)

lemma checked_11:
  "check_state 94" "check_state 95" "check_state 96" "check_state 97" "check_state 98" "check_state 99"
  "check_state 100" "check_state 101"
  by (simp_all only: check_state_unfold) (simp_all add: lex_eval)

lemmas states_checked = checked_start checked_1 checked_2 checked_3 checked_4 checked_5 checked_6 checked_7 checked_8 checked_9 checked_10 checked_11

definition lex_states :: "nat list" where "lex_states = 1 # [4..<102]"

lemma lex_states_checked: "s \<in> set lex_states \<Longrightarrow> check_state s"
proof -
  have "list_all check_state lex_states" by (simp add: lex_states_def upt_conv_Cons states_checked)
  then show "s \<in> set lex_states \<Longrightarrow> check_state s" by (simp add: list_all_iff)
qed

end
