(* ===== verification/LexDfa.thy ===== *)
theory LexDfa
  imports LexFacts
begin

text \<open>
  The automaton of the scanner is that of its patterns: from a state it finds the longest match of the patterns that
  are left in the state, and of these the first rule.
\<close>

section \<open>Classes of characters\<close>

text \<open>
  The class a character is taken for: that of its code, but for NUL, whose code has the class of the end of the
  buffer and which \<open>yy_get_previous_state\<close> takes for an ordinary character.
\<close>

definition lex_class :: "char \<Rightarrow> nat" where "lex_class c = (if c = NUL then 1 else yy_class c)"

definition class_rep :: "nat \<Rightarrow> char" where "class_rep k = class_reps ! (k - 1)"

fun in_code :: "nat \<Rightarrow> cset \<Rightarrow> bool" where
  "in_code n (Lit d) = (n = of_char d)"
| "in_code n Letter = (65 \<le> n \<and> n \<le> 90 \<or> 97 \<le> n \<and> n \<le> 122)"
| "in_code n Word = (65 \<le> n \<and> n \<le> 90 \<or> 97 \<le> n \<and> n \<le> 122 \<or> 48 \<le> n \<and> n \<le> 57 \<or> n = 95 \<or> n = 58)"
| "in_code n Digit = (48 \<le> n \<and> n \<le> 57)"
| "in_code n Sign = (n = 45 \<or> n = 43)"
| "in_code n ExpSign = (n = 101 \<or> n = 69)"
| "in_code n Blank = (n = 32 \<or> n = 9)"
| "in_code n NotNewline = (n \<noteq> 10)"

lemma char_code: "of_char c = (of_char d :: nat) \<longleftrightarrow> c = d"
  by (metis char_of_char)

lemma in_code: "in_cset c x = in_code (of_char c) x"
  using char_code [of c "CHR ''-''"] char_code [of c "CHR ''+''"] char_code [of c "CHR ''e''"] char_code [of c "CHR ''E''"]
    char_code [of c "CHR '' ''"] char_code [of c "CHR 0x09"] char_code [of c "CHR 0x0A"] char_code
  by (cases x) (auto simp: Let_def)

definition code_reps :: "nat list" where
  "code_reps =
    [0, 1, 9, 10, 33, 35, 38, 40, 41, 42, 43, 44, 45, 46, 47, 48, 49, 50, 51, 52, 58, 59, 60, 61, 62,
     65, 66, 68, 69, 70, 71, 72, 73, 76, 77, 78, 79, 82, 83, 84, 85, 86, 87, 89, 95, 101, 123, 124, 125]"

lemma code_reps: "code_reps = 0 # map of_char class_reps"
  by (simp add: code_reps_def class_reps_def)

lemma code_reps_nth:
  "code_reps ! (Suc 0) = Suc 0" "code_reps ! 2 = 9" "code_reps ! 3 = 10" "code_reps ! 4 = 33"
  "code_reps ! 5 = 35" "code_reps ! 6 = 38" "code_reps ! 7 = 40" "code_reps ! 8 = 41" "code_reps ! 9 = 42"
  "code_reps ! 10 = 43" "code_reps ! 11 = 44" "code_reps ! 12 = 45" "code_reps ! 13 = 46" "code_reps ! 14 = 47"
  "code_reps ! 15 = 48" "code_reps ! 16 = 49" "code_reps ! 17 = 50" "code_reps ! 18 = 51" "code_reps ! 19 = 52"
  "code_reps ! 20 = 58" "code_reps ! 21 = 59" "code_reps ! 22 = 60" "code_reps ! 23 = 61" "code_reps ! 24 = 62"
  "code_reps ! 25 = 65" "code_reps ! 26 = 66" "code_reps ! 27 = 68" "code_reps ! 28 = 69" "code_reps ! 29 = 70"
  "code_reps ! 30 = 71" "code_reps ! 31 = 72" "code_reps ! 32 = 73" "code_reps ! 33 = 76" "code_reps ! 34 = 77"
  "code_reps ! 35 = 78" "code_reps ! 36 = 79" "code_reps ! 37 = 82" "code_reps ! 38 = 83" "code_reps ! 39 = 84"
  "code_reps ! 40 = 85" "code_reps ! 41 = 86" "code_reps ! 42 = 87" "code_reps ! 43 = 89" "code_reps ! 44 = 95"
  "code_reps ! 45 = 101" "code_reps ! 46 = 123" "code_reps ! 47 = 124" "code_reps ! 48 = 125"
  by (simp_all add: code_reps_def)

text \<open>The codes of the characters that the patterns name one by one.\<close>

definition lit_code :: "nat \<Rightarrow> bool" where
  "lit_code n = (
     n = 10 \<or> n = 33 \<or> n = 35 \<or> n = 38 \<or> 40 \<le> n \<and> n \<le> 47 \<or> 49 \<le> n
     \<and> n \<le> 52 \<or> 59 \<le> n \<and> n \<le> 62 \<or> n = 65 \<or> 68 \<le> n \<and> n \<le>
     73 \<or> 76 \<le> n \<and> n \<le> 79 \<or> 82 \<le> n \<and> n \<le> 87 \<or> n = 89 \<or> n = 95
     \<or> 123 \<le> n \<and> n \<le> 125)"

definition check_code :: "nat \<Rightarrow> bool" where
  "check_code n = (let k = (if n = 0 then 1 else yy_ec ! n); r = code_reps ! k
     in 0 < k \<and> k < 49 \<and>
       (n = r \<or> \<not> lit_code n \<and> \<not> lit_code r \<and>
         list_all (\<lambda>x. in_code n x = in_code r x) [Letter, Word, Digit, Sign, ExpSign, Blank, NotNewline]))"

lemma codes_checked: "list_all check_code [0..<256]"
proof -
  have "[0..<256] =
    [0, 1, 2, 3, 4, 5, 6, 7, 8, 9, 10, 11, 12, 13, 14, 15, 16, 17, 18, 19, 20, 21, 22, 23, 24, 25, 26, 27,
     28, 29, 30, 31, 32, 33, 34, 35, 36, 37, 38, 39, 40, 41, 42, 43, 44, 45, 46, 47, 48, 49, 50, 51, 52, 53,
     54, 55, 56, 57, 58, 59, 60, 61, 62, 63, 64, 65, 66, 67, 68, 69, 70, 71, 72, 73, 74, 75, 76, 77, 78, 79,
     80, 81, 82, 83, 84, 85, 86, 87, 88, 89, 90, 91, 92, 93, 94, 95, 96, 97, 98, 99, 100, 101, 102, 103,
     104, 105, 106, 107, 108, 109, 110, 111, 112, 113, 114, 115, 116, 117, 118, 119, 120, 121, 122, 123,
     124, 125, 126, 127, 128, 129, 130, 131, 132, 133, 134, 135, 136, 137, 138, 139, 140, 141, 142, 143,
     144, 145, 146, 147, 148, 149, 150, 151, 152, 153, 154, 155, 156, 157, 158, 159, 160, 161, 162, 163,
     164, 165, 166, 167, 168, 169, 170, 171, 172, 173, 174, 175, 176, 177, 178, 179, 180, 181, 182, 183,
     184, 185, 186, 187, 188, 189, 190, 191, 192, 193, 194, 195, 196, 197, 198, 199, 200, 201, 202, 203,
     204, 205, 206, 207, 208, 209, 210, 211, 212, 213, 214, 215, 216, 217, 218, 219, 220, 221, 222, 223,
     224, 225, 226, 227, 228, 229, 230, 231, 232, 233, 234, 235, 236, 237, 238, 239, 240, 241, 242, 243,
     244, 245, 246, 247, 248, 249, 250, 251, 252, 253, 254, 255]"
    by code_simp
  then show ?thesis
    by (simp only:) (simp add: check_code_def code_reps_nth lit_code_def yy_ec_nth)
qed


lemma check_code_char: "check_code (of_char c)"
proof -
  have "\<forall>n\<in>{0..<256}. check_code n" using codes_checked unfolding list_all_iff set_upt .
  then show ?thesis by simp
qed

lemma lex_class_code: "lex_class c = (if of_char c = (0::nat) then 1 else yy_ec ! of_char c)"
  using char_code [of c NUL] by (simp add: lex_class_def yy_class_def NUL_def)

lemma lex_class_checked:
  "0 < lex_class c \<and> lex_class c < 49 \<and>
   (of_char c = code_reps ! lex_class c \<or> \<not> lit_code (of_char c) \<and> \<not> lit_code (code_reps ! lex_class c) \<and>
     list_all (\<lambda>x. in_code (of_char c) x = in_code (code_reps ! lex_class c) x)
       [Letter, Word, Digit, Sign, ExpSign, Blank, NotNewline])"
  using check_code_char [of c] unfolding check_code_def Let_def lex_class_code .

lemma lex_class_bounds: "0 < lex_class c" "lex_class c < 49"
  using lex_class_checked [of c] by blast+

lemma class_reps_length: "length class_reps = 48"
  by (simp add: class_reps_def)

lemma class_rep_code: "0 < k \<Longrightarrow> k < 49 \<Longrightarrow> of_char (class_rep k) = code_reps ! k"
  by (cases k) (simp_all add: code_reps class_rep_def class_reps_length)

lemma lit_code_atoms: "Lit d \<in> set lex_atoms \<Longrightarrow> lit_code (of_char d)"
  by (simp add: lex_atoms_def) (elim disjE; simp add: lit_code_def)

text \<open>The sets of the patterns do not tell a character from the representative of its class.\<close>

lemma same_code:
  assumes "\<not> lit_code n" "\<not> lit_code r" "x \<in> set lex_atoms"
    "list_all (\<lambda>x. in_code n x = in_code r x) [Letter, Word, Digit, Sign, ExpSign, Blank, NotNewline]"
  shows "in_code n x = in_code r x"
proof (cases x)
  case (Lit d)
  with assms(1,2,3) lit_code_atoms show ?thesis by force
qed (use assms(4) in \<open>simp_all del: in_code.simps\<close>)

lemma same_class: "x \<in> set lex_atoms \<Longrightarrow> in_cset c x = in_cset (class_rep (lex_class c)) x"
  unfolding in_code class_rep_code [OF lex_class_bounds] using lex_class_checked [of c] same_code by metis

lemma after_same_class: "set (csets r) \<subseteq> set lex_atoms \<Longrightarrow> after c r = after (class_rep (lex_class c)) r"
  by (induction r) (auto simp: same_class [of _ c])

section \<open>Facts of the certificate\<close>

lemma lex_left_checked:
  "list_all (\<lambda>rs. list_all (\<lambda>(a, r). 0 < a \<and> a \<le> 38 \<and> list_all (\<lambda>x. x \<in> set lex_atoms) (csets r)) rs) lex_left"
  by (simp add: lex_left_def lex_rules_eval lex_atoms_def any_left_def word_left_def digits_left_def number_left_def
      NUMBER_pattern_def IDENTIFIER_pattern_def comment_pattern_def number_exponent_def Plus_def Opt_def)

lemma lex_left_length: "length lex_left = 102"
  by (simp add: lex_left_def)

lemma lex_states_iff: "s \<in> set lex_states \<longleftrightarrow> s = 1 \<or> 4 \<le> s \<and> s < 102"
  by (simp add: lex_states_def del: upt_rec_numeral)

lemma lex_states_less: "s \<in> set lex_states \<Longrightarrow> s < 102" "s \<in> set lex_states \<Longrightarrow> 0 < s" "s \<in> set lex_states \<Longrightarrow> s \<noteq> 3"
  by (auto simp: lex_states_iff)

lemma left_facts:
  assumes "s \<in> set lex_states" "(a, r) \<in> set (lex_left ! s)"
  shows "0 < a" "a \<le> 38" "set (csets r) \<subseteq> set lex_atoms"
proof -
  have "lex_left ! s \<in> set lex_left" using lex_states_less [OF assms(1)] by (simp add: lex_left_length)
  with lex_left_checked assms(2) have "0 < a \<and> a \<le> 38 \<and> list_all (\<lambda>x. x \<in> set lex_atoms) (csets r)"
    by (fastforce simp: list_all_iff)
  then show "0 < a" "a \<le> 38" "set (csets r) \<subseteq> set lex_atoms" by (auto simp: list_all_iff)
qed

lemma rules_after_same_class:
  assumes "s \<in> set lex_states"
  shows "rules_after c (lex_left ! s) = rules_after (class_rep (lex_class c)) (lex_left ! s)"
proof -
  have "map (\<lambda>(a, r). map (Pair a) (after c r)) (lex_left ! s) =
      map (\<lambda>(a, r). map (Pair a) (after (class_rep (lex_class c)) r)) (lex_left ! s)"
  proof (rule map_cong [OF refl])
    fix x assume x: "x \<in> set (lex_left ! s)"
    obtain a r where "x = (a, r)" by (cases x)
    with x left_facts(3) [OF assms] have "after c r = after (class_rep (lex_class c)) r"
      by (intro after_same_class) simp
    then show "(case x of (a, r) \<Rightarrow> map (Pair a) (after c r)) =
        (case x of (a, r) \<Rightarrow> map (Pair a) (after (class_rep (lex_class c)) r))"
      using \<open>x = (a, r)\<close> by (simp only: prod.case)
  qed
  then show ?thesis by (simp only: rules_after_def)
qed

lemma class_checked:
  assumes "check_state s" "0 < k" "k < 49"
  shows "check_step s k (class_rep k)"
proof -
  have "(k, class_rep k) \<in> set (zip [1..<49] class_reps)"
    using assms(2,3) by (auto simp: in_set_zip class_rep_def class_reps_length simp del: upt_rec_numeral intro!: exI [of _ "k - 1"])
  moreover have "\<forall>(k, c)\<in>set (zip [1..<49] class_reps). check_step s k c"
    using assms(1) unfolding check_state_def list_all_iff by blast
  ultimately show ?thesis by blast
qed

section \<open>Transitions\<close>

definition lex_next :: "nat \<Rightarrow> char \<Rightarrow> nat" where
  "lex_next s c = (case yy_next s (lex_class c) of Ret s' \<Rightarrow> s' | _ \<Rightarrow> 102)"

lemma lex_next_step:
  assumes "s \<in> set lex_states"
  shows "yy_next s (lex_class c) = Ret (lex_next s c)"
    and "if lex_next s c = 102 then \<forall>a w. \<not> rules_match (lex_left ! s) a (c # w)
      else lex_next s c \<in> set lex_states \<and>
        (\<forall>a w. rules_match (lex_left ! s) a (c # w) = rules_match (lex_left ! lex_next s c) a w)"
proof -
  let ?k = "lex_class c"
  have "check_step s ?k (class_rep ?k)"
    using class_checked [OF lex_states_checked [OF assms] lex_class_bounds] .
  then obtain s' where s': "yy_next s ?k = Ret s'"
    and step: "if s' = 102 then rules_after c (lex_left ! s) = []
      else 4 \<le> s' \<and> s' < 102 \<and> same_rules (rules_after c (lex_left ! s)) (lex_left ! s')"
    unfolding check_step_def rules_after_same_class [OF assms, of c, symmetric] by (auto split: res.splits if_splits)
  from s' have eq: "lex_next s c = s'" by (simp add: lex_next_def)
  show "yy_next s ?k = Ret (lex_next s c)" by (simp add: eq s')
  show "if lex_next s c = 102 then \<forall>a w. \<not> rules_match (lex_left ! s) a (c # w)
      else lex_next s c \<in> set lex_states \<and>
        (\<forall>a w. rules_match (lex_left ! s) a (c # w) = rules_match (lex_left ! lex_next s c) a w)"
  proof (cases "s' = 102")
    case True
    with step show ?thesis by (simp add: eq rules_match_Cons) (simp add: rules_match_def)
  next
    case False
    with step have "set (rules_after c (lex_left ! s)) = set (lex_left ! s')"
      by (auto simp: same_rules_def list_all_iff)
    then have "rules_match (rules_after c (lex_left ! s)) = rules_match (lex_left ! s')" by (rule rules_match_cong)
    with False step show ?thesis by (simp add: eq rules_match_Cons lex_states_iff)
  qed
qed

lemma yy_next_NUL: "s \<in> set lex_states \<Longrightarrow> yy_next s 0 = Ret 3"
  using lex_states_checked by (simp add: check_state_def)

lemma yy_accept_first:
  assumes "s \<in> set lex_states"
  shows "if yy_accept ! s = 0 then \<forall>a. \<not> rules_match (lex_left ! s) a []
    else rules_match (lex_left ! s) (yy_accept ! s) [] \<and>
      (\<forall>a. rules_match (lex_left ! s) a [] \<longrightarrow> yy_accept ! s \<le> a)"
proof -
  have "yy_accept ! s = first_nullable (lex_left ! s)" using lex_states_checked [OF assms] by (simp add: check_state_def)
  moreover have "\<forall>(a, r)\<in>set (lex_left ! s). 0 < a" using left_facts(1) [OF assms] by auto
  ultimately show ?thesis using first_nullable by simp
qed

end
