(* ===== verification/LexScan.thy ===== *)
theory LexScan
  imports LexDfa
begin

text \<open>
  The scanner without its buffer: on a whole text the automaton finds the longest match and the first of the rules
  that have it, and \<open>text_lex\<close> gives the tokens of the text.
\<close>

section \<open>The longest match\<close>

definition is_longest :: "(nat \<times> rexp) list \<Rightarrow> string \<Rightarrow> nat \<Rightarrow> nat \<Rightarrow> bool" where
  "is_longest rs t a n \<longleftrightarrow>
     n \<le> length t \<and> rules_match rs a (take n t) \<and> (\<forall>b. rules_match rs b (take n t) \<longrightarrow> a \<le> b) \<and>
     (\<forall>m b. n < m \<and> m \<le> length t \<longrightarrow> \<not> rules_match rs b (take m t))"

lemma is_longest_unique: "is_longest rs t a n \<Longrightarrow> is_longest rs t b m \<Longrightarrow> a = b \<and> n = m"
  by (metis is_longest_def linorder_neqE_nat order_antisym)

text \<open>The automaton: \<open>best\<close> is the last accepting state's rule with the number of characters before it.\<close>

fun lex_run :: "nat \<Rightarrow> nat \<times> nat \<Rightarrow> nat \<Rightarrow> string \<Rightarrow> nat \<times> nat" where
  "lex_run s best n t =
     (let best = (if yy_accept ! s = 0 then best else (yy_accept ! s, n))
      in case t of [] \<Rightarrow> best
         | c # t \<Rightarrow> if lex_next s c = 102 then best else lex_run (lex_next s c) best (n + 1) t)"

declare lex_run.simps [simp del]

definition munch :: "string \<Rightarrow> nat \<times> nat" where "munch t = lex_run 1 (0, 0) 0 t"

lemma is_longest_Nil: "is_longest rs [] a n \<longleftrightarrow> n = 0 \<and> rules_match rs a [] \<and> (\<forall>b. rules_match rs b [] \<longrightarrow> a \<le> b)"
  by (auto simp: is_longest_def)

lemma is_longest_Cons:
  assumes "\<forall>a w. rules_match rs a (c # w) = rules_match rs' a w"
  shows "is_longest rs' t a n \<Longrightarrow> is_longest rs (c # t) a (Suc n)"
    and "rules_match rs a [] \<Longrightarrow> \<forall>b. rules_match rs b [] \<longrightarrow> a \<le> b \<Longrightarrow>
      \<forall>m b. m \<le> length t \<longrightarrow> \<not> rules_match rs' b (take m t) \<Longrightarrow> is_longest rs (c # t) a 0"
proof -
  assume t: "is_longest rs' t a n"
  have "\<not> rules_match rs b (take m (c # t))" if "Suc n < m" "m \<le> length (c # t)" for m b
    using that t assms by (cases m) (auto simp: is_longest_def)
  with t assms show "is_longest rs (c # t) a (Suc n)" by (auto simp: is_longest_def)
next
  assume a: "rules_match rs a []" "\<forall>b. rules_match rs b [] \<longrightarrow> a \<le> b"
    and m: "\<forall>m b. m \<le> length t \<longrightarrow> \<not> rules_match rs' b (take m t)"
  have "\<not> rules_match rs b (take m (c # t))" if "0 < m" "m \<le> length (c # t)" for m b
    using that m assms by (cases m) auto
  with a show "is_longest rs (c # t) a 0" by (auto simp: is_longest_def)
qed

lemma lex_run_longest:
  assumes "s \<in> set lex_states"
  shows "if \<exists>m a. m \<le> length t \<and> rules_match (lex_left ! s) a (take m t)
    then \<exists>a m. lex_run s best n t = (a, n + m) \<and> is_longest (lex_left ! s) t a m
    else lex_run s best n t = best"
  using assms
proof (induction t arbitrary: s best n)
  case Nil
  then show ?case using yy_accept_first [OF Nil] by (auto simp: lex_run.simps [of s] is_longest_Nil split: if_splits)
next
  case (Cons c t)
  let ?rs = "lex_left ! s" and ?best = "if yy_accept ! s = 0 then best else (yy_accept ! s, n)"
  note step = lex_next_step(2) [OF Cons.prems, of c]
  note acc = yy_accept_first [OF Cons.prems]
  have split: "(\<exists>m a. m \<le> length (c # t) \<and> rules_match ?rs a (take m (c # t))) \<longleftrightarrow>
      (\<exists>a. rules_match ?rs a []) \<or> (\<exists>m a. m \<le> length t \<and> rules_match ?rs a (c # take m t))"
  proof -
    have "(\<exists>m. m \<le> length (c # t) \<and> Q (take m (c # t))) \<longleftrightarrow> Q [] \<or> (\<exists>m. m \<le> length t \<and> Q (c # take m t))" for Q
      by (metis (no_types, lifting) Suc_le_mono le0 length_Cons not0_implies_Suc take_Suc_Cons take0)
    from this [of "\<lambda>w. \<exists>a. rules_match ?rs a w"] show ?thesis by blast
  qed
  show ?case
  proof (cases "lex_next s c = 102")
    case True
    then have none: "\<And>a w. \<not> rules_match ?rs a (c # w)" using step by simp
    have "is_longest ?rs (c # t) a 0" if "rules_match ?rs a []" "\<forall>b. rules_match ?rs b [] \<longrightarrow> a \<le> b" for a
      using that none by (auto simp: is_longest_def take_Cons split: nat.splits)
    then show ?thesis
      using True acc none unfolding split by (auto simp: lex_run.simps [of s] split: if_splits)
  next
    case False
    let ?s = "lex_next s c"
    from False step have s': "?s \<in> set lex_states" and eq: "\<forall>a w. rules_match ?rs a (c # w) = rules_match (lex_left ! ?s) a w"
      by auto
    have run: "lex_run s best n (c # t) = lex_run ?s ?best (n + 1) t"
      using False by (simp add: lex_run.simps [of s])
    note IH = Cons.IH [OF s', of ?best "n + 1"]
    show ?thesis
    proof (cases "\<exists>m a. m \<le> length t \<and> rules_match (lex_left ! ?s) a (take m t)")
      case True
      then obtain a m where "lex_run ?s ?best (n + 1) t = (a, n + 1 + m)" "is_longest (lex_left ! ?s) t a m"
        using IH by auto
      then have "lex_run s best n (c # t) = (a, n + Suc m)" "is_longest ?rs (c # t) a (Suc m)"
        using run is_longest_Cons(1) [OF eq] by auto
      then show ?thesis using True eq unfolding split by auto
    next
      case none: False
      with IH have r: "lex_run s best n (c # t) = ?best" unfolding run by (simp only: if_False)
      show ?thesis
      proof (cases "yy_accept ! s = 0")
        case True
        with acc none eq r show ?thesis unfolding split by auto
      next
        case False
        then have "is_longest ?rs (c # t) (yy_accept ! s) 0"
          using acc none by (intro is_longest_Cons(2) [OF eq]) auto
        then show ?thesis using r False acc unfolding split by auto
      qed
    qed
  qed
qed

lemma lex_left_start: "lex_left ! 1 = lex_rules" "lex_left ! Suc 0 = lex_rules"
  using lex_left_nth by simp_all

lemma some_rule: "\<exists>a. rules_match lex_rules a [c]"
proof (cases "c = CHR 0x0A")
  case True
  then have "rules_match lex_rules 37 [c]"
    by (auto simp: rules_match_def lex_rules_def rmatch_simps intro!: exI [of _ "Chars (Lit (CHR 0x0A))"])
  then show ?thesis ..
next
  case False
  then have "rules_match lex_rules 38 [c]"
    by (auto simp: rules_match_def lex_rules_def rmatch_simps intro!: exI [of _ "Chars NotNewline"])
  then show ?thesis ..
qed

lemma munch_is_longest:
  assumes "t \<noteq> []"
  shows "is_longest lex_rules t (fst (munch t)) (snd (munch t)) \<and> 0 < snd (munch t)"
proof -
  obtain c u where t: "t = c # u" using assms by (cases t) auto
  obtain a where a: "rules_match lex_rules a (take 1 t)" using some_rule [of c] by (auto simp: t)
  then have "\<exists>m a. m \<le> length t \<and> rules_match (lex_left ! 1) a (take m t)"
    unfolding lex_left_start by (intro exI [of _ "1::nat"] exI [of _ a]) (simp add: t)
  then obtain b m where "munch t = (b, m)" and long: "is_longest lex_rules t b m"
    using lex_run_longest [of 1 t "(0, 0)" 0] by (auto simp: munch_def lex_left_start lex_states_iff)
  moreover have "m \<noteq> 0"
  proof
    assume "m = 0"
    moreover have "\<forall>n b. m < n \<and> n \<le> length t \<longrightarrow> \<not> rules_match lex_rules b (take n t)"
      using long unfolding is_longest_def by blast
    moreover have "1 \<le> length t" by (simp add: t)
    ultimately show False using a by blast
  qed
  ultimately show ?thesis by simp
qed

lemma munch_bounds: "t \<noteq> [] \<Longrightarrow> 0 < snd (munch t) \<and> snd (munch t) \<le> length t"
  using munch_is_longest by (auto simp: is_longest_def)


section \<open>Tokens\<close>

text \<open>
  The tokens of a text: blanks, comments and ends of lines are skipped, and at an invalid character the scanner
  calls \<open>yyerror\<close> with one argument.
\<close>

function text_lex :: "string lexer" where
  "text_lex t v =
     (if t = [] then Ret (0, v, [])
      else let (a, n) = munch t in
        if a = 35 \<or> a = 36 \<or> a = 37 then text_lex (drop n t) v
        else if a = 38 then Ub
        else Ret (lex_token a, lex_value a (take n t) v, drop n t))"
  by auto

termination
proof (relation "measure (length \<circ> fst)")
  fix t v x a n
  assume "t \<noteq> []" "x = munch t" "(a, n) = x" "a = 35 \<or> a = 36 \<or> a = 37"
  then show "((drop n t, v), t, v) \<in> measure (length \<circ> fst)"
    using munch_bounds [of t] by (metis comp_def diff_less fst_conv in_measure length_drop length_greater_0_conv snd_conv)
qed simp

declare text_lex.simps [simp del]

text \<open>All tokens up to the end of the text, where there is no invalid character.\<close>

function scan_text :: "string \<Rightarrow> token list option" where
  "scan_text t =
     (if t = [] then Some []
      else let (a, n) = munch t in
        if a = 35 \<or> a = 36 \<or> a = 37 then scan_text (drop n t)
        else if a = 38 then None
        else map_option (Cons (lex_token a,
          if a < 25 then None else Some (lex_value a (take n t) YyGarbage))) (scan_text (drop n t)))"
  by auto

termination
proof (relation "measure length")
  fix t x a n
  assume "t \<noteq> []" "x = munch t" "(a, n) = x"
  then show "(drop n t, t) \<in> measure length" "(drop n t, t) \<in> measure length"
    using munch_bounds [of t] by (metis diff_less in_measure length_drop length_greater_0_conv snd_conv)+
qed simp

declare scan_text.simps [simp del]

end
