(* ===== verification/LexBuffer.thy ===== *)
theory LexBuffer
  imports LexScan
begin

text \<open>
  The scanner with its buffer gives the tokens of the whole text, however the text lies in the buffer: at the end of
  the buffer in the middle of a token it reads more and takes up the match where it was, and so it does at a NUL of
  the text.
\<close>

section \<open>The automaton, started in the middle\<close>

fun lex_delta :: "nat \<Rightarrow> string \<Rightarrow> nat" where
  "lex_delta s [] = s"
| "lex_delta s (c # w) = (if lex_next s c = 102 then 102 else lex_delta (lex_next s c) w)"

definition better :: "nat \<Rightarrow> nat \<Rightarrow> nat \<times> nat \<Rightarrow> nat \<times> nat" where
  "better s n best = (if yy_accept ! s = 0 then best else (yy_accept ! s, n))"

fun lex_best :: "nat \<Rightarrow> nat \<times> nat \<Rightarrow> nat \<Rightarrow> string \<Rightarrow> nat \<times> nat" where
  "lex_best s best n [] = best"
| "lex_best s best n (c # w) = lex_best (lex_next s c) (better s n best) (n + 1) w"

lemma lex_run_Nil: "lex_run s best n [] = better s n best"
  by (simp add: lex_run.simps [of s] better_def)

lemma lex_run_Cons:
  "lex_run s best n (c # t) =
     (if lex_next s c = 102 then better s n best else lex_run (lex_next s c) (better s n best) (n + 1) t)"
  by (simp add: lex_run.simps [of s] better_def Let_def)

lemma lex_delta_states:
  assumes "lex_delta s (c # w) \<in> set lex_states" "s \<in> set lex_states"
  shows "lex_next s c \<noteq> 102" "lex_next s c \<in> set lex_states" "lex_delta (lex_next s c) w \<in> set lex_states"
  using assms lex_next_step(2) [OF assms(2), of c] by (auto simp: lex_states_iff split: if_splits)

lemma lex_run_append:
  "s \<in> set lex_states \<Longrightarrow> lex_delta s w \<in> set lex_states \<Longrightarrow>
    lex_run s best n (w @ t) = lex_run (lex_delta s w) (lex_best s best n w) (n + length w) t"
proof (induction w arbitrary: s best n)
  case (Cons c w)
  with lex_delta_states [of s c w] show ?case by (simp add: lex_run_Cons)
qed simp

lemma lex_delta_append:
  "lex_delta s w \<in> set lex_states \<Longrightarrow> s \<in> set lex_states \<Longrightarrow> lex_delta s (w @ u) = lex_delta (lex_delta s w) u"
proof (induction w arbitrary: s)
  case (Cons c w)
  with lex_delta_states [of s c w] show ?case by simp
qed simp

lemma lex_best_append: 
  "lex_delta s w \<in> set lex_states \<Longrightarrow> s \<in> set lex_states \<Longrightarrow>
    lex_best s best n (w @ u) = lex_best (lex_delta s w) (lex_best s best n w) (n + length w) u"
proof (induction w arbitrary: s best n)
  case (Cons c w)
  with lex_delta_states [of s c w] show ?case by simp
qed simp

text \<open>One character always matches a rule.\<close>

lemma start_state: "1 \<in> set lex_states"
  by (simp add: lex_states_iff)

lemma start_step: "lex_next 1 c \<noteq> 102 \<and> lex_next 1 c \<in> set lex_states \<and> yy_accept ! lex_next 1 c \<noteq> 0"
proof -
  obtain a where a: "rules_match (lex_left ! 1) a [c]" using some_rule [of c] by (auto simp: lex_left_start)
  then have n: "lex_next 1 c \<noteq> 102" using lex_next_step(2) [OF start_state, of c] by (auto split: if_splits)
  then have s: "lex_next 1 c \<in> set lex_states" and "rules_match (lex_left ! lex_next 1 c) a []"
    using lex_next_step(2) [OF start_state, of c] a by auto
  then show ?thesis using n yy_accept_first [OF s] by (auto split: if_splits)
qed

definition live :: "nat \<Rightarrow> nat \<times> nat \<Rightarrow> bool" where
  "live s best \<longleftrightarrow> yy_accept ! s \<noteq> 0 \<or> fst best \<noteq> 0"

lemma lex_best_live: "fst best \<noteq> 0 \<Longrightarrow> fst (lex_best s best n w) \<noteq> 0"
  by (induction w arbitrary: s best n) (auto simp: better_def)

lemma live_started:
  assumes "lex_delta 1 w \<in> set lex_states" "w \<noteq> []"
  shows "live (lex_delta 1 w) (lex_best 1 (0, 0) 0 w)"
proof -
  obtain c u where w: "w = c # u" using assms(2) by (cases w) auto
  show ?thesis
  proof (cases u)
    case Nil
    then show ?thesis using start_step [of c] by (simp add: w live_def)
  next
    case (Cons d x)
    have "fst (better (lex_next 1 c) 1 b) \<noteq> 0" for b using start_step [of c] by (simp add: better_def)
    then have "fst (lex_best (lex_next (lex_next 1 c) d) (better (lex_next 1 c) 1 (better 1 0 (0, 0))) 2 x) \<noteq> 0"
      by (rule lex_best_live)
    then show ?thesis by (simp add: w Cons live_def numeral_2_eq_2)
  qed
qed

lemma live_better: "live s best \<Longrightarrow> fst (better s n best) \<noteq> 0"
  by (auto simp: live_def better_def)

text \<open>The states at which \<open>yy_match\<close> stops at once.\<close>

lemma base_jam: "yy_base ! 102 = 171" "yy_accept ! 102 = 0" "yy_base ! 3 = 170" "yy_accept ! 3 = 40"
  by (simp_all add: yy_base_nth yy_accept_nth)

lemma left_ends:
  "list_all (\<lambda>(b, rs). rs \<noteq> [] \<and> (b = 171 \<longrightarrow> (\<forall>x\<in>set rs. snd x = One))) (zip (drop 4 yy_base) (drop 4 lex_left))"
  by (simp add: yy_base_def lex_left_def any_left_def)

lemma left_end:
  assumes "s \<in> set lex_states"
  shows "lex_left ! s \<noteq> []" "yy_base ! s = 171 \<Longrightarrow> x \<in> set (lex_left ! s) \<Longrightarrow> snd x = One"
proof -
  have "lex_left ! s \<noteq> [] \<and> (yy_base ! s = 171 \<longrightarrow> (\<forall>x\<in>set (lex_left ! s). snd x = One))"
  proof (cases "s = 1")
    case True
    then show ?thesis by (simp add: lex_left_start lex_rules_def yy_base_nth)
  next
    case False
    with assms have s: "4 \<le> s" "s < 102" by (simp_all add: lex_states_iff)
    have "length yy_base = 106" by (simp add: yy_base_def)
    with s have "(yy_base ! s, lex_left ! s) \<in> set (zip (drop 4 yy_base) (drop 4 lex_left))"
      by (auto simp: in_set_zip lex_left_length intro!: exI [of _ "s - 4"])
    then show ?thesis using left_ends by (fastforce simp: list_all_iff)
  qed
  then show "lex_left ! s \<noteq> []" "yy_base ! s = 171 \<Longrightarrow> x \<in> set (lex_left ! s) \<Longrightarrow> snd x = One" by auto
qed

lemma rmatch_some: "\<exists>w. rmatch r w"
proof (induction r)
  case (Chars s)
  have "in_cset (CHR ''a'') s \<or> in_cset (CHR ''1'') s \<or> in_cset (CHR ''-'') s \<or> in_cset (CHR ''e'') s \<or>
      in_cset (CHR '' '') s \<or> (\<exists>c. in_cset c s)"
    by (cases s) auto
  then show ?case using rm_chars by blast
next
  case (Seq r s)
  then show ?case using rm_seq by blast
next
  case (Alt r s)
  then show ?case using rm_alt1 by blast
qed (blast intro: rm_one rm_star0)+

lemma base_stop:
  assumes "s \<in> set lex_states" "yy_base ! s = 171"
  shows "yy_accept ! s \<noteq> 0" "lex_next s c = 102"
proof -
  obtain a r rs where rs: "lex_left ! s = (a, r) # rs" using left_end(1) [OF assms(1)] by (cases "lex_left ! s") auto
  then have "rules_match (lex_left ! s) a []"
    using left_end(2) [OF assms, of "(a, r)"] by (auto simp: rules_match_def rmatch_Nil)
  then show "yy_accept ! s \<noteq> 0" using yy_accept_first [OF assms(1)] by (auto split: if_splits)
  show "lex_next s c = 102"
  proof (rule ccontr)
    assume n: "lex_next s c \<noteq> 102"
    note step = lex_next_step(2) [OF assms(1), of c]
    from n step have "lex_next s c \<in> set lex_states" by simp
    then obtain b q qs where "lex_left ! lex_next s c = (b, q) # qs"
      using left_end(1) by (cases "lex_left ! lex_next s c") auto
    moreover obtain w where "rmatch q w" using rmatch_some by blast
    ultimately have "rules_match (lex_left ! lex_next s c) b w" by (auto simp: rules_match_def)
    then have "rules_match (lex_left ! s) b (c # w)" using n step by simp
    then obtain r where "(b, r) \<in> set (lex_left ! s)" "rmatch r (c # w)" by (auto simp: rules_match_def)
    then show False using left_end(2) [OF assms, of "(b, r)"] by (simp add: rmatch_simps)
  qed
qed


section \<open>One match\<close>

definition chosen :: "nat \<Rightarrow> nat \<Rightarrow> scanner \<Rightarrow> nat \<times> nat" where
  "chosen s cp S = (if yy_accept ! s = 0 then (yy_accept ! yy_last_accepting_state S, yy_last_accepting_cpos S)
     else (yy_accept ! s, cp))"

text \<open>The last accepting state is that of the match from \<open>bp\<close> on.\<close>

definition last_ok :: "nat \<Rightarrow> nat \<times> nat \<Rightarrow> scanner \<Rightarrow> bool" where
  "last_ok bp best S \<longleftrightarrow>
     (fst best \<noteq> 0 \<longrightarrow> yy_accept ! yy_last_accepting_state S = fst best \<and> yy_last_accepting_cpos S = bp + snd best)"

definition relast :: "scanner \<Rightarrow> scanner \<Rightarrow> bool" where
  "relast S S' \<longleftrightarrow> S' = S\<lparr>yy_last_accepting_state := yy_last_accepting_state S',
     yy_last_accepting_cpos := yy_last_accepting_cpos S'\<rparr>"

lemma relast_refl [simp]: "relast S S"
  by (cases S) (simp add: relast_def)

lemma relast_trans: "relast S S' \<Longrightarrow> relast S' S'' \<Longrightarrow> relast S S''"
  by (cases S; cases S'; cases S'') (simp add: relast_def)

lemma relast_fields:
  assumes "relast S S'"
  shows "yy_ch_buf S' = yy_ch_buf S" "yy_buf_size S' = yy_buf_size S" "yyb_n_chars S' = yyb_n_chars S"
    "yy_is_interactive S' = yy_is_interactive S" "yy_fill_buffer S' = yy_fill_buffer S"
    "yy_buffer_status S' = yy_buffer_status S" "yy_n_chars S' = yy_n_chars S" "yy_c_buf_p S' = yy_c_buf_p S"
    "yytext_ptr S' = yytext_ptr S" "yy_hold_char S' = yy_hold_char S" "yyin S' = yyin S" "yyin_tty S' = yyin_tty S"
  by (subst assms [unfolded relast_def]; simp)+

lemma relast_accepting [simp]: "relast S (yy_accepting s cp S)"
  by (cases S) (simp add: relast_def yy_accepting_def)

lemma accepting_fields [simp]: "yy_ch_buf (yy_accepting s cp S) = yy_ch_buf S"
  by (simp add: yy_accepting_def)

lemma last_ok_accepting: "last_ok bp best S \<Longrightarrow> last_ok bp (better s n best) (yy_accepting s (bp + n) S)"
  by (simp add: last_ok_def better_def yy_accepting_def)

lemma chosen_best: "last_ok bp best S \<Longrightarrow> live s best \<Longrightarrow>
    chosen s (bp + n) S = (fst (better s n best), bp + snd (better s n best))"
  by (auto simp: chosen_def last_ok_def better_def live_def)

lemma chosen_last: "last_ok bp best S \<Longrightarrow> fst best \<noteq> 0 \<Longrightarrow> chosen 102 cp S = (fst best, bp + snd best)"
  by (simp add: chosen_def last_ok_def base_jam)

text \<open>The text in the buffer: \<open>B\<close> and the two characters at its end.\<close>

definition text_at :: "string \<Rightarrow> char option list \<Rightarrow> bool" where
  "text_at B b \<longleftrightarrow> length B + 2 \<le> length b \<and> take (length B + 2) b = map Some (B @ [NUL, NUL])"

lemma text_at_cell:
  assumes "text_at B b"
  shows "i < length B \<Longrightarrow> cell b i = Ret (B ! i)" "i = length B \<or> i = length B + 1 \<Longrightarrow> cell b i = Ret NUL"
proof -
  have "b ! i = map Some (B @ [NUL, NUL]) ! i" if "i < length B + 2"
    using assms that unfolding text_at_def by (metis nth_take)
  then show "i < length B \<Longrightarrow> cell b i = Ret (B ! i)" "i = length B \<or> i = length B + 1 \<Longrightarrow> cell b i = Ret NUL"
    using assms by (auto simp: cell_def text_at_def nth_append)
qed

lemma yy_match_cell:
  "yy_match s cp S =
     rbind (cell (yy_ch_buf S) cp) (\<lambda>c.
     rbind (yy_next s (yy_class c)) (\<lambda>s'.
       if yy_base ! s' \<noteq> 171 then yy_match s' (cp + 1) (yy_accepting s cp S)
       else Ret (s', cp + 1, yy_accepting s cp S)))"
  by (subst yy_match.simps) (simp add: cell_def Let_def)

lemma yy_next_eob: "yy_next 3 (yy_class d) = Ret 102"
proof -
  have "\<forall>k\<in>set (0 # [1..<49]). yy_next 3 k = Ret 102"
    unfolding classes_upt by (simp add: yy_next_eval lex_nth)
  moreover have "yy_class d < 49"
    using lex_class_bounds [of d] by (cases "d = NUL") (simp_all add: lex_class_def yy_class_def NUL_def yy_ec_nth)
  ultimately show ?thesis by (cases "yy_class d = 0") auto
qed

lemma class_NUL: "yy_class NUL = 0"
  by (simp add: yy_class_def NUL_def yy_ec_nth)

lemma class_char: "c \<noteq> NUL \<Longrightarrow> yy_class c = lex_class c"
  by (simp add: lex_class_def)

lemma yy_match_eob:
  assumes "s \<in> set lex_states" "cell (yy_ch_buf S) cp = Ret NUL" "cell (yy_ch_buf S) (cp + 1) = Ret d"
  shows "\<exists>S'. yy_match s cp S = Ret (102, cp + 2, S') \<and> relast S S' \<and> chosen 102 (cp + 2) S' = (40, cp + 1)"
proof -
  let ?S' = "yy_accepting 3 (cp + 1) (yy_accepting s cp S)"
  have "yy_match s cp S = Ret (102, cp + 2, ?S')"
    using assms yy_next_NUL [OF assms(1)] yy_next_eob [of d] by (simp add: yy_match_cell class_NUL base_jam)
  moreover have "relast S ?S'" using relast_trans relast_accepting by blast
  moreover have "chosen 102 (cp + 2) ?S' = (40, cp + 1)" by (simp add: chosen_def base_jam yy_accepting_def)
  ultimately show ?thesis by blast
qed

text \<open>
  What \<open>yy_match\<close> finds from \<open>cp\<close> on: a match that does not depend on what follows the buffer, or the first NUL.
\<close>

lemma yy_match_finds:
  assumes "text_at B (yy_ch_buf S)" "cp \<le> length B" "bp \<le> cp" "s \<in> set lex_states" "last_ok bp best S"
    "live s best \<or> s = 1"
  shows "\<exists>s' cp' S'. yy_match s cp S = Ret (s', cp', S') \<and> relast S S' \<and>
    ((\<exists>a n. chosen s' cp' S' = (a, bp + n) \<and> a \<noteq> 0 \<and> (\<forall>x. lex_run s best (cp - bp) (drop cp B @ x) = (a, n))) \<or>
     (\<exists>p. chosen s' cp' S' = (40, cp + p + 1) \<and> cp + p \<le> length B \<and> (cp + p < length B \<longrightarrow> B ! (cp + p) = NUL) \<and>
       lex_delta s (take p (drop cp B)) \<in> set lex_states))"
  using assms
proof (induction "length B - cp" arbitrary: s cp best S)
  case 0
  then have cp: "cp = length B" by simp
  have "cell (yy_ch_buf S) cp = Ret NUL" "cell (yy_ch_buf S) (cp + 1) = Ret NUL"
    using text_at_cell [OF 0(2)] by (simp_all add: cp)
  from yy_match_eob [OF 0(5) this] show ?case using cp 0(5) by (fastforce intro: exI [of _ 0])
next
  case (Suc k)
  then have cp: "cp < length B" by simp
  then have c: "cell (yy_ch_buf S) cp = Ret (B ! cp)" using text_at_cell(1) Suc.prems(1) by blast
  have drop: "drop cp B = B ! cp # drop (cp + 1) B" using cp by (simp add: Cons_nth_drop_Suc)
  let ?s = "lex_next s (B ! cp)" and ?best = "better s (cp - bp) best"
  let ?S = "yy_accepting s cp S"
  have last: "last_ok bp ?best ?S"
    using last_ok_accepting [OF Suc.prems(5), of s "cp - bp"] Suc.prems(3) by simp
  consider (nul) "B ! cp = NUL" | (jam) "B ! cp \<noteq> NUL" "?s = 102" | (stop) "B ! cp \<noteq> NUL" "?s \<noteq> 102" "yy_base ! ?s = 171"
    | (go) "B ! cp \<noteq> NUL" "?s \<noteq> 102" "yy_base ! ?s \<noteq> 171" by blast
  then show ?case
  proof cases
    case nul
    obtain d where "cell (yy_ch_buf S) (cp + 1) = Ret d"
      using text_at_cell [OF Suc.prems(1)] cp by (cases "cp + 1 < length B") auto
    from yy_match_eob [OF Suc.prems(4) c [unfolded nul] this] show ?thesis
      using cp nul Suc.prems(4) by (fastforce intro: exI [of _ 0])
  next
    case jam
    then have "s \<noteq> 1" using start_step by auto
    then have live: "live s best" using Suc.prems(6) by blast
    have "yy_match s cp S = Ret (102, cp + 1, ?S)"
      using c jam lex_next_step(1) [OF Suc.prems(4), of "B ! cp"] by (simp add: yy_match_cell class_char base_jam)
    moreover have "chosen 102 (cp + 1) ?S = (fst ?best, bp + snd ?best)"
      using chosen_last [OF last] live_better [OF live] by blast
    moreover have "lex_run s best (cp - bp) (drop cp B @ x) = (fst ?best, snd ?best)" for x
      using jam by (simp add: drop lex_run_Cons)
    ultimately show ?thesis using relast_accepting live_better [OF live] by blast
  next
    case stop
    then have s': "?s \<in> set lex_states" using lex_next_step(2) [OF Suc.prems(4), of "B ! cp"] by simp
    have "yy_match s cp S = Ret (?s, cp + 1, ?S)"
      using c stop lex_next_step(1) [OF Suc.prems(4), of "B ! cp"] by (simp add: yy_match_cell class_char)
    moreover have "chosen ?s (cp + 1) ?S = (yy_accept ! ?s, bp + (cp + 1 - bp))"
      using base_stop(1) [OF s' stop(3)] Suc.prems(3) by (simp add: chosen_def)
    moreover have "lex_run s best (cp - bp) (drop cp B @ x) = (yy_accept ! ?s, cp + 1 - bp)" for x
      using stop base_stop [OF s' stop(3)] Suc.prems(3)
      by (cases "drop (cp + 1) B @ x") (simp_all add: drop lex_run_Cons lex_run_Nil better_def Suc_diff_le)
    ultimately show ?thesis using relast_accepting base_stop(1) [OF s' stop(3)] by blast
  next
    case go
    then have s': "?s \<in> set lex_states" using lex_next_step(2) [OF Suc.prems(4), of "B ! cp"] by simp
    have step: "yy_match s cp S = yy_match ?s (cp + 1) ?S"
      using c go lex_next_step(1) [OF Suc.prems(4), of "B ! cp"] by (subst yy_match_cell) (simp add: class_char)
    have "live ?s ?best \<or> ?s = 1"
      using Suc.prems(6) live_better start_step by (metis live_def)
    then have "\<exists>s' cp' S'. yy_match ?s (cp + 1) ?S = Ret (s', cp', S') \<and> relast ?S S' \<and>
      ((\<exists>a n. chosen s' cp' S' = (a, bp + n) \<and> a \<noteq> 0 \<and>
         (\<forall>x. lex_run ?s ?best (cp + 1 - bp) (drop (cp + 1) B @ x) = (a, n))) \<or>
       (\<exists>p. chosen s' cp' S' = (40, cp + 1 + p + 1) \<and> cp + 1 + p \<le> length B \<and>
         (cp + 1 + p < length B \<longrightarrow> B ! (cp + 1 + p) = NUL) \<and> lex_delta ?s (take p (drop (cp + 1) B)) \<in> set lex_states))"
      using Suc.hyps(2) Suc.prems cp s' last by (intro Suc.hyps(1)) simp_all
    then obtain s1 cp1 S1 where m: "yy_match s cp S = Ret (s1, cp1, S1)" and re: "relast ?S S1" and
      res: "(\<exists>a n. chosen s1 cp1 S1 = (a, bp + n) \<and> a \<noteq> 0 \<and>
         (\<forall>x. lex_run ?s ?best (cp + 1 - bp) (drop (cp + 1) B @ x) = (a, n))) \<or>
       (\<exists>p. chosen s1 cp1 S1 = (40, cp + 1 + p + 1) \<and> cp + 1 + p \<le> length B \<and>
         (cp + 1 + p < length B \<longrightarrow> B ! (cp + 1 + p) = NUL) \<and> lex_delta ?s (take p (drop (cp + 1) B)) \<in> set lex_states)"
      unfolding step by blast
    from res show ?thesis
    proof
      assume "\<exists>a n. chosen s1 cp1 S1 = (a, bp + n) \<and> a \<noteq> 0 \<and>
         (\<forall>x. lex_run ?s ?best (cp + 1 - bp) (drop (cp + 1) B @ x) = (a, n))"
      then have "\<exists>a n. chosen s1 cp1 S1 = (a, bp + n) \<and> a \<noteq> 0 \<and>
         (\<forall>x. lex_run s best (cp - bp) (drop cp B @ x) = (a, n))"
        using go Suc.prems(3) by (simp add: drop lex_run_Cons Suc_diff_le)
      then show ?thesis using m relast_trans [OF relast_accepting re] by blast
    next
      assume "\<exists>p. chosen s1 cp1 S1 = (40, cp + 1 + p + 1) \<and> cp + 1 + p \<le> length B \<and>
         (cp + 1 + p < length B \<longrightarrow> B ! (cp + 1 + p) = NUL) \<and> lex_delta ?s (take p (drop (cp + 1) B)) \<in> set lex_states"
      then obtain p where "chosen s1 cp1 S1 = (40, cp + Suc p + 1)" "cp + Suc p \<le> length B"
        "cp + Suc p < length B \<longrightarrow> B ! (cp + Suc p) = NUL" "lex_delta s (take (Suc p) (drop cp B)) \<in> set lex_states"
        using go by (auto simp: drop)
      then show ?thesis using m relast_trans [OF relast_accepting re] by blast
    qed
  qed
qed


section \<open>The state before a character of the buffer\<close>

lemma yy_rerun_run:
  assumes "text_at B (yy_ch_buf S)" "cp + n \<le> length B" "s \<in> set lex_states" "bp \<le> cp"
    "lex_delta s (take n (drop cp B)) \<in> set lex_states" "last_ok bp best S"
  shows "\<exists>S'. yy_rerun n cp s S = Ret (lex_delta s (take n (drop cp B)), S') \<and> relast S S' \<and>
    last_ok bp (lex_best s best (cp - bp) (take n (drop cp B))) S'"
  using assms
proof (induction n arbitrary: cp s best S)
  case (Suc n)
  let ?c = "B ! cp"
  have drop: "drop cp B = ?c # drop (cp + 1) B" using Suc.prems(2) by (simp add: Cons_nth_drop_Suc)
  have c: "cell (yy_ch_buf S) cp = Ret ?c" using text_at_cell(1) [OF Suc.prems(1), of cp] Suc.prems(2) by simp
  have k: "(if ?c \<noteq> NUL then yy_class ?c else 1) = lex_class ?c" by (simp add: lex_class_def)
  from Suc.prems(5) have d: "lex_delta s (?c # take n (drop (cp + 1) B)) \<in> set lex_states" by (simp only: drop take_Suc_Cons)
  note n = lex_delta_states [OF d Suc.prems(3)]
  have last: "last_ok bp (better s (cp - bp) best) (yy_accepting s cp S)"
    using last_ok_accepting [OF Suc.prems(6), of s "cp - bp"] Suc.prems(4) by simp
  have "\<exists>S'. yy_rerun n (cp + 1) (lex_next s ?c) (yy_accepting s cp S) =
      Ret (lex_delta (lex_next s ?c) (take n (drop (cp + 1) B)), S') \<and> relast (yy_accepting s cp S) S' \<and>
      last_ok bp (lex_best (lex_next s ?c) (better s (cp - bp) best) (cp + 1 - bp) (take n (drop (cp + 1) B))) S'"
    using Suc.prems n last by (intro Suc.IH) simp_all
  then show ?case
    using c k n(1) lex_next_step(1) [OF Suc.prems(3), of ?c] relast_trans [OF relast_accepting] Suc.prems(4)
    by (auto simp: drop Suc_diff_le)
qed simp

lemma yy_get_previous_state_run:
  assumes "text_at B (yy_ch_buf S)" "yy_c_buf_p S = yytext_ptr S + n" "yy_c_buf_p S \<le> length B"
    "lex_delta 1 (take n (drop (yytext_ptr S) B)) \<in> set lex_states"
  shows "\<exists>S'. yy_get_previous_state S = Ret (lex_delta 1 (take n (drop (yytext_ptr S) B)), S') \<and> relast S S' \<and>
    last_ok (yytext_ptr S) (lex_best 1 (0, 0) 0 (take n (drop (yytext_ptr S) B))) S'"
proof -
  have "last_ok (yytext_ptr S) (0, 0) S" by (simp add: last_ok_def)
  from yy_rerun_run [OF assms(1) _ start_state order_refl assms(4) this] assms(2,3) show ?thesis
    by (simp add: yy_get_previous_state_def)
qed

section \<open>The buffer\<close>

definition buffer_ok :: "scanner \<Rightarrow> string \<Rightarrow> bool" where
  "buffer_ok S B \<longleftrightarrow>
     text_at B (yy_ch_buf S) \<and> length (yy_ch_buf S) = yy_buf_size S + 2 \<and> 0 < yy_buf_size S \<and> yy_fill_buffer S \<and>
     yy_n_chars S = length B \<and> (yy_buffer_status S = YY_BUFFER_NEW \<longrightarrow> B = [] \<and> yyb_n_chars S = 0) \<and>
     (yy_buffer_status S = YY_BUFFER_EOF_PENDING \<longrightarrow> yyin S = [])"

lemma buffer_ok_size: "buffer_ok S B \<Longrightarrow> length B \<le> yy_buf_size S"
  by (simp add: buffer_ok_def text_at_def)

lemma buffer_ok_relast: "relast S S' \<Longrightarrow> buffer_ok S' B = buffer_ok S B"
  by (simp add: buffer_ok_def relast_fields [of S S'])

lemma move_chars_moves:
  assumes "dest \<le> source" "source + n \<le> length b" "\<forall>i<n. \<exists>c. b ! (source + i) = Some c"
  shows "\<exists>b'. move_chars n dest source b = Ret b' \<and> length b' = length b \<and>
    (\<forall>i<length b. b' ! i = (if dest \<le> i \<and> i < dest + n then b ! (source + i - dest) else b ! i))"
  using assms
proof (induction n arbitrary: dest source b)
  case (Suc n)
  from Suc.prems(3) obtain c where c: "b ! source = Some c" by (metis add.right_neutral zero_less_Suc)
  let ?b = "b[dest := Some c]"
  have "\<forall>i<n. \<exists>c. ?b ! (source + 1 + i) = Some c"
  proof (intro allI impI)
    fix i assume "i < n"
    then obtain c' where "b ! (source + Suc i) = Some c'" using Suc.prems(3) by blast
    then show "\<exists>c. ?b ! (source + 1 + i) = Some c" using Suc.prems(1) by simp
  qed
  then obtain b' where b': "move_chars n (dest + 1) (source + 1) ?b = Ret b'" "length b' = length b"
    "\<forall>i<length b. b' ! i = (if dest + 1 \<le> i \<and> i < dest + 1 + n then ?b ! (source + 1 + i - (dest + 1)) else ?b ! i)"
    using Suc.IH [of "dest + 1" "source + 1" ?b] Suc.prems(1,2) by auto
  have "b' ! i = (if dest \<le> i \<and> i < dest + Suc n then b ! (source + i - dest) else b ! i)" if "i < length b" for i
    using b'(3) that Suc.prems(1) c by (cases "i = dest") auto
  with b'(1,2) show ?case using Suc.prems(1,2) c by (simp add: cell_def set_cell_def)
qed auto

lemma move_chars_front:
  assumes "text_at B b" "p + k \<le> length B"
  shows "\<exists>b'. move_chars k 0 p b = Ret b' \<and> length b' = length b \<and> take k b' = map Some (take k (drop p B))"
proof -
  have nth: "b ! i = Some (B ! i)" if "i < length B" for i
    using text_at_cell(1) [OF assms(1) that] by (simp add: cell_def deref_def split: if_splits option.splits)
  have len: "length B + 2 \<le> length b" using assms(1) by (simp add: text_at_def)
  obtain b' where b': "move_chars k 0 p b = Ret b'" "length b' = length b"
    "\<forall>i<length b. b' ! i = (if 0 \<le> i \<and> i < 0 + k then b ! (p + i - 0) else b ! i)"
    using move_chars_moves [of 0 p k b] nth assms(2) len by auto
  have "take k b' = map Some (take k (drop p B))"
    using b' nth assms(2) len by (intro nth_equalityI) simp_all
  with b' show ?thesis by blast
qed

lemma yy_grow_room:
  assumes "0 < yy_buf_size S" "k + 1 < 2 ^ 30" "length (yy_ch_buf S) = yy_buf_size S + 2"
  shows "\<exists>n b. yy_grow k S = Ret (S\<lparr>yy_buf_size := n, yy_ch_buf := b\<rparr>) \<and> k + 1 < n \<and> length b = n + 2 \<and>
    yy_buf_size S \<le> n \<and> take (yy_buf_size S) b = take (yy_buf_size S) (yy_ch_buf S)"
  using assms
proof (induction k S rule: yy_grow.induct)
  case (1 k S)
  show ?case
  proof (cases "yy_buf_size S \<le> k + 1")
    case True
    let ?n = "2 * yy_buf_size S"
    let ?S = "S\<lparr>yy_buf_size := ?n, yy_ch_buf := realloc (yy_ch_buf S) (?n + 2)\<rparr>"
    have small: "\<not> 2 ^ 31 \<le> ?n" using True 1(3) by simp
    have step: "yy_grow k S = yy_grow k ?S" using True small 1(2) by (subst yy_grow.simps) (simp add: Let_def)
    have "\<exists>n b. yy_grow k ?S = Ret (?S\<lparr>yy_buf_size := n, yy_ch_buf := b\<rparr>) \<and> k + 1 < n \<and> length b = n + 2 \<and>
        yy_buf_size ?S \<le> n \<and> take (yy_buf_size ?S) b = take (yy_buf_size ?S) (yy_ch_buf ?S)"
      using 1(1) [OF True _ small refl] 1(2-) by (simp add: realloc_def)
    then obtain n b where g: "yy_grow k ?S = Ret (?S\<lparr>yy_buf_size := n, yy_ch_buf := b\<rparr>)" "k + 1 < n" "length b = n + 2"
        "?n \<le> n" "take ?n b = take ?n (realloc (yy_ch_buf S) (?n + 2))" by auto
    have "take (yy_buf_size S) b = take (yy_buf_size S) (take ?n b)" by (simp add: min_def)
    also have "\<dots> = take (yy_buf_size S) (yy_ch_buf S)" unfolding g(5) using 1(4) by (simp add: realloc_def min_def)
    finally show ?thesis using g step by (intro exI [of _ n] exI [of _ b]) simp
  next
    case False
    then have "yy_grow k S = Ret S" by (subst yy_grow.simps) simp
    with False 1(4) show ?thesis by (intro exI [of _ "yy_buf_size S"] exI [of _ "yy_ch_buf S"]) simp
  qed
qed


text \<open>What is read is a part of the file, and empty only at its end.\<close>

lemma read_line_prefix:
  "\<exists>u. file = read_line n file @ u" "length (read_line n file) \<le> n" "0 < n \<Longrightarrow> read_line n file = [] \<longleftrightarrow> file = []"
proof -
  let ?l = "takeWhile (\<lambda>c. c \<noteq> NEWLINE) file"
  have l: "?l @ NEWLINE # tl (dropWhile (\<lambda>c. c \<noteq> NEWLINE) file) = file" if "length ?l < length file"
  proof -
    from that have "dropWhile (\<lambda>c. c \<noteq> NEWLINE) file \<noteq> []"
      by (metis append_self_conv2 append_Nil2 less_irrefl takeWhile_dropWhile_id)
    then have "dropWhile (\<lambda>c. c \<noteq> NEWLINE) file = NEWLINE # tl (dropWhile (\<lambda>c. c \<noteq> NEWLINE) file)"
      using hd_dropWhile [of "\<lambda>c. c \<noteq> NEWLINE" "file"] by (metis list.collapse)
    then show ?thesis by (metis takeWhile_dropWhile_id)
  qed
  show "\<exists>u. file = read_line n file @ u"
  proof (cases "n \<le> length ?l")
    case True
    have "take n ?l @ (drop n ?l @ dropWhile (\<lambda>c. c \<noteq> NEWLINE) file) = file"
      by (metis append.assoc append_take_drop_id takeWhile_dropWhile_id)
    then have "file = take n ?l @ (drop n ?l @ dropWhile (\<lambda>c. c \<noteq> NEWLINE) file)" by (rule sym)
    with True show ?thesis by (auto simp: read_line_def)
  next
    case False
    then show ?thesis
    proof (cases "length ?l < length file")
      case True
      with False have rl: "read_line n file = ?l @ [NEWLINE]" by (simp add: read_line_def Let_def)
      show ?thesis unfolding rl using l [OF True] by (intro exI [of _ "tl (dropWhile (\<lambda>c. c \<noteq> NEWLINE) file)"]) simp
    next
      case False
      then have eq: "?l = file" by (metis length_takeWhile_le nat_less_le takeWhile_eq_take take_all order_refl)
      then have "read_line n file = file"
        using \<open>\<not> n \<le> length ?l\<close> unfolding read_line_def Let_def eq by simp
      then show ?thesis by simp
    qed
  qed
  show "length (read_line n file) \<le> n" by (auto simp: read_line_def Let_def)
  show "0 < n \<Longrightarrow> read_line n file = [] \<longleftrightarrow> file = []"
    by (cases "file") (auto simp: read_line_def Let_def)
qed

lemma yy_input_prefix:
  "yyin S = yy_input n S @ drop (length (yy_input n S)) (yyin S)" "length (yy_input n S) \<le> n"
  "0 < n \<Longrightarrow> yy_input n S = [] \<longleftrightarrow> yyin S = []"
proof -
  obtain u where "yyin S = yy_input n S @ u"
    using read_line_prefix(1) [of "yyin S" n] append_take_drop_id [of n "yyin S"] by (metis yy_input_def)
  then show "yyin S = yy_input n S @ drop (length (yy_input n S)) (yyin S)" by (metis append_eq_conv_conj)
  show "length (yy_input n S) \<le> n" using read_line_prefix(2) by (simp add: yy_input_def)
  show "0 < n \<Longrightarrow> yy_input n S = [] \<longleftrightarrow> yyin S = []" using read_line_prefix(3) by (simp add: yy_input_def)
qed

lemma yy_mark_end_marks:
  assumes "length (yy_ch_buf S) = yy_buf_size S + 2" "length X = yy_n_chars S + k" "length X \<le> yy_buf_size S"
    "take (length X) (yy_ch_buf S) = map Some X"
  shows "\<exists>b. yy_mark_end k S = Ret (S\<lparr>yy_n_chars := length X, yy_ch_buf := b, yytext_ptr := 0\<rparr>) \<and>
    text_at X b \<and> length b = yy_buf_size S + 2"
proof -
  let ?n = "length X"
  let ?b = "(yy_ch_buf S)[?n := Some NUL, ?n + 1 := Some NUL]"
  have "yy_mark_end k S = Ret (S\<lparr>yy_n_chars := ?n, yy_ch_buf := ?b, yytext_ptr := 0\<rparr>)"
    using assms by (simp add: yy_mark_end_def set_cell_def Let_def)
  moreover have "take (?n + 2) ?b = map Some (X @ [NUL, NUL])"
  proof (rule nth_equalityI)
    fix i assume "i < length (take (?n + 2) ?b)"
    then have i: "i < ?n + 2" by simp
    have "yy_ch_buf S ! i = Some (X ! i)" if "i < ?n"
      using assms(4) that by (metis length_map nth_map nth_take)
    with i show "take (?n + 2) ?b ! i = map Some (X @ [NUL, NUL]) ! i"
      using assms(1,3) by (cases "i < ?n"; cases "i = ?n"; cases "i = ?n + 1") (auto simp: nth_append)
  qed (use assms in simp)
  ultimately show ?thesis using assms by (auto simp: text_at_def)
qed

lemma yyrestart_new:
  assumes "2 \<le> length (yy_ch_buf S)"
  shows "yyrestart S = Ret (S\<lparr>yyb_n_chars := 0, yy_ch_buf := (yy_ch_buf S)[0 := Some NUL, 1 := Some NUL],
    yy_buffer_status := YY_BUFFER_NEW, yy_fill_buffer := True, yy_is_interactive := yyin_tty S,
    yy_n_chars := 0, yytext_ptr := 0, yy_c_buf_p := 0, yy_hold_char := NUL\<rparr>)"
  using assms by (cases S; cases "yy_ch_buf S")
    (auto simp: yyrestart_def yy_init_buffer_def yy_flush_buffer_def yy_load_buffer_state_def set_cell_def cell_def)

lemma yy_read_more_reads:
  assumes "length (yy_ch_buf S) = yy_buf_size S + 2" "0 < yy_buf_size S" "k \<le> yy_buf_size S" "k + 1 < 2 ^ 30"
    "take k (yy_ch_buf S) = map Some w" "length w = k"
  shows "\<exists>n b x. yy_read_more k S = Ret (S\<lparr>yy_buf_size := n, yy_ch_buf := b, yy_n_chars := length x,
        yyb_n_chars := length x, yyin := drop (length x) (yyin S)\<rparr>) \<and>
    yyin S = x @ drop (length x) (yyin S) \<and> (x = [] \<longleftrightarrow> yyin S = []) \<and> length b = n + 2 \<and> k + length x < n \<and>
    take (k + length x) b = map Some (w @ x)"
proof -
  obtain n b where g: "yy_grow k S = Ret (S\<lparr>yy_buf_size := n, yy_ch_buf := b\<rparr>)" "k + 1 < n" "length b = n + 2"
    "yy_buf_size S \<le> n" "take (yy_buf_size S) b = take (yy_buf_size S) (yy_ch_buf S)"
    using yy_grow_room [OF assms(2,4,1)] by blast
  let ?S = "S\<lparr>yy_buf_size := n, yy_ch_buf := b\<rparr>"
  define m where "m = min (n - k - 1) YY_READ_BUF_SIZE"
  define x where "x = yy_input m ?S"
  have m: "0 < m" "m \<le> n - k - 1" using g(2) by (simp_all add: m_def YY_READ_BUF_SIZE_def)
  have x: "yyin S = x @ drop (length x) (yyin S)" "length x \<le> m" "x = [] \<longleftrightarrow> yyin S = []"
    using yy_input_prefix [where S = ?S and n = m] m(1) by (simp_all add: x_def)
  have len: "k + length x < n" using x(2) m(2) g(2) by linarith
  let ?b = "take k b @ map Some x @ drop (k + length x) b"
  have "yy_read_more k S = Ret (S\<lparr>yy_buf_size := n, yy_ch_buf := ?b, yy_n_chars := length x, yyb_n_chars := length x,
      yyin := drop (length x) (yyin S)\<rparr>)"
    using g(1,3) len unfolding yy_read_more_def by (simp add: write_chars_def Let_def x_def m_def)
  moreover have "take k b = map Some w"
  proof -
    have "take k b = take k (take (yy_buf_size S) b)" using assms(3) by (simp add: min_absorb1)
    also have "\<dots> = take k (yy_ch_buf S)" unfolding g(5) using assms(3) by (simp add: min_absorb1)
    finally show ?thesis using assms(5) by simp
  qed
  ultimately show ?thesis
    using x len g(3) assms(6) by (intro exI [of _ n] exI [of _ ?b] exI [of _ x]) (simp add: min_absorb2)
qed

text \<open>
  \<open>yy_get_next_buffer\<close> keeps the text from the start of the token on and puts more of the file behind it, if there is
  more.
\<close>

lemma yy_get_next_buffer_fills:
  assumes "buffer_ok S B" "yy_buffer_status S \<noteq> YY_BUFFER_NEW" "yy_c_buf_p S = length B + 1" "yytext_ptr S = p"
    "p \<le> length B" "length B - p + 1 < 2 ^ 30"
  shows "\<exists>r S' x. yy_get_next_buffer S = Ret (r, S') \<and> yytext_ptr S' = 0 \<and> buffer_ok S' (drop p B @ x) \<and>
    yyin S = x @ yyin S' \<and>
    (if x \<noteq> [] then r = EOB_ACT_CONTINUE_SCAN
     else yyin S = [] \<and>
       (if p = length B then r = EOB_ACT_END_OF_FILE \<and> yy_hold_char S' = NUL else r = EOB_ACT_LAST_MATCH))"
proof -
  let ?w = "drop p B"
  let ?k = "length B - p"
  have B: "text_at B (yy_ch_buf S)" "length (yy_ch_buf S) = yy_buf_size S + 2" "0 < yy_buf_size S" "yy_fill_buffer S"
    "yy_n_chars S = length B" "yy_buffer_status S = YY_BUFFER_EOF_PENDING \<Longrightarrow> yyin S = []"
    using assms(1) by (simp_all add: buffer_ok_def)
  obtain b where b: "move_chars ?k 0 p (yy_ch_buf S) = Ret b" "length b = yy_buf_size S + 2" "take ?k b = map Some ?w"
    using move_chars_front [OF B(1), of p ?k] assms(5) B(2) by auto
  let ?S = "S\<lparr>yy_ch_buf := b\<rparr>"
  have k: "?k \<le> yy_buf_size S" using buffer_ok_size [OF assms(1)] by simp
  have unfolded: "yy_get_next_buffer S =
      rbind (if yy_buffer_status S = YY_BUFFER_EOF_PENDING then Ret (?S\<lparr>yyb_n_chars := 0, yy_n_chars := 0\<rparr>)
             else yy_read_more ?k ?S) (\<lambda>S.
      rbind (if yy_n_chars S = 0 then
               if ?k = 0 then rbind (yyrestart S) (\<lambda>S. Ret (EOB_ACT_END_OF_FILE, S))
               else Ret (EOB_ACT_LAST_MATCH, S\<lparr>yy_buffer_status := YY_BUFFER_EOF_PENDING\<rparr>)
             else Ret (EOB_ACT_CONTINUE_SCAN, S)) (\<lambda>(r, S).
      rbind (yy_mark_end ?k S) (\<lambda>S. Ret (r, S))))"
    using B b(1) assms(3,4) by (simp add: yy_get_next_buffer_def Let_def)
  text \<open>After reading, with the text \<open>?w @ x\<close> at the front.\<close>
  have "\<exists>S1 x. (if yy_buffer_status S = YY_BUFFER_EOF_PENDING then Ret (?S\<lparr>yyb_n_chars := 0, yy_n_chars := 0\<rparr>)
      else yy_read_more ?k ?S) = Ret S1 \<and> yyin S = x @ yyin S1 \<and> (x = [] \<longleftrightarrow> yyin S = []) \<and>
      yy_n_chars S1 = length x \<and> length (yy_ch_buf S1) = yy_buf_size S1 + 2 \<and> ?k + length x \<le> yy_buf_size S1 \<and>
      0 < yy_buf_size S1 \<and> take (?k + length x) (yy_ch_buf S1) = map Some (?w @ x) \<and> yy_fill_buffer S1 \<and>
      yy_buffer_status S1 = yy_buffer_status S"
  proof (cases "yy_buffer_status S = YY_BUFFER_EOF_PENDING")
    case True
    then show ?thesis using B b k by (intro exI [of _ "?S\<lparr>yyb_n_chars := 0, yy_n_chars := 0\<rparr>"] exI [of _ "[]"]) simp
  next
    case False
    obtain n c x where r: "yy_read_more ?k ?S = Ret (?S\<lparr>yy_buf_size := n, yy_ch_buf := c, yy_n_chars := length x,
        yyb_n_chars := length x, yyin := drop (length x) (yyin ?S)\<rparr>)" "yyin ?S = x @ drop (length x) (yyin ?S)"
      "x = [] \<longleftrightarrow> yyin ?S = []" "length c = n + 2" "?k + length x < n" "take (?k + length x) c = map Some (?w @ x)"
      using yy_read_more_reads [of ?S ?k ?w] B(3) b k assms(6) by auto
    with False B(4) show ?thesis
      by (intro exI [of _ "?S\<lparr>yy_buf_size := n, yy_ch_buf := c, yy_n_chars := length x,
        yyb_n_chars := length x, yyin := drop (length x) (yyin ?S)\<rparr>"] exI [of _ x]) simp
  qed
  then obtain S1 x where S1: "(if yy_buffer_status S = YY_BUFFER_EOF_PENDING
      then Ret (?S\<lparr>yyb_n_chars := 0, yy_n_chars := 0\<rparr>) else yy_read_more ?k ?S) = Ret S1" "yyin S = x @ yyin S1"
      "x = [] \<longleftrightarrow> yyin S = []" "yy_n_chars S1 = length x" "length (yy_ch_buf S1) = yy_buf_size S1 + 2"
      "?k + length x \<le> yy_buf_size S1" "0 < yy_buf_size S1" "take (?k + length x) (yy_ch_buf S1) = map Some (?w @ x)"
      "yy_fill_buffer S1" "yy_buffer_status S1 = yy_buffer_status S" by blast
  have wx: "length (?w @ x) = yy_n_chars S1 + ?k" using S1(4) by simp
  show ?thesis
  proof (cases "x = []")
    case False
    obtain c where c: "yy_mark_end ?k S1 = Ret (S1\<lparr>yy_n_chars := length (?w @ x), yy_ch_buf := c, yytext_ptr := 0\<rparr>)"
      "text_at (?w @ x) c" "length c = yy_buf_size S1 + 2"
      using yy_mark_end_marks [OF S1(5) wx] S1(6,8) by auto
    let ?T = "S1\<lparr>yy_n_chars := length (?w @ x), yy_ch_buf := c, yytext_ptr := 0\<rparr>"
    have "yy_get_next_buffer S = Ret (EOB_ACT_CONTINUE_SCAN, ?T)"
      using False c(1) S1(4) unfolding unfolded S1(1) by simp
    moreover have "buffer_ok ?T (?w @ x)" 
      using c(2,3) S1(2,7,9,10) assms(2) False B(6) by (auto simp: buffer_ok_def)
    ultimately show ?thesis
      using S1(2) False by (intro exI [of _ EOB_ACT_CONTINUE_SCAN] exI [of _ ?T] exI [of _ x]) simp
  next
    case True
    moreover from True have "yyin S = []" using S1(3) by blast
    moreover from this have "yyin S1 = []" using S1(2) by (metis append_is_Nil_conv)
    ultimately have x: "x = []" "yyin S = []" "yyin S1 = []" by blast+
    show ?thesis
    proof (cases "p = length B")
      case p: True
      let ?R = "S1\<lparr>yyb_n_chars := 0, yy_ch_buf := (yy_ch_buf S1)[0 := Some NUL, 1 := Some NUL],
        yy_buffer_status := YY_BUFFER_NEW, yy_fill_buffer := True, yy_is_interactive := yyin_tty S1,
        yy_n_chars := 0, yytext_ptr := 0, yy_c_buf_p := 0, yy_hold_char := NUL\<rparr>"
      have R: "yyrestart S1 = Ret ?R" using yyrestart_new [of S1] S1(5) by simp
      obtain c where c: "yy_mark_end 0 ?R = Ret (?R\<lparr>yy_n_chars := 0, yy_ch_buf := c, yytext_ptr := 0\<rparr>)"
        "text_at [] c" "length c = yy_buf_size S1 + 2"
        using yy_mark_end_marks [of ?R "[]" 0] S1(5) by auto
      have "yy_get_next_buffer S = Ret (EOB_ACT_END_OF_FILE, ?R\<lparr>yy_n_chars := 0, yy_ch_buf := c, yytext_ptr := 0\<rparr>)"
        using c(1) S1(4) x p R unfolding unfolded S1(1) by simp
      moreover have "buffer_ok (?R\<lparr>yy_n_chars := 0, yy_ch_buf := c, yytext_ptr := 0\<rparr>) []"
        using c S1(7) by (simp add: buffer_ok_def)
      ultimately show ?thesis
        using x p by (intro exI [of _ EOB_ACT_END_OF_FILE] exI [of _ "?R\<lparr>yy_n_chars := 0, yy_ch_buf := c, yytext_ptr := 0\<rparr>"]
          exI [of _ "[]"]) simp
    next
      case p: False
      let ?L = "S1\<lparr>yy_buffer_status := YY_BUFFER_EOF_PENDING\<rparr>"
      obtain c where c: "yy_mark_end ?k ?L = Ret (?L\<lparr>yy_n_chars := length ?w, yy_ch_buf := c, yytext_ptr := 0\<rparr>)"
        "text_at ?w c" "length c = yy_buf_size S1 + 2"
        using yy_mark_end_marks [of ?L ?w ?k] S1(4,5,6,8) x by auto
      have "yy_get_next_buffer S = Ret (EOB_ACT_LAST_MATCH, ?L\<lparr>yy_n_chars := length ?w, yy_ch_buf := c, yytext_ptr := 0\<rparr>)"
        using c(1) S1(4) x p assms(5) unfolding unfolded S1(1) by simp
      moreover have "buffer_ok (?L\<lparr>yy_n_chars := length ?w, yy_ch_buf := c, yytext_ptr := 0\<rparr>) ?w"
        using c S1 x by (simp add: buffer_ok_def)
      ultimately show ?thesis
        using x p by (intro exI [of _ EOB_ACT_LAST_MATCH] exI [of _ "?L\<lparr>yy_n_chars := length ?w, yy_ch_buf := c, yytext_ptr := 0\<rparr>"]
          exI [of _ "[]"]) simp
    qed
  qed
qed

end
