(* ===== verification/LexSim.thy ===== *)
theory LexSim
  imports LexBuffer
begin

text \<open>
  The calls of \<open>yylex\<close> give the tokens of the text. What holds at each label is stated for the text from the start
  of the token on, the part in the buffer and the part still in the file.
\<close>

section \<open>What holds at a label\<close>

definition at_text :: "scanner \<Rightarrow> string \<Rightarrow> bool" where
  "at_text S t \<longleftrightarrow> (\<exists>B. yy_c_buf_p S \<le> length B \<and> t = drop (yy_c_buf_p S) B @ yyin S \<and>
     buffer_ok (S\<lparr>yy_ch_buf := (yy_ch_buf S)[yy_c_buf_p S := Some (yy_hold_char S)]\<rparr>) B)"

definition matching :: "nat \<Rightarrow> nat \<Rightarrow> nat \<Rightarrow> scanner \<Rightarrow> string \<Rightarrow> string \<Rightarrow> bool" where
  "matching s cp bp S B t \<longleftrightarrow>
     buffer_ok S B \<and> bp \<le> cp \<and> cp \<le> length B \<and> t = drop bp B @ yyin S \<and>
     s = lex_delta 1 (take (cp - bp) (drop bp B)) \<and> s \<in> set lex_states \<and>
     last_ok bp (lex_best 1 (0, 0) 0 (take (cp - bp) (drop bp B))) S"

definition found :: "nat \<Rightarrow> nat \<Rightarrow> nat \<Rightarrow> scanner \<Rightarrow> string \<Rightarrow> string \<Rightarrow> bool" where
  "found s cp bp S B t \<longleftrightarrow>
     buffer_ok S B \<and> bp \<le> length B \<and> t = drop bp B @ yyin S \<and> t \<noteq> [] \<and>
     (\<exists>a n. chosen s cp S = (a, bp + n) \<and> a \<noteq> 0 \<and> munch t = (a, n) \<and> bp + n \<le> length B)"

definition ended :: "nat \<Rightarrow> nat \<Rightarrow> nat \<Rightarrow> nat \<Rightarrow> scanner \<Rightarrow> string \<Rightarrow> string \<Rightarrow> bool" where
  "ended p s cp bp S B t \<longleftrightarrow>
     buffer_ok S B \<and> bp + p \<le> length B \<and> t = drop bp B @ yyin S \<and>
     chosen s cp S = (40, bp + p + 1) \<and> (bp + p < length B \<longrightarrow> B ! (bp + p) = NUL) \<and>
     lex_delta 1 (take p (drop bp B)) \<in> set lex_states"

lemma matchingD:
  assumes "matching s cp bp S B t"
  shows "buffer_ok S B" "bp \<le> cp" "cp \<le> length B" "t = drop bp B @ yyin S"
    "s = lex_delta 1 (take (cp - bp) (drop bp B))" "lex_delta 1 (take (cp - bp) (drop bp B)) \<in> set lex_states"
    "s \<in> set lex_states" "last_ok bp (lex_best 1 (0, 0) 0 (take (cp - bp) (drop bp B))) S"
  using assms unfolding matching_def by blast+

lemma matching_run:
  assumes "matching s cp bp S B t"
  shows "lex_run s (lex_best 1 (0, 0) 0 (take (cp - bp) (drop bp B))) (cp - bp) (drop cp B @ x) = munch (drop bp B @ x)"
proof -
  let ?w = "take (cp - bp) (drop bp B)"
  note m = matchingD [OF assms]
  have "drop bp B = ?w @ drop cp B" using append_take_drop_id [of "cp - bp" "drop bp B"] m(2) by simp
  then have "drop bp B @ x = ?w @ drop cp B @ x" by (metis append.assoc)
  then have "munch (drop bp B @ x) = lex_run 1 (0, 0) 0 (?w @ drop cp B @ x)" unfolding munch_def by (rule arg_cong)
  moreover have "0 + length ?w = cp - bp" using m(2,3) by simp
  ultimately show ?thesis
    using lex_run_append [OF start_state m(6), of "(0, 0)" 0 "drop cp B @ x"] unfolding m(5) [symmetric] by (simp only:)
qed

lemma matching_live:
  assumes "matching s cp bp S B t"
  shows "live s (lex_best 1 (0, 0) 0 (take (cp - bp) (drop bp B))) \<or> s = 1"
proof (cases "take (cp - bp) (drop bp B) = []")
  case True
  with matchingD(5) [OF assms] show ?thesis by simp
next
  case False
  with live_started matchingD(5,6) [OF assms] show ?thesis by metis
qed

lemma munch_within:
  assumes "\<forall>x. munch (u @ x) = (a, n)" "a \<noteq> 0"
  shows "u \<noteq> []" "n \<le> length u"
proof -
  have "munch u = (a, n)" using assms(1) by (metis append_Nil2)
  moreover have "munch [] = (0, 0)" by (simp add: munch_def lex_run_Nil better_def yy_accept_nth)
  ultimately show "u \<noteq> []" using assms(2) by auto
  then show "n \<le> length u" using munch_bounds [of u] \<open>munch u = (a, n)\<close> by simp
qed

lemma match_step:
  assumes "matching s cp bp S B t"
  shows "\<exists>s' cp' S'. yylex_step v (YyMatch s cp bp) S = Ret (YyFind s' cp' bp, S') \<and> yyin S' = yyin S \<and>
    (found s' cp' bp S' B t \<or> (\<exists>p. cp - bp \<le> p \<and> ended p s' cp' bp S' B t))"
proof -
  let ?w = "take (cp - bp) (drop bp B)"
  note m = matchingD [OF assms]
  have "text_at B (yy_ch_buf S)" using m(1) by (simp add: buffer_ok_def)
  from yy_match_finds [OF this m(3,2,7,8) matching_live [OF assms]] obtain s' cp' S' where
    y: "yy_match s cp S = Ret (s', cp', S')" and re: "relast S S'" and
    res: "(\<exists>a n. chosen s' cp' S' = (a, bp + n) \<and> a \<noteq> 0 \<and> (\<forall>x. munch (drop bp B @ x) = (a, n))) \<or>
     (\<exists>p. chosen s' cp' S' = (40, cp + p + 1) \<and> cp + p \<le> length B \<and> (cp + p < length B \<longrightarrow> B ! (cp + p) = NUL) \<and>
       lex_delta s (take p (drop cp B)) \<in> set lex_states)"
    unfolding matching_run [OF assms] by blast
  have step: "yylex_step v (YyMatch s cp bp) S = Ret (YyFind s' cp' bp, S')" using y by (simp add: yylex_step_def)
  have yyin: "yyin S' = yyin S" using re by (rule relast_fields)
  have ok: "buffer_ok S' B" using m(1) buffer_ok_relast [OF re] by simp
  from res show ?thesis
  proof
    assume "\<exists>a n. chosen s' cp' S' = (a, bp + n) \<and> a \<noteq> 0 \<and> (\<forall>x. munch (drop bp B @ x) = (a, n))"
    then obtain a n where an: "chosen s' cp' S' = (a, bp + n)" "a \<noteq> 0" "\<forall>x. munch (drop bp B @ x) = (a, n)" by blast
    have "found s' cp' bp S' B t"
      using an m(2,3,4) ok yyin munch_within [OF an(3,2)] by (auto simp: found_def)
    then show ?thesis using step yyin by blast
  next
    assume "\<exists>p. chosen s' cp' S' = (40, cp + p + 1) \<and> cp + p \<le> length B \<and> (cp + p < length B \<longrightarrow> B ! (cp + p) = NUL) \<and>
       lex_delta s (take p (drop cp B)) \<in> set lex_states"
    then obtain p where p: "chosen s' cp' S' = (40, cp + p + 1)" "cp + p \<le> length B" "cp + p < length B \<longrightarrow> B ! (cp + p) = NUL"
       "lex_delta s (take p (drop cp B)) \<in> set lex_states" by blast
    have cut: "take (cp - bp + p) (drop bp B) = ?w @ take p (drop cp B)"
      unfolding take_add using m(2) by simp
    have "ended (cp - bp + p) s' cp' bp S' B t"
      using p m(2,3,4) ok yyin lex_delta_append [OF m(6) start_state] unfolding ended_def cut m(5) by simp
    then show ?thesis using step yyin by (metis le_add1)
  qed
qed

section \<open>A token is found\<close>

lemma rules_bounds: "rules_match lex_rules a w \<Longrightarrow> 0 < a \<and> a \<le> 38"
  using left_facts [OF start_state] by (auto simp: rules_match_def lex_left_start)

lemma munch_rule: "t \<noteq> [] \<Longrightarrow> munch t = (a, n) \<Longrightarrow> rules_match lex_rules a (take n t)"
  using munch_is_longest [of t] by (simp add: is_longest_def)

lemma rmatch_csets: "rmatch r w \<Longrightarrow> c \<in> set w \<Longrightarrow> \<exists>x\<in>set (csets r). in_cset c x"
  by (induction r w rule: rmatch.induct) auto

text \<open>Numbers and names have no NUL, so that their text is what \<open>yytext\<close> shows of it.\<close>

lemma text_patterns:
  "list_all (\<lambda>(a, r). (a = 33 \<longrightarrow> r = NUMBER_pattern) \<and> (a = 34 \<longrightarrow> r = IDENTIFIER_pattern)) lex_rules"
  unfolding lex_rules_eval by simp

lemma no_NUL_patterns:
  "list_all (\<lambda>x. \<not> in_cset NUL x) (csets NUMBER_pattern)" "list_all (\<lambda>x. \<not> in_cset NUL x) (csets IDENTIFIER_pattern)"
  by (simp_all add: NUMBER_pattern_def IDENTIFIER_pattern_def number_exponent_def Plus_def Opt_def NUL_def)

lemma no_NUL:
  assumes "rules_match lex_rules a w" "a = 33 \<or> a = 34"
  shows "NUL \<notin> set w"
proof
  assume N: "NUL \<in> set w"
  obtain r where r: "(a, r) \<in> set lex_rules" "rmatch r w" using assms(1) by (auto simp: rules_match_def)
  then have "r = NUMBER_pattern \<or> r = IDENTIFIER_pattern"
    using assms(2) text_patterns by (auto simp: list_all_iff)
  moreover obtain x where "x \<in> set (csets r)" "in_cset NUL x" using rmatch_csets [OF r(2) N] by blast
  ultimately show False using no_NUL_patterns by (auto simp: list_all_iff)
qed

lemma c_string_text: "NUL \<notin> set w \<Longrightarrow> c_string (map Some w @ Some NUL # b) = Ret w"
  by (induction w) auto

definition good :: "yystype \<Rightarrow> yy_goto \<Rightarrow> scanner \<Rightarrow> string \<Rightarrow> nat \<Rightarrow> bool" where
  "good v L S t N \<longleftrightarrow> (\<forall>n\<ge>N. case text_lex t v of
     Ret (c, w, t') \<Rightarrow> \<exists>S'. yylex_loop n v L S = Ret (c, w, S') \<and> at_text S' t'
   | _ \<Rightarrow> text_lex t v = Ub \<and> yylex_loop n v L S = Ub)"

lemma good_step:
  assumes "yylex_step v L S = Ret (L', S')" "\<forall>c w. L' \<noteq> YyReturn c w" "good v L' S' t' N" "text_lex t v = text_lex t' v"
    "N < M"
  shows "good v L S t M"
proof -
  have step: "yylex_loop (Suc n) v L S = yylex_loop n v L' S'" for n
    using assms(1,2) by (cases L') simp_all
  show ?thesis unfolding good_def
  proof (intro allI impI)
    fix n assume "M \<le> n"
    with assms(5) obtain k where "n = Suc k" "N \<le> k" by (cases n) auto
    with assms(3) show "case text_lex t v of
        Ret (c, w, t') \<Rightarrow> \<exists>S'. yylex_loop n v L S = Ret (c, w, S') \<and> at_text S' t'
      | _ \<Rightarrow> text_lex t v = Ub \<and> yylex_loop n v L S = Ub"
      unfolding good_def assms(4) by (simp only: step)
  qed
qed

lemma good_mono: "good v L S t N \<Longrightarrow> N \<le> M \<Longrightarrow> good v L S t M"
  by (auto simp: good_def)


lemma yy_find_chosen:
  "chosen s cp S = (a, q) \<Longrightarrow> yylex_step v (YyFind s cp bp) S = rbind (yy_do_before_action bp q S) (yy_do_action a q v)"
  by (auto simp: chosen_def yylex_step_def yy_find_action_def split: if_splits)

definition action_state :: "nat \<Rightarrow> nat \<Rightarrow> char \<Rightarrow> scanner \<Rightarrow> scanner" where
  "action_state bp q h S = S\<lparr>yytext_ptr := bp, yy_hold_char := h, yy_ch_buf := (yy_ch_buf S)[q := Some NUL], yy_c_buf_p := q\<rparr>"

lemma buffer_cell:
  assumes "buffer_ok S B" "q \<le> length B + 1"
  shows "\<exists>h. cell (yy_ch_buf S) q = Ret h \<and> yy_ch_buf S ! q = Some h \<and> q < length (yy_ch_buf S)"
proof -
  have t: "text_at B (yy_ch_buf S)" using assms(1) by (simp add: buffer_ok_def)
  have "q < length B \<or> q = length B \<or> q = length B + 1" using assms(2) by linarith
  then obtain h where "cell (yy_ch_buf S) q = Ret h" using text_at_cell [OF t, of q] by blast
  then show ?thesis by (auto simp: cell_def split: if_splits)
qed

lemma yy_before_action:
  assumes "buffer_ok S B" "q \<le> length B + 1"
  shows "\<exists>h. yy_do_before_action bp q S = Ret (action_state bp q h S) \<and> yy_ch_buf S ! q = Some h \<and> q < length (yy_ch_buf S)"
  using buffer_cell [OF assms] by (auto simp: yy_do_before_action_def action_state_def set_cell_def)

lemma action_restore:
  assumes "buffer_ok S B" "yy_ch_buf S ! q = Some h"
  shows "(yy_ch_buf (action_state bp q h S))[q := Some h] = yy_ch_buf S"
  using assms(2) by (simp add: action_state_def) (metis list_update_id)

lemma buffer_ok_text: "buffer_ok S B \<Longrightarrow> i < length B \<Longrightarrow> yy_ch_buf S ! i = Some (B ! i)"
  using text_at_cell(1) [of B "yy_ch_buf S" i] by (auto simp: buffer_ok_def cell_def deref_def split: if_splits option.splits)

lemma action_text:
  assumes "buffer_ok S B" "bp + n \<le> length B" "NUL \<notin> set (take n (drop bp B))"
  shows "yytext (action_state bp (bp + n) h S) = Ret (take n (drop bp B))"
proof -
  let ?b = "(yy_ch_buf S)[bp + n := Some NUL]"
  have len: "bp + n < length (yy_ch_buf S)" using buffer_cell [OF assms(1), of "bp + n"] assms(2) by auto
  have "drop bp ?b = map Some (take n (drop bp B)) @ Some NUL # drop (bp + n + 1) ?b"
  proof -
    have "drop bp ?b = take n (drop bp ?b) @ drop (bp + n) ?b"
      by (metis add.commute append_take_drop_id drop_drop)
    moreover have "drop (bp + n) ?b = Some NUL # drop (bp + n + 1) ?b"
      using len by (subst Cons_nth_drop_Suc [symmetric]) simp_all
    moreover have "take n (drop bp ?b) = map Some (take n (drop bp B))"
      using assms(2) len buffer_ok_text [OF assms(1)] by (intro nth_equalityI) simp_all
    ultimately show ?thesis by simp
  qed
  then show ?thesis using c_string_text [OF assms(3)] by (simp add: yytext_def action_state_def)
qed

lemma action_at_text:
  assumes "buffer_ok S B" "bp + n \<le> length B" "yy_ch_buf S ! (bp + n) = Some h"
  shows "at_text (action_state bp (bp + n) h S) (drop n (drop bp B @ yyin S))"
    and "at_text (action_state bp (bp + n) h S \<lparr>yylineno := l\<rparr>) (drop n (drop bp B @ yyin S))"
proof -
  have r: "(yy_ch_buf S)[bp + n := Some NUL, bp + n := Some h] = yy_ch_buf S"
    using action_restore [OF assms(1,3), of bp] by (simp add: action_state_def)
  show "at_text (action_state bp (bp + n) h S) (drop n (drop bp B @ yyin S))"
    "at_text (action_state bp (bp + n) h S \<lparr>yylineno := l\<rparr>) (drop n (drop bp B @ yyin S))"
    unfolding at_text_def using assms r
    by (auto intro!: exI [of _ B] simp: action_state_def buffer_ok_def add.commute)
qed

text \<open>From a found token the call returns it, or goes on behind it.\<close>

lemma found_good:
  assumes "found s cp bp S B t" "\<And>S' t'. length t' < length t \<Longrightarrow> at_text S' t' \<Longrightarrow> good v YyToken S' t' N" "N < M"
  shows "good v (YyFind s cp bp) S t M"
proof -
  obtain a n where f: "buffer_ok S B" "bp \<le> length B" "t = drop bp B @ yyin S" "t \<noteq> []" "chosen s cp S = (a, bp + n)"
      "a \<noteq> 0" "munch t = (a, n)" "bp + n \<le> length B"
    using assms(1) unfolding found_def by blast
  obtain h where h: "yy_do_before_action bp (bp + n) S = Ret (action_state bp (bp + n) h S)" "yy_ch_buf S ! (bp + n) = Some h"
    using yy_before_action [OF f(1), of "bp + n"] f(8) by auto
  let ?S = "action_state bp (bp + n) h S"
  have step: "yylex_step v (YyFind s cp bp) S = yy_do_action a (bp + n) v ?S"
    using yy_find_chosen [OF f(5)] h(1) by simp
  note behind = action_at_text [OF f(1,8) h(2), folded f(3)]
  have rule: "rules_match lex_rules a (take n t)" by (rule munch_rule [OF f(4,7)])
  have n: "0 < n" "n \<le> length t" using munch_bounds [OF f(4)] f(7) by simp_all
  have a: "0 < a" "a \<le> 38" using rules_bounds [OF rule] by simp_all
  consider (skip) "a = 35 \<or> a = 36 \<or> a = 37" | (bad) "a = 38" | (tok) "a \<le> 34" using a by linarith
  then show ?thesis
  proof cases
    case skip
    then have lex: "text_lex t v = text_lex (drop n t) v" using f(4,7) by (subst text_lex.simps) simp
    have short: "length (drop n t) < length t" using n by simp
    from skip consider (blank) "a = 35" | (line) "a = 36 \<or> a = 37" by blast
    then show ?thesis
    proof cases
      case blank
      have "yylex_step v (YyFind s cp bp) S = Ret (YyToken, ?S)" using step blank by (simp add: yy_do_action_def)
      then show ?thesis by (rule good_step [OF _ _ assms(2) [OF short behind(1)] lex assms(3)]) simp
    next
      case line
      have "yylex_step v (YyFind s cp bp) S = Ret (YyToken, ?S\<lparr>yylineno := yylineno ?S + 1\<rparr>)"
        unfolding step using line by (elim disjE) (simp_all only: yy_do_action_def, simp_all)
      then show ?thesis by (rule good_step [OF _ _ assms(2) [OF short behind(2)] lex assms(3)]) simp
    qed
  next
    case bad
    then have lex: "text_lex t v = Ub" using f(4,7) by (subst text_lex.simps) simp
    have "yylex_step v (YyFind s cp bp) S = Ub" using step bad by (simp add: yy_do_action_def)
    then have "yylex_loop (Suc k) v (YyFind s cp bp) S = Ub" for k by simp
    then have "yylex_loop k v (YyFind s cp bp) S = Ub" if "M \<le> k" for k using that assms(3) by (cases k) auto
    then show ?thesis by (simp add: good_def lex)
  next
    case tok
    then have lex: "text_lex t v = Ret (lex_token a, lex_value a (take n t) v, drop n t)"
      using f(4,7) by (subst text_lex.simps) simp
    have take: "take n t = take n (drop bp B)" using f(3,8) by simp
    have "yylex_step v (YyFind s cp bp) S = Ret (YyReturn (lex_token a) (lex_value a (take n t) v), ?S)"
    proof (cases "a = 33 \<or> a = 34")
      case True
      then have "yytext ?S = Ret (take n t)"
        using action_text [OF f(1,8)] no_NUL [OF rule True] unfolding take by simp
      with True a(1) show ?thesis using step by (simp add: yy_do_action_def)
    next
      case False
      then have "lex_value a (take n t) v = lex_value a [] v" by (simp add: lex_value_def)
      with False show ?thesis using step tok a by (simp add: yy_do_action_def)
    qed
    then have "yylex_loop (Suc k) v (YyFind s cp bp) S = Ret (lex_token a, lex_value a (take n t) v, ?S)" for k by simp
    then have "yylex_loop k v (YyFind s cp bp) S = Ret (lex_token a, lex_value a (take n t) v, ?S)" if "M \<le> k" for k
      using that assms(3) by (cases k) auto
    then show ?thesis using behind(1) unfolding good_def lex by simp
  qed
qed


section \<open>A NUL, or the end of the buffer\<close>

lemma lex_class_NUL: "lex_class NUL = 1"
  by (simp add: lex_class_def)

lemma chosen_accepting: "chosen s cp (yy_accepting s cp S) = chosen s cp S"
  by (simp add: chosen_def yy_accepting_def)

text \<open>The match from the start of the token to \<open>p\<close>, as \<open>yy_get_previous_state\<close> leaves it.\<close>

lemma previous_state:
  assumes "buffer_ok S B" "bp + p \<le> length B" "lex_delta 1 (take p (drop bp B)) \<in> set lex_states"
    "yytext_ptr S = bp" "yy_c_buf_p S = bp + p"
  shows "\<exists>S'. yy_get_previous_state S = Ret (lex_delta 1 (take p (drop bp B)), S') \<and> relast S S' \<and>
    matching (lex_delta 1 (take p (drop bp B))) (bp + p) bp S' B (drop bp B @ yyin S)"
proof -
  have "text_at B (yy_ch_buf S)" using assms(1) by (simp add: buffer_ok_def)
  then obtain S' where S': "yy_get_previous_state S = Ret (lex_delta 1 (take p (drop bp B)), S')" "relast S S'"
    "last_ok bp (lex_best 1 (0, 0) 0 (take p (drop bp B))) S'"
    using yy_get_previous_state_run [of B S p] assms by auto
  then have "matching (lex_delta 1 (take p (drop bp B))) (bp + p) bp S' B (drop bp B @ yyin S)"
    using assms buffer_ok_relast [OF S'(2)] relast_fields(11) [OF S'(2)] by (simp add: matching_def)
  with S' show ?thesis by blast
qed

lemma real_nul_step:
  assumes "buffer_ok S B" "bp + p < length B" "B ! (bp + p) = NUL" "lex_delta 1 (take p (drop bp B)) \<in> set lex_states"
    "yytext_ptr S = bp" "t = drop bp B @ yyin S"
  shows "\<exists>L' S'. yy_real_nul p S = Ret (L', S') \<and>
    ((\<exists>s' cp'. L' = YyFind s' cp' bp \<and> found s' cp' bp S' B t) \<or>
     (\<exists>s'. L' = YyMatch s' (bp + p + 1) bp \<and> matching s' (bp + p + 1) bp S' B t \<and> yyin S' = yyin S))"
proof -
  let ?w = "take p (drop bp B)" and ?S = "S\<lparr>yy_c_buf_p := bp + p\<rparr>"
  let ?s = "lex_delta 1 ?w" and ?best = "lex_best 1 (0, 0) 0 (take p (drop bp B))"
  let ?t = "drop bp B @ yyin S"
  have ok: "buffer_ok ?S B" using assms(1) by (simp add: buffer_ok_def)
  obtain S' where S': "yy_get_previous_state ?S = Ret (?s, S')" "relast ?S S'" "matching ?s (bp + p) bp S' B ?t"
    using previous_state [OF ok, of bp p] assms(2,4,5) by auto
  note m = matchingD [OF S'(3)]
  have last: "last_ok bp ?best S'" using m(8) by simp
  let ?A = "yy_accepting ?s (bp + p) S'"
  have A: "buffer_ok ?A B" "yyin ?A = yyin S" "last_ok bp (better ?s p ?best) ?A" "yytext_ptr ?A = bp" "yy_c_buf_p ?A = bp + p"
    using m(1) buffer_ok_relast [OF relast_accepting] relast_fields [OF relast_accepting [of S' ?s "bp + p"]]
      relast_fields [OF S'(2)] last_ok_accepting [OF last] assms(5) by auto
  have real: "yy_real_nul p S = Ret (if lex_next ?s NUL = 102 then (YyFind ?s (bp + p) bp, ?A)
      else (YyMatch (lex_next ?s NUL) (bp + p + 1) bp, ?A\<lparr>yy_c_buf_p := bp + p + 1\<rparr>))"
  proof -
    have c: "yy_c_buf_p S' = bp + p" using relast_fields(8) [OF S'(2)] by simp
    have n: "yy_next ?s 1 = Ret (lex_next ?s NUL)" using lex_next_step(1) [OF assms(4), of NUL] by (simp only: lex_class_NUL)
    have "lex_next ?s NUL \<noteq> 102 \<Longrightarrow> lex_next ?s NUL \<noteq> 0"
      using lex_next_step(2) [OF assms(4), of NUL] lex_states_less(2) by force
    then show ?thesis
      using S'(1) n c A(4,5) assms(5) by (simp add: yy_real_nul_def yy_try_NUL_trans_def)
  qed
  have drop: "drop bp B = ?w @ NUL # drop (bp + p + 1) B"
  proof -
    have "drop bp B = ?w @ drop (bp + p) B" by (metis add.commute append_take_drop_id drop_drop)
    then show ?thesis using assms(2,3) Cons_nth_drop_Suc [OF assms(2)] by simp
  qed
  have len: "length ?w = p" using assms(2) by simp
  show ?thesis
  proof (cases "lex_next ?s NUL = 102")
    case True
    then have "?w \<noteq> []" using start_step [of NUL] by (cases "?w") auto
    then have live: "live ?s ?best" using live_started [OF assms(4)] by blast
    have run: "munch (drop bp B @ x) = better ?s p ?best" for x
    proof -
      have "munch (drop bp B @ x) = lex_run 1 (0, 0) 0 (?w @ (NUL # drop (bp + p + 1) B @ x))"
        unfolding munch_def by (subst drop) simp
      also have "\<dots> = better ?s p ?best"
        unfolding lex_run_append [OF start_state assms(4)] using True len by (simp add: lex_run_Cons)
      finally show ?thesis .
    qed
    obtain a n where an: "better ?s p ?best = (a, n)" by (cases "better ?s p ?best")
    have a: "a \<noteq> 0" using live_better [OF live, of p] an by simp
    have "found ?s (bp + p) bp ?A B ?t"
      using A(1,2) assms(2) munch_within [of "drop bp B" a n] run an a chosen_best [OF last live, of p]
      by (simp add: found_def chosen_accepting)
    then show ?thesis using real True assms(6) by auto
  next
    case False
    let ?N = "lex_next ?s NUL"
    have N: "?N \<in> set lex_states" using False lex_next_step(2) [OF assms(4), of NUL] by simp
    have take: "take (p + 1) (drop bp B) = ?w @ [NUL]"
    proof -
      have "take (p + 1) (drop bp B) = take (p + 1) (?w @ NUL # drop (bp + p + 1) B)" using drop by simp
      also have "\<dots> = ?w @ [NUL]" using len by simp
      finally show ?thesis .
    qed
    have d: "lex_delta 1 (?w @ [NUL]) = ?N" using lex_delta_append [OF assms(4) start_state, of "[NUL]"] False by simp
    have b: "lex_best 1 (0, 0) 0 (?w @ [NUL]) = better ?s p ?best"
      using lex_best_append [OF assms(4) start_state, of "(0, 0)" 0 "[NUL]"] len by simp
    have c: "bp + p + 1 - bp = p + 1" by simp
    have "matching ?N (bp + p + 1) bp (?A\<lparr>yy_c_buf_p := bp + p + 1\<rparr>) B ?t"
      unfolding matching_def c take d b using A(1-3) assms(2) N by (simp add: buffer_ok_def last_ok_def)
    then show ?thesis using real False A(2) assms(6) by auto
  qed
qed


lemma refill_step:
  assumes "buffer_ok S B" "yy_buffer_status S \<noteq> YY_BUFFER_NEW" "yy_c_buf_p S = length B + 1" "yytext_ptr S = bp" "bp \<le> length B"
    "t = drop bp B @ yyin S" "length t + 1 < 2 ^ 30" "p = length B - bp" "lex_delta 1 (drop bp B) \<in> set lex_states"
  shows "\<exists>L' S' B'. rbind (yy_get_next_buffer S) (\<lambda>(r, S'). yy_refilled p v r S') = Ret (L', S') \<and>
    (t = [] \<and> L' = YyReturn 0 v \<and> at_text S' [] \<or>
     (\<exists>s' cp' bp'. L' = YyFind s' cp' bp' \<and> found s' cp' bp' S' B' t) \<or>
     (\<exists>s' cp' bp'. L' = YyMatch s' cp' bp' \<and> matching s' cp' bp' S' B' t \<and> cp' - bp' = p \<and>
        length (yyin S') < length (yyin S)))"
proof -
  let ?w = "drop bp B"
  have "length B - bp + 1 < 2 ^ 30" using assms(6,7) by simp
  from yy_get_next_buffer_fills [OF assms(1,2,3,4,5) this] obtain r S1 x where
    r: "yy_get_next_buffer S = Ret (r, S1)" "yytext_ptr S1 = 0" "buffer_ok S1 (?w @ x)" "yyin S = x @ yyin S1"
    "if x \<noteq> [] then r = EOB_ACT_CONTINUE_SCAN
     else yyin S = [] \<and> (if bp = length B then r = EOB_ACT_END_OF_FILE \<and> yy_hold_char S1 = NUL else r = EOB_ACT_LAST_MATCH)"
    by blast
  have t: "t = (?w @ x) @ yyin S1" using assms(6) r(4) by simp
  have w: "length ?w = p" "take p (drop 0 (?w @ x)) = ?w" using assms(8) by simp_all
  have ok: "buffer_ok (S1\<lparr>yy_c_buf_p := p\<rparr>) (?w @ x)" using r(3) by (simp add: buffer_ok_def)
  have prev: "\<exists>S'. yy_get_previous_state (S1\<lparr>yy_c_buf_p := p\<rparr>) = Ret (lex_delta 1 ?w, S') \<and>
      relast (S1\<lparr>yy_c_buf_p := p\<rparr>) S' \<and> matching (lex_delta 1 ?w) p 0 S' (?w @ x) t"
    using previous_state [OF ok, of 0 p] r(2) w t assms(9) by simp
  show ?thesis
  proof (cases "x = []")
    case False
    then have c: "r = EOB_ACT_CONTINUE_SCAN" using r(5) by simp
    from prev obtain S2 where S2: "yy_get_previous_state (S1\<lparr>yy_c_buf_p := p\<rparr>) = Ret (lex_delta 1 ?w, S2)"
      "relast (S1\<lparr>yy_c_buf_p := p\<rparr>) S2" "matching (lex_delta 1 ?w) p 0 S2 (?w @ x) t" by blast
    have "yy_c_buf_p S2 = p" "yytext_ptr S2 = 0" "yyin S2 = yyin S1" using relast_fields [OF S2(2)] r(2) by simp_all
    then have "rbind (yy_get_next_buffer S) (\<lambda>(r, S'). yy_refilled p v r S') = Ret (YyMatch (lex_delta 1 ?w) p 0, S2)"
      using r(1,2) c S2(1) by (simp add: yy_refilled_def)
    moreover have "length (yyin S2) < length (yyin S)" using \<open>yyin S2 = yyin S1\<close> r(4) False by simp
    ultimately show ?thesis using S2(3) by (intro exI [of _ "YyMatch (lex_delta 1 ?w) p 0"] exI [of _ S2] exI [of _ "?w @ x"]) simp
  next
    case x: True
    then have y: "yyin S = []" "yyin S1 = []" using r(4,5) by auto
    show ?thesis
    proof (cases "bp = length B")
      case True
      then have c: "r = EOB_ACT_END_OF_FILE" "yy_hold_char S1 = NUL" using r(5) x by simp_all
      let ?S = "S1\<lparr>yy_c_buf_p := 0\<rparr>"
      have ok: "buffer_ok S1 []" using r(3) True x by simp
      have "yy_ch_buf S1 ! 0 = Some NUL"
        using text_at_cell(2) [of "[]" "yy_ch_buf S1" 0] ok by (auto simp: buffer_ok_def cell_def deref_def split: if_splits option.splits)
      then have "(yy_ch_buf S1)[0 := Some NUL] = yy_ch_buf S1" by (metis list_update_id)
      then have "at_text ?S []" using ok y c(2) by (auto simp: at_text_def buffer_ok_def intro!: exI [of _ "[]"])
      moreover have "rbind (yy_get_next_buffer S) (\<lambda>(r, S'). yy_refilled p v r S') = Ret (YyReturn 0 v, ?S)"
        using r(1,2) c(1) by (simp add: yy_refilled_def)
      moreover have "t = []" using t True x y by simp
      ultimately show ?thesis by blast
    next
      case False
      then have c: "r = EOB_ACT_LAST_MATCH" using r(5) x by simp
      have n: "yy_n_chars S1 = p" using r(3) x w by (simp add: buffer_ok_def)
      from prev obtain S2 where S2: "yy_get_previous_state (S1\<lparr>yy_c_buf_p := p\<rparr>) = Ret (lex_delta 1 ?w, S2)"
        "relast (S1\<lparr>yy_c_buf_p := p\<rparr>) S2" "matching (lex_delta 1 ?w) p 0 S2 ?w t" using x by auto
      note m = matchingD [OF S2(3)]
      have f: "yy_c_buf_p S2 = p" "yytext_ptr S2 = 0" using relast_fields [OF S2(2)] r(2) by simp_all
      have goto: "rbind (yy_get_next_buffer S) (\<lambda>(r, S'). yy_refilled p v r S') = Ret (YyFind (lex_delta 1 ?w) p 0, S2)"
        using r(1,2) c n S2(1) f by (simp add: yy_refilled_def)
      have tw: "t = ?w" using t x y by simp
      have ne: "?w \<noteq> []" using False assms(5) by simp
      let ?best = "lex_best 1 (0, 0) 0 ?w"
      have last: "last_ok 0 ?best S2" using m(8) w by simp
      have live: "live (lex_delta 1 ?w) ?best" using live_started [OF assms(9) ne] .
      have run: "munch t = better (lex_delta 1 ?w) p ?best"
        using lex_run_append [OF start_state assms(9), of "(0, 0)" 0 "[]"] w by (simp add: munch_def tw lex_run_Nil)
      obtain a n where an: "better (lex_delta 1 ?w) p ?best = (a, n)" by (cases "better (lex_delta 1 ?w) p ?best")
      have "a \<noteq> 0" using live_better [OF live, of p] an by simp
      moreover have "n \<le> length ?w" using munch_bounds [of t] ne run an tw by simp
      ultimately have "found (lex_delta 1 ?w) p 0 S2 ?w t"
        using m(1,4) ne tw run an chosen_best [OF last live, of p] by (simp add: found_def)
      then show ?thesis using goto by blast
    qed
  qed
qed

lemma ended_step:
  assumes "ended p s cp bp S B t" "length t + 1 < 2 ^ 30"
  shows "\<exists>L' S' B'. yylex_step v (YyFind s cp bp) S = Ret (L', S') \<and>
    (t = [] \<and> L' = YyReturn 0 v \<and> at_text S' [] \<or>
     (\<exists>s' cp' bp'. L' = YyFind s' cp' bp' \<and> found s' cp' bp' S' B' t) \<or>
     (\<exists>s' cp' bp'. L' = YyMatch s' cp' bp' \<and> matching s' cp' bp' S' B' t \<and>
        length (yyin S') + length t - (cp' - bp') < length (yyin S) + length t - p))"
proof -
  have e: "buffer_ok S B" "bp + p \<le> length B" "t = drop bp B @ yyin S" "chosen s cp S = (40, bp + p + 1)"
    "bp + p < length B \<Longrightarrow> B ! (bp + p) = NUL" "lex_delta 1 (take p (drop bp B)) \<in> set lex_states"
    using assms(1) unfolding ended_def by blast+
  let ?q = "bp + p + 1"
  obtain h where h: "yy_do_before_action bp ?q S = Ret (action_state bp ?q h S)" "yy_ch_buf S ! ?q = Some h" "?q < length (yy_ch_buf S)"
    using yy_before_action [OF e(1), of ?q] e(2) by auto
  let ?T = "S\<lparr>yytext_ptr := bp, yy_hold_char := h, yy_c_buf_p := ?q\<rparr>"
  let ?U = "if yy_buffer_status ?T = YY_BUFFER_NEW then ?T\<lparr>yy_n_chars := yyb_n_chars ?T, yy_buffer_status := YY_BUFFER_NORMAL\<rparr> else ?T"
  have restore: "(yy_ch_buf S)[?q := Some h] = yy_ch_buf S" using h(2) by (metis list_update_id)
  have step: "yylex_step v (YyFind s cp bp) S =
      (if yy_c_buf_p ?U \<le> yy_n_chars ?U then yy_real_nul p ?U
       else rbind (yy_get_next_buffer ?U) (\<lambda>(r, S). yy_refilled p v r S))"
    using yy_find_chosen [OF e(4)] h restore
    by (simp add: yy_do_action_def yy_end_of_buffer_def action_state_def set_cell_def Let_def)
  have U: "buffer_ok ?U B" "yy_buffer_status ?U \<noteq> YY_BUFFER_NEW" "yy_c_buf_p ?U = ?q" "yytext_ptr ?U = bp" "yyin ?U = yyin S"
    "yy_n_chars ?U = length B"
    using e(1) by (auto simp: buffer_ok_def)
  have less: "bp + p < length B \<Longrightarrow> p < length (yyin S) + length t" using e(3) by simp
  show ?thesis
  proof (cases "bp + p < length B")
    case True
    have "t = drop bp B @ yyin ?U" using e(3) U(5) by simp
    from real_nul_step [OF U(1) True e(5) [OF True] e(6) U(4) this] obtain L' S' where
      L: "yy_real_nul p ?U = Ret (L', S')"
      "(\<exists>s' cp'. L' = YyFind s' cp' bp \<and> found s' cp' bp S' B t) \<or>
       (\<exists>s'. L' = YyMatch s' (bp + p + 1) bp \<and> matching s' (bp + p + 1) bp S' B t \<and> yyin S' = yyin ?U)" by blast
    have "yylex_step v (YyFind s cp bp) S = Ret (L', S')" unfolding step using L(1) True U(3,6) by simp
    moreover from L(2) have "(\<exists>s' cp' bp'. L' = YyFind s' cp' bp' \<and> found s' cp' bp' S' B t) \<or>
      (\<exists>s' cp' bp'. L' = YyMatch s' cp' bp' \<and> matching s' cp' bp' S' B t \<and>
        length (yyin S') + length t - (cp' - bp') < length (yyin S) + length t - p)"
    proof
      assume "\<exists>s'. L' = YyMatch s' (bp + p + 1) bp \<and> matching s' (bp + p + 1) bp S' B t \<and> yyin S' = yyin ?U"
      then obtain s' where "L' = YyMatch s' (bp + p + 1) bp" "matching s' (bp + p + 1) bp S' B t" "yyin S' = yyin S"
        using U(5) by auto
      moreover from this less [OF True]
      have "length (yyin S') + length t - (bp + p + 1 - bp) < length (yyin S) + length t - p" by simp
      ultimately show ?thesis by blast
    qed blast
    ultimately show ?thesis by blast
  next
    case False
    then have q: "?q = length B + 1" "p = length B - bp" "bp \<le> length B" using e(2) by simp_all
    have c: "yy_c_buf_p ?U = length B + 1" "t = drop bp B @ yyin ?U" "lex_delta 1 (drop bp B) \<in> set lex_states"
      using U(3,5) q e(3,6) by simp_all
    have n: "\<not> yy_c_buf_p ?U \<le> yy_n_chars ?U" using U(6) c(1) by simp
    have step': "yylex_step v (YyFind s cp bp) S = rbind (yy_get_next_buffer ?U) (\<lambda>(r, S). yy_refilled p v r S)"
      unfolding step if_not_P [OF n] ..
    have "p \<le> length t" using c(2) q(2) by simp
    then have less: "length f + length t - p < length g + length t - p" if "length f < length g" for f g :: string
      using that by simp
    from refill_step [OF U(1,2) c(1) U(4) q(3) c(2) assms(2) q(2) c(3), of v] obtain L' S' B' where
      L: "rbind (yy_get_next_buffer ?U) (\<lambda>(r, S'). yy_refilled p v r S') = Ret (L', S')"
      "t = [] \<and> L' = YyReturn 0 v \<and> at_text S' [] \<or>
       (\<exists>s' cp' bp'. L' = YyFind s' cp' bp' \<and> found s' cp' bp' S' B' t) \<or>
       (\<exists>s' cp' bp'. L' = YyMatch s' cp' bp' \<and> matching s' cp' bp' S' B' t \<and> cp' - bp' = p \<and>
          length (yyin S') < length (yyin S))" unfolding U(5) by blast
    have "yylex_step v (YyFind s cp bp) S = Ret (L', S')" unfolding step' using L(1) by simp
    moreover from L(2) less have "t = [] \<and> L' = YyReturn 0 v \<and> at_text S' [] \<or>
       (\<exists>s' cp' bp'. L' = YyFind s' cp' bp' \<and> found s' cp' bp' S' B' t) \<or>
       (\<exists>s' cp' bp'. L' = YyMatch s' cp' bp' \<and> matching s' cp' bp' S' B' t \<and>
          length (yyin S') + length t - (cp' - bp') < length (yyin S) + length t - p)" by blast
    ultimately show ?thesis by blast
  qed
qed


section \<open>A call\<close>

text \<open>The labels that a call passes at most, for a text of \<open>m\<close> characters.\<close>

definition yylex_cost :: "nat \<Rightarrow> nat" where "yylex_cost m = (m + 1) * (2 * m + 6)"

lemma match_good:
  assumes "matching s cp bp S B t" "length t + 1 < 2 ^ 30" "length (yyin S) + length t - (cp - bp) \<le> d"
    "\<And>S' t'. length t' < length t \<Longrightarrow> at_text S' t' \<Longrightarrow> good v YyToken S' t' N"
  shows "good v (YyMatch s cp bp) S t (N + 2 * d + 4)"
  using assms(1,3)
proof (induction d arbitrary: s cp bp S B rule: less_induct)
  case (less d)
  obtain s1 cp1 S1 where m: "yylex_step v (YyMatch s cp bp) S = Ret (YyFind s1 cp1 bp, S1)" "yyin S1 = yyin S"
    "found s1 cp1 bp S1 B t \<or> (\<exists>p. cp - bp \<le> p \<and> ended p s1 cp1 bp S1 B t)"
    using match_step [OF less.prems(1)] by blast
  have "good v (YyFind s1 cp1 bp) S1 t (N + 2 * d + 3)"
    using m(3)
  proof
    assume "found s1 cp1 bp S1 B t"
    then show ?thesis by (rule found_good [OF _ assms(4)]) simp_all
  next
    assume "\<exists>p. cp - bp \<le> p \<and> ended p s1 cp1 bp S1 B t"
    then obtain p where p: "cp - bp \<le> p" "ended p s1 cp1 bp S1 B t" by blast
    obtain L S2 C where L: "yylex_step v (YyFind s1 cp1 bp) S1 = Ret (L, S2)"
      "t = [] \<and> L = YyReturn 0 v \<and> at_text S2 [] \<or>
       (\<exists>s' cp' bp'. L = YyFind s' cp' bp' \<and> found s' cp' bp' S2 C t) \<or>
       (\<exists>s' cp' bp'. L = YyMatch s' cp' bp' \<and> matching s' cp' bp' S2 C t \<and>
        length (yyin S2) + length t - (cp' - bp') < length (yyin S1) + length t - p)"
      using ended_step [OF p(2) assms(2), of v] by (elim exE conjE) (rule that)
    from L(2) show ?thesis
    proof (elim disjE exE conjE)
      assume eof: "t = []" "L = YyReturn 0 v" "at_text S2 []"
      have "yylex_loop (Suc k) v (YyFind s1 cp1 bp) S1 = Ret (0, v, S2)" for k
        using L(1) unfolding eof(2) by simp
      then have "yylex_loop k v (YyFind s1 cp1 bp) S1 = Ret (0, v, S2)" if "N + 2 * d + 3 \<le> k" for k
        using that by (cases k) auto
      moreover have "text_lex t v = Ret (0, v, [])" using eof(1) by (subst text_lex.simps) simp
      ultimately show ?thesis using eof(3) by (simp add: good_def)
    next
      fix s' cp' bp'
      assume find: "L = YyFind s' cp' bp'" "found s' cp' bp' S2 C t"
      have g: "good v L S2 t (N + 1)" unfolding find(1) by (rule found_good [OF find(2) assms(4)]) simp_all
      show ?thesis using find(1) by (intro good_step [OF L(1) _ g refl]) (simp, linarith)
    next
      fix s' cp' bp'
      assume match: "L = YyMatch s' cp' bp'" "matching s' cp' bp' S2 C t"
          "length (yyin S2) + length t - (cp' - bp') < length (yyin S1) + length t - p"
      let ?d = "length (yyin S2) + length t - (cp' - bp')"
      have d: "?d < d" using match(3) p(1) less.prems(2) m(2) by simp
      have g: "good v L S2 t (N + 2 * ?d + 4)" unfolding match(1) by (rule less.IH [OF d match(2) order_refl])
      show ?thesis using match(1) by (intro good_step [OF L(1) _ g refl]) (simp, use d in linarith)
    qed
  qed
  then show ?case by (intro good_step [OF m(1) _ _ refl]) (simp, assumption, linarith)
qed

lemma token_good: "at_text S t \<Longrightarrow> length t + 1 < 2 ^ 30 \<Longrightarrow> good v YyToken S t (yylex_cost (length t))"
proof (induction "length t" arbitrary: S t rule: less_induct)
  case less
  obtain B where B: "yy_c_buf_p S \<le> length B" "t = drop (yy_c_buf_p S) B @ yyin S"
    "buffer_ok (S\<lparr>yy_ch_buf := (yy_ch_buf S)[yy_c_buf_p S := Some (yy_hold_char S)]\<rparr>) B"
    using less.prems(1) unfolding at_text_def by blast
  let ?cp = "yy_c_buf_p S" and ?S = "S\<lparr>yy_ch_buf := (yy_ch_buf S)[yy_c_buf_p S := Some (yy_hold_char S)]\<rparr>"
  have "?cp < length (yy_ch_buf S)" using B(1,3) by (simp add: buffer_ok_def text_at_def)
  then have step: "yylex_step v YyToken S = Ret (YyMatch 1 ?cp ?cp, ?S)"
    by (simp add: yylex_step_def set_cell_def Let_def)
  have m: "matching 1 ?cp ?cp ?S B t" using B start_state by (simp add: matching_def last_ok_def)
  let ?N = "if length t = 0 then 0 else yylex_cost (length t - 1)"
  have IH: "good v YyToken S' t' ?N" if "length t' < length t" "at_text S' t'" for S' t'
  proof -
    have "good v YyToken S' t' (yylex_cost (length t'))" using that less.prems(2) by (intro less.hyps) simp_all
    moreover have "yylex_cost (length t') \<le> yylex_cost (length t - 1)"
      using that unfolding yylex_cost_def by (intro mult_le_mono) simp_all
    ultimately show ?thesis using that by (auto intro: good_mono)
  qed
  have "length (yyin ?S) + length t - (?cp - ?cp) \<le> 2 * length t" using B(2) by simp
  from match_good [OF m less.prems(2) this IH] have "good v (YyMatch 1 ?cp ?cp) ?S t (?N + 2 * (2 * length t) + 4)" .
  moreover have "?N + 2 * (2 * length t) + 4 < yylex_cost (length t)"
    by (cases "length t") (simp_all add: yylex_cost_def algebra_simps)
  ultimately show ?case using step by (intro good_step [OF step]) simp_all
qed

lemma yylex_gives_tokens:
  assumes "at_text S t" "length t + 1 < 2 ^ 30" "yylex_cost (length t) \<le> n"
  shows "case text_lex t v of
      Ret (c, w, t') \<Rightarrow> \<exists>S'. yylex n S v = Ret (c, w, S') \<and> at_text S' t'
    | r \<Rightarrow> r = Ub \<and> yylex n S v = Ub"
  using token_good [OF assms(1,2), of v] assms(3) by (auto simp: good_def yylex_def split: res.splits)

lemma yylex_init_at_text: "\<exists>S. yylex_init tty t = Ret S \<and> at_text S t"
proof -
  let ?b = "(replicate (YY_BUF_SIZE + 2) None)[0 := Some NUL, 1 := Some NUL]"
  let ?S = "\<lparr>yy_ch_buf = ?b, yy_buf_size = YY_BUF_SIZE, yyb_n_chars = 0, yy_is_interactive = tty, yy_fill_buffer = True,
      yy_buffer_status = YY_BUFFER_NEW, yy_n_chars = 0, yy_c_buf_p = 0, yytext_ptr = 0, yy_hold_char = NUL,
      yy_last_accepting_state = 0, yy_last_accepting_cpos = 0, yylineno = 1, yyin = t, yyin_tty = tty\<rparr>"
  have "yylex_init tty t = Ret ?S"
    by (simp add: yylex_init_def yy_create_buffer_def yy_init_buffer_def yy_flush_buffer_def yy_load_buffer_state_def
        set_cell_def cell_def)
  moreover have "?b = Some NUL # Some NUL # replicate YY_BUF_SIZE None" by simp
  then have "at_text ?S t"
    by (auto simp: at_text_def buffer_ok_def text_at_def numeral_2_eq_2 YY_BUF_SIZE_def intro!: exI [of _ "[]"])
  ultimately show ?thesis by blast
qed

end
