(* ===== verification/LexText.thy ===== *)
theory LexText
  imports LexSim RulesReads
begin

text \<open>
  The scanner's contract: what \<open>yylex\<close> returns is the longest match of the patterns of \<open>src/lex.l\<close>, whatever
  part of the file is in the buffer.
\<close>

section \<open>The contract of the scanner\<close>

lemma munch_iff: "t \<noteq> [] \<Longrightarrow> munch t = (a, n) \<longleftrightarrow> is_longest lex_rules t a n"
  using munch_is_longest [of t] is_longest_unique [of lex_rules t] by (metis fst_conv prod.collapse snd_conv)

text \<open>The evaluation of single texts.\<close>

lemmas munch_eval = munch_def lex_run.simps lex_next_def lex_class_def yy_class_def NUL_def yy_next_eval lex_nth nth_two

lemma yylex_starts:
  "\<exists>S. yylex_init tty t = Ret S \<and> at_text S t"
  by (rule yylex_init_at_text)

text \<open>C3: A call of \<open>yylex\<close> before a text whose longest match by the patterns of \<open>src/lex.l\<close> has \<open>n\<close> characters,
  and \<open>a\<close> as the first of the rules that have it, returns the token of the rule and leaves the rest of the text,
  whatever part of the text is in the buffer. The rules without a token, for blanks, comments, ends of lines and
  invalid characters, are set apart.\<close>

theorem yylex_longest_match:
  assumes "at_text S t" "length t + 1 < 2 ^ 30" "yylex_cost (length t) \<le> N"
    and "t \<noteq> []" "is_longest lex_rules t a n" "a \<le> 34"
  shows "\<exists>S'. yylex N S v = Ret (lex_token a, lex_value a (take n t) v, S') \<and> at_text S' (drop n t)"
proof -
  have "munch t = (a, n)" using munch_iff [OF assms(4)] assms(5) by simp
  then have "text_lex t v = Ret (lex_token a, lex_value a (take n t) v, drop n t)"
    using assms(4,6) by (subst text_lex.simps) simp
  with yylex_gives_tokens [OF assms(1-3), of v] show ?thesis by simp
qed

theorem yylex_longest_match_witness:
  "\<exists>S S'. yylex_init False ''VARX=1'' = Ret S \<and>
    yylex 200 S YyGarbage = Ret (IDENTIFIER, YySval ''VARX'', S') \<and> at_text S' ''=1''"
proof -
  obtain S where S: "yylex_init False ''VARX=1'' = Ret S" "at_text S ''VARX=1''" using yylex_starts by blast
  have "munch ''VARX=1'' = (34, 4)" by (simp add: munch_eval)
  then have "is_longest lex_rules ''VARX=1'' 34 4" by (simp add: munch_iff)
  then have "\<exists>S'. yylex 200 S YyGarbage = Ret (lex_token 34, lex_value 34 (take 4 ''VARX=1'') YyGarbage, S') \<and>
      at_text S' (drop 4 ''VARX=1'')"
    by (intro yylex_longest_match [OF S(2)]) (simp_all add: yylex_cost_def)
  moreover have "lex_token 34 = IDENTIFIER" by (simp add: lex_token_def)
  ultimately show ?thesis using S(1) by (simp add: lex_value_def)
qed

text \<open>C4: The scanner with its buffer refines the scanner of the whole text: a call gives the token that the text
  begins with, behind blanks, comments and ends of lines, and stands before the rest of the text; at an invalid
  character its behaviour is undefined, at the end of the file it returns 0. Tokens and comments that lie across the
  parts in which the file is read, and NULs in comments, make no difference.\<close>

theorem yylex_refines_text:
  assumes "at_text S t" "length t + 1 < 2 ^ 30" "yylex_cost (length t) \<le> N"
  shows "case text_lex t v of
      Ret (c, w, t') \<Rightarrow> \<exists>S'. yylex N S v = Ret (c, w, S') \<and> at_text S' t'
    | r \<Rightarrow> r = Ub \<and> yylex N S v = Ub"
  using yylex_gives_tokens [OF assms] .

theorem yylex_refines_text_witness:
  "\<exists>S S'. yylex_init False '' }'' = Ret S \<and> yylex 100 S YyGarbage = Ret (125, YyGarbage, S') \<and> at_text S' []"
proof -
  obtain S where S: "yylex_init False '' }'' = Ret S" "at_text S '' }''" using yylex_starts by blast
  have "text_lex '' }'' YyGarbage = Ret (125, YyGarbage, [])"
    by (simp add: text_lex.simps munch_eval lex_token_def lex_value_def)
  with yylex_refines_text [OF S(2), of 100 YyGarbage] S(1) show ?thesis by (simp add: yylex_cost_def)
qed

end
