(* ===== verification/LexParse.thy ===== *)
theory LexParse
  imports LexText
begin

text \<open>
  The parser on a text: \<open>yyparse\<close> with \<open>yylex\<close> on a file is \<open>yyparse\<close> on the list of the tokens of its text, and a
  program that is printed as text is read back.
\<close>

section \<open>One scanner for another\<close>

text \<open>\<open>la\<close> does what \<open>lb\<close> does, from related states.\<close>

definition lexes_as :: "('a \<Rightarrow> 'b \<Rightarrow> bool) \<Rightarrow> 'a lexer \<Rightarrow> 'b lexer \<Rightarrow> bool" where
  "lexes_as rel la lb \<longleftrightarrow> (\<forall>a b v. rel a b \<longrightarrow> (case lb b v of
     Ret (c, w, b') \<Rightarrow> \<exists>a'. la a v = Ret (c, w, a') \<and> rel a' b'
   | Ub \<Rightarrow> la a v = Ub | Fuel \<Rightarrow> la a v = Fuel | Abort \<Rightarrow> la a v = Abort))"

text \<open>A parser with the state of another scanner.\<close>

definition relex :: "'a \<Rightarrow> 'b parser \<Rightarrow> 'a parser" where
  "relex a P = \<lparr>ps_stack = ps_stack P, ps_char = ps_char P, ps_lval = ps_lval P, ps_errstatus = ps_errstatus P,
     ps_lex = a, ps_rules = ps_rules P\<rparr>"

fun relex_outcome :: "'a \<Rightarrow> 'b outcome \<Rightarrow> 'a outcome" where
  "relex_outcome a (Running P) = Running (relex a P)"
| "relex_outcome a (Returned r R) = Returned r R"

lemma relex_fields [simp]:
  "ps_stack (relex a P) = ps_stack P" "ps_char (relex a P) = ps_char P" "ps_lval (relex a P) = ps_lval P"
  "ps_errstatus (relex a P) = ps_errstatus P" "ps_lex (relex a P) = a" "ps_rules (relex a P) = ps_rules P"
  by (simp_all add: relex_def)

lemma relex_update [simp]:
  "(relex a P)\<lparr>ps_stack := x\<rparr> = relex a (P\<lparr>ps_stack := x\<rparr>)" "(relex a P)\<lparr>ps_char := c\<rparr> = relex a (P\<lparr>ps_char := c\<rparr>)"
  "(relex a P)\<lparr>ps_lval := v\<rparr> = relex a (P\<lparr>ps_lval := v\<rparr>)" "(relex a P)\<lparr>ps_errstatus := n\<rparr> = relex a (P\<lparr>ps_errstatus := n\<rparr>)"
  "(relex a P)\<lparr>ps_rules := R\<rparr> = relex a (P\<lparr>ps_rules := R\<rparr>)" "(relex a P)\<lparr>ps_lex := a'\<rparr> = relex a' P"
  by (simp_all add: relex_def)

lemma relex_push: "yypush s v (relex a P) = relex_outcome a (yypush s v P)"
  by (simp add: yypush_def Let_def)

lemma relex_errlab1: "yyerrlab1 (relex a P) = relex_outcome a (yyerrlab1 P)"
  by (auto simp: yyerrlab1_def Let_def relex_push split: option.splits)

lemma relex_errlab: "yyerrlab s (relex a P) = relex_outcome a (yyerrlab s P)"
  by (simp add: yyerrlab_def Let_def relex_errlab1)

lemma relex_shift: "yyshift s (relex a P) = relex_outcome a (yyshift s P)"
  by (simp add: yyshift_def relex_push)

definition map_res :: "('a \<Rightarrow> 'b) \<Rightarrow> 'a res \<Rightarrow> 'b res" where "map_res f m = rbind m (\<lambda>x. Ret (f x))"

lemma map_res_simps [simp]:
  "map_res f (Ret x) = Ret (f x)" "map_res f Ub = Ub" "map_res f Fuel = Fuel" "map_res f Abort = Abort"
  by (simp_all add: map_res_def)

lemma map_res_rbind: "map_res f (rbind m g) = rbind m (\<lambda>x. map_res f (g x))"
  by (cases m) simp_all

lemma relex_reduce: "yyreduce k r (relex a P) = map_res (relex_outcome a) (yyreduce k r P)"
  by (auto simp: yyreduce_def Let_def map_res_rbind relex_push intro!: rbind_cong split: list.splits)

lemma relex_default: "yydefault k s (relex a P) = map_res (relex_outcome a) (yydefault k s P)"
  by (simp add: yydefault_def Let_def relex_errlab relex_reduce)


text \<open>A step with one scanner and with the other.\<close>

definition sim_out :: "('a \<Rightarrow> 'b \<Rightarrow> bool) \<Rightarrow> 'a outcome res \<Rightarrow> 'b outcome res \<Rightarrow> bool" where
  "sim_out rel m m' \<longleftrightarrow> (case m' of
     Ret (Running Q) \<Rightarrow> \<exists>a. m = Ret (Running (relex a Q)) \<and> rel a (ps_lex Q)
   | Ret (Returned r R) \<Rightarrow> m = Ret (Returned r R) | Ub \<Rightarrow> m = Ub | Fuel \<Rightarrow> m = Fuel | Abort \<Rightarrow> m = Abort)"

lemma relex_self: "relex (ps_lex P) P = P"
  by (cases P) (simp add: relex_def)

lemma relex_outcome_self: "relex_outcome l (Running Q) = Running Q \<Longrightarrow> ps_lex Q = l"
  by (metis outcome.inject(1) relex_fields(5) relex_outcome.simps(1))

lemma sim_relex:
  assumes "rel a (ps_lex P)" "\<And>a. f (relex a P) = map_res (relex_outcome a) (f' P)" "f' P = f'' (relex (ps_lex P) P)"
    "\<And>b. f'' (relex b P) = map_res (relex_outcome b) (f' P)"
  shows "sim_out rel (f (relex a P)) (f' P)"
proof -
  have self: "f' P = map_res (relex_outcome (ps_lex P)) (f' P)" using assms(3,4) by simp
  show ?thesis
  proof (cases "f' P")
    case (Ret out)
    show ?thesis
    proof (cases out)
      case (Running Q)
      with Ret self have "Running Q = relex_outcome (ps_lex P) (Running Q)" by simp
      then have "ps_lex Q = ps_lex P" using relex_outcome_self by metis
      then show ?thesis using assms(1,2) Ret Running by (auto simp: sim_out_def)
    next
      case (Returned r R)
      then show ?thesis using assms(2) Ret by (simp add: sim_out_def)
    qed
  qed (simp_all add: sim_out_def assms(2))
qed

lemma sim_default: "rel a (ps_lex P) \<Longrightarrow> sim_out rel (yydefault k s (relex a P)) (yydefault k s P)"
  by (rule sim_relex [of _ _ _ "yydefault k s" "yydefault k s" "yydefault k s"]) (simp_all add: relex_default relex_self)

lemma sim_reduce: "rel a (ps_lex P) \<Longrightarrow> sim_out rel (yyreduce k r (relex a P)) (yyreduce k r P)"
  by (rule sim_relex [of _ _ _ "yyreduce k r" "yyreduce k r" "yyreduce k r"]) (simp_all add: relex_reduce relex_self)

lemma sim_errlab1: "rel a (ps_lex P) \<Longrightarrow> sim_out rel (Ret (yyerrlab1 (relex a P))) (Ret (yyerrlab1 P))"
  by (rule sim_relex [of _ _ _ "\<lambda>P. Ret (yyerrlab1 P)" "\<lambda>P. Ret (yyerrlab1 P)" "\<lambda>P. Ret (yyerrlab1 P)"])
    (simp_all add: relex_errlab1 relex_self)

lemma sim_shift: "rel a (ps_lex P) \<Longrightarrow> sim_out rel (Ret (yyshift s (relex a P))) (Ret (yyshift s P))"
  by (rule sim_relex [of _ _ _ "\<lambda>P. Ret (yyshift s P)" "\<lambda>P. Ret (yyshift s P)" "\<lambda>P. Ret (yyshift s P)"])
    (simp_all add: relex_shift relex_self)

text \<open>What \<open>yybackup\<close> does with a token.\<close>

definition with_token :: "nat \<Rightarrow> nat \<Rightarrow> 'l parser \<Rightarrow> 'l outcome res" where
  "with_token k s P =
     (if ps_char P = YYerror then Ret (yyerrlab1 (P\<lparr>ps_char := YYUNDEF\<rparr>))
      else
        let P = (if ps_char P \<le> YYEOF then P\<lparr>ps_char := YYEOF\<rparr> else P);
            t = YYTRANSLATE (ps_char P);
            i = yypact ! s + int t
        in if i < 0 \<or> YYLAST < i \<or> yycheck ! nat i \<noteq> int t then yydefault k s P
           else if yytable ! nat i = 0 then yyreduce k 0 P
           else Ret (yyshift (yytable ! nat i) P))"

lemma yybackup_token:
  "yybackup lx k P =
     (case ps_stack P of [] \<Rightarrow> Ub | (s, _) # _ \<Rightarrow>
      if s = YYFINAL then Ret (Returned 0 (ps_rules P))
      else if yypact ! s = YYPACT_NINF then yydefault k s P
      else rbind (if ps_char P = YYEMPTY
               then rbind (lx (ps_lex P) (ps_lval P)) (\<lambda>(c, v, l).
                    Ret (P\<lparr>ps_char := c, ps_lval := v, ps_lex := l\<rparr>))
               else Ret P) (with_token k s))"
  unfolding yybackup_def with_token_def by (rule refl)

lemma sim_token:
  assumes "rel a (ps_lex P)"
  shows "sim_out rel (with_token k s (relex a P)) (with_token k s P)"
proof (cases "ps_char P = YYerror")
  case True
  have "rel a (ps_lex (P\<lparr>ps_char := YYUNDEF\<rparr>))" using assms by simp
  from sim_errlab1 [of rel, OF this] True show ?thesis by (simp add: with_token_def)
next
  case False
  let ?Q = "if ps_char P \<le> YYEOF then P\<lparr>ps_char := YYEOF\<rparr> else P"
  have Q: "(if ps_char (relex a P) \<le> YYEOF then relex a P\<lparr>ps_char := YYEOF\<rparr> else relex a P) = relex a ?Q" by simp
  have rel: "rel a (ps_lex ?Q)" using assms by simp
  show ?thesis
    using False sim_default [of rel, OF rel] sim_reduce [of rel, OF rel] sim_shift [of rel, OF rel]
    unfolding with_token_def Let_def Q by (simp del: relex_update)
qed

lemma sim_backup:
  assumes "lexes_as rel la lb" "rel a (ps_lex P)"
  shows "sim_out rel (yybackup la k (relex a P)) (yybackup lb k P)"
proof (cases "ps_stack P")
  case Nil
  then show ?thesis by (simp add: yybackup_token sim_out_def)
next
  case (Cons x st)
  obtain s v where x: "x = (s, v)" by (cases x)
  consider "s = YYFINAL" | "s \<noteq> YYFINAL" "yypact ! s = YYPACT_NINF"
    | (tok) "s \<noteq> YYFINAL" "yypact ! s \<noteq> YYPACT_NINF" "ps_char P \<noteq> YYEMPTY"
    | (lex) "s \<noteq> YYFINAL" "yypact ! s \<noteq> YYPACT_NINF" "ps_char P = YYEMPTY" by blast
  then show ?thesis
  proof cases
    case 1
    then show ?thesis using Cons x by (simp add: yybackup_token sim_out_def)
  next
    case 2
    then show ?thesis using Cons x sim_default [of rel, OF assms(2)] by (simp add: yybackup_token)
  next
    case tok
    then show ?thesis using Cons x sim_token [of rel, OF assms(2)] by (simp add: yybackup_token)
  next
    case lex
    have l: "case lb (ps_lex P) (ps_lval P) of
        Ret (c, w, b') \<Rightarrow> \<exists>a'. la a (ps_lval P) = Ret (c, w, a') \<and> rel a' b'
      | Ub \<Rightarrow> la a (ps_lval P) = Ub | Fuel \<Rightarrow> la a (ps_lval P) = Fuel | Abort \<Rightarrow> la a (ps_lval P) = Abort"
      using assms unfolding lexes_as_def by blast
    show ?thesis
    proof (cases "lb (ps_lex P) (ps_lval P)")
      case (Ret y)
      obtain c w b' where y: "y = (c, w, b')" by (cases y)
      from l Ret y obtain a' where a': "la a (ps_lval P) = Ret (c, w, a')" "rel a' b'" by auto
      let ?Q = "P\<lparr>ps_char := c, ps_lval := w, ps_lex := b'\<rparr>"
      have "rel a' (ps_lex ?Q)" using a'(2) by simp
      from sim_token [of rel, OF this, of k s] have "sim_out rel (with_token k s (relex a' ?Q)) (with_token k s ?Q)" .
      moreover have "relex a' ?Q = relex a' (P\<lparr>ps_char := c, ps_lval := w\<rparr>)" by (simp add: relex_def)
      ultimately show ?thesis using lex Cons x Ret y a'(1) by (simp add: yybackup_token)
    qed (use lex Cons x l in \<open>simp_all add: yybackup_token sim_out_def\<close>)
  qed
qed

lemma sim_loop: "lexes_as rel la lb \<Longrightarrow> rel a (ps_lex P) \<Longrightarrow> yyloop la k n (relex a P) = yyloop lb k n P"
proof (induction n arbitrary: a P)
  case (Suc n)
  note s = sim_backup [OF Suc.prems, of k]
  show ?case
  proof (cases "yybackup lb k P")
    case (Ret out)
    show ?thesis
    proof (cases out)
      case (Running Q)
      with Ret s obtain b where "yybackup la k (relex a P) = Ret (Running (relex b Q))" "rel b (ps_lex Q)"
        by (auto simp: sim_out_def)
      with Ret Running Suc.IH [OF Suc.prems(1)] show ?thesis by simp
    qed (use Ret s in \<open>simp add: sim_out_def\<close>)
  qed (use s in \<open>simp_all add: sim_out_def\<close>)
qed simp

lemma yyparse_lexes_as:
  assumes "lexes_as rel la lb" "rel a b"
  shows "yyparse la k n a R = yyparse lb k n b R"
proof -
  have init: "relex a (yyinit b R) = yyinit a R" by (simp add: relex_def yyinit_def)
  have "rel a (ps_lex (yyinit b R))" using assms(2) by (simp add: yyinit_def)
  from sim_loop [OF assms(1) this, of k n] show ?thesis unfolding yyparse_def init .
qed

section \<open>The tokens of a text\<close>

lemma lex_value_plain: "a < 25 \<Longrightarrow> lex_value a x v = v"
  by (simp add: lex_value_def)

lemma lex_value_valued: "25 \<le> a \<Longrightarrow> a \<le> 34 \<Longrightarrow> lex_value a x v = lex_value a x w"
proof -
  assume "25 \<le> a" "a \<le> 34"
  then have "a = 25 \<or> a = 26 \<or> a = 27 \<or> a = 28 \<or> a = 29 \<or> a = 30 \<or> a = 31 \<or> a = 32 \<or> a = 33 \<or> a = 34" by arith
  then show "lex_value a x v = lex_value a x w" by (elim disjE) (simp_all add: lex_value_def)
qed

lemma munch_bounds_rule: "t \<noteq> [] \<Longrightarrow> munch t = (a, n) \<Longrightarrow> 0 < a \<and> a \<le> 38"
  using munch_rule rules_bounds by blast

text \<open>A call on the text gives the first of its tokens.\<close>

lemma text_lex_token:
  "scan_text t = Some ts \<Longrightarrow> (case ts of [] \<Rightarrow> text_lex t v = Ret (YYEOF, v, [])
    | (c, w) # ts' \<Rightarrow> \<exists>t'. text_lex t v = Ret (c, case w of None \<Rightarrow> v | Some w \<Rightarrow> w, t') \<and>
        scan_text t' = Some ts' \<and> length t' \<le> length t)"
proof (induction t arbitrary: ts rule: scan_text.induct)
  case (1 t)
  show ?case
  proof (cases "t = []")
    case True
    then show ?thesis using 1(3) by (simp add: scan_text.simps text_lex.simps YYEOF_def)
  next
    case False
    obtain a n where m: "munch t = (a, n)" by (cases "munch t")
    have b: "0 < a" "a \<le> 38" using munch_bounds_rule [OF False m] by simp_all
    consider (skip) "a = 35 \<or> a = 36 \<or> a = 37" | (bad) "a = 38" | (tok) "a \<le> 34" using b by linarith
    then show ?thesis
    proof cases
      case skip
      have "scan_text (drop n t) = Some ts" using 1(3) False m skip by (subst (asm) scan_text.simps) simp
      from 1(1) [OF False m [symmetric] refl skip this]
      have "case ts of [] \<Rightarrow> text_lex (drop n t) v = Ret (YYEOF, v, [])
        | (c, w) # ts' \<Rightarrow> \<exists>t'. text_lex (drop n t) v = Ret (c, case w of None \<Rightarrow> v | Some w \<Rightarrow> w, t') \<and>
            scan_text t' = Some ts' \<and> length t' \<le> length (drop n t)" .
      moreover have "text_lex t v = text_lex (drop n t) v" using False m skip by (subst text_lex.simps) simp
      ultimately show ?thesis by (auto split: list.splits prod.splits)
    next
      case bad
      then show ?thesis using 1(3) False m by (subst (asm) scan_text.simps) simp
    next
      case tok
      let ?w = "if a < 25 then None else Some (lex_value a (take n t) YyGarbage)"
      have "\<not> (a = 35 \<or> a = 36 \<or> a = 37)" "a \<noteq> 38" using tok by auto
      with 1(3) False m obtain ts' where ts: "ts = (lex_token a, ?w) # ts'" "scan_text (drop n t) = Some ts'"
        by (subst (asm) scan_text.simps) auto
      have "text_lex t v = Ret (lex_token a, lex_value a (take n t) v, drop n t)"
        using False m tok by (subst text_lex.simps) simp
      moreover have "lex_value a (take n t) v = (case ?w of None \<Rightarrow> v | Some w \<Rightarrow> w)"
        using tok lex_value_plain lex_value_valued by simp
      ultimately show ?thesis using ts by simp
    qed
  qed
qed

definition file_of :: "nat \<Rightarrow> scanner \<Rightarrow> token list \<Rightarrow> bool" where
  "file_of m S ts \<longleftrightarrow> (\<exists>t. at_text S t \<and> length t \<le> m \<and> scan_text t = Some ts)"

lemma yylex_as_list:
  assumes "m + 1 < 2 ^ 30" "yylex_cost m \<le> N"
  shows "lexes_as (file_of m) (yylex N) list_lex"
  unfolding lexes_as_def
proof (intro allI impI)
  fix S ts v assume "file_of m S ts"
  then obtain t where t: "at_text S t" "length t \<le> m" "scan_text t = Some ts" unfolding file_of_def by blast
  have "yylex_cost (length t) \<le> yylex_cost m" using t(2) unfolding yylex_cost_def by (intro mult_le_mono) simp_all
  then have cost: "yylex_cost (length t) \<le> N" using assms(2) by simp
  have len: "length t + 1 < 2 ^ 30" using t(2) assms(1) by simp
  note lex = yylex_gives_tokens [OF t(1) len cost, of v]
  note tok = text_lex_token [OF t(3), of v]
  show "case list_lex ts v of Ret (c, w, b') \<Rightarrow> \<exists>a'. yylex N S v = Ret (c, w, a') \<and> file_of m a' b'
      | Ub \<Rightarrow> yylex N S v = Ub | Fuel \<Rightarrow> yylex N S v = Fuel | Abort \<Rightarrow> yylex N S v = Abort"
  proof (cases ts)
    case Nil
    then obtain S' where "yylex N S v = Ret (YYEOF, v, S')" "at_text S' []" using lex tok by auto
    moreover have "scan_text [] = Some []" by (subst scan_text.simps) simp
    ultimately show ?thesis using Nil by (auto simp: file_of_def)
  next
    case (Cons x ts')
    obtain c w where x: "x = (c, w)" by (cases x)
    with Cons tok obtain t' where t': "text_lex t v = Ret (c, case w of None \<Rightarrow> v | Some w \<Rightarrow> w, t')"
      "scan_text t' = Some ts'" "length t' \<le> length t" by auto
    with lex obtain S' where "yylex N S v = Ret (c, case w of None \<Rightarrow> v | Some w \<Rightarrow> w, S')" "at_text S' t'" by auto
    then show ?thesis using Cons x t' t(2) by (auto simp: file_of_def)
  qed
qed

section \<open>The parser on a file\<close>

lemma init_file_of:
  assumes "yylex_init tty t = Ret S" "scan_text t = Some ts"
  shows "file_of (length t) S ts"
proof -
  obtain S' where "yylex_init tty t = Ret S'" "at_text S' t" using yylex_init_at_text by blast
  with assms show ?thesis unfolding file_of_def by auto
qed

text \<open>C6: The parser with \<open>yylex\<close> on a file does what the parser with the tokens of the file's text does: it
  returns the same value, or is undefined or out of rounds together with it, and leaves the same rules. Nothing of
  the buffer is seen by the parser.\<close>

theorem yyparse_file:
  assumes "yylex_init tty t = Ret S" "scan_text t = Some ts"
    and "length t + 1 < 2 ^ 30" "yylex_cost (length t) \<le> N"
  shows "yyparse (yylex N) k n S R = yyparse list_lex k n ts R"
  by (rule yyparse_lexes_as [OF yylex_as_list [OF assms(3,4)] init_file_of [OF assms(1,2)]])

theorem yyparse_file_witness:
  "\<exists>S. yylex_init False ''X{}'' = Ret S \<and>
    yyparse (yylex 200) 1 50 S engine_new = yyparse list_lex 1 50 [(IDENTIFIER, Some (YySval ''X'')), (123, None), (125, None)] engine_new"
proof -
  obtain S where S: "yylex_init False ''X{}'' = Ret S" using yylex_starts by blast
  have "scan_text ''X{}'' = Some [(IDENTIFIER, Some (YySval ''X'')), (123, None), (125, None)]"
    by (simp add: scan_text.simps munch_eval lex_token_def lex_value_def)
  with S show ?thesis using yyparse_file [OF S, of _ 200 1 50 engine_new] by (simp add: yylex_cost_def)
qed

end
