(* ===== verification/LexProgram.thy ===== *)
theory LexProgram
  imports LexParse
begin

text \<open>
  Writing tokens as text: a text that spells the tokens of a program, with blanks, ends of lines and comments between
  them, is scanned as these tokens, and a program that is written so is read back by the parser.
\<close>

section \<open>Words\<close>

text \<open>The text \<open>w\<close> of one token: the first of the rules that match it is the token's.\<close>

definition lexeme :: "string \<Rightarrow> token \<Rightarrow> bool" where
  "lexeme w tok \<longleftrightarrow> w \<noteq> [] \<and> (\<exists>a\<le>34. is_longest lex_rules w a (length w) \<and>
     tok = (lex_token a, if a < 25 then None else Some (lex_value a w YyGarbage)))"

lemma lexeme_munch:
  "lexeme w tok \<longleftrightarrow> w \<noteq> [] \<and> snd (munch w) = length w \<and> fst (munch w) \<le> 34 \<and>
     tok = (lex_token (fst (munch w)), if fst (munch w) < 25 then None else Some (lex_value (fst (munch w)) w YyGarbage))"
proof (cases "w = []")
  case False
  obtain a n where m: "munch w = (a, n)" by (cases "munch w")
  have "is_longest lex_rules w b (length w) \<longleftrightarrow> a = b \<and> n = length w" for b
    using munch_iff [OF False, of b "length w"] m by simp
  then show ?thesis using False m by (auto simp: lexeme_def)
qed (simp add: lexeme_def)

text \<open>Characters that end the word before them, whatever it is.\<close>

definition ends_word :: "char \<Rightarrow> bool" where
  "ends_word c \<longleftrightarrow> c \<in> set '' (){},;#'' \<or> c = CHR 0x09 \<or> c = CHR 0x0A"

definition apart :: "string \<Rightarrow> string \<Rightarrow> bool" where
  "apart w t \<longleftrightarrow> t = [] \<or> ends_word (hd t) \<or> ends_word (hd w)"

inductive written :: "token list \<Rightarrow> string \<Rightarrow> bool" where
  wr_end: "written [] []"
| wr_blank: "in_cset c Blank \<or> c = CHR 0x0A \<Longrightarrow> written ts t \<Longrightarrow> written ts (c # t)"
| wr_comment: "CHR 0x0A \<notin> set s \<Longrightarrow> written ts t \<Longrightarrow> written ts (CHR ''#'' # s @ CHR 0x0A # t)"
| wr_word: "lexeme w tok \<Longrightarrow> apart w t \<Longrightarrow> written ts t \<Longrightarrow> written (tok # ts) (w @ t)"

section \<open>What the rules match\<close>

definition is_chars :: "rexp \<Rightarrow> bool" where "is_chars r \<longleftrightarrow> (case r of Chars _ \<Rightarrow> True | _ \<Rightarrow> False)"

definition stops :: string where "stops = CHR 0x09 # CHR 0x0A # '' (){},;#''"

lemma ends_word_stops: "ends_word c \<longleftrightarrow> c \<in> set stops"
  by (auto simp: ends_word_def stops_def)

lemma stops_checked:
  "list_all (\<lambda>(a, r). a = 35 \<or> a = 36 \<or> is_chars r \<or> list_all (\<lambda>y. list_all (\<lambda>x. \<not> in_cset x y) stops) (csets r)) lex_rules"
  unfolding lex_rules_eval
  by (simp add: is_chars_def stops_def NUMBER_pattern_def IDENTIFIER_pattern_def number_exponent_def Plus_def Opt_def)

lemma words_checked:
  "list_all (\<lambda>(a, r). a \<le> 34 \<longrightarrow> list_all (\<lambda>y. list_all (\<lambda>x. \<not> in_cset x y) (CHR 0x09 # CHR 0x0A # '' #'')) (csets r)) lex_rules"
  unfolding lex_rules_eval
  by (simp add: NUMBER_pattern_def IDENTIFIER_pattern_def number_exponent_def Plus_def Opt_def)

lemma layout_patterns:
  "list_all (\<lambda>(a, r). (a = 35 \<longrightarrow> r = Plus (Chars Blank)) \<and> (a = 36 \<longrightarrow> r = comment_pattern)) lex_rules"
  unfolding lex_rules_eval by simp

lemma rmatch_Star_Chars: "rmatch (Star (Chars s)) w \<longleftrightarrow> (\<forall>c\<in>set w. in_cset c s)"
proof (induction w)
  case (Cons c w)
  show ?case unfolding rmatch_Star_Cons Cons.IH by (auto simp: rmatch_simps Cons.IH)
qed (simp add: rmatch_Nil)

lemma rmatch_Chars_iff: "rmatch (Chars s) u \<longleftrightarrow> (\<exists>c. u = [c] \<and> in_cset c s)"
  by (simp add: rmatch_simps)

lemma rmatch_Plus_Chars: "rmatch (Plus (Chars s)) w \<longleftrightarrow> w \<noteq> [] \<and> (\<forall>c\<in>set w. in_cset c s)"
proof
  assume "rmatch (Plus (Chars s)) w"
  then obtain u v where w: "w = u @ v" and u: "rmatch (Chars s) u" and v: "rmatch (Star (Chars s)) v"
    unfolding Plus_def rmatch_simps by blast
  from u obtain c where "u = [c]" "in_cset c s" unfolding rmatch_Chars_iff by blast
  with w v show "w \<noteq> [] \<and> (\<forall>c\<in>set w. in_cset c s)" by (simp add: rmatch_Star_Chars)
next
  assume w: "w \<noteq> [] \<and> (\<forall>c\<in>set w. in_cset c s)"
  then obtain c v where c: "w = [c] @ v" by (cases w) auto
  with w have "rmatch (Chars s) [c]" "rmatch (Star (Chars s)) v" by (simp_all add: rmatch_Chars_iff rmatch_Star_Chars)
  then show "rmatch (Plus (Chars s)) w" unfolding c Plus_def by (rule rm_seq)
qed

lemma rmatch_comment:
  "rmatch comment_pattern w \<longleftrightarrow> (\<exists>v. w = CHR ''#'' # v @ [CHR 0x0A] \<and> CHR 0x0A \<notin> set v)"
  unfolding comment_pattern_def rmatch_simps rmatch_Star_Chars by auto

lemma stop_match:
  assumes "rules_match lex_rules b u" "x \<in> set u" "ends_word x" "2 \<le> length u"
  shows "b = 35 \<and> (\<forall>c\<in>set u. in_cset c Blank) \<or> b = 36 \<and> (\<exists>v. u = CHR ''#'' # v @ [CHR 0x0A] \<and> CHR 0x0A \<notin> set v)"
proof -
  obtain r where r: "(b, r) \<in> set lex_rules" "rmatch r u" using assms(1) by (auto simp: rules_match_def)
  have "\<not> is_chars r" using r(2) assms(4) by (auto simp: is_chars_def rmatch_simps split: rexp.splits)
  moreover obtain y where "y \<in> set (csets r)" "in_cset x y" using rmatch_csets [OF r(2) assms(2)] by blast
  ultimately have "b = 35 \<or> b = 36"
    using stops_checked r(1) assms(3) unfolding list_all_iff ends_word_stops by fastforce
  with r layout_patterns have "b = 35 \<and> rmatch (Plus (Chars Blank)) u \<or> b = 36 \<and> rmatch comment_pattern u"
    unfolding list_all_iff by fastforce
  then show ?thesis unfolding rmatch_Plus_Chars rmatch_comment by blast
qed

lemma word_match:
  assumes "rules_match lex_rules a u" "a \<le> 34" "x \<in> set u"
  shows "\<not> in_cset x Blank" "x \<noteq> CHR ''#''" "x \<noteq> CHR 0x0A"
proof -
  obtain r where r: "(a, r) \<in> set lex_rules" "rmatch r u" using assms(1) by (auto simp: rules_match_def)
  obtain y where "y \<in> set (csets r)" "in_cset x y" using rmatch_csets [OF r(2) assms(3)] by blast
  with r(1) assms(2) words_checked have "x \<notin> set (CHR 0x09 # CHR 0x0A # '' #'')"
    unfolding list_all_iff by fastforce
  then show "\<not> in_cset x Blank" "x \<noteq> CHR ''#''" "x \<noteq> CHR 0x0A" by auto
qed

section \<open>The tokens of a text that is written\<close>

lemma munch_apart:
  assumes "w \<noteq> []" "munch w = (a, length w)" "a \<le> 34" "apart w t"
  shows "munch (w @ t) = (a, length w)"
proof -
  have w: "is_longest lex_rules w a (length w)" using munch_iff assms(1,2) by blast
  then have a: "rules_match lex_rules a w" "\<forall>b. rules_match lex_rules b w \<longrightarrow> a \<le> b" by (simp_all add: is_longest_def)
  have "\<not> rules_match lex_rules b (take m (w @ t))" if m: "length w < m" "m \<le> length (w @ t)" for m b
  proof
    assume b: "rules_match lex_rules b (take m (w @ t))"
    obtain c t' where t: "t = c # t'" using m by (cases t) auto
    obtain k where k: "m = length w + Suc k" using m(1) less_imp_Suc_add by auto
    have u: "take m (w @ t) = w @ c # take k t'" by (simp add: t k)
    have "ends_word c \<or> ends_word (hd w)" using assms(4) t by (simp add: apart_def)
    then obtain x where "x \<in> set (w @ c # take k t')" "ends_word x"
      using hd_in_set [OF assms(1)] by (metis Un_iff list.set_intros(1) set_append)
    moreover have "2 \<le> length (w @ c # take k t')" using assms(1) by (cases w) auto
    ultimately have "(\<forall>c\<in>set (w @ c # take k t'). in_cset c Blank) \<or> (\<exists>v. w @ c # take k t' = CHR ''#'' # v @ [CHR 0x0A])"
      using stop_match b unfolding u by blast
    moreover have "hd w \<in> set w" using assms(1) by simp
    ultimately show False
      using word_match(1,2) [OF a(1) assms(3)] by (cases w) auto
  qed
  with a have "is_longest lex_rules (w @ t) a (length w)" by (simp add: is_longest_def)
  then show ?thesis using munch_iff assms(1) by blast
qed

lemma scan_word:
  assumes "lexeme w tok" "apart w t"
  shows "scan_text (w @ t) = map_option (Cons tok) (scan_text t)"
proof -
  obtain a where a: "munch w = (a, length w)" "a \<le> 34" "w \<noteq> []"
    and tok: "tok = (lex_token a, if a < 25 then None else Some (lex_value a w YyGarbage))"
    using assms(1) unfolding lexeme_munch by (metis prod.collapse)
  have "munch (w @ t) = (a, length w)" by (rule munch_apart [OF a(3,1,2) assms(2)])
  with a(2,3) tok show ?thesis by (subst scan_text.simps) simp
qed

lemma rule_newline: "rules_match lex_rules b [CHR 0x0A] \<longleftrightarrow> b = 37"
  unfolding rules_match_Cons rules_match_Nil
  by (simp add: lex_eval lex_rules_eval NUMBER_pattern_def IDENTIFIER_pattern_def comment_pattern_def)

lemma scan_newline: "scan_text (CHR 0x0A # t) = scan_text t"
proof -
  let ?t = "CHR 0x0A # t"
  obtain a n where m: "munch ?t = (a, n)" by (cases "munch ?t")
  then have long: "is_longest lex_rules ?t a n" using munch_iff [of ?t a n] by simp
  have n: "0 < n" using munch_bounds [of ?t] m by simp
  from long have a: "rules_match lex_rules a (take n ?t)" by (simp add: is_longest_def)
  have in_t: "CHR 0x0A \<in> set (take n ?t)" using n by (cases n) auto
  have "n = 1"
  proof (rule ccontr)
    assume "n \<noteq> 1"
    with n long have "2 \<le> length (take n ?t)" by (simp add: is_longest_def)
    moreover have "ends_word (CHR 0x0A)" by (simp add: ends_word_def)
    ultimately have "in_cset (CHR 0x0A) Blank \<or> (\<exists>v. take n ?t = CHR ''#'' # v)"
      using stop_match [OF a in_t] in_t by blast
    then show False using n by (cases n) simp_all
  qed
  moreover have "a = 37"
    using a rule_newline \<open>n = 1\<close> by simp
  ultimately show ?thesis using m by (subst scan_text.simps) simp
qed

lemma blank_match:
  assumes "rules_match lex_rules b u" "in_cset (hd u) Blank" "u \<noteq> []"
  shows "(\<forall>c\<in>set u. in_cset c Blank) \<and> 35 \<le> b"
proof -
  have hd: "hd u \<in> set u" using assms(3) by simp
  have "35 \<le> b" using word_match(1) [OF assms(1) _ hd] assms(2) by (cases "b \<le> 34") simp_all
  moreover have "\<forall>c\<in>set u. in_cset c Blank"
  proof (cases "2 \<le> length u")
    case True
    have "ends_word (hd u)" using assms(2) by (auto simp: ends_word_def)
    from stop_match [OF assms(1) hd this True] assms(2) show ?thesis by auto
  next
    case False
    then obtain c where "u = [c]" using assms(3) by (cases u; cases "tl u") auto
    with assms(2) show ?thesis by simp
  qed
  ultimately show ?thesis by blast
qed

lemma munch_blanks:
  assumes "in_cset c Blank"
  shows "munch (c # t) = (35, Suc (length (takeWhile (\<lambda>c. in_cset c Blank) t)))"
proof -
  let ?blank = "\<lambda>c. in_cset c Blank"
  let ?n = "Suc (length (takeWhile ?blank t))"
  have hd_take: "hd (take (Suc n) (c # t)) = c" "(take (Suc n) (c # t) \<noteq> []) = True" for n by simp_all
  have u: "take ?n (c # t) = c # takeWhile ?blank t" by (simp add: takeWhile_eq_take [symmetric])
  have "\<forall>d\<in>set (c # takeWhile ?blank t). ?blank d" using assms by (auto dest: set_takeWhileD simp del: in_cset.simps)
  then have "rmatch (Plus (Chars Blank)) (take ?n (c # t))" unfolding u rmatch_Plus_Chars by blast
  moreover have "(35, Plus (Chars Blank)) \<in> set lex_rules" by (simp add: lex_rules_eval)
  ultimately have "rules_match lex_rules 35 (take ?n (c # t))" unfolding rules_match_def by blast
  moreover have "35 \<le> b" if "rules_match lex_rules b (take ?n (c # t))" for b
    using blank_match [OF that] assms unfolding hd_take by blast
  moreover have "\<not> rules_match lex_rules b (take m (c # t))" if m: "?n < m" "m \<le> length (c # t)" for m b
  proof
    assume b: "rules_match lex_rules b (take m (c # t))"
    obtain k where k: "m = Suc k" using m(1) by (cases m) auto
    have "length (takeWhile ?blank t) < k" "k \<le> length t" using m k by simp_all
    then have "t ! length (takeWhile ?blank t) \<in> set (take k t)" "\<not> ?blank (t ! length (takeWhile ?blank t))"
      using nth_length_takeWhile [of ?blank t] by (auto simp: in_set_conv_nth simp del: in_cset.simps)
    moreover have "\<forall>d\<in>set (take m (c # t)). ?blank d"
      using blank_match [OF b] assms unfolding k hd_take by blast
    ultimately show False by (simp add: k del: in_cset.simps)
  qed
  ultimately have "is_longest lex_rules (c # t) 35 ?n" by (auto simp: is_longest_def length_takeWhile_le)
  then show ?thesis using munch_iff by blast
qed

lemma scan_blank:
  assumes "in_cset c Blank"
  shows "scan_text (c # t) = scan_text t"
proof -
  let ?blank = "\<lambda>c. in_cset c Blank"
  have skip: "scan_text (d # u) = scan_text (dropWhile ?blank u)" if "?blank d" for d u
    using munch_blanks [OF that, of u]
    by (subst scan_text.simps) (simp add: dropWhile_eq_drop [symmetric] del: in_cset.simps)
  show ?thesis
  proof (cases "t = [] \<or> \<not> ?blank (hd t)")
    case True
    then have "dropWhile ?blank t = t" by (cases t) auto
    then show ?thesis using skip [OF assms, of t] by (simp only:)
  next
    case False
    then obtain d u where "t = d # u" "?blank d" by (cases t) (auto simp del: in_cset.simps)
    then have "scan_text t = scan_text (dropWhile ?blank t)" using skip [of d u] by (simp only: dropWhile.simps if_True)
    then show ?thesis using skip [OF assms, of t] by (simp only:)
  qed
qed

lemma scan_comment:
  assumes "CHR 0x0A \<notin> set s"
  shows "scan_text (CHR ''#'' # s @ CHR 0x0A # t) = scan_text t"
proof -
  let ?w = "CHR ''#'' # s @ [CHR 0x0A]"
  have stop: "ends_word (CHR ''#'')" by (simp add: ends_word_def)
  have "rmatch comment_pattern ?w" using assms by (auto simp: rmatch_comment)
  moreover have "(36, comment_pattern) \<in> set lex_rules" by (simp add: lex_rules_eval)
  ultimately have w: "rules_match lex_rules 36 ?w" unfolding rules_match_def by blast
  have only: "b = 36 \<and> (\<exists>v. CHR ''#'' # u = CHR ''#'' # v @ [CHR 0x0A] \<and> CHR 0x0A \<notin> set v)"
    if "rules_match lex_rules b (CHR ''#'' # u)" "u \<noteq> []" for b u
  proof -
    have "2 \<le> length (CHR ''#'' # u)" using that(2) by (cases u) simp_all
    from stop_match [OF that(1) _ stop this] show ?thesis by auto
  qed
  have least: "36 \<le> b" if "rules_match lex_rules b ?w" for b
    using only [OF that] by simp
  have longest: "\<not> rules_match lex_rules b (take m (?w @ t))" if m: "length ?w < m" "m \<le> length (?w @ t)" for m b
  proof
    assume b: "rules_match lex_rules b (take m (?w @ t))"
    obtain k where k: "m = Suc (length ?w + k)" using less_imp_Suc_add [OF m(1)] by blast
    obtain d t' where t: "t = d # t'" using m by (cases t) auto
    have "take m (?w @ t) = CHR ''#'' # s @ CHR 0x0A # d # take k t'" by (simp add: t k)
    with only [of b "s @ CHR 0x0A # d # take k t'"] b obtain v
      where "s @ CHR 0x0A # d # take k t' = v @ [CHR 0x0A]" and v: "CHR 0x0A \<notin> set v" by auto
    then have "butlast (s @ CHR 0x0A # d # take k t') = v" by (simp only: butlast_snoc)
    then have "s @ CHR 0x0A # butlast (d # take k t') = v" by (simp add: butlast_append)
    then have "CHR 0x0A \<in> set v" by (metis in_set_conv_decomp)
    with v show False by blast
  qed
  have len: "length ?w \<le> length (?w @ t)" "take (length ?w) (?w @ t) = ?w" by simp_all
  have "is_longest lex_rules (?w @ t) 36 (length ?w)"
    unfolding is_longest_def len(2) using len(1) w least longest by blast
  then have "munch (?w @ t) = (36, length ?w)" using munch_iff [of "?w @ t"] by blast
  then show ?thesis by (subst scan_text.simps) simp
qed

lemma scan_written: "written ts t \<Longrightarrow> scan_text t = Some ts"
proof (induction rule: written.induct)
  case wr_end
  show ?case by (subst scan_text.simps) simp
next
  case (wr_blank c ts t)
  from wr_blank.hyps(1) show ?case
  proof
    assume "in_cset c Blank"
    from scan_blank [OF this] wr_blank.IH show ?thesis by (simp only:)
  next
    assume "c = CHR 0x0A"
    then show ?thesis using scan_newline wr_blank.IH by (simp only:)
  qed
next
  case (wr_comment s ts t)
  then show ?case using scan_comment [of s t] by simp
next
  case (wr_word w tok t ts)
  then show ?case using scan_word by simp
qed

section \<open>Names and numbers\<close>

lemma lit_match: "rmatch (lit v) w \<longleftrightarrow> w = v"
  by (induction v arbitrary: w rule: lit.induct) (auto simp: rmatch_simps)

lemma rule_is_literal: "(b, r) \<in> set lex_rules \<Longrightarrow> b < 33 \<Longrightarrow> r \<in> lit ` set lex_literals"
  by (auto simp: lex_rules_def dest: set_zip_rightD)

lemma literal_match: "rules_match lex_rules b w \<Longrightarrow> b < 33 \<Longrightarrow> w \<in> set lex_literals"
  using rule_is_literal by (fastforce simp: rules_match_def lit_match)

lemma lexeme_longest:
  assumes "w \<noteq> []" "rules_match lex_rules a w" "\<And>b. rules_match lex_rules b w \<Longrightarrow> a \<le> b" "a \<le> 34"
  shows "lexeme w (lex_token a, if a < 25 then None else Some (lex_value a w YyGarbage))"
proof -
  have "is_longest lex_rules w a (length w)" using assms(2,3) unfolding is_longest_def by fastforce
  then have "munch w = (a, length w)" using munch_iff assms(1) by blast
  then show ?thesis using assms(1,4) by (simp add: lexeme_munch)
qed

lemma lexeme_name:
  assumes "in_cset c Letter" "\<forall>d\<in>set w. in_cset d Word" "c # w \<notin> set lex_literals"
  shows "lexeme (c # w) (IDENTIFIER, Some (YySval (c # w)))"
proof -
  have "rmatch IDENTIFIER_pattern ([c] @ w)"
    unfolding IDENTIFIER_pattern_def using assms(1,2)
    by (intro rm_seq) (simp_all only: rmatch_Chars_iff rmatch_Star_Chars, blast)
  then have "rules_match lex_rules 34 (c # w)" by (auto simp: rules_match_def lex_rules_def)
  moreover have "34 \<le> b" if "rules_match lex_rules b (c # w)" for b
  proof (rule ccontr)
    assume "\<not> 34 \<le> b"
    moreover have "\<not> b < 33" using literal_match [OF that] assms(3) by blast
    ultimately have "b = 33" by simp
    with that text_patterns have "rmatch NUMBER_pattern (c # w)"
      unfolding rules_match_def list_all_iff by fastforce
    moreover have "\<not> in_cset c Digit" "\<not> in_cset c Sign" "c \<noteq> CHR ''.''" using assms(1) by (auto simp: Let_def)
    then have "after c NUMBER_pattern = []"
      by (simp add: NUMBER_pattern_def Opt_def Plus_def del: in_cset.simps(4,5))
    ultimately show False by (simp add: rmatch_Cons)
  qed
  ultimately have "lexeme (c # w) (lex_token 34, if 34 < (25::nat) then None else Some (lex_value 34 (c # w) YyGarbage))"
    by (intro lexeme_longest) simp_all
  then show ?thesis by (simp add: lex_token_def lex_value_def)
qed

lemma literals_no_digit: "list_all (\<lambda>w. \<not> in_cset (hd w) Digit) lex_literals"
  by (simp add: lex_literals_def)

lemma lexeme_digits:
  assumes "w \<noteq> []" "\<forall>d\<in>set w. in_cset d Digit"
  shows "lexeme w (VALUE, Some (YyDval (atof w)))"
proof -
  have empty: "rmatch number_exponent []" "rmatch (Opt (Chars Sign)) []" "rmatch (Star (Chars Digit)) []"
    "rmatch (Opt (Chars (Lit (CHR ''.'')))) []"
    by (simp_all add: rmatch_Nil number_exponent_def Opt_def)
  have "rmatch (Plus (Chars Digit)) w" using assms unfolding rmatch_Plus_Chars by blast
  from rm_seq [OF empty(2) rm_seq [OF empty(3) rm_seq [OF empty(4) rm_seq [OF this empty(1)]]]]
  have "rmatch NUMBER_pattern w" by (simp add: NUMBER_pattern_def)
  then have "rules_match lex_rules 33 w" by (auto simp: rules_match_def lex_rules_def)
  moreover have "33 \<le> b" if "rules_match lex_rules b w" for b
  proof (rule ccontr)
    assume "\<not> 33 \<le> b"
    then have "w \<in> set lex_literals" using literal_match [OF that] by simp
    moreover have "in_cset (hd w) Digit" using assms by (meson list.set_sel(1))
    ultimately show False using literals_no_digit unfolding list_all_iff by blast
  qed
  ultimately have "lexeme w (lex_token 33, if 33 < (25::nat) then None else Some (lex_value 33 w YyGarbage))"
    using assms(1) by (intro lexeme_longest) simp_all
  then show ?thesis by (simp add: lex_token_def lex_value_def)
qed

section \<open>The round trip through a file\<close>

text \<open>The example spells a declaration, with a comment, over two lines.\<close>

lemma declaration_written:
  "written (print_program [Var ''X'' (Some (ARef ''A''))]) (''VAR X # one'' @ CHR 0x0A # ''= A;'')"
proof -
  have l: "lexeme ''VAR'' (T_KEY_VAR, None)" "lexeme ''X'' (IDENTIFIER, Some (YySval ''X''))" "lexeme ''='' (61, None)"
    "lexeme ''A'' (IDENTIFIER, Some (YySval ''A''))" "lexeme '';'' (59, None)"
    by (simp_all add: lexeme_munch munch_eval lex_token_def lex_value_def)
  have "written [(59, None)] '';''"
    using wr_word [OF l(5) _ wr_end] by (simp add: apart_def)
  then have "written [(IDENTIFIER, Some (YySval ''A'')), (59, None)] ''A;''"
    using wr_word [OF l(4), of "'';''"] by (simp add: apart_def ends_word_def)
  then have "written [(IDENTIFIER, Some (YySval ''A'')), (59, None)] '' A;''"
    by (rule wr_blank [rotated]) simp
  then have "written [(61, None), (IDENTIFIER, Some (YySval ''A'')), (59, None)] ''= A;''"
    using wr_word [OF l(3), of "'' A;''"] by (simp add: apart_def ends_word_def)
  then have "written [(61, None), (IDENTIFIER, Some (YySval ''A'')), (59, None)] (CHR ''#'' # '' one'' @ CHR 0x0A # ''= A;'')"
    by (rule wr_comment [rotated]) simp
  then have "written [(61, None), (IDENTIFIER, Some (YySval ''A'')), (59, None)] (CHR '' '' # CHR ''#'' # '' one'' @ CHR 0x0A # ''= A;'')"
    by (rule wr_blank [rotated]) simp
  then have "written [(IDENTIFIER, Some (YySval ''X'')), (61, None), (IDENTIFIER, Some (YySval ''A'')), (59, None)]
      (''X # one'' @ CHR 0x0A # ''= A;'')"
    using wr_word [OF l(2), of "'' # one'' @ CHR 0x0A # ''= A;''"] by (simp add: apart_def ends_word_def)
  then have "written [(IDENTIFIER, Some (YySval ''X'')), (61, None), (IDENTIFIER, Some (YySval ''A'')), (59, None)]
      (CHR '' '' # ''X # one'' @ CHR 0x0A # ''= A;'')"
    by (rule wr_blank [rotated]) simp
  then show ?thesis
    using wr_word [OF l(1), of "'' X # one'' @ CHR 0x0A # ''= A;''"] by (simp add: apart_def ends_word_def print_program_def)
qed

text \<open>C5: A program of declarations, label blocks and triggers is read back from a file: any text that spells its
  tokens, each ended by a blank, a comment, the end of a line or a bracket, comma or semicolon where it would
  otherwise run on, is scanned from its parts and parsed, with 0 returned and the variables, label blocks and
  triggers of the program in the engine.\<close>

theorem yyparse_written:
  assumes "written (print_program is) t" "program_fits is" "yylex_init tty t = Ret S"
    and "0 < k" "8 * length (print_program is) + 10 \<le> n"
    and "length t + 1 < 2 ^ 30" "yylex_cost (length t) \<le> N"
  shows "yyparse (yylex N) k n S engine_new = Ret (0, fold build_instruction is engine_new)"
proof -
  have "file_of (length t) S (print_program is)" using init_file_of assms(3) scan_written [OF assms(1)] by blast
  with yylex_as_list [OF assms(6,7)]
  have "yyparse (yylex N) k n S engine_new = yyparse list_lex k n (print_program is) engine_new"
    by (rule yyparse_lexes_as)
  then show ?thesis
    using parse_of_print [OF assms(2,4,5), of engine_new] heap_counted_empty
    by (simp add: engine_new_def rules_roots_def gh_new_def)
qed

text \<open>A declaration with a comment, over two lines.\<close>

theorem yyparse_written_witness:
  "\<exists>S. yylex_init False (''VAR X # one'' @ CHR 0x0A # ''= A;'') = Ret S \<and>
    yyparse (yylex 2000) 1 100 S engine_new = Ret (0, build_instruction (Var ''X'' (Some (ARef ''A''))) engine_new)"
proof -
  let ?t = "''VAR X # one'' @ CHR 0x0A # ''= A;''"
  obtain S where S: "yylex_init False ?t = Ret S" using yylex_starts by blast
  have fits: "program_fits [Var ''X'' (Some (ARef ''A''))]"
    by (simp add: program_fits_def fits_stack_def YYMAXDEPTH_def)
  show ?thesis
    using yyparse_written [OF declaration_written fits S, of 1 100 2000] S by (simp add: print_program_def yylex_cost_def)
qed

end
