(* ===== verification/Startup.thy ===== *)
theory Startup
  imports RulesLive LexProgram
begin

text \<open>
  \<open>src/main.c\<close> from its first line to the main loop: the settings, the command line, the rules file, which the output
  of a preprocessor gives, the debugger and the discovery of services; and what a rules file makes of the program.
\<close>

section \<open>Replacing text\<close>

text \<open>
  \<open>st_g_string_replace\<close>, the replacement for \<open>g_string_replace\<close> of old GLib versions: \<open>cur\<close> is the rest of the
  string, which has no NUL.
\<close>

function replace_loop :: "string \<Rightarrow> string \<Rightarrow> 32 word \<Rightarrow> 32 word \<Rightarrow> string \<Rightarrow> string \<times> 32 word" where
  "replace_loop fnd repl limit n cur =
     (case cur of
        [] \<Rightarrow> ([], n)
      | c # cs \<Rightarrow>
          if fnd = [] \<or> take (length fnd) cur \<noteq> fnd then apfst (Cons c) (replace_loop fnd repl limit n cs)
          else if limit \<noteq> 0 \<and> n + 1 = limit then (repl @ drop (length fnd) cur, n + 1)
          else apfst (append repl) (replace_loop fnd repl limit (n + 1) (drop (length fnd) cur)))"
  by pat_completeness auto
termination by (relation "measure (\<lambda>(fnd, repl, limit, n, cur). length cur)") auto

declare replace_loop.simps [simp del]

definition st_g_string_replace :: "string \<Rightarrow> string \<Rightarrow> string option \<Rightarrow> 32 word \<Rightarrow> string \<times> 32 word" where
  "st_g_string_replace str fnd replace limit =
     (case replace of
        None \<Rightarrow> (str, 0)
      | Some repl \<Rightarrow> if fnd = [] then (str, 0) else replace_loop fnd repl limit 0 str)"


section \<open>Options\<close>

text \<open>What settings and command line set in \<open>STCore\<close>, and the variable \<open>version_flag\<close>.\<close>

record st_options =
  op_rules_preprocessor :: "string option"
  op_rules_file :: "string option"
  op_srvmatch :: "string option"
  op_no_discovery :: bool
  op_debug_server_bind :: "string option"
  op_version :: bool

text \<open>
  The library functions and programs that the start calls: the settings, the parser of options, which writes them over
  the settings, the shell's way to split a command, a program that is run, with its exit status and output, a
  stream on a string, the standard input, the address to listen on, and the client of Avahi. The numbers bound the
  rounds of the scanner and of the parser.
\<close>

record start_env =
  se_settings :: "string option"
  se_parse :: "st_options \<Rightarrow> gerror + st_options"
  se_shell :: "string \<Rightarrow> gerror + string list"
  se_spawn :: "string list \<Rightarrow> gerror + int \<times> string option"
  se_fmemopen :: "string \<Rightarrow> string option"
  se_stdin :: "bool \<times> string"
  se_listen :: "string \<Rightarrow> gerror + string option"
  se_mdns :: bool
  se_gotos :: nat
  se_unrefs :: nat
  se_rounds :: nat

definition load_settings :: "start_env \<Rightarrow> st_options \<Rightarrow> bool \<times> st_options" where
  "load_settings SE self =
     (case se_settings SE of
        None \<Rightarrow> (False, self)
      | Some pp \<Rightarrow> (True, self\<lparr>op_rules_preprocessor := Some pp\<rparr>))"

definition parse_command_line :: "start_env \<Rightarrow> st_options \<Rightarrow> bool \<times> st_options" where
  "parse_command_line SE self =
     (let (r, self) = (case se_parse SE self of Inl e \<Rightarrow> (False, self) | Inr opts \<Rightarrow> (True, opts))
      in (r, if op_srvmatch self = None then self\<lparr>op_srvmatch := Some ''^(STARTER:|ST:).*''\<rparr> else self))"

section \<open>The rules file\<close>

text \<open>
  \<open>parse_rules_file\<close>: the text is the output of the preprocessor up to its first NUL. The scanner reads the
  standard input when there is no stream. A variable is connected to \<open>st_core_var_changed_callback\<close> when the parser has
  returned 0; the core model has it connected from the start.
\<close>

definition rules_stream :: "start_env \<Rightarrow> string \<Rightarrow> bool \<times> string" where
  "rules_stream SE stdout_buf =
     (case se_fmemopen SE (takeWhile (\<lambda>c. c \<noteq> CHR 0x00) stdout_buf) of
        None \<Rightarrow> se_stdin SE
      | Some t \<Rightarrow> (False, t))"

definition parse_rules_file :: "start_env \<Rightarrow> st_options \<Rightarrow> rules \<Rightarrow> (bool \<times> rules) res" where
  "parse_rules_file SE self eng =
     (case op_rules_preprocessor self of
        None \<Rightarrow> Ret (False, eng)
      | Some pp \<Rightarrow>
          if pp = [] then Ret (False, eng)
          else case se_shell SE (fst (st_g_string_replace pp ''{F}'' (op_rules_file self) 0)) of
            Inl e \<Rightarrow> Ret (False, eng)
          | Inr argv \<Rightarrow>
              (case se_spawn SE argv of
                 Inl e \<Rightarrow> Ret (False, eng)
               | Inr (exit_status, stdout_buf) \<Rightarrow>
                   (case stdout_buf of
                      None \<Rightarrow> Ret (False, eng)
                    | Some buf \<Rightarrow>
                        if exit_status \<noteq> 0 then Ret (False, eng)
                        else
                          let (tty, t) = rules_stream SE buf
                          in rbind (yylex_init tty t) (\<lambda>S.
                             rbind (yyparse (yylex (se_gotos SE)) (se_unrefs SE) (se_rounds SE) S eng) (\<lambda>(r, eng).
                             Ret (r = 0, eng))))))"

section \<open>The start\<close>

datatype start_exit = EXIT_FAILURE | EXIT_SUCCESS

text \<open>\<open>main\<close>, to the call of \<open>g_main_loop_run\<close>, or the status it exits with.\<close>

definition main_options :: st_options where
  "main_options = \<lparr>op_rules_preprocessor = None, op_rules_file = None, op_srvmatch = None, op_no_discovery = False,
     op_debug_server_bind = None, op_version = False\<rparr>"

definition main_core :: "st_options \<Rightarrow> rules \<Rightarrow> st_core_debug \<Rightarrow> st_core" where
  "main_core opts R d =
     (core_init (connect_debug (engine_of R)) (ru_vars R) (ru_heap R) (Some d))
       \<lparr>co_no_discovery := op_no_discovery opts, co_srvmatch := the (op_srvmatch opts), co_rules_file := op_rules_file opts\<rparr>"

definition main_start :: "start_env \<Rightarrow> (start_exit + st_core) res" where
  "main_start SE =
     (let (r, self) = load_settings SE main_options
      in if \<not> r then Ret (Inl EXIT_FAILURE)
      else let (r, self) = parse_command_line SE self
      in if \<not> r then Ret (Inl EXIT_FAILURE)
      else if op_version self then Ret (Inl EXIT_SUCCESS)
      else rbind (parse_rules_file SE self engine_new) (\<lambda>(r, eng).
        if \<not> r then Ret (Inl EXIT_FAILURE)
        else let (e, d) = st_core_debug_start (se_listen SE) (op_debug_server_bind self) st_core_debug_init
        in if e \<noteq> None then Ret (Inl EXIT_FAILURE)
        else if \<not> op_no_discovery self \<and> \<not> se_mdns SE then Ret (Inl EXIT_FAILURE)
        else Ret (Inr (main_core self eng d))))"

section \<open>A rules file that is written for a program\<close>

text \<open>The text that the parser reads: the output of a preprocessor that succeeds.\<close>

definition rules_text :: "start_env \<Rightarrow> st_options \<Rightarrow> string \<Rightarrow> bool" where
  "rules_text SE opts t \<longleftrightarrow> (\<exists>pp argv buf tty. op_rules_preprocessor opts = Some pp \<and> pp \<noteq> [] \<and>
     se_shell SE (fst (st_g_string_replace pp ''{F}'' (op_rules_file opts) 0)) = Inr argv \<and>
     se_spawn SE argv = Inr (0, Some buf) \<and> rules_stream SE buf = (tty, t))"

lemma parse_rules_file_text:
  assumes "rules_text SE opts t"
  shows "\<exists>S. (\<exists>tty. yylex_init tty t = Ret S) \<and> parse_rules_file SE opts eng =
    rbind (yyparse (yylex (se_gotos SE)) (se_unrefs SE) (se_rounds SE) S eng) (\<lambda>(r, eng). Ret (r = 0, eng))"
proof -
  obtain pp argv buf tty where t: "op_rules_preprocessor opts = Some pp" "pp \<noteq> []"
      "se_shell SE (fst (st_g_string_replace pp ''{F}'' (op_rules_file opts) 0)) = Inr argv"
      "se_spawn SE argv = Inr (0, Some buf)" "rules_stream SE buf = (tty, t)"
    using assms unfolding rules_text_def by blast
  obtain S where S: "yylex_init tty t = Ret S" using yylex_starts by blast
  with t show ?thesis by (intro exI [of _ S]) (auto simp: parse_rules_file_def)
qed

text \<open>Rounds enough for the scanner and the parser.\<close>

definition rounds_enough :: "start_env \<Rightarrow> string \<Rightarrow> instruction list \<Rightarrow> bool" where
  "rounds_enough SE t is \<longleftrightarrow> length t + 1 < 2 ^ 30 \<and> yylex_cost (length t) \<le> se_gotos SE \<and> 0 < se_unrefs SE \<and>
     8 * length (print_program is) + 10 \<le> se_rounds SE"

lemma written_rules_loaded:
  assumes "rules_text SE opts t" "written (print_program is) t" "program_fits is" "rounds_enough SE t is"
  shows "parse_rules_file SE opts engine_new = Ret (True, fold build_instruction is engine_new)"
proof -
  note enough = assms(4) [unfolded rounds_enough_def]
  obtain S tty where S: "yylex_init tty t = Ret S" and p: "parse_rules_file SE opts engine_new =
      rbind (yyparse (yylex (se_gotos SE)) (se_unrefs SE) (se_rounds SE) S engine_new) (\<lambda>(r, eng). Ret (r = 0, eng))"
    using parse_rules_file_text [OF assms(1)] by blast
  have "file_of (length t) S (print_program is)" using init_file_of S scan_written [OF assms(2)] by blast
  moreover have "lexes_as (file_of (length t)) (yylex (se_gotos SE)) list_lex" using enough by (intro yylex_as_list) simp_all
  ultimately have "yyparse (yylex (se_gotos SE)) (se_unrefs SE) (se_rounds SE) S engine_new =
      yyparse list_lex (se_unrefs SE) (se_rounds SE) (print_program is) engine_new"
    by (intro yyparse_lexes_as [of "file_of (length t)"])
  also have "\<dots> = Ret (0, fold build_instruction is engine_new)"
    using parse_of_print [OF assms(3)] enough heap_counted_empty
    by (simp add: engine_new_def rules_roots_def gh_new_def)
  finally show ?thesis using p by simp
qed

lemma main_core_ok:
  "rules_loaded r cand (connect_debug (engine_of R)) (ru_vars R) (ru_heap R) \<Longrightarrow> core_ok r cand E (main_core opts R d)"
  using core_init_ok [of r cand "connect_debug (engine_of R)" "ru_vars R" "ru_heap R" E "Some d"]
  by (simp add: main_core_def core_ok_def core_ctx_def registry_ok_def tables_ok_def pending_ok_def clients_ok_def)


text \<open>A program that is started with \<open>-R rules\<close>, and a preprocessor that writes one declaration.\<close>

fun words_of :: "string \<Rightarrow> string list" where
  "words_of [] = [[]]"
| "words_of (c # s) = (if c = CHR '' '' then [] # words_of s else case words_of s of [] \<Rightarrow> [[c]] | w # ws \<Rightarrow> (c # w) # ws)"

definition one_start :: start_env where
  "one_start = \<lparr>se_settings = Some ''m4 {F}'', se_parse = (\<lambda>opts. Inr (opts\<lparr>op_rules_file := Some ''rules''\<rparr>)),
     se_shell = (\<lambda>s. Inr (words_of s)),
     se_spawn = (\<lambda>argv. Inr (if argv = [''m4'', ''rules''] then 0 else 1, Some (''VAR X # one'' @ CHR 0x0A # ''= A;''))),
     se_fmemopen = Some, se_stdin = (False, []), se_listen = (\<lambda>_. Inr None), se_mdns = True,
     se_gotos = 2000, se_unrefs = 1, se_rounds = 100\<rparr>"

definition one_options :: st_options where
  "one_options = main_options\<lparr>op_rules_preprocessor := Some ''m4 {F}'', op_rules_file := Some ''rules'',
     op_srvmatch := Some ''^(STARTER:|ST:).*''\<rparr>"

definition one_rules :: rules where
  "one_rules = build_instruction (Var ''X'' (Some (ARef ''A''))) engine_new"

definition one_debug :: st_core_debug where
  "one_debug = snd (st_core_debug_start (\<lambda>_. Inr None) None st_core_debug_init)"

lemma one_day: "ends_in (\<lambda>s. co_clients s = []) (core_run lamp_env lamp_events (main_core one_options one_rules one_debug))"
  by code_simp

lemma one_text: "rules_text one_start one_options (''VAR X # one'' @ CHR 0x0A # ''= A;'')"
proof -
  have "words_of (fst (st_g_string_replace ''m4 {F}'' ''{F}'' (Some ''rules'') 0)) = [''m4'', ''rules'']" by code_simp
  moreover have "\<exists>tty. rules_stream one_start (''VAR X # one'' @ CHR 0x0A # ''= A;'') = (tty, ''VAR X # one'' @ CHR 0x0A # ''= A;'')"
    by (intro exI [of _ False]) (simp add: rules_stream_def one_start_def)
  ultimately show ?thesis by (simp add: rules_text_def one_start_def one_options_def)
qed


end
