(* ===== verification/Spec2Isabelle.thy ===== *)
theory Spec2Isabelle
  imports CoreLive Mirror Mdns Collector Startup
begin

text \<open>
  A model of starter-core, a home-automation system of processes that talk over D-Bus. A peer
  process publishes inputs and outputs with the library of \<open>lib/\<close> (a \<open>server\<close>); the core process,
  \<open>src/\<close>, finds the peers by mDNS, mirrors each with a \<open>client\<close>, stores the history of their values in a
  MySQL database, and applies the rules the user wrote, which compute the outputs from the inputs.

  \<^bold>\<open>How the parts interact.\<close> \<open>src/main.c\<close> parses the rules file with the parser of \<open>src/rules.y\<close> into an
  engine: label blocks, triggers, and variables whose values are expressions. The browser of
  \<open>lib/mdns.c\<close> reports services; \<open>src/mdns.c\<close> starts a client for each and rebuilds the tables of inputs and
  outputs. A change signal of a mirrored object reaches the handlers of \<open>src/main.c\<close>, which emit it
  to the debugger (\<open>src/debug-server.c\<close>), store it (\<open>lib/mysql-client.c\<close>) and apply the rules
  (\<open>src/engine.c\<close>), whose assignments call \<open>SetOutput\<close> and \<open>SetInput\<close> on the clients or set a variable,
  and a changed variable applies the rules again.

  \<^bold>\<open>Conventions.\<close> \<open>'a res\<close> (Prelude) is the result of C code: \<open>Ret\<close>, \<open>Ub\<close> for undefined behaviour (a
  freed object, a wrong union member, an indeterminate value), \<open>Abort\<close> for a failed \<open>g_assert\<close>, and \<open>Fuel\<close>
  when the recursion is deeper than the stack the caller grants. Objects are records, enumerations datatypes,
  integers words of their width, \<open>double\<close> the type \<open>f64\<close> of Float64, with IEEE rounding.
  Hash tables are association lists with the laws of the locale \<open>hash_table\<close>. Signals that an object
  emits are collected in a field of the model or returned. D-Bus, Avahi, MySQL, the files of
  \<open>/proc\<close>, the resolver of names, the pattern for service names, the parser of options and the preprocessor of the
  rules are parameters of the definitions that use
  them.

  \<^bold>\<open>The theories, by component.\<close>
  \<^item> Prelude, Float64, CString: results, hash tables, pointer arrays; arithmetic of doubles and \<open>%lf\<close>;
    \<open>strtoul\<close>, \<open>sscanf\<close>.
  \<^item> Defs (\<open>include/starter/defs.h\<close>, \<open>error.h\<close>), Iocell, Input, Output (\<open>lib/input.c\<close>, \<open>lib/output.c\<close>), Stats
    (\<open>lib/stats.c\<close>): the objects that are mirrored. The locale \<open>io_cell\<close> of Iocell is interpreted for inputs and outputs.
    Lemmas: the bounds survive every setter but one, a failed setter changes nothing, \<open>set_full\<close> refines the run of
    the single setters.
  \<^item> Client, ClientStart (\<open>lib/client.c\<close>): the proxy, its calls, the synchronous start, and the asynchronous start
    as a machine whose steps are answers, signals and a cancellation. Server (\<open>lib/server.c\<close>), Mirror: the
    other end, and both together: a client takes over what its server has, and follows every change of it.
  \<^item> Mysql (\<open>lib/mysql-client.c\<close>): the text of every statement and a reader of that text. Mdns
    (\<open>lib/mdns.c\<close>, \<open>lib/mdns-service.c\<close>): the browser against the events that reached it. Collector
    (\<open>lib/process-stats-collector.c\<close>, \<open>lib/stats-collector.c\<close>).
  \<^item> Expr (\<open>src/expr.c\<close>) with ExprSafe, ExprDeps, ExprFuncs: nodes in a heap with reference counts. ExprSafe
    shows that evaluation neither reads freed nodes nor runs out of stack when a rank falls along the
    references; ExprDeps that a negative answer of \<open>expr_have_ref_to\<close> is right.
  \<^item> Engine (\<open>src/engine.c\<close>, \<open>src/var.c\<close>) with EngineSafe and EngineCalls: the application of rules, what it
    owns, and what it may send (locales \<open>run_relation\<close>, \<open>engine_relation\<close>).
  \<^item> Debug, DebugPoints (\<open>src/debug-server.c\<close>): bind address, peers, signals, points, stop and continue.
  \<^item> Core, CoreEvents (\<open>src/main.c\<close>, \<open>src/mdns.c\<close>): handlers, tables, peers, and the main loop as a
    sequence of events. CoreSafe, CoreLoops, CoreInv, CoreRun, CoreLive: one handler, rules that never settle, the
    invariant of the registry, each event, and all runs from the start.
  \<^item> RulesTables, Parser (\<open>src/rules.c\<close>, generated from \<open>src/rules.y\<close>): the tables and the loop of
    \<open>yyparse\<close> with every action. RulesFacts, RulesAuto: the decisions of the automaton, and a certificate
    of what can lie below a state, checked against the tables. RulesRun: the parser is a machine without a
    lookahead variable. RulesHeap, RulesSafe, RulesTotal: the actions keep types and reference counts, and the parser
    returns. RulesEval: single inputs. RulesRound, RulesProgram, RulesReads: printing and reading back.
  \<^item> LexTables, Lex (\<open>src/lex.c\<close>, generated from \<open>src/lex.l\<close>): the tables and \<open>yylex\<close> with its
    buffer, and \<open>atof\<close>. LexRegex, LexFacts, LexDfa: the patterns of \<open>src/lex.l\<close>, and a certificate, checked
    against the tables, of what is left of them in each state. LexScan: the longest match, and the scanner without a buffer.
    LexBuffer, LexSim: the buffer makes no difference. LexText: the contract of \<open>yylex\<close>.
    LexParse: the parser on a file is the parser on the tokens of its text. LexProgram: programs written as text.
  \<^item> RulesLive: the nodes of a parsed program have a rank when no name depends on itself. Startup (\<open>main\<close> of
    \<open>src/main.c\<close> up to the main loop, and \<open>st_g_string_replace\<close> of \<open>lib/glib-compat.c\<close>): the options, the
    preprocessor, the parser and the start of the core. It puts the parts together: from the text of a rules file to
    every run of the main loop.

  \<^bold>\<open>Bounds and fuel.\<close> The evaluation of expressions takes the depth of the stack, \<open>ev_fuel\<close>; any depth above the rank
  of the expression is enough (ExprSafe), and without a rank none is (ExprDeps). The nesting of rule
  applications, \<open>ce_depth\<close>, is a parameter: the safety theorems hold for every depth and count its end as
  \<open>Fuel\<close>, and CoreLoops shows rules for which no depth is enough. \<open>yyparse\<close> takes a number of
  rounds, of which eight for each token and ten are enough (RulesTotal), and \<open>yylex\<close> a number of gotos, of which
  \<open>yylex_cost\<close> of the length of the text are enough (LexSim); a text has less than \<open>2^30\<close> characters, as positions
  and sizes of the buffer are \<open>int\<close> in the code. The stack of the parser is bounded by
  \<open>YYMAXDEPTH\<close>, as in the code.

  \<^bold>\<open>Not modelled.\<close> GObject registration, reference counting of objects other than expressions, getters, and the
  introspection XML; logging and verbose output; read errors of the rules file;
  the text of syntax errors; \<open>engine_describe\<close> and the functions that free blocks at the end of the program; the rest
  of \<open>lib/glib-compat.c\<close>, which replaces library functions of old GLib versions; the examples and the test programs.
\<close>

end
